(* ===== verification/Prelude.thy ===== *)
theory Prelude
  imports Main "HOL-Library.Word" "HOL-Library.Sublist" "HOL-Library.List_Lexorder"
    "HOL-Library.Char_ord" "HOL-Library.Product_Lexorder"
begin

text \<open>
  Shared vocabulary of the development.  A Go string is a list of bytes (\<open>string\<close>, one
  \<open>char\<close> per byte), a \<open>time.Time\<close> is the number of nanoseconds since Go's zero time (so
  \<open>IsZero\<close> is \<open>t = 0\<close>), and a 64-bit integer is an \<open>int\<close> or a \<open>64 word\<close> as the
  component needs it.  The theory holds the functions of package \<open>strings\<close> the panel
  calls, UTF-8 decoding and encoding of runes, and generic facts on lists.
\<close>

named_theorems go_simps \<open>evaluation of the string functions on concrete input\<close>

type_synonym time = int

abbreviation is_zero :: "time \<Rightarrow> bool" where
  "is_zero t \<equiv> t = 0"

abbreviation second :: int where
  "second \<equiv> 1000000000"

abbreviation hour :: int where
  "hour \<equiv> 3600 * second"

section \<open>Bytes and the white space of strings.TrimSpace\<close>

definition bytes :: "nat list \<Rightarrow> string" where
  "bytes ns = map char_of ns"

abbreviation ord :: "char \<Rightarrow> nat" where
  "ord c \<equiv> of_char c"

text \<open>
  The UTF-8 encodings of the runes with Unicode's White\_Space property, which
  \<open>unicode.IsSpace\<close> accepts.
\<close>

definition space_runes :: "string list" where
  "space_runes =
     map bytes
      ([[9], [10], [11], [12], [13], [32], [0xC2, 0x85], [0xC2, 0xA0], [0xE1, 0x9A, 0x80]]
       @ map (\<lambda>n. [0xE2, 0x80, n]) [0x80 ..< 0x8B]
       @ [[0xE2, 0x80, 0xA8], [0xE2, 0x80, 0xA9], [0xE2, 0x80, 0xAF], [0xE2, 0x81, 0x9F],
          [0xE3, 0x80, 0x80]])"

lemma space_runes_nonempty: "w \<in> set space_runes \<Longrightarrow> w \<noteq> []"
  by (auto simp: space_runes_def bytes_def)

lemma space_runes_edges:
  "w \<in> set space_runes \<Longrightarrow> ord (hd w) \<le> 32 \<or> 127 \<le> ord (hd w)"
  "w \<in> set space_runes \<Longrightarrow> ord (last w) \<le> 32 \<or> 127 \<le> ord (last w)"
  by (auto simp: space_runes_def bytes_def)

definition space_prefix :: "string \<Rightarrow> string option" where
  "space_prefix s = find (\<lambda>w. prefix w s) space_runes"

lemma space_prefix_Some:
  "space_prefix s = Some w \<Longrightarrow> w \<in> set space_runes \<and> prefix w s"
  by (auto simp: space_prefix_def find_Some_iff)

function trim_left :: "string \<Rightarrow> string" where
  "trim_left s = (case space_prefix s of None \<Rightarrow> s | Some w \<Rightarrow> trim_left (drop (length w) s))"
  by pat_completeness auto
termination
proof (relation "measure length")
  fix s w assume "space_prefix s = Some w"
  then have "w \<noteq> []" "prefix w s"
    using space_prefix_Some space_runes_nonempty by blast+
  then show "(drop (length w) s, s) \<in> measure length"
    by (cases w) (auto simp: prefix_def)
qed simp

declare trim_left.simps [simp del]

definition space_suffix :: "string \<Rightarrow> string option" where
  "space_suffix s = find (\<lambda>w. suffix w s) space_runes"

lemma space_suffix_Some:
  "space_suffix s = Some w \<Longrightarrow> w \<in> set space_runes \<and> suffix w s"
  by (auto simp: space_suffix_def find_Some_iff)

function trim_right :: "string \<Rightarrow> string" where
  "trim_right s =
     (case space_suffix s of None \<Rightarrow> s | Some w \<Rightarrow> trim_right (take (length s - length w) s))"
  by pat_completeness auto
termination
proof (relation "measure length")
  fix s w assume "space_suffix s = Some w"
  then have "w \<noteq> []" "suffix w s"
    using space_suffix_Some space_runes_nonempty by blast+
  then show "(take (length s - length w) s, s) \<in> measure length"
    by (cases w) (auto simp: suffix_def)
qed simp

declare trim_right.simps [simp del]

definition trim_space :: "string \<Rightarrow> string" where
  "trim_space s = trim_right (trim_left s)"

lemma space_prefix_trim_left [simp]: "space_prefix (trim_left s) = None"
proof (induction s rule: trim_left.induct)
  case (1 s)
  then show ?case
    by (cases "space_prefix s") (simp_all add: trim_left.simps [of s])
qed

lemma space_suffix_trim_right [simp]: "space_suffix (trim_right s) = None"
proof (induction s rule: trim_right.induct)
  case (1 s)
  then show ?case
    by (cases "space_suffix s") (simp_all add: trim_right.simps [of s])
qed

lemma prefix_trim_right: "prefix (trim_right s) s"
proof (induction s rule: trim_right.induct)
  case (1 s)
  show ?case
  proof (cases "space_suffix s")
    case None
    then show ?thesis by (simp add: trim_right.simps [of s])
  next
    case (Some w)
    then have "prefix (trim_right s) (take (length s - length w) s)"
      using "1.IH" by (simp add: trim_right.simps [of s])
    then show ?thesis
      using take_is_prefix prefix_order.order_trans by blast
  qed
qed

lemma suffix_trim_left: "suffix (trim_left s) s"
proof (induction s rule: trim_left.induct)
  case (1 s)
  show ?case
  proof (cases "space_prefix s")
    case None
    then show ?thesis by (simp add: trim_left.simps [of s])
  next
    case (Some w)
    then have "suffix (trim_left s) (drop (length w) s)"
      using "1.IH" by (simp add: trim_left.simps [of s])
    then show ?thesis
      using suffix_drop suffix_order.order_trans by blast
  qed
qed

lemma space_prefix_antimono:
  "prefix t s \<Longrightarrow> space_prefix s = None \<Longrightarrow> space_prefix t = None"
  unfolding space_prefix_def find_None_iff
  by (meson prefix_order.order_trans)

lemma space_prefix_trim_space [simp]: "space_prefix (trim_space s) = None"
  unfolding trim_space_def
  by (rule space_prefix_antimono [OF prefix_trim_right space_prefix_trim_left])

lemma space_suffix_trim_space [simp]: "space_suffix (trim_space s) = None"
  by (simp add: trim_space_def)

lemma trim_space_fixed: "space_prefix s = None \<Longrightarrow> space_suffix s = None \<Longrightarrow> trim_space s = s"
  by (simp add: trim_space_def trim_left.simps [of s] trim_right.simps [of s])

lemma trim_space_idem [simp]: "trim_space (trim_space s) = trim_space s"
  by (simp add: trim_space_fixed)

lemma length_trim_space: "length (trim_space s) \<le> length s"
proof -
  have "length (trim_right (trim_left s)) \<le> length (trim_left s)"
    using prefix_trim_right prefix_length_le by blast
  also have "\<dots> \<le> length s"
    using suffix_trim_left suffix_length_le by blast
  finally show ?thesis by (simp add: trim_space_def)
qed

lemma set_trim_space: "set (trim_space s) \<subseteq> set s"
proof -
  have "set (trim_right (trim_left s)) \<subseteq> set (trim_left s)"
    using prefix_trim_right set_mono_prefix by blast
  also have "\<dots> \<subseteq> set s"
    using suffix_trim_left set_mono_suffix by blast
  finally show ?thesis by (simp add: trim_space_def)
qed

text \<open>A printable ASCII byte at both ends: nothing to trim.\<close>

abbreviation graphic :: "char \<Rightarrow> bool" where
  "graphic c \<equiv> 32 < ord c \<and> ord c < (127::nat)"

lemma space_prefix_graphic: "graphic (hd s) \<Longrightarrow> space_prefix s = None"
proof (rule ccontr)
  assume g: "graphic (hd s)" and "space_prefix s \<noteq> None"
  then obtain w where w: "w \<in> set space_runes" "prefix w s"
    using space_prefix_Some by blast
  then have "hd w = hd s"
    using space_runes_nonempty by (fastforce simp: prefix_def)
  with w(1) g space_runes_edges(1) show False by fastforce
qed

lemma space_suffix_graphic: "graphic (last s) \<Longrightarrow> space_suffix s = None"
proof (rule ccontr)
  assume g: "graphic (last s)" and "space_suffix s \<noteq> None"
  then obtain w where w: "w \<in> set space_runes" "suffix w s"
    using space_suffix_Some by blast
  then have "last w = last s"
    using space_runes_nonempty by (fastforce simp: suffix_def)
  with w(1) g space_runes_edges(2) show False by fastforce
qed

lemma trim_space_Nil [simp]: "trim_space [] = []"
  using length_trim_space [of "[]"] by simp

lemma trim_space_graphic [go_simps]:
  "graphic (hd s) \<Longrightarrow> graphic (last s) \<Longrightarrow> trim_space s = s"
  by (simp add: trim_space_fixed space_prefix_graphic space_suffix_graphic)

section \<open>Case mapping and substitution\<close>

text \<open>
  \<open>strings.ToLower\<close> and \<open>strings.ToUpper\<close> map the 26 ASCII letters of an ASCII string;
  a string with other bytes goes through Unicode's case tables, which are the parameter
  \<open>uni\<close>.
\<close>

type_synonym casemap = "string \<Rightarrow> string"

definition ascii :: "string \<Rightarrow> bool" where
  "ascii s \<longleftrightarrow> list_all (\<lambda>c. ord c < 128) s"

definition lower_char :: "char \<Rightarrow> char" where
  "lower_char c = (if 65 \<le> ord c \<and> ord c \<le> 90 then char_of (ord c + 32) else c)"

definition upper_char :: "char \<Rightarrow> char" where
  "upper_char c = (if 97 \<le> ord c \<and> ord c \<le> 122 then char_of (ord c - 32) else c)"

definition to_lower :: "casemap \<Rightarrow> string \<Rightarrow> string" where
  "to_lower uni s = (if ascii s then map lower_char s else uni s)"

definition to_upper :: "casemap \<Rightarrow> string \<Rightarrow> string" where
  "to_upper uni s = (if ascii s then map upper_char s else uni s)"

lemmas case_simps = to_lower_def to_upper_def ascii_def lower_char_def upper_char_def

abbreviation has_prefix :: "string \<Rightarrow> string \<Rightarrow> bool" where
  "has_prefix s p \<equiv> prefix p s"

abbreviation has_suffix :: "string \<Rightarrow> string \<Rightarrow> bool" where
  "has_suffix s p \<equiv> suffix p s"

text \<open>\<open>strings.ReplaceAll(s, "-", "")\<close>\<close>

definition drop_dashes :: "string \<Rightarrow> string" where
  "drop_dashes s = filter (\<lambda>c. c \<noteq> CHR ''-'') s"

definition default_string :: "string \<Rightarrow> string \<Rightarrow> string" where
  "default_string v fallback = (if v = [] then fallback else v)"

section \<open>UTF-8\<close>

type_synonym rune = nat

definition rune_error :: rune where
  "rune_error = 0xFFFD"

definition cont_byte :: "nat \<Rightarrow> bool" where
  "cont_byte b \<longleftrightarrow> 0x80 \<le> b \<and> b \<le> 0xBF"

text \<open>
  The range of the second byte, as the table \<open>first\<close> of package \<open>unicode/utf8\<close> gives it
  for a leading byte of a sequence of the given length.
\<close>

definition second_ok :: "nat \<Rightarrow> nat \<Rightarrow> bool" where
  "second_ok b0 b1 \<longleftrightarrow>
     (if b0 = 0xE0 then 0xA0 \<le> b1 \<and> b1 \<le> 0xBF
      else if b0 = 0xED then 0x80 \<le> b1 \<and> b1 \<le> 0x9F
      else if b0 = 0xF0 then 0x90 \<le> b1 \<and> b1 \<le> 0xBF
      else if b0 = 0xF4 then 0x80 \<le> b1 \<and> b1 \<le> 0x8F
      else cont_byte b1)"

definition rune_width :: "nat \<Rightarrow> nat" where
  "rune_width b0 =
     (if 0xC2 \<le> b0 \<and> b0 \<le> 0xDF then 2
      else if 0xE0 \<le> b0 \<and> b0 \<le> 0xEF then 3
      else if 0xF0 \<le> b0 \<and> b0 \<le> 0xF4 then 4
      else 1)"

text \<open>One step of a \<open>range\<close> loop over a string: the rune at its head and its width.\<close>

definition decode_rune :: "nat list \<Rightarrow> rune \<times> nat" where
  "decode_rune bs =
     (case bs of
        [] \<Rightarrow> (rune_error, 0)
      | b0 # r1 \<Rightarrow>
         if b0 < 0x80 then (b0, 1)
         else (case (rune_width b0, r1) of
            (n, b1 # r2) \<Rightarrow>
              if n = 2 \<and> second_ok b0 b1 then ((b0 - 0xC0) * 0x40 + (b1 - 0x80), 2)
              else (case r2 of
                 b2 # r3 \<Rightarrow>
                   if n = 3 \<and> second_ok b0 b1 \<and> cont_byte b2
                   then ((b0 - 0xE0) * 0x1000 + (b1 - 0x80) * 0x40 + (b2 - 0x80), 3)
                   else (case r3 of
                      b3 # _ \<Rightarrow>
                        if n = 4 \<and> second_ok b0 b1 \<and> cont_byte b2 \<and> cont_byte b3
                        then ((b0 - 0xF0) * 0x40000 + (b1 - 0x80) * 0x1000
                               + (b2 - 0x80) * 0x40 + (b3 - 0x80), 4)
                        else (rune_error, 1)
                    | [] \<Rightarrow> (rune_error, 1))
               | [] \<Rightarrow> (rune_error, 1))
          | (_, []) \<Rightarrow> (rune_error, 1)))"

lemma decode_rune_width: "bs \<noteq> [] \<Longrightarrow> 1 \<le> snd (decode_rune bs) \<and> snd (decode_rune bs) \<le> length bs"
  by (auto simp: decode_rune_def Let_def split: list.splits if_splits)

text \<open>\<open>strings.Builder.WriteRune\<close> for the runes a \<open>range\<close> loop yields.\<close>

definition encode_rune :: "rune \<Rightarrow> nat list" where
  "encode_rune r =
     (if r < 0x80 then [r]
      else if r < 0x800 then [0xC0 + r div 0x40, 0x80 + r mod 0x40]
      else if r < 0x10000 then [0xE0 + r div 0x1000, 0x80 + r div 0x40 mod 0x40, 0x80 + r mod 0x40]
      else [0xF0 + r div 0x40000, 0x80 + r div 0x1000 mod 0x40,
            0x80 + r div 0x40 mod 0x40, 0x80 + r mod 0x40])"

lemma length_encode_rune: "1 \<le> length (encode_rune r) \<and> length (encode_rune r) \<le> 4"
  by (simp add: encode_rune_def)

text \<open>A string literal of the source given by its code points.\<close>

definition utf8 :: "rune list \<Rightarrow> string" where
  "utf8 rs = bytes (concat (map encode_rune rs))"

section \<open>Generic facts on lists\<close>

definition first_by :: "('r \<Rightarrow> 'k::linorder) \<Rightarrow> 'r list \<Rightarrow> 'r option" where
  "first_by k rows = (case sort_key k rows of [] \<Rightarrow> None | r # _ \<Rightarrow> Some r)"

lemma first_by_Nil [simp]: "first_by k [] = None"
  by (simp add: first_by_def)

lemma first_by_None [simp]: "first_by k rows = None \<longleftrightarrow> rows = []"
  by (auto simp: first_by_def split: list.splits) (metis set_sort set_empty)

lemma first_by_Some:
  assumes "first_by k rows = Some r"
  shows "r \<in> set rows" and "\<And>r'. r' \<in> set rows \<Longrightarrow> k r \<le> k r'"
proof -
  from assms obtain rs where eq: "sort_key k rows = r # rs"
    by (auto simp: first_by_def split: list.splits)
  then have set: "set rows = insert r (set rs)"
    by (metis list.simps(15) set_sort)
  then show "r \<in> set rows" by simp
  have "sorted (map k (r # rs))"
    using eq by (metis sorted_sort_key)
  then show "k r \<le> k r'" if "r' \<in> set rows" for r'
    using that set by auto
qed

definition upd_where :: "('r \<Rightarrow> bool) \<Rightarrow> ('r \<Rightarrow> 'r) \<Rightarrow> 'r list \<Rightarrow> 'r list" where
  "upd_where p f rows = map (\<lambda>r. if p r then f r else r) rows"

lemma upd_where_Nil [simp]: "upd_where p f [] = []"
  by (simp add: upd_where_def)

lemma upd_where_Cons [simp]:
  "upd_where p f (r # rows) = (if p r then f r else r) # upd_where p f rows"
  by (simp add: upd_where_def)

lemma length_upd_where [simp]: "length (upd_where p f rows) = length rows"
  by (simp add: upd_where_def)

lemma set_upd_where: "set (upd_where p f rows) = (\<lambda>r. if p r then f r else r) ` set rows"
  by (simp add: upd_where_def)

lemma upd_where_cases:
  assumes "q \<in> set (upd_where p f rows)"
  obtains (changed) r where "r \<in> set rows" "p r" "q = f r" | (kept) "q \<in> set rows" "\<not> p q"
  using assms unfolding set_upd_where image_iff by metis

lemma upd_where_hit: "r \<in> set rows \<Longrightarrow> p r \<Longrightarrow> f r \<in> set (upd_where p f rows)"
  unfolding set_upd_where image_iff by metis

lemma upd_where_miss: "r \<in> set rows \<Longrightarrow> \<not> p r \<Longrightarrow> r \<in> set (upd_where p f rows)"
  unfolding set_upd_where image_iff by metis

lemma map_upd_where:
  "(\<And>r. key (f r) = key r) \<Longrightarrow> map key (upd_where p f rows) = map key rows"
  by (simp add: upd_where_def)

lemma find_upd_where_key:
  "(\<And>r. key (f r) = key r) \<Longrightarrow>
   find (\<lambda>r. key r = k) (upd_where p f rows)
     = map_option (\<lambda>r. if p r then f r else r) (find (\<lambda>r. key r = k) rows)"
  by (induction rows) auto

lemma find_upd_where_hit:
  "(\<And>r. key (f r) = key r) \<Longrightarrow> find (\<lambda>r. key r = k) rows = Some r \<Longrightarrow>
   find (\<lambda>r. key r = k) (upd_where (\<lambda>r. key r = k) f rows) = Some (f r)"
  by (induction rows) (auto split: if_splits)

lemma image_where: "f ` {x \<in> A. P (f x)} = {l \<in> f ` A. P l}"
  by auto

lemma find_key_in:
  "find (\<lambda>r. key r = k) rows = Some r \<Longrightarrow> r \<in> set rows \<and> key r = k"
  by (auto simp: find_Some_iff)

lemma find_append_Some: "find p xs = Some x \<Longrightarrow> find p (xs @ ys) = Some x"
  by (induction xs) (auto split: if_splits)

lemma find_key_distinct:
  "distinct (map key rows) \<Longrightarrow> r \<in> set rows \<Longrightarrow> find (\<lambda>x. key x = key r) rows = Some r"
  by (induction rows) auto

lemma filter_key_distinct:
  "distinct (map key rows) \<Longrightarrow> find (\<lambda>r. key r = k) rows = Some r \<Longrightarrow>
   filter (\<lambda>r. key r = k) rows = [r]"
proof (induction rows)
  case (Cons x rows)
  then show ?case
    by (auto split: if_splits simp: filter_empty_conv) (metis image_eqI)
qed simp

section \<open>Results\<close>

text \<open>Success passes every guard and every earlier step.\<close>

lemma guard_Inr: "(if c then Inl e else x) = Inr a \<longleftrightarrow> \<not> c \<and> x = Inr a"
  by simp

lemma case_Inr: "(case r of Inl e \<Rightarrow> Inl e | Inr v \<Rightarrow> f v) = Inr a \<longleftrightarrow> (\<exists>v. r = Inr v \<and> f v = Inr a)"
  by (cases r) auto

end
