(* ===== verification/Engine.thy ===== *)
theory Engine
  imports Prelude
begin

text \<open>
  The store the services share.  The panel keeps its state in SQL tables behind gorm; a
  table is a list of rows here, and one call of the database engine is one pure function of
  the tables.  What the engine does when it fails is not the panel's code: \<open>fate\<close> is a
  parameter, the outcomes of the coming engine calls (\<open>True\<close>: the call returns an error and
  has no effect), so every statement about an operation that holds for all \<open>fate\<close> holds
  whichever of its calls fail.  \<open>attached\<close> is the service's \<open>db != nil\<close>.  A service operation is an action: it threads the tables and
  stops at the first error, as the \<open>if err != nil { return err }\<close> of the source does.
\<close>

record 'db engine =
  tables :: 'db
  fate :: "bool list"
  attached :: bool

type_synonym ('db, 'e, 'a) act = "'db engine \<Rightarrow> ('e + 'a) \<times> 'db engine"

section \<open>Actions\<close>

definition ret :: "'a \<Rightarrow> ('db, 'e, 'a) act" where
  "ret a s = (Inr a, s)"

definition throw :: "'e \<Rightarrow> ('db, 'e, 'a) act" where
  "throw e s = (Inl e, s)"

definition bnd :: "('db, 'e, 'a) act \<Rightarrow> ('a \<Rightarrow> ('db, 'e, 'b) act) \<Rightarrow> ('db, 'e, 'b) act" where
  "bnd m f s = (case m s of (Inl e, s') \<Rightarrow> (Inl e, s') | (Inr a, s') \<Rightarrow> f a s')"

text \<open>One call of the engine; \<open>e\<close> is the error the caller returns when it fails.\<close>

definition exec :: "'e \<Rightarrow> ('db \<Rightarrow> 'a \<times> 'db) \<Rightarrow> ('db, 'e, 'a) act" where
  "exec e f s =
     (case fate s of
        True # fs \<Rightarrow> (Inl e, s\<lparr>fate := fs\<rparr>)
      | _ \<Rightarrow> (case f (tables s) of
                (a, db) \<Rightarrow> (Inr a, s\<lparr>tables := db, fate := tl (fate s)\<rparr>)))"

definition query :: "'e \<Rightarrow> ('db \<Rightarrow> 'a) \<Rightarrow> ('db, 'e, 'a) act" where
  "query e f = exec e (\<lambda>db. (f db, db))"

definition modify :: "'e \<Rightarrow> ('db \<Rightarrow> 'db) \<Rightarrow> ('db, 'e, unit) act" where
  "modify e f = exec e (\<lambda>db. ((), f db))"

text \<open>
  A statement that a unique index or a primary key may refuse: the engine rejects the row
  and the tables stay as they are.
\<close>

definition insert_row :: "'e \<Rightarrow> ('db \<Rightarrow> 'db option) \<Rightarrow> ('db, 'e, unit) act" where
  "insert_row e f =
     bnd (exec e (\<lambda>db. case f db of None \<Rightarrow> (False, db) | Some db' \<Rightarrow> (True, db')))
         (\<lambda>ok. if ok then ret () else throw e)"

text \<open>
  \<open>db.Transaction(func(tx) error)\<close>: BEGIN, the body, COMMIT; an error of the body or of
  BEGIN or COMMIT leaves the tables as they were.
\<close>

definition transaction :: "'e \<Rightarrow> ('db, 'e, 'a) act \<Rightarrow> ('db, 'e, 'a) act" where
  "transaction e m s =
     (case exec e (\<lambda>db. ((), db)) s of
        (Inl x, s1) \<Rightarrow> (Inl x, s1)
      | (Inr _, s1) \<Rightarrow>
         (case m s1 of
            (Inl x, s2) \<Rightarrow> (Inl x, s2\<lparr>tables := tables s\<rparr>)
          | (Inr a, s2) \<Rightarrow>
             (case exec e (\<lambda>db. ((), db)) s2 of
                (Inl x, s3) \<Rightarrow> (Inl x, s3\<lparr>tables := tables s\<rparr>)
              | (Inr _, s3) \<Rightarrow> (Inr a, s3))))"

text \<open>\<open>if service.db == nil { return nil, errors.New(...) }\<close>\<close>

definition guard_db :: "'e \<Rightarrow> ('db, 'e, 'a) act \<Rightarrow> ('db, 'e, 'a) act" where
  "guard_db e m s = (if attached s then m s else (Inl e, s))"

text \<open>An engine call whose error the caller discards.\<close>

definition ignoring :: "('db, 'e, unit) act \<Rightarrow> ('db, 'e, unit) act" where
  "ignoring m s = (Inr (), snd (m s))"

text \<open>A loop over a slice that stops at the first error.\<close>

fun each :: "('x \<Rightarrow> ('db, 'e, unit) act) \<Rightarrow> 'x list \<Rightarrow> ('db, 'e, unit) act" where
  "each f [] = ret ()"
| "each f (x # xs) = bnd (f x) (\<lambda>_. each f xs)"

text \<open>The result of an action and the tables it leaves.\<close>

definition result :: "('db, 'e, 'a) act \<Rightarrow> 'db engine \<Rightarrow> 'e + 'a" where
  "result m s = fst (m s)"

definition after :: "('db, 'e, 'a) act \<Rightarrow> 'db engine \<Rightarrow> 'db" where
  "after m s = tables (snd (m s))"

text \<open>An engine with the given tables whose calls all succeed.\<close>

definition healthy :: "'db \<Rightarrow> 'db engine" where
  "healthy db = \<lparr>tables = db, fate = [], attached = True\<rparr>"

section \<open>Evaluation\<close>

named_theorems act_eval \<open>evaluation of actions on an engine\<close>

lemma ret_run [act_eval, simp]: "ret a s = (Inr a, s)"
  by (simp add: ret_def)

lemma throw_run [act_eval, simp]: "throw e s = (Inl e, s)"
  by (simp add: throw_def)

lemma bnd_run [act_eval]:
  "bnd m f s = (case m s of (Inl e, s') \<Rightarrow> (Inl e, s') | (Inr a, s') \<Rightarrow> f a s')"
  by (simp add: bnd_def)

lemma healthy_sel [act_eval, simp]: "tables (healthy db) = db" "fate (healthy db) = []"
    "attached (healthy db)"
  by (simp_all add: healthy_def)

lemma healthy_inject [simp]: "healthy a = healthy b \<longleftrightarrow> a = b"
  by (auto simp: healthy_def)

lemma exec_healthy [act_eval, simp]:
  "exec e f (healthy db) = (case f db of (a, db') \<Rightarrow> (Inr a, healthy db'))"
  by (simp add: exec_def healthy_def split: prod.splits)

lemma query_healthy [act_eval, simp]: "query e f (healthy db) = (Inr (f db), healthy db)"
  by (simp add: query_def)

lemma modify_healthy [act_eval, simp]: "modify e f (healthy db) = (Inr (), healthy (f db))"
  by (simp add: modify_def)

lemma insert_row_healthy [act_eval]:
  "insert_row e f (healthy db) =
     (case f db of None \<Rightarrow> (Inl e, healthy db) | Some db' \<Rightarrow> (Inr (), healthy db'))"
  by (simp add: insert_row_def bnd_run split: option.splits)

lemma guard_db_healthy [act_eval, simp]: "guard_db e m (healthy db) = m (healthy db)"
  by (simp add: guard_db_def)

lemma healthy_tables_update [simp]: "(healthy db)\<lparr>tables := db'\<rparr> = healthy db'"
  by (simp add: healthy_def)

lemma transaction_healthy [act_eval]:
  "transaction e m (healthy db) =
     (case m (healthy db) of
        (Inl x, s) \<Rightarrow> (Inl x, s\<lparr>tables := db\<rparr>)
      | (Inr a, s) \<Rightarrow>
          (case exec e (\<lambda>db. ((), db)) s of
             (Inl x, s') \<Rightarrow> (Inl x, s'\<lparr>tables := db\<rparr>) | (Inr _, s') \<Rightarrow> (Inr a, s')))"
  by (simp add: transaction_def split: sum.splits prod.splits)

section \<open>Case rules\<close>

lemma exec_cases:
  obtains (fails) fs where "fate s = True # fs" "exec e f s = (Inl e, s\<lparr>fate := fs\<rparr>)"
  | (runs) a db where "f (tables s) = (a, db)"
      "exec e f s = (Inr a, s\<lparr>tables := db, fate := tl (fate s)\<rparr>)"
proof (cases "\<exists>fs. fate s = True # fs")
  case True
  then show ?thesis using fails by (auto simp: exec_def)
next
  case False
  obtain a db where f: "f (tables s) = (a, db)" by fastforce
  with False have "exec e f s = (Inr a, s\<lparr>tables := db, fate := tl (fate s)\<rparr>)"
    by (auto simp: exec_def split: list.splits bool.splits)
  with f runs show ?thesis by blast
qed

lemma exec_Inr: "exec e f s = (Inr a, s') \<Longrightarrow> f (tables s) = (a, tables s')"
  by (cases rule: exec_cases [of s e f]) auto

lemma exec_Inl: "exec e f s = (Inl x, s') \<Longrightarrow> x = e \<and> tables s' = tables s"
  by (cases rule: exec_cases [of s e f]) auto

lemma query_Inr:
  "query e f s = (Inr a, s') \<Longrightarrow> a = f (tables s) \<and> tables s' = tables s"
  by (cases rule: exec_cases [of s e "\<lambda>db. (f db, db)"]) (auto simp: query_def)

lemma query_tables [simp]: "tables (snd (query e f s)) = tables s"
  by (cases rule: exec_cases [of s e "\<lambda>db. (f db, db)"]) (auto simp: query_def)

lemma query_Inl: "query e f s = (Inl x, s') \<Longrightarrow> x = e \<and> tables s' = tables s"
  by (cases rule: exec_cases [of s e "\<lambda>db. (f db, db)"]) (auto simp: query_def)

lemma modify_Inr: "modify e f s = (Inr a, s') \<Longrightarrow> tables s' = f (tables s)"
  by (cases rule: exec_cases [of s e "\<lambda>db. ((), f db)"]) (auto simp: modify_def)

lemma modify_Inl: "modify e f s = (Inl x, s') \<Longrightarrow> x = e \<and> tables s' = tables s"
  by (cases rule: exec_cases [of s e "\<lambda>db. ((), f db)"]) (auto simp: modify_def)

lemma bnd_Inr:
  "bnd m f s = (Inr b, s') \<longleftrightarrow> (\<exists>a s1. m s = (Inr a, s1) \<and> f a s1 = (Inr b, s'))"
  by (auto simp: bnd_def split: prod.splits sum.splits)

lemma bnd_Inl:
  "bnd m f s = (Inl e, s') \<longleftrightarrow>
     m s = (Inl e, s') \<or> (\<exists>a s1. m s = (Inr a, s1) \<and> f a s1 = (Inl e, s'))"
  by (auto simp: bnd_def split: prod.splits sum.splits)

lemma guard_db_Inr: "guard_db e m s = (Inr a, s') \<longleftrightarrow> attached s \<and> m s = (Inr a, s')"
  by (auto simp: guard_db_def)

lemma guard_db_Inl:
  "guard_db e m s = (Inl x, s') \<longleftrightarrow>
     \<not> attached s \<and> x = e \<and> s' = s \<or> attached s \<and> m s = (Inl x, s')"
  by (auto simp: guard_db_def)

lemma insert_row_Inr:
  "insert_row e f s = (Inr a, s') \<Longrightarrow> f (tables s) = Some (tables s')"
  by (cases rule: exec_cases
        [of s e "\<lambda>db. case f db of None \<Rightarrow> (False, db) | Some db' \<Rightarrow> (True, db')"])
    (auto simp: insert_row_def bnd_Inr split: option.splits if_splits)

lemma insert_row_Inl: "insert_row e f s = (Inl x, s') \<Longrightarrow> x = e \<and> tables s' = tables s"
  by (cases rule: exec_cases
        [of s e "\<lambda>db. case f db of None \<Rightarrow> (False, db) | Some db' \<Rightarrow> (True, db')"])
    (auto simp: insert_row_def bnd_Inl split: option.splits if_splits)

text \<open>A transaction is all or nothing, whichever calls fail.\<close>

lemma transaction_Inl: "transaction e m s = (Inl x, s') \<Longrightarrow> tables s' = tables s"
proof -
  assume run: "transaction e m s = (Inl x, s')"
  show ?thesis
  proof (cases rule: exec_cases [of s e "\<lambda>db. ((), db)"])
    case (fails fs)
    with run show ?thesis by (auto simp: transaction_def)
  next
    case (runs a db)
    with run show ?thesis
      by (auto simp: transaction_def split: prod.splits sum.splits)
  qed
qed

lemma transaction_Inr:
  assumes "transaction e m s = (Inr a, s')"
  obtains s1 s2 where "tables s1 = tables s" "m s1 = (Inr a, s2)" "tables s' = tables s2"
proof (cases rule: exec_cases [of s e "\<lambda>db. ((), db)"])
  case (fails fs)
  with assms show ?thesis by (auto simp: transaction_def)
next
  case (runs u db)
  let ?s1 = "s\<lparr>tables := db, fate := tl (fate s)\<rparr>"
  obtain r s2 where m: "m ?s1 = (r, s2)" by fastforce
  have eq: "tables ?s1 = tables s" using runs by simp
  show ?thesis
  proof (cases r)
    case (Inl x)
    with assms runs m show ?thesis by (simp add: transaction_def)
  next
    case (Inr b)
    have "b = a \<and> tables s' = tables s2"
      using assms runs m Inr
      by (cases rule: exec_cases [of s2 e "\<lambda>db. ((), db)"]) (auto simp: transaction_def)
    with that eq m Inr show ?thesis by blast
  qed
qed

section \<open>Invariants of actions\<close>

text \<open>
  An action keeps a predicate of the tables if it holds after the action whatever it
  returned.  The rules compose along the structure of the action.
\<close>

definition keeps :: "('db \<Rightarrow> bool) \<Rightarrow> ('db, 'e, 'a) act \<Rightarrow> bool" where
  "keeps I m \<longleftrightarrow> (\<forall>s. I (tables s) \<longrightarrow> I (tables (snd (m s))))"

named_theorems keeps_rules \<open>structural rules for invariants of actions\<close>

lemma keepsD: "keeps I m \<Longrightarrow> I (tables s) \<Longrightarrow> m s = (r, s') \<Longrightarrow> I (tables s')"
  unfolding keeps_def by (metis snd_conv)

lemma keeps_after: "keeps I m \<Longrightarrow> I (tables s) \<Longrightarrow> I (after m s)"
  by (simp add: keeps_def after_def)

lemma keeps_ret [keeps_rules]: "keeps I (ret a)"
  by (simp add: keeps_def)

lemma keeps_throw [keeps_rules]: "keeps I (throw e)"
  by (simp add: keeps_def)

lemma keeps_query [keeps_rules]: "keeps I (query e f)"
  by (simp add: keeps_def)

lemma keeps_exec:
  fixes I :: "'db \<Rightarrow> bool"
  assumes "\<And>db. I db \<Longrightarrow> I (snd (f db))"
  shows "keeps I (exec e f)"
  unfolding keeps_def
proof (intro allI impI)
  fix s :: "'db engine" assume "I (tables s)"
  then show "I (tables (snd (exec e f s)))"
    using assms [of "tables s"]
    by (cases rule: exec_cases [of s e f]) auto
qed

lemma keeps_modify [keeps_rules]: "(\<And>db. I db \<Longrightarrow> I (f db)) \<Longrightarrow> keeps I (modify e f)"
  unfolding modify_def by (rule keeps_exec) simp

lemma keeps_bnd [keeps_rules]: "keeps I m \<Longrightarrow> (\<And>a. keeps I (f a)) \<Longrightarrow> keeps I (bnd m f)"
  unfolding keeps_def bnd_def by (auto split: prod.splits sum.splits)

lemma keeps_insert_row [keeps_rules]:
  "(\<And>db db'. I db \<Longrightarrow> f db = Some db' \<Longrightarrow> I db') \<Longrightarrow> keeps I (insert_row e f)"
  unfolding insert_row_def
  by (intro keeps_bnd keeps_exec) (auto simp: keeps_ret keeps_throw split: option.splits if_splits)

lemma keeps_transaction [keeps_rules]:
  fixes I :: "'db \<Rightarrow> bool"
  assumes "keeps I m"
  shows "keeps I (transaction e m)"
  unfolding keeps_def
proof (intro allI impI)
  fix s :: "'db engine" assume I: "I (tables s)"
  obtain r s' where run: "transaction e m s = (r, s')" by fastforce
  show "I (tables (snd (transaction e m s)))"
  proof (cases r)
    case (Inl x)
    with run I show ?thesis using transaction_Inl [of e m s x s'] by simp
  next
    case (Inr a)
    with run have "transaction e m s = (Inr a, s')" by simp
    then obtain s1 s2 where *: "tables s1 = tables s" "m s1 = (Inr a, s2)" "tables s' = tables s2"
      by (rule transaction_Inr)
    have "I (tables s2)"
      using keepsD [OF assms _ *(2)] I *(1) by simp
    with run * show ?thesis by simp
  qed
qed

text \<open>Rules for a continuation whose invariance depends on what the first action found.\<close>

lemma keeps_bnd_dep:
  assumes "keeps I m"
    and "\<And>s a s'. I (tables s') \<Longrightarrow> m s = (Inr a, s') \<Longrightarrow> I (tables (snd (f a s')))"
  shows "keeps I (bnd m f)"
  unfolding keeps_def bnd_def
  using keepsD [OF assms(1)] assms(2) by (auto split: prod.splits sum.splits)

lemma keeps_transaction_success:
  fixes I :: "'db \<Rightarrow> bool"
  assumes "\<And>s a s'. I (tables s) \<Longrightarrow> m s = (Inr a, s') \<Longrightarrow> I (tables s')"
  shows "keeps I (transaction e m)"
  unfolding keeps_def
proof (intro allI impI)
  fix s :: "'db engine" assume I: "I (tables s)"
  obtain r s' where run: "transaction e m s = (r, s')" by fastforce
  show "I (tables (snd (transaction e m s)))"
  proof (cases r)
    case (Inl x)
    with run I show ?thesis using transaction_Inl [of e m s x s'] by simp
  next
    case (Inr a)
    with run have "transaction e m s = (Inr a, s')" by simp
    then obtain s1 s2 where *: "tables s1 = tables s" "m s1 = (Inr a, s2)" "tables s' = tables s2"
      by (rule transaction_Inr)
    with assms [of s1 a s2] I run show ?thesis by simp
  qed
qed

lemma keeps_guard_db [keeps_rules]: "keeps I m \<Longrightarrow> keeps I (guard_db e m)"
  by (auto simp: keeps_def guard_db_def)

lemma ignoring_keeps [keeps_rules]: "keeps I m \<Longrightarrow> keeps I (ignoring m)"
  by (simp add: keeps_def ignoring_def)

lemma keeps_each [keeps_rules]: "(\<And>x. keeps I (f x)) \<Longrightarrow> keeps I (each f xs)"
  by (induction xs) (auto intro: keeps_rules)

lemma keeps_each_in: "(\<And>x. x \<in> set xs \<Longrightarrow> keeps I (f x)) \<Longrightarrow> keeps I (each f xs)"
  by (induction xs) (auto intro!: keeps_rules)

lemma keeps_if [keeps_rules]: "keeps I m \<Longrightarrow> keeps I n \<Longrightarrow> keeps I (if b then m else n)"
  by simp

lemma keeps_option [keeps_rules]:
  "keeps I m \<Longrightarrow> (\<And>x. keeps I (f x)) \<Longrightarrow> keeps I (case y of None \<Rightarrow> m | Some x \<Rightarrow> f x)"
  by (cases y) auto

lemma keeps_sum [keeps_rules]:
  "(\<And>x. keeps I (f x)) \<Longrightarrow> (\<And>x. keeps I (g x)) \<Longrightarrow>
   keeps I (case y of Inl x \<Rightarrow> f x | Inr x \<Rightarrow> g x)"
  by (cases y) auto

lemma keeps_prod [keeps_rules]:
  "(\<And>x z. keeps I (f x z)) \<Longrightarrow> keeps I (case y of (x, z) \<Rightarrow> f x z)"
  by (cases y) auto

text \<open>
  An action moves tables with \<open>P\<close> to tables with \<open>Q\<close>, whatever it returned: for steps after
  a read, where \<open>P\<close> records what was read.
\<close>

definition moves :: "('db \<Rightarrow> bool) \<Rightarrow> ('db \<Rightarrow> bool) \<Rightarrow> ('db, 'e, 'a) act \<Rightarrow> bool" where
  "moves P Q m \<longleftrightarrow> (\<forall>s. P (tables s) \<longrightarrow> Q (tables (snd (m s))))"

named_theorems moves_rules \<open>structural rules for \<open>moves\<close>\<close>

lemma moves_ret [moves_rules]: "(\<And>db. P db \<Longrightarrow> Q db) \<Longrightarrow> moves P Q (ret a)"
  by (simp add: moves_def)

lemma moves_throw [moves_rules]: "(\<And>db. P db \<Longrightarrow> Q db) \<Longrightarrow> moves P Q (throw e)"
  by (simp add: moves_def)

lemma moves_exec:
  fixes P :: "'db \<Rightarrow> bool"
  assumes "\<And>db. P db \<Longrightarrow> Q db" and "\<And>db. P db \<Longrightarrow> Q (snd (f db))"
  shows "moves P Q (exec e f)"
  unfolding moves_def
proof (intro allI impI)
  fix s :: "'db engine" assume "P (tables s)"
  then show "Q (tables (snd (exec e f s)))"
    using assms [of "tables s"] by (cases rule: exec_cases [of s e f]) auto
qed

lemma moves_modify [moves_rules]:
  "(\<And>db. P db \<Longrightarrow> Q db) \<Longrightarrow> (\<And>db. P db \<Longrightarrow> Q (f db)) \<Longrightarrow> moves P Q (modify e f)"
  unfolding modify_def by (rule moves_exec) auto

lemma moves_bnd:
  "(\<And>db. P db \<Longrightarrow> Q db) \<Longrightarrow> keeps P m \<Longrightarrow> (\<And>a. moves P Q (f a)) \<Longrightarrow> moves P Q (bnd m f)"
  unfolding keeps_def moves_def bnd_def by (auto split: prod.splits sum.splits)

lemma moves_bnd_last:
  "moves P Q m \<Longrightarrow> (\<And>a. keeps Q (f a)) \<Longrightarrow> moves P Q (bnd m f)"
  unfolding keeps_def moves_def bnd_def by (auto split: prod.splits sum.splits)

lemma moves_if [moves_rules]: "moves P Q m \<Longrightarrow> moves P Q n \<Longrightarrow> moves P Q (if b then m else n)"
  by simp

lemma moves_prod [moves_rules]:
  "(\<And>x z. moves P Q (f x z)) \<Longrightarrow> moves P Q (case y of (x, z) \<Rightarrow> f x z)"
  by (cases y) auto

lemma moves_option [moves_rules]:
  "moves P Q m \<Longrightarrow> (\<And>x. moves P Q (f x)) \<Longrightarrow> moves P Q (case y of None \<Rightarrow> m | Some x \<Rightarrow> f x)"
  by (cases y) auto

lemma keeps_after_read:
  assumes "keeps I m" and "\<And>s a s'. m s = (Inr a, s') \<Longrightarrow> R a (tables s')"
    and "\<And>a. moves (\<lambda>db. I db \<and> R a db) I (f a)"
  shows "keeps I (bnd m f)"
  by (rule keeps_bnd_dep [OF assms(1)]) (use assms(2,3) in \<open>auto simp: moves_def\<close>)

section \<open>Reading actions\<close>

text \<open>A reading action answers whenever the engine works, and changes nothing.\<close>

definition answers :: "('db, 'e, 'a) act \<Rightarrow> bool" where
  "answers m \<longleftrightarrow> (\<forall>db. \<exists>a. m (healthy db) = (Inr a, healthy db))"

named_theorems answers_rules \<open>structural rules for \<open>answers\<close>\<close>

lemma answersE: "answers m \<Longrightarrow> (\<And>a. m (healthy db) = (Inr a, healthy db) \<Longrightarrow> thesis) \<Longrightarrow> thesis"
  by (auto simp: answers_def)

lemma answers_ret [answers_rules]: "answers (ret a)"
  by (simp add: answers_def)

lemma answers_query [answers_rules]: "answers (query e f)"
  by (simp add: answers_def)

lemma answers_bnd [answers_rules]: "answers m \<Longrightarrow> (\<And>a. answers (f a)) \<Longrightarrow> answers (bnd m f)"
  unfolding answers_def bnd_def by (metis (no_types, lifting) old.prod.case sum.case(2))

lemma answers_if [answers_rules]: "answers m \<Longrightarrow> answers n \<Longrightarrow> answers (if b then m else n)"
  by simp

lemma answers_option [answers_rules]:
  "answers m \<Longrightarrow> (\<And>x. answers (f x)) \<Longrightarrow> answers (case y of None \<Rightarrow> m | Some x \<Rightarrow> f x)"
  by (cases y) auto

lemma answers_sum [answers_rules]:
  "(\<And>x. answers (f x)) \<Longrightarrow> (\<And>x. answers (g x)) \<Longrightarrow> answers (case y of Inl x \<Rightarrow> f x | Inr x \<Rightarrow> g x)"
  by (cases y) auto

lemma answers_prod [answers_rules]: "(\<And>x z. answers (f x z)) \<Longrightarrow> answers (case y of (x, z) \<Rightarrow> f x z)"
  by (cases y) auto

section \<open>Runs of operations\<close>

text \<open>
  A history of a component: operations run one after the other on the same tables, each
  with its own engine failures.  An invariant every operation keeps holds after every
  history.
\<close>

fun run_ops :: "('op \<Rightarrow> ('db, 'e, 'a) act) \<Rightarrow> 'op list \<Rightarrow> 'db engine \<Rightarrow> 'db engine" where
  "run_ops f [] s = s"
| "run_ops f (x # xs) s = run_ops f xs (snd (f x s))"

lemma run_ops_append: "run_ops f (xs @ ys) s = run_ops f ys (run_ops f xs s)"
  by (induction xs arbitrary: s) auto

lemma run_ops_keeps:
  "(\<And>x. x \<in> set xs \<Longrightarrow> keeps I (f x)) \<Longrightarrow> I (tables s) \<Longrightarrow> I (tables (run_ops f xs s))"
proof (induction xs arbitrary: s)
  case (Cons x xs)
  have "I (tables (snd (f x s)))"
    using Cons.prems by (simp add: keeps_def)
  then show ?case using Cons.IH Cons.prems(1) by simp
qed simp

locale invariant_ops =
  fixes inv :: "'db \<Rightarrow> bool"
    and f :: "'op \<Rightarrow> ('db, 'e, 'a) act"
  assumes op_keeps: "keeps inv (f x)"
begin

lemma run_inv: "inv (tables s) \<Longrightarrow> inv (tables (run_ops f xs s))"
  using op_keeps by (rule run_ops_keeps)

end

text \<open>
  The interface of a store that only moves forward: an order on its contents that every
  operation respects, whether it succeeds or fails.
\<close>

locale ratchet =
  fixes ahead :: "'db \<Rightarrow> 'db \<Rightarrow> bool"
    and f :: "'op \<Rightarrow> ('db, 'e, 'a) act"
  assumes ahead_refl: "ahead db db"
    and ahead_trans: "ahead a b \<Longrightarrow> ahead b c \<Longrightarrow> ahead a c"
    and step_ahead: "ahead (tables s) (tables (snd (f x s)))"
begin

lemma run_ahead: "ahead (tables s) (tables (run_ops f xs s))"
proof (induction xs arbitrary: s)
  case (Cons x xs)
  show ?case using ahead_trans [OF step_ahead Cons] by simp
qed (simp add: ahead_refl)

end

end
