(* ===== verification/Access_Data.thy ===== *)
theory Access_Data
  imports Engine
begin

text \<open>
  The data of the access service (\<open>internal/models/access.go\<close>, \<open>internal/models/user.go\<close>,
  \<open>internal/services/access\<close>): the rows of the tables users, roles, permissions,
  role\_permissions and user\_roles, the permission and role codes, the built-in
  permissions and roles, and the permission each previewed operation needs.
\<close>

section \<open>Rows\<close>

record role_row =
  role_id :: nat
  role_code :: string
  role_name :: string
  role_description :: string
  role_builtin :: bool
  role_created_at :: time
  role_updated_at :: time

record permission_row =
  perm_id :: nat
  perm_code :: string
  perm_name :: string
  perm_description :: string
  perm_module :: string
  perm_created_at :: time
  perm_updated_at :: time

record role_permission_row =
  rp_role_id :: nat
  rp_permission_id :: nat
  rp_created_at :: time

record user_role_row =
  ur_user_id :: int
  ur_role_id :: nat
  ur_assigned_at :: time

record user_row =
  user_id :: int
  user_name :: string
  user_password :: string
  user_is_admin :: bool
  user_first_join :: bool
  user_must_change_password :: bool
  user_security_version :: nat
  user_create_time :: time

text \<open>\<open>User.EffectiveSecurityVersion\<close>: version zero counts as one.\<close>

definition effective_security_version :: "user_row \<Rightarrow> nat" where
  "effective_security_version u =
     (if user_security_version u = 0 then 1 else user_security_version u)"

record access_db =
  users :: "user_row list"
  roles :: "role_row list"
  permissions :: "permission_row list"
  role_permissions :: "role_permission_row list"
  user_roles :: "user_role_row list"

section \<open>Permission and role codes\<close>

abbreviation PermissionDashboardRead :: string where
  "PermissionDashboardRead \<equiv> ''dashboard.read''"

abbreviation PermissionRuntimeLogRead :: string where
  "PermissionRuntimeLogRead \<equiv> ''runtime_log.read''"

abbreviation PermissionFileRead :: string where
  "PermissionFileRead \<equiv> ''file.read''"

abbreviation PermissionFileWrite :: string where
  "PermissionFileWrite \<equiv> ''file.write''"

abbreviation PermissionFileCreate :: string where
  "PermissionFileCreate \<equiv> ''file.create''"

abbreviation PermissionFileEdit :: string where
  "PermissionFileEdit \<equiv> ''file.edit''"

abbreviation PermissionFileMove :: string where
  "PermissionFileMove \<equiv> ''file.move''"

abbreviation PermissionFileDelete :: string where
  "PermissionFileDelete \<equiv> ''file.delete''"

abbreviation PermissionFileModify :: string where
  "PermissionFileModify \<equiv> ''file.modify''"

abbreviation PermissionFileArchive :: string where
  "PermissionFileArchive \<equiv> ''file.archive''"

abbreviation PermissionFileShare :: string where
  "PermissionFileShare \<equiv> ''file.share''"

abbreviation PermissionFileScopeRoot :: string where
  "PermissionFileScopeRoot \<equiv> ''file.scope.root''"

abbreviation PermissionFileScopeWebsites :: string where
  "PermissionFileScopeWebsites \<equiv> ''file.scope.websites''"

abbreviation PermissionFileScopeBackups :: string where
  "PermissionFileScopeBackups \<equiv> ''file.scope.backups''"

abbreviation PermissionWebsiteRead :: string where
  "PermissionWebsiteRead \<equiv> ''website.read''"

abbreviation PermissionWebsiteWrite :: string where
  "PermissionWebsiteWrite \<equiv> ''website.write''"

abbreviation PermissionWebsiteApproval :: string where
  "PermissionWebsiteApproval \<equiv> ''website.approval.request''"

abbreviation PermissionCertificateRead :: string where
  "PermissionCertificateRead \<equiv> ''certificate.read''"

abbreviation PermissionCertificateWrite :: string where
  "PermissionCertificateWrite \<equiv> ''certificate.write''"

abbreviation PermissionDatabaseRead :: string where
  "PermissionDatabaseRead \<equiv> ''database.read''"

abbreviation PermissionDatabaseWrite :: string where
  "PermissionDatabaseWrite \<equiv> ''database.write''"

abbreviation PermissionDatabaseApproval :: string where
  "PermissionDatabaseApproval \<equiv> ''database.approval.request''"

abbreviation PermissionSoftwareRead :: string where
  "PermissionSoftwareRead \<equiv> ''software.read''"

abbreviation PermissionSoftwareWrite :: string where
  "PermissionSoftwareWrite \<equiv> ''software.write''"

abbreviation PermissionServiceRead :: string where
  "PermissionServiceRead \<equiv> ''software.service.read''"

abbreviation PermissionServiceWrite :: string where
  "PermissionServiceWrite \<equiv> ''software.service.write''"

abbreviation PermissionSecurityRead :: string where
  "PermissionSecurityRead \<equiv> ''security.read''"

abbreviation PermissionSecurityWrite :: string where
  "PermissionSecurityWrite \<equiv> ''security.write''"

abbreviation PermissionCronRead :: string where
  "PermissionCronRead \<equiv> ''cron.read''"

abbreviation PermissionCronWrite :: string where
  "PermissionCronWrite \<equiv> ''cron.write''"

abbreviation PermissionMonitoringRead :: string where
  "PermissionMonitoringRead \<equiv> ''monitoring.read''"

abbreviation PermissionMonitoringWrite :: string where
  "PermissionMonitoringWrite \<equiv> ''monitoring.write''"

abbreviation PermissionSystemRead :: string where
  "PermissionSystemRead \<equiv> ''system.settings.read''"

abbreviation PermissionSystemWrite :: string where
  "PermissionSystemWrite \<equiv> ''system.settings.write''"

abbreviation PermissionConfigSnapshotRead :: string where
  "PermissionConfigSnapshotRead \<equiv> ''config.snapshot.read''"

abbreviation PermissionConfigSnapshotWrite :: string where
  "PermissionConfigSnapshotWrite \<equiv> ''config.snapshot.write''"

abbreviation PermissionTerminalAccess :: string where
  "PermissionTerminalAccess \<equiv> ''terminal.access''"

abbreviation PermissionAuditRead :: string where
  "PermissionAuditRead \<equiv> ''audit.read''"

abbreviation PermissionAuditExport :: string where
  "PermissionAuditExport \<equiv> ''audit.export''"

abbreviation PermissionAuditVerify :: string where
  "PermissionAuditVerify \<equiv> ''audit.verify''"

abbreviation PermissionApprovalRead :: string where
  "PermissionApprovalRead \<equiv> ''approval.read''"

abbreviation PermissionApprovalRequest :: string where
  "PermissionApprovalRequest \<equiv> ''approval.request''"

abbreviation PermissionApprovalReview :: string where
  "PermissionApprovalReview \<equiv> ''approval.review''"

abbreviation PermissionApprovalExecute :: string where
  "PermissionApprovalExecute \<equiv> ''approval.execute''"

abbreviation PermissionTaskReadSelf :: string where
  "PermissionTaskReadSelf \<equiv> ''task.read.self''"

abbreviation PermissionTaskReadAll :: string where
  "PermissionTaskReadAll \<equiv> ''task.read.all''"

abbreviation PermissionTaskCancelSelf :: string where
  "PermissionTaskCancelSelf \<equiv> ''task.cancel.self''"

abbreviation PermissionBastionRead :: string where
  "PermissionBastionRead \<equiv> ''bastion.read''"

abbreviation PermissionBastionWrite :: string where
  "PermissionBastionWrite \<equiv> ''bastion.write''"

abbreviation PermissionBastionIdentityRead :: string where
  "PermissionBastionIdentityRead \<equiv> ''bastion.identity.read''"

abbreviation PermissionContainerRead :: string where
  "PermissionContainerRead \<equiv> ''container.read''"

abbreviation PermissionContainerWrite :: string where
  "PermissionContainerWrite \<equiv> ''container.write''"

abbreviation PermissionContainerDelete :: string where
  "PermissionContainerDelete \<equiv> ''container.delete''"

abbreviation PermissionContainerTerminal :: string where
  "PermissionContainerTerminal \<equiv> ''container.terminal''"

abbreviation PermissionContainerLogsRead :: string where
  "PermissionContainerLogsRead \<equiv> ''container.logs.read''"

abbreviation PermissionContainerImageWrite :: string where
  "PermissionContainerImageWrite \<equiv> ''container.image.write''"

abbreviation PermissionContainerNetworkWrite :: string where
  "PermissionContainerNetworkWrite \<equiv> ''container.network.write''"

abbreviation PermissionContainerVolumeWrite :: string where
  "PermissionContainerVolumeWrite \<equiv> ''container.volume.write''"

abbreviation PermissionContainerComposeWrite :: string where
  "PermissionContainerComposeWrite \<equiv> ''container.compose.write''"

abbreviation PermissionContainerRegistryWrite :: string where
  "PermissionContainerRegistryWrite \<equiv> ''container.registry.write''"

abbreviation PermissionContainerConfigWrite :: string where
  "PermissionContainerConfigWrite \<equiv> ''container.config.write''"

abbreviation PermissionContainerRuntimeInstall :: string where
  "PermissionContainerRuntimeInstall \<equiv> ''container.runtime.install''"

abbreviation PermissionContainerDangerousCleanup :: string where
  "PermissionContainerDangerousCleanup \<equiv> ''container.dangerous.cleanup''"

abbreviation PermissionContainerForceAction :: string where
  "PermissionContainerForceAction \<equiv> ''container.force_action''"

abbreviation RoleObserver :: string where
  "RoleObserver \<equiv> ''observer''"

abbreviation RoleWebsiteAdmin :: string where
  "RoleWebsiteAdmin \<equiv> ''website_admin''"

abbreviation RoleDatabaseAdmin :: string where
  "RoleDatabaseAdmin \<equiv> ''database_admin''"

abbreviation RoleSystemOperator :: string where
  "RoleSystemOperator \<equiv> ''system_operator''"

abbreviation RoleSecurityAuditor :: string where
  "RoleSecurityAuditor \<equiv> ''security_auditor''"

abbreviation RoleOperationApprover :: string where
  "RoleOperationApprover \<equiv> ''operation_approver''"

abbreviation RoleContainerOperator :: string where
  "RoleContainerOperator \<equiv> ''container_operator''"

abbreviation ServiceScopeWebServer :: string where
  "ServiceScopeWebServer \<equiv> ''web_service''"

abbreviation ServiceScopeRuntime :: string where
  "ServiceScopeRuntime \<equiv> ''runtime''"

abbreviation ServiceScopeDatabase :: string where
  "ServiceScopeDatabase \<equiv> ''database''"

abbreviation ServiceScopeCache :: string where
  "ServiceScopeCache \<equiv> ''cache''"

section \<open>Built-in permissions\<close>

definition seed_permission :: "string \<Rightarrow> string \<Rightarrow> string \<Rightarrow> permission_row" where
  "seed_permission code name module =
     \<lparr>perm_id = 0, perm_code = code, perm_name = name, perm_description = [],
      perm_module = module, perm_created_at = 0, perm_updated_at = 0\<rparr>"

definition builtin_permissions :: "permission_row list" where
  "builtin_permissions =
    [seed_permission PermissionDashboardRead (utf8 [0x9762, 0x677F, 0x6982, 0x89C8, 0x67E5, 0x770B]) ''dashboard'',
     seed_permission PermissionRuntimeLogRead (utf8 [0x8FD0, 0x884C, 0x65E5, 0x5FD7, 0x67E5, 0x770B]) ''log'',
     seed_permission PermissionFileRead (utf8 [0x6587, 0x4EF6, 0x8BFB, 0x53D6]) ''file'',
     seed_permission PermissionFileWrite (utf8 [0x6587, 0x4EF6, 0x4FEE, 0x6539, 0xFF08, 0x5DF2, 0x5F03, 0x7528, 0xFF09]) ''file'',
     seed_permission PermissionFileCreate (utf8 [0x6587, 0x4EF6, 0x521B, 0x5EFA, 0x2F, 0x4E0A, 0x4F20]) ''file'',
     seed_permission PermissionFileEdit (utf8 [0x6587, 0x4EF6, 0x7F16, 0x8F91]) ''file'',
     seed_permission PermissionFileMove (utf8 [0x6587, 0x4EF6, 0x79FB, 0x52A8, 0x2F, 0x91CD, 0x547D, 0x540D]) ''file'',
     seed_permission PermissionFileDelete (utf8 [0x6587, 0x4EF6, 0x5220, 0x9664]) ''file'',
     seed_permission PermissionFileModify (utf8 [0x6587, 0x4EF6, 0x5C5E, 0x6027, 0x4FEE, 0x6539]) ''file'',
     seed_permission PermissionFileArchive (utf8 [0x6587, 0x4EF6, 0x5F52, 0x6863]) ''file'',
     seed_permission PermissionFileShare (utf8 [0x6587, 0x4EF6, 0x5206, 0x4EAB]) ''file'',
     seed_permission PermissionFileScopeRoot (utf8 [0x6587, 0x4EF6, 0x5B8C, 0x6574, 0x6839, 0x76EE, 0x5F55]) ''file'',
     seed_permission PermissionFileScopeWebsites (utf8 [0x7F51, 0x7AD9, 0x76EE, 0x5F55, 0x8BBF, 0x95EE]) ''file'',
     seed_permission PermissionFileScopeBackups (utf8 [0x5907, 0x4EFD, 0x76EE, 0x5F55, 0x8BBF, 0x95EE]) ''file'',
     seed_permission PermissionWebsiteRead (utf8 [0x7F51, 0x7AD9, 0x8BFB, 0x53D6]) ''website'',
     seed_permission PermissionWebsiteWrite (utf8 [0x7F51, 0x7AD9, 0x4FEE, 0x6539]) ''website'',
     seed_permission PermissionWebsiteApproval (utf8 [0x7F51, 0x7AD9, 0x5BA1, 0x6279, 0x7533, 0x8BF7]) ''website'',
     seed_permission PermissionCertificateRead (utf8 [0x8BC1, 0x4E66, 0x8BFB, 0x53D6]) ''certificate'',
     seed_permission PermissionCertificateWrite (utf8 [0x8BC1, 0x4E66, 0x4FEE, 0x6539]) ''certificate'',
     seed_permission PermissionDatabaseRead (utf8 [0x6570, 0x636E, 0x5E93, 0x8BFB, 0x53D6]) ''database'',
     seed_permission PermissionDatabaseWrite (utf8 [0x6570, 0x636E, 0x5E93, 0x4FEE, 0x6539]) ''database'',
     seed_permission PermissionDatabaseApproval (utf8 [0x6570, 0x636E, 0x5E93, 0x5BA1, 0x6279, 0x7533, 0x8BF7]) ''database'',
     seed_permission PermissionSoftwareRead (utf8 [0x8F6F, 0x4EF6, 0x8BFB, 0x53D6]) ''software'',
     seed_permission PermissionSoftwareWrite (utf8 [0x8F6F, 0x4EF6, 0x4FEE, 0x6539]) ''software'',
     seed_permission PermissionServiceRead (utf8 [0x7EC4, 0x4EF6, 0x670D, 0x52A1, 0x8BFB, 0x53D6]) ''software'',
     seed_permission PermissionServiceWrite (utf8 [0x7EC4, 0x4EF6, 0x670D, 0x52A1, 0x4FEE, 0x6539]) ''software'',
     seed_permission PermissionSecurityRead (utf8 [0x5B89, 0x5168, 0x914D, 0x7F6E, 0x8BFB, 0x53D6]) ''security'',
     seed_permission PermissionSecurityWrite (utf8 [0x5B89, 0x5168, 0x914D, 0x7F6E, 0x4FEE, 0x6539]) ''security'',
     seed_permission PermissionCronRead (utf8 [0x8BA1, 0x5212, 0x4EFB, 0x52A1, 0x8BFB, 0x53D6]) ''cron'',
     seed_permission PermissionCronWrite (utf8 [0x8BA1, 0x5212, 0x4EFB, 0x52A1, 0x4FEE, 0x6539]) ''cron'',
     seed_permission PermissionMonitoringRead (utf8 [0x76D1, 0x63A7, 0x8BFB, 0x53D6]) ''monitoring'',
     seed_permission PermissionMonitoringWrite (utf8 [0x76D1, 0x63A7, 0x4FEE, 0x6539]) ''monitoring'',
     seed_permission PermissionSystemRead (utf8 [0x7CFB, 0x7EDF, 0x8BBF, 0x95EE, 0x914D, 0x7F6E, 0x8BFB, 0x53D6]) ''system'',
     seed_permission PermissionSystemWrite (utf8 [0x7CFB, 0x7EDF, 0x8BBF, 0x95EE, 0x914D, 0x7F6E, 0x4FEE, 0x6539]) ''system'',
     seed_permission PermissionConfigSnapshotRead (utf8 [0x914D, 0x7F6E, 0x5FEB, 0x7167, 0x67E5, 0x770B]) ''configuration'',
     seed_permission PermissionConfigSnapshotWrite (utf8 [0x914D, 0x7F6E, 0x5FEB, 0x7167, 0x6062, 0x590D, 0x4E0E, 0x5220, 0x9664]) ''configuration'',
     seed_permission PermissionTerminalAccess (utf8 [0x57, 0x65, 0x62, 0x20, 0x7EC8, 0x7AEF, 0x8BBF, 0x95EE]) ''terminal'',
     seed_permission PermissionAuditRead (utf8 [0x5BA1, 0x8BA1, 0x67E5, 0x770B]) ''audit'',
     seed_permission PermissionAuditExport (utf8 [0x5BA1, 0x8BA1, 0x5BFC, 0x51FA]) ''audit'',
     seed_permission PermissionAuditVerify (utf8 [0x5BA1, 0x8BA1, 0x6821, 0x9A8C]) ''audit'',
     seed_permission PermissionApprovalRead (utf8 [0x5BA1, 0x6279, 0x67E5, 0x770B]) ''approval'',
     seed_permission PermissionApprovalRequest (utf8 [0x5BA1, 0x6279, 0x7533, 0x8BF7]) ''approval'',
     seed_permission PermissionApprovalReview (utf8 [0x5BA1, 0x6279, 0x5BA1, 0x6838]) ''approval'',
     seed_permission PermissionApprovalExecute (utf8 [0x5BA1, 0x6279, 0x6267, 0x884C]) ''approval'',
     seed_permission PermissionTaskReadSelf (utf8 [0x672C, 0x4EBA, 0x4EFB, 0x52A1, 0x67E5, 0x770B]) ''task'',
     seed_permission PermissionTaskReadAll (utf8 [0x5168, 0x90E8, 0x4EFB, 0x52A1, 0x67E5, 0x770B]) ''task'',
     seed_permission PermissionTaskCancelSelf (utf8 [0x672C, 0x4EBA, 0x4EFB, 0x52A1, 0x53D6, 0x6D88]) ''task'',
     seed_permission PermissionBastionRead (utf8 [0x5821, 0x5792, 0x673A, 0x8BFB, 0x53D6]) ''bastion'',
     seed_permission PermissionBastionWrite (utf8 [0x5821, 0x5792, 0x673A, 0x7BA1, 0x7406]) ''bastion'',
     seed_permission PermissionBastionIdentityRead (utf8 [0x5821, 0x5792, 0x673A, 0x767B, 0x5F55, 0x8EAB, 0x4EFD, 0x67E5, 0x770B]) ''bastion'',
     seed_permission PermissionContainerRead (utf8 [0x5BB9, 0x5668, 0x8D44, 0x6E90, 0x8BFB, 0x53D6]) ''container'',
     seed_permission PermissionContainerWrite (utf8 [0x5BB9, 0x5668, 0x751F, 0x547D, 0x5468, 0x671F, 0x64CD, 0x4F5C]) ''container'',
     seed_permission PermissionContainerDelete (utf8 [0x5BB9, 0x5668, 0x8D44, 0x6E90, 0x5220, 0x9664]) ''container'',
     seed_permission PermissionContainerTerminal (utf8 [0x5BB9, 0x5668, 0x7EC8, 0x7AEF, 0x8BBF, 0x95EE]) ''container'',
     seed_permission PermissionContainerLogsRead (utf8 [0x5BB9, 0x5668, 0x65E5, 0x5FD7, 0x67E5, 0x770B]) ''container'',
     seed_permission PermissionContainerImageWrite (utf8 [0x955C, 0x50CF, 0x7BA1, 0x7406]) ''container'',
     seed_permission PermissionContainerNetworkWrite (utf8 [0x5BB9, 0x5668, 0x7F51, 0x7EDC, 0x7BA1, 0x7406]) ''container'',
     seed_permission PermissionContainerVolumeWrite (utf8 [0x5B58, 0x50A8, 0x5377, 0x7BA1, 0x7406]) ''container'',
     seed_permission PermissionContainerComposeWrite (utf8 [0x7F16, 0x6392, 0x9879, 0x76EE, 0x7BA1, 0x7406]) ''container'',
     seed_permission PermissionContainerRegistryWrite (utf8 [0x955C, 0x50CF, 0x4ED3, 0x5E93, 0x7BA1, 0x7406]) ''container'',
     seed_permission PermissionContainerConfigWrite (utf8 [0x44, 0x6F, 0x63, 0x6B, 0x65, 0x72, 0x914D, 0x7F6E, 0x7BA1, 0x7406]) ''container'',
     seed_permission PermissionContainerRuntimeInstall (utf8 [0x44, 0x6F, 0x63, 0x6B, 0x65, 0x72, 0x8FD0, 0x884C, 0x65F6, 0x5B89, 0x88C5]) ''container'',
     seed_permission PermissionContainerDangerousCleanup (utf8 [0x5BB9, 0x5668, 0x8D44, 0x6E90, 0x6E05, 0x7406]) ''container'',
     seed_permission PermissionContainerForceAction (utf8 [0x5BB9, 0x5668, 0x5F3A, 0x5236, 0x64CD, 0x4F5C]) ''container'']"

section \<open>Built-in roles\<close>

definition seed_role :: "string \<Rightarrow> string \<Rightarrow> string \<Rightarrow> role_row" where
  "seed_role code name description =
     \<lparr>role_id = 0, role_code = code, role_name = name, role_description = description,
      role_builtin = True, role_created_at = 0, role_updated_at = 0\<rparr>"

definition builtin_observer :: "role_row \<times> string list" where
  "builtin_observer = (seed_role RoleObserver
    (utf8 [0x53EA, 0x8BFB, 0x89C2, 0x5BDF, 0x5458])
    (utf8 [0x53EF, 0x67E5, 0x770B, 0x6982, 0x89C8, 0x3001, 0x8FD0, 0x884C, 0x65E5, 0x5FD7, 0x548C, 0x672C, 0x4EBA, 0x4EFB, 0x52A1]),
    [PermissionDashboardRead, PermissionRuntimeLogRead, PermissionTaskReadSelf,
     PermissionBastionRead])"

definition builtin_website_admin :: "role_row \<times> string list" where
  "builtin_website_admin = (seed_role RoleWebsiteAdmin
    (utf8 [0x7F51, 0x7AD9, 0x7BA1, 0x7406, 0x5458])
    (utf8 [0x8D1F, 0x8D23, 0x7F51, 0x7AD9, 0x8D44, 0x6E90, 0x4E0E, 0x76F8, 0x5173, 0x4EFB, 0x52A1]),
    [PermissionDashboardRead, PermissionRuntimeLogRead, PermissionFileRead,
     PermissionFileCreate, PermissionFileEdit, PermissionFileMove, PermissionFileDelete,
     PermissionFileArchive, PermissionFileShare, PermissionFileScopeWebsites,
     PermissionFileScopeBackups, PermissionSoftwareRead, PermissionServiceRead,
     PermissionServiceWrite, PermissionWebsiteRead, PermissionWebsiteWrite,
     PermissionWebsiteApproval, PermissionCertificateRead, PermissionCertificateWrite,
     PermissionConfigSnapshotRead, PermissionConfigSnapshotWrite, PermissionApprovalRequest,
     PermissionTaskReadSelf, PermissionTaskCancelSelf])"

definition builtin_database_admin :: "role_row \<times> string list" where
  "builtin_database_admin = (seed_role RoleDatabaseAdmin
    (utf8 [0x6570, 0x636E, 0x5E93, 0x7BA1, 0x7406, 0x5458])
    (utf8 [0x8D1F, 0x8D23, 0x6570, 0x636E, 0x5E93, 0x8D44, 0x6E90, 0x4E0E, 0x76F8, 0x5173, 0x4EFB, 0x52A1]),
    [PermissionDashboardRead, PermissionRuntimeLogRead, PermissionSoftwareRead,
     PermissionServiceRead, PermissionServiceWrite, PermissionDatabaseRead,
     PermissionDatabaseWrite, PermissionDatabaseApproval, PermissionApprovalRequest,
     PermissionTaskReadSelf, PermissionTaskCancelSelf])"

definition builtin_system_operator :: "role_row \<times> string list" where
  "builtin_system_operator = (seed_role RoleSystemOperator
    (utf8 [0x7CFB, 0x7EDF, 0x8FD0, 0x7EF4])
    (utf8 [0x8D1F, 0x8D23, 0x6587, 0x4EF6, 0x3001, 0x8F6F, 0x4EF6, 0x3001, 0x76D1, 0x63A7, 0x3001, 0x8BA1, 0x5212, 0x4EFB, 0x52A1, 0x4E0E, 0x7CFB, 0x7EDF, 0x8BBF, 0x95EE, 0x914D, 0x7F6E]),
    [PermissionDashboardRead, PermissionRuntimeLogRead, PermissionFileRead,
     PermissionFileCreate, PermissionFileEdit, PermissionFileMove, PermissionFileDelete,
     PermissionFileModify, PermissionFileArchive, PermissionFileShare, PermissionFileScopeRoot,
     PermissionSoftwareRead, PermissionSoftwareWrite, PermissionServiceRead,
     PermissionServiceWrite, PermissionSecurityRead, PermissionSecurityWrite,
     PermissionCronRead, PermissionCronWrite, PermissionMonitoringRead,
     PermissionMonitoringWrite, PermissionCertificateRead, PermissionCertificateWrite,
     PermissionSystemRead, PermissionSystemWrite, PermissionConfigSnapshotRead,
     PermissionConfigSnapshotWrite, PermissionTerminalAccess, PermissionTaskReadSelf,
     PermissionTaskReadAll, PermissionTaskCancelSelf, PermissionBastionRead,
     PermissionBastionWrite, PermissionBastionIdentityRead])"

definition builtin_security_auditor :: "role_row \<times> string list" where
  "builtin_security_auditor = (seed_role RoleSecurityAuditor
    (utf8 [0x5B89, 0x5168, 0x5BA1, 0x8BA1, 0x5458])
    (utf8 [0x53EF, 0x67E5, 0x770B, 0x767B, 0x5F55, 0x5BA1, 0x8BA1, 0x3001, 0x8FD0, 0x884C, 0x65E5, 0x5FD7, 0x548C, 0x5BA1, 0x6279, 0x8BB0, 0x5F55]),
    [PermissionDashboardRead, PermissionRuntimeLogRead, PermissionSecurityRead,
     PermissionMonitoringRead, PermissionAuditRead, PermissionAuditExport,
     PermissionAuditVerify, PermissionApprovalRead, PermissionBastionRead])"

definition builtin_operation_approver :: "role_row \<times> string list" where
  "builtin_operation_approver = (seed_role RoleOperationApprover
    (utf8 [0x64CD, 0x4F5C, 0x5BA1, 0x6279, 0x5458])
    (utf8 [0x8D1F, 0x8D23, 0x5BA1, 0x6838, 0x5E76, 0x6267, 0x884C, 0x9AD8, 0x98CE, 0x9669, 0x64CD, 0x4F5C]),
    [PermissionApprovalRead, PermissionApprovalReview, PermissionApprovalExecute,
     PermissionTaskReadAll])"

definition builtin_container_operator :: "role_row \<times> string list" where
  "builtin_container_operator = (seed_role RoleContainerOperator
    (utf8 [0x5BB9, 0x5668, 0x8FD0, 0x7EF4])
    (utf8 [0x8D1F, 0x8D23, 0x20, 0x44, 0x6F, 0x63, 0x6B, 0x65, 0x72, 0x3001, 0x5BB9, 0x5668, 0x548C, 0x20, 0x43, 0x6F, 0x6D, 0x70, 0x6F, 0x73, 0x65, 0x20, 0x8D44, 0x6E90, 0x7BA1, 0x7406]),
    [PermissionDashboardRead, PermissionContainerRead, PermissionContainerWrite,
     PermissionContainerDelete, PermissionContainerLogsRead, PermissionContainerImageWrite,
     PermissionContainerNetworkWrite, PermissionContainerVolumeWrite,
     PermissionContainerComposeWrite, PermissionContainerRegistryWrite,
     PermissionContainerConfigWrite, PermissionTaskReadSelf, PermissionTaskCancelSelf])"

definition builtin_roles :: "(role_row \<times> string list) list" where
  "builtin_roles =
    [builtin_observer,
     builtin_website_admin,
     builtin_database_admin,
     builtin_system_operator,
     builtin_security_auditor,
     builtin_operation_approver,
     builtin_container_operator]"

lemmas builtin_role_defs =
  builtin_observer_def builtin_website_admin_def builtin_database_admin_def builtin_system_operator_def builtin_security_auditor_def builtin_operation_approver_def builtin_container_operator_def

section \<open>The permission a previewed operation needs\<close>

definition operation_permissions :: "(string \<times> string) list" where
  "operation_permissions =
    [(''website.create'', PermissionWebsiteWrite),
     (''website.update'', PermissionWebsiteWrite),
     (''website.settings.update'', PermissionWebsiteWrite),
     (''website.config.update'', PermissionWebsiteWrite),
     (''website.webserver.config.update'', PermissionWebsiteWrite),
     (''website.toggle'', PermissionWebsiteWrite),
     (''software.install'', PermissionSoftwareWrite),
     (''software.uninstall'', PermissionSoftwareWrite),
     (''software.service_action'', PermissionServiceWrite),
     (''software.configure'', PermissionSoftwareWrite),
     (''firewall.rule_change'', PermissionSecurityWrite),
     (''firewall.port_forward'', PermissionSecurityWrite),
     (''firewall.toggle'', PermissionSecurityWrite),
     (''firewall.ping'', PermissionSecurityWrite),
     (''fail2ban.policy_change'', PermissionSecurityWrite),
     (''fail2ban.ban'', PermissionSecurityWrite),
     (''fail2ban.unban'', PermissionSecurityWrite),
     (''panel.network'', PermissionSystemWrite),
     (''container.create'', PermissionContainerWrite),
     (''container.start'', PermissionContainerWrite),
     (''container.stop'', PermissionContainerWrite),
     (''container.restart'', PermissionContainerWrite),
     (''container.pause'', PermissionContainerWrite),
     (''container.resume'', PermissionContainerWrite),
     (''container.delete'', PermissionContainerDelete),
     (''container.force_stop'', PermissionContainerForceAction),
     (''container.force_delete'', PermissionContainerForceAction),
     (''container.terminal'', PermissionContainerTerminal),
     (''container.image.pull'', PermissionContainerImageWrite),
     (''container.image.import'', PermissionContainerImageWrite),
     (''container.image.build'', PermissionContainerImageWrite),
     (''container.image.tag'', PermissionContainerImageWrite),
     (''container.image.push'', PermissionContainerImageWrite),
     (''container.image.delete'', PermissionContainerDelete),
     (''container.image.cleanup'', PermissionContainerDangerousCleanup),
     (''container.image.build-cache'', PermissionContainerDangerousCleanup),
     (''container.network.change'', PermissionContainerNetworkWrite),
     (''container.volume.change'', PermissionContainerVolumeWrite),
     (''container.compose.change'', PermissionContainerComposeWrite),
     (''container.registry.change'', PermissionContainerRegistryWrite),
     (''container.config.change'', PermissionContainerConfigWrite),
     (''container.runtime.install'', PermissionContainerRuntimeInstall)]"

definition operation_permission :: "string \<Rightarrow> string option" where
  "operation_permission operation = map_of operation_permissions operation"

lemma seed_permission_sel [simp]:
  "perm_id (seed_permission c n m) = 0" "perm_code (seed_permission c n m) = c"
  "perm_module (seed_permission c n m) = m"
  by (simp_all add: seed_permission_def)

lemma seed_role_sel [simp]:
  "role_id (seed_role c n d) = 0" "role_code (seed_role c n d) = c"
  "role_builtin (seed_role c n d)"
  by (simp_all add: seed_role_def)

definition builtin_codes :: "string list" where
  "builtin_codes = map perm_code builtin_permissions"

lemma builtin_codes_eq: "builtin_codes =
    [''dashboard.read'',
     ''runtime_log.read'',
     ''file.read'',
     ''file.write'',
     ''file.create'',
     ''file.edit'',
     ''file.move'',
     ''file.delete'',
     ''file.modify'',
     ''file.archive'',
     ''file.share'',
     ''file.scope.root'',
     ''file.scope.websites'',
     ''file.scope.backups'',
     ''website.read'',
     ''website.write'',
     ''website.approval.request'',
     ''certificate.read'',
     ''certificate.write'',
     ''database.read'',
     ''database.write'',
     ''database.approval.request'',
     ''software.read'',
     ''software.write'',
     ''software.service.read'',
     ''software.service.write'',
     ''security.read'',
     ''security.write'',
     ''cron.read'',
     ''cron.write'',
     ''monitoring.read'',
     ''monitoring.write'',
     ''system.settings.read'',
     ''system.settings.write'',
     ''config.snapshot.read'',
     ''config.snapshot.write'',
     ''terminal.access'',
     ''audit.read'',
     ''audit.export'',
     ''audit.verify'',
     ''approval.read'',
     ''approval.request'',
     ''approval.review'',
     ''approval.execute'',
     ''task.read.self'',
     ''task.read.all'',
     ''task.cancel.self'',
     ''bastion.read'',
     ''bastion.write'',
     ''bastion.identity.read'',
     ''container.read'',
     ''container.write'',
     ''container.delete'',
     ''container.terminal'',
     ''container.logs.read'',
     ''container.image.write'',
     ''container.network.write'',
     ''container.volume.write'',
     ''container.compose.write'',
     ''container.registry.write'',
     ''container.config.write'',
     ''container.runtime.install'',
     ''container.dangerous.cleanup'',
     ''container.force_action'']"
  by (simp add: builtin_codes_def builtin_permissions_def)

lemma distinct_builtin_codes: "distinct builtin_codes"
  unfolding builtin_codes_eq by code_simp

lemma builtin_roles_codes: "distinct (map (role_code \<circ> fst) builtin_roles)"
  by (simp add: builtin_roles_def builtin_role_defs)

lemma builtin_roles_permissions:
  "(r, cs) \<in> set builtin_roles \<Longrightarrow> distinct cs \<and> set cs \<subseteq> set builtin_codes"
  by (auto simp: builtin_roles_def builtin_role_defs builtin_codes_eq)

end
