(* ===== verification/Access.thy ===== *)
theory Access
  imports Access_Data
begin

text \<open>
  The access service (\<open>internal/services/access/service.go\<close>): seeding of the built-in
  permissions and roles, loading of a user's effective access, permission and
  service-scope checks, and administration of users and role assignments.  bcrypt is the
  parameter \<open>hash\<close>, the engine's LIKE operator the parameter \<open>like\<close>, Unicode case mapping
  the parameter \<open>uni\<close>; \<open>now\<close> is the clock.
\<close>

datatype access_error =
    AccessNoDatabase
  | AccessEngine
  | AccessNotFound
  | AccessUsernameRequired
  | AccessHashFailed
  | AccessRolesMissing

type_synonym 'a access_act = "(access_db, access_error, 'a) act"

text \<open>The key SQLite gives a new row of an integer primary key.\<close>

definition next_id :: "nat list \<Rightarrow> nat" where
  "next_id ids = Suc (fold max ids 0)"

section \<open>Seeding\<close>

definition upsert_permission :: "time \<Rightarrow> permission_row \<Rightarrow> access_db \<Rightarrow> access_db" where
  "upsert_permission now p db =
     (if find (\<lambda>r. perm_code r = perm_code p) (permissions db) \<noteq> None
      then db\<lparr>permissions :=
             upd_where (\<lambda>r. perm_code r = perm_code p)
               (\<lambda>r. r\<lparr>perm_name := perm_name p, perm_description := perm_description p,
                       perm_module := perm_module p, perm_updated_at := now\<rparr>)
               (permissions db)\<rparr>
      else db\<lparr>permissions := permissions db @
             [p\<lparr>perm_id := next_id (map perm_id (permissions db)),
                perm_created_at := now, perm_updated_at := now\<rparr>]\<rparr>)"

definition upsert_role :: "time \<Rightarrow> role_row \<Rightarrow> access_db \<Rightarrow> access_db" where
  "upsert_role now q db =
     (if find (\<lambda>r. role_code r = role_code q) (roles db) \<noteq> None
      then db\<lparr>roles :=
             upd_where (\<lambda>r. role_code r = role_code q)
               (\<lambda>r. r\<lparr>role_name := role_name q, role_description := role_description q,
                       role_builtin := role_builtin q, role_updated_at := now\<rparr>)
               (roles db)\<rparr>
      else db\<lparr>roles := roles db @
             [q\<lparr>role_id := next_id (map role_id (roles db)),
                role_created_at := now, role_updated_at := now\<rparr>]\<rparr>)"

definition delete_role_links :: "nat \<Rightarrow> access_db \<Rightarrow> access_db" where
  "delete_role_links rid db =
     db\<lparr>role_permissions := filter (\<lambda>rp. rp_role_id rp \<noteq> rid) (role_permissions db)\<rparr>"

text \<open>Insertion of a link row with ON CONFLICT DO NOTHING.\<close>

definition add_role_link :: "time \<Rightarrow> nat \<Rightarrow> nat \<Rightarrow> access_db \<Rightarrow> access_db" where
  "add_role_link now rid pid db =
     (if \<exists>rp \<in> set (role_permissions db). rp_role_id rp = rid \<and> rp_permission_id rp = pid then db
      else db\<lparr>role_permissions := role_permissions db @
             [\<lparr>rp_role_id = rid, rp_permission_id = pid, rp_created_at = now\<rparr>]\<rparr>)"

fun seed_permissions ::
  "time \<Rightarrow> permission_row list \<Rightarrow> (string \<rightharpoonup> nat) \<Rightarrow> (string \<rightharpoonup> nat) access_act" where
  "seed_permissions now [] ids = ret ids"
| "seed_permissions now (p # ps) ids =
     bnd (modify AccessEngine (upsert_permission now p)) (\<lambda>_.
     bnd (query AccessEngine (\<lambda>db. find (\<lambda>r. perm_code r = perm_code p) (permissions db))) (\<lambda>st.
     case st of
       None \<Rightarrow> throw AccessNotFound
     | Some stored \<Rightarrow> seed_permissions now ps (ids(perm_code p \<mapsto> perm_id stored))))"

definition link_id :: "(string \<rightharpoonup> nat) \<Rightarrow> string \<Rightarrow> nat" where
  "link_id ids code = (case ids code of None \<Rightarrow> 0 | Some i \<Rightarrow> i)"

definition seed_one_role :: "time \<Rightarrow> (string \<rightharpoonup> nat) \<Rightarrow> role_row \<times> string list \<Rightarrow> unit access_act" where
  "seed_one_role now ids item =
     bnd (modify AccessEngine (upsert_role now (fst item))) (\<lambda>_.
     bnd (query AccessEngine (\<lambda>db. find (\<lambda>r. role_code r = role_code (fst item)) (roles db))) (\<lambda>st.
     case st of
       None \<Rightarrow> throw AccessNotFound
     | Some stored \<Rightarrow>
         bnd (modify AccessEngine (delete_role_links (role_id stored))) (\<lambda>_.
         each (\<lambda>code. modify AccessEngine (add_role_link now (role_id stored) (link_id ids code)))
           (snd item))))"

definition seed_builtin :: "time \<Rightarrow> unit access_act" where
  "seed_builtin now =
     guard_db AccessNoDatabase
      (transaction AccessEngine
        (bnd (seed_permissions now builtin_permissions Map.empty) (\<lambda>ids.
         each (seed_one_role now ids) builtin_roles)))"

section \<open>A user's access\<close>

record role_summary =
  rs_code :: string
  rs_name :: string
  rs_description :: string
  rs_permissions :: "string list"

record user_access =
  ua_user_id :: int
  ua_username :: string
  ua_is_super_admin :: bool
  ua_roles :: "role_summary list"
  ua_permissions :: "string list"
  ua_permission_set :: "string set"
  ua_can_approve :: bool

definition legacy_aliases :: "string \<Rightarrow> string list option" where
  "legacy_aliases code =
     (if code = PermissionFileWrite
      then Some [PermissionFileCreate, PermissionFileEdit, PermissionFileMove,
                 PermissionFileDelete, PermissionFileModify, PermissionFileArchive,
                 PermissionFileShare]
      else None)"

text \<open>\<open>UserAccess.HasPermission\<close>; the receiver may be nil.\<close>

definition has_permission :: "user_access option \<Rightarrow> string \<Rightarrow> bool" where
  "has_permission access code =
     (case access of
        None \<Rightarrow> False
      | Some a \<Rightarrow>
          if ua_is_super_admin a then True
          else if code \<in> ua_permission_set a then True
          else (case legacy_aliases code of
                  Some aliases \<Rightarrow> list_ex (\<lambda>alias. alias \<in> ua_permission_set a) aliases
                | None \<Rightarrow> False))"

definition map_keys :: "string set \<Rightarrow> string list" where
  "map_keys values = sorted_list_of_set values"

text \<open>A row of the joined query of \<open>LoadUserAccess\<close>; NULL columns scan as empty strings.\<close>

record access_row =
  row_role_code :: string
  row_role_name :: string
  row_role_description :: string
  row_permission_code :: string

definition access_row_of :: "role_row \<Rightarrow> string \<Rightarrow> access_row" where
  "access_row_of r code =
     \<lparr>row_role_code = role_code r, row_role_name = role_name r,
      row_role_description = role_description r, row_permission_code = code\<rparr>"

text \<open>The permission codes a LEFT JOIN gives for a role, one empty code for a missing partner.\<close>

definition left_join_permissions :: "access_db \<Rightarrow> role_row \<Rightarrow> string list" where
  "left_join_permissions db r =
     (case filter (\<lambda>rp. rp_role_id rp = role_id r) (role_permissions db) of
        [] \<Rightarrow> [[]]
      | rps \<Rightarrow>
          concat (map (\<lambda>rp.
            case filter (\<lambda>p. perm_id p = rp_permission_id rp) (permissions db) of
              [] \<Rightarrow> [[]] | ps \<Rightarrow> map perm_code ps) rps))"

definition access_rows :: "access_db \<Rightarrow> int \<Rightarrow> access_row list" where
  "access_rows db uid =
     sort_key (\<lambda>x. (row_role_code x, row_permission_code x))
      (concat (map (\<lambda>ur.
         concat (map (\<lambda>r. map (access_row_of r) (left_join_permissions db r))
           (filter (\<lambda>r. role_id r = ur_role_id ur) (roles db))))
        (filter (\<lambda>ur. ur_user_id ur = uid) (user_roles db))))"

text \<open>The loop over the rows: the role map (first row of a code wins) and the permission set.\<close>

fun fold_rows ::
  "access_row list \<Rightarrow> (string \<times> role_summary) list \<Rightarrow> string set
     \<Rightarrow> (string \<times> role_summary) list \<times> string set" where
  "fold_rows [] rm ps = (rm, ps)"
| "fold_rows (x # xs) rm ps =
     (if row_role_code x = [] then fold_rows xs rm ps
      else
        fold_rows xs
         (if map_of rm (row_role_code x) = None
          then rm @ [(row_role_code x,
                 \<lparr>rs_code = row_role_code x, rs_name = row_role_name x,
                  rs_description = row_role_description x, rs_permissions = []\<rparr>)]
          else rm)
         (if row_permission_code x \<noteq> [] then insert (row_permission_code x) ps else ps))"

definition finish_access :: "user_access \<Rightarrow> user_access" where
  "finish_access a =
     (let a1 = a\<lparr>ua_permissions := map_keys (ua_permission_set a)\<rparr> in
      a1\<lparr>ua_can_approve := has_permission (Some a1) PermissionApprovalReview \<and>
                          has_permission (Some a1) PermissionApprovalExecute\<rparr>)"

definition empty_access :: "user_row \<Rightarrow> user_access" where
  "empty_access u =
     \<lparr>ua_user_id = user_id u, ua_username = user_name u, ua_is_super_admin = user_is_admin u,
      ua_roles = [], ua_permissions = [], ua_permission_set = {}, ua_can_approve = False\<rparr>"

definition load_user_access :: "int \<Rightarrow> user_access access_act" where
  "load_user_access uid =
     guard_db AccessNoDatabase
      (bnd (query AccessEngine (\<lambda>db. find (\<lambda>u. user_id u = uid) (users db))) (\<lambda>found.
       case found of
         None \<Rightarrow> throw AccessNotFound
       | Some u \<Rightarrow>
           if user_is_admin u
           then ret (finish_access ((empty_access u)\<lparr>ua_permission_set := set builtin_codes\<rparr>))
           else
             bnd (query AccessEngine (\<lambda>db. access_rows db uid)) (\<lambda>rows.
             case fold_rows rows [] {} of
               (rm, ps) \<Rightarrow>
                 ret (finish_access ((empty_access u)\<lparr>ua_permission_set := ps,
                   ua_roles := map (\<lambda>c. the (map_of rm c)) (sort (map fst rm))\<rparr>)))))"

section \<open>Service scopes\<close>

definition canonical_component :: "casemap \<Rightarrow> string \<Rightarrow> string" where
  "canonical_component uni component =
     (let c = to_lower uni (trim_space component) in
      if c \<in> {''webserver'', ''openresty'', ''tengine'', ''caddy'', ''apache''}
      then ''nginx'' else c)"

definition scope_set :: "casemap \<Rightarrow> string list \<Rightarrow> string set" where
  "scope_set uni scopes = set (map (\<lambda>v. to_lower uni (trim_space v)) scopes) - {[]}"

text \<open>
  The loop over the roles: \<open>Inl ()\<close> is the early \<open>return true\<close>, \<open>Inr scoped\<close> the value of
  \<open>scopedRole\<close> after the loop.
\<close>

fun scoped_roles :: "string set \<Rightarrow> role_summary list \<Rightarrow> bool \<Rightarrow> unit + bool" where
  "scoped_roles scopes [] scoped = Inr scoped"
| "scoped_roles scopes (r # rs) scoped =
     (if rs_code r = RoleWebsiteAdmin then
        if ServiceScopeWebServer \<in> scopes then Inl ()
        else if ServiceScopeRuntime \<in> scopes then Inl ()
        else scoped_roles scopes rs True
      else if rs_code r = RoleDatabaseAdmin then
        if ServiceScopeDatabase \<in> scopes then Inl ()
        else if ServiceScopeCache \<in> scopes then Inl ()
        else scoped_roles scopes rs True
      else scoped_roles scopes rs scoped)"

definition can_control_service_scopes ::
  "casemap \<Rightarrow> user_access option \<Rightarrow> string list \<Rightarrow> string \<Rightarrow> bool" where
  "can_control_service_scopes uni access scopes component =
     (case access of
        None \<Rightarrow> False
      | Some a \<Rightarrow>
          if ua_is_super_admin a \<or> has_permission access PermissionSoftwareWrite then True
          else
            let component' = canonical_component uni component;
                scopeset = scope_set uni scopes
            in (case scoped_roles scopeset (ua_roles a) False of
                  Inl _ \<Rightarrow> True
                | Inr scoped \<Rightarrow>
                    if scopeset \<noteq> {} then \<not> scoped \<and> has_permission access PermissionServiceWrite
                    else \<not> scoped \<and> has_permission access PermissionServiceWrite))"

definition can_control_service_component :: "casemap \<Rightarrow> user_access option \<Rightarrow> string \<Rightarrow> bool" where
  "can_control_service_component uni access component =
     can_control_service_scopes uni access [] component"

section \<open>Listing\<close>

definition normalize_page :: "int \<Rightarrow> int \<Rightarrow> int \<times> int" where
  "normalize_page page page_size =
     (let page1 = (if page \<le> 0 then 1 else page);
          size1 = (if page_size \<le> 0 then 20 else page_size);
          size2 = (if size1 > 100 then 100 else size1)
      in (page1, size2))"

text \<open>
  \<open>Offset((page - 1) * pageSize).Limit(pageSize)\<close>: the product is computed in 64 bits and
  gorm writes no OFFSET clause for a value that is not positive.
\<close>

definition page_rows :: "int \<Rightarrow> int \<Rightarrow> 'r list \<Rightarrow> 'r list" where
  "page_rows page page_size rows =
     take (nat page_size)
       (drop (nat (sint (word_of_int ((page - 1) * page_size) :: 64 word))) rows)"

definition list_roles :: "role_summary list access_act" where
  "list_roles =
     guard_db AccessNoDatabase
      (bnd (query AccessEngine (\<lambda>db. sort_key role_id (roles db))) (\<lambda>rs.
       bnd (query AccessEngine (\<lambda>db.
         concat (map (\<lambda>r. map (Pair (role_code r)) (left_join_permissions db r)) (roles db)))) (\<lambda>rows.
       ret (map (\<lambda>r.
         \<lparr>rs_code = role_code r, rs_name = role_name r, rs_description = role_description r,
          rs_permissions = sort (map snd (filter (\<lambda>x. fst x = role_code r)
            (filter (\<lambda>x. fst x \<noteq> [] \<and> snd x \<noteq> []) rows)))\<rparr>) rs))))"

record user_list_item =
  li_id :: int
  li_username :: string
  li_is_admin :: bool
  li_is_super_admin :: bool
  li_must_change_password :: bool
  li_created_at :: time
  li_roles :: "role_summary list"

fun load_items :: "user_row list \<Rightarrow> user_list_item list access_act" where
  "load_items [] = ret []"
| "load_items (u # us) =
     bnd (load_user_access (user_id u)) (\<lambda>a.
     bnd (load_items us) (\<lambda>items.
     ret (\<lparr>li_id = user_id u, li_username = user_name u, li_is_admin = user_is_admin u,
           li_is_super_admin = user_is_admin u,
           li_must_change_password = user_must_change_password u,
           li_created_at = user_create_time u, li_roles = ua_roles a\<rparr> # items)))"

definition list_users ::
  "(string \<Rightarrow> string \<Rightarrow> bool) \<Rightarrow> int \<Rightarrow> int \<Rightarrow> string
     \<Rightarrow> (user_list_item list \<times> nat \<times> int \<times> int) access_act" where
  "list_users like page page_size keyword =
     guard_db AccessNoDatabase
      (case normalize_page page page_size of
         (p, n) \<Rightarrow>
           let match = (\<lambda>u. trim_space keyword = [] \<or>
                 like (''%'' @ trim_space keyword @ ''%'') (user_name u))
           in bnd (query AccessEngine (\<lambda>db. length (filter match (users db)))) (\<lambda>total.
              bnd (query AccessEngine (\<lambda>db.
                page_rows p n (sort_key user_id (filter match (users db))))) (\<lambda>us.
              bnd (load_items us) (\<lambda>items. ret (items, total, p, n)))))"

section \<open>Users and role assignments\<close>

fun normalize_codes :: "string list \<Rightarrow> string set \<Rightarrow> string list" where
  "normalize_codes [] seen = []"
| "normalize_codes (c # cs) seen =
     (let code = trim_space c in
      if code = [] then normalize_codes cs seen
      else if code \<in> seen then normalize_codes cs seen
      else code # normalize_codes cs (insert code seen))"

definition delete_user_links :: "int \<Rightarrow> access_db \<Rightarrow> access_db" where
  "delete_user_links uid db =
     db\<lparr>user_roles := filter (\<lambda>ur. ur_user_id ur \<noteq> uid) (user_roles db)\<rparr>"

definition add_user_link :: "time \<Rightarrow> int \<Rightarrow> nat \<Rightarrow> access_db \<Rightarrow> access_db option" where
  "add_user_link now uid rid db =
     (if \<exists>ur \<in> set (user_roles db). ur_user_id ur = uid \<and> ur_role_id ur = rid then None
      else Some (db\<lparr>user_roles := user_roles db @
             [\<lparr>ur_user_id = uid, ur_role_id = rid, ur_assigned_at = now\<rparr>]\<rparr>))"

text \<open>The package-level \<open>assignRoles(tx, userID, roleCodes)\<close>.\<close>

definition assign_roles_tx :: "time \<Rightarrow> int \<Rightarrow> string list \<Rightarrow> unit access_act" where
  "assign_roles_tx now uid role_codes =
     (let normalized = normalize_codes role_codes {} in
      bnd (modify AccessEngine (delete_user_links uid)) (\<lambda>_.
      if normalized = [] then ret ()
      else
        bnd (query AccessEngine (\<lambda>db. filter (\<lambda>r. role_code r \<in> set normalized) (roles db))) (\<lambda>rs.
        if length rs \<noteq> length normalized then throw AccessRolesMissing
        else each (\<lambda>r. insert_row AccessEngine (add_user_link now uid (role_id r))) rs)))"

definition assign_roles :: "time \<Rightarrow> int \<Rightarrow> string list \<Rightarrow> unit access_act" where
  "assign_roles now uid role_codes =
     guard_db AccessNoDatabase
      (transaction AccessEngine
        (bnd (query AccessEngine (\<lambda>db. find (\<lambda>u. user_id u = uid) (users db))) (\<lambda>found.
         case found of
           None \<Rightarrow> throw AccessNotFound
         | Some u \<Rightarrow>
             if user_is_admin u then ret () else assign_roles_tx now uid role_codes)))"

text \<open>The row \<open>CreateUser\<close> builds, as the \<open>BeforeCreate\<close> hook and the primary key complete it.\<close>

definition new_user :: "time \<Rightarrow> string \<Rightarrow> string \<Rightarrow> bool \<Rightarrow> access_db \<Rightarrow> user_row" where
  "new_user now name hashed admin db =
     \<lparr>user_id = int (next_id (map (\<lambda>u. nat (user_id u)) (users db))), user_name = name,
      user_password = hashed, user_is_admin = admin, user_first_join = False,
      user_must_change_password = True, user_security_version = 1, user_create_time = now\<rparr>"

definition create_user ::
  "(string \<Rightarrow> string option) \<Rightarrow> time \<Rightarrow> string \<Rightarrow> string \<Rightarrow> bool \<Rightarrow> string list
     \<Rightarrow> user_row access_act" where
  "create_user hash now username password admin role_codes =
     guard_db AccessNoDatabase
      (let name = trim_space username in
       if name = [] then throw AccessUsernameRequired
       else (case hash password of
          None \<Rightarrow> throw AccessHashFailed
        | Some hashed \<Rightarrow>
            transaction AccessEngine
             (bnd (exec AccessEngine (\<lambda>db. let u = new_user now name hashed admin db in
                     (u, db\<lparr>users := users db @ [u]\<rparr>))) (\<lambda>u.
              if admin then ret u
              else bnd (assign_roles_tx now (user_id u) role_codes) (\<lambda>_. ret u)))))"

definition reset_user_password ::
  "(string \<Rightarrow> string option) \<Rightarrow> int \<Rightarrow> string \<Rightarrow> unit access_act" where
  "reset_user_password hash uid password =
     guard_db AccessNoDatabase
      (case hash password of
         None \<Rightarrow> throw AccessHashFailed
       | Some hashed \<Rightarrow>
           modify AccessEngine (\<lambda>db. db\<lparr>users :=
             upd_where (\<lambda>u. user_id u = uid)
               (\<lambda>u. u\<lparr>user_password := hashed, user_must_change_password := True\<rparr>) (users db)\<rparr>))"

end
