(* ===== verification/Access_Users.thy ===== *)
theory Access_Users
  imports Access_Facts
begin

text \<open>
  Users: role assignment, user creation, and the access a login loads.  Ends with the
  integrity invariant over every history of the service's operations.
\<close>

section \<open>Role assignment\<close>

lemma normalize_codes_set:
  "set (normalize_codes cs seen) = trim_space ` set cs - {[]} - seen"
  by (induction cs arbitrary: seen) (auto simp: Let_def)

lemma distinct_normalize_codes: "distinct (normalize_codes cs seen)"
  by (induction cs arbitrary: seen) (auto simp: Let_def normalize_codes_set)

definition requested_codes :: "string list \<Rightarrow> string set" where
  "requested_codes cs = trim_space ` set cs - {[]}"

lemma normalize_codes_requested: "set (normalize_codes cs {}) = requested_codes cs"
  by (simp add: normalize_codes_set requested_codes_def)

lemma user_links_delete:
  "user_links (delete_user_links uid db) = {l \<in> user_links db. fst l \<noteq> uid}"
  using image_where [where f = "\<lambda>ur. (ur_user_id ur, ur_role_id ur)" and P = "\<lambda>l. fst l \<noteq> uid"]
  by (simp add: user_links_def delete_user_links_def)

lemma user_links_add:
  "add_user_link now uid rid db = Some db' \<Longrightarrow> user_links db' = insert (uid, rid) (user_links db)"
  by (auto simp: user_links_def add_user_link_def split: if_splits)

definition same_catalogue :: "access_db \<Rightarrow> access_db \<Rightarrow> bool" where
  "same_catalogue db db' \<longleftrightarrow>
     users db' = users db \<and> roles db' = roles db \<and> permissions db' = permissions db
     \<and> role_permissions db' = role_permissions db"

lemma same_catalogue_simps [simp]:
  "same_catalogue db db" "same_catalogue db (delete_user_links uid db)"
  by (simp_all add: same_catalogue_def delete_user_links_def)

lemma same_catalogue_add: "add_user_link now uid rid db = Some db' \<Longrightarrow> same_catalogue db db'"
  by (auto simp: same_catalogue_def add_user_link_def split: if_splits)

lemma same_catalogue_trans:
  "same_catalogue a b \<Longrightarrow> same_catalogue b c \<Longrightarrow> same_catalogue a c"
  by (simp add: same_catalogue_def)

lemma same_catalogue_keys:
  "same_catalogue db db' \<Longrightarrow>
   perm_keys db' = perm_keys db \<and> role_keys db' = role_keys db
   \<and> role_links db' = role_links db \<and> user_ids db' = user_ids db"
  by (simp add: same_catalogue_def key_defs)

lemma each_user_links_run:
  assumes "each (\<lambda>r. insert_row AccessEngine (add_user_link now uid (role_id r))) rs s = (Inr u, s')"
  shows "user_links (tables s') = user_links (tables s) \<union> (\<lambda>r. (uid, role_id r)) ` set rs
    \<and> same_catalogue (tables s) (tables s')"
  using assms
proof (induction rs arbitrary: s)
  case Nil
  then show ?case by simp
next
  case (Cons r rs)
  then obtain s1 where
    step: "insert_row AccessEngine (add_user_link now uid (role_id r)) s = (Inr (), s1)" and
    rest: "each (\<lambda>r. insert_row AccessEngine (add_user_link now uid (role_id r))) rs s1 = (Inr u, s')"
    by (auto simp: bnd_Inr)
  note add = insert_row_Inr [OF step]
  show ?case
    using Cons.IH [OF rest] user_links_add [OF add] same_catalogue_add [OF add] same_catalogue_trans
    by auto
qed

lemma codes_complete:
  assumes "distinct (map role_code rls)" and "distinct ns"
    and "length (filter (\<lambda>r. role_code r \<in> set ns) rls) = length ns"
  shows "role_code ` {r \<in> set rls. role_code r \<in> set ns} = set ns"
proof (rule card_subset_eq)
  let ?f = "filter (\<lambda>r. role_code r \<in> set ns) rls"
  have "distinct (map role_code ?f)" using assms(1) by (rule distinct_map_filter)
  then have "card (role_code ` set ?f) = length ?f"
    using distinct_card by (metis length_map set_map)
  then show "card (role_code ` {r \<in> set rls. role_code r \<in> set ns}) = card (set ns)"
    using assms(2,3) by (simp add: distinct_card)
qed auto

lemma assign_roles_tx_run:
  assumes run: "assign_roles_tx now uid cs s = (Inr u, s')"
    and keyed: "keyed (role_keys (tables s))"
  shows "same_catalogue (tables s) (tables s')
    \<and> {l \<in> user_links (tables s'). fst l \<noteq> uid} = {l \<in> user_links (tables s). fst l \<noteq> uid}
    \<and> (\<forall>rid. (uid, rid) \<in> user_links (tables s') \<longleftrightarrow>
         (\<exists>c \<in> requested_codes cs. (rid, c) \<in> set (role_keys (tables s))))
    \<and> requested_codes cs \<subseteq> snd ` set (role_keys (tables s))"
proof -
  let ?ns = "normalize_codes cs {}"
  from run obtain s1 where
    del: "modify AccessEngine (delete_user_links uid) s = (Inr (), s1)" and
    rest: "(if ?ns = [] then ret ()
       else bnd (query AccessEngine (\<lambda>db. filter (\<lambda>r. role_code r \<in> set ?ns) (roles db))) (\<lambda>rs.
         if length rs \<noteq> length ?ns then throw AccessRolesMissing
         else each (\<lambda>r. insert_row AccessEngine (add_user_link now uid (role_id r))) rs)) s1
       = (Inr u, s')"
    by (auto simp: assign_roles_tx_def Let_def bnd_Inr)
  have t1: "tables s1 = delete_user_links uid (tables s)"
    using modify_Inr [OF del] .
  show ?thesis
  proof (cases "?ns = []")
    case True
    then have "requested_codes cs = {}"
      using normalize_codes_requested [of cs] by simp
    moreover have "tables s' = delete_user_links uid (tables s)"
      using True rest t1 by simp
    ultimately show ?thesis by (auto simp: user_links_delete)
  next
    case False
    then obtain s2 rs where
      q: "query AccessEngine (\<lambda>db. filter (\<lambda>r. role_code r \<in> set ?ns) (roles db)) s1 = (Inr rs, s2)" and
      len: "length rs = length ?ns" and
      ins: "each (\<lambda>r. insert_row AccessEngine (add_user_link now uid (role_id r))) rs s2 = (Inr u, s')"
      using rest by (auto simp: bnd_Inr split: if_splits)
    have rs: "rs = filter (\<lambda>r. role_code r \<in> set ?ns) (roles (tables s))"
      and t2: "tables s2 = tables s1"
      using query_Inr [OF q] by (simp_all add: t1 delete_user_links_def)
    note e = each_user_links_run [OF ins]
    have cat: "same_catalogue (tables s) (tables s')"
      using e same_catalogue_trans by (auto simp: t1 t2 same_catalogue_def delete_user_links_def)
    have codes: "role_code ` {r \<in> set (roles (tables s)). role_code r \<in> set ?ns} = set ?ns"
      using keyed len unfolding rs keyed_def snd_role_keys
      by (intro codes_complete distinct_normalize_codes) auto
    then have "requested_codes cs \<subseteq> snd ` set (role_keys (tables s))"
      unfolding normalize_codes_requested by (force simp: role_keys_def)
    moreover have links: "user_links (tables s') = {l \<in> user_links (tables s). fst l \<noteq> uid}
        \<union> (\<lambda>r. (uid, role_id r)) ` {r \<in> set (roles (tables s)). role_code r \<in> requested_codes cs}"
      using e by (simp add: t1 t2 user_links_delete rs normalize_codes_requested)
    moreover have "(uid, rid) \<in> user_links (tables s') \<longleftrightarrow>
        (\<exists>c \<in> requested_codes cs. (rid, c) \<in> set (role_keys (tables s)))" for rid
      unfolding links by (auto simp: role_keys_def)
    moreover have "{l \<in> user_links (tables s'). fst l \<noteq> uid} = {l \<in> user_links (tables s). fst l \<noteq> uid}"
      unfolding links by auto
    ultimately show ?thesis using cat by blast
  qed
qed

lemma user_role_codes_eq:
  "(\<forall>rid. (uid, rid) \<in> user_links db' \<longleftrightarrow> (\<exists>c \<in> C. (rid, c) \<in> set (role_keys db))) \<Longrightarrow>
   role_keys db' = role_keys db \<Longrightarrow> keyed (role_keys db) \<Longrightarrow> C \<subseteq> snd ` set (role_keys db) \<Longrightarrow>
   user_role_codes db' uid = C"
proof -
  assume links: "\<forall>rid. (uid, rid) \<in> user_links db' \<longleftrightarrow> (\<exists>c \<in> C. (rid, c) \<in> set (role_keys db))"
    and eq: "role_keys db' = role_keys db" and keyed: "keyed (role_keys db)"
    and C: "C \<subseteq> snd ` set (role_keys db)"
  have "c \<in> C \<longleftrightarrow> (\<exists>r. (r, c) \<in> set (role_keys db) \<and> (\<exists>d \<in> C. (r, d) \<in> set (role_keys db)))" for c
  proof
    assume "c \<in> C"
    moreover from this obtain r where "(r, c) \<in> set (role_keys db)" using C by force
    ultimately show "\<exists>r. (r, c) \<in> set (role_keys db) \<and> (\<exists>d \<in> C. (r, d) \<in> set (role_keys db))"
      by blast
  next
    assume "\<exists>r. (r, c) \<in> set (role_keys db) \<and> (\<exists>d \<in> C. (r, d) \<in> set (role_keys db))"
    then show "c \<in> C" using keyed_inj [OF keyed] by metis
  qed
  then show ?thesis
    unfolding user_role_codes_def eq links [rule_format] by blast
qed

text \<open>Integrity is kept by an assignment to an existing user.\<close>

lemma assign_roles_tx_wf:
  assumes run: "assign_roles_tx now uid cs s = (Inr u, s')"
    and wf: "access_wf (tables s)" and uid: "uid \<in> set (user_ids (tables s))"
  shows "access_wf (tables s')"
proof -
  have keyed: "keyed (role_keys (tables s))" using wf by (simp add: access_wf_def)
  note r = assign_roles_tx_run [OF run keyed]
  have cat: "same_catalogue (tables s) (tables s')" using r by simp
  have "rid \<in> fst ` set (role_keys (tables s)) \<and> i \<in> set (user_ids (tables s))"
    if l: "(i, rid) \<in> user_links (tables s')" for i rid
  proof (cases "i = uid")
    case True
    then obtain c where "(rid, c) \<in> set (role_keys (tables s))" using r l by blast
    then have "rid \<in> fst ` set (role_keys (tables s))" by (rule image_eqI [rotated]) simp
    with True uid show ?thesis by simp
  next
    case False
    then have "(i, rid) \<in> user_links (tables s)"
      using r l by (metis (mono_tags, lifting) fst_conv mem_Collect_eq)
    then have "rid \<in> snd ` user_links (tables s)" "i \<in> fst ` user_links (tables s)"
      by (auto intro: rev_image_eqI)
    then show ?thesis using wf unfolding access_wf_def by blast
  qed
  then have "snd ` user_links (tables s') \<subseteq> fst ` set (role_keys (tables s))"
    and "fst ` user_links (tables s') \<subseteq> set (user_ids (tables s))"
    by auto
  then show ?thesis
    using wf same_catalogue_keys [OF cat] by (simp add: access_wf_def)
qed

section \<open>Loading a user's access\<close>

lemma concat_map_minus: "set (concat (map f L)) - X = (\<Union>x \<in> set L. set (f x) - X)"
  by auto

lemma left_join_grants: "set (left_join_permissions db r) - {[]} = role_grants db (role_id r) - {[]}"
proof -
  have *: "set (case filter (\<lambda>p. perm_id p = rp_permission_id rp) (permissions db) of
       [] \<Rightarrow> [[]] | ps \<Rightarrow> map perm_code ps) - {[]}
     = {c. c \<noteq> [] \<and> (rp_permission_id rp, c) \<in> set (perm_keys db)}" for rp
  proof (cases "filter (\<lambda>p. perm_id p = rp_permission_id rp) (permissions db)")
    case Nil
    then show ?thesis by (auto simp: perm_keys_def filter_empty_conv)
  next
    case (Cons p ps)
    then have eq: "set (p # ps) = {p \<in> set (permissions db). perm_id p = rp_permission_id rp}"
      by (metis set_filter)
    show ?thesis
      unfolding Cons list.case set_map eq by (force simp: perm_keys_def image_iff)
  qed
  have "set (left_join_permissions db r) - {[]} =
     (\<Union>rp \<in> {rp \<in> set (role_permissions db). rp_role_id rp = role_id r}.
        {c. c \<noteq> [] \<and> (rp_permission_id rp, c) \<in> set (perm_keys db)})"
  proof (cases "filter (\<lambda>rp. rp_role_id rp = role_id r) (role_permissions db)")
    case Nil
    then show ?thesis
      by (auto simp: left_join_permissions_def filter_empty_conv)
  next
    case (Cons x xs)
    then have eq: "set (x # xs) = {rp \<in> set (role_permissions db). rp_role_id rp = role_id r}"
      by (metis set_filter)
    show ?thesis
      unfolding left_join_permissions_def Cons list.case concat_map_minus * eq ..
  qed
  also have "\<dots> = role_grants db (role_id r) - {[]}"
    by (auto simp: role_grants_def role_links_def image_iff) metis
  finally show ?thesis .
qed

lemma access_row_of_sel [simp]:
  "row_role_code (access_row_of r c) = role_code r"
  "row_permission_code (access_row_of r c) = c"
  by (simp_all add: access_row_of_def)

lemma set_access_rows:
  "set (access_rows db uid) =
     {access_row_of r c | r c. r \<in> set (roles db) \<and> (uid, role_id r) \<in> user_links db
        \<and> c \<in> set (left_join_permissions db r)}"
  by (auto simp: access_rows_def user_links_def image_iff)

lemma left_join_nonempty: "left_join_permissions db r \<noteq> []"
proof (cases "filter (\<lambda>rp. rp_role_id rp = role_id r) (role_permissions db)")
  case (Cons x xs)
  then show ?thesis
    by (cases "filter (\<lambda>p. perm_id p = rp_permission_id x) (permissions db)")
      (simp_all add: left_join_permissions_def)
qed (simp add: left_join_permissions_def)

lemma fold_rows_spec:
  assumes "fold_rows xs rm ps = (rm', ps')"
    and "distinct (map fst rm)" and "\<forall>(c, x) \<in> set rm. rs_code x = c"
  shows "ps' = ps \<union> {row_permission_code x | x. x \<in> set xs \<and> row_role_code x \<noteq> []
              \<and> row_permission_code x \<noteq> []}
    \<and> distinct (map fst rm') \<and> (\<forall>(c, x) \<in> set rm'. rs_code x = c)
    \<and> fst ` set rm' = fst ` set rm \<union> (row_role_code ` set xs - {[]})"
  using assms
proof (induction xs arbitrary: rm ps)
  case Nil
  then show ?case by simp
next
  case (Cons x xs)
  show ?case
  proof (cases "row_role_code x = []")
    case True
    with Cons.prems Cons.IH [of rm ps] show ?thesis by auto
  next
    case False
    let ?rm = "if map_of rm (row_role_code x) = None
          then rm @ [(row_role_code x,
                 \<lparr>rs_code = row_role_code x, rs_name = row_role_name x,
                  rs_description = row_role_description x, rs_permissions = []\<rparr>)]
          else rm"
    let ?ps = "if row_permission_code x \<noteq> [] then insert (row_permission_code x) ps else ps"
    have run: "fold_rows xs ?rm ?ps = (rm', ps')" using Cons.prems(1) False by simp
    have d: "distinct (map fst ?rm)" and c: "\<forall>(c, x) \<in> set ?rm. rs_code x = c"
      using Cons.prems(2,3) by (auto simp: map_of_eq_None_iff)
    have f: "fst ` set ?rm = insert (row_role_code x) (fst ` set rm)"
      by (auto simp: map_of_eq_None_iff)
    show ?thesis
      using Cons.IH [OF run d c] False unfolding f by auto
  qed
qed

lemma access_rows_codes: "row_role_code ` set (access_rows db uid) = user_role_codes db uid"
proof -
  have "c \<in> row_role_code ` set (access_rows db uid)"
    if "r \<in> set (roles db)" "(uid, role_id r) \<in> user_links db" "c = role_code r" for r c
  proof -
    obtain d where "d \<in> set (left_join_permissions db r)"
      using left_join_nonempty [of db r] by (meson list.set_sel(1))
    then have "access_row_of r d \<in> set (access_rows db uid)"
      using that by (auto simp: set_access_rows)
    then show ?thesis by (rule rev_image_eqI) (simp add: that)
  qed
  moreover have "c \<in> user_role_codes db uid" if "c \<in> row_role_code ` set (access_rows db uid)" for c
    using that by (force simp: set_access_rows user_role_codes_def role_keys_def)
  ultimately show ?thesis
    by (auto simp: user_role_codes_def role_keys_def)
qed

lemma access_rows_grants:
  "{row_permission_code x | x. x \<in> set (access_rows db uid) \<and> row_role_code x \<noteq> []
      \<and> row_permission_code x \<noteq> []} = user_grants db uid"
proof -
  have "{row_permission_code x | x. x \<in> set (access_rows db uid) \<and> row_role_code x \<noteq> []
      \<and> row_permission_code x \<noteq> []}
    = {c. \<exists>r \<in> set (roles db). (uid, role_id r) \<in> user_links db \<and> role_code r \<noteq> []
          \<and> c \<in> set (left_join_permissions db r) - {[]}}"
    by (force simp: set_access_rows)
  also have "\<dots> = user_grants db uid"
    unfolding left_join_grants by (auto simp: user_grants_def role_keys_def)
  finally show ?thesis .
qed

lemma map_of_codes:
  assumes "distinct (map fst rm)" and "\<forall>(c, x) \<in> set rm. rs_code x = c"
  shows "map rs_code (map (\<lambda>c. the (map_of rm c)) (sort (map fst rm))) = sort (map fst rm)"
proof -
  have "rs_code (the (map_of rm c)) = c" if "c \<in> fst ` set rm" for c
    using that assms by (auto simp: map_of_is_SomeI)
  then have "map (\<lambda>c. rs_code (the (map_of rm c))) (sort (map fst rm)) = map (\<lambda>c. c) (sort (map fst rm))"
    by (intro map_cong) auto
  then show ?thesis by (simp add: comp_def)
qed

lemma finish_access_sel [simp]:
  "ua_permission_set (finish_access a) = ua_permission_set a"
  "ua_roles (finish_access a) = ua_roles a"
  "ua_user_id (finish_access a) = ua_user_id a"
  "ua_is_super_admin (finish_access a) = ua_is_super_admin a"
  "ua_permissions (finish_access a) = map_keys (ua_permission_set a)"
  by (simp_all add: finish_access_def Let_def)

lemma has_permission_finish:
  "has_permission (Some (finish_access a)) c = has_permission (Some a) c"
  by (auto simp: has_permission_def split: option.splits)

lemma load_user_access_run:
  assumes "load_user_access uid s = (Inr a, s')"
  shows "tables s' = tables s \<and> ua_user_id a = uid
    \<and> (\<exists>u. find (\<lambda>u. user_id u = uid) (users (tables s)) = Some u
         \<and> ua_is_super_admin a = user_is_admin u
         \<and> ua_permission_set a = (if user_is_admin u then set builtin_codes
              else user_grants (tables s) uid)
         \<and> (\<not> user_is_admin u \<longrightarrow>
              map rs_code (ua_roles a)
                = sorted_list_of_set (user_role_codes (tables s) uid - {[]})))"
proof -
  from assms obtain s1 u where
    q: "query AccessEngine (\<lambda>db. find (\<lambda>u. user_id u = uid) (users db)) s = (Inr (Some u), s1)" and
    rest: "(if user_is_admin u
           then ret (finish_access ((empty_access u)\<lparr>ua_permission_set := set builtin_codes\<rparr>))
           else
             bnd (query AccessEngine (\<lambda>db. access_rows db uid)) (\<lambda>rows.
             case fold_rows rows [] {} of
               (rm, ps) \<Rightarrow>
                 ret (finish_access ((empty_access u)\<lparr>ua_permission_set := ps,
                   ua_roles := map (\<lambda>c. the (map_of rm c)) (sort (map fst rm))\<rparr>)))) s1 = (Inr a, s')"
    by (auto simp: load_user_access_def guard_db_Inr bnd_Inr split: option.splits)
  have u: "find (\<lambda>u. user_id u = uid) (users (tables s)) = Some u" and t1: "tables s1 = tables s"
    using query_Inr [OF q] by simp_all
  have id: "user_id u = uid" using find_key_in [OF u] by simp
  show ?thesis
  proof (cases "user_is_admin u")
    case True
    with rest have "tables s' = tables s" using t1 by auto
    with True rest show ?thesis by (auto simp: u id empty_access_def)
  next
    case False
    obtain rm ps where fr: "fold_rows (access_rows (tables s) uid) [] {} = (rm, ps)" by fastforce
    note sp = fold_rows_spec [OF fr]
    from False rest obtain rows s2 where
      q2: "query AccessEngine (\<lambda>db. access_rows db uid) s1 = (Inr rows, s2)" and
      fin: "(case fold_rows rows [] {} of
               (rm, ps) \<Rightarrow>
                 ret (finish_access ((empty_access u)\<lparr>ua_permission_set := ps,
                   ua_roles := map (\<lambda>c. the (map_of rm c)) (sort (map fst rm))\<rparr>))) s2
          = (Inr a :: access_error + user_access, s')"
      unfolding if_not_P [OF False] bnd_Inr by blast
    have rows: "rows = access_rows (tables s) uid" and t2': "tables s2 = tables s"
      using query_Inr [OF q2] t1 by simp_all
    have a: "a = finish_access ((empty_access u)\<lparr>ua_permission_set := ps,
                   ua_roles := map (\<lambda>c. the (map_of rm c)) (sort (map fst rm))\<rparr>)"
      and t2: "tables s' = tables s"
      using fin t2' by (auto simp: rows fr)
    have codes: "set (map fst rm) = user_role_codes (tables s) uid - {[]}"
      using sp by (simp add: access_rows_codes)
    have "sort (map fst rm) = sorted_list_of_set (set (map fst rm))"
      unfolding sorted_list_of_set_sort_remdups using sp by (simp add: distinct_remdups_id)
    then have "map rs_code (ua_roles a) = sorted_list_of_set (user_role_codes (tables s) uid - {[]})"
      using sp map_of_codes [of rm] by (simp add: a codes [symmetric])
    moreover have "ps = user_grants (tables s) uid"
      using sp access_rows_grants by simp
    ultimately show ?thesis
      using False t2 by (simp add: u a id empty_access_def)
  qed
qed

end
