(* ===== verification/Access_Props.thy ===== *)
theory Access_Props
  imports Access_Users
begin

text \<open>
  The properties of the access service, for an engine with arbitrary failures where an
  operation may fail and for a healthy engine where it is to succeed.
\<close>

section \<open>Operations succeed on a healthy engine\<close>

lemma seed_permissions_healthy: "\<exists>ids db'. seed_permissions now ps m (healthy db) = (Inr ids, healthy db')"
proof (induction ps arbitrary: m db)
  case (Cons p ps)
  let ?db = "upsert_permission now p db"
  have "find (\<lambda>r. perm_code r = perm_code p) (permissions ?db) \<noteq> None"
    by (auto simp: upsert_permission_def find_None_iff set_upd_where)
  then obtain st where "find (\<lambda>r. perm_code r = perm_code p) (permissions ?db) = Some st" by blast
  then show ?case using Cons.IH by (simp add: bnd_run)
qed simp

lemma each_modify_healthy:
  "\<exists>db'. each (\<lambda>x. modify e (f x)) xs (healthy db) = (Inr (), healthy db')"
  by (induction xs arbitrary: db) (auto simp: bnd_run)

lemma seed_one_role_healthy: "\<exists>db'. seed_one_role now ids item (healthy db) = (Inr (), healthy db')"
proof -
  let ?db = "upsert_role now (fst item) db"
  have "find (\<lambda>r. role_code r = role_code (fst item)) (roles ?db) \<noteq> None"
    by (auto simp: upsert_role_def find_None_iff set_upd_where)
  then obtain st where "find (\<lambda>r. role_code r = role_code (fst item)) (roles ?db) = Some st" by blast
  then show ?thesis
    using each_modify_healthy by (simp add: seed_one_role_def bnd_run)
qed

lemma seed_roles_healthy: "\<exists>db'. each (seed_one_role now ids) items (healthy db) = (Inr (), healthy db')"
proof (induction items arbitrary: db)
  case (Cons item items)
  obtain db1 where "seed_one_role now ids item (healthy db) = (Inr (), healthy db1)"
    using seed_one_role_healthy by blast
  then show ?case using Cons.IH by (simp add: bnd_run)
qed simp

lemma seed_builtin_healthy: "\<exists>db'. seed_builtin now (healthy db) = (Inr (), healthy db')"
proof -
  obtain ids db1 where 1: "seed_permissions now builtin_permissions Map.empty (healthy db) = (Inr ids, healthy db1)"
    using seed_permissions_healthy by blast
  obtain db2 where 2: "each (seed_one_role now ids) builtin_roles (healthy db1) = (Inr (), healthy db2)"
    using seed_roles_healthy by blast
  show ?thesis
    by (simp add: seed_builtin_def transaction_healthy bnd_run 1 2)
qed

lemma add_user_links_healthy:
  assumes "distinct (map role_id rs)" and "\<forall>r \<in> set rs. (uid, role_id r) \<notin> user_links db"
  shows "\<exists>db'. each (\<lambda>r. insert_row AccessEngine (add_user_link now uid (role_id r))) rs (healthy db)
    = (Inr (), healthy db')"
  using assms
proof (induction rs arbitrary: db)
  case (Cons r rs)
  then have "\<not> (\<exists>ur \<in> set (user_roles db). ur_user_id ur = uid \<and> ur_role_id ur = role_id r)"
    by (force simp: user_links_def)
  then obtain db1 where db1: "add_user_link now uid (role_id r) db = Some db1"
    unfolding add_user_link_def by simp
  have "\<forall>r' \<in> set rs. (uid, role_id r') \<notin> user_links db1"
    using Cons.prems by (auto simp: user_links_add [OF db1] image_iff)
  then show ?case
    using Cons db1 by (simp add: bnd_run insert_row_healthy)
qed simp

lemma assign_roles_tx_healthy:
  assumes "keyed (role_keys db)" and "requested_codes cs \<subseteq> snd ` set (role_keys db)"
  shows "\<exists>db'. assign_roles_tx now uid cs (healthy db) = (Inr (), healthy db')"
proof (cases "normalize_codes cs {} = []")
  case True
  then show ?thesis by (simp add: assign_roles_tx_def bnd_run)
next
  case False
  let ?ns = "normalize_codes cs {}" and ?d = "delete_user_links uid db"
  let ?rs = "filter (\<lambda>r. role_code r \<in> set ?ns) (roles ?d)"
  have rls: "roles ?d = roles db" by (simp add: delete_user_links_def)
  have dc: "distinct (map role_code (roles db))" and di: "distinct (map role_id (roles db))"
    using assms(1) by (simp_all add: keyed_def fst_role_keys snd_role_keys)
  have "set ?ns \<subseteq> role_code ` set (roles db)"
    using assms(2) by (auto simp: normalize_codes_requested role_keys_def)
  then have "role_code ` set ?rs = set ?ns" unfolding rls by auto
  moreover have "distinct (map role_code ?rs)" using dc rls by (simp add: distinct_map_filter)
  ultimately have len: "length ?rs = length ?ns"
    by (metis distinct_card distinct_normalize_codes length_map set_map)
  have "\<exists>db'. each (\<lambda>r. insert_row AccessEngine (add_user_link now uid (role_id r))) ?rs (healthy ?d)
      = (Inr (), healthy db')"
    using di by (intro add_user_links_healthy) (auto simp: rls distinct_map_filter user_links_delete)
  then show ?thesis
    using False len by (simp add: assign_roles_tx_def bnd_run Let_def)
qed

lemma load_user_access_healthy:
  assumes "uid \<in> set (user_ids db)"
  shows "\<exists>a. load_user_access uid (healthy db) = (Inr a, healthy db)"
proof -
  have "find (\<lambda>u. user_id u = uid) (users db) \<noteq> None"
    using assms by (auto simp: find_None_iff user_ids_def)
  then obtain u where "find (\<lambda>u. user_id u = uid) (users db) = Some u" by blast
  then show ?thesis
    by (cases "user_is_admin u")
      (auto simp: load_user_access_def bnd_run split: prod.splits)
qed

section \<open>Seeding and assignment\<close>

definition custom_roles :: "access_db \<Rightarrow> (nat \<times> string) set" where
  "custom_roles db = {k \<in> set (role_keys db). snd k \<notin> (role_code \<circ> fst) ` set builtin_roles}"

definition other_roles :: "access_db \<Rightarrow> role_row list" where
  "other_roles db = filter (\<lambda>r. role_code r \<notin> (role_code \<circ> fst) ` set builtin_roles) (roles db)"

lemma filter_upd_where_other:
  "(\<And>r. Q r \<Longrightarrow> \<not> P r \<and> \<not> P (f r)) \<Longrightarrow> filter P (upd_where Q f rows) = filter P rows"
  by (induction rows) auto

lemma other_roles_upsert:
  assumes "item \<in> set builtin_roles"
  shows "other_roles (upsert_role now (fst item) db) = other_roles db"
proof -
  define B where "B = (role_code \<circ> fst) ` set builtin_roles"
  have "role_code (fst item) \<in> B" unfolding B_def comp_def using assms by (rule imageI)
  then show ?thesis
    unfolding other_roles_def upsert_role_def B_def [symmetric] by (auto intro!: filter_upd_where_other)
qed

lemma other_roles_elsewhere:
  "other_roles (upsert_permission now p db) = other_roles db" "other_roles (delete_role_links rid db) = other_roles db"
  "other_roles (add_role_link now rid i db) = other_roles db"
  by (auto simp: other_roles_def upsert_permission_def delete_role_links_def add_role_link_def)

lemma seed_keeps_other_roles: "keeps (\<lambda>db. other_roles db = rs) (seed_builtin now)"
proof -
  have "keeps (\<lambda>db. other_roles db = rs) (seed_permissions now ps ids)" for ps ids
    by (induction ps arbitrary: ids) (auto intro!: keeps_rules simp: other_roles_elsewhere)
  moreover have "keeps (\<lambda>db. other_roles db = rs) (seed_one_role now ids item)" if "item \<in> set builtin_roles" for ids item
    using that unfolding seed_one_role_def
    by (intro keeps_rules) (auto simp: other_roles_elsewhere other_roles_upsert)
  ultimately show ?thesis
    unfolding seed_builtin_def by (intro keeps_guard_db keeps_transaction keeps_bnd keeps_each_in)
qed

text \<open>
  C1: Seeding repairs the built-in roles of tables with referential integrity, which every
  operation keeps (C4): after a successful run, with any engine failures before it, every built-in
  role has a row linked to exactly the permissions the code lists; every row of a custom role is
  exactly as it was, with the permissions it granted; users and assignments are untouched; and
  the tables keep their integrity.  A failed run changes nothing.  The schema has no foreign keys,
  and a link to a missing permission, which no operation of the service leaves, is not covered: it
  would become a grant when seeding gives its key to a new permission.
\<close>

theorem seed_builtin_exact:
  assumes "access_wf (tables s)" and "seed_builtin now s = (r, s')"
  shows "case r of
      Inl e \<Rightarrow> tables s' = tables s
    | Inr _ \<Rightarrow>
        access_wf (tables s')
        \<and> (\<forall>(q, cs) \<in> set builtin_roles.
             \<exists>rid. (rid, role_code q) \<in> set (role_keys (tables s')) \<and> role_grants (tables s') rid = set cs)
        \<and> other_roles (tables s') = other_roles (tables s)
        \<and> (\<forall>q \<in> set (other_roles (tables s)).
             role_grants (tables s') (role_id q) = role_grants (tables s) (role_id q))
        \<and> users (tables s') = users (tables s) \<and> user_roles (tables s') = user_roles (tables s)"
proof (cases r)
  case (Inl e)
  with assms(2) show ?thesis
    by (auto simp: seed_builtin_def guard_db_Inl dest: transaction_Inl)
next
  case (Inr u)
  with assms(2) have run: "seed_builtin now s = (Inr u, s')" by simp
  note b = seed_builtin_run [OF run assms(1)]
  have "(rid, c) \<in> custom_roles (tables s') \<and> role_grants (tables s') rid = role_grants (tables s) rid"
    if "(rid, c) \<in> custom_roles (tables s)" for rid c
    using that b unfolding custom_roles_def untouched_def by fastforce
  moreover have "(role_id q, role_code q) \<in> custom_roles (tables s)" if "q \<in> set (other_roles (tables s))" for q
    using that by (auto simp: other_roles_def custom_roles_def role_keys_def)
  moreover have "other_roles (tables s') = other_roles (tables s)"
    using keepsD [OF seed_keeps_other_roles [of "other_roles (tables s)"] refl run] .
  ultimately show ?thesis
    using b Inr by (auto simp: seeded_def same_users_def)
qed

definition no_access :: access_db where
  "no_access = \<lparr>users = [], roles = [], permissions = [], role_permissions = [], user_roles = []\<rparr>"

lemma no_access_wf [simp]: "access_wf no_access"
  by (simp add: access_wf_def no_access_def key_defs keyed_def)

theorem seed_builtin_exact_witness:
  "\<exists>db'. seed_builtin 7 (healthy no_access) = (Inr (), healthy db') \<and> access_wf db'
     \<and> users db' = []"
proof -
  obtain db' where run: "seed_builtin 7 (healthy no_access) = (Inr (), healthy db')"
    using seed_builtin_healthy by blast
  have "access_wf (tables (healthy no_access))" by simp
  from seed_builtin_exact [OF this run] run show ?thesis by (auto simp: no_access_def)
qed

text \<open>
  C2: Assigning roles is all or nothing.  Whichever engine calls fail, an error leaves
  every table as it was; on success a non-administrator holds exactly the requested roles
  (trimmed, without empties and duplicates), every other user's assignments and the
  catalogue are unchanged, and for an administrator nothing changes.
\<close>

theorem assign_roles_all_or_nothing:
  assumes "access_wf (tables s)" and "assign_roles now uid cs s = (r, s')"
  shows "case r of
      Inl e \<Rightarrow> tables s' = tables s
    | Inr _ \<Rightarrow>
        \<exists>u. find (\<lambda>u. user_id u = uid) (users (tables s)) = Some u
          \<and> (if user_is_admin u then tables s' = tables s
             else user_role_codes (tables s') uid = requested_codes cs
               \<and> (\<forall>i. i \<noteq> uid \<longrightarrow> user_role_codes (tables s') i = user_role_codes (tables s) i)
               \<and> same_catalogue (tables s) (tables s'))"
proof (cases r)
  case (Inl e)
  with assms(2) show ?thesis
    by (auto simp: assign_roles_def guard_db_Inl dest: transaction_Inl)
next
  case (Inr x)
  with assms(2) have "assign_roles now uid cs s = (Inr x, s')" by simp
  then obtain s1 s2 s3 u where
    t1: "tables s1 = tables s" and
    q: "query AccessEngine (\<lambda>db. find (\<lambda>u. user_id u = uid) (users db)) s1 = (Inr (Some u), s2)" and
    rest: "(if user_is_admin u then ret () else assign_roles_tx now uid cs) s2 = (Inr x, s3)" and
    t3: "tables s' = tables s3"
    unfolding assign_roles_def guard_db_Inr
    by (auto elim!: transaction_Inr simp: bnd_Inr split: option.splits)
  have u: "find (\<lambda>u. user_id u = uid) (users (tables s)) = Some u" and t2: "tables s2 = tables s"
    using query_Inr [OF q] t1 by simp_all
  have keyed: "keyed (role_keys (tables s2))" using assms(1) t2 by (simp add: access_wf_def)
  show ?thesis
  proof (cases "user_is_admin u")
    case True
    then have "s3 = s2" using rest by simp
    with True show ?thesis using Inr u t2 t3 by simp
  next
    case False
    with rest have run: "assign_roles_tx now uid cs s2 = (Inr x, s3)" by simp
    note r = assign_roles_tx_run [OF run keyed]
    have keys: "role_keys (tables s3) = role_keys (tables s)"
      using r t2 same_catalogue_keys [of "tables s2" "tables s3"] by simp
    have "user_role_codes (tables s3) uid = requested_codes cs"
      using r keyed by (intro user_role_codes_eq [of uid "tables s3" _ "tables s"]) (auto simp: keys t2)
    moreover have "user_role_codes (tables s3) i = user_role_codes (tables s) i" if "i \<noteq> uid" for i
    proof -
      have "(i, k) \<in> user_links (tables s3) \<longleftrightarrow> (i, k) \<in> user_links (tables s)" for k
        using r that unfolding t2 set_eq_iff by auto
      then show ?thesis by (simp add: user_role_codes_def keys)
    qed
    ultimately show ?thesis
      using False Inr u r t2 t3 by simp
  qed
qed

definition demo_user :: "int \<Rightarrow> string \<Rightarrow> bool \<Rightarrow> user_row" where
  "demo_user i n admin =
     \<lparr>user_id = i, user_name = n, user_password = [], user_is_admin = admin, user_first_join = False,
      user_must_change_password = False, user_security_version = 1, user_create_time = 0\<rparr>"

definition demo_access :: access_db where
  "demo_access = no_access\<lparr>users := [demo_user 1 ''root'' True, demo_user 2 ''web'' False]\<rparr>"

lemma demo_access_wf [simp]: "access_wf demo_access"
  by (simp add: access_wf_def demo_access_def no_access_def demo_user_def key_defs keyed_def)

theorem assign_roles_all_or_nothing_witness:
  "\<exists>r s'. assign_roles 5 2 [''website_admin''] (healthy demo_access) = (r, s')
     \<and> (case r of Inl e \<Rightarrow> tables s' = demo_access
        | Inr _ \<Rightarrow> \<exists>u. find (\<lambda>u. user_id u = 2) (users demo_access) = Some u)"
proof -
  obtain r s' where run: "assign_roles 5 2 [''website_admin''] (healthy demo_access) = (r, s')"
    by fastforce
  have "access_wf (tables (healthy demo_access))" by simp
  from assign_roles_all_or_nothing [OF this run] run show ?thesis by (auto split: sum.splits)
qed

lemma role_codes_nonempty: "(q, cs) \<in> set builtin_roles \<Longrightarrow> role_code q \<noteq> []"
  by (auto simp: builtin_roles_def builtin_role_defs)

lemma builtin_codes_nonempty: "c \<in> set builtin_codes \<Longrightarrow> c \<noteq> []"
  by (auto simp: builtin_codes_eq)

lemma user_grants_of_roles:
  assumes "keyed (role_keys db)" and "seeded builtin_roles db"
    and "user_role_codes db uid \<subseteq> (role_code \<circ> fst) ` set builtin_roles"
  shows "user_grants db uid = (\<Union>(q, cs) \<in> {i \<in> set builtin_roles. role_code (fst i) \<in> user_role_codes db uid}. set cs)"
proof -
  have grants: "role_grants db r = set cs"
    if "(r, role_code q) \<in> set (role_keys db)" "(q, cs) \<in> set builtin_roles" for r q cs
    using that assms(1,2) keyed_inj [OF assms(1)] unfolding seeded_def by fastforce
  have nonempty: "c \<noteq> []" if "c \<in> set cs" "(q, cs) \<in> set builtin_roles" for c q cs
    using that builtin_roles_permissions builtin_codes_nonempty by blast
  show ?thesis
  proof (rule set_eqI iffI)+
    fix c assume "c \<in> user_grants db uid"
    then obtain r k where rk: "(r, k) \<in> set (role_keys db)" "(uid, r) \<in> user_links db" "c \<in> role_grants db r"
      by (auto simp: user_grants_def)
    then have k: "k \<in> user_role_codes db uid" by (auto simp: user_role_codes_def)
    then obtain q cs where q: "(q, cs) \<in> set builtin_roles" "k = role_code q" using assms(3) by fastforce
    then have "c \<in> set cs" using rk grants by blast
    then show "c \<in> (\<Union>(q, cs) \<in> {i \<in> set builtin_roles. role_code (fst i) \<in> user_role_codes db uid}. set cs)"
      using q k by force
  next
    fix c assume "c \<in> (\<Union>(q, cs) \<in> {i \<in> set builtin_roles. role_code (fst i) \<in> user_role_codes db uid}. set cs)"
    then obtain q cs where q: "(q, cs) \<in> set builtin_roles" "role_code q \<in> user_role_codes db uid" "c \<in> set cs"
      by auto
    then obtain r where r: "(r, role_code q) \<in> set (role_keys db)" "(uid, r) \<in> user_links db"
      by (auto simp: user_role_codes_def)
    then have "c \<in> role_grants db r" using grants q by blast
    then show "c \<in> user_grants db uid"
      using r role_codes_nonempty [OF q(1)] nonempty [OF q(3,1)] unfolding user_grants_def by blast
  qed
qed

text \<open>
  C3: Least privilege end to end.  On a working engine, seeding, then assigning built-in roles
  to a user who is not an administrator, then loading that user's access all succeed, and the
  loaded permission set is exactly the union of the permission lists of those roles.
\<close>

theorem builtin_assignment_grants_exactly:
  assumes "access_wf db"
    and "find (\<lambda>u. user_id u = uid) (users db) = Some u" and "\<not> user_is_admin u"
    and "requested_codes cs \<subseteq> (role_code \<circ> fst) ` set builtin_roles"
  shows "\<exists>db1 db2 a.
      seed_builtin now (healthy db) = (Inr (), healthy db1)
      \<and> assign_roles now uid cs (healthy db1) = (Inr (), healthy db2)
      \<and> load_user_access uid (healthy db2) = (Inr a, healthy db2)
      \<and> ua_permission_set a
          = (\<Union>(q, ps) \<in> {i \<in> set builtin_roles. role_code (fst i) \<in> requested_codes cs}. set ps)"
proof -
  obtain db1 where seed: "seed_builtin now (healthy db) = (Inr (), healthy db1)"
    using seed_builtin_healthy by blast
  have b: "access_wf db1" "same_users db db1" "seeded builtin_roles db1"
    using seed_builtin_run [OF seed] assms(1) by simp_all
  have u1: "find (\<lambda>u. user_id u = uid) (users db1) = Some u"
    using assms(2) b(2) by (simp add: same_users_def)
  have uid: "uid \<in> set (user_ids db1)"
    using find_key_in [OF u1] by (force simp: user_ids_def)
  have keyed: "keyed (role_keys db1)" using b(1) by (simp add: access_wf_def)
  have "(role_code \<circ> fst) ` set builtin_roles \<subseteq> snd ` set (role_keys db1)"
    using b(3) by (force simp: seeded_def)
  then have "requested_codes cs \<subseteq> snd ` set (role_keys db1)" using assms(4) by blast
  then obtain db2 where tx: "assign_roles_tx now uid cs (healthy db1) = (Inr (), healthy db2)"
    using assign_roles_tx_healthy [OF keyed] by blast
  have assign: "assign_roles now uid cs (healthy db1) = (Inr (), healthy db2)"
    using assms(3) u1 tx by (simp add: assign_roles_def transaction_healthy bnd_run)
  note r = assign_roles_tx_run [OF tx, simplified, OF keyed]
  have cat: "same_catalogue db1 db2" using r by simp
  have keys: "role_keys db2 = role_keys db1" "perm_keys db2 = perm_keys db1"
    "role_links db2 = role_links db1" "user_ids db2 = user_ids db1"
    using same_catalogue_keys [OF cat] by simp_all
  have codes: "user_role_codes db2 uid = requested_codes cs"
    using r keyed by (intro user_role_codes_eq [of uid db2 _ db1]) (auto simp: keys)
  have "seeded builtin_roles db2"
    using b(3) by (simp add: seeded_def role_grants_def keys)
  then have grants: "user_grants db2 uid
      = (\<Union>(q, ps) \<in> {i \<in> set builtin_roles. role_code (fst i) \<in> requested_codes cs}. set ps)"
    using user_grants_of_roles [of db2 uid] assms(4) keyed by (simp add: keys codes)
  obtain a where load: "load_user_access uid (healthy db2) = (Inr a, healthy db2)"
    using load_user_access_healthy uid keys by metis
  have "users db2 = users db1" using cat by (simp add: same_catalogue_def)
  then have "ua_permission_set a = user_grants db2 uid"
    using load_user_access_run [OF load] u1 assms(3) by auto
  then show ?thesis using seed assign load grants by blast
qed

theorem builtin_assignment_grants_exactly_witness:
  "\<exists>db1 db2 a.
      seed_builtin 3 (healthy demo_access) = (Inr (), healthy db1)
      \<and> assign_roles 3 2 [''operation_approver''] (healthy db1) = (Inr (), healthy db2)
      \<and> load_user_access 2 (healthy db2) = (Inr a, healthy db2)
      \<and> ua_permission_set a
          = {PermissionApprovalRead, PermissionApprovalReview, PermissionApprovalExecute,
             PermissionTaskReadAll}"
proof -
  have req: "requested_codes [''operation_approver''] = {''operation_approver''}"
    by (simp add: requested_codes_def go_simps)
  have u: "find (\<lambda>u. user_id u = 2) (users demo_access) = Some (demo_user 2 ''web'' False)"
    by (simp add: demo_access_def demo_user_def no_access_def)
  have sub: "requested_codes [''operation_approver''] \<subseteq> (role_code \<circ> fst) ` set builtin_roles"
    by (simp add: req builtin_roles_def builtin_role_defs)
  have one: "{i \<in> set builtin_roles. role_code (fst i) \<in> {''operation_approver''}}
      = {builtin_operation_approver}"
  proof -
    have "filter (\<lambda>i. role_code (fst i) = ''operation_approver'') builtin_roles = [builtin_operation_approver]"
      by (simp add: builtin_roles_def builtin_role_defs)
    then have "set (filter (\<lambda>i. role_code (fst i) = ''operation_approver'') builtin_roles)
        = {builtin_operation_approver}" by simp
    then show ?thesis by simp
  qed
  have "\<not> user_is_admin (demo_user 2 ''web'' False)" by (simp add: demo_user_def)
  from builtin_assignment_grants_exactly [OF demo_access_wf u this sub, of 3]
  show ?thesis
    unfolding req one by (simp add: builtin_operation_approver_def insert_commute)
qed

section \<open>Integrity over every history\<close>

datatype access_op =
    Seed time
  | Create time string string bool "string list"
  | Assign time int "string list"
  | Reset int string
  | Load int

fun access_step :: "(string \<Rightarrow> string option) \<Rightarrow> access_op \<Rightarrow> unit access_act" where
  "access_step hash (Seed now) = seed_builtin now"
| "access_step hash (Create now name pw admin cs) =
     bnd (create_user hash now name pw admin cs) (\<lambda>_. ret ())"
| "access_step hash (Assign now uid cs) = assign_roles now uid cs"
| "access_step hash (Reset uid pw) = reset_user_password hash uid pw"
| "access_step hash (Load uid) = bnd (load_user_access uid) (\<lambda>_. ret ())"

lemma seed_builtin_keeps: "keeps access_wf (seed_builtin now)"
  unfolding keeps_def
proof (intro allI impI)
  fix s :: "access_db engine" assume wf: "access_wf (tables s)"
  obtain r s' where run: "seed_builtin now s = (r, s')" by fastforce
  show "access_wf (tables (snd (seed_builtin now s)))"
  proof (cases r)
    case (Inl e)
    with run have "tables s' = tables s"
      by (auto simp: seed_builtin_def guard_db_Inl dest: transaction_Inl)
    with wf run show ?thesis by simp
  next
    case (Inr u)
    with run have "seed_builtin now s = (Inr u, s')" by simp
    from seed_builtin_run [OF this wf] run show ?thesis by simp
  qed
qed

lemma assign_roles_keeps: "keeps access_wf (assign_roles now uid cs)"
  unfolding assign_roles_def
proof (intro keeps_guard_db keeps_transaction_success)
  fix s a s'
  assume wf: "access_wf (tables s)"
    and run: "bnd (query AccessEngine (\<lambda>db. find (\<lambda>u. user_id u = uid) (users db)))
      (case_option (throw AccessNotFound)
        (\<lambda>u. if user_is_admin u then ret () else assign_roles_tx now uid cs)) s = (Inr a, s')"
  from run obtain s1 u where
    q: "query AccessEngine (\<lambda>db. find (\<lambda>u. user_id u = uid) (users db)) s = (Inr (Some u), s1)" and
    rest: "(if user_is_admin u then ret () else assign_roles_tx now uid cs) s1 = (Inr a, s')"
    by (auto simp: bnd_Inr split: option.splits)
  have f: "find (\<lambda>u. user_id u = uid) (users (tables s)) = Some u" and t1: "tables s1 = tables s"
    using query_Inr [OF q] by simp_all
  have "uid \<in> set (user_ids (tables s1))"
    using find_key_in [OF f] by (force simp: user_ids_def t1)
  then show "access_wf (tables s')"
    using rest wf t1 assign_roles_tx_wf [of now uid cs s1 a s'] by (auto split: if_splits)
qed

lemma new_user_wf:
  assumes "access_wf db"
  shows "access_wf (db\<lparr>users := users db @ [new_user now name h admin db]\<rparr>)"
proof -
  let ?n = "next_id (map (\<lambda>u. nat (user_id u)) (users db))"
  have "int ?n \<notin> set (user_ids db)"
  proof
    assume "int ?n \<in> set (user_ids db)"
    then have "?n \<in> nat ` set (user_ids db)" by force
    then show False
      using next_id_fresh [of "map (\<lambda>u. nat (user_id u)) (users db)"] by (auto simp: user_ids_def)
  qed
  moreover have "user_ids (db\<lparr>users := users db @ [new_user now name h admin db]\<rparr>) = user_ids db @ [int ?n]"
    by (simp add: user_ids_def new_user_def)
  moreover have "0 < int ?n" by (simp add: next_id_def)
  moreover have "fst ` user_links db \<subseteq> insert (int ?n) (set (user_ids db))"
    using assms by (auto simp: access_wf_def)
  ultimately show ?thesis
    using assms unfolding access_wf_def
    by (simp add: perm_keys_def role_keys_def role_links_def user_links_def)
qed

lemma create_user_keeps: "keeps access_wf (create_user hash now name pw admin cs)"
proof -
  have tx: "keeps access_wf (transaction AccessEngine
      (bnd (exec AccessEngine (\<lambda>db. let u = new_user now (trim_space name) h admin db in
           (u, db\<lparr>users := users db @ [u]\<rparr>))) (\<lambda>u.
       if admin then ret u else bnd (assign_roles_tx now (user_id u) cs) (\<lambda>_. ret u))))" for h
  proof (intro keeps_transaction_success)
    fix s a s'
    assume wf: "access_wf (tables s)"
      and run: "bnd (exec AccessEngine (\<lambda>db. let u = new_user now (trim_space name) h admin db in
           (u, db\<lparr>users := users db @ [u]\<rparr>))) (\<lambda>u.
       if admin then ret u else bnd (assign_roles_tx now (user_id u) cs) (\<lambda>_. ret u)) s = (Inr a, s')"
    let ?u = "new_user now (trim_space name) h admin (tables s)"
    from run obtain u s1 where
      ins: "exec AccessEngine (\<lambda>db. let u = new_user now (trim_space name) h admin db in
           (u, db\<lparr>users := users db @ [u]\<rparr>)) s = (Inr u, s1)" and
      rest': "(if admin then ret u else bnd (assign_roles_tx now (user_id u) cs) (\<lambda>_. ret u)) s1
        = (Inr a, s')"
      unfolding bnd_Inr by blast
    have t1: "tables s1 = (tables s)\<lparr>users := users (tables s) @ [?u]\<rparr>" and u: "u = ?u"
      using exec_Inr [OF ins] unfolding Let_def by simp_all (metis Pair_inject)+
    note rest = rest' [unfolded u]
    have wf1: "access_wf (tables s1)" using new_user_wf [OF wf] by (simp add: t1)
    have "user_id ?u \<in> set (user_ids (tables s1))" by (simp add: t1 user_ids_def)
    then show "access_wf (tables s')"
      using rest wf1 assign_roles_tx_wf [of now "user_id ?u" cs s1] by (auto simp: bnd_Inr split: if_splits)
  qed
  show ?thesis
    unfolding create_user_def Let_def [of "trim_space name"]
    by (intro keeps_guard_db keeps_if keeps_throw keeps_option tx)
qed

lemma reset_user_password_keeps: "keeps access_wf (reset_user_password hash uid pw)"
proof -
  have ids: "user_ids (db\<lparr>users := upd_where p (\<lambda>u. u\<lparr>user_password := h, user_must_change_password := True\<rparr>)
      (users db)\<rparr>) = user_ids db" for db p h
    by (simp add: user_ids_def upd_where_def comp_def)
  show ?thesis
    unfolding reset_user_password_def
    by (intro keeps_rules) (simp add: access_wf_def ids perm_keys_def role_keys_def role_links_def user_links_def)
qed

lemma load_user_access_keeps: "keeps I (load_user_access uid)"
  unfolding load_user_access_def by (intro keeps_rules)

lemma access_step_keeps: "keeps access_wf (access_step hash x)"
  by (cases x)
    (auto intro: seed_builtin_keeps create_user_keeps assign_roles_keeps reset_user_password_keeps
      load_user_access_keeps keeps_bnd keeps_ret)

interpretation access_ops: invariant_ops access_wf "access_step hash"
  by unfold_locales (rule access_step_keeps)

text \<open>
  C4: Referential integrity is an invariant of the service: unique identifiers and codes, and
  links that point only at existing users, roles and permissions, hold after every sequence of
  its operations, whichever engine calls fail in between.
\<close>

theorem access_integrity:
  "access_wf (tables s) \<Longrightarrow> access_wf (tables (run_ops (access_step hash) ops s))"
  by (rule access_ops.run_inv)

theorem access_integrity_witness:
  "access_wf (tables (run_ops (access_step Some)
     [Seed 1, Create 2 ''ann'' ''secret'' False [''observer''], Assign 3 1 [''website_admin'']]
     \<lparr>tables = no_access, fate = [False, True], attached = True\<rparr>))"
  by (rule access_integrity) simp

section \<open>Scoped service control\<close>

definition scopes_of_role :: "string \<Rightarrow> string set" where
  "scopes_of_role code =
     (if code = RoleWebsiteAdmin then {ServiceScopeWebServer, ServiceScopeRuntime}
      else if code = RoleDatabaseAdmin then {ServiceScopeDatabase, ServiceScopeCache}
      else {})"

lemma scoped_roles_result:
  "scoped_roles scopes rs scoped =
     (if \<exists>r \<in> set rs. scopes_of_role (rs_code r) \<inter> scopes \<noteq> {} then Inl ()
      else Inr (scoped \<or> (\<exists>r \<in> set rs. scopes_of_role (rs_code r) \<noteq> {})))"
  by (induction rs arbitrary: scoped) (auto simp: scopes_of_role_def)

text \<open>
  Service control is confined by role.  A user who is neither administrator nor holder
  of \<open>software.write\<close> and who has a scoped role (website or database administrator)
  controls a service exactly when its scopes, trimmed and in lower case, meet the scopes of
  one of those roles, whatever other permissions the user holds; without a scoped role the
  answer is \<open>service.write\<close>.  The component name plays no part.
\<close>

theorem service_control_confined:
  assumes "\<not> ua_is_super_admin a" and "\<not> has_permission (Some a) PermissionSoftwareWrite"
  shows "can_control_service_scopes uni (Some a) scopes component \<longleftrightarrow>
    (if \<exists>r \<in> set (ua_roles a). scopes_of_role (rs_code r) \<noteq> {}
     then \<exists>r \<in> set (ua_roles a). scopes_of_role (rs_code r) \<inter> scope_set uni scopes \<noteq> {}
     else has_permission (Some a) PermissionServiceWrite)"
  using assms by (auto simp: can_control_service_scopes_def scoped_roles_result)

definition demo_website_admin :: user_access where
  "demo_website_admin =
     \<lparr>ua_user_id = 2, ua_username = ''web'', ua_is_super_admin = False,
      ua_roles = [\<lparr>rs_code = ''website_admin'', rs_name = [], rs_description = [], rs_permissions = []\<rparr>],
      ua_permissions = [''service.write''], ua_permission_set = {''service.write''},
      ua_can_approve = False\<rparr>"

theorem service_control_confined_witness:
  "can_control_service_scopes id (Some demo_website_admin) [''Runtime''] ''php''
   \<and> \<not> can_control_service_scopes id (Some demo_website_admin) [''database''] ''mysql''
   \<and> \<not> can_control_service_scopes id (Some demo_website_admin) [] ''nginx''"
proof -
  have "\<not> ua_is_super_admin demo_website_admin"
    and "\<not> has_permission (Some demo_website_admin) PermissionSoftwareWrite"
    by (simp_all add: demo_website_admin_def has_permission_def legacy_aliases_def)
  note c = service_control_confined [OF this]
  have other: "scope_set id [] = {}" "scope_set id [''database''] = {''database''}"
    by (simp_all add: scope_set_def go_simps case_simps)
  have "trim_space ''Runtime'' = ''Runtime''" by (simp add: go_simps)
  moreover have "to_lower id ''Runtime'' = ''runtime''" by code_simp
  ultimately have "scope_set id [''Runtime''] = {''runtime''}"
    by (simp add: scope_set_def)
  with other show ?thesis
    unfolding c by (simp add: demo_website_admin_def scopes_of_role_def)
qed

section \<open>Pages\<close>

lemma no_wrap_offset:
  "0 \<le> x \<Longrightarrow> x < 2 ^ 63 \<Longrightarrow> sint (word_of_int x :: 64 word) = x"
  by (simp add: sint_sbintrunc' signed_take_bit_int_eq_self)

text \<open>
  Paging loses and repeats nothing.  The page size is between 1 and 100 whatever the
  request says, and the row at position \<open>k\<close> of the ordered result is exactly the one at
  position \<open>k mod size\<close> of page \<open>k div size + 1\<close>.
\<close>

theorem pages_partition_rows:
  assumes "normalize_page page page_size = (p, n)" and "k < length rows" and "length rows < 2 ^ 63"
  shows "1 \<le> p \<and> 1 \<le> n \<and> n \<le> 100
    \<and> nat (int k mod n) < length (page_rows (int k div n + 1) n rows)
    \<and> page_rows (int k div n + 1) n rows ! nat (int k mod n) = rows ! k"
proof -
  have n: "1 \<le> p" "1 \<le> n" "n \<le> 100"
    using assms(1) by (auto simp: normalize_page_def Let_def split: if_splits)
  define o' where "o' = int k div n * n"
  have m: "int k mod n < n" "0 \<le> int k mod n" using n by simp_all
  have "0 \<le> o'" using n by (simp add: o'_def pos_imp_zdiv_nonneg_iff)
  then have o: "0 \<le> o'" "o' \<le> int k" "int k - o' = int k mod n" "int k mod n < n" "0 \<le> int k mod n"
    using m minus_div_mult_eq_mod [of "int k" n] unfolding o'_def by linarith+
  have "sint (word_of_int o' :: 64 word) = o'"
    using o assms(2,3) by (intro no_wrap_offset) simp_all
  then have "page_rows (int k div n + 1) n rows = take (nat n) (drop (nat o') rows)"
    by (simp add: page_rows_def o'_def)
  moreover have "nat o' + nat (int k mod n) = k" using o by linarith
  ultimately show ?thesis
    using n o assms(2) by (simp add: nth_take) linarith
qed

theorem pages_partition_rows_witness:
  "page_rows (int 7 div 3 + 1) 3 [10 ..< (20::nat)] ! nat (int 7 mod 3) = [10 ..< 20] ! 7"
proof -
  have "normalize_page 4 3 = (4, 3)" by (simp add: normalize_page_def)
  from pages_partition_rows [OF this, of 7 "[10 ..< (20::nat)]"] show ?thesis by simp
qed

section \<open>What the service does not check\<close>

text \<open>
  User names are not unique.  On a working engine two administrators with the same name
  can be created one after the other; both rows are stored, under different identifiers.
\<close>

theorem create_user_duplicate_name:
  assumes "trim_space name \<noteq> []" and "hash pw = Some h"
  shows "\<exists>u1 u2 db1 db2.
      create_user hash now name pw True [] (healthy db) = (Inr u1, healthy db1)
      \<and> create_user hash now name pw True [] (healthy db1) = (Inr u2, healthy db2)
      \<and> user_name u1 = user_name u2 \<and> user_id u1 \<noteq> user_id u2
      \<and> users db2 = users db @ [u1, u2]"
proof -
  let ?u1 = "new_user now (trim_space name) h True db"
  let ?db1 = "db\<lparr>users := users db @ [?u1]\<rparr>"
  let ?u2 = "new_user now (trim_space name) h True ?db1"
  have "create_user hash now name pw True [] (healthy d)
      = (Inr (new_user now (trim_space name) h True d),
         healthy (d\<lparr>users := users d @ [new_user now (trim_space name) h True d]\<rparr>))" for d
    using assms by (simp add: create_user_def Let_def transaction_healthy bnd_run)
  moreover have "user_id ?u1 \<noteq> user_id ?u2"
    using next_id_fresh [of "map (\<lambda>u. nat (user_id u)) (users ?db1)"] by (auto simp: new_user_def)
  ultimately show ?thesis by (simp add: new_user_def)
qed

theorem create_user_duplicate_name_witness:
  "\<exists>u1 u2 db1 db2.
      create_user Some 1 ''ann'' ''pw'' True [] (healthy no_access) = (Inr u1, healthy db1)
      \<and> create_user Some 1 ''ann'' ''pw'' True [] (healthy db1) = (Inr u2, healthy db2)
      \<and> user_name u1 = user_name u2 \<and> user_id u1 \<noteq> user_id u2
      \<and> users db2 = users no_access @ [u1, u2]"
  by (rule create_user_duplicate_name) (simp_all add: go_simps)

text \<open>
  A password reset stores the new hash and the obligation to change it for exactly the
  users with that identifier; it reports success for an identifier no user has, and it
  leaves the security version, on which the validity of existing sessions depends, as it was.
\<close>

theorem reset_user_password_effect:
  assumes "hash pw = Some h"
  shows "\<exists>db'. reset_user_password hash uid pw (healthy db) = (Inr (), healthy db')
    \<and> map user_security_version (users db') = map user_security_version (users db)
    \<and> (uid \<notin> set (user_ids db) \<longrightarrow> db' = db)
    \<and> (\<forall>u \<in> set (users db'). user_id u = uid \<longrightarrow> user_password u = h \<and> user_must_change_password u)
    \<and> filter (\<lambda>u. user_id u \<noteq> uid) (users db') = filter (\<lambda>u. user_id u \<noteq> uid) (users db)"
proof -
  let ?f = "\<lambda>u. u\<lparr>user_password := h, user_must_change_password := True\<rparr>"
  let ?db' = "db\<lparr>users := upd_where (\<lambda>u. user_id u = uid) ?f (users db)\<rparr>"
  have none: "upd_where (\<lambda>u. user_id u = uid) ?f us = us" if "uid \<notin> user_id ` set us" for us
    using that by (induction us) auto
  have others: "filter (\<lambda>u. user_id u \<noteq> uid) (upd_where (\<lambda>u. user_id u = uid) ?f us)
      = filter (\<lambda>u. user_id u \<noteq> uid) us" for us
    by (induction us) auto
  show ?thesis
  proof (intro exI [of _ ?db'] conjI)
    show "reset_user_password hash uid pw (healthy db) = (Inr (), healthy ?db')"
      using assms by (simp add: reset_user_password_def)
    show "uid \<notin> set (user_ids db) \<longrightarrow> ?db' = db"
      using none [of "users db"] by (cases db) (auto simp: user_ids_def)
    show "map user_security_version (users ?db') = map user_security_version (users db)"
      by (simp add: upd_where_def)
    show "\<forall>u \<in> set (users ?db'). user_id u = uid \<longrightarrow> user_password u = h \<and> user_must_change_password u"
      by (simp add: set_upd_where ball_Un)
    show "filter (\<lambda>u. user_id u \<noteq> uid) (users ?db') = filter (\<lambda>u. user_id u \<noteq> uid) (users db)"
      using others [of "users db"] by simp
  qed
qed

theorem reset_user_password_effect_witness:
  "\<exists>db'. reset_user_password Some 9 ''pw'' (healthy demo_access) = (Inr (), healthy db') \<and> db' = demo_access"
proof -
  obtain db' where "reset_user_password Some 9 ''pw'' (healthy demo_access) = (Inr (), healthy db')"
    and "9 \<notin> set (user_ids demo_access) \<longrightarrow> db' = demo_access"
    using reset_user_password_effect [of Some "''pw''" "''pw''" 9 demo_access] by auto
  then show ?thesis
    by (simp add: user_ids_def demo_access_def no_access_def demo_user_def)
qed

end
