(* ===== verification/Approval.thy ===== *)
theory Approval
  imports Access
begin

text \<open>
  The approval service (\<open>internal/services/approval/service.go\<close>, \<open>internal/models/approval.go\<close>):
  requests for high-risk operations, their review by a second person, and the result of
  the approved operation.  An operation that reads the clock takes its readings as a function
  \<open>clock\<close>: \<open>clock i\<close> is the value of the \<open>i\<close>-th call of \<open>time.Now\<close> (gorm's reading for the
  automatic time columns included).  Text comparison in SQL's LIKE is the parameter \<open>like\<close>,
  \<open>json.Marshal\<close> the parameter \<open>marshal\<close> and a fresh UUID the argument \<open>uuid\<close>.
\<close>

section \<open>Data\<close>

abbreviation ApprovalStatusPending :: string where "ApprovalStatusPending \<equiv> ''pending''"
abbreviation ApprovalStatusApproved :: string where "ApprovalStatusApproved \<equiv> ''approved''"
abbreviation ApprovalStatusRejected :: string where "ApprovalStatusRejected \<equiv> ''rejected''"
abbreviation ApprovalStatusExpired :: string where "ApprovalStatusExpired \<equiv> ''expired''"
abbreviation ApprovalStatusExecuting :: string where "ApprovalStatusExecuting \<equiv> ''executing''"
abbreviation ApprovalStatusCompleted :: string where "ApprovalStatusCompleted \<equiv> ''completed''"
abbreviation ApprovalStatusFailed :: string where "ApprovalStatusFailed \<equiv> ''failed''"
abbreviation ApprovalStatusCanceled :: string where "ApprovalStatusCanceled \<equiv> ''canceled''"

record approval_request =
  ar_id :: string
  ar_module :: string
  ar_action :: string
  ar_resource_id :: string
  ar_resource_name :: string
  ar_risk_level :: string
  ar_status :: string
  ar_reason :: string
  ar_payload_snapshot :: string
  ar_result_payload :: string
  ar_requested_by :: int
  ar_requested_by_name :: string
  ar_approved_by :: int
  ar_approved_by_name :: string
  ar_approved_at :: "time option"
  ar_rejected_by :: int
  ar_rejected_by_name :: string
  ar_rejected_at :: "time option"
  ar_review_comment :: string
  ar_expires_at :: time
  ar_bound_task_type :: string
  ar_bound_task_id :: string
  ar_created_at :: time
  ar_updated_at :: time

type_synonym approval_db = "approval_request list"

text \<open>
  The errors the service returns.  \<open>ApprovalPanic\<close> is the nil dereference of an operation
  that does not test the database for nil.
\<close>

datatype approval_error =
    ApprovalNoDatabase
  | ApprovalEncoding
  | ApprovalEngine
  | ApprovalNotFound
  | ErrRequesterCannotReview
  | ErrApprovalNotPending
  | ErrApprovalExpired
  | ApprovalPanic

type_synonym 'a approval_act = "(approval_db, approval_error, 'a) act"

record 'p create_input =
  ci_module :: string
  ci_action :: string
  ci_resource_id :: string
  ci_resource_name :: string
  ci_risk_level :: string
  ci_reason :: string
  ci_payload :: 'p
  ci_requested_by :: int
  ci_requested_by_name :: string
  ci_expires_at :: time

record list_options =
  lo_page :: int
  lo_page_size :: int
  lo_status :: string
  lo_module :: string
  lo_action :: string
  lo_mine :: bool
  lo_keyword :: string
  lo_created_from :: "time option"
  lo_created_to :: "time option"
  lo_user_id :: int
  lo_include_all :: bool
  lo_locale :: string

record approval_list_item =
  ai_id :: string
  ai_resource_name :: string
  ai_action_name :: string
  ai_module_name :: string
  ai_risk_level_name :: string
  ai_status :: string
  ai_status_name :: string
  ai_applicant_name :: string
  ai_applied_at :: time
  ai_reviewed_at :: "time option"
  ai_updated_at :: time
  ai_expires_at :: time

section \<open>Creating requests\<close>

abbreviation row_with :: "string \<Rightarrow> approval_request \<Rightarrow> bool" where
  "row_with i r \<equiv> ar_id r = i"

definition new_request :: "(nat \<Rightarrow> time) \<Rightarrow> string \<Rightarrow> 'p create_input \<Rightarrow> string \<Rightarrow> approval_request" where
  "new_request clock uuid input payload =
     \<lparr>ar_id = ''apr_'' @ drop_dashes uuid,
      ar_module = trim_space (ci_module input),
      ar_action = trim_space (ci_action input),
      ar_resource_id = trim_space (ci_resource_id input),
      ar_resource_name = trim_space (ci_resource_name input),
      ar_risk_level = default_string (trim_space (ci_risk_level input)) ''high'',
      ar_status = ApprovalStatusPending,
      ar_reason = trim_space (ci_reason input),
      ar_payload_snapshot = payload, ar_result_payload = [],
      ar_requested_by = ci_requested_by input,
      ar_requested_by_name = trim_space (ci_requested_by_name input),
      ar_approved_by = 0, ar_approved_by_name = [], ar_approved_at = None,
      ar_rejected_by = 0, ar_rejected_by_name = [], ar_rejected_at = None,
      ar_review_comment = [],
      ar_expires_at =
        (if is_zero (ci_expires_at input) then clock 1 + 24 * hour else ci_expires_at input),
      ar_bound_task_type = [], ar_bound_task_id = [],
      ar_created_at = clock 2, ar_updated_at = clock 2\<rparr>"

text \<open>INSERT; the primary key refuses a second row with the same identifier.\<close>

definition insert_request :: "approval_request \<Rightarrow> approval_db \<Rightarrow> approval_db option" where
  "insert_request r db = (if ar_id r \<in> ar_id ` set db then None else Some (db @ [r]))"

definition create_request ::
  "(nat \<Rightarrow> time) \<Rightarrow> string \<Rightarrow> 'p create_input \<Rightarrow> string \<Rightarrow> approval_request approval_act" where
  "create_request clock uuid input payload =
     (let request = new_request clock uuid input payload in
      bnd (insert_row ApprovalEngine (insert_request request)) (\<lambda>_. ret request))"

definition create_approval ::
  "('p \<Rightarrow> string option) \<Rightarrow> (nat \<Rightarrow> time) \<Rightarrow> string \<Rightarrow> 'p create_input \<Rightarrow> approval_request approval_act" where
  "create_approval marshal clock uuid input =
     guard_db ApprovalNoDatabase
      (case marshal (ci_payload input) of
         None \<Rightarrow> throw ApprovalEncoding
       | Some payload \<Rightarrow> create_request clock uuid input payload)"

definition same_intent :: "time \<Rightarrow> 'p create_input \<Rightarrow> string \<Rightarrow> approval_request \<Rightarrow> bool" where
  "same_intent now input payload r \<longleftrightarrow>
     ar_module r = trim_space (ci_module input) \<and> ar_action r = trim_space (ci_action input)
     \<and> ar_resource_id r = trim_space (ci_resource_id input)
     \<and> ar_requested_by r = ci_requested_by input \<and> ar_status r = ApprovalStatusPending
     \<and> ar_payload_snapshot r = payload \<and> ar_expires_at r > now"

text \<open>
  \<open>CreateOrReusePending\<close>: the newest matching row (\<open>First\<close> adds the primary key to the
  order), or a new request; the flag says whether a row was reused.
\<close>

definition create_or_reuse_pending ::
  "('p \<Rightarrow> string option) \<Rightarrow> (nat \<Rightarrow> time) \<Rightarrow> string \<Rightarrow> 'p create_input
     \<Rightarrow> (approval_request \<times> bool) approval_act" where
  "create_or_reuse_pending marshal clock uuid input =
     guard_db ApprovalNoDatabase
      (case marshal (ci_payload input) of
         None \<Rightarrow> throw ApprovalEncoding
       | Some payload \<Rightarrow>
           bnd (query ApprovalEngine (\<lambda>db.
             first_by (\<lambda>r. (- ar_created_at r, ar_id r)) (filter (same_intent (clock 0) input payload) db)))
            (\<lambda>found. case found of
               Some existing \<Rightarrow> ret (existing, True)
             | None \<Rightarrow> bnd (create_request clock uuid input payload) (\<lambda>r. ret (r, False))))"

definition get_approval :: "string \<Rightarrow> approval_request approval_act" where
  "get_approval i =
     guard_db ApprovalPanic
      (bnd (query ApprovalEngine (find (row_with (trim_space i)))) (\<lambda>found.
       case found of None \<Rightarrow> throw ApprovalNotFound | Some r \<Rightarrow> ret r))"

section \<open>Status and names\<close>

definition effective_status :: "approval_request option \<Rightarrow> time \<Rightarrow> string" where
  "effective_status request now =
     (case request of
        None \<Rightarrow> []
      | Some r \<Rightarrow>
          if ar_status r = ApprovalStatusPending \<and> \<not> is_zero (ar_expires_at r) \<and> \<not> ar_expires_at r > now
          then ApprovalStatusExpired else ar_status r)"

abbreviation LocaleZhCN :: string where "LocaleZhCN \<equiv> ''zh-CN''"
abbreviation LocaleEnUS :: string where "LocaleEnUS \<equiv> ''en-US''"

definition supported_locales :: "(string \<times> string) list" where
  "supported_locales =
     [(''zh'', LocaleZhCN), (''zh-cn'', LocaleZhCN), (''en'', LocaleEnUS), (''en-us'', LocaleEnUS)]"

definition canonical_locale :: "casemap \<Rightarrow> string \<Rightarrow> string" where
  "canonical_locale uni locale =
     (let l = trim_space locale in
      if l = [] then LocaleZhCN
      else (case map_of supported_locales (to_lower uni l) of
              Some canonical \<Rightarrow> canonical | None \<Rightarrow> LocaleZhCN))"

definition approval_action_names :: "(string \<times> string) list" where
  "approval_action_names =
     [(''website.delete'', utf8 [0x5220, 0x9664, 0x7F51, 0x7AD9]),
      (''website.restore'', utf8 [0x6062, 0x590D, 0x7F51, 0x7AD9]),
      (''certificate.issue'', utf8 [0x7B7E, 0x53D1, 0x8BC1, 0x4E66]),
      (''certificate.renew'', utf8 [0x7EED, 0x671F, 0x8BC1, 0x4E66]),
      (''certificate.disable'', utf8 [0x7981, 0x7528, 0x8BC1, 0x4E66]),
      (''database.restore'', utf8 [0x6062, 0x590D, 0x6570, 0x636E, 0x5E93]),
      (''database.credential.reveal'', utf8 [0x67E5, 0x770B, 0x6570, 0x636E, 0x5E93, 0x51ED, 0x636E]),
      (''database.connection.delete'', utf8 [0x5220, 0x9664, 0x6570, 0x636E, 0x5E93, 0x8FDE, 0x63A5])]"

definition approval_module_names :: "(string \<times> string) list" where
  "approval_module_names =
     [(''website'', utf8 [0x7F51, 0x7AD9]),
      (''database'', utf8 [0x6570, 0x636E, 0x5E93]),
      (''certificate'', utf8 [0x8BC1, 0x4E66])]"

definition approval_risk_names :: "(string \<times> string) list" where
  "approval_risk_names =
     [(''low'', utf8 [0x4F4E, 0x98CE, 0x9669]),
      (''medium'', utf8 [0x4E2D, 0x98CE, 0x9669]),
      (''high'', utf8 [0x9AD8, 0x98CE, 0x9669])]"

definition approval_status_names :: "(string \<times> string) list" where
  "approval_status_names =
     [(ApprovalStatusPending, utf8 [0x5F85, 0x5BA1, 0x6279]),
      (ApprovalStatusApproved, utf8 [0x5DF2, 0x901A, 0x8FC7]),
      (ApprovalStatusRejected, utf8 [0x5DF2, 0x62D2, 0x7EDD]),
      (ApprovalStatusExpired, utf8 [0x5DF2, 0x8FC7, 0x671F]),
      (ApprovalStatusExecuting, utf8 [0x6267, 0x884C, 0x4E2D]),
      (ApprovalStatusCompleted, utf8 [0x5DF2, 0x5B8C, 0x6210]),
      (ApprovalStatusFailed, utf8 [0x6267, 0x884C, 0x5931, 0x8D25]),
      (ApprovalStatusCanceled, utf8 [0x5DF2, 0x53D6, 0x6D88])]"

text \<open>A missing key of a Go map of strings reads as the empty string.\<close>

definition map_read :: "(string \<times> string) list \<Rightarrow> string \<Rightarrow> string" where
  "map_read m k = (case map_of m k of Some v \<Rightarrow> v | None \<Rightarrow> [])"

definition english_names :: "(string \<times> string) list" where
  "english_names =
     [(utf8 [0x5220, 0x9664, 0x7F51, 0x7AD9], ''Delete website''),
      (utf8 [0x6062, 0x590D, 0x7F51, 0x7AD9], ''Restore website''),
      (utf8 [0x7B7E, 0x53D1, 0x8BC1, 0x4E66], ''Issue certificate''),
      (utf8 [0x7EED, 0x671F, 0x8BC1, 0x4E66], ''Renew certificate''),
      (utf8 [0x7981, 0x7528, 0x8BC1, 0x4E66], ''Disable certificate''),
      (utf8 [0x6062, 0x590D, 0x6570, 0x636E, 0x5E93], ''Restore database''),
      (utf8 [0x67E5, 0x770B, 0x6570, 0x636E, 0x5E93, 0x51ED, 0x636E], ''View database credentials''),
      (utf8 [0x5220, 0x9664, 0x6570, 0x636E, 0x5E93, 0x8FDE, 0x63A5], ''Delete database connection''),
      (utf8 [0x7F51, 0x7AD9], ''Website''),
      (utf8 [0x6570, 0x636E, 0x5E93], ''Database''),
      (utf8 [0x8BC1, 0x4E66], ''Certificate''),
      (utf8 [0x4F4E, 0x98CE, 0x9669], ''Low''),
      (utf8 [0x4E2D, 0x98CE, 0x9669], ''Medium''),
      (utf8 [0x9AD8, 0x98CE, 0x9669], ''High''),
      (utf8 [0x5F85, 0x5BA1, 0x6279], ''Pending''),
      (utf8 [0x5DF2, 0x901A, 0x8FC7], ''Approved''),
      (utf8 [0x5DF2, 0x62D2, 0x7EDD], ''Rejected''),
      (utf8 [0x5DF2, 0x8FC7, 0x671F], ''Expired''),
      (utf8 [0x6267, 0x884C, 0x4E2D], ''Executing''),
      (utf8 [0x5DF2, 0x5B8C, 0x6210], ''Completed''),
      (utf8 [0x6267, 0x884C, 0x5931, 0x8D25], ''Failed''),
      (utf8 [0x5DF2, 0x53D6, 0x6D88], ''Canceled''),
      (utf8 [0x5176, 0x4ED6], ''Other'')]"

definition localized_english_name :: "string \<Rightarrow> string" where
  "localized_english_name name = map_read english_names name"

definition name_other :: string where "name_other = utf8 [0x5176, 0x4ED6]"
definition name_resource :: string where "name_resource = utf8 [0x8D44, 0x6E90]"
definition name_database :: string where "name_database = utf8 [0x6570, 0x636E, 0x5E93]"
definition name_website :: string where "name_website = utf8 [0x7F51, 0x7AD9]"

definition localized_approval_name :: "casemap \<Rightarrow> string \<Rightarrow> string \<Rightarrow> (string \<times> string) list \<Rightarrow> string" where
  "localized_approval_name uni locale value names =
     (case map_of names (trim_space value) of
        None \<Rightarrow> name_other
      | Some name \<Rightarrow>
          if canonical_locale uni locale = LocaleEnUS \<and> localized_english_name name \<noteq> []
          then localized_english_name name else name)"

definition localized_fallback_name :: "casemap \<Rightarrow> string \<Rightarrow> string \<Rightarrow> string" where
  "localized_fallback_name uni locale name =
     (if canonical_locale uni locale = LocaleEnUS then localized_english_name name else name)"

definition localized_approval_resource_name :: "casemap \<Rightarrow> string \<Rightarrow> approval_request \<Rightarrow> string" where
  "localized_approval_resource_name uni locale r =
     (let value = trim_space (ar_resource_name r) in
      if value \<noteq> [] then value
      else if trim_space (ar_resource_id r) = [] then localized_fallback_name uni locale name_resource
      else
        let prefix = (if ar_module r = ''database'' then name_database
              else if has_prefix (ar_action r) ''certificate.'' then name_website
              else name_resource);
            prefix' = (if canonical_locale uni locale = LocaleEnUS
              then map_read [(name_resource, ''Resource''), (name_database, ''Database''),
                             (name_website, ''Website'')] prefix
              else prefix)
        in prefix' @ '' #'' @ trim_space (ar_resource_id r))"

definition localized_action_name :: "casemap \<Rightarrow> string \<Rightarrow> string \<Rightarrow> string" where
  "localized_action_name uni locale action =
     localized_approval_name uni locale action approval_action_names"

definition localized_module_name :: "casemap \<Rightarrow> string \<Rightarrow> string \<Rightarrow> string" where
  "localized_module_name uni locale m = localized_approval_name uni locale m approval_module_names"

definition localized_approval_module_name :: "casemap \<Rightarrow> string \<Rightarrow> string \<Rightarrow> string \<Rightarrow> string" where
  "localized_approval_module_name uni locale m action =
     (if has_prefix (trim_space action) ''certificate.''
      then localized_approval_name uni locale ''certificate'' approval_module_names
      else localized_module_name uni locale m)"

definition localized_risk_level_name :: "casemap \<Rightarrow> string \<Rightarrow> string \<Rightarrow> string" where
  "localized_risk_level_name uni locale level =
     localized_approval_name uni locale level approval_risk_names"

definition localized_status_name :: "casemap \<Rightarrow> string \<Rightarrow> string \<Rightarrow> string" where
  "localized_status_name uni locale status =
     localized_approval_name uni locale status approval_status_names"

text \<open>\<open>strings.Contains\<close> is \<open>sublist\<close>; the order of the matched codes is that of the table.\<close>

definition matching_approval_names :: "casemap \<Rightarrow> string \<Rightarrow> (string \<times> string) list \<Rightarrow> string list" where
  "matching_approval_names uni keyword names =
     (let k = to_lower uni (trim_space keyword) in
      if k = [] then []
      else map fst (filter (\<lambda>(code, name). sublist k (to_lower uni name)
              \<or> sublist k (to_lower uni (localized_english_name name))) names))"

section \<open>Listing\<close>

definition build_approval_list_item :: "casemap \<Rightarrow> string \<Rightarrow> time \<Rightarrow> approval_request \<Rightarrow> approval_list_item" where
  "build_approval_list_item uni locale now r =
     \<lparr>ai_id = ar_id r,
      ai_resource_name = localized_approval_resource_name uni locale r,
      ai_action_name = localized_action_name uni locale (ar_action r),
      ai_module_name = localized_approval_module_name uni locale (ar_module r) (ar_action r),
      ai_risk_level_name = localized_risk_level_name uni locale (ar_risk_level r),
      ai_status = effective_status (Some r) now,
      ai_status_name = localized_status_name uni locale (effective_status (Some r) now),
      ai_applicant_name = ar_requested_by_name r,
      ai_applied_at = ar_created_at r,
      ai_reviewed_at = (case ar_approved_at r of Some t \<Rightarrow> Some t | None \<Rightarrow> ar_rejected_at r),
      ai_updated_at = ar_updated_at r,
      ai_expires_at = ar_expires_at r\<rparr>"

text \<open>The conditions of the query, one per filter of the request, conjoined.\<close>

definition match_status :: "time \<Rightarrow> string \<Rightarrow> approval_request \<Rightarrow> bool" where
  "match_status now status r =
     (let value = trim_space status in
      if value = [] then True
      else if value = ApprovalStatusPending then ar_status r = value \<and> ar_expires_at r > now
      else if value = ApprovalStatusExpired
        then ar_status r = value \<or> ar_status r = ApprovalStatusPending \<and> ar_expires_at r \<le> now
      else ar_status r = value)"

definition match_module :: "(string \<Rightarrow> string \<Rightarrow> bool) \<Rightarrow> string \<Rightarrow> approval_request \<Rightarrow> bool" where
  "match_module like m r =
     (let value = trim_space m in
      if value = [] then True
      else if value = ''certificate''
        then ar_module r = value \<or> ar_module r = ''website'' \<and> like ''certificate.%'' (ar_action r)
      else ar_module r = value)"

definition match_keyword :: "casemap \<Rightarrow> (string \<Rightarrow> string \<Rightarrow> bool) \<Rightarrow> string \<Rightarrow> approval_request \<Rightarrow> bool" where
  "match_keyword uni like keyword r =
     (let value = trim_space keyword; pattern = ''%'' @ value @ ''%'' in
      if value = [] then True
      else like pattern (ar_resource_name r) \<or> like pattern (ar_action r) \<or> like pattern (ar_module r)
        \<or> like pattern (ar_requested_by_name r) \<or> like pattern (ar_id r)
        \<or> like pattern (ar_resource_id r) \<or> like pattern (ar_bound_task_id r)
        \<or> ar_action r \<in> set (matching_approval_names uni value approval_action_names)
        \<or> ar_module r \<in> set (matching_approval_names uni value approval_module_names))"

definition list_filter ::
  "casemap \<Rightarrow> (string \<Rightarrow> string \<Rightarrow> bool) \<Rightarrow> time \<Rightarrow> list_options \<Rightarrow> approval_request \<Rightarrow> bool" where
  "list_filter uni like now opts r \<longleftrightarrow>
     match_status now (lo_status opts) r
     \<and> match_module like (lo_module opts) r
     \<and> (trim_space (lo_action opts) \<noteq> [] \<longrightarrow> ar_action r = trim_space (lo_action opts))
     \<and> match_keyword uni like (lo_keyword opts) r
     \<and> (case lo_created_from opts of None \<Rightarrow> True | Some t \<Rightarrow> ar_created_at r \<ge> t)
     \<and> (case lo_created_to opts of None \<Rightarrow> True | Some t \<Rightarrow> ar_created_at r \<le> t)
     \<and> (\<not> lo_include_all opts \<or> lo_mine opts \<longrightarrow> ar_requested_by r = lo_user_id opts)"

record list_result =
  lr_items :: "approval_list_item list"
  lr_total :: nat
  lr_page :: int
  lr_page_size :: int

definition list_approvals ::
  "casemap \<Rightarrow> (string \<Rightarrow> string \<Rightarrow> bool) \<Rightarrow> (nat \<Rightarrow> time) \<Rightarrow> list_options \<Rightarrow> list_result approval_act" where
  "list_approvals uni like clock opts =
     guard_db ApprovalPanic
      (case normalize_page (lo_page opts) (lo_page_size opts) of
         (p, n) \<Rightarrow>
           let now = clock 0; match = list_filter uni like now opts in
           bnd (query ApprovalEngine (\<lambda>db. length (filter match db))) (\<lambda>total.
           bnd (query ApprovalEngine (\<lambda>db.
             page_rows p n (sort_key (\<lambda>r. - ar_created_at r) (filter match db)))) (\<lambda>rows.
           ret \<lparr>lr_items = map (build_approval_list_item uni (lo_locale opts) now) rows,
                lr_total = total, lr_page = p, lr_page_size = n\<rparr>)))"

section \<open>Review\<close>

text \<open>
  \<open>Approve\<close> and \<open>Reject\<close> each read the row and test it, then write the decision with a
  second statement, which selects the row by its identifier only, and read it again.  The two
  halves are separate definitions because other requests can run between them.
\<close>

definition review_check :: "(nat \<Rightarrow> time) \<Rightarrow> string \<Rightarrow> int \<Rightarrow> approval_request approval_act" where
  "review_check clock i reviewer =
     bnd (get_approval i) (\<lambda>request.
     if ar_requested_by request = reviewer then throw ErrRequesterCannotReview
     else if ar_status request = ApprovalStatusExpired then throw ErrApprovalExpired
     else if ar_status request \<noteq> ApprovalStatusPending then throw ErrApprovalNotPending
     else if \<not> is_zero (ar_expires_at request) \<and> clock 0 > ar_expires_at request then
       bnd (modify ApprovalEngine (upd_where (row_with (ar_id request))
              (\<lambda>r. r\<lparr>ar_status := ApprovalStatusExpired, ar_updated_at := clock 1\<rparr>))) (\<lambda>_.
       throw ErrApprovalExpired)
     else ret request)"

definition approved_row :: "(nat \<Rightarrow> time) \<Rightarrow> int \<Rightarrow> string \<Rightarrow> string \<Rightarrow> approval_request \<Rightarrow> approval_request" where
  "approved_row clock reviewer name comment r =
     r\<lparr>ar_status := ApprovalStatusApproved, ar_approved_by := reviewer,
       ar_approved_by_name := trim_space name, ar_approved_at := Some (clock 1),
       ar_review_comment := trim_space comment, ar_updated_at := clock 2\<rparr>"

definition rejected_row :: "(nat \<Rightarrow> time) \<Rightarrow> int \<Rightarrow> string \<Rightarrow> string \<Rightarrow> approval_request \<Rightarrow> approval_request" where
  "rejected_row clock reviewer name comment r =
     r\<lparr>ar_status := ApprovalStatusRejected, ar_rejected_by := reviewer,
       ar_rejected_by_name := trim_space name, ar_rejected_at := Some (clock 1),
       ar_review_comment := trim_space comment, ar_updated_at := clock 2\<rparr>"

definition approve_commit ::
  "(nat \<Rightarrow> time) \<Rightarrow> int \<Rightarrow> string \<Rightarrow> string \<Rightarrow> approval_request \<Rightarrow> approval_request approval_act" where
  "approve_commit clock reviewer name comment request =
     bnd (modify ApprovalEngine (upd_where (row_with (ar_id request))
            (approved_row clock reviewer name comment))) (\<lambda>_.
     get_approval (ar_id request))"

definition reject_commit ::
  "(nat \<Rightarrow> time) \<Rightarrow> int \<Rightarrow> string \<Rightarrow> string \<Rightarrow> approval_request \<Rightarrow> approval_request approval_act" where
  "reject_commit clock reviewer name comment request =
     bnd (modify ApprovalEngine (upd_where (row_with (ar_id request))
            (rejected_row clock reviewer name comment))) (\<lambda>_.
     get_approval (ar_id request))"

definition approve :: "(nat \<Rightarrow> time) \<Rightarrow> string \<Rightarrow> int \<Rightarrow> string \<Rightarrow> string \<Rightarrow> approval_request approval_act" where
  "approve clock i reviewer name comment =
     bnd (review_check clock i reviewer) (approve_commit clock reviewer name comment)"

definition reject :: "(nat \<Rightarrow> time) \<Rightarrow> string \<Rightarrow> int \<Rightarrow> string \<Rightarrow> string \<Rightarrow> approval_request approval_act" where
  "reject clock i reviewer name comment =
     bnd (review_check clock i reviewer) (reject_commit clock reviewer name comment)"

section \<open>Execution results\<close>

text \<open>\<open>result\<close> is nil (\<open>None\<close>) or a value to encode.\<close>

definition set_result :: "string option \<Rightarrow> approval_request \<Rightarrow> approval_request" where
  "set_result encoded r = (case encoded of None \<Rightarrow> r | Some p \<Rightarrow> r\<lparr>ar_result_payload := p\<rparr>)"

definition with_encoded :: "('p \<Rightarrow> string option) \<Rightarrow> 'p option \<Rightarrow> (string option \<Rightarrow> unit approval_act) \<Rightarrow> unit approval_act" where
  "with_encoded marshal value k =
     (case value of
        None \<Rightarrow> k None
      | Some v \<Rightarrow> (case marshal v of None \<Rightarrow> throw ApprovalEncoding | Some p \<Rightarrow> k (Some p)))"

definition update_execution_result ::
  "('p \<Rightarrow> string option) \<Rightarrow> (nat \<Rightarrow> time) \<Rightarrow> string \<Rightarrow> string \<Rightarrow> string \<Rightarrow> string \<Rightarrow> 'p option \<Rightarrow> unit approval_act" where
  "update_execution_result marshal clock i status task_type task_id value =
     with_encoded marshal value (\<lambda>encoded.
       guard_db ApprovalPanic
        (modify ApprovalEngine (upd_where (row_with (trim_space i)) (\<lambda>r.
          set_result encoded (r\<lparr>ar_status := trim_space status,
            ar_bound_task_type := trim_space task_type,
            ar_bound_task_id := trim_space task_id, ar_updated_at := clock 0\<rparr>)))))"

definition update_bound_task_result ::
  "('p \<Rightarrow> string option) \<Rightarrow> (nat \<Rightarrow> time) \<Rightarrow> string \<Rightarrow> string \<Rightarrow> string \<Rightarrow> 'p option \<Rightarrow> unit approval_act" where
  "update_bound_task_result marshal clock task_type task_id status value =
     with_encoded marshal value (\<lambda>encoded.
       guard_db ApprovalPanic
        (modify ApprovalEngine (upd_where
          (\<lambda>r. ar_bound_task_type r = trim_space task_type \<and> ar_bound_task_id r = trim_space task_id
               \<and> ar_status r = ApprovalStatusExecuting)
          (\<lambda>r. set_result encoded (r\<lparr>ar_status := trim_space status, ar_updated_at := clock 0\<rparr>)))))"

end
