(* ===== verification/Approval_Props.thy ===== *)
theory Approval_Props
  imports Approval
begin

text \<open>
  The properties of the approval service: nobody reviews an own request under any
  interleaving of requests, a decision is final, reuse returns only the same intent, and
  lists show the status the review would see.
\<close>

section \<open>Shared facts\<close>

lemma get_approval_Inr:
  assumes "get_approval i s = (Inr r, s')"
  shows "find (row_with (trim_space i)) (tables s) = Some r \<and> tables s' = tables s"
proof -
  from assms obtain f s1 where
    q: "query ApprovalEngine (find (row_with (trim_space i))) s = (Inr f, s1)" and
    c: "(case f of None \<Rightarrow> throw ApprovalNotFound | Some r \<Rightarrow> ret r) s1 = (Inr r, s')"
    unfolding get_approval_def guard_db_Inr bnd_Inr by blast
  from c have "f = Some r" "s1 = s'" by (cases f; simp)+
  with query_Inr [OF q] show ?thesis by metis
qed

lemma get_approval_keeps [keeps_rules]: "keeps I (get_approval i)"
  unfolding get_approval_def by (intro keeps_rules)

lemma get_approval_healthy [simp]:
  "get_approval i (healthy db) =
     (case find (row_with (trim_space i)) db of
        None \<Rightarrow> (Inl ApprovalNotFound, healthy db) | Some r \<Rightarrow> (Inr r, healthy db))"
  by (simp add: get_approval_def bnd_run split: option.splits)

lemma new_request_sel [simp]:
  "ar_id (new_request clock uuid input payload) = ''apr_'' @ drop_dashes uuid"
  "ar_status (new_request clock uuid input payload) = ApprovalStatusPending"
  "ar_requested_by (new_request clock uuid input payload) = ci_requested_by input"
  "ar_payload_snapshot (new_request clock uuid input payload) = payload"
  "ar_expires_at (new_request clock uuid input payload)
     = (if ci_expires_at input = 0 then clock 1 + 24 * hour else ci_expires_at input)"
  by (simp_all add: new_request_def)

lemma approved_row_sel [simp]:
  "ar_id (approved_row clock w n c r) = ar_id r"
  "ar_requested_by (approved_row clock w n c r) = ar_requested_by r"
  "ar_status (approved_row clock w n c r) = ApprovalStatusApproved"
  "ar_approved_by (approved_row clock w n c r) = w"
  "ar_rejected_by (approved_row clock w n c r) = ar_rejected_by r"
  "ar_rejected_at (approved_row clock w n c r) = ar_rejected_at r"
  "ar_approved_at (approved_row clock w n c r) = Some (clock 1)"
  by (simp_all add: approved_row_def)

lemma rejected_row_sel [simp]:
  "ar_id (rejected_row clock w n c r) = ar_id r"
  "ar_requested_by (rejected_row clock w n c r) = ar_requested_by r"
  "ar_status (rejected_row clock w n c r) = ApprovalStatusRejected"
  "ar_rejected_by (rejected_row clock w n c r) = w"
  "ar_approved_by (rejected_row clock w n c r) = ar_approved_by r"
  "ar_approved_at (rejected_row clock w n c r) = ar_approved_at r"
  "ar_rejected_at (rejected_row clock w n c r) = Some (clock 1)"
  by (simp_all add: rejected_row_def)

lemma set_result_sel [simp]:
  "ar_id (set_result e r) = ar_id r" "ar_requested_by (set_result e r) = ar_requested_by r"
  "ar_approved_by (set_result e r) = ar_approved_by r" "ar_approved_at (set_result e r) = ar_approved_at r"
  "ar_rejected_by (set_result e r) = ar_rejected_by r" "ar_rejected_at (set_result e r) = ar_rejected_at r"
  by (simp_all add: set_result_def split: option.splits)

lemma review_check_Inr:
  assumes "review_check clock i w s = (Inr r, s')"
  shows "find (row_with (trim_space i)) (tables s) = Some r" and "tables s' = tables s"
    and "ar_requested_by r \<noteq> w" and "ar_status r = ApprovalStatusPending"
    and "is_zero (ar_expires_at r) \<or> clock 0 \<le> ar_expires_at r"
  using assms by (auto simp: review_check_def bnd_Inr dest!: get_approval_Inr split: if_splits)

lemma with_encoded_keeps [keeps_rules]: "(\<And>e. keeps I (k e)) \<Longrightarrow> keeps I (with_encoded marshal v k)"
  unfolding with_encoded_def by (intro keeps_rules)

section \<open>Four eyes\<close>

definition four_eyes :: "approval_request \<Rightarrow> bool" where
  "four_eyes r \<longleftrightarrow>
     (ar_approved_at r \<noteq> None \<longrightarrow> ar_approved_by r \<noteq> ar_requested_by r)
     \<and> (ar_rejected_at r \<noteq> None \<longrightarrow> ar_rejected_by r \<noteq> ar_requested_by r)"

text \<open>A review between its two halves: the decision, the reviewer and the row that was read.\<close>

datatype review = Review (decision: bool) (reviewer: int) (name: string) (comment: string)
    (readings: "nat \<Rightarrow> time") (row: approval_request)

definition commit_review :: "review \<Rightarrow> approval_request approval_act" where
  "commit_review v =
     (if decision v then approve_commit (readings v) (reviewer v) (name v) (comment v) (row v)
      else reject_commit (readings v) (reviewer v) (name v) (comment v) (row v))"

text \<open>
  The system: any number of reviews in flight, each started by a successful check and
  committed later, interleaved with one another and with every other operation, on an
  engine whose calls may fail.
\<close>

inductive approval_reach ::
  "('p \<Rightarrow> string option) \<Rightarrow> approval_db engine \<Rightarrow> review list \<Rightarrow> bool" for marshal where
  start: "tables s = [] \<Longrightarrow> approval_reach marshal s []"
| check: "approval_reach marshal s vs \<Longrightarrow> review_check clock i w s = (Inr r, s')
    \<Longrightarrow> approval_reach marshal s' (Review d w n c clock r # vs)"
| refuse: "approval_reach marshal s vs \<Longrightarrow> review_check clock i w s = (Inl e, s')
    \<Longrightarrow> approval_reach marshal s' vs"
| commit: "approval_reach marshal s vs \<Longrightarrow> v \<in> set vs \<Longrightarrow> commit_review v s = (x, s')
    \<Longrightarrow> approval_reach marshal s' (remove1 v vs)"
| create: "approval_reach marshal s vs \<Longrightarrow> create_approval marshal clock uuid input s = (x, s')
    \<Longrightarrow> approval_reach marshal s' vs"
| reuse: "approval_reach marshal s vs \<Longrightarrow> create_or_reuse_pending marshal clock uuid input s = (y, s')
    \<Longrightarrow> approval_reach marshal s' vs"
| executed: "approval_reach marshal s vs
    \<Longrightarrow> update_execution_result marshal clock i st tt ti v s = (z, s') \<Longrightarrow> approval_reach marshal s' vs"
| bound: "approval_reach marshal s vs
    \<Longrightarrow> update_bound_task_result marshal clock tt ti st v s = (z, s') \<Longrightarrow> approval_reach marshal s' vs"

definition review_safe :: "review list \<Rightarrow> approval_db \<Rightarrow> bool" where
  "review_safe vs db \<longleftrightarrow>
     (\<forall>r \<in> set db. four_eyes r)
     \<and> (\<forall>v \<in> set vs. ar_id (row v) \<in> ar_id ` set db
          \<and> (\<forall>r \<in> set db. ar_id r = ar_id (row v) \<longrightarrow> ar_requested_by r \<noteq> reviewer v))
     \<and> distinct (map ar_id db)"

lemma review_safe_upd:
  assumes "review_safe vs db"
    and "\<And>r. ar_id (f r) = ar_id r \<and> ar_requested_by (f r) = ar_requested_by r"
    and "\<And>r. r \<in> set db \<Longrightarrow> p r \<Longrightarrow> four_eyes r \<Longrightarrow> four_eyes (f r)"
  shows "review_safe vs (upd_where p f db)"
proof -
  have "map ar_id (upd_where p f db) = map ar_id db" using assms(2) by (simp add: map_upd_where)
  then have ids: "ar_id ` set (upd_where p f db) = ar_id ` set db" "distinct (map ar_id (upd_where p f db))"
    using assms(1) by (metis set_map, simp add: review_safe_def)
  have rows: "\<exists>r \<in> set db. ar_id q = ar_id r \<and> ar_requested_by q = ar_requested_by r \<and> four_eyes q"
    if "q \<in> set (upd_where p f db)" for q
    using that assms unfolding set_upd_where review_safe_def by (auto split: if_splits)
  then show ?thesis
    using assms(1) ids unfolding review_safe_def by metis
qed

lemma review_safe_insert:
  assumes "review_safe vs db" and "insert_request (new_request clock uuid input payload) db = Some db'"
  shows "review_safe vs db'"
proof -
  let ?q = "new_request clock uuid input payload"
  have "ar_id ?q \<notin> ar_id ` set db" and db': "db' = db @ [?q]"
    using assms(2) by (auto simp: insert_request_def split: if_splits)
  moreover have "four_eyes ?q" by (simp add: four_eyes_def new_request_def)
  ultimately show ?thesis
    using assms(1) unfolding review_safe_def db' by auto
qed

lemma create_request_safe [keeps_rules]: "keeps (review_safe vs) (create_request clock uuid input payload)"
  unfolding create_request_def Let_def by (intro keeps_rules) (rule review_safe_insert)

lemma review_check_safe: "keeps (review_safe vs) (review_check clock i w)"
  unfolding review_check_def
  by (intro keeps_rules) (auto intro!: review_safe_upd simp: four_eyes_def)

lemma commit_review_safe:
  assumes "v \<in> set vs"
  shows "keeps (review_safe vs) (commit_review v)"
proof -
  have "review_safe vs (upd_where (row_with (ar_id (row v))) f db)"
    if "review_safe vs db" and "f = approved_row clk (reviewer v) n c \<or> f = rejected_row clk (reviewer v) n c"
    for f clk n c db
  proof (rule review_safe_upd [OF that(1)])
    show "ar_id (f r) = ar_id r \<and> ar_requested_by (f r) = ar_requested_by r" for r using that(2) by auto
    fix r assume r: "r \<in> set db" "row_with (ar_id (row v)) r" "four_eyes r"
    have "ar_requested_by r \<noteq> reviewer v"
      using that(1) assms r(1,2) unfolding review_safe_def by blast
    then show "four_eyes (f r)" using that(2) r(3) by (auto simp: four_eyes_def)
  qed
  then show ?thesis
    unfolding commit_review_def approve_commit_def reject_commit_def
    by (intro keeps_rules) blast+
qed

lemma creation_safe:
  "keeps (review_safe vs) (create_approval marshal clock uuid input)"
  "keeps (review_safe vs) (create_or_reuse_pending marshal clock uuid input)"
  unfolding create_approval_def create_or_reuse_pending_def by (intro keeps_rules)+

lemma update_safe:
  "keeps (review_safe vs) (update_execution_result marshal clock i st tt ti v)"
  "keeps (review_safe vs) (update_bound_task_result marshal clock tt ti st v)"
  unfolding update_execution_result_def update_bound_task_result_def
  by (intro keeps_rules; auto intro!: review_safe_upd simp: four_eyes_def)+

lemma approval_reach_safe: "approval_reach marshal s vs \<Longrightarrow> review_safe vs (tables s)"
proof (induction rule: approval_reach.induct)
  case (start s)
  then show ?case by (simp add: review_safe_def)
next
  case (check s vs clock i w r s' d n c)
  note c = review_check_Inr [OF check.hyps(2)]
  have r: "r \<in> set (tables s)" "distinct (map ar_id (tables s))"
    using find_key_in [OF c(1)] check.IH by (auto simp: review_safe_def)
  have "q = r" if "q \<in> set (tables s)" "ar_id q = ar_id r" for q
    using that r by (metis distinct_map inj_onD)
  then show ?case using check.IH c r by (auto simp: review_safe_def)
next
  case (commit s vs v x s')
  then have "review_safe vs (tables s')"
    using keepsD [OF commit_review_safe] by blast
  then show ?case unfolding review_safe_def using set_remove1_subset by fastforce
qed (rule keepsD [OF review_check_safe] keepsD [OF creation_safe(1)] keepsD [OF creation_safe(2)]
    keepsD [OF update_safe(1)] keepsD [OF update_safe(2)], assumption, assumption)+

text \<open>
  C22: Four eyes.  In every state the service can reach, under any interleaving of concurrent
  reviews with each other and with every other operation and with any engine failures, the
  reviewer recorded as having approved or rejected a request is never its requester, and
  identifiers are unique.
\<close>

theorem approval_four_eyes:
  assumes "approval_reach marshal s vs"
  shows "(\<forall>r \<in> set (tables s).
      (ar_approved_at r \<noteq> None \<longrightarrow> ar_approved_by r \<noteq> ar_requested_by r)
      \<and> (ar_rejected_at r \<noteq> None \<longrightarrow> ar_rejected_by r \<noteq> ar_requested_by r))
    \<and> distinct (map ar_id (tables s))"
  using approval_reach_safe [OF assms] by (auto simp: review_safe_def four_eyes_def)

definition demo_input :: "unit create_input" where
  "demo_input =
     \<lparr>ci_module = ''website'', ci_action = ''website.delete'', ci_resource_id = ''7'',
      ci_resource_name = ''shop'', ci_risk_level = [], ci_reason = [], ci_payload = (),
      ci_requested_by = 2, ci_requested_by_name = ''web'', ci_expires_at = 0\<rparr>"

definition demo_marshal :: "unit \<Rightarrow> string option" where
  "demo_marshal _ = Some ''null''"

definition demo_row :: approval_request where
  "demo_row = new_request (\<lambda>_. 5) ''1-2'' demo_input ''null''"

lemma demo_row_sel [simp]:
  "ar_id demo_row = ''apr_12''" "ar_requested_by demo_row = 2" "ar_status demo_row = ApprovalStatusPending"
  "ar_expires_at demo_row = 5 + 24 * hour" "ar_approved_at demo_row = None" "ar_rejected_at demo_row = None"
  by (simp_all add: demo_row_def new_request_def demo_input_def drop_dashes_def)

lemma demo_create:
  "create_approval demo_marshal (\<lambda>_. 5) ''1-2'' demo_input (healthy []) = (Inr demo_row, healthy [demo_row])"
  by (simp add: create_approval_def create_request_def demo_marshal_def bnd_run Let_def insert_row_healthy
      insert_request_def demo_row_def)

lemma demo_check:
  "w \<noteq> 2 \<Longrightarrow> review_check (\<lambda>_. 6) ''apr_12'' w (healthy [demo_row]) = (Inr demo_row, healthy [demo_row])"
  by (simp add: review_check_def bnd_run go_simps)

lemma demo_commit:
  "approve_commit (\<lambda>_. 6) w n c demo_row (healthy [demo_row])
     = (Inr (approved_row (\<lambda>_. 6) w n c demo_row), healthy [approved_row (\<lambda>_. 6) w n c demo_row])"
  by (simp add: approve_commit_def bnd_run go_simps)

theorem approval_four_eyes_witness:
  "\<exists>s. approval_reach demo_marshal s [] \<and> tables s \<noteq> []
     \<and> (\<forall>r \<in> set (tables s). ar_approved_at r = Some 6 \<and> ar_approved_by r \<noteq> ar_requested_by r)"
proof -
  let ?r = "approved_row (\<lambda>_. 6) 3 ''ann'' [] demo_row"
  let ?v = "Review True 3 ''ann'' [] (\<lambda>_. 6) demo_row"
  have "approval_reach demo_marshal (healthy [demo_row]) []"
    using approval_reach.create [OF approval_reach.start demo_create] by simp
  then have "approval_reach demo_marshal (healthy [demo_row]) [?v]"
    using approval_reach.check demo_check [of 3] by fastforce
  then have "approval_reach demo_marshal (healthy [?r]) (remove1 ?v [?v])"
    by (rule approval_reach.commit [where v = ?v and x = "Inr ?r"]) (simp_all add: commit_review_def demo_commit)
  then have reach: "approval_reach demo_marshal (healthy [?r]) []" by simp
  from approval_four_eyes [OF this] reach show ?thesis by (intro exI [of _ "healthy [?r]"]) simp
qed

section \<open>Decisions\<close>

text \<open>What a review does to the table of a working engine, for the row it finds.\<close>

definition review_outcome ::
  "approval_db \<Rightarrow> (nat \<Rightarrow> time) \<Rightarrow> int \<Rightarrow> (approval_request \<Rightarrow> approval_request) \<Rightarrow> approval_request
     \<Rightarrow> (approval_error + approval_request) \<times> approval_db" where
  "review_outcome db clock w decide r =
     (if ar_requested_by r = w then (Inl ErrRequesterCannotReview, db)
      else if ar_status r \<noteq> ApprovalStatusPending
        then (Inl (if ar_status r = ApprovalStatusExpired then ErrApprovalExpired else ErrApprovalNotPending), db)
      else if ar_expires_at r \<noteq> 0 \<and> ar_expires_at r < clock 0
        then (Inl ErrApprovalExpired,
              upd_where (row_with (ar_id r)) (\<lambda>r. r\<lparr>ar_status := ApprovalStatusExpired, ar_updated_at := clock 1\<rparr>) db)
      else (Inr (decide r), upd_where (row_with (ar_id r)) decide db))"

lemma review_check_healthy:
  assumes "find (row_with (trim_space i)) db = Some r"
  shows "review_check clock i w (healthy db) =
    (case review_outcome db clock w id r of
       (Inl e, db') \<Rightarrow> (Inl e, healthy db') | (Inr r, _) \<Rightarrow> (Inr r, healthy db))"
  using assms by (simp add: review_check_def bnd_run review_outcome_def)

lemma commit_healthy:
  assumes "find (row_with (trim_space i)) db = Some r" and "\<And>r. ar_id (f r) = ar_id r"
  shows "bnd (modify ApprovalEngine (upd_where (row_with (ar_id r)) f)) (\<lambda>_. get_approval (ar_id r)) (healthy db)
    = (Inr (f r), healthy (upd_where (row_with (ar_id r)) f db))"
proof -
  have "ar_id r = trim_space i" using find_key_in [OF assms(1)] by simp
  then show ?thesis
    using assms by (simp add: bnd_run find_upd_where_key)
qed

text \<open>
  Every branch of a review.  On a working engine, approving or rejecting a request that
  exists is refused, in this order, for its requester, for a request already decided or
  expired, and for a pending one whose expiry lies in the past (which marks it expired);
  otherwise the decision, the reviewer, the trimmed comment and the time are written to
  that row and the new row is returned.  An unknown identifier is refused.
\<close>

theorem review_branches:
  assumes "find (row_with (trim_space i)) db = found"
  shows "approve clock i w n c (healthy db) =
      (case found of None \<Rightarrow> (Inl ApprovalNotFound, healthy db)
       | Some r \<Rightarrow> apsnd healthy (review_outcome db clock w (approved_row clock w n c) r))
    \<and> reject clock i w n c (healthy db) =
      (case found of None \<Rightarrow> (Inl ApprovalNotFound, healthy db)
       | Some r \<Rightarrow> apsnd healthy (review_outcome db clock w (rejected_row clock w n c) r))"
proof (cases found)
  case None
  with assms show ?thesis by (simp add: approve_def reject_def bnd_run review_check_def)
next
  case (Some r)
  with assms have f: "find (row_with (trim_space i)) db = Some r" by simp
  show ?thesis
    unfolding approve_def reject_def bnd_run review_check_healthy [OF f]
      approve_commit_def reject_commit_def Some
    using commit_healthy [OF f] by (auto simp: review_outcome_def bnd_run)
qed

theorem review_branches_witness:
  "approve (\<lambda>_. 6) ''apr_12'' 3 ''ann'' [] (healthy [demo_row])
     = (Inr (approved_row (\<lambda>_. 6) 3 ''ann'' [] demo_row), healthy [approved_row (\<lambda>_. 6) 3 ''ann'' [] demo_row])
   \<and> reject (\<lambda>_. 6) ''apr_12'' 2 ''web'' [] (healthy [demo_row]) = (Inl ErrRequesterCannotReview, healthy [demo_row])"
proof -
  have "find (row_with (trim_space ''apr_12'')) [demo_row] = Some demo_row" by (simp add: go_simps)
  note b = review_branches [OF this]
  show ?thesis using b [of "\<lambda>_. 6" 3] b [of "\<lambda>_. 6" 2] by (simp add: review_outcome_def)
qed

section \<open>Decisions are final\<close>

datatype 'p approval_op =
    Create "nat \<Rightarrow> time" string "'p create_input"
  | CreateOrReuse "nat \<Rightarrow> time" string "'p create_input"
  | Approve "nat \<Rightarrow> time" string int string string
  | Reject "nat \<Rightarrow> time" string int string string

fun approval_step :: "('p \<Rightarrow> string option) \<Rightarrow> 'p approval_op \<Rightarrow> unit approval_act" where
  "approval_step marshal (Create clock uuid input) =
     bnd (create_approval marshal clock uuid input) (\<lambda>_. ret ())"
| "approval_step marshal (CreateOrReuse clock uuid input) =
     bnd (create_or_reuse_pending marshal clock uuid input) (\<lambda>_. ret ())"
| "approval_step marshal (Approve clock i w n c) = bnd (approve clock i w n c) (\<lambda>_. ret ())"
| "approval_step marshal (Reject clock i w n c) = bnd (reject clock i w n c) (\<lambda>_. ret ())"

abbreviation decided :: "approval_request \<Rightarrow> approval_db \<Rightarrow> bool" where
  "decided r db \<equiv> find (row_with (ar_id r)) db = Some r \<and> ar_status r \<noteq> ApprovalStatusPending"

lemma decided_upd:
  assumes "decided r db" and "j \<noteq> ar_id r" and "\<And>q. ar_id (f q) = ar_id q"
  shows "decided r (upd_where (row_with j) f db)"
proof -
  have "find (row_with (ar_id r)) (upd_where (row_with j) f db)
      = map_option (\<lambda>q. if row_with j q then f q else q) (find (row_with (ar_id r)) db)"
    by (rule find_upd_where_key) (rule assms(3))
  also have "\<dots> = Some r" using assms(1,2) by auto
  finally show ?thesis using assms(1) by simp
qed

lemma decided_other:
  assumes "decided r db" and "find (row_with k) db = Some q" and "ar_status q = ApprovalStatusPending"
  shows "ar_id q \<noteq> ar_id r"
proof
  assume "ar_id q = ar_id r"
  moreover have "ar_id q = k" using find_key_in [OF assms(2)] by (rule conjunct2)
  ultimately have "find (row_with (ar_id r)) db = Some q" using assms(2) by metis
  then have "q = r" using conjunct1 [OF assms(1)] by (metis option.inject)
  then show False using conjunct2 [OF assms(1)] assms(3) by metis
qed

lemma review_decided:
  assumes "\<And>q. ar_id q \<noteq> ar_id r \<Longrightarrow> keeps (decided r) (k q)"
  shows "keeps (decided r) (bnd (review_check clock i w) k)"
proof (rule keeps_bnd_dep)
  show "keeps (decided r) (review_check clock i w)"
    unfolding review_check_def
  proof (intro keeps_bnd_dep [OF get_approval_keeps])
    fix s :: "approval_db engine" and q s'
    assume d: "decided r (tables s')" and g: "get_approval i s = (Inr q, s')"
    have q: "find (row_with (trim_space i)) (tables s') = Some q" using get_approval_Inr [OF g] by simp
    have other: "ar_id q \<noteq> ar_id r" if "ar_status q = ApprovalStatusPending"
      using decided_other [OF d q that] .
    have "keeps (decided r) (bnd (modify ApprovalEngine (upd_where (row_with (ar_id q))
        (\<lambda>r. r\<lparr>ar_status := ApprovalStatusExpired, ar_updated_at := clock 1\<rparr>))) (\<lambda>_. throw ErrApprovalExpired))"
      if "ar_status q = ApprovalStatusPending"
      by (intro keeps_rules decided_upd) (use other [OF that] in auto)
    then show "decided r (tables (snd ((if ar_requested_by q = w then throw ErrRequesterCannotReview
       else if ar_status q = ApprovalStatusExpired then throw ErrApprovalExpired
       else if ar_status q \<noteq> ApprovalStatusPending then throw ErrApprovalNotPending
       else if \<not> is_zero (ar_expires_at q) \<and> clock 0 > ar_expires_at q then
         bnd (modify ApprovalEngine (upd_where (row_with (ar_id q))
                (\<lambda>r. r\<lparr>ar_status := ApprovalStatusExpired, ar_updated_at := clock 1\<rparr>))) (\<lambda>_.
         throw ErrApprovalExpired)
       else ret q) s')))"
      using d by (auto simp: keeps_def)
  qed
next
  fix s :: "approval_db engine" and q s'
  assume d: "decided r (tables s')" and c: "review_check clock i w s = (Inr q, s')"
  have "ar_id q \<noteq> ar_id r"
    using decided_other [OF d _ review_check_Inr(4) [OF c]] review_check_Inr(1,2) [OF c] by simp
  from keeps_after [OF assms [OF this] d] show "decided r (tables (snd (k q s')))"
    by (simp add: after_def)
qed

lemma create_request_decided [keeps_rules]: "keeps (decided r) (create_request clock uuid input payload)"
  unfolding create_request_def Let_def
  by (intro keeps_rules) (auto simp: insert_request_def find_append_Some split: if_splits)

lemma approval_step_decided: "keeps (decided r) (approval_step marshal x)"
proof (cases x)
  case (Approve clock i w n c)
  have "keeps (decided r) (approve clock i w n c)"
    unfolding approve_def approve_commit_def
    by (intro review_decided keeps_rules decided_upd) auto
  then show ?thesis by (simp add: Approve keeps_bnd keeps_ret)
next
  case (Reject clock i w n c)
  have "keeps (decided r) (reject clock i w n c)"
    unfolding reject_def reject_commit_def
    by (intro review_decided keeps_rules decided_upd) auto
  then show ?thesis by (simp add: Reject keeps_bnd keeps_ret)
qed (simp_all add: create_approval_def create_or_reuse_pending_def,
    (intro keeps_rules)+)

interpretation decisions: invariant_ops "decided r" "approval_step marshal"
  by unfold_locales (rule approval_step_decided)

text \<open>
  C23: A decision is final.  Once a review has succeeded, the stored row stays exactly as
  that review left it through every later history of creations, approvals and rejections
  run one after the other, whichever engine calls fail.
\<close>

theorem decision_is_final:
  assumes "approve clock i w n c (healthy db) = (Inr r, s) \<or> reject clock i w n c (healthy db) = (Inr r, s)"
  shows "find (row_with (ar_id r)) (tables (run_ops (approval_step marshal) ops (s\<lparr>fate := fs\<rparr>))) = Some r
    \<and> ar_status r \<noteq> ApprovalStatusPending"
proof -
  note b = review_branches [where i = i and db = db and clock = clock and w = w and n = n and c = c, OF refl]
  obtain f where f: "f = approved_row clock w n c \<or> f = rejected_row clock w n c" and
    run: "(case find (row_with (trim_space i)) db of None \<Rightarrow> (Inl ApprovalNotFound, healthy db)
       | Some r \<Rightarrow> apsnd healthy (review_outcome db clock w f r)) = (Inr r, s)"
    using assms b by metis
  have sel: "ar_id (f q) = ar_id q" "ar_status (f q) \<noteq> ApprovalStatusPending" for q using f by auto
  obtain q where q: "find (row_with (trim_space i)) db = Some q" "r = f q"
    "tables s = upd_where (row_with (ar_id q)) f db"
    using run by (auto simp: review_outcome_def split: option.splits if_splits)
  have "ar_id q = trim_space i" using find_key_in [OF q(1)] by simp
  then have "decided r (tables (s\<lparr>fate := fs\<rparr>))"
    using q sel by (simp add: find_upd_where_key)
  from decisions.run_inv [OF this] show ?thesis .
qed

theorem decision_is_final_witness:
  "find (row_with ''apr_12'') (tables (run_ops (approval_step demo_marshal)
      [Reject (\<lambda>_. 9) ''apr_12'' 4 ''bob'' [], CreateOrReuse (\<lambda>_. 9) ''3'' demo_input]
      ((healthy [approved_row (\<lambda>_. 6) 3 ''ann'' [] demo_row])\<lparr>fate := [False, True]\<rparr>)))
     = Some (approved_row (\<lambda>_. 6) 3 ''ann'' [] demo_row)"
proof -
  have "approve (\<lambda>_. 6) ''apr_12'' 3 ''ann'' [] (healthy [demo_row])
      = (Inr (approved_row (\<lambda>_. 6) 3 ''ann'' [] demo_row), healthy [approved_row (\<lambda>_. 6) 3 ''ann'' [] demo_row])"
    by (simp add: approve_def bnd_run demo_check demo_commit)
  note f = decision_is_final [OF disjI1 [OF this], THEN conjunct1]
  show ?thesis by (rule f [unfolded approved_row_sel demo_row_sel])
qed

text \<open>
  C38: Two reviews that overlap can both succeed.  If an approval and a rejection of the same
  pending request by two reviewers both pass their checks before either writes, both report
  success, and the stored row ends rejected while it also names an approver and an approval
  time; the write does not test the status again.
\<close>

theorem overlapping_reviews_both_succeed:
  assumes "review_check clock i w (healthy db) = (Inr r, s1)"
    and "review_check clock' i w' s1 = (Inr r', s2)"
  shows "\<exists>a b db1 db2.
      approve_commit clock w n c r s2 = (Inr a, healthy db1)
      \<and> reject_commit clock' w' n' c' r' (healthy db1) = (Inr b, healthy db2)
      \<and> ar_status a = ApprovalStatusApproved \<and> ar_status b = ApprovalStatusRejected
      \<and> find (row_with (ar_id r)) db2 = Some b
      \<and> ar_approved_by b = w \<and> ar_approved_at b \<noteq> None \<and> ar_rejected_by b = w' \<and> ar_rejected_at b \<noteq> None"
proof -
  have f: "find (row_with (trim_space i)) db = Some r" using review_check_Inr(1) [OF assms(1)] by simp
  have s1: "s1 = healthy db"
    using assms(1) by (auto simp: review_check_healthy [OF f] review_outcome_def split: if_splits)
  then have r': "r' = r" and s2: "s2 = healthy db"
    using assms(2) by (auto simp: review_check_healthy [OF f] review_outcome_def split: if_splits)
  let ?a = "approved_row clock w n c" and ?b = "rejected_row clock' w' n' c'"
  let ?db1 = "upd_where (row_with (ar_id r)) ?a db"
  have i: "ar_id r = trim_space i" using find_key_in [OF f] by simp
  have fr: "find (row_with (ar_id r)) ?db1 = Some (?a r)"
    by (rule find_upd_where_hit) (simp, metis f i)
  then have f1: "find (row_with (trim_space i)) ?db1 = Some (?a r)" by (metis i)
  have 1: "approve_commit clock w n c r s2 = (Inr (?a r), healthy ?db1)"
    unfolding approve_commit_def s2 by (rule commit_healthy [OF f]) simp
  have 2: "reject_commit clock' w' n' c' r' (healthy ?db1)
      = (Inr (?b (?a r)), healthy (upd_where (row_with (ar_id r)) ?b ?db1))"
    using commit_healthy [OF f1, of ?b] unfolding reject_commit_def r' by simp
  have "find (row_with (ar_id r)) (upd_where (row_with (ar_id r)) ?b ?db1) = Some (?b (?a r))"
    by (rule find_upd_where_hit [OF _ fr]) simp
  then show ?thesis using 1 2 by force
qed

theorem overlapping_reviews_both_succeed_witness:
  "\<exists>a b db1 db2.
      approve_commit (\<lambda>_. 6) 3 ''ann'' [] demo_row (healthy [demo_row]) = (Inr a, healthy db1)
      \<and> reject_commit (\<lambda>_. 6) 4 ''bob'' [] demo_row (healthy db1) = (Inr b, healthy db2)
      \<and> ar_status b = ApprovalStatusRejected \<and> ar_approved_by b = 3"
  using overlapping_reviews_both_succeed [OF demo_check demo_check, of 3 4 "''ann''" "[]" "''bob''" "[]"]
  by auto

section \<open>Reuse\<close>

text \<open>
  Reuse returns only the same intent.  On a working engine, when the payload can be
  encoded, \<open>CreateOrReusePending\<close> either returns, without changing the table, the newest
  stored request that is pending, unexpired, by the same requester, for the same module,
  action and resource and with exactly this payload; or no such request exists and it
  stores a new pending one with that content, whose expiry is the given time or a day from
  now; it can only fail when the generated identifier is already taken.
\<close>

theorem reuse_same_intent:
  assumes "marshal (ci_payload input) = Some payload"
    and "''apr_'' @ drop_dashes uuid \<notin> ar_id ` set db"
  shows "\<exists>r b db'. create_or_reuse_pending marshal clock uuid input (healthy db) = (Inr (r, b), healthy db')
    \<and> ar_payload_snapshot r = payload \<and> ar_requested_by r = ci_requested_by input
    \<and> ar_status r = ApprovalStatusPending \<and> r \<in> set db'
    \<and> (if b then db' = db \<and> same_intent (clock 0) input payload r
              \<and> (\<forall>q \<in> set db. same_intent (clock 0) input payload q \<longrightarrow> ar_created_at q \<le> ar_created_at r)
       else (\<forall>q \<in> set db. \<not> same_intent (clock 0) input payload q) \<and> db' = db @ [r]
              \<and> ar_expires_at r = (if ci_expires_at input = 0 then clock 1 + 24 * hour else ci_expires_at input))"
proof (cases "first_by (\<lambda>r. (- ar_created_at r, ar_id r)) (filter (same_intent (clock 0) input payload) db)")
  case None
  let ?r = "new_request clock uuid input payload"
  have none: "\<forall>q \<in> set db. \<not> same_intent (clock 0) input payload q"
    using None by (simp add: filter_empty_conv)
  have "create_or_reuse_pending marshal clock uuid input (healthy db) = (Inr (?r, False), healthy (db @ [?r]))"
    using None assms
    by (simp add: create_or_reuse_pending_def create_request_def Let_def bnd_run insert_row_healthy
        insert_request_def)
  then show ?thesis
    using none by (intro exI [of _ ?r] exI [of _ False]) simp
next
  case (Some r)
  have run: "create_or_reuse_pending marshal clock uuid input (healthy db) = (Inr (r, True), healthy db)"
    using Some assms by (simp add: create_or_reuse_pending_def bnd_run)
  have r: "r \<in> set db" "same_intent (clock 0) input payload r"
    using first_by_Some(1) [OF Some] by simp_all
  have "ar_created_at q \<le> ar_created_at r" if "q \<in> set db" "same_intent (clock 0) input payload q" for q
    using first_by_Some(2) [OF Some, of q] that by (auto simp: less_eq_prod_def)
  then show ?thesis
    using run r by (intro exI [of _ r] exI [of _ True]) (auto simp: same_intent_def)
qed

theorem reuse_same_intent_witness:
  "\<exists>r b db'. create_or_reuse_pending demo_marshal (\<lambda>_. 6) ''9'' demo_input (healthy [demo_row])
     = (Inr (r, b), healthy db') \<and> ar_payload_snapshot r = ''null'' \<and> r \<in> set db'"
proof -
  have "demo_marshal (ci_payload demo_input) = Some ''null''" by (simp add: demo_marshal_def)
  moreover have "''apr_'' @ drop_dashes ''9'' \<notin> ar_id ` set [demo_row]" by (simp add: drop_dashes_def)
  ultimately show ?thesis using reuse_same_intent [of demo_marshal demo_input "''null''" "''9''" "[demo_row]" "\<lambda>_. 6"]
    by blast
qed

section \<open>Lists\<close>

lemma list_filter_rows:
  "set (page_rows p n (sort_key k (filter m db))) \<subseteq> {r \<in> set db. m r}"
  by (auto simp: page_rows_def dest!: in_set_takeD in_set_dropD)

text \<open>
  Lists are confined and truthful.  Whichever engine calls fail, a successful listing
  changes nothing; without the right to see all requests (or when asked for one's own) every
  item is a stored request of that user; and when the list is filtered by a status, every
  item of stored requests with a set expiry shows exactly that status, so an overdue pending
  request appears under \<open>expired\<close> and never under \<open>pending\<close>.
\<close>

theorem list_confined_and_truthful:
  assumes "list_approvals uni like clock opts s = (Inr res, s')"
    and "\<forall>r \<in> set (tables s). ar_expires_at r \<noteq> 0"
  shows "tables s' = tables s \<and>
    (\<forall>item \<in> set (lr_items res). \<exists>r \<in> set (tables s).
       item = build_approval_list_item uni (lo_locale opts) (clock 0) r
       \<and> (lo_mine opts \<or> \<not> lo_include_all opts \<longrightarrow> ar_requested_by r = lo_user_id opts)
       \<and> (trim_space (lo_status opts) \<noteq> [] \<longrightarrow> ai_status item = trim_space (lo_status opts)))"
proof -
  obtain p n where pn: "normalize_page (lo_page opts) (lo_page_size opts) = (p, n)" by fastforce
  let ?m = "list_filter uni like (clock 0) opts"
  let ?rows = "\<lambda>db. page_rows p n (sort_key (\<lambda>r. - ar_created_at r) (filter ?m db))"
  from assms(1) obtain total s1 rows s2 where
    q1: "query ApprovalEngine (\<lambda>db. length (filter ?m db)) s = (Inr total, s1)" and
    q2: "query ApprovalEngine ?rows s1 = (Inr rows, s2)" and
    res: "ret \<lparr>lr_items = map (build_approval_list_item uni (lo_locale opts) (clock 0)) rows,
                lr_total = total, lr_page = p, lr_page_size = n\<rparr> s2 = (Inr res, s')"
    by (auto simp: list_approvals_def guard_db_Inr pn Let_def bnd_Inr)
  have t: "tables s' = tables s" and rows: "rows = ?rows (tables s)"
    using query_Inr [OF q1] query_Inr [OF q2] res by auto
  have "ai_status (build_approval_list_item uni l (clock 0) r) = trim_space (lo_status opts)"
    if "r \<in> set (tables s)" "?m r" "trim_space (lo_status opts) \<noteq> []" for r l
    using that assms(2)
    by (auto simp: list_filter_def match_status_def build_approval_list_item_def effective_status_def Let_def
        split: if_splits)
  moreover have "r \<in> set (tables s) \<and> ?m r" if "r \<in> set rows" for r
    using that list_filter_rows unfolding rows by fastforce
  moreover have "lr_items res = map (build_approval_list_item uni (lo_locale opts) (clock 0)) rows"
    using res by auto
  ultimately show ?thesis
    using t by (fastforce simp: list_filter_def)
qed

definition demo_options :: list_options where
  "demo_options =
     \<lparr>lo_page = 1, lo_page_size = 10, lo_status = [], lo_module = [], lo_action = [], lo_mine = False,
      lo_keyword = [], lo_created_from = None, lo_created_to = None, lo_user_id = 2, lo_include_all = False,
      lo_locale = ''en''\<rparr>"

theorem list_confined_and_truthful_witness:
  "\<exists>res s'. list_approvals id (\<lambda>_ _. False) (\<lambda>_. 6) (demo_options\<lparr>lo_status := ''pending''\<rparr>) (healthy [demo_row]) = (Inr res, s')
     \<and> lr_items res \<noteq> [] \<and> (\<forall>item \<in> set (lr_items res). ai_status item = ''pending'')"
proof -
  let ?o = "demo_options\<lparr>lo_status := ''pending''\<rparr>"
  have f: "list_filter id (\<lambda>_ _. False) 6 ?o demo_row"
    by (simp add: list_filter_def match_status_def match_module_def match_keyword_def demo_options_def go_simps)
  have run: "list_approvals id (\<lambda>_ _. False) (\<lambda>_. 6) ?o (healthy [demo_row]) =
      (Inr \<lparr>lr_items = [build_approval_list_item id ''en'' 6 demo_row], lr_total = 1, lr_page = 1, lr_page_size = 10\<rparr>,
       healthy [demo_row])"
    using f by (simp add: list_approvals_def normalize_page_def page_rows_def bnd_run demo_options_def Let_def)
  have "\<forall>r \<in> set (tables (healthy [demo_row])). ar_expires_at r \<noteq> 0" by simp
  from list_confined_and_truthful [OF run this] run show ?thesis
    by (auto simp: demo_options_def go_simps)
qed

section \<open>Where two tests disagree\<close>

text \<open>
  The instant of expiry.  At exactly its expiry time a pending request is shown, and
  listed, as expired, yet a second person can still approve it: the display tests
  "not after", the review tests "before".
\<close>

theorem expiry_instant_disagreement:
  assumes "find (row_with (trim_space i)) db = Some r" and "ar_status r = ApprovalStatusPending"
    and "ar_expires_at r \<noteq> 0" and "clock 0 = ar_expires_at r" and "w \<noteq> ar_requested_by r"
  shows "effective_status (Some r) (clock 0) = ApprovalStatusExpired
    \<and> match_status (clock 0) ''expired'' r \<and> \<not> match_status (clock 0) ''pending'' r
    \<and> fst (approve clock i w n c (healthy db)) = Inr (approved_row clock w n c r)"
  using assms review_branches [OF assms(1), of clock w n c]
  by (simp add: effective_status_def match_status_def review_outcome_def go_simps)

theorem expiry_instant_disagreement_witness:
  "effective_status (Some demo_row) (5 + 24 * hour) = ApprovalStatusExpired
   \<and> fst (approve (\<lambda>_. 5 + 24 * hour) ''apr_12'' 3 ''ann'' [] (healthy [demo_row]))
       = Inr (approved_row (\<lambda>_. 5 + 24 * hour) 3 ''ann'' [] demo_row)"
  using expiry_instant_disagreement [of "''apr_12''" "[demo_row]" demo_row "\<lambda>_. 5 + 24 * hour" 3 "''ann''" "[]"]
  by (simp add: go_simps)

lemma locale_en [simp]: "canonical_locale uni ''en'' = LocaleEnUS"
  by (simp add: canonical_locale_def supported_locales_def go_simps case_simps Let_def)

lemma english_names_of_fallbacks:
  "localized_english_name name_resource = []" "localized_english_name name_other = ''Other''"
  by (simp_all add: localized_english_name_def map_read_def english_names_def name_resource_def
      name_other_def utf8_def encode_rune_def bytes_def)

text \<open>
  English names have gaps.  For an English reader a request with neither resource name
  nor identifier is shown with an empty name (the fallback word has no translation), and
  an unknown action is shown with the Chinese word although the table translates it.
\<close>

theorem english_name_gaps:
  "(trim_space (ar_resource_name r) = [] \<and> trim_space (ar_resource_id r) = []
      \<longrightarrow> localized_approval_resource_name uni ''en'' r = [])
   \<and> (map_of approval_action_names (trim_space v) = None
      \<longrightarrow> localized_action_name uni ''en'' v = name_other \<and> localized_english_name name_other = ''Other'')"
  by (simp add: localized_approval_resource_name_def localized_fallback_name_def localized_action_name_def
      localized_approval_name_def english_names_of_fallbacks)

theorem english_name_gaps_witness:
  "localized_approval_resource_name id ''en'' (demo_row\<lparr>ar_resource_name := [], ar_resource_id := []\<rparr>) = []
   \<and> localized_action_name id ''en'' ''file.delete'' = name_other"
  using english_name_gaps [of "demo_row\<lparr>ar_resource_name := [], ar_resource_id := []\<rparr>" id "''file.delete''"]
  by (simp add: go_simps approval_action_names_def)

end
