(* ===== verification/Once.thy ===== *)
theory Once
  imports Engine
begin

text \<open>
  Single-use tokens.  Several parts of the panel hand out something that may be used once (an
  operation preview, a recovery code, a time step of a one-time password) and redeem it with
  one conditional statement.  The locale \<open>once\<close> states what such a statement promises, and
  proves that no history of redemptions and other operations, with any engine failures,
  redeems the same token twice.
\<close>

text \<open>
  The tokens redeemed by a history, in order; \<open>Inl\<close> is a redemption, \<open>Inr\<close> another
  operation.  The token may depend on what the redemption returned.
\<close>

fun redeemed ::
  "('c \<Rightarrow> 'a \<Rightarrow> 'k) \<Rightarrow> ('c \<Rightarrow> ('db, 'e, 'a) act) \<Rightarrow> ('op \<Rightarrow> ('db, 'f, 'b) act) \<Rightarrow> ('c + 'op) list
     \<Rightarrow> 'db engine \<Rightarrow> 'k list" where
  "redeemed key redeem other [] s = []"
| "redeemed key redeem other (Inl c # evs) s =
     (case redeem c s of
        (Inr a, s') \<Rightarrow> key c a # redeemed key redeem other evs s'
      | (Inl _, s') \<Rightarrow> redeemed key redeem other evs s')"
| "redeemed key redeem other (Inr x # evs) s = redeemed key redeem other evs (snd (other x s))"

locale once =
  fixes inv :: "'db \<Rightarrow> bool"
    and used :: "'db \<Rightarrow> 'k \<Rightarrow> bool"
    and key :: "'c \<Rightarrow> 'a \<Rightarrow> 'k"
    and redeem :: "'c \<Rightarrow> ('db, 'e, 'a) act"
    and other :: "'op \<Rightarrow> ('db, 'f, 'b) act"
  assumes redeem_takes: "inv (tables s) \<Longrightarrow> redeem c s = (Inr a, s')
      \<Longrightarrow> \<not> used (tables s) (key c a) \<and> used (tables s') (key c a)"
    and redeem_inv: "keeps inv (redeem c)"
    and other_inv: "keeps inv (other x)"
    and redeem_keeps: "keeps (\<lambda>db. inv db \<and> used db k) (redeem c)"
    and other_keeps: "keeps (\<lambda>db. inv db \<and> used db k) (other x)"
begin

lemma used_not_redeemed:
  "inv (tables s) \<Longrightarrow> used (tables s) k \<Longrightarrow> k \<notin> set (redeemed key redeem other evs s)"
proof (induction evs arbitrary: s)
  case (Cons ev evs)
  show ?case
  proof (cases ev)
    case (Inl c)
    obtain r s' where run: "redeem c s = (r, s')" by fastforce
    have s': "inv (tables s')" "used (tables s') k"
      using keepsD [OF redeem_keeps _ run] Cons.prems by blast+
    show ?thesis
    proof (cases r)
      case (Inr a)
      have "k \<noteq> key c a" using redeem_takes [OF Cons.prems(1)] run Inr Cons.prems(2) by metis
      then show ?thesis using Cons.IH [OF s'] run Inl Inr by simp
    qed (use Cons.IH [OF s'] run Inl in simp)
  next
    case (Inr x)
    have "inv (tables (snd (other x s))) \<and> used (tables (snd (other x s))) k"
      using other_keeps [of k x] Cons.prems unfolding keeps_def by metis
    then show ?thesis using Cons.IH Inr by simp
  qed
qed simp

lemma redeemed_once: "inv (tables s) \<Longrightarrow> distinct (redeemed key redeem other evs s)"
proof (induction evs arbitrary: s)
  case (Cons ev evs)
  show ?case
  proof (cases ev)
    case (Inl c)
    obtain r s' where run: "redeem c s = (r, s')" by fastforce
    have s': "inv (tables s')" using keepsD [OF redeem_inv Cons.prems run] .
    show ?thesis
    proof (cases r)
      case (Inr a)
      have "used (tables s') (key c a)" using redeem_takes [OF Cons.prems] run Inr by metis
      then show ?thesis
        using Cons.IH [OF s'] used_not_redeemed [OF s'] run Inl Inr by simp
    qed (use Cons.IH [OF s'] run Inl in simp)
  next
    case (Inr x)
    have "inv (tables (snd (other x s)))" using other_inv Cons.prems by (simp add: keeps_def)
    then show ?thesis using Cons.IH Inr by simp
  qed
qed simp

end

end
