(* ===== verification/Codec.thy ===== *)
theory Codec
  imports Prelude
begin

text \<open>
  The unpadded encodings of packages \<open>encoding/base32\<close> and \<open>encoding/base64\<close> (raw URL
  alphabet) the panel uses for secrets, recovery codes, session identifiers and encrypted
  credentials, as one encoder and decoder of bit groups of a given width, with the proof
  that decoding inverts encoding.
\<close>

section \<open>Bits\<close>

definition char_bits :: "char \<Rightarrow> bool list" where
  "char_bits c = [digit7 c, digit6 c, digit5 c, digit4 c, digit3 c, digit2 c, digit1 c, digit0 c]"

fun bits_char :: "bool list \<Rightarrow> char" where
  "bits_char [b7, b6, b5, b4, b3, b2, b1, b0] = Char b0 b1 b2 b3 b4 b5 b6 b7"
| "bits_char _ = CHR 0x00"

lemma length_char_bits [simp]: "length (char_bits c) = 8"
  by (simp add: char_bits_def)

lemma bits_char_bits [simp]: "bits_char (char_bits c) = c"
  by (simp add: char_bits_def)

fun bits_val :: "bool list \<Rightarrow> nat" where
  "bits_val [] = 0"
| "bits_val (b # bs) = of_bool b * 2 ^ length bs + bits_val bs"

fun val_bits :: "nat \<Rightarrow> nat \<Rightarrow> bool list" where
  "val_bits 0 n = []"
| "val_bits (Suc k) n = odd (n div 2 ^ k) # val_bits k n"

lemma length_val_bits [simp]: "length (val_bits k n) = k"
  by (induction k) auto

lemma bits_val_less: "bits_val bs < 2 ^ length bs"
  by (induction bs) auto

lemma val_bits_bits_val_shift: "val_bits (length bs) (bits_val bs + 2 ^ length bs * m) = bs"
proof (induction bs arbitrary: m)
  case (Cons b bs)
  let ?k = "length bs"
  have eq: "bits_val (b # bs) + 2 ^ length (b # bs) * m = bits_val bs + 2 ^ ?k * (of_bool b + 2 * m)"
    by (simp add: algebra_simps)
  have "(bits_val bs + 2 ^ ?k * (of_bool b + 2 * m)) div 2 ^ ?k = of_bool b + 2 * m"
    using bits_val_less [of bs] by simp
  then show ?case
    using Cons.IH [of "of_bool b + 2 * m"] unfolding eq by simp
qed simp

lemma val_bits_bits_val [simp]: "length bs = k \<Longrightarrow> val_bits k (bits_val bs) = bs"
  using val_bits_bits_val_shift [of bs 0] by auto

section \<open>Groups\<close>

function chunks :: "nat \<Rightarrow> 'a list \<Rightarrow> 'a list list" where
  "chunks k xs = (if k = 0 \<or> xs = [] then [] else take k xs # chunks k (drop k xs))"
  by pat_completeness auto
termination
  by (relation "measure (\<lambda>(k, xs). length xs)") auto

declare chunks.simps [simp del]

lemma chunks_Nil [simp]: "chunks k [] = []"
  by (simp add: chunks.simps)

lemma chunks_step: "0 < k \<Longrightarrow> xs \<noteq> [] \<Longrightarrow> chunks k xs = take k xs # chunks k (drop k xs)"
  by (simp add: chunks.simps)

lemma chunks_append: "0 < k \<Longrightarrow> length xs = k \<Longrightarrow> chunks k (xs @ ys) = xs # chunks k ys"
  by (subst chunks_step) auto

lemma length_chunks: "0 < k \<Longrightarrow> length (chunks k xs) = (length xs + k - 1) div k"
proof (induction k xs rule: chunks.induct)
  case (1 k xs)
  show ?case
  proof (cases "xs = []")
    case False
    then have IH: "length (chunks k (drop k xs)) = (length xs - k + k - 1) div k"
      using "1.IH" "1.prems" by simp
    show ?thesis
    proof (cases "length xs \<le> k")
      case True
      then have "(length xs + k - 1) div k = 1"
        using False "1.prems" by (cases xs) (auto simp: div_nat_eqI)
      with True False IH "1.prems" show ?thesis by (simp add: chunks_step)
    next
      case long: False
      then have "length xs + k - 1 = (length xs - k + k - 1) + k" by simp
      then have "(length xs + k - 1) div k = Suc ((length xs - k + k - 1) div k)"
        using "1.prems" by (metis Suc_eq_plus1 div_add_self2 less_not_refl)
      with IH False "1.prems" show ?thesis by (simp add: chunks_step)
    qed
  qed (use "1.prems" in simp)
qed

text \<open>A group filled up with zero bits, as the encoders do for the last group.\<close>

definition pad_bits :: "nat \<Rightarrow> bool list \<Rightarrow> bool list" where
  "pad_bits k bs = bs @ replicate (k - length bs) False"

lemma concat_pad_chunks:
  assumes "0 < k"
  shows "\<exists>n < k. concat (map (pad_bits k) (chunks k xs)) = xs @ replicate n False"
  using assms
proof (induction k xs rule: chunks.induct)
  case (1 k xs)
  show ?case
  proof (cases "length xs \<le> k")
    case True
    then show ?thesis
      using "1.prems" by (cases "xs = []") (auto simp: chunks_step pad_bits_def)
  next
    case False
    then have "xs \<noteq> []" by auto
    then obtain n where "n < k" "concat (map (pad_bits k) (chunks k (drop k xs))) = drop k xs @ replicate n False"
      using "1.IH" "1.prems" by auto
    moreover have "pad_bits k (take k xs) = take k xs" using False by (simp add: pad_bits_def)
    ultimately show ?thesis
      using \<open>xs \<noteq> []\<close> "1.prems" by (auto simp: chunks_step)
  qed
qed

section \<open>The encodings\<close>

definition encode_raw :: "nat \<Rightarrow> string \<Rightarrow> string \<Rightarrow> string" where
  "encode_raw k alphabet s =
     map (\<lambda>bs. alphabet ! bits_val (pad_bits k bs)) (chunks k (concat (map char_bits s)))"

fun index_of :: "string \<Rightarrow> char \<Rightarrow> nat option" where
  "index_of [] c = None"
| "index_of (a # as) c = (if a = c then Some 0 else map_option Suc (index_of as c))"

abbreviation upper_letters :: string where
  "upper_letters \<equiv> ''ABCDEFGHIJKLMNOPQRSTUVWXYZ''"

definition base32_alphabet :: string where
  "base32_alphabet = upper_letters @ ''234567''"

definition raw_url_alphabet :: string where
  "raw_url_alphabet = upper_letters @ ''abcdefghijklmnopqrstuvwxyz'' @ ''0123456789-_''"

text \<open>\<open>base32.StdEncoding.WithPadding(base32.NoPadding)\<close> and \<open>base64.RawURLEncoding\<close>.\<close>

definition base32_encode :: "string \<Rightarrow> string" where
  "base32_encode s = encode_raw 5 base32_alphabet s"

definition raw_url_encode :: "string \<Rightarrow> string" where
  "raw_url_encode s = encode_raw 6 raw_url_alphabet s"

definition std_alphabet :: string where
  "std_alphabet = upper_letters @ ''abcdefghijklmnopqrstuvwxyz'' @ ''0123456789+/''"

text \<open>The whole bytes in a sequence of six-bit characters; the bits left over are dropped.\<close>

definition decode_groups :: "string \<Rightarrow> string \<Rightarrow> string" where
  "decode_groups alphabet cs =
     (let bits = concat (map (\<lambda>c. val_bits 6 (the (index_of alphabet c))) cs) in
      map bits_char (chunks 8 (take (length bits div 8 * 8) bits)))"

text \<open>
  \<open>base64.RawURLEncoding.DecodeString\<close>: carriage returns and line feeds are skipped, any
  other character outside the alphabet is an error, so is a single character after the last
  full group, and the bits after the last whole byte are ignored.
\<close>

definition drop_newlines :: "string \<Rightarrow> string" where
  "drop_newlines s = filter (\<lambda>c. c \<noteq> CHR 0x0A \<and> c \<noteq> CHR 0x0D) s"

definition raw_url_decode :: "string \<Rightarrow> string option" where
  "raw_url_decode s =
     (let cs = drop_newlines s in
      if list_all (\<lambda>c. index_of raw_url_alphabet c \<noteq> None) cs \<and> length cs mod 4 \<noteq> 1
      then Some (decode_groups raw_url_alphabet cs)
      else None)"

text \<open>
  \<open>base64.StdEncoding\<close>: the encoder fills the last group of four with \<open>=\<close>; the decoder
  skips carriage returns and line feeds, requires whole groups of four, and allows at most two
  fill characters, at the very end.
\<close>

definition std_encode :: "string \<Rightarrow> string" where
  "std_encode s = encode_raw 6 std_alphabet s @ replicate ((3 - length s mod 3) mod 3) CHR ''=''"

definition std_decode :: "string \<Rightarrow> string option" where
  "std_decode s =
     (let cs = drop_newlines s;
          body = takeWhile (\<lambda>c. c \<noteq> CHR ''='') cs;
          pad = dropWhile (\<lambda>c. c \<noteq> CHR ''='') cs
      in if length cs mod 4 = 0 \<and> pad \<in> {[], ''='', ''==''} \<and> list_all (\<lambda>c. index_of std_alphabet c \<noteq> None) body
         then Some (decode_groups std_alphabet body)
         else None)"

section \<open>Round trip\<close>

lemma index_of_nth: "distinct as \<Longrightarrow> i < length as \<Longrightarrow> index_of as (as ! i) = Some i"
proof (induction as arbitrary: i)
  case (Cons a as)
  then show ?case by (cases i) auto
qed simp

lemma length_concat_char_bits [simp]: "length (concat (map char_bits s)) = 8 * length s"
  by (induction s) auto

lemma length_encode_raw: "0 < k \<Longrightarrow> length (encode_raw k a s) = (8 * length s + k - 1) div k"
  by (simp add: encode_raw_def length_chunks)

lemma length_pad_chunks:
  "0 < k \<Longrightarrow> bs \<in> set (chunks k xs) \<Longrightarrow> length (pad_bits k bs) = k"
proof (induction k xs rule: chunks.induct)
  case (1 k xs)
  then show ?case
    by (cases "xs = []") (auto simp: chunks_step pad_bits_def)
qed

lemma chunks_char_bits: "map bits_char (chunks 8 (concat (map char_bits s))) = s"
  by (induction s) (auto simp: chunks_append)

text \<open>
  What both alphabets share: 64 different characters, none of them a line break or the fill
  character.
\<close>

locale alphabet64 =
  fixes alphabet :: string
  assumes distinct_alphabet: "distinct alphabet"
    and length_alphabet: "length alphabet = 64"
    and plain: "c \<in> set alphabet \<Longrightarrow> c \<noteq> CHR 0x0A \<and> c \<noteq> CHR 0x0D \<and> c \<noteq> CHR ''=''"
begin

lemma group_char:
  assumes "length bs = 6"
  shows "index_of alphabet (alphabet ! bits_val bs) = Some (bits_val bs)" and "alphabet ! bits_val bs \<in> set alphabet"
proof -
  have "bits_val bs < length alphabet" using bits_val_less [of bs] assms by (simp add: length_alphabet)
  then show "index_of alphabet (alphabet ! bits_val bs) = Some (bits_val bs)" and "alphabet ! bits_val bs \<in> set alphabet"
    using distinct_alphabet by (simp_all add: index_of_nth)
qed

lemma encoded:
  assumes "c \<in> set (encode_raw 6 alphabet s)"
  shows "c \<in> set alphabet" and "index_of alphabet c \<noteq> None"
proof -
  obtain bs where bs: "bs \<in> set (chunks 6 (concat (map char_bits s)))" "c = alphabet ! bits_val (pad_bits 6 bs)"
    using assms by (auto simp: encode_raw_def)
  have "length (pad_bits 6 bs) = 6" using length_pad_chunks [OF _ bs(1)] by simp
  then show "c \<in> set alphabet" and "index_of alphabet c \<noteq> None" using group_char [of "pad_bits 6 bs"] bs(2) by simp_all
qed

lemma encoded_all: "list_all (\<lambda>c. index_of alphabet c \<noteq> None) (encode_raw 6 alphabet s)"
  using encoded(2) by (simp add: list_all_iff)

lemma encoded_plain: "drop_newlines (encode_raw 6 alphabet s) = encode_raw 6 alphabet s"
  unfolding drop_newlines_def using encoded(1) plain by (intro filter_True) blast

lemma groups_round_trip: "decode_groups alphabet (encode_raw 6 alphabet s) = s"
proof -
  let ?bits = "concat (map char_bits s)" and ?e = "encode_raw 6 alphabet s"
  let ?groups = "chunks 6 ?bits"
  have len: "length (pad_bits 6 bs) = 6" if "bs \<in> set ?groups" for bs
    using that length_pad_chunks [of 6] by simp
  have "map (\<lambda>c. val_bits 6 (the (index_of alphabet c))) ?e = map (pad_bits 6) ?groups"
    unfolding encode_raw_def using group_char(1) [OF len] len by auto
  then obtain n where n: "n < 6" "concat (map (\<lambda>c. val_bits 6 (the (index_of alphabet c))) ?e) = ?bits @ replicate n False"
    using concat_pad_chunks [of 6 ?bits] by auto
  have "(8 * length s + n) div 8 * 8 = 8 * length s" using n(1) by simp
  then have "take (length (?bits @ replicate n False) div 8 * 8) (?bits @ replicate n False) = ?bits" by simp
  then show ?thesis unfolding decode_groups_def Let_def n(2) using chunks_char_bits by simp
qed

end

interpretation url64: alphabet64 raw_url_alphabet
  by unfold_locales (auto simp: raw_url_alphabet_def)

interpretation std64: alphabet64 std_alphabet
  by unfold_locales (auto simp: std_alphabet_def)

lemma raw_url_round_trip: "raw_url_decode (raw_url_encode s) = Some s"
proof -
  have "length (raw_url_encode s) mod 4 \<noteq> 1"
    unfolding raw_url_encode_def length_encode_raw [of 6, simplified] by presburger
  then show ?thesis
    using url64.encoded_all url64.encoded_plain url64.groups_round_trip by (simp add: raw_url_decode_def raw_url_encode_def)
qed

lemma short_replicate: "n < 3 \<Longrightarrow> replicate n c \<in> {[], [c], [c, c]}"
  by (auto simp: less_Suc_eq numeral_eq_Suc)

lemma std_round_trip: "std_decode (std_encode s) = Some s"
proof -
  let ?e = "encode_raw 6 std_alphabet s" and ?n = "(3 - length s mod 3) mod 3"
  let ?fill = "replicate ?n CHR ''=''"
  have plain: "drop_newlines (?e @ ?fill) = ?e @ ?fill"
    using std64.encoded_plain [of s] by (simp add: drop_newlines_def)
  have body: "takeWhile (\<lambda>c. c \<noteq> CHR ''='') (?e @ ?fill) = ?e" "dropWhile (\<lambda>c. c \<noteq> CHR ''='') (?e @ ?fill) = ?fill"
    using std64.encoded(1) std64.plain by (auto simp: takeWhile_append2 dropWhile_append2)
  have "?n < 3" by simp
  then have fill: "?fill \<in> {[], ''='', ''==''}" by (rule short_replicate)
  have "(length ?e + ?n) mod 4 = 0"
  proof -
    define k where "k = length s div 3"
    have cases: "length s = 3 * k \<or> length s = 3 * k + 1 \<or> length s = 3 * k + 2" unfolding k_def by presburger
    have e: "length ?e = (8 * length s + 5) div 6" by (simp add: length_encode_raw)
    from cases show ?thesis
    proof (elim disjE)
      assume n: "length s = 3 * k + 1"
      have "(8 * (3 * k + 1) + 5) div 6 = 4 * k + 2" "(3 * k + 1) mod 3 = 1" by presburger+
      then show ?thesis unfolding e n by simp
    next
      assume n: "length s = 3 * k + 2"
      have "(8 * (3 * k + 2) + 5) div 6 = 4 * k + 3" "(3 * k + 2) mod 3 = 2" by presburger+
      then show ?thesis unfolding e n by simp
    next
      assume n: "length s = 3 * k"
      have "(8 * (3 * k) + 5) div 6 = 4 * k" by presburger
      then show ?thesis unfolding e n by simp
    qed
  qed
  then have "length (?e @ ?fill) mod 4 = 0" by simp
  then show ?thesis
    unfolding std_decode_def std_encode_def Let_def plain body std64.groups_round_trip
    using fill std64.encoded_all [of s] by (simp only: simp_thms if_True)
qed

text \<open>Encoded text has no white space at its ends.\<close>

lemma trim_std_encode [simp]: "trim_space (std_encode s) = std_encode s"
proof (cases "std_encode s = []")
  case False
  have "list_all (\<lambda>c. graphic c) (CHR ''='' # std_alphabet)" by code_simp
  then have "graphic c" if "c \<in> set (CHR ''='' # std_alphabet)" for c
    using that unfolding list_all_iff by blast
  moreover have "set (std_encode s) \<subseteq> set (CHR ''='' # std_alphabet)"
    using std64.encoded(1) by (auto simp: std_encode_def)
  ultimately have "graphic (hd (std_encode s))" "graphic (last (std_encode s))"
    using hd_in_set [OF False] last_in_set [OF False] by blast+
  then show ?thesis by (rule trim_space_graphic)
qed simp

end
