(* ===== verification/Credential.thy ===== *)
theory Credential
  imports Codec
begin

text \<open>
  The credential cipher (\<open>utils/credential.go\<close>): values are sealed with AES-256-GCM under an
  instance key, with the purpose as associated data, and stored as a prefix and the raw URL
  encoding of nonce and ciphertext.  The primitives (AES-GCM, HMAC) are the fields of the
  record \<open>crypto\<close>; byte strings are \<open>string\<close>s.
\<close>

record crypto =
  gcm_seal :: "string \<Rightarrow> string \<Rightarrow> string \<Rightarrow> string \<Rightarrow> string"
  gcm_open :: "string \<Rightarrow> string \<Rightarrow> string \<Rightarrow> string \<Rightarrow> string option"
  hmac_sha256 :: "string \<Rightarrow> string \<Rightarrow> string"
  hmac_sha1 :: "string \<Rightarrow> string \<Rightarrow> string"

text \<open>
  The documented behaviour of \<open>cipher.AEAD\<close> the panel relies on: \<open>Open\<close> inverts \<open>Seal\<close>, and
  the ciphertext is longer than the plaintext by the overhead of 16 bytes.
\<close>

definition aead_inverts :: "crypto \<Rightarrow> bool" where
  "aead_inverts c \<longleftrightarrow>
     (\<forall>key nonce text ad. gcm_open c key nonce (gcm_seal c key nonce text ad) ad = Some text
        \<and> length (gcm_seal c key nonce text ad) = length text + 16)"

abbreviation nonce_size :: nat where "nonce_size \<equiv> 12"
abbreviation overhead :: nat where "overhead \<equiv> 16"

definition encrypted_credential_prefix :: string where
  "encrypted_credential_prefix = ''enc:v1:''"

abbreviation CredentialPurposeTOTPSecret :: string where
  "CredentialPurposeTOTPSecret \<equiv> ''security.totp.secret''"
abbreviation CredentialPurposeTOTPPending :: string where
  "CredentialPurposeTOTPPending \<equiv> ''security.totp.pending''"
abbreviation CredentialPurposeRecoveryCode :: string where
  "CredentialPurposeRecoveryCode \<equiv> ''security.recovery-code''"

text \<open>The two package variables are set together: no key, or the key of the installed cipher.\<close>

type_synonym credential_state = "string option"

datatype credential_error =
    CredentialKeyLength
  | CredentialPurposeEmpty
  | CredentialNotConfigured
  | CredentialNonce
  | ErrCredentialNotEncrypted
  | CredentialDecode
  | CredentialTruncated
  | CredentialAuthentication

definition configure_credential_key ::
  "string \<Rightarrow> credential_state \<Rightarrow> (credential_error + unit) \<times> credential_state" where
  "configure_credential_key key st =
     (if length key \<noteq> 32 then (Inl CredentialKeyLength, st) else (Inr (), Some key))"

definition credential_cipher_ready :: "credential_state \<Rightarrow> bool" where
  "credential_cipher_ready st \<longleftrightarrow> st \<noteq> None"

definition derive_credential_subkey :: "crypto \<Rightarrow> credential_state \<Rightarrow> string \<Rightarrow> credential_error + string" where
  "derive_credential_subkey c st purpose =
     (let p = trim_space purpose in
      if p = [] then Inl CredentialPurposeEmpty
      else (case st of
          None \<Rightarrow> Inl CredentialNotConfigured
        | Some key \<Rightarrow>
            if length key \<noteq> 32 then Inl CredentialNotConfigured
            else Inr (hmac_sha256 c key (''oneinstack:credential-subkey:v1:'' @ p))))"

definition is_encrypted_credential :: "string \<Rightarrow> bool" where
  "is_encrypted_credential value = has_prefix value encrypted_credential_prefix"

text \<open>\<open>nonce\<close> is what the random source gave, \<open>None\<close> if reading it failed.\<close>

definition encrypt_credential ::
  "crypto \<Rightarrow> credential_state \<Rightarrow> string option \<Rightarrow> string \<Rightarrow> string \<Rightarrow> credential_error + string" where
  "encrypt_credential c st nonce value purpose =
     (if value = [] then Inr []
      else (case st of
          None \<Rightarrow> Inl CredentialNotConfigured
        | Some key \<Rightarrow>
            (case nonce of
               None \<Rightarrow> Inl CredentialNonce
             | Some n \<Rightarrow>
                 Inr (encrypted_credential_prefix @ raw_url_encode (n @ gcm_seal c key n value purpose)))))"

definition decrypt_credential ::
  "crypto \<Rightarrow> credential_state \<Rightarrow> string \<Rightarrow> string \<Rightarrow> credential_error + string" where
  "decrypt_credential c st value purpose =
     (if value = [] then Inr []
      else if \<not> is_encrypted_credential value then Inl ErrCredentialNotEncrypted
      else (case st of
          None \<Rightarrow> Inl CredentialNotConfigured
        | Some key \<Rightarrow>
            (case raw_url_decode (drop (length encrypted_credential_prefix) value) of
               None \<Rightarrow> Inl CredentialDecode
             | Some payload \<Rightarrow>
                 if length payload < nonce_size + overhead then Inl CredentialTruncated
                 else (case gcm_open c key (take nonce_size payload) (drop nonce_size payload) purpose of
                     None \<Rightarrow> Inl CredentialAuthentication
                   | Some text \<Rightarrow> Inr text))))"

lemma decrypt_encrypt:
  assumes "aead_inverts c" and "length n = nonce_size"
    and "encrypt_credential c (Some key) (Some n) value purpose = Inr e"
  shows "decrypt_credential c (Some key) e purpose = Inr value"
proof (cases "value = []")
  case True
  with assms(3) show ?thesis by (simp add: encrypt_credential_def decrypt_credential_def)
next
  case False
  let ?ct = "gcm_seal c key n value purpose"
  have e: "e = encrypted_credential_prefix @ raw_url_encode (n @ ?ct)"
    using assms(3) False by (simp add: encrypt_credential_def)
  have ct: "length ?ct = length value + 16" "gcm_open c key n ?ct purpose = Some value"
    using assms(1) by (simp_all add: aead_inverts_def)
  have "e \<noteq> []" "is_encrypted_credential e"
    by (simp_all add: e is_encrypted_credential_def encrypted_credential_prefix_def)
  then show ?thesis
    using ct assms(2) False by (auto simp: decrypt_credential_def e raw_url_round_trip)
qed

text \<open>
  C29: Stored credentials come back.  With a key installed by \<open>ConfigureCredentialKey\<close> and a
  full nonce, encrypting a value succeeds, the result decrypts under the same purpose to
  that value, and it is recognisably encrypted unless the value was empty; a stored value
  without the prefix is never accepted as plaintext.
\<close>

theorem credential_round_trip:
  assumes "aead_inverts c" and "configure_credential_key key st = (Inr (), st')"
    and "length n = nonce_size"
  shows "\<exists>e. encrypt_credential c st' (Some n) value purpose = Inr e
      \<and> decrypt_credential c st' e purpose = Inr value
      \<and> (value \<noteq> [] \<longrightarrow> is_encrypted_credential e)
      \<and> (plain \<noteq> [] \<and> \<not> is_encrypted_credential plain
           \<longrightarrow> decrypt_credential c st' plain purpose = Inl ErrCredentialNotEncrypted)"
proof -
  have st: "st' = Some key" using assms(2) by (simp add: configure_credential_key_def split: if_splits)
  obtain e where e: "encrypt_credential c st' (Some n) value purpose = Inr e"
    by (cases "value = []") (simp_all add: encrypt_credential_def st)
  moreover have "value \<noteq> [] \<longrightarrow> is_encrypted_credential e"
    using e by (auto simp: encrypt_credential_def st is_encrypted_credential_def split: if_splits)
  ultimately show ?thesis
    using decrypt_encrypt [OF assms(1,3)] by (simp add: st decrypt_credential_def)
qed

text \<open>A cipher with the documented shape, for examples: the text and sixteen bytes.\<close>

definition demo_crypto :: crypto where
  "demo_crypto =
     \<lparr>gcm_seal = (\<lambda>_ _ text _. text @ replicate 16 CHR 0x00),
      gcm_open = (\<lambda>_ _ ct _. Some (take (length ct - 16) ct)),
      hmac_sha256 = (\<lambda>key text. text), hmac_sha1 = (\<lambda>key text. replicate 20 CHR 0x00)\<rparr>"

lemma demo_crypto_inverts: "aead_inverts demo_crypto"
  by (simp add: aead_inverts_def demo_crypto_def)

theorem credential_round_trip_witness:
  "\<exists>e. encrypt_credential demo_crypto (Some (replicate 32 CHR ''k'')) (Some (replicate 12 CHR ''n''))
       ''secret'' ''storage.password'' = Inr e
     \<and> decrypt_credential demo_crypto (Some (replicate 32 CHR ''k'')) e ''storage.password'' = Inr ''secret''"
proof -
  have "configure_credential_key (replicate 32 CHR ''k'') None = (Inr (), Some (replicate 32 CHR ''k''))"
    by (simp add: configure_credential_key_def)
  from credential_round_trip [OF demo_crypto_inverts this, of "replicate 12 CHR ''n''" "''secret''"]
  show ?thesis by auto
qed

end
