(* ===== verification/Format.thy ===== *)
theory Format
  imports Prelude
begin

text \<open>
  Numbers as text: the decimal and hexadecimal output of packages \<open>fmt\<close>, \<open>strconv\<close> and
  \<open>encoding/hex\<close>, and that a printed number can be read back.
\<close>

text \<open>Decimal and hexadecimal output of \<open>fmt.Sprintf\<close>.\<close>

definition digit_char :: "nat \<Rightarrow> char" where
  "digit_char d = ''0123456789abcdef'' ! d"

fun decimal :: "nat \<Rightarrow> string" where
  "decimal n = (if n < 10 then [digit_char n] else decimal (n div 10) @ [digit_char (n mod 10)])"

declare decimal.simps [simp del]

definition format_int :: "int \<Rightarrow> string" where
  "format_int i = (if i < 0 then ''-'' @ decimal (nat (- i)) else decimal (nat i))"

definition format_hex :: "string \<Rightarrow> string" where
  "format_hex s = concat (map (\<lambda>c. [digit_char (ord c div 16), digit_char (ord c mod 16)]) s)"

lemma digit_char_decimal: "d < 10 \<Longrightarrow> digit_char d \<in> set ''0123456789''"
  unfolding digit_char_def by (auto simp: less_Suc_eq numeral_eq_Suc)

lemma decimal_digits: "set (decimal n) \<subseteq> set ''0123456789''"
proof (induction n rule: decimal.induct)
  case (1 n)
  show ?case
    using 1 digit_char_decimal [of n] digit_char_decimal [of "n mod 10"]
    by (subst decimal.simps) auto
qed

lemma length_decimal: "n < 10 ^ k \<Longrightarrow> 0 < k \<Longrightarrow> length (decimal n) \<le> k"
proof (induction k arbitrary: n)
  case (Suc k)
  show ?case
  proof (cases "n < 10")
    case True
    then show ?thesis by (subst decimal.simps) simp
  next
    case False
    then have "k \<noteq> 0" using Suc.prems by (cases k) auto
    moreover have "n div 10 < 10 ^ k" using Suc.prems by (simp add: less_mult_imp_div_less mult.commute)
    ultimately have "length (decimal (n div 10)) \<le> k" using Suc.IH by blast
    then show ?thesis using False by (subst decimal.simps) simp
  qed
qed simp

text \<open>A printed number ends where its digits end, and is read back in one way.\<close>

fun of_digits :: "string \<Rightarrow> nat" where
  "of_digits ds = foldl (\<lambda>n c. 10 * n + (ord c - 48)) 0 ds"

lemma digit_char_ord: "d < 10 \<Longrightarrow> of_char (digit_char d) = 48 + d"
  unfolding digit_char_def by (auto simp: less_Suc_eq numeral_eq_Suc)

lemma of_digits_decimal: "of_digits (decimal n) = n"
proof (induction n rule: decimal.induct)
  case (1 n)
  show ?case
  proof (cases "n < 10")
    case False
    then show ?thesis using 1 by (subst decimal.simps) (simp add: digit_char_ord)
  qed (subst decimal.simps, simp add: digit_char_ord)
qed

lemma decimal_inject [simp]: "decimal m = decimal n \<longleftrightarrow> m = n"
  by (metis of_digits_decimal)

abbreviation digit :: "char \<Rightarrow> bool" where
  "digit c \<equiv> c \<in> set ''0123456789''"

lemma digits_end:
  assumes "set xs \<subseteq> set ''0123456789''" "set ys \<subseteq> set ''0123456789''" "\<not> digit c" "\<not> digit d"
  shows "xs @ c # r = ys @ d # r' \<longleftrightarrow> xs = ys \<and> c = d \<and> r = r'"
proof
  assume eq: "xs @ c # r = ys @ d # r'"
  have "takeWhile digit (xs @ c # r) = xs" "takeWhile digit (ys @ d # r') = ys"
    using assms by (auto simp: takeWhile_append2 subset_iff)
  then show "xs = ys \<and> c = d \<and> r = r'" using eq by auto
qed simp

lemma decimal_end [simp]:
  "\<not> digit c \<Longrightarrow> \<not> digit d \<Longrightarrow> decimal m @ c # r = decimal n @ d # r' \<longleftrightarrow> m = n \<and> c = d \<and> r = r'"
  by (simp add: digits_end [OF decimal_digits decimal_digits] del: set_simps)

lemma decimal_not_Nil: "decimal n \<noteq> []"
  by (subst decimal.simps) simp

lemma format_int_end [simp]:
  assumes "\<not> digit c" "\<not> digit d"
  shows "format_int i @ c # r = format_int j @ d # r' \<longleftrightarrow> i = j \<and> c = d \<and> r = r'"
proof -
  have m: "\<not> digit (CHR ''-'')" by simp
  have hd: "\<exists>d ds. decimal n = d # ds \<and> digit d" for n
    using decimal_not_Nil [of n] decimal_digits [of n] by (cases "decimal n") auto
  have neq: "CHR ''-'' # xs \<noteq> decimal n @ ys" for xs ys n
    using hd [of n] m by auto
  then show ?thesis
    unfolding format_int_def using assms neq [symmetric] by (auto simp del: set_simps)
qed

end
