(* ===== verification/Operation_Preview.thy ===== *)
theory Operation_Preview
  imports Once Credential Format
begin

text \<open>
  Operation previews (\<open>internal/services/operationpreview/service.go\<close>,
  \<open>internal/models/operation_preview.go\<close>): a short-lived authorization, bound to a user and a
  payload, that may be consumed once.  The JSON codec, SHA-256 and the primitives and key of
  the credential cipher are the fields of a record \<open>preview_codec\<close>.
\<close>

section \<open>Data\<close>

record preview_review =
  pr_required :: bool
  pr_risk_level :: string
  pr_reason :: string

record file_change =
  fc_path :: string
  fc_action :: string
  fc_change_summary :: string
  fc_diff :: string

record preview_action =
  pa_type :: string
  pa_name :: string
  pa_display_command :: string
  pa_service :: string

record precheck =
  pc_name :: string
  pc_status :: string
  pc_message :: string

record impact =
  im_write_files :: bool
  im_modify_database :: bool
  im_restart_service :: bool
  im_reload_service :: bool
  im_network_risk :: bool

record rollback =
  rb_supported :: bool
  rb_summary :: string
  rb_unrecoverable :: "string list"

record document =
  doc_preview_id :: string
  doc_operation :: string
  doc_review :: preview_review
  doc_files :: "file_change list"
  doc_actions :: "preview_action list"
  doc_prechecks :: "precheck list"
  doc_impact :: impact
  doc_rollback :: rollback
  doc_expires_at :: time

record operation_preview =
  op_id :: string
  op_operation :: string
  op_user_id :: int
  op_request_hash :: string
  op_resource_version :: string
  op_encrypted_payload :: string
  op_preview_json :: string
  op_expires_at :: time
  op_consumed_at :: "time option"
  op_created_at :: time

type_synonym preview_db = "operation_preview list"

text \<open>
  \<open>'v\<close> is the type of a decoded JSON value; a codec function returns \<open>None\<close> where the
  library returns an error.
\<close>

record 'v preview_codec =
  json_unmarshal :: "string \<Rightarrow> 'v option"
  json_is_object :: "'v \<Rightarrow> bool"
  json_marshal :: "'v \<Rightarrow> string option"
  sha256_hex :: "string \<Rightarrow> string"
  cd_crypto :: crypto
  cd_key :: credential_state
  marshal_document :: "document \<Rightarrow> string option"
  unmarshal_document :: "string \<Rightarrow> document option"

datatype preview_error =
    PreviewNoDatabase
  | PreviewMissingField
  | PreviewBadJSON
  | PreviewNotObject
  | PreviewEncoding
  | PreviewNoCipher
  | PreviewEncrypt
  | PreviewDecrypt
  | PreviewDecoding
  | PreviewEngine
  | ErrPreviewNotFound
  | ErrPreviewExpired
  | ErrPreviewConsumed

type_synonym 'a preview_act = "(preview_db, preview_error, 'a) act"

definition credential_purpose :: string where
  "credential_purpose = ''operation-preview.payload''"

definition default_ttl :: int where
  "default_ttl = 5 * 60 * second"

section \<open>Operations\<close>

definition normalize_payload :: "'v preview_codec \<Rightarrow> string \<Rightarrow> preview_error + string \<times> string" where
  "normalize_payload cd payload =
     (let p = (if length payload = 0 then ''{}'' else payload) in
      case json_unmarshal cd p of
        None \<Rightarrow> Inl PreviewBadJSON
      | Some v \<Rightarrow>
          if \<not> json_is_object cd v then Inl PreviewNotObject
          else (case json_marshal cd v of
              None \<Rightarrow> Inl PreviewEncoding
            | Some normalized \<Rightarrow> Inr (normalized, sha256_hex cd normalized)))"

definition insert_preview :: "operation_preview \<Rightarrow> preview_db \<Rightarrow> preview_db option" where
  "insert_preview r db = (if op_id r \<in> op_id ` set db then None else Some (db @ [r]))"

definition create_preview ::
  "'v preview_codec \<Rightarrow> string option \<Rightarrow> time \<Rightarrow> string \<Rightarrow> string \<Rightarrow> int \<Rightarrow> string \<Rightarrow> document \<Rightarrow> string
     \<Rightarrow> document preview_act" where
  "create_preview cd nonce now uuid operation uid payload doc resource_version =
     guard_db PreviewNoDatabase
      (let oper = trim_space operation in
       if oper = [] \<or> uid \<le> 0 then throw PreviewMissingField
       else (case normalize_payload cd payload of
           Inl e \<Rightarrow> throw e
         | Inr (normalized, digest) \<Rightarrow>
             if \<not> credential_cipher_ready (cd_key cd) then throw PreviewNoCipher
             else (case encrypt_credential (cd_crypto cd) (cd_key cd) nonce normalized credential_purpose of
                 Inl _ \<Rightarrow> throw PreviewEncrypt
               | Inr encrypted \<Rightarrow>
                   let d = doc\<lparr>doc_preview_id := uuid, doc_operation := oper,
                               doc_expires_at := now + default_ttl\<rparr> in
                   (case marshal_document cd d of
                      None \<Rightarrow> throw PreviewEncoding
                    | Some preview_json \<Rightarrow>
                        bnd (insert_row PreviewEngine (insert_preview
                          \<lparr>op_id = uuid, op_operation = oper, op_user_id = uid, op_request_hash = digest,
                           op_resource_version = trim_space resource_version,
                           op_encrypted_payload = encrypted, op_preview_json = preview_json,
                           op_expires_at = doc_expires_at d, op_consumed_at = None,
                           op_created_at = now\<rparr>)) (\<lambda>_. ret d)))))"

abbreviation owned :: "string \<Rightarrow> int \<Rightarrow> operation_preview \<Rightarrow> bool" where
  "owned i uid r \<equiv> op_id r = trim_space i \<and> op_user_id r = uid"

text \<open>
  \<open>Consume\<close> reads and tests the row and decodes it, then claims it with one conditional
  UPDATE; the two halves are separate because other requests can run between them.
\<close>

definition consume_check ::
  "'v preview_codec \<Rightarrow> time \<Rightarrow> string \<Rightarrow> int \<Rightarrow> (operation_preview \<times> document \<times> string) preview_act" where
  "consume_check cd now i uid =
     guard_db PreviewNoDatabase
      (bnd (query PreviewEngine (find (owned i uid))) (\<lambda>found.
       case found of
         None \<Rightarrow> throw ErrPreviewNotFound
       | Some r \<Rightarrow>
           if op_consumed_at r \<noteq> None then throw ErrPreviewConsumed
           else if \<not> op_expires_at r > now then throw ErrPreviewExpired
           else (case unmarshal_document cd (op_preview_json r) of
               None \<Rightarrow> throw PreviewDecoding
             | Some doc \<Rightarrow>
                 (case decrypt_credential (cd_crypto cd) (cd_key cd) (op_encrypted_payload r) credential_purpose of
                    Inl _ \<Rightarrow> throw PreviewDecrypt
                  | Inr decrypted \<Rightarrow> ret (r, doc, decrypted)))))"

abbreviation unclaimed :: "string \<Rightarrow> operation_preview \<Rightarrow> bool" where
  "unclaimed i r \<equiv> op_id r = i \<and> op_consumed_at r = None"

definition consume_claim ::
  "time \<Rightarrow> operation_preview \<times> document \<times> string
     \<Rightarrow> (string \<times> string \<times> document \<times> string) preview_act" where
  "consume_claim now x =
     (case x of (r, doc, decrypted) \<Rightarrow>
        bnd (exec PreviewEngine (\<lambda>db.
          (length (filter (unclaimed (op_id r)) db),
           upd_where (unclaimed (op_id r)) (\<lambda>q. q\<lparr>op_consumed_at := Some now\<rparr>) db))) (\<lambda>affected.
        if affected \<noteq> 1 then throw ErrPreviewConsumed
        else ret (op_operation r, decrypted, doc, op_resource_version r)))"

definition consume ::
  "'v preview_codec \<Rightarrow> time \<Rightarrow> string \<Rightarrow> int \<Rightarrow> (string \<times> string \<times> document \<times> string) preview_act" where
  "consume cd now i uid = bnd (consume_check cd now i uid) (consume_claim now)"

definition peek :: "time \<Rightarrow> string \<Rightarrow> int \<Rightarrow> (string \<times> string) preview_act" where
  "peek now i uid =
     guard_db PreviewNoDatabase
      (bnd (query PreviewEngine (find (owned i uid))) (\<lambda>found.
       case found of
         None \<Rightarrow> throw ErrPreviewNotFound
       | Some r \<Rightarrow>
           if op_consumed_at r \<noteq> None then throw ErrPreviewConsumed
           else if \<not> op_expires_at r > now then throw ErrPreviewExpired
           else ret (op_operation r, op_resource_version r)))"

section \<open>Single use\<close>

definition consumed :: "preview_db \<Rightarrow> string \<Rightarrow> bool" where
  "consumed db i \<longleftrightarrow> (\<exists>r \<in> set db. op_id r = i) \<and> (\<forall>r \<in> set db. op_id r = i \<longrightarrow> op_consumed_at r \<noteq> None)"

datatype 'v preview_op =
    CreatePreview "'v preview_codec" "string option" time string string int string document string
  | CheckPreview "'v preview_codec" time string int
  | PeekPreview time string int

fun preview_step :: "'v preview_op \<Rightarrow> unit preview_act" where
  "preview_step (CreatePreview cd nonce now uuid operation uid payload doc rv) =
     bnd (create_preview cd nonce now uuid operation uid payload doc rv) (\<lambda>_. ret ())"
| "preview_step (CheckPreview cd now i uid) = bnd (consume_check cd now i uid) (\<lambda>_. ret ())"
| "preview_step (PeekPreview now i uid) = bnd (peek now i uid) (\<lambda>_. ret ())"

type_synonym claim_input = "time \<times> operation_preview \<times> document \<times> string"

definition claim_id :: "claim_input \<Rightarrow> string" where
  "claim_id c = op_id (fst (snd c))"

definition claim_key :: "claim_input \<Rightarrow> string \<times> string \<times> document \<times> string \<Rightarrow> string" where
  "claim_key c _ = claim_id c"

definition claim :: "claim_input \<Rightarrow> (string \<times> string \<times> document \<times> string) preview_act" where
  "claim c = consume_claim (fst c) (snd c)"

lemma claim_Inr:
  assumes "claim c s = (Inr a, s')"
  shows "length (filter (unclaimed (claim_id c)) (tables s)) = 1"
    and "tables s' = upd_where (unclaimed (claim_id c)) (\<lambda>q. q\<lparr>op_consumed_at := Some (fst c)\<rparr>) (tables s)"
  using assms
  by (auto simp: claim_def claim_id_def consume_claim_def bnd_Inr dest!: exec_Inr
      split: prod.splits if_splits)

lemma claim_takes:
  assumes "claim c s = (Inr a, s')"
  shows "\<not> consumed (tables s) (claim_id c) \<and> consumed (tables s') (claim_id c)"
proof -
  note r = claim_Inr [OF assms]
  have "filter (unclaimed (claim_id c)) (tables s) \<noteq> []" using r(1) by (metis length_0_conv zero_neq_one)
  then obtain q where q: "q \<in> set (tables s)" "unclaimed (claim_id c) q"
    unfolding filter_empty_conv by blast
  have "\<not> consumed (tables s) (claim_id c)" using q by (auto simp: consumed_def)
  moreover have "op_consumed_at p \<noteq> None" if "p \<in> set (tables s')" "op_id p = claim_id c" for p
    using that(1) unfolding r(2) by (cases rule: upd_where_cases) (use that(2) in auto)
  moreover have "q\<lparr>op_consumed_at := Some (fst c)\<rparr> \<in> set (tables s')"
    unfolding r(2) using q by (intro upd_where_hit)
  then have "\<exists>q \<in> set (tables s'). op_id q = claim_id c"
    using q(2) by (intro bexI [of _ "q\<lparr>op_consumed_at := Some (fst c)\<rparr>"]) simp_all
  ultimately show ?thesis unfolding consumed_def by blast
qed

lemma consumed_upd:
  assumes "consumed db i"
  shows "consumed (upd_where (unclaimed j) (\<lambda>q. q\<lparr>op_consumed_at := Some t\<rparr>) db) i"
proof -
  let ?f = "\<lambda>q. q\<lparr>op_consumed_at := Some t\<rparr>"
  obtain r where "r \<in> set db" "op_id r = i" "op_consumed_at r \<noteq> None"
    using assms unfolding consumed_def by blast
  then have "r \<in> set (upd_where (unclaimed j) ?f db)" by (intro upd_where_miss) auto
  moreover have "op_consumed_at p \<noteq> None" if "p \<in> set (upd_where (unclaimed j) ?f db)" "op_id p = i" for p
    using that(1) by (cases rule: upd_where_cases) (use that(2) assms in \<open>auto simp: consumed_def\<close>)
  ultimately show ?thesis using \<open>op_id r = i\<close> unfolding consumed_def by blast
qed

lemma claim_keeps_consumed: "keeps (\<lambda>db. consumed db i) (claim c)"
  unfolding claim_def consume_claim_def
  by (cases "snd c") (auto intro!: keeps_bnd keeps_exec keeps_if keeps_ret keeps_throw consumed_upd)

lemma create_preview_keeps_consumed:
  "keeps (\<lambda>db. consumed db i) (create_preview cd nonce now uuid operation uid payload doc rv)"
  unfolding create_preview_def Let_def
  by (intro keeps_rules) (auto simp: insert_preview_def consumed_def split: if_splits)

lemma preview_step_keeps_consumed: "keeps (\<lambda>db. consumed db i) (preview_step x)"
proof (cases x)
  case (CheckPreview cd now j uid)
  then show ?thesis by (simp add: consume_check_def) (intro keeps_rules)
next
  case (PeekPreview now j uid)
  then show ?thesis by (simp add: peek_def) (intro keeps_rules)
qed (simp, intro keeps_bnd keeps_ret create_preview_keeps_consumed)

interpretation preview: once "\<lambda>_. True" consumed claim_key claim preview_step
  by unfold_locales
    (auto simp: claim_key_def keeps_def [of "\<lambda>_. True"] dest: claim_takes
      intro: claim_keeps_consumed preview_step_keeps_consumed)


text \<open>
  C26: A preview is executed at most once.  Take any history in which requests create, check,
  peek at and claim previews in any order and interleaving, with any engine failures: no
  identifier is claimed successfully twice, and none that was consumed before is claimed.
\<close>

theorem preview_single_use:
  "distinct (redeemed claim_key claim preview_step evs s)
   \<and> {i. consumed (tables s) i} \<inter> set (redeemed claim_key claim preview_step evs s) = {}"
  using preview.redeemed_once preview.used_not_redeemed by blast

section \<open>What a preview returns\<close>

lemma find_owned:
  assumes "find (owned i uid) db = Some r" and "distinct (map op_id db)"
  shows "op_id r = trim_space i" "op_user_id r = uid" "r \<in> set db"
    "filter (\<lambda>q. op_id q = op_id r) db = [r]"
proof -
  show *: "op_id r = trim_space i" "op_user_id r = uid" "r \<in> set db"
    using assms(1) by (auto simp: find_Some_iff)
  have "find (\<lambda>q. op_id q = op_id r) db = Some r"
    using find_key_distinct [OF assms(2) *(3)] .
  then show "filter (\<lambda>q. op_id q = op_id r) db = [r]"
    by (rule filter_key_distinct [OF assms(2)])
qed

lemma consume_healthy:
  assumes "find (owned i uid) db = Some r" and "distinct (map op_id db)"
  shows "consume cd now i uid (healthy db) =
    (if op_consumed_at r \<noteq> None then (Inl ErrPreviewConsumed, healthy db)
     else if op_expires_at r \<le> now then (Inl ErrPreviewExpired, healthy db)
     else case unmarshal_document cd (op_preview_json r) of
       None \<Rightarrow> (Inl PreviewDecoding, healthy db)
     | Some doc \<Rightarrow>
        (case decrypt_credential (cd_crypto cd) (cd_key cd) (op_encrypted_payload r) credential_purpose of
           Inl _ \<Rightarrow> (Inl PreviewDecrypt, healthy db)
         | Inr payload \<Rightarrow>
             (Inr (op_operation r, payload, doc, op_resource_version r),
              healthy (upd_where (unclaimed (op_id r)) (\<lambda>q. q\<lparr>op_consumed_at := Some now\<rparr>) db))))"
proof -
  have "filter (unclaimed (op_id r)) db = (if op_consumed_at r = None then [r] else [])"
  proof -
    have "filter (unclaimed (op_id r)) db = filter (\<lambda>q. op_consumed_at q = None) (filter (\<lambda>q. op_id q = op_id r) db)"
      by (simp add: conj_commute)
    then show ?thesis using find_owned(4) [OF assms] by simp
  qed
  then show ?thesis
    using assms(1)
    by (simp add: consume_def consume_check_def consume_claim_def bnd_run split: option.splits sum.splits)
qed

lemma consume_unknown:
  "find (owned i uid) db = None \<Longrightarrow> consume cd now i uid (healthy db) = (Inl ErrPreviewNotFound, healthy db)"
  by (simp add: consume_def consume_check_def bnd_run)

lemma insert_find_owned:
  assumes "op_id r \<notin> op_id ` set db"
  shows "find (owned i uid) (db @ [r])
    = (if op_id r = trim_space i then if op_user_id r = uid then Some r else None
       else find (owned i uid) db)"
  using assms by (induction db) auto

text \<open>
  C28: A preview authorizes what was previewed, once and for five minutes.  When creating a preview
  succeeds on a working engine and the cipher inverts, consuming it by the same user before five
  minutes have passed returns the operation, the payload as it was normalized, the resource
  version, and the document as the decoding of its encoding gives it, which is the same document
  whenever the codec inverts on it, as \<open>encoding/json\<close> does on strings of valid UTF-8; when the
  decoding fails nothing is consumed.  Any other user is told that the preview does not exist, and
  from five minutes on it is expired; in both cases nothing is changed.
\<close>

theorem preview_round_trip:
  assumes "create_preview cd (Some nonce) now uuid operation uid payload doc rv (healthy db) = (Inr d, s)"
    and "aead_inverts (cd_crypto cd)" and "length nonce = 12"
    and "distinct (map op_id db)" and "trim_space uuid = uuid"
  shows "\<exists>normalized json db'. normalize_payload cd payload = Inr (normalized, sha256_hex cd normalized)
    \<and> marshal_document cd d = Some json
    \<and> d = doc\<lparr>doc_preview_id := uuid, doc_operation := trim_space operation, doc_expires_at := now + 5 * 60 * second\<rparr>
    \<and> (u \<noteq> uid \<longrightarrow> consume cd t uuid u s = (Inl ErrPreviewNotFound, s))
    \<and> consume cd t uuid uid s =
        (if t < now + 5 * 60 * second
         then (case unmarshal_document cd json of
                 None \<Rightarrow> (Inl PreviewDecoding, s)
               | Some d' \<Rightarrow> (Inr (trim_space operation, normalized, d', trim_space rv), healthy db'))
         else (Inl ErrPreviewExpired, s))
    \<and> consumed db' uuid"
proof -
  obtain normalized encrypted json where
    n: "normalize_payload cd payload = Inr (normalized, sha256_hex cd normalized)" and
    e: "encrypt_credential (cd_crypto cd) (cd_key cd) (Some nonce) normalized credential_purpose = Inr encrypted" and
    k: "cd_key cd \<noteq> None" and
    d: "d = doc\<lparr>doc_preview_id := uuid, doc_operation := trim_space operation, doc_expires_at := now + default_ttl\<rparr>" and
    j: "marshal_document cd d = Some json" and
    ins: "insert_preview \<lparr>op_id = uuid, op_operation = trim_space operation, op_user_id = uid,
        op_request_hash = sha256_hex cd normalized, op_resource_version = trim_space rv,
        op_encrypted_payload = encrypted, op_preview_json = json, op_expires_at = now + default_ttl,
        op_consumed_at = None, op_created_at = now\<rparr> db = Some (tables s)" and
    s: "s = healthy (tables s)"
    using assms(1)
    by (auto simp: create_preview_def normalize_payload_def bnd_run insert_row_healthy Let_def
        credential_cipher_ready_def split: if_splits sum.splits option.splits)
  define r where "r = \<lparr>op_id = uuid, op_operation = trim_space operation, op_user_id = uid,
        op_request_hash = sha256_hex cd normalized, op_resource_version = trim_space rv,
        op_encrypted_payload = encrypted, op_preview_json = json, op_expires_at = now + default_ttl,
        op_consumed_at = None, op_created_at = now\<rparr>"
  have sel: "op_id r = uuid" "op_user_id r = uid" by (simp_all add: r_def)
  have fresh: "op_id r \<notin> op_id ` set db" and t: "tables s = db @ [r]"
    using ins by (auto simp: insert_preview_def r_def split: if_splits)
  have dist: "distinct (map op_id (tables s))" using assms(4) fresh by (simp add: t)
  have none: "find (owned uuid u) (tables s) = None" if "u \<noteq> uid" for u
    using that insert_find_owned [OF fresh, of uuid u] by (simp add: t assms(5) sel)
  have other: "consume cd t uuid u s = (Inl ErrPreviewNotFound, s)" if "u \<noteq> uid" for u t
    using consume_unknown [OF none [OF that]] s [symmetric] by simp
  have f: "find (owned uuid uid) (tables s) = Some r"
    using insert_find_owned [OF fresh, of uuid uid] by (simp add: t assms(5) sel)
  have dec: "decrypt_credential (cd_crypto cd) (cd_key cd) (op_encrypted_payload r) credential_purpose = Inr normalized"
    using e k decrypt_encrypt [OF assms(2,3)] by (auto simp: r_def)
  have content: "op_consumed_at r = None" "op_expires_at r = now + 5 * 60 * second" "op_operation r = trim_space operation"
    "op_resource_version r = trim_space rv" "op_preview_json r = json"
    by (simp_all add: r_def default_ttl_def)
  let ?db' = "upd_where (unclaimed (op_id r)) (\<lambda>q. q\<lparr>op_consumed_at := Some t\<rparr>) (tables s)"
  have own: "consume cd t uuid uid (healthy (tables s)) =
      (if t < now + 5 * 60 * second
       then (case unmarshal_document cd json of
               None \<Rightarrow> (Inl PreviewDecoding, healthy (tables s))
             | Some d' \<Rightarrow> (Inr (trim_space operation, normalized, d', trim_space rv), healthy ?db'))
       else (Inl ErrPreviewExpired, healthy (tables s)))"
    unfolding consume_healthy [OF f dist] dec content by (cases "unmarshal_document cd json") auto
  have used: "consumed ?db' uuid"
  proof -
    have "op_consumed_at p \<noteq> None" if "p \<in> set ?db'" "op_id p = uuid" for p
      using that(1) by (cases rule: upd_where_cases) (use that(2) in \<open>auto simp: sel\<close>)
    moreover have "r\<lparr>op_consumed_at := Some t\<rparr> \<in> set ?db'" by (rule upd_where_hit) (simp_all add: t content)
    then have "\<exists>p\<in>set ?db'. op_id p = uuid" using sel by (intro bexI [of _ "r\<lparr>op_consumed_at := Some t\<rparr>"]) simp_all
    ultimately show ?thesis unfolding consumed_def by blast
  qed
  show ?thesis
  proof (intro exI conjI)
    show "d = doc\<lparr>doc_preview_id := uuid, doc_operation := trim_space operation, doc_expires_at := now + 5 * 60 * second\<rparr>"
      using d by (simp only: default_ttl_def)
    show "u \<noteq> uid \<longrightarrow> consume cd t uuid u s = (Inl ErrPreviewNotFound, s)" using other by blast
  qed (fact n, fact j, fact own [folded s], fact used)
qed

text \<open>A codec for the demonstration, which inverts on every document: counted strings, in lists of lists.\<close>

definition counted :: "string \<Rightarrow> string" where
  "counted s = decimal (length s) @ CHR '':'' # s"

definition read_counted :: "string \<Rightarrow> (string \<times> string) option" where
  "read_counted inp =
     (case dropWhile digit inp of
        [] \<Rightarrow> None
      | c # rest \<Rightarrow>
          let n = of_digits (takeWhile digit inp) in
          if length rest < n then None else Some (take n rest, drop n rest))"

fun read_all :: "nat \<Rightarrow> string \<Rightarrow> string list option" where
  "read_all 0 inp = (if inp = [] then Some [] else None)"
| "read_all (Suc n) inp =
     (if inp = [] then Some []
      else (case read_counted inp of
              None \<Rightarrow> None
            | Some (s, rest) \<Rightarrow> map_option ((#) s) (read_all n rest)))"

definition write_lines :: "string list \<Rightarrow> string" where
  "write_lines ls = concat (map counted ls)"

definition read_lines :: "string \<Rightarrow> string list option" where
  "read_lines inp = read_all (length inp) inp"

lemma read_counted: "read_counted (counted s @ rest) = Some (s, rest)"
proof -
  have "\<And>c. c \<in> set (decimal (length s)) \<Longrightarrow> digit c" using decimal_digits by blast
  then have "takeWhile digit (counted s @ rest) = decimal (length s)" "dropWhile digit (counted s @ rest) = CHR '':'' # s @ rest"
    by (simp_all add: counted_def takeWhile_append2 dropWhile_append2)
  then show ?thesis unfolding read_counted_def by (simp add: of_digits_decimal del: of_digits.simps)
qed

lemma read_write_lines: "read_lines (write_lines ls) = Some ls"
proof -
  have "length (concat (map counted ls)) \<le> n \<Longrightarrow> read_all n (concat (map counted ls)) = Some ls" for n
  proof (induction n arbitrary: ls)
    case 0
    then show ?case by (cases ls) (auto simp: counted_def)
  next
    case (Suc n)
    show ?case
    proof (cases ls)
      case (Cons l ls')
      have "1 \<le> length (counted l)" by (simp add: counted_def)
      then have "length (concat (map counted ls')) \<le> n" using Suc.prems unfolding Cons by (simp del: length_greater_0_conv)
      then show ?thesis using Suc.IH [of ls'] by (simp add: Cons read_counted) (simp add: counted_def)
    qed simp
  qed
  then show ?thesis by (simp add: read_lines_def write_lines_def)
qed

definition read_int :: "string \<Rightarrow> int" where
  "read_int s = (if take 1 s = ''-'' then - int (of_digits (tl s)) else int (of_digits s))"

lemma read_format_int: "read_int (format_int i) = i"
proof -
  have "take 1 (decimal n) \<noteq> ''-''" for n
    using decimal_not_Nil [of n] decimal_digits [of n] by (cases "decimal n") auto
  then show ?thesis by (simp add: read_int_def format_int_def of_digits_decimal del: of_digits.simps)
qed

definition document_lines :: "document \<Rightarrow> string list list" where
  "document_lines d =
     (let flag = (\<lambda>b. if b then ''1'' else ''0''); i = doc_impact d; v = doc_review d; r = doc_rollback d in
      [[doc_preview_id d, doc_operation d, format_int (doc_expires_at d)], [flag (pr_required v), pr_risk_level v, pr_reason v],
       [flag (im_write_files i), flag (im_modify_database i), flag (im_restart_service i), flag (im_reload_service i), flag (im_network_risk i)],
       [flag (rb_supported r), rb_summary r], rb_unrecoverable r,
       map (\<lambda>f. write_lines [fc_path f, fc_action f, fc_change_summary f, fc_diff f]) (doc_files d),
       map (\<lambda>a. write_lines [pa_type a, pa_name a, pa_display_command a, pa_service a]) (doc_actions d),
       map (\<lambda>p. write_lines [pc_name p, pc_status p, pc_message p]) (doc_prechecks d)])"

fun document_of_lines :: "string list list \<Rightarrow> document option" where
  "document_of_lines [[i, oper, expires], [required, risk, reason], [a, b, c, d, e], [supported, summary], lost, files, actions, prechecks] =
     Some \<lparr>doc_preview_id = i, doc_operation = oper,
       doc_review = \<lparr>pr_required = required = ''1'', pr_risk_level = risk, pr_reason = reason\<rparr>,
       doc_files = map (\<lambda>s. case read_lines s of Some [p, q, r, t] \<Rightarrow> \<lparr>fc_path = p, fc_action = q, fc_change_summary = r, fc_diff = t\<rparr>) files,
       doc_actions = map (\<lambda>s. case read_lines s of Some [p, q, r, t] \<Rightarrow> \<lparr>pa_type = p, pa_name = q, pa_display_command = r, pa_service = t\<rparr>) actions,
       doc_prechecks = map (\<lambda>s. case read_lines s of Some [p, q, r] \<Rightarrow> \<lparr>pc_name = p, pc_status = q, pc_message = r\<rparr>) prechecks,
       doc_impact = \<lparr>im_write_files = a = ''1'', im_modify_database = b = ''1'', im_restart_service = c = ''1'',
         im_reload_service = d = ''1'', im_network_risk = e = ''1''\<rparr>,
       doc_rollback = \<lparr>rb_supported = supported = ''1'', rb_summary = summary, rb_unrecoverable = lost\<rparr>,
       doc_expires_at = read_int expires\<rparr>"
| "document_of_lines _ = None"

lemma record_copies:
  "map (\<lambda>x. \<lparr>fc_path = fc_path x, fc_action = fc_action x, fc_change_summary = fc_change_summary x, fc_diff = fc_diff x\<rparr>) fs = fs"
  "map (\<lambda>x. \<lparr>pa_type = pa_type x, pa_name = pa_name x, pa_display_command = pa_display_command x, pa_service = pa_service x\<rparr>) xs = xs"
  "map (\<lambda>x. \<lparr>pc_name = pc_name x, pc_status = pc_status x, pc_message = pc_message x\<rparr>) ps = ps"
  by (simp_all add: list.map_ident_strong)

lemma document_of_document_lines: "document_of_lines (document_lines d) = Some d"
  by (cases d; cases "doc_review d"; cases "doc_impact d"; cases "doc_rollback d")
    (simp add: document_lines_def Let_def read_write_lines read_format_int comp_def record_copies)

definition demo_codec :: "string preview_codec" where
  "demo_codec =
     \<lparr>json_unmarshal = Some, json_is_object = (\<lambda>_. True), json_marshal = Some, sha256_hex = id,
      cd_crypto = demo_crypto, cd_key = Some (replicate 32 CHR ''k''),
      marshal_document = (\<lambda>d. Some (write_lines (map write_lines (document_lines d)))),
      unmarshal_document = (\<lambda>j. Option.bind (read_lines j) (\<lambda>ls. document_of_lines (map (\<lambda>l. the (read_lines l)) ls)))\<rparr>"

lemma demo_codec_inverts: "marshal_document demo_codec d = Some j \<Longrightarrow> unmarshal_document demo_codec j = Some d"
  by (auto simp: demo_codec_def read_write_lines comp_def document_of_document_lines)

definition demo_doc :: document where
  "demo_doc =
     \<lparr>doc_preview_id = [], doc_operation = [],
      doc_review = \<lparr>pr_required = False, pr_risk_level = ''low'', pr_reason = []\<rparr>,
      doc_files = [\<lparr>fc_path = ''/etc/nginx.conf'', fc_action = ''update'', fc_change_summary = [], fc_diff = ''+x''\<rparr>],
      doc_actions = [], doc_prechecks = [],
      doc_impact = \<lparr>im_write_files = True, im_modify_database = False, im_restart_service = False,
        im_reload_service = True, im_network_risk = False\<rparr>,
      doc_rollback = \<lparr>rb_supported = False, rb_summary = [], rb_unrecoverable = [''traffic'']\<rparr>,
      doc_expires_at = 0\<rparr>"

abbreviation "demo_create \<equiv> create_preview demo_codec (Some (replicate 12 CHR ''n'')) 10 ''p1'' ''nginx.reload'' 4 [] demo_doc [] (healthy [])"

lemma demo_create_preview: "\<exists>d s. demo_create = (Inr d, s)"
  by (simp add: create_preview_def normalize_payload_def demo_codec_def Let_def go_simps bnd_run insert_row_healthy
      insert_preview_def credential_cipher_ready_def encrypt_credential_def)

theorem preview_round_trip_witness:
  "\<exists>d s db'. demo_create = (Inr d, s) \<and> doc_operation d = ''nginx.reload''
     \<and> consume demo_codec 20 ''p1'' 4 s = (Inr (''nginx.reload'', ''{}'', d, []), healthy db')
     \<and> consume demo_codec 20 ''p1'' 5 s = (Inl ErrPreviewNotFound, s)"
proof -
  obtain d s where run: "demo_create = (Inr d, s)" using demo_create_preview by blast
  have 1: "aead_inverts (cd_crypto demo_codec)" "length (replicate 12 CHR ''n'') = 12"
    by (auto simp: demo_codec_def demo_crypto_inverts)
  have 2: "distinct (map op_id [])" and 3: "trim_space ''p1'' = ''p1''" "trim_space ''nginx.reload'' = ''nginx.reload''"
    "trim_space [] = []" by (simp_all add: go_simps)
  have 4: "normalize_payload demo_codec [] = Inr (''{}'', ''{}'')"
    by (simp add: normalize_payload_def demo_codec_def Let_def)
  obtain json db' where "marshal_document demo_codec d = Some json"
    "doc_operation d = ''nginx.reload''" "consume demo_codec 20 ''p1'' 5 s = (Inl ErrPreviewNotFound, s)"
    "consume demo_codec 20 ''p1'' 4 s = (case unmarshal_document demo_codec json of
       None \<Rightarrow> (Inl PreviewDecoding, s) | Some d' \<Rightarrow> (Inr (''nginx.reload'', ''{}'', d', []), healthy db'))"
    using preview_round_trip [OF run 1(1,2) 2 3(1), of 5 20] unfolding 3 4 by auto
  with demo_codec_inverts run show ?thesis by auto
qed

text \<open>
  The authorization check sees what will run.  On a working engine, whenever a preview
  can be consumed, \<open>Peek\<close> at the same time by the same user returns the operation and the
  resource version that consuming it returns; and whenever \<open>Peek\<close> refuses, consuming
  refuses with the same error.  \<open>Peek\<close> changes nothing.
\<close>

theorem peek_agrees_with_consume:
  assumes "distinct (map op_id db)"
  shows "case consume cd now i uid (healthy db) of
      (Inr (oper, payload, doc, rv), _) \<Rightarrow> peek now i uid (healthy db) = (Inr (oper, rv), healthy db)
    | (Inl e, _) \<Rightarrow> (\<forall>x. peek now i uid (healthy db) = (Inl x, healthy db) \<longrightarrow> x = e)
        \<and> snd (peek now i uid (healthy db)) = healthy db"
proof (cases "find (owned i uid) db")
  case None
  then show ?thesis by (simp add: consume_unknown peek_def bnd_run)
next
  case (Some r)
  then show ?thesis
    unfolding consume_healthy [OF Some assms]
    by (auto simp: peek_def bnd_run split: option.splits sum.splits)
qed

theorem peek_agrees_with_consume_witness:
  "case consume demo_codec 0 ''p1'' 4 (healthy []) of
      (Inr (oper, payload, doc, rv), _) \<Rightarrow> peek 0 ''p1'' 4 (healthy []) = (Inr (oper, rv), healthy [])
    | (Inl e, _) \<Rightarrow> snd (peek 0 ''p1'' 4 (healthy [])) = healthy []"
  using peek_agrees_with_consume [where db = "[]" and cd = demo_codec and now = 0 and i = "''p1''" and uid = 4]
  by (auto split: prod.splits sum.splits)

end
