(* ===== verification/Sessions.thy ===== *)
theory Sessions
  imports Access_Data Codec
begin

text \<open>
  Login sessions (\<open>internal/services/security/session.go\<close>, \<open>internal/models/security.go\<close>): the
  server-side record that makes a token revocable.  The tables of the security services are
  one record; users are the rows of \<open>Access_Data\<close>.
\<close>

section \<open>Data\<close>

record user_session =
  us_id :: string
  us_user_id :: int
  us_username :: string
  us_remote_ip :: string
  us_user_agent :: string
  us_security_version :: nat
  us_created_at :: time
  us_last_seen_at :: time
  us_expires_at :: time
  us_revoked_at :: "time option"
  us_revocation_reason :: string
  us_deleted_at :: "time option"

record user_mfa =
  mfa_user_id :: int
  mfa_enabled :: bool
  mfa_secret :: string
  mfa_pending_secret :: string
  mfa_recovery_hashes :: string
  mfa_recovery_generation :: nat
  mfa_last_counter :: int
  mfa_created_at :: time
  mfa_updated_at :: time

record security_db =
  sec_users :: "user_row list"
  sec_mfa :: "user_mfa list"
  sec_sessions :: "user_session list"

datatype session_error =
    SessionUnavailable
  | SessionIdentityRequired
  | SessionRandom
  | SessionEngine
  | ErrSessionNotFound
  | ErrSessionRevoked
  | ErrSessionExpired
  | ErrSessionVersion
  | SessionPanic

type_synonym 'a session_act = "(security_db, session_error, 'a) act"

record new_session =
  ns_user_id :: int
  ns_username :: string
  ns_remote_ip :: string
  ns_user_agent :: string
  ns_security_version :: nat
  ns_expires_at :: time

section \<open>Operations\<close>

text \<open>gorm's soft delete hides a row with a deletion time from every scoped statement.\<close>

abbreviation visible :: "user_session \<Rightarrow> bool" where
  "visible r \<equiv> us_deleted_at r = None"

abbreviation set_sessions :: "(user_session list \<Rightarrow> user_session list) \<Rightarrow> security_db \<Rightarrow> security_db" where
  "set_sessions f db \<equiv> db\<lparr>sec_sessions := f (sec_sessions db)\<rparr>"

definition random_session_id :: "string option \<Rightarrow> session_error + string" where
  "random_session_id random =
     (case random of None \<Rightarrow> Inl SessionRandom | Some value \<Rightarrow> Inr (raw_url_encode value))"

definition stale_session :: "time \<Rightarrow> user_session \<Rightarrow> bool" where
  "stale_session cutoff r \<longleftrightarrow>
     us_expires_at r < cutoff \<or> (case us_revoked_at r of None \<Rightarrow> False | Some t \<Rightarrow> t < cutoff)"

definition insert_session :: "user_session \<Rightarrow> security_db \<Rightarrow> security_db option" where
  "insert_session r db =
     (if us_id r \<in> us_id ` set (sec_sessions db) then None
      else Some (set_sessions (\<lambda>rs. rs @ [r]) db))"

definition create_session ::
  "time \<Rightarrow> string option \<Rightarrow> new_session \<Rightarrow> user_session session_act" where
  "create_session now random input =
     guard_db SessionUnavailable
      (if ns_user_id input \<le> 0 \<or> ns_username input = [] \<or> is_zero (ns_expires_at input)
       then throw SessionIdentityRequired
       else (case random_session_id random of
           Inl e \<Rightarrow> throw e
         | Inr i \<Rightarrow>
             let cutoff = now - 7 * 24 * hour;
                 version = (if ns_security_version input = 0 then 1 else ns_security_version input);
                 record =
                   \<lparr>us_id = i, us_user_id = ns_user_id input, us_username = ns_username input,
                    us_remote_ip = ns_remote_ip input, us_user_agent = ns_user_agent input,
                    us_security_version = version, us_created_at = now, us_last_seen_at = now,
                    us_expires_at = ns_expires_at input, us_revoked_at = None,
                    us_revocation_reason = [], us_deleted_at = None\<rparr>
             in bnd (ignoring (modify SessionEngine
                      (set_sessions (filter (\<lambda>r. \<not> stale_session cutoff r))))) (\<lambda>_.
                bnd (insert_row SessionEngine (insert_session record)) (\<lambda>_.
                ret record))))"

definition validate_session ::
  "time \<Rightarrow> string \<Rightarrow> int \<Rightarrow> nat \<Rightarrow> user_session session_act" where
  "validate_session now i uid version =
     guard_db ErrSessionNotFound
      (if i = [] \<or> uid \<le> 0 then throw ErrSessionNotFound
       else
         bnd (query SessionEngine (\<lambda>db.
           find (\<lambda>r. us_id r = i \<and> us_user_id r = uid \<and> visible r) (sec_sessions db))) (\<lambda>found.
         case found of
           None \<Rightarrow> throw ErrSessionNotFound
         | Some r \<Rightarrow>
             if us_revoked_at r \<noteq> None then throw ErrSessionRevoked
             else if \<not> us_expires_at r > now then throw ErrSessionExpired
             else if us_security_version r \<noteq> (if version = 0 then 1 else version)
               then throw ErrSessionVersion
             else if us_last_seen_at r < now - 5 * 60 * second then
               bnd (ignoring (modify SessionEngine (set_sessions
                 (upd_where (\<lambda>q. us_id q = us_id r \<and> us_revoked_at q = None \<and> visible q)
                   (\<lambda>q. q\<lparr>us_last_seen_at := now\<rparr>))))) (\<lambda>_.
               ret (r\<lparr>us_last_seen_at := now\<rparr>))
             else ret r))"

definition list_active :: "time \<Rightarrow> int \<Rightarrow> user_session list session_act" where
  "list_active now uid =
     guard_db SessionPanic
      (query SessionEngine (\<lambda>db. sort_key (\<lambda>r. - us_last_seen_at r)
        (filter (\<lambda>r. us_user_id r = uid \<and> us_revoked_at r = None \<and> us_expires_at r > now \<and> visible r)
          (sec_sessions db))))"

text \<open>The UPDATE the three revocations share, with the number of rows it changed.\<close>

definition revoke_where :: "time \<Rightarrow> string \<Rightarrow> (user_session \<Rightarrow> bool) \<Rightarrow> nat session_act" where
  "revoke_where now reason p =
     guard_db SessionPanic
      (exec SessionEngine (\<lambda>db.
        (length (filter (\<lambda>r. p r \<and> us_revoked_at r = None \<and> visible r) (sec_sessions db)),
         set_sessions (upd_where (\<lambda>r. p r \<and> us_revoked_at r = None \<and> visible r)
           (\<lambda>r. r\<lparr>us_revoked_at := Some now, us_revocation_reason := reason\<rparr>)) db)))"

definition revoke_session :: "time \<Rightarrow> int \<Rightarrow> string \<Rightarrow> string \<Rightarrow> bool session_act" where
  "revoke_session now uid i reason =
     bnd (revoke_where now reason (\<lambda>r. us_id r = i \<and> us_user_id r = uid)) (\<lambda>n. ret (n > 0))"

definition revoke_others :: "time \<Rightarrow> int \<Rightarrow> string \<Rightarrow> string \<Rightarrow> nat session_act" where
  "revoke_others now uid current reason =
     revoke_where now reason (\<lambda>r. us_user_id r = uid \<and> us_id r \<noteq> current)"

definition revoke_all :: "time \<Rightarrow> int \<Rightarrow> string \<Rightarrow> nat session_act" where
  "revoke_all now uid reason = revoke_where now reason (\<lambda>r. us_user_id r = uid)"

section \<open>Revocation is permanent\<close>

text \<open>No session with this identifier is usable.\<close>

definition dead_session :: "string \<Rightarrow> security_db \<Rightarrow> bool" where
  "dead_session i db \<longleftrightarrow> (\<forall>r \<in> set (sec_sessions db). us_id r = i \<longrightarrow> us_revoked_at r \<noteq> None)"

datatype session_op =
    CreateSession time string new_session
  | ValidateSession time string int nat
  | RevokeSession time int string string
  | RevokeOthers time int string string
  | RevokeAll time int string

fun session_step :: "session_op \<Rightarrow> unit session_act" where
  "session_step (CreateSession now random input) =
     bnd (create_session now (Some random) input) (\<lambda>_. ret ())"
| "session_step (ValidateSession now i uid v) = bnd (validate_session now i uid v) (\<lambda>_. ret ())"
| "session_step (RevokeSession now uid i reason) = bnd (revoke_session now uid i reason) (\<lambda>_. ret ())"
| "session_step (RevokeOthers now uid current reason) =
     bnd (revoke_others now uid current reason) (\<lambda>_. ret ())"
| "session_step (RevokeAll now uid reason) = bnd (revoke_all now uid reason) (\<lambda>_. ret ())"

lemma dead_upd:
  assumes "dead_session i db" and "\<And>r. us_id (f r) = us_id r"
    and "\<And>r. us_revoked_at r \<noteq> None \<Longrightarrow> us_revoked_at (f r) \<noteq> None"
  shows "dead_session i (set_sessions (upd_where p f) db)"
  unfolding dead_session_def
proof (intro ballI impI)
  fix q assume "q \<in> set (sec_sessions (set_sessions (upd_where p f) db))" and q: "us_id q = i"
  then have "q \<in> set (upd_where p f (sec_sessions db))" by simp
  then show "us_revoked_at q \<noteq> None"
    by (cases rule: upd_where_cases) (use assms q in \<open>auto simp: dead_session_def\<close>)
qed

lemma revoke_where_dead: "keeps (dead_session i) (revoke_where now reason p)"
  unfolding revoke_where_def
  by (intro keeps_guard_db keeps_exec) (auto intro!: dead_upd [simplified])

lemma create_session_dead:
  assumes "raw_url_encode random \<noteq> i"
  shows "keeps (dead_session i) (create_session now (Some random) input)"
  unfolding create_session_def Let_def random_session_id_def option.case sum.case
  by (intro keeps_rules) (use assms in \<open>auto simp: dead_session_def insert_session_def split: if_splits\<close>)

lemma validate_session_dead: "keeps (dead_session i) (validate_session now j uid v)"
  unfolding validate_session_def
  by (intro keeps_rules) (auto intro!: dead_upd [simplified])

lemma session_step_dead:
  assumes "\<And>now random input. x = CreateSession now random input \<Longrightarrow> raw_url_encode random \<noteq> i"
  shows "keeps (dead_session i) (session_step x)"
  using assms
  by (cases x)
    (auto simp: revoke_session_def revoke_others_def revoke_all_def
      intro!: keeps_bnd keeps_ret revoke_where_dead create_session_dead validate_session_dead)

lemma revoke_where_Inr:
  "revoke_where now reason p s = (Inr n, s') \<Longrightarrow>
   tables s' = set_sessions (upd_where (\<lambda>r. p r \<and> us_revoked_at r = None \<and> visible r)
     (\<lambda>r. r\<lparr>us_revoked_at := Some now, us_revocation_reason := reason\<rparr>)) (tables s)"
  by (auto simp: revoke_where_def guard_db_Inr dest!: exec_Inr)

lemma revoke_where_kills:
  assumes "revoke_where now reason p s = (Inr n, s')"
    and "distinct (map us_id (sec_sessions (tables s)))"
    and "r \<in> set (sec_sessions (tables s))" and "p r" and "visible r"
  shows "dead_session (us_id r) (tables s')"
  unfolding dead_session_def revoke_where_Inr [OF assms(1)]
proof (intro ballI impI)
  fix q
  assume "q \<in> set (sec_sessions (set_sessions (upd_where (\<lambda>r. p r \<and> us_revoked_at r = None \<and> visible r)
     (\<lambda>r. r\<lparr>us_revoked_at := Some now, us_revocation_reason := reason\<rparr>)) (tables s)))"
    and i: "us_id q = us_id r"
  then have "q \<in> set (upd_where (\<lambda>r. p r \<and> us_revoked_at r = None \<and> visible r)
     (\<lambda>r. r\<lparr>us_revoked_at := Some now, us_revocation_reason := reason\<rparr>) (sec_sessions (tables s)))" by simp
  then show "us_revoked_at q \<noteq> None"
  proof (cases rule: upd_where_cases)
    case kept
    then have "q = r" using assms(2,3) i by (metis distinct_map inj_onD)
    then show ?thesis using kept assms(4,5) by simp
  qed simp
qed

lemma validate_session_Inr:
  assumes "validate_session now i uid v s = (Inr q, s')"
  shows "\<exists>r \<in> set (sec_sessions (tables s)). us_id r = i \<and> us_user_id r = uid \<and> visible r
    \<and> us_revoked_at r = None \<and> us_expires_at r > now
    \<and> us_security_version r = (if v = 0 then 1 else v)"
proof -
  let ?k = "\<lambda>found. case found of
           None \<Rightarrow> throw ErrSessionNotFound
         | Some r \<Rightarrow>
             if us_revoked_at r \<noteq> None then throw ErrSessionRevoked
             else if \<not> us_expires_at r > now then throw ErrSessionExpired
             else if us_security_version r \<noteq> (if v = 0 then 1 else v)
               then throw ErrSessionVersion
             else if us_last_seen_at r < now - 5 * 60 * second then
               bnd (ignoring (modify SessionEngine (set_sessions
                 (upd_where (\<lambda>q. us_id q = us_id r \<and> us_revoked_at q = None \<and> visible q)
                   (\<lambda>q. q\<lparr>us_last_seen_at := now\<rparr>))))) (\<lambda>_.
               ret (r\<lparr>us_last_seen_at := now\<rparr>))
             else ret r"
  have "\<not> (i = [] \<or> uid \<le> 0)"
  proof
    assume "i = [] \<or> uid \<le> 0"
    then have "validate_session now i uid v s = (Inl ErrSessionNotFound, s)"
      unfolding validate_session_def guard_db_def by (simp only: if_True throw_run if_cancel)
    with assms show False by simp
  qed
  then obtain s1 found where
    q: "query SessionEngine (\<lambda>db. find (\<lambda>r. us_id r = i \<and> us_user_id r = uid \<and> visible r) (sec_sessions db)) s
      = (Inr found, s1)" and rest: "?k found s1 = (Inr q, s')"
    using assms unfolding validate_session_def guard_db_Inr by (simp only: if_False bnd_Inr) blast
  have ok: "\<exists>r. found = Some r \<and> us_revoked_at r = None \<and> us_expires_at r > now
      \<and> us_security_version r = (if v = 0 then 1 else v)"
  proof (cases found)
    case (Some r)
    with rest show ?thesis by (simp split: if_splits)
  qed (use rest in simp)
  then obtain r where "found = Some r" by blast
  with query_Inr [OF q] have
    "find (\<lambda>r. us_id r = i \<and> us_user_id r = uid \<and> visible r) (sec_sessions (tables s)) = Some r" by metis
  with ok \<open>found = Some r\<close> show ?thesis by (auto simp: find_Some_iff)
qed

lemma revoked_stays_dead:
  assumes "distinct (map us_id (sec_sessions (tables s)))"
    and "r \<in> set (sec_sessions (tables s))" and "us_user_id r = uid" and "us_deleted_at r = None"
    and "revoke_session now uid (us_id r) reason s = (Inr b, s1)
       \<or> revoke_all now uid reason s = (Inr n, s1)
       \<or> us_id r \<noteq> current \<and> revoke_others now uid current reason s = (Inr n, s1)"
    and "\<forall>t random input. CreateSession t random input \<in> set ops \<longrightarrow> raw_url_encode random \<noteq> us_id r"
  shows "dead_session (us_id r) (tables (run_ops session_step ops (s1\<lparr>fate := fs\<rparr>)))"
proof -
  have "\<exists>p m. revoke_where now reason p s = (Inr m, s1) \<and> p r"
    using assms(3,5) by (auto simp: revoke_session_def revoke_all_def revoke_others_def bnd_Inr)
  then have "dead_session (us_id r) (tables s1)"
    using revoke_where_kills [OF _ assms(1,2) _ assms(4)] by blast
  then have "dead_session (us_id r) (tables (s1\<lparr>fate := fs\<rparr>))" by simp
  then show ?thesis
  proof (rule run_ops_keeps [where I = "dead_session (us_id r)", rotated])
    fix x assume "x \<in> set ops"
    then show "keeps (dead_session (us_id r)) (session_step x)"
      using assms(6) by (intro session_step_dead) blast
  qed
qed

text \<open>
  C30: Revocation is permanent.  Once a session has been revoked, alone, with all others or as
  one of the user's other sessions, no later history of session operations makes it valid
  again, for any claimed user or version and whichever engine calls fail, provided the random
  source does not draw its identifier again.
\<close>

theorem revocation_is_permanent:
  assumes "distinct (map us_id (sec_sessions (tables s)))"
    and "r \<in> set (sec_sessions (tables s))" and "us_user_id r = uid" and "us_deleted_at r = None"
    and "revoke_session now uid (us_id r) reason s = (Inr b, s1)
       \<or> revoke_all now uid reason s = (Inr n, s1)
       \<or> us_id r \<noteq> current \<and> revoke_others now uid current reason s = (Inr n, s1)"
    and "\<forall>t random input. CreateSession t random input \<in> set ops \<longrightarrow> raw_url_encode random \<noteq> us_id r"
  shows "\<exists>e. fst (validate_session later (us_id r) u v (run_ops session_step ops (s1\<lparr>fate := fs\<rparr>))) = Inl e"
proof -
  let ?s = "run_ops session_step ops (s1\<lparr>fate := fs\<rparr>)"
  note dead = revoked_stays_dead [OF assms, of fs]
  obtain x s2 where run: "validate_session later (us_id r) u v ?s = (x, s2)" by fastforce
  show ?thesis
  proof (cases x)
    case (Inr q)
    with run have "validate_session later (us_id r) u v ?s = (Inr q, s2)" by simp
    from validate_session_Inr [OF this] dead show ?thesis
      unfolding dead_session_def by blast
  qed (use run in simp)
qed

definition demo_session :: user_session where
  "demo_session =
     \<lparr>us_id = ''s1'', us_user_id = 4, us_username = ''root'', us_remote_ip = [], us_user_agent = [],
      us_security_version = 1, us_created_at = 0, us_last_seen_at = 0, us_expires_at = 100,
      us_revoked_at = None, us_revocation_reason = [], us_deleted_at = None\<rparr>"

definition demo_security :: security_db where
  "demo_security = \<lparr>sec_users = [], sec_mfa = [], sec_sessions = [demo_session]\<rparr>"

theorem revocation_is_permanent_witness:
  "\<exists>n s1 e. revoke_all 5 4 ''logout'' (healthy demo_security) = (Inr n, s1)
     \<and> fst (validate_session 6 ''s1'' 4 1 (run_ops session_step [ValidateSession 6 ''s1'' 4 1] s1)) = Inl e"
proof -
  obtain n s1 where run: "revoke_all 5 4 ''logout'' (healthy demo_security) = (Inr n, s1)"
    by (simp add: revoke_all_def revoke_where_def)
  have r: "demo_session \<in> set (sec_sessions (tables (healthy demo_security)))"
    and d: "distinct (map us_id (sec_sessions (tables (healthy demo_security))))"
    and v: "us_user_id demo_session = 4" "us_deleted_at demo_session = None" "us_id demo_session = ''s1''"
    by (simp_all add: demo_security_def demo_session_def)
  from revocation_is_permanent [OF d r v(1,2) disjI2 [OF disjI1 [OF run]],
      of "[ValidateSession 6 ''s1'' 4 1]" 6 4 1 "fate s1"]
  have "\<exists>e. fst (validate_session 6 ''s1'' 4 1 (run_ops session_step [ValidateSession 6 ''s1'' 4 1] s1)) = Inl e"
    by (simp add: v)
  with run show ?thesis by blast
qed

end
