(* ===== verification/Mfa.thy ===== *)
theory Mfa
  imports Sessions Credential Once Format
begin

text \<open>
  Multi-factor authentication (\<open>internal/services/security/totp.go\<close>): time-based one-time
  passwords, recovery codes, and the manager that sets them up, verifies logins and disables
  them.  Random bytes and clock readings are arguments; the hash functions, the cipher key,
  base32 decoding, the password check and the JSON form of the list of code hashes are the
  fields of the record \<open>mfa_env\<close>.
\<close>

unbundle bit_operations_syntax

section \<open>Environment and data\<close>

record mfa_env =
  me_crypto :: crypto
  me_key :: credential_state
  b32_decode :: "string \<Rightarrow> string option"
  check_password_hash :: "string \<Rightarrow> string \<Rightarrow> bool"
  marshal_hashes :: "string list \<Rightarrow> string option"
  unmarshal_hashes :: "string \<Rightarrow> string list option"
  path_escape :: "string \<Rightarrow> string"
  me_upper :: casemap

datatype mfa_error =
    MfaEngine
  | MfaNotFound
  | MfaRandom
  | MfaCredential credential_error
  | MfaEncoding
  | MfaDecoding
  | MfaPanic
  | MfaDiverges
  | ErrMFAUnavailable
  | ErrMFAAlreadyEnabled
  | ErrMFANotEnabled
  | ErrInvalidSecondFactor
  | ErrInvalidPassword

type_synonym 'a mfa_act = "(security_db, mfa_error, 'a) act"

definition totp_issuer :: string where
  "totp_issuer = ''Oneinstack Panel''"

abbreviation totp_digits :: nat where "totp_digits \<equiv> 6"
abbreviation totp_period_seconds :: int where "totp_period_seconds \<equiv> 30"
abbreviation recovery_code_count :: nat where "recovery_code_count \<equiv> 10"
abbreviation recovery_code_byte_count :: nat where "recovery_code_byte_count \<equiv> 7"

text \<open>\<open>%06d\<close>\<close>

definition format_six :: "nat \<Rightarrow> string" where
  "format_six n = replicate (6 - length (decimal n)) CHR ''0'' @ decimal n"

definition purpose_for :: "string \<Rightarrow> int \<Rightarrow> string" where
  "purpose_for base uid = base @ '':user:'' @ format_int uid"

section \<open>One-time passwords\<close>

text \<open>\<open>binary.BigEndian.PutUint64(value, uint64(counter))\<close>\<close>

definition be64 :: "int \<Rightarrow> string" where
  "be64 counter = map (\<lambda>k. char_of (nat (counter div 2 ^ (8 * k) mod 256))) (rev [0 ..< 8])"

text \<open>Element \<open>i\<close> of a byte slice; \<open>None\<close> is the panic of an index out of range.\<close>

definition byte_at :: "string \<Rightarrow> nat \<Rightarrow> 32 word option" where
  "byte_at s i = (if i < length s then Some (of_nat (ord (s ! i))) else None)"

text \<open>The dynamic truncation of RFC 4226, on 32-bit words.\<close>

definition truncate_sum :: "string \<Rightarrow> 32 word option" where
  "truncate_sum mac =
     (case byte_at mac (length mac - 1) of
        None \<Rightarrow> None
      | Some l \<Rightarrow>
          let offset = unat (l AND 0x0F) in
          (case (byte_at mac offset, byte_at mac (offset + 1), byte_at mac (offset + 2), byte_at mac (offset + 3)) of
             (Some b0, Some b1, Some b2, Some b3) \<Rightarrow>
               Some (push_bit 24 (b0 AND 0x7F) OR push_bit 16 b1 OR push_bit 8 b2 OR b3)
           | _ \<Rightarrow> None))"

text \<open>\<open>totpAt\<close>: \<open>None\<close> is a panic, \<open>Some (Inl ())\<close> a secret that does not decode.\<close>

definition totp_at :: "mfa_env \<Rightarrow> string \<Rightarrow> int \<Rightarrow> (unit + string) option" where
  "totp_at env secret counter =
     (case b32_decode env (to_upper (me_upper env) (trim_space secret)) of
        None \<Rightarrow> Some (Inl ())
      | Some key \<Rightarrow>
          (case truncate_sum (hmac_sha1 (me_crypto env) key (be64 counter)) of
             None \<Rightarrow> None
           | Some number \<Rightarrow> Some (Inr (format_six (unat number mod 1000000)))))"

text \<open>\<open>Time.Unix\<close>, and Go's division, which rounds towards zero.\<close>

definition unix :: "time \<Rightarrow> int" where
  "unix t = t div second - 62135596800"

definition go_div :: "int \<Rightarrow> int \<Rightarrow> int" where
  "go_div a b = (if a < 0 then - ((- a) div b) else a div b)"

fun try_counters :: "mfa_env \<Rightarrow> string \<Rightarrow> string \<Rightarrow> int list \<Rightarrow> (int \<times> bool) option" where
  "try_counters env secret code [] = Some (0, False)"
| "try_counters env secret code (c # cs) =
     (case totp_at env secret c of
        None \<Rightarrow> None
      | Some (Inl _) \<Rightarrow> try_counters env secret code cs
      | Some (Inr expected) \<Rightarrow>
          if expected = code then Some (c, True) else try_counters env secret code cs)"

definition matching_totp_counter :: "mfa_env \<Rightarrow> string \<Rightarrow> string \<Rightarrow> time \<Rightarrow> (int \<times> bool) option" where
  "matching_totp_counter env secret code at =
     (let code = trim_space code in
      if length code \<noteq> totp_digits then Some (0, False)
      else if list_ex (\<lambda>c. ord c < 48 \<or> ord c > (57::nat)) code then Some (0, False)
      else let counter = go_div (unix at) totp_period_seconds in
        try_counters env secret code [counter - 1, counter, counter + 1])"

definition validate_totp :: "mfa_env \<Rightarrow> string \<Rightarrow> string \<Rightarrow> time \<Rightarrow> bool option" where
  "validate_totp env secret code at = map_option snd (matching_totp_counter env secret code at)"

section \<open>Recovery codes\<close>

text \<open>
  The loop of \<open>generateRecoveryCodes\<close>: attempt \<open>i\<close> reads \<open>random i\<close> (\<open>None\<close> is a failed
  read).  An attempt whose encoding is too short is repeated, so the loop has fuel; ten
  attempts are enough for slices of the size the code reads.
\<close>

fun generate_codes :: "nat \<Rightarrow> (nat \<Rightarrow> string option) \<Rightarrow> nat \<Rightarrow> string list \<Rightarrow> mfa_error + string list" where
  "generate_codes fuel random i codes =
     (if length codes \<ge> recovery_code_count then Inr codes
      else (case fuel of
          0 \<Rightarrow> Inl MfaDiverges
        | Suc fuel' \<Rightarrow>
            (case random i of
               None \<Rightarrow> Inl MfaRandom
             | Some bs \<Rightarrow>
                 let value = base32_encode bs in
                 if length value < 10 then generate_codes fuel' random (i + 1) codes
                 else generate_codes fuel' random (i + 1)
                        (codes @ [take 5 value @ ''-'' @ take 5 (drop 5 value)]))))"

declare generate_codes.simps [simp del]

definition generate_recovery_codes :: "(nat \<Rightarrow> string option) \<Rightarrow> mfa_error + string list" where
  "generate_recovery_codes random = generate_codes recovery_code_count random 0 []"

definition recovery_code_hash :: "mfa_env \<Rightarrow> int \<Rightarrow> string \<Rightarrow> mfa_error + string" where
  "recovery_code_hash env uid code =
     (let c = to_upper (me_upper env) (drop_dashes (trim_space code)) in
      case derive_credential_subkey (me_crypto env) (me_key env)
             (purpose_for CredentialPurposeRecoveryCode uid) of
        Inl e \<Rightarrow> Inl (MfaCredential e)
      | Inr key \<Rightarrow> Inr (format_hex (hmac_sha256 (me_crypto env) key c)))"

fun hash_recovery_codes :: "mfa_env \<Rightarrow> int \<Rightarrow> string list \<Rightarrow> mfa_error + string list" where
  "hash_recovery_codes env uid [] = Inr []"
| "hash_recovery_codes env uid (c # cs) =
     (case recovery_code_hash env uid c of
        Inl e \<Rightarrow> Inl e
      | Inr h \<Rightarrow> (case hash_recovery_codes env uid cs of Inl e \<Rightarrow> Inl e | Inr hs \<Rightarrow> Inr (h # hs)))"

text \<open>\<open>consumeRecoveryCode\<close> removes the first hash equal to the candidate; the candidate is returned too.\<close>

definition consume_recovery_code ::
  "mfa_env \<Rightarrow> int \<Rightarrow> string list \<Rightarrow> string \<Rightarrow> mfa_error + (bool \<times> string list \<times> string)" where
  "consume_recovery_code env uid hashes code =
     (case recovery_code_hash env uid code of
        Inl e \<Rightarrow> Inl e
      | Inr candidate \<Rightarrow>
          if candidate \<in> set hashes then Inr (True, remove1 candidate hashes, candidate)
          else Inr (False, hashes, candidate))"

definition decode_recovery_hashes :: "mfa_env \<Rightarrow> string \<Rightarrow> mfa_error + string list" where
  "decode_recovery_hashes env value =
     (if trim_space value = [] then Inr []
      else (case unmarshal_hashes env value of None \<Rightarrow> Inl MfaDecoding | Some hs \<Rightarrow> Inr hs))"

section \<open>The manager\<close>

text \<open>A pure step that may fail, inside an action; a panic is the error \<open>MfaPanic\<close>.\<close>

definition lift_sum :: "mfa_error + 'a \<Rightarrow> 'a mfa_act" where
  "lift_sum x = (case x of Inl e \<Rightarrow> throw e | Inr a \<Rightarrow> ret a)"

definition lift_cred :: "credential_error + 'a \<Rightarrow> 'a mfa_act" where
  "lift_cred x = (case x of Inl e \<Rightarrow> throw (MfaCredential e) | Inr a \<Rightarrow> ret a)"

definition lift_option :: "mfa_error \<Rightarrow> 'a option \<Rightarrow> 'a mfa_act" where
  "lift_option e x = (case x of None \<Rightarrow> throw e | Some a \<Rightarrow> ret a)"

abbreviation find_mfa :: "int \<Rightarrow> security_db \<Rightarrow> user_mfa option" where
  "find_mfa uid db \<equiv> find (\<lambda>r. mfa_user_id r = uid) (sec_mfa db)"

abbreviation find_user :: "int \<Rightarrow> security_db \<Rightarrow> user_row option" where
  "find_user uid db \<equiv> find (\<lambda>u. user_id u = uid) (sec_users db)"

text \<open>gorm's \<open>Save\<close>: update the row with this primary key, or insert it.\<close>

definition save_mfa :: "time \<Rightarrow> user_mfa \<Rightarrow> security_db \<Rightarrow> security_db" where
  "save_mfa now r db =
     (if mfa_user_id r \<in> mfa_user_id ` set (sec_mfa db)
      then db\<lparr>sec_mfa := upd_where (\<lambda>q. mfa_user_id q = mfa_user_id r) (\<lambda>_. r\<lparr>mfa_updated_at := now\<rparr>) (sec_mfa db)\<rparr>
      else db\<lparr>sec_mfa := sec_mfa db @ [r\<lparr>mfa_created_at := now, mfa_updated_at := now\<rparr>]\<rparr>)"

record security_status =
  st_totp_enabled :: bool
  st_totp_setup_pending :: bool
  st_recovery_codes_remaining :: nat
  st_must_change_password :: bool

definition mfa_status :: "mfa_env \<Rightarrow> int \<Rightarrow> security_status mfa_act" where
  "mfa_status env uid =
     guard_db MfaPanic
      (bnd (query MfaEngine (find_user uid)) (\<lambda>fu.
       case fu of
         None \<Rightarrow> throw MfaNotFound
       | Some user \<Rightarrow>
           bnd (query MfaEngine (find_mfa uid)) (\<lambda>fm.
           case fm of
             None \<Rightarrow> ret \<lparr>st_totp_enabled = False, st_totp_setup_pending = False,
                        st_recovery_codes_remaining = 0,
                        st_must_change_password = user_must_change_password user\<rparr>
           | Some r \<Rightarrow>
               bnd (lift_sum (decode_recovery_hashes env (mfa_recovery_hashes r))) (\<lambda>hashes.
               ret \<lparr>st_totp_enabled = mfa_enabled r, st_totp_setup_pending = mfa_pending_secret r \<noteq> [],
                    st_recovery_codes_remaining = length hashes,
                    st_must_change_password = user_must_change_password user\<rparr>))))"

definition mfa_is_enabled :: "int \<Rightarrow> bool mfa_act" where
  "mfa_is_enabled uid =
     guard_db MfaPanic
      (bnd (query MfaEngine (find_mfa uid)) (\<lambda>fm.
       ret (case fm of None \<Rightarrow> False | Some r \<Rightarrow> mfa_enabled r)))"

text \<open>The zero value of the struct, which \<open>Setup\<close> fills when there is no row.\<close>

definition zero_mfa :: user_mfa where
  "zero_mfa =
     \<lparr>mfa_user_id = 0, mfa_enabled = False, mfa_secret = [], mfa_pending_secret = [],
      mfa_recovery_hashes = [], mfa_recovery_generation = 0, mfa_last_counter = 0,
      mfa_created_at = 0, mfa_updated_at = 0\<rparr>"

text \<open>\<open>url.Values.Encode\<close> writes the keys in order; the issuer's blank is written as plus.\<close>

definition otpauth_uri :: "mfa_env \<Rightarrow> string \<Rightarrow> string \<Rightarrow> string" where
  "otpauth_uri env username secret =
     ''otpauth://totp/'' @ path_escape env (totp_issuer @ '':'' @ username) @ ''?''
     @ ''algorithm=SHA1&digits='' @ decimal totp_digits @ ''&issuer=Oneinstack+Panel&period=''
     @ format_int totp_period_seconds @ ''&secret='' @ secret"

definition mfa_setup ::
  "mfa_env \<Rightarrow> time \<Rightarrow> string option \<Rightarrow> string option \<Rightarrow> int \<Rightarrow> string \<Rightarrow> (string \<times> string) mfa_act" where
  "mfa_setup env now random nonce uid username =
     guard_db MfaPanic
      (bnd (query MfaEngine (find_mfa uid)) (\<lambda>fm.
       let existing = (case fm of None \<Rightarrow> zero_mfa | Some r \<Rightarrow> r) in
       if mfa_enabled existing then throw ErrMFAAlreadyEnabled
       else
         bnd (lift_option MfaRandom random) (\<lambda>bs.
         let secret = base32_encode bs in
         bnd (lift_cred (encrypt_credential (me_crypto env) (me_key env) nonce secret
                (purpose_for CredentialPurposeTOTPPending uid))) (\<lambda>encrypted.
         bnd (modify MfaEngine (save_mfa now (existing\<lparr>mfa_user_id := uid, mfa_enabled := False,
                mfa_pending_secret := encrypted\<rparr>))) (\<lambda>_.
         ret (secret, otpauth_uri env username secret))))))"

definition load_user_and_mfa :: "int \<Rightarrow> (user_row \<times> user_mfa) mfa_act" where
  "load_user_and_mfa uid =
     bnd (query MfaEngine (find_user uid)) (\<lambda>fu.
     case fu of
       None \<Rightarrow> throw MfaNotFound
     | Some user \<Rightarrow>
         bnd (query MfaEngine (find_mfa uid)) (\<lambda>fm.
         case fm of None \<Rightarrow> throw ErrMFAUnavailable | Some r \<Rightarrow> ret (user, r)))"

text \<open>
  The steps \<open>Disable\<close> and \<open>RegenerateRecoveryCodes\<close> begin with: enabled, password, secret
  and a valid one-time password.
\<close>

definition reauthenticate :: "mfa_env \<Rightarrow> time \<Rightarrow> int \<Rightarrow> string \<Rightarrow> string \<Rightarrow> (user_row \<times> user_mfa) mfa_act" where
  "reauthenticate env now uid password code =
     bnd (load_user_and_mfa uid) (\<lambda>(user, r).
     if \<not> mfa_enabled r then throw ErrMFANotEnabled
     else if \<not> check_password_hash env password (user_password user) then throw ErrInvalidPassword
     else
       bnd (lift_cred (decrypt_credential (me_crypto env) (me_key env) (mfa_secret r)
              (purpose_for CredentialPurposeTOTPSecret uid))) (\<lambda>secret.
       bnd (lift_option MfaPanic (validate_totp env secret code now)) (\<lambda>valid.
       if \<not> valid then throw ErrInvalidSecondFactor else ret (user, r))))"

definition new_codes :: "mfa_env \<Rightarrow> (nat \<Rightarrow> string option) \<Rightarrow> int \<Rightarrow> (string list \<times> string list) mfa_act" where
  "new_codes env random uid =
     bnd (lift_sum (generate_recovery_codes random)) (\<lambda>codes.
     bnd (lift_sum (hash_recovery_codes env uid codes)) (\<lambda>hashes.
     ret (codes, hashes)))"

definition mfa_confirm ::
  "mfa_env \<Rightarrow> (nat \<Rightarrow> time) \<Rightarrow> (nat \<Rightarrow> string option) \<Rightarrow> string option \<Rightarrow> int \<Rightarrow> string \<Rightarrow> string
     \<Rightarrow> string list mfa_act" where
  "mfa_confirm env clock random nonce uid password code =
     guard_db MfaPanic
      (transaction MfaEngine
        (bnd (load_user_and_mfa uid) (\<lambda>(user, r).
         if mfa_enabled r then throw ErrMFAAlreadyEnabled
         else if \<not> check_password_hash env password (user_password user) then throw ErrInvalidPassword
         else if mfa_pending_secret r = [] then throw ErrMFAUnavailable
         else
           bnd (lift_cred (decrypt_credential (me_crypto env) (me_key env) (mfa_pending_secret r)
                  (purpose_for CredentialPurposeTOTPPending uid))) (\<lambda>secret.
           bnd (lift_option MfaPanic (validate_totp env secret code (clock 0))) (\<lambda>valid.
           if \<not> valid then throw ErrInvalidSecondFactor
           else
             bnd (new_codes env random uid) (\<lambda>(codes, hashes).
             bnd (lift_cred (encrypt_credential (me_crypto env) (me_key env) nonce secret
                    (purpose_for CredentialPurposeTOTPSecret uid))) (\<lambda>encrypted.
             bnd (lift_option MfaEncoding (marshal_hashes env hashes)) (\<lambda>encoded.
             bnd (modify MfaEngine (save_mfa (clock 1) (r\<lparr>mfa_enabled := True, mfa_secret := encrypted,
                    mfa_pending_secret := [], mfa_recovery_hashes := encoded,
                    mfa_recovery_generation := mfa_recovery_generation r + 1\<rparr>))) (\<lambda>_.
             ret codes)))))))))"

text \<open>Which factor a login used: a one-time password of a time step, or a recovery code's hash.\<close>

datatype factor = ByTOTP int | ByRecovery string

definition login_row :: "int \<Rightarrow> user_mfa \<Rightarrow> bool" where
  "login_row uid r \<longleftrightarrow> mfa_user_id r = uid \<and> mfa_enabled r"

definition advance_counter :: "time \<Rightarrow> int \<Rightarrow> int \<Rightarrow> factor mfa_act" where
  "advance_counter now uid counter =
     bnd (exec MfaEngine (\<lambda>db.
       (length (filter (\<lambda>r. mfa_user_id r = uid \<and> mfa_last_counter r < counter) (sec_mfa db)),
        db\<lparr>sec_mfa := upd_where (\<lambda>r. mfa_user_id r = uid \<and> mfa_last_counter r < counter)
          (\<lambda>r. r\<lparr>mfa_last_counter := counter, mfa_updated_at := now\<rparr>) (sec_mfa db)\<rparr>))) (\<lambda>affected.
     if affected = 1 then ret (ByTOTP counter) else throw ErrInvalidSecondFactor)"

definition spend_recovery_code :: "mfa_env \<Rightarrow> time \<Rightarrow> int \<Rightarrow> user_mfa \<Rightarrow> string \<Rightarrow> factor mfa_act" where
  "spend_recovery_code env now uid r code =
     bnd (lift_sum (decode_recovery_hashes env (mfa_recovery_hashes r))) (\<lambda>hashes.
     bnd (lift_sum (consume_recovery_code env uid hashes code)) (\<lambda>(match, updated, candidate).
     if \<not> match then throw ErrInvalidSecondFactor
     else
       bnd (lift_option MfaEncoding (marshal_hashes env updated)) (\<lambda>encoded.
       bnd (exec MfaEngine (\<lambda>db.
         (length (filter (\<lambda>q. mfa_user_id q = uid \<and> mfa_recovery_hashes q = mfa_recovery_hashes r) (sec_mfa db)),
          db\<lparr>sec_mfa := upd_where (\<lambda>q. mfa_user_id q = uid \<and> mfa_recovery_hashes q = mfa_recovery_hashes r)
            (\<lambda>q. q\<lparr>mfa_recovery_hashes := encoded, mfa_updated_at := now\<rparr>) (sec_mfa db)\<rparr>))) (\<lambda>affected.
       if affected \<noteq> 1 then throw ErrInvalidSecondFactor else ret (ByRecovery candidate)))))"

definition verify_login_factor :: "mfa_env \<Rightarrow> (nat \<Rightarrow> time) \<Rightarrow> int \<Rightarrow> string \<Rightarrow> factor mfa_act" where
  "verify_login_factor env clock uid code =
     guard_db MfaPanic
      (transaction MfaEngine
        (bnd (query MfaEngine (\<lambda>db. find (login_row uid) (sec_mfa db))) (\<lambda>fm.
         case fm of
           None \<Rightarrow> throw ErrMFANotEnabled
         | Some r \<Rightarrow>
             bnd (lift_cred (decrypt_credential (me_crypto env) (me_key env) (mfa_secret r)
                    (purpose_for CredentialPurposeTOTPSecret uid))) (\<lambda>secret.
             bnd (lift_option MfaPanic (matching_totp_counter env secret code (clock 0))) (\<lambda>(counter, valid).
             if valid then advance_counter (clock 1) uid counter
             else spend_recovery_code env (clock 1) uid r code)))))"

text \<open>\<open>VerifyLoginCode\<close> reports only success.\<close>

definition verify_login_code :: "mfa_env \<Rightarrow> (nat \<Rightarrow> time) \<Rightarrow> int \<Rightarrow> string \<Rightarrow> unit mfa_act" where
  "verify_login_code env clock uid code = bnd (verify_login_factor env clock uid code) (\<lambda>_. ret ())"

definition mfa_disable :: "mfa_env \<Rightarrow> (nat \<Rightarrow> time) \<Rightarrow> int \<Rightarrow> string \<Rightarrow> string \<Rightarrow> unit mfa_act" where
  "mfa_disable env clock uid password code =
     guard_db MfaPanic
      (transaction MfaEngine
        (bnd (reauthenticate env (clock 0) uid password code) (\<lambda>(user, r).
         bnd (modify MfaEngine (\<lambda>db. db\<lparr>sec_mfa := upd_where (\<lambda>q. mfa_user_id q = mfa_user_id r)
               (\<lambda>q. q\<lparr>mfa_enabled := False, mfa_secret := [], mfa_pending_secret := [],
                    mfa_recovery_hashes := [], mfa_updated_at := clock 1\<rparr>) (sec_mfa db)\<rparr>)) (\<lambda>_.
         bnd (modify MfaEngine (\<lambda>db. db\<lparr>sec_users := upd_where (\<lambda>u. user_id u = uid)
               (\<lambda>u. u\<lparr>user_security_version := effective_security_version user + 1\<rparr>) (sec_users db)\<rparr>)) (\<lambda>_.
         modify MfaEngine (\<lambda>db. db\<lparr>sec_sessions := upd_where
               (\<lambda>x. us_user_id x = uid \<and> us_revoked_at x = None \<and> us_deleted_at x = None)
               (\<lambda>x. x\<lparr>us_revoked_at := Some (clock 2), us_revocation_reason := ''totp_disabled''\<rparr>)
               (sec_sessions db)\<rparr>))))))"

definition regenerate_recovery_codes ::
  "mfa_env \<Rightarrow> (nat \<Rightarrow> time) \<Rightarrow> (nat \<Rightarrow> string option) \<Rightarrow> int \<Rightarrow> string \<Rightarrow> string \<Rightarrow> string list mfa_act" where
  "regenerate_recovery_codes env clock random uid password code =
     guard_db MfaPanic
      (transaction MfaEngine
        (bnd (reauthenticate env (clock 0) uid password code) (\<lambda>(user, r).
         bnd (new_codes env random uid) (\<lambda>(codes, hashes).
         bnd (lift_option MfaEncoding (marshal_hashes env hashes)) (\<lambda>encoded.
         bnd (modify MfaEngine (save_mfa (clock 1) (r\<lparr>mfa_recovery_hashes := encoded,
                mfa_recovery_generation := mfa_recovery_generation r + 1\<rparr>))) (\<lambda>_.
         ret codes))))))"

end
