(* ===== verification/Mfa_Props.thy ===== *)
theory Mfa_Props
  imports Mfa
begin

text \<open>
  The properties of multi-factor authentication: one-time passwords are six digits and are
  accepted exactly within one step of the clock, no time step serves twice, and generated codes
  have their shape.
\<close>

section \<open>One-time passwords\<close>

lemma format_six_facts:
  assumes "n < 1000000"
  shows "length (format_six n) = 6" and "set (format_six n) \<subseteq> set ''0123456789''"
proof -
  have "length (decimal n) \<le> 6" using length_decimal [of n 6] assms by simp
  then show "length (format_six n) = 6" by (simp add: format_six_def)
  show "set (format_six n) \<subseteq> set ''0123456789''"
    using decimal_digits [of n] by (auto simp: format_six_def)
qed

definition hmac_sha1_size :: "mfa_env \<Rightarrow> bool" where
  "hmac_sha1_size env \<longleftrightarrow> (\<forall>key msg. length (hmac_sha1 (me_crypto env) key msg) = 20)"

lemma truncate_total: "length mac = 20 \<Longrightarrow> truncate_sum mac \<noteq> None"
proof -
  assume len: "length mac = 20"
  let ?l = "of_nat (ord (mac ! 19)) :: 32 word"
  have "?l AND 0x0F \<le> 0x0F" by (rule word_and_le1)
  then have "unat (?l AND 0x0F) \<le> unat (0x0F :: 32 word)" unfolding word_le_nat_alt .
  then have "unat (?l AND 0x0F) \<le> 15" by simp
  then show ?thesis
    using len by (simp add: truncate_sum_def byte_at_def Let_def)
qed

lemma totp_at_cases:
  assumes "hmac_sha1_size env"
  obtains (undecodable) "totp_at env secret c = Some (Inl ())"
  | (code) d where "totp_at env secret c = Some (Inr d)" "length d = 6" "set d \<subseteq> set ''0123456789''"
proof (cases "b32_decode env (to_upper (me_upper env) (trim_space secret))")
  case None
  then show ?thesis using undecodable by (simp add: totp_at_def)
next
  case (Some key)
  have "truncate_sum (hmac_sha1 (me_crypto env) key (be64 c)) \<noteq> None"
    using assms by (intro truncate_total) (simp add: hmac_sha1_size_def)
  then obtain n where "truncate_sum (hmac_sha1 (me_crypto env) key (be64 c)) = Some n" by blast
  with Some show ?thesis using code format_six_facts [of "unat n mod 1000000"] by (simp add: totp_at_def)
qed

lemma try_counters_Some:
  assumes "hmac_sha1_size env"
  shows "\<exists>c b. try_counters env secret code cs = Some (c, b)
    \<and> (b \<longleftrightarrow> (\<exists>k \<in> set cs. totp_at env secret k = Some (Inr code)))
    \<and> (b \<longrightarrow> c \<in> set cs \<and> totp_at env secret c = Some (Inr code))"
proof (induction cs)
  case (Cons k cs)
  show ?case
    by (cases rule: totp_at_cases [OF assms, of secret k]) (use Cons.IH in auto)
qed (auto intro: exI [of _ False])

lemma digits_ok: "set d \<subseteq> set ''0123456789'' \<Longrightarrow> \<not> list_ex (\<lambda>c. ord c < 48 \<or> ord c > (57::nat)) d"
  by (auto simp: list_ex_iff)

text \<open>
  A one-time password is accepted exactly within one step of the clock.  Given that
  HMAC-SHA1 yields 20 bytes, checking a code never indexes outside the digest; the check
  accepts precisely the codes which, trimmed, equal the password of the current time step
  or one of its two neighbours, and it reports a step whose password it is.
\<close>

theorem totp_window:
  assumes "hmac_sha1_size env"
  shows "\<exists>c b. matching_totp_counter env secret code at = Some (c, b)
    \<and> (b \<longleftrightarrow> (\<exists>k. \<bar>k - go_div (unix at) 30\<bar> \<le> 1 \<and> totp_at env secret k = Some (Inr (trim_space code))))
    \<and> (b \<longrightarrow> \<bar>c - go_div (unix at) 30\<bar> \<le> 1 \<and> totp_at env secret c = Some (Inr (trim_space code)))"
proof -
  let ?k = "go_div (unix at) 30" and ?t = "trim_space code"
  have win: "set [?k - 1, ?k, ?k + 1] = {k. \<bar>k - ?k\<bar> \<le> 1}" by auto
  show ?thesis
  proof (cases "length ?t = 6 \<and> \<not> list_ex (\<lambda>c. ord c < 48 \<or> ord c > (57::nat)) ?t")
    case True
    then have m: "matching_totp_counter env secret code at = try_counters env secret ?t [?k - 1, ?k, ?k + 1]"
      by (simp add: matching_totp_counter_def Let_def)
    obtain c b where "try_counters env secret ?t [?k - 1, ?k, ?k + 1] = Some (c, b)"
      "b \<longleftrightarrow> (\<exists>k \<in> {k. \<bar>k - ?k\<bar> \<le> 1}. totp_at env secret k = Some (Inr ?t))"
      "b \<longrightarrow> c \<in> {k. \<bar>k - ?k\<bar> \<le> 1} \<and> totp_at env secret c = Some (Inr ?t)"
      using try_counters_Some [OF assms, of secret ?t "[?k - 1, ?k, ?k + 1]"] unfolding win by blast
    then show ?thesis unfolding m by blast
  next
    case False
    have "totp_at env secret k \<noteq> Some (Inr ?t)" for k
      by (cases rule: totp_at_cases [OF assms, of secret k]) (use False digits_ok in auto)
    moreover have "matching_totp_counter env secret code at = Some (0, False)"
      using False by (auto simp: matching_totp_counter_def Let_def)
    ultimately show ?thesis by (intro exI [of _ 0] exI [of _ False]) simp
  qed
qed

definition demo_env :: mfa_env where
  "demo_env =
     \<lparr>me_crypto = demo_crypto, me_key = Some (replicate 32 CHR ''k''), b32_decode = Some,
      check_password_hash = (=), marshal_hashes = (\<lambda>hs. Some (''h'' @ concat hs)),
      unmarshal_hashes = (\<lambda>_. Some []), path_escape = id, me_upper = id\<rparr>"

lemma demo_env_size: "hmac_sha1_size demo_env"
  by (simp add: hmac_sha1_size_def demo_env_def demo_crypto_def)

theorem totp_window_witness:
  "\<exists>c b. matching_totp_counter demo_env ''S'' ''000000'' 0 = Some (c, b)
     \<and> (b \<longrightarrow> totp_at demo_env ''S'' c = Some (Inr ''000000''))"
  using totp_window [OF demo_env_size, of "''S''" "''000000''" 0] by (auto simp: go_simps)

section \<open>Recovery codes\<close>

lemma length_base32: "length bs = 7 \<Longrightarrow> length (base32_encode bs) = 12"
  by (simp add: base32_encode_def length_encode_raw)

definition code_shape :: "string \<Rightarrow> bool" where
  "code_shape c \<longleftrightarrow> length c = 11 \<and> c ! 5 = CHR ''-''"

lemma generate_codes_total:
  assumes "\<And>i bs. random i = Some bs \<Longrightarrow> length bs = 7" and "\<And>i. random i \<noteq> None"
  shows "length codes \<le> 10 \<Longrightarrow> 10 - length codes \<le> fuel \<Longrightarrow> list_all code_shape codes \<Longrightarrow>
    \<exists>cs. generate_codes fuel random i codes = Inr cs \<and> length cs = 10 \<and> list_all code_shape cs"
proof (induction fuel arbitrary: i codes)
  case 0
  then show ?case by (subst generate_codes.simps) simp
next
  case (Suc fuel)
  obtain bs where bs: "random i = Some bs" "length (base32_encode bs) = 12"
    using assms length_base32 by blast
  show ?case
  proof (cases "length codes = 10")
    case True
    then show ?thesis using Suc.prems by (subst generate_codes.simps) simp
  next
    case False
    let ?v = "base32_encode bs"
    let ?c = "take 5 ?v @ ''-'' @ take 5 (drop 5 ?v)"
    have "code_shape ?c" using bs(2) by (simp add: code_shape_def nth_append)
    then have "\<exists>cs. generate_codes fuel random (i + 1) (codes @ [?c]) = Inr cs \<and> length cs = 10 \<and> list_all code_shape cs"
      using Suc.prems False by (intro Suc.IH) auto
    moreover have "generate_codes (Suc fuel) random i codes = generate_codes fuel random (i + 1) (codes @ [?c])"
      using bs False Suc.prems by (subst generate_codes.simps) (simp add: Let_def)
    ultimately show ?thesis by simp
  qed
qed

text \<open>
  C37: Ten recovery codes.  When the random source answers with the seven bytes asked for, the
  loop ends after ten attempts with ten codes of the form five characters, dash, five
  characters.
\<close>

theorem recovery_codes_generated:
  assumes "\<forall>i. \<exists>bs. random i = Some bs \<and> length bs = 7"
  shows "\<exists>cs. generate_recovery_codes random = Inr cs \<and> length cs = 10
    \<and> (\<forall>c \<in> set cs. length c = 11 \<and> c ! 5 = CHR ''-'')"
proof -
  have "random i = Some bs \<Longrightarrow> length bs = 7" "random i \<noteq> None" for i bs
    using assms [rule_format, of i] by auto
  from generate_codes_total [of random "[]" 10 0, OF this]
  show ?thesis by (auto simp: generate_recovery_codes_def list_all_iff code_shape_def)
qed

theorem recovery_codes_generated_witness:
  "\<exists>cs. generate_recovery_codes (\<lambda>i. Some ''abcdefg'') = Inr cs \<and> length cs = 10"
  using recovery_codes_generated [of "\<lambda>i. Some ''abcdefg''"] by auto

section \<open>No time step serves twice\<close>

definition mfa_keyed :: "security_db \<Rightarrow> bool" where
  "mfa_keyed db \<longleftrightarrow> distinct (map mfa_user_id (sec_mfa db))"

text \<open>The time step is behind the user's stored counter.\<close>

definition step_used :: "security_db \<Rightarrow> int \<times> int \<Rightarrow> bool" where
  "step_used db k \<longleftrightarrow>
     (\<exists>r \<in> set (sec_mfa db). mfa_user_id r = fst k)
     \<and> (\<forall>r \<in> set (sec_mfa db). mfa_user_id r = fst k \<longrightarrow> snd k \<le> mfa_last_counter r)"

lemma lift_keeps [keeps_rules]:
  "keeps I (lift_sum x)" "keeps I (lift_cred y)" "keeps I (lift_option e z)"
  by (auto simp: lift_sum_def lift_cred_def lift_option_def keeps_ret keeps_throw split: sum.splits option.splits)

lemma load_keeps [keeps_rules]: "keeps I (load_user_and_mfa uid)"
  unfolding load_user_and_mfa_def by (intro keeps_rules)

lemma reauthenticate_keeps [keeps_rules]: "keeps I (reauthenticate env now uid password code)"
  unfolding reauthenticate_def by (intro keeps_rules)

lemma new_codes_keeps [keeps_rules]: "keeps I (new_codes env random uid)"
  unfolding new_codes_def by (intro keeps_rules)

lemma load_reads:
  assumes "load_user_and_mfa uid s = (Inr (user, r), s')"
  shows "find_user uid (tables s') = Some user" and "find_mfa uid (tables s') = Some r"
    and "tables s' = tables s"
proof -
  from assms obtain fu s1 fm s2 where
    q1: "query MfaEngine (find_user uid) s = (Inr fu, s1)" and
    q2: "query MfaEngine (find_mfa uid) s1 = (Inr fm, s2)" and
    e: "fu = Some user" "fm = Some r" "s2 = s'"
    unfolding load_user_and_mfa_def bnd_Inr
    by (auto split: option.splits simp: bnd_Inr)
  show "find_user uid (tables s') = Some user" "find_mfa uid (tables s') = Some r" "tables s' = tables s"
    using query_Inr [OF q1] query_Inr [OF q2] e by metis+
qed

lemma upd_keyed:
  "mfa_keyed db \<Longrightarrow> (\<And>r. p r \<Longrightarrow> mfa_user_id (f r) = mfa_user_id r)
   \<Longrightarrow> mfa_keyed (db\<lparr>sec_mfa := upd_where p f (sec_mfa db)\<rparr>)"
  by (simp add: mfa_keyed_def upd_where_def comp_def if_distrib cong: if_cong)

lemma upd_step_used:
  assumes "step_used db k" and "\<And>r. p r \<Longrightarrow> r \<in> set (sec_mfa db)
      \<Longrightarrow> mfa_user_id (f r) = mfa_user_id r \<and> mfa_last_counter r \<le> mfa_last_counter (f r)"
  shows "step_used (db\<lparr>sec_mfa := upd_where p f (sec_mfa db)\<rparr>) k"
proof -
  obtain r where r: "r \<in> set (sec_mfa db)" "mfa_user_id r = fst k"
    using assms(1) unfolding step_used_def by blast
  let ?q = "if p r then f r else r"
  have "?q \<in> set (upd_where p f (sec_mfa db))"
    using r(1) upd_where_hit upd_where_miss by fastforce
  moreover have "mfa_user_id ?q = fst k" using r assms(2) by simp
  moreover have "snd k \<le> mfa_last_counter q"
    if "q \<in> set (upd_where p f (sec_mfa db))" "mfa_user_id q = fst k" for q
    using that(1)
  proof (cases rule: upd_where_cases)
    case (changed r)
    then have "snd k \<le> mfa_last_counter r" "mfa_last_counter r \<le> mfa_last_counter q"
      using assms that(2) unfolding step_used_def by auto
    then show ?thesis by simp
  next
    case kept
    then show ?thesis using assms(1) that(2) unfolding step_used_def by simp
  qed
  ultimately show ?thesis unfolding step_used_def by auto
qed

abbreviation steps_safe :: "int \<times> int \<Rightarrow> security_db \<Rightarrow> bool" where
  "steps_safe k db \<equiv> mfa_keyed db \<and> step_used db k"

lemma save_safe:
  assumes "find_mfa uid db = Some r" and "mfa_user_id r' = uid" and "mfa_last_counter r' = mfa_last_counter r"
  shows "mfa_keyed db \<Longrightarrow> mfa_keyed (save_mfa now r' db)" and "steps_safe k db \<Longrightarrow> step_used (save_mfa now r' db) k"
proof -
  have r: "r \<in> set (sec_mfa db)" "mfa_user_id r = uid" using find_key_in [OF assms(1)] by simp_all
  then have in': "mfa_user_id r' \<in> mfa_user_id ` set (sec_mfa db)" using assms(2) by auto
  show "mfa_keyed (save_mfa now r' db)" if "mfa_keyed db"
    using that in' by (auto simp: save_mfa_def intro!: upd_keyed)
  show "step_used (save_mfa now r' db) k" if safe: "steps_safe k db"
  proof -
    have eq: "save_mfa now r' db = db\<lparr>sec_mfa := upd_where (\<lambda>q. mfa_user_id q = mfa_user_id r')
        (\<lambda>_. r'\<lparr>mfa_updated_at := now\<rparr>) (sec_mfa db)\<rparr>"
      using in' by (simp add: save_mfa_def)
    show ?thesis
      unfolding eq
    proof (rule upd_step_used [OF conjunct2 [OF safe]])
      fix q assume q: "mfa_user_id q = mfa_user_id r'" "q \<in> set (sec_mfa db)"
      have "q = r"
        using q r assms(2) conjunct1 [OF safe] unfolding mfa_keyed_def by (metis distinct_map inj_onD)
      then show "mfa_user_id (r'\<lparr>mfa_updated_at := now\<rparr>) = mfa_user_id q
          \<and> mfa_last_counter q \<le> mfa_last_counter (r'\<lparr>mfa_updated_at := now\<rparr>)"
        using q assms(3) by simp
    qed
  qed
qed

lemma after_load_keeps:
  assumes "\<And>user r. moves (\<lambda>db. I db \<and> find_mfa uid db = Some r) I (f (user, r))"
  shows "keeps I (bnd (load_user_and_mfa uid) f)"
proof (rule keeps_after_read [where R = "\<lambda>a db. find_mfa uid db = Some (snd a)"])
  show "find_mfa uid (tables s') = Some (snd a)" if "load_user_and_mfa uid s = (Inr a, s')" for s a s'
    using that load_reads(2) by (cases a) auto
  show "moves (\<lambda>db. I db \<and> find_mfa uid db = Some (snd a)) I (f a)" for a
    using assms by (cases a) simp
qed (rule load_keeps)

lemma reauthenticate_reads:
  assumes "reauthenticate env now uid password code s = (Inr (user, r), s')"
  shows "find_user uid (tables s') = Some user" and "find_mfa uid (tables s') = Some r"
    and "tables s' = tables s" and "mfa_enabled r" and "check_password_hash env password (user_password user)"
    and "\<exists>secret c. decrypt_credential (me_crypto env) (me_key env) (mfa_secret r)
            (purpose_for CredentialPurposeTOTPSecret uid) = Inr secret
          \<and> matching_totp_counter env secret code now = Some (c, True)"
proof -
  from assms obtain u q s1 where
    l: "load_user_and_mfa uid s = (Inr (u, q), s1)" and
    rest: "(if \<not> mfa_enabled q then throw ErrMFANotEnabled
     else if \<not> check_password_hash env password (user_password u) then throw ErrInvalidPassword
     else
       bnd (lift_cred (decrypt_credential (me_crypto env) (me_key env) (mfa_secret q)
              (purpose_for CredentialPurposeTOTPSecret uid))) (\<lambda>secret.
       bnd (lift_option MfaPanic (validate_totp env secret code now)) (\<lambda>valid.
       if \<not> valid then throw ErrInvalidSecondFactor else ret (u, q)))) s1 = (Inr (user, r), s')"
    unfolding reauthenticate_def bnd_Inr by (auto simp: bnd_Inr)
  have en: "mfa_enabled q" "check_password_hash env password (user_password u)"
    using rest by (auto split: if_splits)
  then have "u = user \<and> q = r \<and> s1 = s' \<and> (\<exists>secret c. decrypt_credential (me_crypto env) (me_key env) (mfa_secret q)
            (purpose_for CredentialPurposeTOTPSecret uid) = Inr secret
          \<and> matching_totp_counter env secret code now = Some (c, True))"
    using rest
    by (auto simp: bnd_Inr lift_cred_def lift_option_def validate_totp_def split: sum.splits option.splits if_splits)
  with load_reads [OF l] en show "find_user uid (tables s') = Some user" "find_mfa uid (tables s') = Some r"
    "tables s' = tables s" "mfa_enabled r" "check_password_hash env password (user_password user)"
    "\<exists>secret c. decrypt_credential (me_crypto env) (me_key env) (mfa_secret r)
            (purpose_for CredentialPurposeTOTPSecret uid) = Inr secret
          \<and> matching_totp_counter env secret code now = Some (c, True)"
    by auto
qed

text \<open>
  What the proofs need of an invariant of the MFA table: it survives saving the row that was
  read or a first row, an update that keeps users and does not move counters back, and any
  change of the other tables.  Every operation of the manager then keeps it.
\<close>

locale mfa_invariant =
  fixes I :: "security_db \<Rightarrow> bool"
  assumes save: "I db \<Longrightarrow> find_mfa uid db = Some r \<Longrightarrow> mfa_user_id r' = uid
      \<Longrightarrow> mfa_last_counter r' = mfa_last_counter r \<Longrightarrow> I (save_mfa now r' db)"
    and save_first: "I db \<Longrightarrow> find_mfa uid db = None \<Longrightarrow> mfa_user_id r' = uid \<Longrightarrow> I (save_mfa now r' db)"
    and upd: "I db \<Longrightarrow> (\<And>r. p r \<Longrightarrow> mfa_user_id (f r) = mfa_user_id r \<and> mfa_last_counter r \<le> mfa_last_counter (f r))
      \<Longrightarrow> I (db\<lparr>sec_mfa := upd_where p f (sec_mfa db)\<rparr>)"
    and users: "I db \<Longrightarrow> I (db\<lparr>sec_users := us\<rparr>)"
    and sessions: "I db \<Longrightarrow> I (db\<lparr>sec_sessions := ss\<rparr>)"
begin

lemma save_read:
  assumes "\<And>r. mfa_user_id (g r) = mfa_user_id r \<and> mfa_last_counter (g r) = mfa_last_counter r"
  shows "moves (\<lambda>db. I db \<and> find_mfa uid db = Some r) I (bnd (modify e (save_mfa now (g r))) (\<lambda>_. ret a))"
proof (rule moves_bnd_last [OF moves_modify keeps_ret])
  fix db assume db: "I db \<and> find_mfa uid db = Some r"
  then show "I db" ..
  have "mfa_user_id r = uid" using db find_key_in [of mfa_user_id uid "sec_mfa db" r] by blast
  then show "I (save_mfa now (g r) db)"
    using db assms [of r] by (intro save [of db uid r]) auto
qed

lemma setup_keeps: "keeps I (mfa_setup env now random nonce uid username)"
  unfolding mfa_setup_def
proof (rule keeps_guard_db, rule keeps_after_read [where R = "\<lambda>fm db. find_mfa uid db = fm"])
  show "find_mfa uid (tables s') = fm" if "query MfaEngine (find_mfa uid) s = (Inr fm, s')" for s fm s'
    using query_Inr [OF that] by simp
  have saved: "I (save_mfa now ((case fm of None \<Rightarrow> zero_mfa | Some r \<Rightarrow> r)\<lparr>mfa_user_id := uid,
      mfa_enabled := False, mfa_pending_secret := e\<rparr>) db)" if "I db" "find_mfa uid db = fm" for db fm e
  proof (cases fm)
    case None
    with that show ?thesis by (intro save_first [of db uid]) simp_all
  next
    case (Some r)
    with that show ?thesis by (intro save [of db uid r]) simp_all
  qed
  show "moves (\<lambda>db. I db \<and> find_mfa uid db = fm) I
      (let existing = (case fm of None \<Rightarrow> zero_mfa | Some r \<Rightarrow> r) in
       if mfa_enabled existing then throw ErrMFAAlreadyEnabled
       else
         bnd (lift_option MfaRandom random) (\<lambda>bs.
         let secret = base32_encode bs in
         bnd (lift_cred (encrypt_credential (me_crypto env) (me_key env) nonce secret
                (purpose_for CredentialPurposeTOTPPending uid))) (\<lambda>encrypted.
         bnd (modify MfaEngine (save_mfa now (existing\<lparr>mfa_user_id := uid, mfa_enabled := False,
                mfa_pending_secret := encrypted\<rparr>))) (\<lambda>_.
         ret (secret, otpauth_uri env username secret)))))" for fm
    unfolding Let_def
    by (intro moves_if moves_throw moves_bnd [OF _ lift_keeps(3)] moves_bnd [OF _ lift_keeps(2)]
        moves_bnd_last [OF moves_modify keeps_ret]) (auto intro: saved)
qed (rule keeps_query)

lemma reauth_then_keeps:
  assumes "\<And>user r. moves (\<lambda>db. I db \<and> find_mfa uid db = Some r) I (f (user, r))"
  shows "keeps I (bnd (reauthenticate env now uid password code) f)"
proof (rule keeps_after_read [where R = "\<lambda>a db. find_mfa uid db = Some (snd a)"])
  show "find_mfa uid (tables s') = Some (snd a)"
    if "reauthenticate env now uid password code s = (Inr a, s')" for s a s'
    using that reauthenticate_reads(2) by (cases a) auto
  show "moves (\<lambda>db. I db \<and> find_mfa uid db = Some (snd a)) I (f a)" for a
    using assms by (cases a) simp
qed (rule reauthenticate_keeps)

lemma confirm_keeps: "keeps I (mfa_confirm env clock random nonce uid password code)"
  unfolding mfa_confirm_def
proof (intro keeps_guard_db keeps_transaction after_load_keeps, unfold prod.case)
  fix user r
  have last: "moves (\<lambda>db. I db \<and> find_mfa uid db = Some r) I
      (bnd (modify MfaEngine (save_mfa (clock 1) (r\<lparr>mfa_enabled := True, mfa_secret := encrypted,
          mfa_pending_secret := [], mfa_recovery_hashes := encoded,
          mfa_recovery_generation := mfa_recovery_generation r + 1\<rparr>))) (\<lambda>_. ret codes))" for encrypted encoded codes
    by (rule save_read) simp
  show "moves (\<lambda>db. I db \<and> find_mfa uid db = Some r) I
     (if mfa_enabled r then throw ErrMFAAlreadyEnabled
         else if \<not> check_password_hash env password (user_password user) then throw ErrInvalidPassword
         else if mfa_pending_secret r = [] then throw ErrMFAUnavailable
         else
           bnd (lift_cred (decrypt_credential (me_crypto env) (me_key env) (mfa_pending_secret r)
                  (purpose_for CredentialPurposeTOTPPending uid))) (\<lambda>secret.
           bnd (lift_option MfaPanic (validate_totp env secret code (clock 0))) (\<lambda>valid.
           if \<not> valid then throw ErrInvalidSecondFactor
           else
             bnd (new_codes env random uid) (\<lambda>(codes, hashes).
             bnd (lift_cred (encrypt_credential (me_crypto env) (me_key env) nonce secret
                    (purpose_for CredentialPurposeTOTPSecret uid))) (\<lambda>encrypted.
             bnd (lift_option MfaEncoding (marshal_hashes env hashes)) (\<lambda>encoded.
             bnd (modify MfaEngine (save_mfa (clock 1) (r\<lparr>mfa_enabled := True, mfa_secret := encrypted,
                    mfa_pending_secret := [], mfa_recovery_hashes := encoded,
                    mfa_recovery_generation := mfa_recovery_generation r + 1\<rparr>))) (\<lambda>_.
             ret codes)))))))"
    by (intro moves_if moves_throw moves_prod last moves_bnd [OF _ lift_keeps(2)] moves_bnd [OF _ lift_keeps(3)]
        moves_bnd [OF _ new_codes_keeps]) simp_all
qed

lemma regenerate_keeps: "keeps I (regenerate_recovery_codes env clock random uid password code)"
  unfolding regenerate_recovery_codes_def
proof (intro keeps_guard_db keeps_transaction reauth_then_keeps, unfold prod.case)
  fix user r
  have last: "moves (\<lambda>db. I db \<and> find_mfa uid db = Some r) I
      (bnd (modify MfaEngine (save_mfa (clock 1) (r\<lparr>mfa_recovery_hashes := encoded,
          mfa_recovery_generation := mfa_recovery_generation r + 1\<rparr>))) (\<lambda>_. ret codes))" for encoded codes
    by (rule save_read) simp
  show "moves (\<lambda>db. I db \<and> find_mfa uid db = Some r) I
     (bnd (new_codes env random uid) (\<lambda>(codes, hashes).
         bnd (lift_option MfaEncoding (marshal_hashes env hashes)) (\<lambda>encoded.
         bnd (modify MfaEngine (save_mfa (clock 1) (r\<lparr>mfa_recovery_hashes := encoded,
                mfa_recovery_generation := mfa_recovery_generation r + 1\<rparr>))) (\<lambda>_.
         ret codes))))"
    by (intro moves_prod last moves_bnd [OF _ lift_keeps(3)] moves_bnd [OF _ new_codes_keeps]) simp_all
qed

lemma disable_keeps: "keeps I (mfa_disable env clock uid password code)"
  unfolding mfa_disable_def
  by (intro keeps_rules) (auto intro!: upd users sessions)

lemma verify_keeps: "keeps I (verify_login_factor env clock uid code)"
  unfolding verify_login_factor_def advance_counter_def spend_recovery_code_def
  by (intro keeps_guard_db keeps_transaction keeps_bnd keeps_query keeps_option keeps_throw keeps_ret keeps_if
      keeps_prod lift_keeps keeps_exec) (auto intro!: upd)

end

lemma save_new:
  fixes r' :: user_mfa
  assumes "find_mfa uid db = None" and "mfa_user_id r' = uid"
  shows "save_mfa now r' db = db\<lparr>sec_mfa := sec_mfa db @ [r'\<lparr>mfa_created_at := now, mfa_updated_at := now\<rparr>]\<rparr>"
    and "uid \<notin> mfa_user_id ` set (sec_mfa db)"
proof -
  show *: "uid \<notin> mfa_user_id ` set (sec_mfa db)" using assms(1) by (auto simp: find_None_iff)
  then show "save_mfa now r' db = db\<lparr>sec_mfa := sec_mfa db @ [r'\<lparr>mfa_created_at := now, mfa_updated_at := now\<rparr>]\<rparr>"
    using assms(2) by (simp add: save_mfa_def)
qed

interpretation keyed_rows: mfa_invariant mfa_keyed
proof
  fix db uid now and r' :: user_mfa
  assume "mfa_keyed db" "find_mfa uid db = None" "mfa_user_id r' = uid"
  then show "mfa_keyed (save_mfa now r' db)"
    using save_new(1) [of uid db r' now] save_new(2) [of uid db r'] by (simp add: mfa_keyed_def)
next
  fix db uid now and r r' :: user_mfa
  assume "mfa_keyed db" "find_mfa uid db = Some r" "mfa_user_id r' = uid" "mfa_last_counter r' = mfa_last_counter r"
  then show "mfa_keyed (save_mfa now r' db)" using save_safe(1) by blast
next
  fix db p and f :: "user_mfa \<Rightarrow> user_mfa"
  assume "mfa_keyed db"
    and f: "\<And>r. p r \<Longrightarrow> mfa_user_id (f r) = mfa_user_id r \<and> mfa_last_counter r \<le> mfa_last_counter (f r)"
  then show "mfa_keyed (db\<lparr>sec_mfa := upd_where p f (sec_mfa db)\<rparr>)"
    by (intro upd_keyed) (use f in blast)+
qed (simp_all add: mfa_keyed_def)

interpretation spent_steps: mfa_invariant "steps_safe k"
proof
  fix db uid now and r' :: user_mfa
  assume safe: "steps_safe k db" and none: "find_mfa uid db = None" and uid: "mfa_user_id r' = uid"
  note n = save_new(1) [OF none uid, of now] save_new(2) [OF none uid]
  have "fst k \<in> mfa_user_id ` set (sec_mfa db)" using safe unfolding step_used_def by (metis image_eqI)
  then have "fst k \<noteq> uid" using n(2) by blast
  then have "step_used (save_mfa now r' db) k" using safe unfolding n(1) step_used_def by (auto simp: uid)
  then show "steps_safe k (save_mfa now r' db)" using safe n by (simp add: mfa_keyed_def uid)
next
  fix db uid now and r r' :: user_mfa
  assume "steps_safe k db" "find_mfa uid db = Some r" "mfa_user_id r' = uid" "mfa_last_counter r' = mfa_last_counter r"
  then show "steps_safe k (save_mfa now r' db)" using save_safe by blast
next
  fix db p and f :: "user_mfa \<Rightarrow> user_mfa"
  assume safe: "steps_safe k db"
    and f: "\<And>r. p r \<Longrightarrow> mfa_user_id (f r) = mfa_user_id r \<and> mfa_last_counter r \<le> mfa_last_counter (f r)"
  have "mfa_keyed (db\<lparr>sec_mfa := upd_where p f (sec_mfa db)\<rparr>)"
    by (rule upd_keyed) (use safe f in blast)+
  moreover have "step_used (db\<lparr>sec_mfa := upd_where p f (sec_mfa db)\<rparr>) k"
    by (rule upd_step_used) (use safe f in blast)+
  ultimately show "steps_safe k (db\<lparr>sec_mfa := upd_where p f (sec_mfa db)\<rparr>)" ..
qed (simp_all add: mfa_keyed_def step_used_def)

text \<open>A login with a one-time password, reported with its time step.\<close>

type_synonym login = "mfa_env \<times> (nat \<Rightarrow> time) \<times> int \<times> string"

fun totp_login :: "login \<Rightarrow> int mfa_act" where
  "totp_login (env, clock, uid, code) =
     bnd (verify_login_factor env clock uid code) (\<lambda>f.
     case f of ByTOTP c \<Rightarrow> ret c | ByRecovery _ \<Rightarrow> throw MfaNotFound)"

fun login_step :: "login \<Rightarrow> int \<Rightarrow> int \<times> int" where
  "login_step (env, clock, uid, code) c = (uid, c)"

datatype mfa_op =
    Setup mfa_env time "string option" "string option" int string
  | Confirm mfa_env "nat \<Rightarrow> time" "nat \<Rightarrow> string option" "string option" int string string
  | Disable mfa_env "nat \<Rightarrow> time" int string string
  | Regenerate mfa_env "nat \<Rightarrow> time" "nat \<Rightarrow> string option" int string string
  | Login mfa_env "nat \<Rightarrow> time" int string

fun mfa_step :: "mfa_op \<Rightarrow> unit mfa_act" where
  "mfa_step (Setup env now random nonce uid name) =
     bnd (mfa_setup env now random nonce uid name) (\<lambda>_. ret ())"
| "mfa_step (Confirm env clock random nonce uid pw code) =
     bnd (mfa_confirm env clock random nonce uid pw code) (\<lambda>_. ret ())"
| "mfa_step (Disable env clock uid pw code) = mfa_disable env clock uid pw code"
| "mfa_step (Regenerate env clock random uid pw code) =
     bnd (regenerate_recovery_codes env clock random uid pw code) (\<lambda>_. ret ())"
| "mfa_step (Login env clock uid code) = verify_login_code env clock uid code"

lemma mfa_step_keyed: "keeps mfa_keyed (mfa_step x)"
  by (cases x) (auto simp: verify_login_code_def intro!: keeps_bnd keeps_ret keyed_rows.setup_keeps
      keyed_rows.confirm_keeps keyed_rows.disable_keeps keyed_rows.regenerate_keeps keyed_rows.verify_keeps)

lemma mfa_step_safe: "keeps (steps_safe k) (mfa_step x)"
  by (cases x) (auto simp: verify_login_code_def intro!: keeps_bnd keeps_ret spent_steps.setup_keeps
      spent_steps.confirm_keeps spent_steps.disable_keeps spent_steps.regenerate_keeps spent_steps.verify_keeps)

lemma factor_keeps [keeps_rules]:
  "(\<And>c. keeps I (f c)) \<Longrightarrow> (\<And>h. keeps I (g h)) \<Longrightarrow> keeps I (case x of ByTOTP c \<Rightarrow> f c | ByRecovery h \<Rightarrow> g h)"
  by (cases x) auto

lemma totp_login_keeps: "keeps mfa_keyed (totp_login x)" "keeps (steps_safe k) (totp_login x)"
  by (cases x; simp; intro keeps_bnd factor_keeps keeps_ret keeps_throw keyed_rows.verify_keeps spent_steps.verify_keeps)+

lemma advance_counter_Inr:
  assumes "advance_counter now uid counter s = (Inr f, s')"
  shows "f = ByTOTP counter"
    and "\<exists>r \<in> set (sec_mfa (tables s)). mfa_user_id r = uid \<and> mfa_last_counter r < counter"
    and "tables s' = (tables s)\<lparr>sec_mfa := upd_where (\<lambda>r. mfa_user_id r = uid \<and> mfa_last_counter r < counter)
          (\<lambda>r. r\<lparr>mfa_last_counter := counter, mfa_updated_at := now\<rparr>) (sec_mfa (tables s))\<rparr>"
proof -
  let ?p = "\<lambda>r. mfa_user_id r = uid \<and> mfa_last_counter r < counter"
  from assms obtain n s1 where
    e: "exec MfaEngine (\<lambda>db. (length (filter ?p (sec_mfa db)),
        db\<lparr>sec_mfa := upd_where ?p (\<lambda>r. r\<lparr>mfa_last_counter := counter, mfa_updated_at := now\<rparr>) (sec_mfa db)\<rparr>)) s
      = (Inr n, s1)" and
    r: "(if n = 1 then ret (ByTOTP counter) else throw ErrInvalidSecondFactor) s1 = (Inr f, s')"
    unfolding advance_counter_def bnd_Inr by blast
  have n: "n = 1" "f = ByTOTP counter" "s1 = s'" using r by (auto split: if_splits)
  then have len: "length (filter ?p (sec_mfa (tables s))) = 1"
    and t: "tables s' = (tables s)\<lparr>sec_mfa := upd_where ?p
      (\<lambda>r. r\<lparr>mfa_last_counter := counter, mfa_updated_at := now\<rparr>) (sec_mfa (tables s))\<rparr>"
    using exec_Inr [OF e] by simp_all
  have "filter ?p (sec_mfa (tables s)) \<noteq> []" using len by (metis length_0_conv zero_neq_one)
  then show "\<exists>r \<in> set (sec_mfa (tables s)). mfa_user_id r = uid \<and> mfa_last_counter r < counter"
    unfolding filter_empty_conv by blast
  show "f = ByTOTP counter" by (rule n)
  show "tables s' = (tables s)\<lparr>sec_mfa := upd_where ?p
      (\<lambda>r. r\<lparr>mfa_last_counter := counter, mfa_updated_at := now\<rparr>) (sec_mfa (tables s))\<rparr>" by (rule t)
qed

lemma spend_not_totp: "spend_recovery_code env now uid r code s \<noteq> (Inr (ByTOTP c), s')"
  by (auto simp: spend_recovery_code_def bnd_Inr split: if_splits prod.splits)

lemma verify_login_Inr:
  assumes "verify_login_factor env clock uid code s = (Inr f, s')"
  obtains r secret c v s1 s2 where "find (login_row uid) (sec_mfa (tables s)) = Some r"
    "decrypt_credential (me_crypto env) (me_key env) (mfa_secret r) (purpose_for CredentialPurposeTOTPSecret uid) = Inr secret"
    "matching_totp_counter env secret code (clock 0) = Some (c, v)"
    "tables s1 = tables s" "tables s' = tables s2"
    "(if v then advance_counter (clock 1) uid c else spend_recovery_code env (clock 1) uid r code) s1 = (Inr f, s2)"
proof -
  let ?k = "\<lambda>fm. case fm of
           None \<Rightarrow> throw ErrMFANotEnabled
         | Some r \<Rightarrow>
             bnd (lift_cred (decrypt_credential (me_crypto env) (me_key env) (mfa_secret r)
                    (purpose_for CredentialPurposeTOTPSecret uid))) (\<lambda>secret.
             bnd (lift_option MfaPanic (matching_totp_counter env secret code (clock 0))) (\<lambda>(counter, valid).
             if valid then advance_counter (clock 1) uid counter
             else spend_recovery_code env (clock 1) uid r code))"
  from assms obtain s1 s2 where
    t1: "tables s1 = tables s" and
    m: "bnd (query MfaEngine (\<lambda>db. find (login_row uid) (sec_mfa db))) ?k s1 = (Inr f, s2)" and
    t2: "tables s' = tables s2"
    unfolding verify_login_factor_def guard_db_Inr by (elim conjE transaction_Inr)
  from m obtain fm s3 where
    q: "query MfaEngine (\<lambda>db. find (login_row uid) (sec_mfa db)) s1 = (Inr fm, s3)" and
    k: "?k fm s3 = (Inr f, s2)"
    unfolding bnd_Inr by blast
  obtain r where r: "fm = Some r" using k by (cases fm) auto
  obtain secret where d: "decrypt_credential (me_crypto env) (me_key env) (mfa_secret r)
      (purpose_for CredentialPurposeTOTPSecret uid) = Inr secret"
    using k r by (cases "decrypt_credential (me_crypto env) (me_key env) (mfa_secret r)
      (purpose_for CredentialPurposeTOTPSecret uid)") (auto simp: lift_cred_def bnd_run)
  obtain c v where c: "matching_totp_counter env secret code (clock 0) = Some (c, v)"
    using k r d by (cases "matching_totp_counter env secret code (clock 0)") (auto simp: lift_cred_def lift_option_def bnd_run)
  have "(if v then advance_counter (clock 1) uid c else spend_recovery_code env (clock 1) uid r code) s3 = (Inr f, s2)"
    using k r d c by (simp add: lift_cred_def lift_option_def bnd_run)
  moreover have "find (login_row uid) (sec_mfa (tables s)) = Some r" "tables s3 = tables s"
    using query_Inr [OF q] r t1 by simp_all
  ultimately show ?thesis using that d c t2 by blast
qed

lemma totp_login_takes:
  assumes "totp_login x s = (Inr c, s')"
  shows "\<not> step_used (tables s) (login_step x c) \<and> step_used (tables s') (login_step x c)"
proof -
  obtain env clock uid code where x: "x = (env, clock, uid, code)" by (cases x)
  obtain f s0 where f: "verify_login_factor env clock uid code s = (Inr f, s0)"
    "(case f of ByTOTP c \<Rightarrow> ret c | ByRecovery _ \<Rightarrow> throw MfaNotFound) s0 = (Inr c, s')"
    using assms unfolding x totp_login.simps bnd_Inr by blast
  then have "verify_login_factor env clock uid code s = (Inr (ByTOTP c), s')" by (cases f) auto
  then obtain s1 s2 where "tables s1 = tables s" "tables s' = tables s2"
    "advance_counter (clock 1) uid c s1 = (Inr (ByTOTP c), s2)"
    by (elim verify_login_Inr) (auto simp: spend_not_totp dest: advance_counter_Inr(1) split: if_splits)
  note a = this(1,2) advance_counter_Inr(2,3) [OF this(3)]
  obtain r where r: "r \<in> set (sec_mfa (tables s))" "mfa_user_id r = uid" "mfa_last_counter r < c"
    using a by auto
  let ?p = "\<lambda>r. mfa_user_id r = uid \<and> mfa_last_counter r < c"
  let ?f = "\<lambda>r. r\<lparr>mfa_last_counter := c, mfa_updated_at := clock 1\<rparr>"
  have t: "sec_mfa (tables s') = upd_where ?p ?f (sec_mfa (tables s))" using a by simp
  have "?f r \<in> set (sec_mfa (tables s'))" unfolding t using r by (intro upd_where_hit) simp_all
  then have ex: "\<exists>q \<in> set (sec_mfa (tables s')). mfa_user_id q = uid" using r(2) by (intro bexI [of _ "?f r"]) simp_all
  have "c \<le> mfa_last_counter q" if "q \<in> set (sec_mfa (tables s'))" "mfa_user_id q = uid" for q
    using that(1) unfolding t by (cases rule: upd_where_cases) (use that(2) in auto)
  with ex have "step_used (tables s') (uid, c)" unfolding step_used_def by auto
  moreover have "\<not> step_used (tables s) (uid, c)" using r unfolding step_used_def by auto
  ultimately show ?thesis by (simp add: x)
qed

interpretation totp_steps: once mfa_keyed step_used login_step totp_login mfa_step
  by unfold_locales (use totp_login_takes in blast | intro mfa_step_keyed mfa_step_safe totp_login_keeps)+

text \<open>
  C21: No replay of one-time passwords.  Over every history of logins, setups, confirmations,
  disabling and regeneration, by any users, with any codes, clocks and engine failures, no
  time step of a user is accepted for login twice, and none at or below the stored counter
  is accepted at all.
\<close>

theorem totp_no_replay:
  assumes "mfa_keyed (tables s)"
  shows "distinct (redeemed login_step totp_login mfa_step evs s)
    \<and> {k. step_used (tables s) k} \<inter> set (redeemed login_step totp_login mfa_step evs s) = {}"
  using totp_steps.redeemed_once [OF assms] totp_steps.used_not_redeemed [OF assms] by blast

theorem totp_no_replay_witness:
  "distinct (redeemed login_step totp_login mfa_step
     [Inl (demo_env, \<lambda>_. 0, 4, ''000000''), Inl (demo_env, \<lambda>_. 0, 4, ''000000'')]
     (healthy \<lparr>sec_users = [], sec_mfa = [zero_mfa\<lparr>mfa_user_id := 4, mfa_enabled := True\<rparr>], sec_sessions = []\<rparr>))"
proof -
  have "mfa_keyed (tables (healthy \<lparr>sec_users = [], sec_mfa = [zero_mfa\<lparr>mfa_user_id := 4, mfa_enabled := True\<rparr>],
      sec_sessions = []\<rparr>))"
    by (simp add: mfa_keyed_def)
  from totp_no_replay [OF this] show ?thesis by blast
qed

end
