(* ===== verification/Authorization.thy ===== *)
theory Authorization
  imports Access_Users
begin

text \<open>
  The permission middleware (\<open>router/middleware/permission.go\<close>): loading a user's access
  into the request, the gates in front of the handlers, the matrix of menus, actions and
  scopes sent to the panel's front end, and which requests the audit middleware records.
  A gin handler is a function from the request context to an outcome: continue with a
  context (\<open>c.Next()\<close>) or stop with an error (\<open>writeAPIError\<close>, which aborts the chain).
\<close>

section \<open>The request context\<close>

abbreviation MethodGet :: string where "MethodGet \<equiv> ''GET''"
abbreviation MethodHead :: string where "MethodHead \<equiv> ''HEAD''"
abbreviation MethodOptions :: string where "MethodOptions \<equiv> ''OPTIONS''"
abbreviation MethodPost :: string where "MethodPost \<equiv> ''POST''"

abbreviation AuthModeTicket :: string where "AuthModeTicket \<equiv> ''ticket''"

abbreviation StatusBadRequest :: int where "StatusBadRequest \<equiv> 400"
abbreviation StatusForbidden :: int where "StatusForbidden \<equiv> 403"
abbreviation StatusServiceUnavailable :: int where "StatusServiceUnavailable \<equiv> 503"

abbreviation ErrAdminRequired :: int where "ErrAdminRequired \<equiv> 1202"
abbreviation ErrInsufficientPermissions :: int where "ErrInsufficientPermissions \<equiv> 1203"
abbreviation ErrPermissionUnavailable :: int where "ErrPermissionUnavailable \<equiv> 1204"

text \<open>The keys the middleware reads and writes; a key that is not set is \<open>None\<close>.\<close>

record gin_context =
  ctx_method :: string
  ctx_path :: string
  ctx_user_id :: "int option"
  ctx_auth_mode :: "string option"
  ctx_access :: "user_access option"

record api_error =
  api_status :: int
  api_code :: int
  api_message :: string
  api_detail :: string

datatype outcome = Next gin_context | Abort api_error

definition write_api_error :: "int \<Rightarrow> int \<Rightarrow> string \<Rightarrow> string \<Rightarrow> outcome" where
  "write_api_error status code message detail =
     Abort \<lparr>api_status = status, api_code = code, api_message = message, api_detail = detail\<rparr>"

definition authenticated_user_id :: "gin_context \<Rightarrow> int \<times> bool" where
  "authenticated_user_id c =
     (case ctx_user_id c of None \<Rightarrow> (0, False) | Some i \<Rightarrow> (i, i > 0))"

definition user_access_of :: "gin_context \<Rightarrow> user_access option \<times> bool" where
  "user_access_of c = (case ctx_access c of None \<Rightarrow> (None, False) | Some a \<Rightarrow> (Some a, True))"

section \<open>Gates\<close>

definition write_permission_denied :: "user_access option \<Rightarrow> string \<Rightarrow> outcome" where
  "write_permission_denied access required =
     (if (case access of
            None \<Rightarrow> True
          | Some a \<Rightarrow> \<not> ua_is_super_admin a \<and> length (ua_roles a) = 0 \<and> length (ua_permissions a) = 0)
      then write_api_error StatusForbidden ErrAdminRequired
        (utf8 [0x5F53, 0x524D, 0x64CD, 0x4F5C, 0x9700, 0x8981, 0x7BA1, 0x7406, 0x5458, 0x6743, 0x9650])
        (utf8 [0x5F53, 0x524D, 0x7528, 0x6237, 0x672A, 0x52A0, 0x8F7D, 0x6709, 0x6548, 0x7684,
          0x7BA1, 0x7406, 0x5458, 0x6743, 0x9650, 0xFF0C, 0x65E0, 0x6CD5, 0x8BBF, 0x95EE, 0x8BE5,
          0x63A5, 0x53E3, 0x3002])
      else write_api_error StatusForbidden ErrInsufficientPermissions
        (utf8 [0x5F53, 0x524D, 0x7528, 0x6237, 0x6CA1, 0x6709, 0x6267, 0x884C, 0x6B64, 0x64CD,
          0x4F5C, 0x7684, 0x6743, 0x9650])
        ((utf8 [0x5F53, 0x524D, 0x63A5, 0x53E3, 0x8981, 0x6C42, 0x6743, 0x9650, 0xFF1A]) @
          required @ (utf8 [0x3002])))"

definition require_permission :: "string \<Rightarrow> gin_context \<Rightarrow> outcome" where
  "require_permission required c =
     (let (access, ok) = user_access_of c in
      if \<not> ok \<or> \<not> has_permission access required then write_permission_denied access required
      else Next c)"

fun join_comma :: "string list \<Rightarrow> string" where
  "join_comma [] = []"
| "join_comma [s] = s"
| "join_comma (s # t # ss) = s @ '','' @ join_comma (t # ss)"

definition require_any_permission :: "string list \<Rightarrow> gin_context \<Rightarrow> outcome" where
  "require_any_permission required c =
     (let (access, ok) = user_access_of c in
      if ok \<and> list_ex (has_permission access) required then Next c
      else write_permission_denied access (join_comma required))"

text \<open>
  \<open>LoadAuthorizationContext\<close>, on the engine behind \<open>app.DB()\<close>; \<open>describe\<close> is the text of
  an error.
\<close>

definition load_authorization_context ::
  "(access_error \<Rightarrow> string) \<Rightarrow> gin_context \<Rightarrow> access_db engine \<Rightarrow> outcome \<times> access_db engine" where
  "load_authorization_context describe c s =
     (let (uid, ok) = authenticated_user_id c in
      if \<not> ok then (Next c, s)
      else if \<not> attached s then
        (write_api_error StatusServiceUnavailable ErrPermissionUnavailable
          (utf8 [0x6743, 0x9650, 0x670D, 0x52A1, 0x4E0D, 0x53EF, 0x7528, 0xFF0C, 0x8BF7, 0x7A0D,
            0x540E, 0x91CD, 0x8BD5])
          (utf8 [0x670D, 0x52A1, 0x7AEF, 0x6570, 0x636E, 0x5E93, 0x672A, 0x521D, 0x59CB, 0x5316,
            0xFF0C, 0x65E0, 0x6CD5, 0x52A0, 0x8F7D, 0x5F53, 0x524D, 0x7528, 0x6237, 0x6743,
            0x9650, 0x3002]), s)
      else (case load_user_access uid s of
          (Inl err, s') \<Rightarrow>
            if ctx_auth_mode c = Some AuthModeTicket \<or> err = AccessNotFound then (Next c, s')
            else (write_api_error StatusServiceUnavailable ErrPermissionUnavailable
              (utf8 [0x6743, 0x9650, 0x670D, 0x52A1, 0x4E0D, 0x53EF, 0x7528, 0xFF0C, 0x8BF7,
                0x7A0D, 0x540E, 0x91CD, 0x8BD5])
              ((utf8 [0x8BFB, 0x53D6, 0x5F53, 0x524D, 0x7528, 0x6237, 0x6743, 0x9650,
                0x5931, 0x8D25, 0xFF1A]) @ describe err), s')
        | (Inr access, s') \<Rightarrow> (Next (c\<lparr>ctx_access := Some access\<rparr>), s')))"

definition require_super_admin :: "gin_context \<Rightarrow> outcome" where
  "require_super_admin c =
     (case user_access_of c of
        (Some a, True) \<Rightarrow>
          if \<not> ua_is_super_admin a then
            write_api_error StatusForbidden ErrAdminRequired
              (utf8 [0x5F53, 0x524D, 0x64CD, 0x4F5C, 0x9700, 0x8981, 0x8D85, 0x7EA7, 0x7BA1,
                0x7406, 0x5458, 0x6743, 0x9650])
              (utf8 [0x53EA, 0x6709, 0x8D85, 0x7EA7, 0x7BA1, 0x7406, 0x5458, 0x53EF, 0x4EE5,
                0x8BBF, 0x95EE, 0x8BE5, 0x63A5, 0x53E3, 0x3002])
          else Next c
      | _ \<Rightarrow>
          write_api_error StatusForbidden ErrAdminRequired
            (utf8 [0x5F53, 0x524D, 0x64CD, 0x4F5C, 0x9700, 0x8981, 0x8D85, 0x7EA7, 0x7BA1,
              0x7406, 0x5458, 0x6743, 0x9650])
            (utf8 [0x53EA, 0x6709, 0x8D85, 0x7EA7, 0x7BA1, 0x7406, 0x5458, 0x53EF, 0x4EE5,
              0x8BBF, 0x95EE, 0x8BE5, 0x63A5, 0x53E3, 0x3002]))"

definition require_admin :: "gin_context \<Rightarrow> outcome" where
  "require_admin = require_super_admin"

section \<open>The authorization matrix\<close>

record panel_config =
  terminal_enabled :: bool
  bastion_enabled :: bool

type_synonym menu_visibility_rule = "string \<times> ((string \<Rightarrow> bool) \<Rightarrow> user_access option \<Rightarrow> bool)"

definition authorization_menu_rules :: "panel_config \<Rightarrow> menu_visibility_rule list" where
  "authorization_menu_rules cfg =
     [
      (''dashboard'', \<lambda>has access. (case access of None \<Rightarrow> False | Some a \<Rightarrow> ua_is_super_admin a \<or> has PermissionDashboardRead)),
      (''website'', \<lambda>has access. has PermissionWebsiteRead \<or> has PermissionWebsiteWrite),
      (''database'', \<lambda>has access. has PermissionDatabaseRead \<or> has PermissionDatabaseWrite),
      (''monitoring'', \<lambda>has access. has PermissionMonitoringRead \<or> has PermissionMonitoringWrite),
      (''security'', \<lambda>has access. has PermissionSecurityRead \<or> has PermissionSecurityWrite),
      (''file'', \<lambda>has access. has PermissionFileRead \<or> has PermissionFileWrite),
      (''audit'', \<lambda>has access. has PermissionAuditRead),
      (''runtimeLog'', \<lambda>has access. has PermissionRuntimeLogRead),
      (''cron'', \<lambda>has access. has PermissionCronRead \<or> has PermissionCronWrite),
      (''software'', \<lambda>has access. has PermissionSoftwareRead \<or> has PermissionSoftwareWrite \<or> has PermissionServiceRead \<or> has PermissionServiceWrite),
      (''container'', \<lambda>has access. has PermissionContainerRead \<or> has PermissionContainerWrite),
      (''panelSettings'', \<lambda>has access. (case access of None \<Rightarrow> False | Some a \<Rightarrow> ua_is_super_admin a)),
      (''userManagement'', \<lambda>has access. (case access of None \<Rightarrow> False | Some a \<Rightarrow> ua_is_super_admin a)),
      (''approval'', \<lambda>has access. has PermissionApprovalRead),
      (''logout'', \<lambda>has access. access \<noteq> None),
      (''terminal'', \<lambda>has access. terminal_enabled cfg \<and> has PermissionTerminalAccess),
      (''bastion'', \<lambda>has access. bastion_enabled cfg \<and> (has PermissionBastionRead \<or> has PermissionBastionWrite))]"

definition matrix_menu :: "panel_config \<Rightarrow> (string \<Rightarrow> bool) \<Rightarrow> user_access option \<Rightarrow> (string \<times> bool) list" where
  "matrix_menu cfg has access =
     map (\<lambda>(key, visible). (key, visible has access)) (authorization_menu_rules cfg)"

text \<open>
  The literal map of actions, then the loop that sets the flag of every previewed operation
  (its keys are distinct, so the order of Go's map iteration does not matter).
\<close>

definition literal_actions :: "(string \<Rightarrow> bool) \<Rightarrow> (string \<times> bool) list" where
  "literal_actions has =
     [
      (''website.delete'', has PermissionWebsiteWrite),
      (''website.restore'', has PermissionWebsiteWrite),
      (''database.restore'', has PermissionDatabaseWrite),
      (''database.connection.delete'', has PermissionDatabaseWrite),
      (''audit.export'', has PermissionAuditExport),
      (''audit.verify'', has PermissionAuditVerify),
      (''database.credential.reveal'', has PermissionDatabaseWrite),
      (''certificate.issue'', has PermissionWebsiteWrite),
      (''file.create'', has PermissionFileCreate),
      (''file.edit'', has PermissionFileEdit),
      (''file.move'', has PermissionFileMove),
      (''file.delete'', has PermissionFileDelete),
      (''file.modify'', has PermissionFileModify),
      (''file.archive'', has PermissionFileArchive),
      (''file.share.create'', has PermissionFileShare),
      (''file.share.revoke'', has PermissionFileShare),
      (''container.terminal'', has PermissionContainerTerminal),
      (''container.force_action'', has PermissionContainerForceAction),
      (''container.dangerous.cleanup'', has PermissionContainerDangerousCleanup)]"

definition matrix_actions :: "(string \<Rightarrow> bool) \<Rightarrow> string \<rightharpoonup> bool" where
  "matrix_actions has =
     foldl (\<lambda>m (operation, permission). m(operation \<mapsto> has permission))
       (map_of (literal_actions has)) operation_permissions"

fun first_menu :: "(string \<times> bool) list \<Rightarrow> string" where
  "first_menu [] = []"
| "first_menu ((key, visible) # rest) =
     (if key \<noteq> ''logout'' \<and> visible then key else first_menu rest)"

definition matrix_policies :: "(string \<times> bool) list" where
  "matrix_policies =
     [
      (''website.delete'', True),
      (''website.restore'', True),
      (''database.restore'', True),
      (''database.connection.delete'', True),
      (''certificate.issue'', True),
      (''certificate.renew'', True),
      (''certificate.disable'', True),
      (''database.credential.reveal'', False),
      (''file.delete'', True),
      (''file.trash.empty'', True),
      (''file.trash.delete'', True)]"

definition matrix_scopes :: "(string \<Rightarrow> bool) \<Rightarrow> (string \<times> (string \<times> bool) list) list" where
  "matrix_scopes has =
     [
      (''dashboard'',
        [(''read'', has PermissionDashboardRead)]),
      (''runtimeLog'',
        [(''read'', has PermissionRuntimeLogRead)]),
      (''software'',
        [(''read'', has PermissionSoftwareRead),
         (''write'', has PermissionSoftwareWrite),
         (''serviceRead'', has PermissionServiceRead),
         (''serviceWrite'', has PermissionServiceWrite)]),
      (''security'',
        [(''read'', has PermissionSecurityRead),
         (''write'', has PermissionSecurityWrite)]),
      (''cron'',
        [(''read'', has PermissionCronRead),
         (''write'', has PermissionCronWrite)]),
      (''monitoring'',
        [(''read'', has PermissionMonitoringRead),
         (''write'', has PermissionMonitoringWrite)]),
      (''system'',
        [(''read'', has PermissionSystemRead),
         (''write'', has PermissionSystemWrite)]),
      (''configuration'',
        [(''read'', has PermissionConfigSnapshotRead),
         (''write'', has PermissionConfigSnapshotWrite)]),
      (''audit'',
        [(''read'', has PermissionAuditRead),
         (''export'', has PermissionAuditExport),
         (''verify'', has PermissionAuditVerify)]),
      (''website'',
        [(''read'', has PermissionWebsiteRead),
         (''write'', has PermissionWebsiteWrite),
         (''approvalRequest'', has PermissionWebsiteApproval \<or> has PermissionApprovalRequest)]),
      (''database'',
        [(''read'', has PermissionDatabaseRead),
         (''write'', has PermissionDatabaseWrite),
         (''approvalRequest'', has PermissionDatabaseApproval \<or> has PermissionApprovalRequest)]),
      (''approval'',
        [(''read'', has PermissionApprovalRead),
         (''request'', has PermissionApprovalRequest),
         (''review'', has PermissionApprovalReview),
         (''execute'', has PermissionApprovalExecute)]),
      (''task'',
        [(''readSelf'', has PermissionTaskReadSelf),
         (''readAll'', has PermissionTaskReadAll),
         (''cancelSelf'', has PermissionTaskCancelSelf)]),
      (''file'',
        [(''read'', has PermissionFileRead),
         (''create'', has PermissionFileCreate),
         (''edit'', has PermissionFileEdit),
         (''move'', has PermissionFileMove),
         (''delete'', has PermissionFileDelete),
         (''modify'', has PermissionFileModify),
         (''archive'', has PermissionFileArchive),
         (''share'', has PermissionFileShare),
         (''scopeRoot'', has PermissionFileScopeRoot),
         (''scopeWebsites'', has PermissionFileScopeWebsites),
         (''scopeBackups'', has PermissionFileScopeBackups)]),
      (''container'',
        [(''read'', has PermissionContainerRead),
         (''write'', has PermissionContainerWrite),
         (''delete'', has PermissionContainerDelete),
         (''terminal'', has PermissionContainerTerminal),
         (''logsRead'', has PermissionContainerLogsRead),
         (''imageWrite'', has PermissionContainerImageWrite),
         (''networkWrite'', has PermissionContainerNetworkWrite),
         (''volumeWrite'', has PermissionContainerVolumeWrite),
         (''composeWrite'', has PermissionContainerComposeWrite),
         (''registryWrite'', has PermissionContainerRegistryWrite),
         (''configWrite'', has PermissionContainerConfigWrite),
         (''runtimeInstall'', has PermissionContainerRuntimeInstall),
         (''dangerousCleanup'', has PermissionContainerDangerousCleanup),
         (''forceAction'', has PermissionContainerForceAction)]),
      (''bastion'',
        [(''read'', has PermissionBastionRead),
         (''write'', has PermissionBastionWrite),
         (''identityRead'', has PermissionBastionIdentityRead)])]"

record authorization_matrix =
  am_menu :: "(string \<times> bool) list"
  am_first_accessible_menu :: string
  am_actions :: "string \<rightharpoonup> bool"
  am_approval_policies :: "(string \<times> bool) list"
  am_scopes :: "(string \<times> (string \<times> bool) list) list"

definition build_authorization_matrix :: "panel_config \<Rightarrow> user_access option \<Rightarrow> authorization_matrix" where
  "build_authorization_matrix cfg access =
     (let has = (\<lambda>code. access \<noteq> None \<and> has_permission access code);
          menu = matrix_menu cfg has access
      in \<lparr>am_menu = menu, am_first_accessible_menu = first_menu menu,
          am_actions = matrix_actions has, am_approval_policies = matrix_policies,
          am_scopes = matrix_scopes has\<rparr>)"

section \<open>Which requests are audited\<close>

definition read_only_posts :: "string list" where
  "read_only_posts =
     [''/v1/sys/dic/list'', ''/v1/storage/liblist'', ''/v1/storage/rklist'', ''/v1/storage/info'',
       ''/v1/ftp/list'', ''/v1/ftp/search'', ''/v1/ftp/content'', ''/v1/ftp/tree'',
       ''/v1/soft/list'', ''/v1/soft/exploration'', ''/v1/website/list'', ''/v1/website/info'',
       ''/v1/safe/rules'', ''/v1/cron/list'', ''/v1/cron/log'']"

definition is_read_only_post :: "string \<Rightarrow> bool" where
  "is_read_only_post path = (path \<in> set read_only_posts)"

definition should_persist_audit :: "string \<Rightarrow> string \<Rightarrow> int \<Rightarrow> bool \<Rightarrow> bool" where
  "should_persist_audit method path status sensitive =
     (if sensitive \<or> status \<ge> StatusBadRequest then True
      else if method = MethodPost \<and> is_read_only_post path then False
      else if method \<in> {MethodGet, MethodHead, MethodOptions} then False
      else True)"

definition sensitive_operations :: "(string \<times> string list) list" where
  "sensitive_operations =
     [
      (''POST'',
        [''/v1/login'',
         ''/v1/logout'',
         ''/v1/sessions/revoke-others'',
         ''/v1/security/totp/setup'',
         ''/v1/security/totp/confirm'',
         ''/v1/security/totp/disable'',
         ''/v1/security/totp/recovery-codes/regenerate'',
         ''/v1/sys/updateuser'',
         ''/v1/sys/resetpassword'',
         ''/v1/sys/updateport'',
         ''/v1/sys/update/check'',
         ''/v1/sys/update/apply'',
         ''/v1/sys/backups'',
         ''/v1/soft/install'',
         ''/v1/soft/remove'',
         ''/v1/storage/addconn'',
         ''/v1/storage/updateconn'',
         ''/v1/storage/delconn'',
         ''/v1/storage/addlib'',
         ''/v1/storage/dellib'',
         ''/v1/storage/backups'',
         ''/v1/storage/restores'',
         ''/v1/cron/add'',
         ''/v1/cron/update'',
         ''/v1/cron/del'',
         ''/v1/cron/disable'',
         ''/v1/cron/enable'',
         ''/v1/cron/run'',
         ''/v1/cron/log/cleanup'',
         ''/v1/safe/add'',
         ''/v1/safe/update'',
         ''/v1/safe/del'',
         ''/v1/safe/rules/state'',
         ''/v1/safe/rules/batch'',
         ''/v1/safe/rules/cleanup'',
         ''/v1/safe/rules/import'',
         ''/v1/safe/forwards/add'',
         ''/v1/safe/forwards/update'',
         ''/v1/safe/forwards/del'',
         ''/v1/safe/forwards/state'',
         ''/v1/safe/auto-block'',
         ''/v1/safe/stop'',
         ''/v1/safe/blockping'',
         ''/v1/safe/install'',
         ''/v1/website/add'',
         ''/v1/website/del'',
         ''/v1/website/backups'',
         ''/v1/website/restores'',
         ''/v1/website/certificates/acme'',
         ''/v1/ssh/ticket'',
         ''/v1/audit/verify'']),
      (''GET'',
        [''/v1/ssh/open'',
         ''/v1/audit/export'']),
      (''DELETE'',
        [''/v1/sys/remark/del'',
         ''/v1/website/del'',
         ''/v1/safe/del''])]"

definition is_sensitive_operation :: "string \<Rightarrow> string \<Rightarrow> bool" where
  "is_sensitive_operation method path =
     (if method = MethodPost \<and> (path = ''/v1/operations/preview'' \<or> has_prefix path
       ''/v1/operations/'' \<and> has_suffix path ''/execute'') then True
      else if method \<noteq> MethodGet \<and> has_prefix path ''/v1/website/'' \<and> (has_suffix
        path ''/status'' \<or> has_suffix path ''/settings'' \<or> has_suffix path ''/config'' \<or>
        path = ''/v1/website/update'' \<or> path = ''/v1/website/add'') then True
      else if has_prefix path ''/v1/containers/'' \<and> ((method = MethodPost \<and> has_suffix
        path ''/terminal/ticket'') \<or> (method = MethodGet \<and> has_suffix path
        ''/terminal/open'')) then True
      else if method \<noteq> MethodGet \<and> has_prefix path ''/v1/bastion/'' then True
      else if method \<noteq> MethodGet \<and> has_prefix path ''/v1/monitor/'' then True
      else if method \<noteq> MethodGet \<and> has_prefix path ''/v1/soft/services/'' then True
      else if method = MethodPost \<and> has_prefix path ''/v1/storage/backups/'' \<and> has_suffix
        path ''/delete'' then True
      else if method = MethodPost \<and> has_prefix path ''/v1/storage/tasks/'' \<and> has_suffix
        path ''/cancel'' then True
      else if method = MethodPost \<and> has_prefix path ''/v1/website/certificates/'' then True
      else if method = MethodPost \<and> has_prefix path ''/v1/website/certificate-tasks/'' \<and>
        has_suffix path ''/cancel'' then True
      else if method = MethodPost \<and> has_prefix path ''/v1/website/backups/'' \<and> has_suffix
        path ''/delete'' then True
      else if method = MethodPost \<and> has_prefix path ''/v1/website/tasks/'' \<and> has_suffix
        path ''/cancel'' then True
      else if method = MethodPost \<and> has_prefix path ''/v1/sessions/'' \<and> has_suffix path
        ''/revoke'' then True
      else if method = MethodPost \<and> has_prefix path ''/v1/cron/executions/'' \<and> has_suffix
        path ''/cancel'' then True
      else if method = MethodGet \<and> has_prefix path ''/v1/storage/backups/'' \<and> has_suffix
        path ''/download'' then True
      else if method = MethodGet \<and> has_prefix path ''/v1/website/backups/'' \<and> has_suffix
        path ''/download'' then True
      else if method = MethodGet \<and> has_prefix path ''/v1/sys/backups/'' \<and> has_suffix path
        ''/download'' then True
      else if method = MethodGet \<and> has_prefix path ''/v1/soft/tasks/'' \<and> has_suffix path
        ''/log/download'' then True
      else if method = MethodGet \<and> has_prefix path ''/v1/cron/'' \<and> has_suffix path
        ''/log/export'' then True
      else (case map_of sensitive_operations method of
              None \<Rightarrow> False
            | Some paths \<Rightarrow> list_ex (has_prefix path) paths))"

section \<open>Facts on the gates\<close>

lemma require_permission_Next:
  "require_permission p c = Next c' \<longleftrightarrow> c' = c \<and> (\<exists>a. ctx_access c = Some a \<and> has_permission (Some a) p)"
  by (auto simp: require_permission_def user_access_of_def write_permission_denied_def write_api_error_def
      split: option.splits)

lemma require_any_permission_Next:
  "require_any_permission ps c = Next c' \<longleftrightarrow> (\<exists>p \<in> set ps. require_permission p c = Next c')"
  by (auto simp: require_any_permission_def require_permission_Next user_access_of_def
      write_permission_denied_def write_api_error_def list_ex_iff split: option.splits)

lemma require_super_admin_Next:
  "require_super_admin c = Next c' \<longleftrightarrow> c' = c \<and> (\<exists>a. ctx_access c = Some a \<and> ua_is_super_admin a)"
  by (auto simp: require_super_admin_def user_access_of_def write_api_error_def split: option.splits)

lemma load_context_Next:
  assumes "load_authorization_context describe c s = (Next c', s')" and "ctx_access c = None"
    and "ctx_access c' = Some a"
  shows "\<exists>uid. ctx_user_id c = Some uid \<and> 0 < uid \<and> load_user_access uid s = (Inr a, s')"
  using assms
  by (auto simp: load_authorization_context_def authenticated_user_id_def Let_def write_api_error_def
      split: option.splits if_splits prod.splits sum.splits)

lemma has_permission_grants:
  assumes "ua_is_super_admin a \<longrightarrow> admin" and "\<not> admin \<longrightarrow> ua_permission_set a = grants"
    and "has_permission (Some a) p" and "p \<noteq> PermissionFileWrite"
  shows "admin \<or> p \<in> grants"
  using assms by (auto simp: has_permission_def legacy_aliases_def split: if_splits)

text \<open>
  C24: The chain fails closed.  Whatever engine calls fail, a request that reaches a handler
  behind the context loader and the gate for a permission (other than the legacy file
  permission, which has aliases) belongs to an authenticated user whose row exists and who
  is an administrator or is granted that permission by the tables; the tables are unchanged.
\<close>

theorem permission_chain_fails_closed:
  assumes "load_authorization_context describe c s = (Next c', s')" and "ctx_access c = None"
    and "require_permission p c' = Next c''" and "p \<noteq> PermissionFileWrite"
  shows "\<exists>uid u. ctx_user_id c = Some uid \<and> 0 < uid
    \<and> find (\<lambda>u. user_id u = uid) (users (tables s)) = Some u
    \<and> (user_is_admin u \<or> p \<in> user_grants (tables s) uid) \<and> tables s' = tables s"
proof -
  obtain a where a: "ctx_access c' = Some a" "has_permission (Some a) p"
    using assms(3) unfolding require_permission_Next by blast
  then obtain uid where uid: "ctx_user_id c = Some uid" "0 < uid" "load_user_access uid s = (Inr a, s')"
    using load_context_Next assms(1,2) by blast
  then obtain u where u: "find (\<lambda>u. user_id u = uid) (users (tables s)) = Some u"
    "ua_is_super_admin a = user_is_admin u" "tables s' = tables s"
    "ua_permission_set a = (if user_is_admin u then set builtin_codes else user_grants (tables s) uid)"
    using load_user_access_run by blast
  have "user_is_admin u \<or> p \<in> user_grants (tables s) uid"
    using u a(2) assms(4) by (intro has_permission_grants) simp_all
  then show ?thesis using uid u by blast
qed

definition demo_request :: "int \<Rightarrow> gin_context" where
  "demo_request uid =
     \<lparr>ctx_method = ''POST'', ctx_path = ''/v1/website/add'', ctx_user_id = Some uid,
      ctx_auth_mode = Some ''bearer'', ctx_access = None\<rparr>"

definition demo_tables :: access_db where
  "demo_tables =
     \<lparr>users = [\<lparr>user_id = 4, user_name = ''root'', user_password = [], user_is_admin = True,
        user_first_join = False, user_must_change_password = False, user_security_version = 1,
        user_create_time = 0\<rparr>],
      roles = [], permissions = [], role_permissions = [], user_roles = []\<rparr>"

theorem permission_chain_fails_closed_witness:
  "\<exists>c' s' uid u. load_authorization_context (\<lambda>_. []) (demo_request 4) (healthy demo_tables) = (Next c', s')
     \<and> require_permission PermissionWebsiteWrite c' = Next c'
     \<and> find (\<lambda>u. user_id u = uid) (users demo_tables) = Some u \<and> 0 < uid"
proof -
  obtain a where "load_user_access 4 (healthy demo_tables) = (Inr a, healthy demo_tables)"
    and a: "ua_is_super_admin a"
    by (simp add: load_user_access_def bnd_run demo_tables_def finish_access_def empty_access_def Let_def)
  then have run: "load_authorization_context (\<lambda>_. []) (demo_request 4) (healthy demo_tables)
      = (Next ((demo_request 4)\<lparr>ctx_access := Some a\<rparr>), healthy demo_tables)"
    by (simp add: load_authorization_context_def authenticated_user_id_def demo_request_def)
  have gate: "require_permission PermissionWebsiteWrite ((demo_request 4)\<lparr>ctx_access := Some a\<rparr>)
      = Next ((demo_request 4)\<lparr>ctx_access := Some a\<rparr>)"
    using a by (simp add: require_permission_Next has_permission_def)
  have "ctx_access (demo_request 4) = None" by (simp add: demo_request_def)
  from permission_chain_fails_closed [OF run this gate] run gate show ?thesis by auto
qed

section \<open>The matrix\<close>

lemma operation_permissions_distinct: "distinct (map fst operation_permissions)"
  by (simp add: operation_permissions_def)

lemma foldl_upd_map_of:
  "distinct (map fst ps) \<Longrightarrow>
   foldl (\<lambda>m (k, v). m(k \<mapsto> f v)) m ps = m ++ (\<lambda>k. map_option f (map_of ps k))"
proof (induction ps arbitrary: m)
  case (Cons p ps)
  obtain k v where p: "p = (k, v)" by fastforce
  have "map_of ps k = None" using Cons.prems by (simp add: p map_of_eq_None_iff)
  then show ?case
    using Cons by (auto simp: p map_add_def fun_eq_iff split: option.splits)
qed (simp add: map_add_def)

definition granted :: "(string \<times> bool) list \<Rightarrow> string set" where
  "granted flags = {k. (k, True) \<in> set flags}"

definition scope_granted :: "(string \<times> (string \<times> bool) list) list \<Rightarrow> (string \<times> string) set" where
  "scope_granted scopes = {(k, f). \<exists>flags. (k, flags) \<in> set scopes \<and> (f, True) \<in> set flags}"

abbreviation weaker :: "(string \<times> bool) list \<Rightarrow> (string \<times> bool) list \<Rightarrow> bool" where
  "weaker \<equiv> list_all2 (\<lambda>x y. fst x = fst y \<and> (snd x \<longrightarrow> snd y))"

lemma weaker_granted: "weaker xs ys \<Longrightarrow> granted xs \<subseteq> granted ys"
  by (induction rule: list_all2_induct) (auto simp: granted_def)

lemma weaker_scopes:
  "list_all2 (\<lambda>x y. fst x = fst y \<and> weaker (snd x) (snd y)) xs ys \<Longrightarrow> scope_granted xs \<subseteq> scope_granted ys"
proof (induction rule: list_all2_induct)
  case (Cons x xs y ys)
  then have "granted (snd x) \<subseteq> granted (snd y)" using weaker_granted by blast
  with Cons show ?case unfolding scope_granted_def granted_def
    by (cases x; cases y) fastforce
qed (simp add: scope_granted_def)

lemma matrix_menu_mono:
  assumes "\<And>p. h p \<Longrightarrow> h' p" and "\<And>a. acc = Some a \<Longrightarrow> \<exists>b. acc' = Some b \<and> (ua_is_super_admin a \<longrightarrow> ua_is_super_admin b)"
  shows "weaker (matrix_menu cfg h acc) (matrix_menu cfg h' acc')"
proof (cases acc)
  case None
  then show ?thesis using assms(1) by (auto simp: matrix_menu_def authorization_menu_rules_def)
next
  case (Some a)
  then obtain b where "acc' = Some b" "ua_is_super_admin a \<longrightarrow> ua_is_super_admin b" using assms(2) by blast
  with Some assms(1) show ?thesis by (simp add: matrix_menu_def authorization_menu_rules_def) blast
qed

lemma matrix_scopes_mono:
  assumes "\<And>p. h p \<Longrightarrow> h' p"
  shows "list_all2 (\<lambda>x y. fst x = fst y \<and> weaker (snd x) (snd y)) (matrix_scopes h) (matrix_scopes h')"
  unfolding matrix_scopes_def using assms by (simp add: disj_mono)

lemma literal_actions_mono:
  assumes "\<And>p. h p \<Longrightarrow> h' p" and "map_of (literal_actions h) k = Some True"
  shows "map_of (literal_actions h') k = Some True"
proof -
  have "weaker (literal_actions h) (literal_actions h')"
    using assms(1) by (simp add: literal_actions_def)
  moreover have "map_of xs k = Some True \<Longrightarrow> map_of ys k = Some True" if "weaker xs ys" for xs ys
    using that by (induction rule: list_all2_induct) (auto split: if_splits)
  ultimately show ?thesis using assms(2) by blast
qed

text \<open>
  The matrix is monotone.  A user who has every permission of another, and is an
  administrator if the other is, sees every menu and holds every action and scope flag the
  other does.
\<close>

theorem matrix_monotone:
  assumes "\<forall>p. has_permission (Some a) p \<longrightarrow> has_permission (Some b) p"
    and "ua_is_super_admin a \<longrightarrow> ua_is_super_admin b"
  shows "granted (am_menu (build_authorization_matrix cfg (Some a)))
        \<subseteq> granted (am_menu (build_authorization_matrix cfg (Some b)))
    \<and> scope_granted (am_scopes (build_authorization_matrix cfg (Some a)))
        \<subseteq> scope_granted (am_scopes (build_authorization_matrix cfg (Some b)))
    \<and> (\<forall>k. am_actions (build_authorization_matrix cfg (Some a)) k = Some True
        \<longrightarrow> am_actions (build_authorization_matrix cfg (Some b)) k = Some True)"
proof -
  let ?h = "\<lambda>a p. Some a \<noteq> None \<and> has_permission (Some a) p"
  have h: "?h a p \<Longrightarrow> ?h b p" for p using assms(1) by simp
  have "weaker (matrix_menu cfg (?h a) (Some a)) (matrix_menu cfg (?h b) (Some b))"
    using h assms(2) by (intro matrix_menu_mono) auto
  moreover have "matrix_actions (?h a) k = Some True \<Longrightarrow> matrix_actions (?h b) k = Some True" for k
    using h literal_actions_mono [of "?h a" "?h b" k]
    unfolding matrix_actions_def foldl_upd_map_of [OF operation_permissions_distinct]
    by (auto simp: map_add_def split: option.splits)
  ultimately show ?thesis
    using weaker_granted weaker_scopes [OF matrix_scopes_mono [of "?h a" "?h b"]] h
    unfolding build_authorization_matrix_def Let_def authorization_matrix.select_convs by blast
qed

definition demo_reader :: "string set \<Rightarrow> user_access" where
  "demo_reader ps =
     \<lparr>ua_user_id = 3, ua_username = ''ann'', ua_is_super_admin = False, ua_roles = [],
      ua_permissions = [], ua_permission_set = ps, ua_can_approve = False\<rparr>"

theorem matrix_monotone_witness:
  "granted (am_menu (build_authorization_matrix \<lparr>terminal_enabled = True, bastion_enabled = False\<rparr>
       (Some (demo_reader {''website.read''}))))
   \<subseteq> granted (am_menu (build_authorization_matrix \<lparr>terminal_enabled = True, bastion_enabled = False\<rparr>
       (Some (demo_reader {''website.read'', ''audit.read''}))))"
proof -
  have "\<forall>p. has_permission (Some (demo_reader {''website.read''})) p
      \<longrightarrow> has_permission (Some (demo_reader {''website.read'', ''audit.read''})) p"
    by (auto simp: has_permission_def demo_reader_def legacy_aliases_def)
  from matrix_monotone [OF this] show ?thesis by (simp add: demo_reader_def)
qed

section \<open>The first menu\<close>

lemma first_menu_Nil: "[] \<notin> fst ` set menu \<Longrightarrow> first_menu menu = [] \<longleftrightarrow> granted menu \<subseteq> {''logout''}"
  by (induction menu rule: first_menu.induct) (auto simp: granted_def)

lemma first_menu_split:
  "first_menu menu = k \<Longrightarrow> k \<noteq> [] \<Longrightarrow>
   \<exists>xs ys. menu = xs @ (k, True) # ys \<and> k \<noteq> ''logout'' \<and> granted xs \<subseteq> {''logout''}"
proof (induction menu)
  case (Cons m menu)
  obtain j b where m: "m = (j, b)" by fastforce
  show ?case
  proof (cases "j \<noteq> ''logout'' \<and> b")
    case True
    with Cons.prems have "m # menu = [] @ (k, True) # menu" "k \<noteq> ''logout''" by (auto simp: m)
    moreover have "granted [] \<subseteq> {''logout''}" by (simp add: granted_def)
    ultimately show ?thesis by blast
  next
    case False
    then have "first_menu menu = k" using Cons.prems by (auto simp: m split: if_splits)
    then obtain xs ys where "menu = xs @ (k, True) # ys" "k \<noteq> ''logout''" "granted xs \<subseteq> {''logout''}"
      using Cons.IH Cons.prems(2) by blast
    with False have "m # menu = (m # xs) @ (k, True) # ys" "granted (m # xs) \<subseteq> {''logout''}"
      by (auto simp: granted_def m)
    then show ?thesis using \<open>k \<noteq> ''logout''\<close> by blast
  qed
qed simp

text \<open>
  The landing page is the first menu the user can see: it is empty exactly when nothing
  but \<open>logout\<close> is visible, and otherwise it is a visible menu with no visible menu other
  than \<open>logout\<close> before it in the panel's order.
\<close>

theorem landing_menu:
  "let m = build_authorization_matrix cfg access in
   if granted (am_menu m) \<subseteq> {''logout''} then am_first_accessible_menu m = []
   else \<exists>xs ys. am_menu m = xs @ (am_first_accessible_menu m, True) # ys
      \<and> am_first_accessible_menu m \<noteq> ''logout'' \<and> granted xs \<subseteq> {''logout''}"
proof -
  let ?m = "build_authorization_matrix cfg access"
  have "fst ` set (am_menu ?m) = fst ` set (authorization_menu_rules cfg)"
    by (force simp: build_authorization_matrix_def matrix_menu_def Let_def)
  then have "[] \<notin> fst ` set (am_menu ?m)"
    by (simp add: authorization_menu_rules_def)
  moreover have "am_first_accessible_menu ?m = first_menu (am_menu ?m)"
    by (simp add: build_authorization_matrix_def Let_def)
  ultimately show ?thesis
    unfolding Let_def using first_menu_Nil first_menu_split by auto
qed

section \<open>Audited requests\<close>

lemma read_only_posts_not_sensitive:
  "list_all (\<lambda>path. \<not> is_sensitive_operation MethodPost path) read_only_posts"
  by code_simp

text \<open>
  No change goes unrecorded.  A request is left out of the audit trail only when it
  succeeded and is a read: a GET, HEAD or OPTIONS request that is not sensitive, or a POST to
  exactly one of the listed read-only paths; every other request is recorded.
\<close>

theorem audit_omits_only_reads:
  "should_persist_audit method path status (is_sensitive_operation method path) \<longleftrightarrow>
     status \<ge> 400
     \<or> (if method = ''POST'' then path \<notin> set read_only_posts
        else if method \<in> {''GET'', ''HEAD'', ''OPTIONS''} then is_sensitive_operation method path
        else True)"
  using read_only_posts_not_sensitive
  by (auto simp: should_persist_audit_def is_read_only_post_def list_all_iff)

end
