(* ===== verification/Json.thy ===== *)
theory Json
  imports Format
begin

text \<open>
  The output of \<open>encoding/json\<close> for the structures the panel signs: strings (with the
  HTML escaping that \<open>json.Marshal\<close> applies), integers and booleans.  The main fact is that
  the encoding of a string is prefix-free, so a signed structure determines its fields.
\<close>

section \<open>Runes of a string\<close>

definition scalar :: "rune \<Rightarrow> bool" where
  "scalar r \<longleftrightarrow> r < 0xD800 \<or> 0xE000 \<le> r \<and> r < 0x110000"

lemma split64: "(a * 64 + b) div 64 = a" "(a * 64 + b) mod 64 = b" if "b < 64" for a b :: nat
  using that by simp_all

lemma decode_encode:
  assumes "scalar r"
  shows "decode_rune (encode_rune r @ x) = (r, length (encode_rune r))"
proof -
  consider "r < 0x80" | "0x80 \<le> r" "r < 0x800" | "0x800 \<le> r" "r < 0x10000" | "0x10000 \<le> r" "r < 0x110000"
    using assms unfolding scalar_def by linarith
  then show ?thesis
  proof cases
    case 1
    then show ?thesis by (simp add: encode_rune_def decode_rune_def)
  next
    case 2
    then have "2 \<le> r div 64" "r div 64 < 32" by (simp_all add: div_le_mono less_mult_imp_div_less)
    moreover have "r mod 64 \<le> 63" using mod_less_divisor [of 64 r] by linarith
    ultimately show ?thesis using 2
      by (simp add: encode_rune_def decode_rune_def rune_width_def second_ok_def cont_byte_def)
  next
    case 3
    define a b where "a = r div 64" and "b = r mod 64"
    define c d where "c = a div 64" and "d = a mod 64"
    have r: "r = (c * 64 + d) * 64 + b" "b < 64" "d < 64" by (simp_all add: a_def b_def c_def d_def)
    have e: "r div 0x1000 = c" "r div 0x40 mod 0x40 = d" "r mod 0x40 = b"
      by (simp_all add: a_def b_def c_def d_def div_mult2_eq [symmetric])
    have c: "c < 16" using 3 r unfolding add_mult_distrib by linarith
    have s: "second_ok (0xE0 + c) (0x80 + d)"
      using assms 3 r c unfolding scalar_def second_ok_def cont_byte_def by (auto split: if_splits)
    show ?thesis using 3 c s r(2,3)
      by (simp add: encode_rune_def decode_rune_def e rune_width_def cont_byte_def) (simp add: r)
  next
    case 4
    define a b where "a = r div 64" and "b = r mod 64"
    define c d where "c = a div 64" and "d = a mod 64"
    define f g where "f = c div 64" and "g = c mod 64"
    have r: "r = ((f * 64 + g) * 64 + d) * 64 + b" "b < 64" "d < 64" "g < 64"
      by (simp_all add: a_def b_def c_def d_def f_def g_def)
    have e: "r div 0x40000 = f" "r div 0x1000 mod 0x40 = g" "r div 0x40 mod 0x40 = d" "r mod 0x40 = b"
      by (simp_all add: a_def b_def c_def d_def f_def g_def div_mult2_eq [symmetric])
    have f: "f < 5" using 4 r unfolding add_mult_distrib by linarith
    have s: "second_ok (0xF0 + f) (0x80 + g)"
      using 4 r f unfolding second_ok_def cont_byte_def by (auto split: if_splits)
    show ?thesis using 4 f s r(2,3,4)
      by (simp add: encode_rune_def decode_rune_def e rune_width_def cont_byte_def) (simp add: r)
  qed
qed

lemma decode_rune_cases:
  assumes "decode_rune bs = (r, w)" "bs \<noteq> []" "\<not> (r = rune_error \<and> w = 1)"
  obtains (one) x where "bs = r # x" "w = 1" "r < 0x80"
  | (two) a b x where "bs = (0xC0 + a) # (0x80 + b) # x" "w = 2" "r = a * 64 + b" "2 \<le> a" "a < 32" "b < 64"
  | (three) a b c x where "bs = (0xE0 + a) # (0x80 + b) # (0x80 + c) # x" "w = 3"
      "r = (a * 64 + b) * 64 + c" "a < 16" "b < 64" "c < 64" "a = 0 \<Longrightarrow> 32 \<le> b" "a = 13 \<Longrightarrow> b < 32"
  | (four) a b c d x where "bs = (0xF0 + a) # (0x80 + b) # (0x80 + c) # (0x80 + d) # x" "w = 4"
      "r = ((a * 64 + b) * 64 + c) * 64 + d" "a < 5" "b < 64" "c < 64" "d < 64" "a = 0 \<Longrightarrow> 16 \<le> b" "a = 4 \<Longrightarrow> b < 16"
proof -
  obtain b0 r1 where bs: "bs = b0 # r1" using assms(2) by (cases bs) auto
  consider "b0 < 0x80"
    | b1 x where "\<not> b0 < 0x80" "bs = b0 # b1 # x" "rune_width b0 = 2" "second_ok b0 b1"
    | b1 b2 x where "\<not> b0 < 0x80" "bs = b0 # b1 # b2 # x" "rune_width b0 = 3" "second_ok b0 b1" "cont_byte b2"
    | b1 b2 b3 x where "\<not> b0 < 0x80" "bs = b0 # b1 # b2 # b3 # x" "rune_width b0 = 4" "second_ok b0 b1"
        "cont_byte b2" "cont_byte b3"
    using assms bs by (auto simp: decode_rune_def split: list.splits if_splits)
  then show ?thesis
  proof cases
    case 1
    then show ?thesis using assms(1) bs one by (auto simp: decode_rune_def)
  next
    case (2 b1 x)
    then have "0xC2 \<le> b0" "b0 \<le> 0xDF" "0x80 \<le> b1" "b1 \<le> 0xBF"
      by (auto simp: rune_width_def second_ok_def cont_byte_def split: if_splits)
    then have "b0 = 0xC0 + (b0 - 0xC0)" "b1 = 0x80 + (b1 - 0x80)" "2 \<le> b0 - 0xC0" "b0 - 0xC0 < 32" "b1 - 0x80 < 64"
      by linarith+
    moreover have "r = (b0 - 0xC0) * 64 + (b1 - 0x80)" "w = 2" using assms(1) 2 by (simp_all add: decode_rune_def)
    ultimately show ?thesis using two [of "b0 - 0xC0" "b1 - 0x80" x] 2 by metis
  next
    case (3 b1 b2 x)
    then have "0xE0 \<le> b0" "b0 \<le> 0xEF" "0x80 \<le> b1" "b1 \<le> 0xBF" "0x80 \<le> b2" "b2 \<le> 0xBF"
      "b0 = 0xE0 \<Longrightarrow> 0xA0 \<le> b1" "b0 = 0xED \<Longrightarrow> b1 \<le> 0x9F"
      by (auto simp: rune_width_def second_ok_def cont_byte_def split: if_splits)
    then have "b0 = 0xE0 + (b0 - 0xE0)" "b1 = 0x80 + (b1 - 0x80)" "b2 = 0x80 + (b2 - 0x80)" "b0 - 0xE0 < 16"
      "b1 - 0x80 < 64" "b2 - 0x80 < 64" "b0 - 0xE0 = 0 \<Longrightarrow> 32 \<le> b1 - 0x80" "b0 - 0xE0 = 13 \<Longrightarrow> b1 - 0x80 < 32"
      by linarith+
    moreover have "r = ((b0 - 0xE0) * 64 + (b1 - 0x80)) * 64 + (b2 - 0x80)" "w = 3"
      using assms(1) 3 by (simp_all add: decode_rune_def algebra_simps)
    ultimately show ?thesis using three [of "b0 - 0xE0" "b1 - 0x80" "b2 - 0x80" x] 3(2) by metis
  next
    case (4 b1 b2 b3 x)
    then have "0xF0 \<le> b0" "b0 \<le> 0xF4" "0x80 \<le> b1" "b1 \<le> 0xBF" "0x80 \<le> b2" "b2 \<le> 0xBF" "0x80 \<le> b3" "b3 \<le> 0xBF"
      "b0 = 0xF0 \<Longrightarrow> 0x90 \<le> b1" "b0 = 0xF4 \<Longrightarrow> b1 \<le> 0x8F"
      by (auto simp: rune_width_def second_ok_def cont_byte_def split: if_splits)
    then have "b0 = 0xF0 + (b0 - 0xF0)" "b1 = 0x80 + (b1 - 0x80)" "b2 = 0x80 + (b2 - 0x80)" "b3 = 0x80 + (b3 - 0x80)"
      "b0 - 0xF0 < 5" "b1 - 0x80 < 64" "b2 - 0x80 < 64" "b3 - 0x80 < 64"
      "b0 - 0xF0 = 0 \<Longrightarrow> 16 \<le> b1 - 0x80" "b0 - 0xF0 = 4 \<Longrightarrow> b1 - 0x80 < 16"
      by linarith+
    moreover have "r = (((b0 - 0xF0) * 64 + (b1 - 0x80)) * 64 + (b2 - 0x80)) * 64 + (b3 - 0x80)" "w = 4"
      using assms(1) 4 by (simp_all add: decode_rune_def algebra_simps)
    ultimately show ?thesis using four [of "b0 - 0xF0" "b1 - 0x80" "b2 - 0x80" "b3 - 0x80" x] 4(2) by metis
  qed
qed

lemma div64:
  fixes r :: nat
  assumes "r = q * 64 + c" "c < 64"
  shows "r mod 64 = c" "r div 64 = q" "r div 4096 = q div 64" "r div 262144 = q div 4096"
proof -
  show "r mod 64 = c" "r div 64 = q" using assms by simp_all
  then show "r div 4096 = q div 64" "r div 262144 = q div 4096"
    using div_mult2_eq [of r 64 64] div_mult2_eq [of r 64 4096] by simp_all
qed

lemma encode_decode:
  assumes "decode_rune bs = (r, w)" "bs \<noteq> []" "\<not> (r = rune_error \<and> w = 1)"
  shows "scalar r \<and> take w bs = encode_rune r"
  using assms
proof (cases rule: decode_rune_cases)
  case (three a b c x)
  then have "0x800 \<le> r" "r < 0x10000" unfolding add_mult_distrib by (cases "a = 0"; linarith)+
  moreover have "scalar r"
  proof (cases "a \<le> 13")
    case True
    then have "r < 0xD800" using three unfolding add_mult_distrib by (cases "a = 13"; linarith)
    then show ?thesis by (simp add: scalar_def)
  next
    case False
    then show ?thesis using three unfolding scalar_def add_mult_distrib by linarith
  qed
  moreover note d = div64 [OF three(3) three(6)] div64 [OF refl three(5), of a]
  ultimately show ?thesis using three(1,2,5) by (simp add: encode_rune_def d)
next
  case (four a b c d x)
  then have "0x10000 \<le> r" "r < 0x110000" unfolding add_mult_distrib by (cases "a = 0"; cases "a = 4"; linarith)+
  then have r: "scalar r" "\<not> r < 0x80" "\<not> r < 0x800" "\<not> r < 0x10000" unfolding scalar_def by linarith+
  note d = div64 [OF four(3) four(7)] div64 [OF refl four(6), of "a * 64 + b"] div64 [OF refl four(5), of a]
  have m: "b mod 64 = b" "c mod 64 = c" using four(5,6) by simp_all
  have "encode_rune r = [0xF0 + a, 0x80 + b, 0x80 + c, 0x80 + d]"
    unfolding encode_rune_def d m if_not_P [OF r(2)] if_not_P [OF r(3)] if_not_P [OF r(4)] by (rule refl)
  then show ?thesis using four(1,2) r(1) by simp
qed (auto simp: encode_rune_def scalar_def)

text \<open>
  What a \<open>range\<close> loop or a decoder sees of a string: its runes, \<open>None\<close> for a byte that
  is not part of a valid encoding.
\<close>

function runes :: "string \<Rightarrow> rune option list" where
  "runes s =
     (if s = [] then []
      else case decode_rune (map ord s) of
        (r, w) \<Rightarrow> (if r = rune_error \<and> w = 1 then None else Some r) # runes (drop w s))"
  by pat_completeness auto
termination
proof (relation "measure length")
  fix s :: string and r w assume "s \<noteq> []" "(r, w) = decode_rune (map ord s)"
  then have "1 \<le> w" using decode_rune_width [of "map ord s"] by (metis Nil_is_map_conv snd_conv)
  then show "(drop w s, s) \<in> measure length" using \<open>s \<noteq> []\<close> by (cases s) auto
qed simp

declare runes.simps [simp del]

definition valid_utf8 :: "string \<Rightarrow> bool" where
  "valid_utf8 s \<longleftrightarrow> None \<notin> set (runes s)"

lemma runes_Nil [simp]: "runes [] = []"
  by (simp add: runes.simps)

lemma runes_scalar: "Some r \<in> set (runes s) \<Longrightarrow> scalar r"
proof (induction s rule: runes.induct)
  case (1 s)
  then have ne: "s \<noteq> []" by (cases s) auto
  obtain q w where d: "decode_rune (map ord s) = (q, w)" by fastforce
  from 1(2) have "Some r = (if q = rune_error \<and> w = 1 then None else Some q) \<or> Some r \<in> set (runes (drop w s))"
    by (subst (asm) runes.simps) (simp add: ne d)
  then show ?case
    using 1(1) [OF ne d [symmetric]] encode_decode [OF d] ne by (auto split: if_splits)
qed

text \<open>A valid string is the encoding of its runes.\<close>

lemma valid_utf8_encoding:
  "valid_utf8 s \<Longrightarrow> map ord s = concat (map (\<lambda>r. encode_rune (the r)) (runes s))"
proof (induction s rule: runes.induct)
  case (1 s)
  show ?case
  proof (cases "s = []")
    case False
    obtain q w where d: "decode_rune (map ord s) = (q, w)" by fastforce
    have rs: "runes s = (if q = rune_error \<and> w = 1 then None else Some q) # runes (drop w s)"
      by (subst runes.simps) (simp add: False d)
    then have v: "\<not> (q = rune_error \<and> w = 1)" "valid_utf8 (drop w s)"
      using 1(2) by (auto simp: valid_utf8_def split: if_splits)
    then have "take w (map ord s) = encode_rune q" using encode_decode [OF d] False by simp
    moreover have "map ord (drop w s) = concat (map (\<lambda>r. encode_rune (the r)) (runes (drop w s)))"
      using 1(1) [OF False d [symmetric]] v by blast
    ultimately show ?thesis
      using rs v append_take_drop_id [of w "map ord s"] by (auto simp: drop_map)
  qed simp
qed

lemma valid_utf8_runes_inject:
  assumes "valid_utf8 s" "runes s = runes t"
  shows "s = t"
proof -
  have "valid_utf8 t" using assms by (simp add: valid_utf8_def)
  then have "map ord s = (map ord t :: nat list)"
    using valid_utf8_encoding [OF assms(1)] valid_utf8_encoding [of t] assms(2) by simp
  then show ?thesis by (simp add: inj_map_eq_map inj_def)
qed

lemma encode_rune_bytes: "scalar r \<Longrightarrow> set (encode_rune r) \<subseteq> {..<256}"
  by (auto simp: encode_rune_def scalar_def less_mult_imp_div_less)

lemma runes_utf8: "list_all scalar rs \<Longrightarrow> runes (utf8 rs) = map Some rs"
proof (induction rs)
  case (Cons r rs)
  let ?s = "utf8 (r # rs)"
  have b: "map ord (map char_of bs) = bs" if "set bs \<subseteq> {..<256}" for bs :: "nat list"
    using that by (auto simp: map_idI comp_def subset_iff)
  have o: "map ord ?s = encode_rune r @ map ord (utf8 rs)"
    using Cons.prems by (simp add: utf8_def bytes_def b [OF encode_rune_bytes, unfolded map_map] comp_def)
      (use b [OF encode_rune_bytes] in \<open>simp add: comp_def\<close>)
  have ne: "?s \<noteq> []" using length_encode_rune [of r] by (cases "encode_rune r") (auto simp: utf8_def bytes_def)
  have d: "decode_rune (map ord ?s) = (r, length (encode_rune r))"
    unfolding o using Cons.prems by (intro decode_encode) simp
  have "\<not> (r = rune_error \<and> length (encode_rune r) = 1)" by (auto simp: rune_error_def encode_rune_def)
  moreover have "drop (length (encode_rune r)) ?s = utf8 rs" by (simp add: utf8_def bytes_def)
  ultimately show ?case using Cons ne d by (subst runes.simps) auto
qed (simp add: utf8_def bytes_def)

lemma valid_utf8_utf8: "list_all scalar rs \<Longrightarrow> valid_utf8 (utf8 rs)"
  by (auto simp: valid_utf8_def runes_utf8)

section \<open>Encoding of values\<close>

text \<open>
  \<open>appendString\<close> of \<open>encoding/json\<close> with \<open>escapeHTML\<close>: what one rune becomes.  A byte
  outside every valid encoding becomes the escape of U+FFFD.
\<close>

definition unicode_escape :: "nat \<Rightarrow> string" where
  "unicode_escape r =
     [CHR 0x5C, CHR ''u'', digit_char (r div 0x1000), digit_char (r div 0x100 mod 0x10),
      digit_char (r div 0x10 mod 0x10), digit_char (r mod 0x10)]"

definition short_escapes :: "(rune \<times> char) list" where
  "short_escapes = [(0x22, CHR 0x22), (0x5C, CHR 0x5C), (8, CHR ''b''), (12, CHR ''f''),
     (10, CHR ''n''), (13, CHR ''r''), (9, CHR ''t'')]"

definition html_escaped :: "rune \<Rightarrow> bool" where
  "html_escaped r \<longleftrightarrow> r < 0x20 \<or> r \<in> {0x26, 0x3C, 0x3E, 0x2028, 0x2029}"

definition json_unit :: "rune option \<Rightarrow> string" where
  "json_unit x =
     (case x of
        None \<Rightarrow> unicode_escape rune_error
      | Some r \<Rightarrow>
          (case map_of short_escapes r of
             Some c \<Rightarrow> [CHR 0x5C, c]
           | None \<Rightarrow> if html_escaped r then unicode_escape r else utf8 [r]))"

definition json_string :: "string \<Rightarrow> string" where
  "json_string s = CHR 0x22 # concat (map json_unit (runes s)) @ [CHR 0x22]"

definition json_bool :: "bool \<Rightarrow> string" where
  "json_bool b = (if b then ''true'' else ''false'')"

text \<open>How the text of a rune begins tells its kind and its length.\<close>

lemma short_escapes_inject:
  "map_of short_escapes r = Some c \<Longrightarrow> map_of short_escapes r' = Some c \<Longrightarrow> r = r'"
  by (auto simp: short_escapes_def split: if_splits)

lemma short_escapes_not_u: "map_of short_escapes r = Some c \<Longrightarrow> c \<noteq> CHR ''u''"
  by (auto simp: short_escapes_def split: if_splits)

lemma digit_char_inject: "d < 16 \<Longrightarrow> e < 16 \<Longrightarrow> digit_char d = digit_char e \<longleftrightarrow> d = e"
  unfolding digit_char_def by (subst nth_eq_iff_index_eq) auto

lemma unicode_escape_inject:
  assumes "unicode_escape r = unicode_escape q" "r < 0x10000" "q < 0x10000"
  shows "r = q"
proof -
  have "r div 0x1000 = q div 0x1000" "r div 0x100 mod 0x10 = q div 0x100 mod 0x10"
    "r div 0x10 mod 0x10 = q div 0x10 mod 0x10" "r mod 0x10 = q mod 0x10"
    using assms by (simp_all add: unicode_escape_def digit_char_inject less_mult_imp_div_less)
  moreover have "n = ((n div 0x1000 * 0x10 + n div 0x100 mod 0x10) * 0x10 + n div 0x10 mod 0x10) * 0x10 + n mod 0x10"
    for n :: nat
    using div_mult2_eq [of n 16 16] div_mult2_eq [of n 256 16]
      div_mult_mod_eq [of "n div 256" 16] div_mult_mod_eq [of "n div 16" 16] div_mult_mod_eq [of n 16] by simp
  ultimately show ?thesis by metis
qed

lemma html_escaped_small: "html_escaped r \<Longrightarrow> r < 0x10000 \<and> r \<noteq> rune_error"
  by (auto simp: html_escaped_def rune_error_def)

lemma hd_utf8:
  assumes "scalar r" "map_of short_escapes r = None"
  obtains c cs where "utf8 [r] = c # cs" "c \<noteq> CHR 0x5C" "c \<noteq> CHR 0x22"
proof -
  have "r \<noteq> 0x5C" "r \<noteq> 0x22" using assms(2) by (auto simp: short_escapes_def split: if_splits)
  then obtain b bs where b: "encode_rune r = b # bs" "b \<noteq> 0x5C" "b \<noteq> 0x22"
    by (cases "encode_rune r") (auto simp: encode_rune_def split: if_splits)
  then have "b < 256" using encode_rune_bytes [OF assms(1)] by auto
  then have "char_of b \<noteq> CHR 0x5C" "char_of b \<noteq> CHR 0x22"
    using b by (auto simp: take_bit_eq_mod dest!: arg_cong [where f = "of_char :: char \<Rightarrow> nat"])
  then show ?thesis using that b by (simp add: utf8_def bytes_def)
qed

definition rune_ok :: "rune option \<Rightarrow> bool" where
  "rune_ok x \<longleftrightarrow> (case x of None \<Rightarrow> True | Some r \<Rightarrow> scalar r)"

lemma json_unit_cases:
  assumes "rune_ok x"
  obtains (short) r c where "x = Some r" "map_of short_escapes r = Some c" "json_unit x = [CHR 0x5C, c]"
  | (escape) r where "x = (if r = rune_error then None else Some r)" "r < 0x10000" "json_unit x = unicode_escape r"
  | (plain) r where "x = Some r" "scalar r" "map_of short_escapes r = None" "json_unit x = utf8 [r]"
proof (cases x)
  case None
  then show ?thesis using escape [of rune_error] by (simp add: json_unit_def) (simp add: rune_error_def)
next
  case (Some r)
  then show ?thesis using short [of r] escape [of r] plain [of r] html_escaped_small [of r] assms
    by (cases "map_of short_escapes r"; cases "html_escaped r") (simp_all add: json_unit_def rune_ok_def)
qed

lemma map_ord_utf8:
  assumes "scalar r"
  shows "map ord (utf8 [r]) = encode_rune r"
proof -
  have "map ord (map char_of bs) = bs" if "set bs \<subseteq> {..<256}" for bs :: "nat list"
    using that by (auto simp: map_idI comp_def subset_iff)
  then show ?thesis using encode_rune_bytes [OF assms] by (simp add: utf8_def bytes_def)
qed

lemma utf8_prefix_free:
  assumes "scalar r" "scalar q" "utf8 [r] @ x = utf8 [q] @ y"
  shows "r = q \<and> x = y"
proof -
  have "encode_rune r @ map ord x = encode_rune q @ map ord y"
    using arg_cong [OF assms(3), of "map ord"] assms(1,2) by (simp add: map_ord_utf8)
  then have "r = q" using decode_encode [OF assms(1)] decode_encode [OF assms(2)] by (metis fst_conv)
  then show ?thesis using assms(3) by simp
qed

lemma runes_ok: "x \<in> set (runes s) \<Longrightarrow> rune_ok x"
  using runes_scalar by (auto simp: rune_ok_def split: option.splits)

text \<open>The two kinds of text of a rune: an escape and a plain encoding.\<close>

lemma json_unit_kind:
  assumes "rune_ok x"
  obtains (escaped) cs where "json_unit x = CHR 0x5C # cs"
  | (plain) r c cs where "x = Some r" "scalar r" "json_unit x = utf8 [r]" "utf8 [r] = c # cs" "c \<noteq> CHR 0x5C" "c \<noteq> CHR 0x22"
  using assms
proof (cases rule: json_unit_cases)
  case (plain r)
  from hd_utf8 [OF plain(2,3)] obtain c cs where "utf8 [r] = c # cs" "c \<noteq> CHR 0x5C" "c \<noteq> CHR 0x22" .
  then show ?thesis using that(2) plain by blast
qed (use escaped in \<open>auto simp: unicode_escape_def\<close>)

lemma json_escape_prefix_free:
  assumes "rune_ok a" "rune_ok b" "json_unit a = CHR 0x5C # as" "json_unit b = CHR 0x5C # bs" "as @ x = bs @ y"
  shows "a = b \<and> x = y"
proof -
  have plain: False if "scalar r" "map_of short_escapes r = None" "utf8 [r] = CHR 0x5C # cs" for r cs
    using hd_utf8 [OF that(1,2)] that(3) by fastforce
  from assms(1) show ?thesis
  proof (cases rule: json_unit_cases)
    case a: (short r c)
    from assms(2) show ?thesis
    proof (cases rule: json_unit_cases)
      case (short q d)
      then show ?thesis using a assms(3-5) short_escapes_inject by auto
    next
      case (escape q)
      then have "c = CHR ''u''" using a(3) assms(3-5) by (auto simp: unicode_escape_def)
      then show ?thesis using short_escapes_not_u [OF a(2)] by blast
    qed (use assms(4) plain in auto)
  next
    case a: (escape r)
    from assms(2) show ?thesis
    proof (cases rule: json_unit_cases)
      case (short q d)
      then have "d = CHR ''u''" using a(3) assms(3-5) by (auto simp: unicode_escape_def)
      then show ?thesis using short_escapes_not_u [OF short(2)] by blast
    next
      case (escape q)
      then have "unicode_escape r @ x = unicode_escape q @ y" using a assms(3-5) by simp
      then have "unicode_escape r = unicode_escape q \<and> x = y" by (auto simp: unicode_escape_def)
      then show ?thesis using unicode_escape_inject a escape by auto
    qed (use assms(4) plain in auto)
  qed (use assms(3) plain in auto)
qed

lemma json_unit_prefix_free:
  assumes "rune_ok a" "rune_ok b" "json_unit a @ x = json_unit b @ y"
  shows "a = b \<and> x = y"
  using assms(1)
proof (cases rule: json_unit_kind)
  case a: (escaped as)
  from assms(2) show ?thesis
  proof (cases rule: json_unit_kind)
    case (escaped bs)
    have "as @ x = bs @ y" using assms(3) unfolding a escaped by simp
    from json_escape_prefix_free [OF assms(1,2) a escaped this] show ?thesis .
  qed (use a assms(3) in auto)
next
  case a: (plain r c cs)
  from assms(2) show ?thesis
  proof (cases rule: json_unit_kind)
    case (plain q d ds)
    have "utf8 [r] @ x = utf8 [q] @ y" using assms(3) unfolding a(3) plain(3) .
    from utf8_prefix_free [OF a(2) plain(2) this] show ?thesis unfolding a(1) plain(1) by blast
  qed (use a assms(3) in auto)
qed

lemma json_unit_no_quote: "rune_ok a \<Longrightarrow> json_unit a @ x \<noteq> CHR 0x22 # y"
  by (cases rule: json_unit_kind) auto

lemma json_body_prefix_free:
  "list_all rune_ok as \<Longrightarrow> list_all rune_ok bs \<Longrightarrow>
   concat (map json_unit as) @ CHR 0x22 # x = concat (map json_unit bs) @ CHR 0x22 # y \<Longrightarrow> as = bs \<and> x = y"
proof (induction as arbitrary: bs)
  case Nil
  show ?case
  proof (cases bs)
    case (Cons b bs')
    then have "json_unit b @ concat (map json_unit bs') @ CHR 0x22 # y = CHR 0x22 # x" "rune_ok b"
      using Nil.prems by simp_all
    then show ?thesis using json_unit_no_quote by blast
  qed (use Nil.prems in simp)
next
  case (Cons a as)
  have "bs \<noteq> []" using Cons.prems(3) json_unit_no_quote [of a "concat (map json_unit as) @ CHR 0x22 # x" y] Cons.prems(1)
    by auto
  then obtain b bs' where bs: "bs = b # bs'" by (cases bs) auto
  have "json_unit a @ (concat (map json_unit as) @ CHR 0x22 # x) = json_unit b @ (concat (map json_unit bs') @ CHR 0x22 # y)"
    using Cons.prems(3) bs by simp
  from json_unit_prefix_free [OF _ _ this] Cons.prems bs
  have "a = b" "concat (map json_unit as) @ CHR 0x22 # x = concat (map json_unit bs') @ CHR 0x22 # y" by auto
  then show ?case using Cons.IH [of bs'] Cons.prems bs by auto
qed

text \<open>
  A valid string is determined by its encoding and the encoding ends where it ends; what
  follows is free.
\<close>

lemma json_string_end:
  assumes "valid_utf8 s"
  shows "json_string s @ x = json_string t @ y \<longleftrightarrow> s = t \<and> x = y"
proof
  assume "json_string s @ x = json_string t @ y"
  then have "runes s = runes t \<and> x = y"
    by (intro json_body_prefix_free) (auto simp: json_string_def list_all_iff runes_ok)
  then show "s = t \<and> x = y" using valid_utf8_runes_inject [OF assms] by blast
qed simp

lemma json_bool_end: "json_bool a @ x = json_bool b @ y \<longleftrightarrow> a = b \<and> x = y"
  by (auto simp: json_bool_def)

section \<open>Trimming keeps encodings\<close>

lemma space_runes_scalar:
  assumes "w \<in> set space_runes"
  obtains r where "scalar r" "w = utf8 [r]"
proof -
  define rs :: "nat list" where
    "rs = [9, 10, 11, 12, 13, 32, 0x85, 0xA0, 0x1680] @ [0x2000 ..< 0x200B] @ [0x2028, 0x2029, 0x202F, 0x205F, 0x3000]"
  have eq: "space_runes = map (\<lambda>r. utf8 [r]) rs"
    by (simp add: rs_def space_runes_def utf8_def bytes_def encode_rune_def)
  have sc: "list_all scalar rs" by (simp add: rs_def scalar_def)
  from assms obtain r where "r \<in> set rs" "w = utf8 [r]" unfolding eq by auto
  then show ?thesis using that sc by (auto simp: list_all_iff)
qed

lemma utf8_Nil [simp]: "utf8 [] = []"
  by (simp add: utf8_def bytes_def)

lemma utf8_append: "utf8 (xs @ ys) = utf8 xs @ utf8 ys"
  by (simp add: utf8_def bytes_def)

lemma utf8_Cons: "utf8 (r # rs) = utf8 [r] @ utf8 rs"
  using utf8_append [of "[r]" rs] by simp

lemma utf8_not_Nil: "utf8 [r] \<noteq> []"
  using length_encode_rune [of r] by (auto simp: utf8_def bytes_def)

lemma encode_rune_shape:
  assumes "scalar r"
  obtains b cs where "encode_rune r = b # cs" "\<not> cont_byte b" "list_all cont_byte cs"
proof -
  have m: "cont_byte (0x80 + n mod 64)" for n using mod_less_divisor [of 64 n] unfolding cont_byte_def by linarith
  have "encode_rune r \<noteq> []" "\<not> cont_byte (hd (encode_rune r))" "list_all cont_byte (tl (encode_rune r))"
    unfolding encode_rune_def using m by (auto simp: cont_byte_def [of "_ + _ div _"] cont_byte_def [of r])
  then show ?thesis using that [of "hd (encode_rune r)" "tl (encode_rune r)"] by simp
qed

lemma utf8_suffix_free:
  assumes "scalar r" "scalar q" "xs @ utf8 [r] = ys @ utf8 [q]"
  shows "r = q \<and> xs = ys"
proof -
  obtain b cs where r: "encode_rune r = b # cs" "\<not> cont_byte b" "list_all cont_byte cs" by (rule encode_rune_shape [OF assms(1)])
  obtain d ds where q: "encode_rune q = d # ds" "\<not> cont_byte d" "list_all cont_byte ds" by (rule encode_rune_shape [OF assms(2)])
  have eq: "map ord xs @ b # cs = map ord ys @ d # ds"
    using arg_cong [OF assms(3), of "map ord"] r q assms(1,2) by (simp add: map_ord_utf8)
  have tw: "takeWhile cont_byte (rev (l @ x # zs)) = rev zs" if "\<not> cont_byte x" "list_all cont_byte zs" for l x zs
    using that by (subst rev_append) (simp add: takeWhile_append2 takeWhile_tail list_all_iff)
  have "rev cs = rev ds" using tw [OF r(2,3)] tw [OF q(2,3)] eq by metis
  then have "encode_rune r = encode_rune q" using eq r q by simp
  then have "r = q" using decode_encode [OF assms(1)] decode_encode [OF assms(2)] by (metis fst_conv)
  then show ?thesis using assms(3) by simp
qed

lemma trim_left_utf8: "list_all scalar rs \<Longrightarrow> \<exists>rs'. trim_left (utf8 rs) = utf8 rs' \<and> set rs' \<subseteq> set rs"
proof (induction rs)
  case Nil
  then show ?case using suffix_trim_left [of "[]"] by auto
next
  case (Cons r rs)
  show ?case
  proof (cases "space_prefix (utf8 (r # rs))")
    case None
    then show ?thesis by (subst trim_left.simps) auto
  next
    case (Some w)
    obtain q where q: "scalar q" "w = utf8 [q]" "prefix w (utf8 (r # rs))"
      using space_prefix_Some [OF Some] space_runes_scalar by blast
    then obtain y where "utf8 [r] @ utf8 rs = utf8 [q] @ y" unfolding utf8_Cons [of r rs] prefix_def by blast
    then have "r = q" using utf8_prefix_free [OF _ q(1)] Cons.prems by auto
    then have "drop (length w) (utf8 (r # rs)) = utf8 rs" using q by (simp add: utf8_Cons [of q rs])
    then have "trim_left (utf8 (r # rs)) = trim_left (utf8 rs)" by (subst trim_left.simps) (simp add: Some)
    then show ?thesis using Cons by auto
  qed
qed

lemma trim_right_utf8: "list_all scalar rs \<Longrightarrow> \<exists>rs'. trim_right (utf8 rs) = utf8 rs' \<and> set rs' \<subseteq> set rs"
proof (induction rs rule: rev_induct)
  case Nil
  then show ?case using prefix_trim_right [of "[]"] by auto
next
  case (snoc r rs)
  show ?case
  proof (cases "space_suffix (utf8 (rs @ [r]))")
    case None
    then show ?thesis by (subst trim_right.simps) auto
  next
    case (Some w)
    obtain q where q: "scalar q" "w = utf8 [q]" "suffix w (utf8 (rs @ [r]))"
      using space_suffix_Some [OF Some] space_runes_scalar by blast
    then obtain y where "utf8 rs @ utf8 [r] = y @ utf8 [q]" unfolding utf8_append suffix_def by blast
    then have "r = q" using utf8_suffix_free [OF _ q(1)] snoc.prems by auto
    then have "take (length (utf8 (rs @ [r])) - length w) (utf8 (rs @ [r])) = utf8 rs" using q by (simp add: utf8_append)
    then have "trim_right (utf8 (rs @ [r])) = trim_right (utf8 rs)" by (subst trim_right.simps) (simp add: Some)
    then show ?thesis using snoc by auto
  qed
qed

lemma trim_space_utf8:
  assumes "list_all scalar rs"
  obtains rs' where "trim_space (utf8 rs) = utf8 rs'" "set rs' \<subseteq> set rs"
proof -
  obtain xs where x: "trim_left (utf8 rs) = utf8 xs" "set xs \<subseteq> set rs" using trim_left_utf8 [OF assms] by blast
  then have "list_all scalar xs" using assms by (auto simp: list_all_iff)
  then obtain ys where "trim_right (utf8 xs) = utf8 ys" "set ys \<subseteq> set xs" using trim_right_utf8 by blast
  then show ?thesis using that x by (auto simp: trim_space_def)
qed

lemma ascii_valid_utf8: "ascii s \<Longrightarrow> valid_utf8 s"
proof -
  assume a: "ascii s"
  then have "utf8 (map ord s) = s"
    by (induction s) (simp_all add: ascii_def utf8_def bytes_def encode_rune_def)
  moreover have "list_all scalar (map ord s)" using a by (auto simp: ascii_def scalar_def list_all_iff)
  ultimately show ?thesis using valid_utf8_utf8 by metis
qed

end
