(* ===== verification/Audit_Trail.thy ===== *)
theory Audit_Trail
  imports Access Json
begin

text \<open>
  The audit trail (\<open>internal/services/audit/{manager,integrity,cleaner,query,auth}.go\<close>,
  \<open>internal/models/audit.go\<close>): events linked by keyed hashes, a signed head, retention
  with a signed checkpoint, and the queries over the events.  HMAC-SHA256, Unicode's case
  tables and the SQL operator LIKE are parameters.  Every engine call may fail; the text of
  the failure, which the retry loop inspects, is the parameter \<open>fault\<close>.
\<close>

section \<open>Data\<close>

record event_input =
  in_request_id :: string
  in_event_type :: string
  in_action :: string
  in_method :: string
  in_route :: string
  in_path :: string
  in_status :: int
  in_outcome :: string
  in_sensitive :: bool
  in_user_id :: int
  in_username :: string
  in_auth_mode :: string
  in_remote_ip :: string
  in_user_agent :: string
  in_content_length :: int
  in_duration_ms :: int
  in_message :: string
  in_created_at :: time

record audit_event =
  ae_id :: nat
  ae_sequence :: "64 word"
  ae_request_id :: string
  ae_event_type :: string
  ae_action :: string
  ae_method :: string
  ae_route :: string
  ae_path :: string
  ae_status :: int
  ae_outcome :: string
  ae_sensitive :: bool
  ae_user_id :: int
  ae_username :: string
  ae_auth_mode :: string
  ae_remote_ip :: string
  ae_user_agent :: string
  ae_content_length :: int
  ae_duration_ms :: int
  ae_message :: string
  ae_created_at :: time
  ae_previous_hash :: string
  ae_entry_hash :: string
  ae_chain_version :: "8 word"

record audit_checkpoint =
  ac_id :: nat
  ac_through_sequence :: "64 word"
  ac_through_entry_hash :: string
  ac_signature :: string
  ac_updated_at :: time

record audit_chain_state =
  as_id :: nat
  as_last_sequence :: "64 word"
  as_last_entry_hash :: string
  as_signature :: string
  as_updated_at :: time

record audit_db =
  audit_events :: "audit_event list"
  audit_checkpoints :: "audit_checkpoint list"
  audit_states :: "audit_chain_state list"

record verification_result =
  vr_valid :: bool
  vr_checked_entries :: int
  vr_checkpoint_sequence :: "64 word"
  vr_first_sequence :: "64 word"
  vr_last_sequence :: "64 word"
  vr_invalid_sequence :: "64 word"
  vr_message :: string

record cleanup_result =
  cr_deleted_entries :: int
  cr_checkpoint_sequence :: "64 word"
  cr_checkpoint_entry_hash :: string
  cr_retention_cutoff :: time
  cr_integrity_check_passed :: bool

record audit_env =
  au_hmac :: "string \<Rightarrow> string \<Rightarrow> string"
  au_key :: string
  au_lower :: casemap
  au_upper :: casemap

datatype audit_error =
    AuditNotConfigured
  | AuditShortKey
  | AuditEngine string
  | AuditConstraint
  | AuditHeadMissing
  | AuditHeadInvalid
  | AuditCleanupRefused string
  | AuditCleanerUnconfigured
  | AuditRetention
  | AuditSchedule
  | AuditNotFound

type_synonym 'a audit_act = "(audit_db, audit_error, 'a) act"

abbreviation chain_version :: "8 word" where
  "chain_version \<equiv> 1"

definition genesis_hash :: string where
  "genesis_hash = replicate 64 CHR ''0''"

definition new_audit_manager :: "bool \<Rightarrow> string \<Rightarrow> audit_error + string" where
  "new_audit_manager database signing_key =
     (if \<not> database then Inl AuditNotConfigured
      else if length signing_key < 32 then Inl AuditShortKey
      else Inr signing_key)"

section \<open>Cleaning of input\<close>

text \<open>\<open>unicode.IsControl\<close>\<close>

definition is_control :: "rune \<Rightarrow> bool" where
  "is_control r \<longleftrightarrow> r < 0x20 \<or> 0x7F \<le> r \<and> r < 0xA0"

fun sanitize_loop :: "nat \<Rightarrow> string \<Rightarrow> rune option list \<Rightarrow> string" where
  "sanitize_loop limit built [] = built"
| "sanitize_loop limit built (x # xs) =
     (let character = (case x of None \<Rightarrow> rune_error | Some r \<Rightarrow> r);
          built' = built @ utf8 [if is_control character then 0x20 else character]
      in if limit \<le> length built' then built' else sanitize_loop limit built' xs)"

definition sanitize :: "string \<Rightarrow> nat \<Rightarrow> string" where
  "sanitize value limit =
     (let v = trim_space value in
      if v = [] \<or> limit = 0 then [] else trim_space (sanitize_loop limit [] (runes v)))"

definition sanitize_default :: "string \<Rightarrow> string \<Rightarrow> nat \<Rightarrow> string" where
  "sanitize_default value fallback limit =
     (let cleaned = sanitize value limit in if cleaned = [] then fallback else cleaned)"

definition normalize_event :: "audit_env \<Rightarrow> time \<Rightarrow> event_input \<Rightarrow> audit_event" where
  "normalize_event env now input =
     (let created_at = (if is_zero (in_created_at input) then now else in_created_at input);
          status = (if in_status input < 0 \<or> 999 < in_status input then 0 else in_status input);
          outcome0 = to_lower (au_lower env) (trim_space (in_outcome input));
          outcome = (if outcome0 \<noteq> ''success'' \<and> outcome0 \<noteq> ''failure''
            then if 200 \<le> status \<and> status < 400 then ''success'' else ''failure''
            else outcome0)
      in \<lparr>ae_id = 0, ae_sequence = 0,
          ae_request_id = sanitize (in_request_id input) 64,
          ae_event_type = sanitize_default (in_event_type input) ''http'' 32,
          ae_action = sanitize_default (in_action input) ''unknown'' 160,
          ae_method = sanitize (to_upper (au_upper env) (in_method input)) 12,
          ae_route = sanitize (in_route input) 255,
          ae_path = sanitize (in_path input) 1024,
          ae_status = status,
          ae_outcome = outcome,
          ae_sensitive = in_sensitive input,
          ae_user_id = in_user_id input,
          ae_username = sanitize (in_username input) 128,
          ae_auth_mode = sanitize (in_auth_mode input) 32,
          ae_remote_ip = sanitize (in_remote_ip input) 64,
          ae_user_agent = sanitize (in_user_agent input) 512,
          ae_content_length = max 0 (in_content_length input),
          ae_duration_ms = max 0 (in_duration_ms input),
          ae_message = sanitize (in_message input) 255,
          ae_created_at = created_at,
          ae_previous_hash = [], ae_entry_hash = [], ae_chain_version = chain_version\<rparr>)"

section \<open>Signatures\<close>

text \<open>\<open>Time.UnixNano\<close>, computed in 64 bits.\<close>

definition unix_nano :: "time \<Rightarrow> int" where
  "unix_nano t = sint (word_of_int (t - 62135596800 * second) :: 64 word)"

definition event_payload :: "audit_event \<Rightarrow> string" where
  \<open>event_payload e =
     ''{"sequence":'' @ decimal (unat (ae_sequence e))
     @ '',"requestId":'' @ json_string (ae_request_id e)
     @ '',"eventType":'' @ json_string (ae_event_type e)
     @ '',"action":'' @ json_string (ae_action e)
     @ '',"method":'' @ json_string (ae_method e)
     @ '',"route":'' @ json_string (ae_route e)
     @ '',"path":'' @ json_string (ae_path e)
     @ '',"status":'' @ format_int (ae_status e)
     @ '',"outcome":'' @ json_string (ae_outcome e)
     @ '',"sensitive":'' @ json_bool (ae_sensitive e)
     @ '',"userId":'' @ format_int (ae_user_id e)
     @ '',"username":'' @ json_string (ae_username e)
     @ '',"authMode":'' @ json_string (ae_auth_mode e)
     @ '',"remoteIp":'' @ json_string (ae_remote_ip e)
     @ '',"userAgent":'' @ json_string (ae_user_agent e)
     @ '',"contentLength":'' @ format_int (ae_content_length e)
     @ '',"durationMs":'' @ format_int (ae_duration_ms e)
     @ '',"message":'' @ json_string (ae_message e)
     @ '',"createdAtUnixNano":'' @ format_int (unix_nano (ae_created_at e))
     @ '',"previousHash":'' @ json_string (ae_previous_hash e)
     @ '',"chainVersion":'' @ decimal (unat (ae_chain_version e)) @ ''}''\<close>

definition checkpoint_payload :: "audit_checkpoint \<Rightarrow> string" where
  \<open>checkpoint_payload c =
     ''{"throughSequence":'' @ decimal (unat (ac_through_sequence c))
     @ '',"throughEntryHash":'' @ json_string (ac_through_entry_hash c) @ ''}''\<close>

definition state_payload :: "audit_chain_state \<Rightarrow> string" where
  \<open>state_payload st =
     ''{"lastSequence":'' @ decimal (unat (as_last_sequence st))
     @ '',"lastEntryHash":'' @ json_string (as_last_entry_hash st) @ ''}''\<close>

definition sign :: "audit_env \<Rightarrow> string \<Rightarrow> string" where
  "sign env payload = format_hex (au_hmac env (au_key env) payload)"

definition sign_event :: "audit_env \<Rightarrow> audit_event \<Rightarrow> string" where
  "sign_event env e = sign env (event_payload e)"

definition sign_checkpoint :: "audit_env \<Rightarrow> audit_checkpoint \<Rightarrow> string" where
  "sign_checkpoint env c = sign env (checkpoint_payload c)"

definition verify_checkpoint :: "audit_env \<Rightarrow> audit_checkpoint \<Rightarrow> bool" where
  "verify_checkpoint env c \<longleftrightarrow>
     \<not> (ac_through_sequence c = 0 \<or> ac_through_entry_hash c = [] \<or> ac_signature c = [])
     \<and> sign_checkpoint env c = ac_signature c"

definition sign_state :: "audit_env \<Rightarrow> audit_chain_state \<Rightarrow> string" where
  "sign_state env st = sign env (state_payload st)"

definition verify_state :: "audit_env \<Rightarrow> audit_chain_state \<Rightarrow> bool" where
  "verify_state env st \<longleftrightarrow>
     \<not> (as_last_sequence st = 0 \<or> as_last_entry_hash st = [] \<or> as_signature st = [])
     \<and> sign_state env st = as_signature st"

section \<open>Appending\<close>

definition newest :: "audit_event list \<Rightarrow> audit_event option" where
  "newest es = first_by (\<lambda>e. (- uint (ae_sequence e), ae_id e)) es"

definition find_checkpoint :: "audit_db \<Rightarrow> audit_checkpoint option" where
  "find_checkpoint db = find (\<lambda>c. ac_id c = 1) (audit_checkpoints db)"

definition find_state :: "audit_db \<Rightarrow> audit_chain_state option" where
  "find_state db = find (\<lambda>st. as_id st = 1) (audit_states db)"

definition load_chain_head :: "string \<Rightarrow> (64 word \<times> string) audit_act" where
  "load_chain_head fault =
     bnd (query (AuditEngine (''read audit chain head: '' @ fault)) (\<lambda>db. newest (audit_events db))) (\<lambda>head.
     case head of
       Some e \<Rightarrow> ret (ae_sequence e, ae_entry_hash e)
     | None \<Rightarrow>
         bnd (query (AuditEngine (''read audit checkpoint: '' @ fault)) find_checkpoint) (\<lambda>checkpoint.
         case checkpoint of
           None \<Rightarrow> ret (0, genesis_hash)
         | Some c \<Rightarrow> ret (ac_through_sequence c, ac_through_entry_hash c)))"

definition verify_stored_head :: "audit_env \<Rightarrow> string \<Rightarrow> 64 word \<Rightarrow> string \<Rightarrow> unit audit_act" where
  "verify_stored_head env fault sequence entry_hash =
     bnd (query (AuditEngine (''read audit chain state: '' @ fault)) find_state) (\<lambda>state.
     case state of
       None \<Rightarrow> if sequence = 0 then ret () else throw AuditHeadMissing
     | Some st \<Rightarrow>
         if \<not> verify_state env st \<or> as_last_sequence st \<noteq> sequence \<or> as_last_entry_hash st \<noteq> entry_hash
         then throw AuditHeadInvalid else ret ())"

text \<open>INSERT of an event; the unique indexes are on the sequence and on the hash.\<close>

definition create_event :: "audit_event \<Rightarrow> audit_db \<Rightarrow> audit_event option \<times> audit_db" where
  "create_event e db =
     (if list_ex (\<lambda>x. ae_sequence x = ae_sequence e \<or> ae_entry_hash x = ae_entry_hash e) (audit_events db)
      then (None, db)
      else let e' = e\<lparr>ae_id := next_id (map ae_id (audit_events db))\<rparr>
           in (Some e', db\<lparr>audit_events := audit_events db @ [e']\<rparr>))"

text \<open>\<open>tx.Save\<close> of a row with a primary key: update, or insert when there is none.\<close>

definition save_state :: "audit_chain_state \<Rightarrow> audit_db \<Rightarrow> audit_db" where
  "save_state st db =
     (if as_id st \<in> as_id ` set (audit_states db)
      then db\<lparr>audit_states := upd_where (\<lambda>x. as_id x = as_id st) (\<lambda>_. st) (audit_states db)\<rparr>
      else db\<lparr>audit_states := audit_states db @ [st]\<rparr>)"

definition save_checkpoint :: "audit_checkpoint \<Rightarrow> audit_db \<Rightarrow> audit_db" where
  "save_checkpoint c db =
     (if ac_id c \<in> ac_id ` set (audit_checkpoints db)
      then db\<lparr>audit_checkpoints := upd_where (\<lambda>x. ac_id x = ac_id c) (\<lambda>_. c) (audit_checkpoints db)\<rparr>
      else db\<lparr>audit_checkpoints := audit_checkpoints db @ [c]\<rparr>)"

definition link_event :: "audit_env \<Rightarrow> 64 word \<Rightarrow> string \<Rightarrow> audit_event \<Rightarrow> audit_event" where
  "link_event env sequence previous e =
     (let e1 = e\<lparr>ae_id := 0, ae_sequence := sequence + 1, ae_previous_hash := previous\<rparr>
      in e1\<lparr>ae_entry_hash := sign_event env e1\<rparr>)"

definition head_state :: "audit_env \<Rightarrow> time \<Rightarrow> audit_event \<Rightarrow> audit_chain_state" where
  "head_state env now e =
     (let st = \<lparr>as_id = 1, as_last_sequence = ae_sequence e, as_last_entry_hash = ae_entry_hash e,
                as_signature = [], as_updated_at = now\<rparr>
      in st\<lparr>as_signature := sign_state env st\<rparr>)"

definition append_tx :: "audit_env \<Rightarrow> string \<Rightarrow> time \<Rightarrow> audit_event \<Rightarrow> audit_event audit_act" where
  "append_tx env fault now event =
     bnd (load_chain_head fault) (\<lambda>(sequence, previous).
     bnd (verify_stored_head env fault sequence previous) (\<lambda>_.
     bnd (exec (AuditEngine fault) (create_event (link_event env sequence previous event))) (\<lambda>created.
     case created of
       None \<Rightarrow> throw AuditConstraint
     | Some e \<Rightarrow> bnd (modify (AuditEngine fault) (save_state (head_state env now e))) (\<lambda>_. ret e))))"

definition is_database_busy :: "audit_env \<Rightarrow> audit_error \<Rightarrow> bool" where
  "is_database_busy env err =
     (case err of
        AuditEngine text \<Rightarrow>
          list_ex (\<lambda>w. sublist w (to_lower (au_lower env) text))
            [''database is locked'', ''sqlite_busy'', ''database table is locked'']
      | _ \<Rightarrow> False)"

text \<open>The attempts that remain after the current one are counted down.\<close>

fun append_attempts :: "audit_env \<Rightarrow> (nat \<Rightarrow> string) \<Rightarrow> (nat \<Rightarrow> time) \<Rightarrow> audit_event \<Rightarrow> nat \<Rightarrow> nat
    \<Rightarrow> audit_event audit_act" where
  "append_attempts env fault clock event attempt left s =
     (case transaction (AuditEngine (fault attempt)) (append_tx env (fault attempt) (clock attempt) event) s of
        (Inr e, s') \<Rightarrow> (Inr e, s')
      | (Inl err, s') \<Rightarrow>
          if is_database_busy env err then
            (case left of
               0 \<Rightarrow> (Inl err, s')
             | Suc k \<Rightarrow> append_attempts env fault clock event (Suc attempt) k s')
          else (Inl err, s'))"

definition append_event :: "audit_env \<Rightarrow> (nat \<Rightarrow> string) \<Rightarrow> (nat \<Rightarrow> time) \<Rightarrow> event_input \<Rightarrow> audit_event audit_act" where
  "append_event env fault clock input =
     guard_db AuditNotConfigured
       (append_attempts env fault (\<lambda>n. clock (Suc n)) (normalize_event env (clock 0) input) 0 3)"

section \<open>Verification\<close>

definition valid_message :: string where
  "valid_message = utf8 [0x5BA1, 0x8BA1, 0x94FE, 0x5B8C, 0x6574]"

definition checkpoint_message :: string where
  "checkpoint_message = utf8 [0x5BA1, 0x8BA1, 0x4FDD, 0x7559, 0x68C0, 0x67E5, 0x70B9, 0x7B7E, 0x540D, 0x65E0, 0x6548]"

definition continuity_message :: string where
  "continuity_message = utf8 [0x5BA1, 0x8BA1, 0x94FE, 0x5E8F, 0x53F7, 0x3001, 0x524D, 0x7F6E, 0x6458, 0x8981, 0x6216, 0x7248, 0x672C, 0x4E0D, 0x8FDE, 0x7EED]"

definition signature_message :: string where
  "signature_message = utf8 [0x5BA1, 0x8BA1, 0x8BB0, 0x5F55, 0x7B7E, 0x540D, 0x65E0, 0x6548]"

definition missing_message :: string where
  "missing_message = utf8 [0x5BA1, 0x8BA1, 0x94FE, 0x5934, 0x72B6, 0x6001, 0x7F3A, 0x5931, 0xFF0C, 0x53EF, 0x80FD, 0x5B58, 0x5728, 0x5C3E, 0x90E8, 0x5220, 0x9664]"

definition head_message :: string where
  "head_message = utf8 [0x5BA1, 0x8BA1, 0x94FE, 0x5934, 0x72B6, 0x6001, 0x65E0, 0x6548, 0x6216, 0x4E0E, 0x5F53, 0x524D, 0x5C3E, 0x90E8, 0x4E0D, 0x4E00, 0x81F4]"

definition fresh_result :: verification_result where
  "fresh_result = \<lparr>vr_valid = True, vr_checked_entries = 0, vr_checkpoint_sequence = 0, vr_first_sequence = 0,
     vr_last_sequence = 0, vr_invalid_sequence = 0, vr_message = valid_message\<rparr>"

definition invalid_at :: "verification_result \<Rightarrow> 64 word \<Rightarrow> string \<Rightarrow> verification_result" where
  "invalid_at r sequence msg = r\<lparr>vr_valid := False, vr_invalid_sequence := sequence, vr_message := msg\<rparr>"

text \<open>
  The loop over the rows: \<open>Inl\<close> is an early return, \<open>Inr\<close> carries the expected sequence and
  previous hash after the last row.
\<close>

fun check_rows :: "audit_env \<Rightarrow> string \<Rightarrow> audit_event list \<Rightarrow> verification_result \<Rightarrow> 64 word \<Rightarrow> string
    \<Rightarrow> (verification_result + verification_result \<times> 64 word \<times> string) audit_act" where
  "check_rows env fault [] r expected previous = ret (Inr (r, expected, previous))"
| "check_rows env fault (e # es) r expected previous =
     bnd (query (AuditEngine (''decode audit event: '' @ fault)) (\<lambda>_. ())) (\<lambda>_.
     let r1 = r\<lparr>vr_checked_entries := vr_checked_entries r + 1,
               vr_first_sequence := (if vr_first_sequence r = 0 then ae_sequence e else vr_first_sequence r),
               vr_last_sequence := ae_sequence e\<rparr>
     in if ae_sequence e \<noteq> expected \<or> ae_previous_hash e \<noteq> previous \<or> ae_chain_version e \<noteq> chain_version
        then ret (Inl (invalid_at r1 (ae_sequence e) continuity_message))
        else if sign_event env e \<noteq> ae_entry_hash e
        then ret (Inl (invalid_at r1 (ae_sequence e) signature_message))
        else check_rows env fault es r1 (expected + 1) (ae_entry_hash e))"

definition check_head :: "audit_env \<Rightarrow> string \<Rightarrow> verification_result \<Rightarrow> 64 word \<Rightarrow> string
    \<Rightarrow> verification_result audit_act" where
  "check_head env fault r expected previous =
     (let head_sequence = expected - 1;
          head_hash = (if head_sequence = 0 then genesis_hash else previous)
      in bnd (query (AuditEngine (''read audit chain state: '' @ fault)) find_state) (\<lambda>state.
         case state of
           None \<Rightarrow> ret (if 0 < head_sequence then invalid_at r head_sequence missing_message else r)
         | Some st \<Rightarrow>
             ret (if \<not> verify_state env st \<or> as_last_sequence st \<noteq> head_sequence \<or> as_last_entry_hash st \<noteq> head_hash
                  then invalid_at r head_sequence head_message else r)))"

definition verify_locked :: "audit_env \<Rightarrow> string \<Rightarrow> verification_result audit_act" where
  "verify_locked env fault =
     bnd (query (AuditEngine (''read audit checkpoint: '' @ fault)) find_checkpoint) (\<lambda>checkpoint.
     let scan = (\<lambda>r expected previous.
           bnd (query (AuditEngine (''scan audit chain: '' @ fault)) (\<lambda>db. sort_key ae_sequence (audit_events db))) (\<lambda>rows.
           bnd (check_rows env fault rows r expected previous) (\<lambda>out.
           case out of
             Inl r' \<Rightarrow> ret r'
           | Inr (r', expected', previous') \<Rightarrow>
               bnd (query (AuditEngine (''iterate audit chain: '' @ fault)) (\<lambda>_. ())) (\<lambda>_.
               check_head env fault r' expected' previous'))))
     in case checkpoint of
          None \<Rightarrow> scan fresh_result 1 genesis_hash
        | Some c \<Rightarrow>
            if \<not> verify_checkpoint env c
            then ret (invalid_at fresh_result (ac_through_sequence c) checkpoint_message)
            else scan (fresh_result\<lparr>vr_checkpoint_sequence := ac_through_sequence c\<rparr>)
                   (ac_through_sequence c + 1) (ac_through_entry_hash c))"

definition verify :: "audit_env \<Rightarrow> string \<Rightarrow> verification_result audit_act" where
  "verify env fault = guard_db AuditNotConfigured (verify_locked env fault)"

section \<open>Retention\<close>

definition delete_through :: "64 word \<Rightarrow> audit_db \<Rightarrow> nat \<times> audit_db" where
  "delete_through sequence db =
     (length (filter (\<lambda>e. ae_sequence e \<le> sequence) (audit_events db)),
      db\<lparr>audit_events := filter (\<lambda>e. \<not> ae_sequence e \<le> sequence) (audit_events db)\<rparr>)"

definition through_checkpoint :: "audit_env \<Rightarrow> time \<Rightarrow> audit_event \<Rightarrow> audit_checkpoint" where
  "through_checkpoint env now e =
     (let c = \<lparr>ac_id = 1, ac_through_sequence = ae_sequence e, ac_through_entry_hash = ae_entry_hash e,
               ac_signature = [], ac_updated_at = now\<rparr>
      in c\<lparr>ac_signature := sign_checkpoint env c\<rparr>)"

definition cleanup_before :: "audit_env \<Rightarrow> string \<Rightarrow> time \<Rightarrow> time \<Rightarrow> cleanup_result audit_act" where
  "cleanup_before env fault now cutoff =
     guard_db AuditNotConfigured
      (bnd (verify_locked env fault) (\<lambda>verification.
       if \<not> vr_valid verification then throw (AuditCleanupRefused (vr_message verification))
       else
         bnd (query (AuditEngine (''find expired audit events: '' @ fault))
                (\<lambda>db. newest (filter (\<lambda>e. ae_created_at e < cutoff) (audit_events db)))) (\<lambda>expired.
         case expired of
           None \<Rightarrow> ret \<lparr>cr_deleted_entries = 0, cr_checkpoint_sequence = vr_checkpoint_sequence verification,
                       cr_checkpoint_entry_hash = [], cr_retention_cutoff = cutoff, cr_integrity_check_passed = True\<rparr>
         | Some e \<Rightarrow>
             bnd (transaction (AuditEngine fault)
                   (bnd (modify (AuditEngine (''save audit checkpoint: '' @ fault))
                           (save_checkpoint (through_checkpoint env now e))) (\<lambda>_.
                    exec (AuditEngine (''delete expired audit events: '' @ fault)) (delete_through (ae_sequence e)))))
               (\<lambda>deleted.
             ret \<lparr>cr_deleted_entries = int deleted, cr_checkpoint_sequence = ae_sequence e,
                  cr_checkpoint_entry_hash = ae_entry_hash e, cr_retention_cutoff = cutoff,
                  cr_integrity_check_passed = True\<rparr>))))"

text \<open>The cleaner; \<open>schedule_ok\<close> is the verdict of the scheduler on the schedule.\<close>

definition new_cleaner :: "(string \<Rightarrow> bool) \<Rightarrow> bool \<Rightarrow> int \<Rightarrow> string \<Rightarrow> audit_error + int" where
  "new_cleaner schedule_ok manager retention_days schedule =
     (if \<not> manager then Inl AuditCleanerUnconfigured
      else if retention_days < 30 \<or> 3650 < retention_days then Inl AuditRetention
      else if trim_space schedule = [] then Inl AuditSchedule
      else if \<not> schedule_ok schedule then Inl AuditSchedule
      else Inr retention_days)"

definition cleanup_event :: "string \<Rightarrow> int \<Rightarrow> time \<Rightarrow> event_input" where
  "cleanup_event request_id deleted now =
     \<lparr>in_request_id = request_id, in_event_type = ''system'', in_action = ''audit.retention_cleanup'',
      in_method = [], in_route = [], in_path = [], in_status = 200, in_outcome = ''success'', in_sensitive = True,
      in_user_id = 0, in_username = [], in_auth_mode = [], in_remote_ip = [], in_user_agent = [],
      in_content_length = 0, in_duration_ms = 0,
      in_message = ''removed '' @ format_int deleted @ '' expired audit entries'', in_created_at = now\<rparr>"

text \<open>\<open>now.AddDate(0, 0, -retentionDays)\<close> in UTC: days of 24 hours.\<close>

definition retention_cutoff :: "time \<Rightarrow> int \<Rightarrow> time" where
  "retention_cutoff now retention_days = now - retention_days * (24 * hour)"

definition run_cleaner :: "audit_env \<Rightarrow> (nat \<Rightarrow> string) \<Rightarrow> (nat \<Rightarrow> time) \<Rightarrow> string \<Rightarrow> int \<Rightarrow> cleanup_result audit_act" where
  "run_cleaner env fault clock request_id retention_days =
     bnd (cleanup_before env (fault 4) (clock 1) (retention_cutoff (clock 0) retention_days)) (\<lambda>r.
     if 0 < cr_deleted_entries r then
       bnd (append_event env fault (\<lambda>n. clock (n + 3)) (cleanup_event request_id (cr_deleted_entries r) (clock 2))) (\<lambda>_.
       ret r)
     else ret r)"

section \<open>Queries\<close>

record audit_filter =
  af_page :: int
  af_page_size :: int
  af_start_at :: "time option"
  af_end_at :: "time option"
  af_username :: string
  af_outcome :: string
  af_method :: string
  af_action :: string
  af_remote_ip :: string
  af_query :: string
  af_sensitive :: "bool option"
  af_event_type :: string
  af_status_code :: int

record audit_stats =
  st_total :: nat
  st_success :: nat
  st_failure :: nat
  st_sensitive :: nat
  st_last_24_hours :: nat
  st_latest_sequence :: "64 word"

definition escape_like :: "char \<Rightarrow> string" where
  "escape_like c = (if c \<in> {CHR 0x5C, CHR ''%'', CHR ''_''} then [CHR 0x5C, c] else [c])"

definition contains_pattern :: "string \<Rightarrow> string" where
  "contains_pattern value = ''%'' @ concat (map escape_like (trim_space value)) @ ''%''"

text \<open>
  The conditions of \<open>applyFilter\<close> on one row; \<open>like p t\<close> is the engine's
  \<open>t LIKE p ESCAPE '\'\<close>.
\<close>

definition filter_text :: "(string \<Rightarrow> bool) \<Rightarrow> string \<Rightarrow> bool" where
  "filter_text cond value = (let v = trim_space value in v = [] \<or> cond v)"

definition apply_filter :: "audit_env \<Rightarrow> (string \<Rightarrow> string \<Rightarrow> bool) \<Rightarrow> audit_filter \<Rightarrow> audit_event \<Rightarrow> bool" where
  "apply_filter env like f e \<longleftrightarrow>
     (case af_start_at f of None \<Rightarrow> True | Some t \<Rightarrow> t \<le> ae_created_at e)
     \<and> (case af_end_at f of None \<Rightarrow> True | Some t \<Rightarrow> ae_created_at e \<le> t)
     \<and> filter_text (\<lambda>v. like (contains_pattern v) (ae_username e)) (af_username f)
     \<and> filter_text (\<lambda>v. ae_outcome e = to_lower (au_lower env) v) (af_outcome f)
     \<and> filter_text (\<lambda>v. ae_method e = to_upper (au_upper env) v) (af_method f)
     \<and> filter_text (\<lambda>v. like (contains_pattern v) (ae_action e)) (af_action f)
     \<and> filter_text (\<lambda>v. ae_remote_ip e = v) (af_remote_ip f)
     \<and> filter_text (\<lambda>v. ae_event_type e = to_lower (au_lower env) v) (af_event_type f)
     \<and> (0 < af_status_code f \<longrightarrow> ae_status e = af_status_code f)
     \<and> (case af_sensitive f of None \<Rightarrow> True | Some b \<Rightarrow> ae_sensitive e = b)
     \<and> filter_text (\<lambda>v. list_ex (like (contains_pattern v))
           [ae_request_id e, ae_username e, ae_action e, ae_path e, ae_remote_ip e, ae_message e]) (af_query f)"

definition newest_first :: "audit_event list \<Rightarrow> audit_event list" where
  "newest_first es = sort_key (\<lambda>e. - uint (ae_sequence e)) es"

definition normalize_pagination :: "int \<Rightarrow> int \<Rightarrow> int \<times> int" where
  "normalize_pagination page page_size =
     (let p = (if page < 1 then 1 else page);
          n = (if page_size < 1 then 20 else page_size)
      in (p, if 100 < n then 100 else n))"

definition list_events :: "audit_env \<Rightarrow> (string \<Rightarrow> string \<Rightarrow> bool) \<Rightarrow> string \<Rightarrow> audit_filter
    \<Rightarrow> (audit_event list \<times> nat \<times> int \<times> int) audit_act" where
  "list_events env like fault f =
     guard_db AuditNotConfigured
      (case normalize_pagination (af_page f) (af_page_size f) of
         (page, page_size) \<Rightarrow>
           bnd (query (AuditEngine (''count audit events: '' @ fault))
                 (\<lambda>db. length (filter (apply_filter env like f) (audit_events db)))) (\<lambda>total.
           bnd (query (AuditEngine (''list audit events: '' @ fault))
                 (\<lambda>db. page_rows page page_size (newest_first (filter (apply_filter env like f) (audit_events db))))) (\<lambda>items.
           ret (items, total, page, page_size))))"

definition export_events :: "audit_env \<Rightarrow> (string \<Rightarrow> string \<Rightarrow> bool) \<Rightarrow> string \<Rightarrow> audit_filter \<Rightarrow> int
    \<Rightarrow> audit_event list audit_act" where
  "export_events env like fault f limit =
     guard_db AuditNotConfigured
      (let l1 = (if limit < 1 then 10000 else limit);
           l2 = (if 100000 < l1 then 100000 else l1)
       in query (AuditEngine (''export audit events: '' @ fault))
            (\<lambda>db. take (nat l2) (newest_first (filter (apply_filter env like f) (audit_events db)))))"

text \<open>\<open>First(&event, id)\<close>\<close>

definition get_event :: "string \<Rightarrow> nat \<Rightarrow> audit_event audit_act" where
  "get_event fault i =
     guard_db AuditNotConfigured
      (bnd (query (AuditEngine fault)
             (\<lambda>db. first_by ae_id (filter (\<lambda>e. ae_id e = i) (audit_events db)))) (\<lambda>found.
       case found of None \<Rightarrow> throw AuditNotFound | Some e \<Rightarrow> ret e))"

definition count_events :: "string \<Rightarrow> (audit_event \<Rightarrow> bool) \<Rightarrow> nat audit_act" where
  "count_events fault p =
     query (AuditEngine (''count audit statistics: '' @ fault)) (\<lambda>db. length (filter p (audit_events db)))"

definition audit_statistics :: "string \<Rightarrow> time \<Rightarrow> audit_stats audit_act" where
  "audit_statistics fault now =
     guard_db AuditNotConfigured
      (bnd (count_events fault (\<lambda>_. True)) (\<lambda>total.
       bnd (count_events fault (\<lambda>e. ae_outcome e = ''success'')) (\<lambda>success.
       bnd (count_events fault (\<lambda>e. ae_outcome e = ''failure'')) (\<lambda>failure.
       bnd (count_events fault ae_sensitive) (\<lambda>sensitive.
       bnd (count_events fault (\<lambda>e. now - 24 * hour \<le> ae_created_at e)) (\<lambda>last.
       bnd (query (AuditEngine (''read latest audit sequence: '' @ fault)) (\<lambda>db. newest (audit_events db))) (\<lambda>latest.
       ret \<lparr>st_total = total, st_success = success, st_failure = failure, st_sensitive = sensitive,
            st_last_24_hours = last,
            st_latest_sequence = (case latest of None \<Rightarrow> 0 | Some e \<Rightarrow> ae_sequence e)\<rparr>)))))))"

section \<open>Events of the panel\<close>

text \<open>What a handler reads of a request (\<open>gin.Context\<close>) to record it.\<close>

record request_info =
  rq_method :: string
  rq_route :: string
  rq_path :: string
  rq_remote_ip :: string
  rq_user_agent :: string
  rq_content_length :: int

definition outcome_for_status :: "int \<Rightarrow> string" where
  "outcome_for_status status = (if 400 \<le> status then ''failure'' else ''success'')"

definition remote_ip :: "string \<Rightarrow> string" where
  "remote_ip client_ip = sanitize client_ip 64"

definition auth_event :: "request_info \<Rightarrow> string \<Rightarrow> string \<Rightarrow> string \<Rightarrow> int \<Rightarrow> int \<Rightarrow> string \<Rightarrow> string \<Rightarrow> string
    \<Rightarrow> time \<Rightarrow> event_input" where
  "auth_event rq request_id action username uid status outcome auth_mode message now =
     \<lparr>in_request_id = request_id, in_event_type = ''auth'', in_action = action, in_method = rq_method rq,
      in_route = rq_route rq, in_path = rq_path rq, in_status = status, in_outcome = outcome, in_sensitive = True,
      in_user_id = uid, in_username = username, in_auth_mode = auth_mode,
      in_remote_ip = remote_ip (rq_remote_ip rq), in_user_agent = rq_user_agent rq,
      in_content_length = rq_content_length rq, in_duration_ms = 0, in_message = message, in_created_at = now\<rparr>"

end
