(* ===== verification/Audit_Props.thy ===== *)
theory Audit_Props
  imports Audit_Trail Access_Facts
begin

text \<open>
  The properties of the audit trail: verification decides a chain predicate, every history
  of appends and cleanups keeps it, an edited chain that still verifies exhibits a collision
  of the keyed hash, retention, retries, and the cleaning of input.
\<close>

section \<open>The chain predicate\<close>

fun linked :: "audit_env \<Rightarrow> 64 word \<Rightarrow> string \<Rightarrow> audit_event list \<Rightarrow> bool" where
  "linked env expected previous [] \<longleftrightarrow> True"
| "linked env expected previous (e # es) \<longleftrightarrow>
     ae_sequence e = expected \<and> ae_previous_hash e = previous \<and> ae_chain_version e = chain_version
     \<and> sign_event env e = ae_entry_hash e \<and> linked env (expected + 1) (ae_entry_hash e) es"

definition chain_base :: "audit_db \<Rightarrow> 64 word \<times> string" where
  "chain_base db = (case find_checkpoint db of
     None \<Rightarrow> (0, genesis_hash) | Some c \<Rightarrow> (ac_through_sequence c, ac_through_entry_hash c))"

definition chain_rows :: "audit_db \<Rightarrow> audit_event list" where
  "chain_rows db = sort_key ae_sequence (audit_events db)"

fun chain_end :: "64 word \<Rightarrow> string \<Rightarrow> audit_event list \<Rightarrow> 64 word \<times> string" where
  "chain_end n h [] = (n, h)"
| "chain_end n h (e # es) = chain_end (n + 1) (ae_entry_hash e) es"

definition chain_head :: "audit_db \<Rightarrow> 64 word \<times> string" where
  "chain_head db = chain_end (fst (chain_base db)) (snd (chain_base db)) (chain_rows db)"

definition head_matches :: "audit_env \<Rightarrow> 64 word \<times> string \<Rightarrow> audit_chain_state option \<Rightarrow> bool" where
  "head_matches env head state \<longleftrightarrow>
     (case state of
        None \<Rightarrow> fst head = 0
      | Some st \<Rightarrow> verify_state env st \<and> as_last_sequence st = fst head
          \<and> as_last_entry_hash st = (if fst head = 0 then genesis_hash else snd head))"

definition chain_valid :: "audit_env \<Rightarrow> audit_db \<Rightarrow> bool" where
  "chain_valid env db \<longleftrightarrow>
     (case find_checkpoint db of None \<Rightarrow> True | Some c \<Rightarrow> verify_checkpoint env c)
     \<and> linked env (fst (chain_base db) + 1) (snd (chain_base db)) (chain_rows db)
     \<and> head_matches env (chain_head db) (find_state db)"

lemma linked_append:
  "linked env n h (xs @ ys) \<longleftrightarrow>
     linked env n h xs \<and> linked env (fst (chain_end (n - 1) h xs) + 1) (snd (chain_end (n - 1) h xs)) ys"
  by (induction xs arbitrary: n h) auto

lemma chain_end_append: "chain_end n h (xs @ ys) = (case chain_end n h xs of (m, k) \<Rightarrow> chain_end m k ys)"
  by (induction xs arbitrary: n h) auto

lemma chain_end_fst: "fst (chain_end n h es) = n + of_nat (length es)"
  by (induction es arbitrary: n h) (auto simp: algebra_simps)

section \<open>Verification decides the predicate\<close>

lemma check_rows_Inr:
  "check_rows env fault es r n h s = (Inr out, s') \<Longrightarrow>
   tables s' = tables s \<and>
   (case out of
      Inl r' \<Rightarrow> \<not> vr_valid r' \<and> \<not> linked env n h es
    | Inr (r', n', h') \<Rightarrow> vr_valid r' = vr_valid r \<and> linked env n h es \<and> (n' - 1, h') = chain_end (n - 1) h es)"
proof (induction es arbitrary: r n h s)
  case (Cons e es)
  obtain s1 where q: "query (AuditEngine (''decode audit event: '' @ fault)) (\<lambda>_. ()) s = (Inr (), s1)"
    using Cons.prems by (auto simp: bnd_Inr)
  note t = query_Inr [OF q]
  define r1 where "r1 = r\<lparr>vr_checked_entries := vr_checked_entries r + 1,
     vr_first_sequence := (if vr_first_sequence r = 0 then ae_sequence e else vr_first_sequence r),
     vr_last_sequence := ae_sequence e\<rparr>"
  have v: "vr_valid r1 = vr_valid r" by (simp add: r1_def)
  note run = Cons.prems [unfolded check_rows.simps bnd_run q Let_def, folded r1_def, simplified]
  show ?case
  proof (cases "ae_sequence e = n \<and> ae_previous_hash e = h \<and> ae_chain_version e = chain_version \<and> sign_event env e = ae_entry_hash e")
    case True
    then have "check_rows env fault es r1 (n + 1) (ae_entry_hash e) s1 = (Inr out, s')" using run by auto
    from Cons.IH [OF this] show ?thesis using True t v by (auto split: sum.splits)
  next
    case False
    then have "(\<exists>r'. out = Inl r' \<and> \<not> vr_valid r') \<and> s' = s1" using run by (auto simp: invalid_at_def split: if_splits)
    then show ?thesis using False t by auto
  qed
qed auto

lemma check_head_Inr:
  assumes "check_head env fault r n h s = (Inr r', s')"
  shows "tables s' = tables s \<and> (vr_valid r' \<longleftrightarrow> vr_valid r \<and> head_matches env (n - 1, h) (find_state (tables s)))"
proof -
  obtain state s1 where q: "query (AuditEngine (''read audit chain state: '' @ fault)) find_state s = (Inr state, s1)"
    using assms unfolding check_head_def Let_def bnd_Inr by blast
  show ?thesis
    using assms query_Inr [OF q] unfolding check_head_def Let_def bnd_run q
    by (auto simp: head_matches_def invalid_at_def word_gt_0 split: option.splits if_splits)
qed

lemma verify_locked_Inr:
  assumes "verify_locked env fault s = (Inr r, s')"
  shows "tables s' = tables s \<and> (vr_valid r \<longleftrightarrow> chain_valid env (tables s))"
proof -
  let ?db = "tables s"
  obtain cp s1 where q: "query (AuditEngine (''read audit checkpoint: '' @ fault)) find_checkpoint s = (Inr cp, s1)"
    using assms unfolding verify_locked_def bnd_Inr by blast
  note t1 = query_Inr [OF q]
  define scan where "scan = (\<lambda>r expected previous.
           bnd (query (AuditEngine (''scan audit chain: '' @ fault)) (\<lambda>db. sort_key ae_sequence (audit_events db))) (\<lambda>rows.
           bnd (check_rows env fault rows r expected previous) (\<lambda>out.
           case out of
             Inl r' \<Rightarrow> ret r'
           | Inr (r', expected', previous') \<Rightarrow>
               bnd (query (AuditEngine (''iterate audit chain: '' @ fault)) (\<lambda>_. ())) (\<lambda>_.
               check_head env fault r' expected' previous'))))"
  have scan: "tables s2 = ?db \<and> (vr_valid r2 \<longleftrightarrow> vr_valid r0 \<and> linked env n h (chain_rows ?db)
      \<and> head_matches env (chain_end (n - 1) h (chain_rows ?db)) (find_state ?db))"
    if run: "scan r0 n h s1 = (Inr r2, s2)" for r0 n h r2 s2
  proof -
    let ?k = "\<lambda>out. case out of Inl r' \<Rightarrow> ret r'
      | Inr (r', expected', previous') \<Rightarrow>
          bnd (query (AuditEngine (''iterate audit chain: '' @ fault)) (\<lambda>_. ())) (\<lambda>_.
          check_head env fault r' expected' previous')"
    obtain rows s3 out s4 where
      q2: "query (AuditEngine (''scan audit chain: '' @ fault)) (\<lambda>db. sort_key ae_sequence (audit_events db)) s1
        = (Inr rows, s3)" and
      c: "check_rows env fault rows r0 n h s3 = (Inr out, s4)" and
      k: "?k out s4 = (Inr r2, s2)"
      using run unfolding scan_def bnd_Inr by blast
    have rows: "rows = chain_rows ?db" "tables s3 = ?db" using query_Inr [OF q2] t1 by (auto simp: chain_rows_def)
    note t4 = check_rows_Inr [OF c]
    show ?thesis
    proof (cases out)
      case (Inl r')
      then show ?thesis using k t4 rows by auto
    next
      case (Inr o')
      obtain r' n' h' where o': "o' = (r', n', h')" by (cases o')
      then have "bnd (query (AuditEngine (''iterate audit chain: '' @ fault)) (\<lambda>_. ())) (\<lambda>_. check_head env fault r' n' h') s4
          = (Inr r2, s2)"
        using k Inr by simp
      then obtain s5 where q3: "query (AuditEngine (''iterate audit chain: '' @ fault)) (\<lambda>_. ()) s4 = (Inr (), s5)"
          and h: "check_head env fault r' n' h' s5 = (Inr r2, s2)"
        unfolding bnd_Inr by auto
      show ?thesis using check_head_Inr [OF h] query_Inr [OF q3] t4 rows Inr o' by auto
    qed
  qed
  show ?thesis
    using assms scan t1 unfolding verify_locked_def bnd_run q scan_def [symmetric]
    by (auto simp: Let_def chain_valid_def chain_base_def chain_head_def fresh_result_def invalid_at_def split: option.splits if_splits)
qed

lemma verify_locked_keeps: "keeps I (verify_locked env fault)"
proof -
  have "keeps I (check_rows env fault rows r n h)" for rows r n h
    by (induction rows arbitrary: r n h) (auto simp: Let_def intro!: keeps_rules)
  then show ?thesis unfolding verify_locked_def check_head_def Let_def by (intro keeps_rules)
qed

text \<open>With a working engine verification returns a verdict.\<close>

lemma check_rows_answers: "answers (check_rows env fault es r n h)"
  by (induction es arbitrary: r n h) (auto simp: Let_def intro!: answers_rules)

lemma verify_locked_answers: "answers (verify_locked env fault)"
  unfolding verify_locked_def check_head_def Let_def by (intro answers_rules check_rows_answers)

lemma verify_healthy:
  obtains r where "verify env fault (healthy db) = (Inr r, healthy db)" "vr_valid r \<longleftrightarrow> chain_valid env db"
proof -
  obtain r where r: "verify_locked env fault (healthy db) = (Inr r, healthy db)"
    by (rule answersE [OF verify_locked_answers])
  with verify_locked_Inr [OF r] that show ?thesis by (simp add: verify_def)
qed

section \<open>Appending keeps the chain\<close>

text \<open>The sequence numbers have room for \<open>k\<close> more events before 64 bits wrap.\<close>

definition chain_room :: "nat \<Rightarrow> audit_db \<Rightarrow> bool" where
  "chain_room k db \<longleftrightarrow> unat (fst (chain_base db)) + length (audit_events db) + k < 2 ^ 64"

definition audit_inv :: "audit_env \<Rightarrow> nat \<Rightarrow> audit_db \<Rightarrow> bool" where
  "audit_inv env k db \<longleftrightarrow> chain_valid env db \<and> chain_room k db"

lemma audit_inv_mono: "audit_inv env k db \<Longrightarrow> j \<le> k \<Longrightarrow> audit_inv env j db"
  by (simp add: audit_inv_def chain_room_def)

lemma chain_rows_set [simp]: "set (chain_rows db) = set (audit_events db)" "length (chain_rows db) = length (audit_events db)"
  by (simp_all add: chain_rows_def)

lemma insort_key_snoc: "f y \<le> f x \<Longrightarrow> insort_key f y (zs @ [x]) = insort_key f y zs @ [x]"
  by (induction zs) auto

lemma sort_key_snoc: "(\<And>y. y \<in> set xs \<Longrightarrow> f y \<le> f x) \<Longrightarrow> sort_key f (xs @ [x]) = sort_key f xs @ [x]"
  by (induction xs) (auto simp: insort_key_snoc)

text \<open>Without wrap-around the sequences of a linked list are consecutive numbers.\<close>

lemma linked_sequences:
  "linked env (n + 1) h es \<Longrightarrow> unat n + length es < 2 ^ 64 \<Longrightarrow>
   map (\<lambda>e. unat (ae_sequence e)) es = [Suc (unat n) ..< Suc (unat n + length es)]"
proof (induction es arbitrary: n h)
  case (Cons e es)
  have n: "unat (n + 1) = Suc (unat n)" using Cons.prems(2) by (simp add: unat_add_lem [THEN iffD1] unat_word_ariths)
  have "map (\<lambda>e. unat (ae_sequence e)) es = [Suc (unat (n + 1)) ..< Suc (unat (n + 1) + length es)]"
    using Cons by (intro Cons.IH [of _ "ae_entry_hash e"]) (simp_all add: n)
  then show ?case using Cons.prems by (simp add: n upt_conv_Cons del: upt.simps)
qed simp

lemma chain_sequences:
  assumes "audit_inv env k db"
  shows "map (\<lambda>e. unat (ae_sequence e)) (chain_rows db)
    = [Suc (unat (fst (chain_base db))) ..< Suc (unat (fst (chain_base db)) + length (audit_events db))]"
proof -
  have "linked env (fst (chain_base db) + 1) (snd (chain_base db)) (chain_rows db)"
    "unat (fst (chain_base db)) + length (chain_rows db) < 2 ^ 64"
    using assms by (auto simp: audit_inv_def chain_valid_def chain_room_def)
  from linked_sequences [OF this] show ?thesis by simp
qed

lemma chain_head_unat:
  assumes "audit_inv env k db"
  shows "unat (fst (chain_head db)) = unat (fst (chain_base db)) + length (audit_events db)"
  using assms unfolding chain_head_def chain_end_fst audit_inv_def chain_room_def
  by (simp add: unat_word_ariths unat_of_nat)

lemma sequence_le_head:
  assumes "audit_inv env k db" "e \<in> set (audit_events db)"
  shows "ae_sequence e \<le> fst (chain_head db)" "0 < ae_sequence e"
proof -
  have "unat (ae_sequence e) \<in> set (map (\<lambda>e. unat (ae_sequence e)) (chain_rows db))" using assms(2) by simp
  then have u: "unat (ae_sequence e) \<in> {Suc (unat (fst (chain_base db))) ..< Suc (unat (fst (chain_base db)) + length (audit_events db))}"
    unfolding chain_sequences [OF assms(1)] by (simp only: set_upt)
  then show "ae_sequence e \<le> fst (chain_head db)"
    by (simp add: word_le_nat_alt chain_head_unat [OF assms(1)])
  show "0 < ae_sequence e" using u by (metis atLeastLessThan_iff not_less_eq_eq unat_0 word_gt_0 zero_le)
qed

lemma chain_end_nonempty:
  assumes "es \<noteq> []" "linked env (n + 1) h es"
  shows "chain_end n h es = (ae_sequence (last es), ae_entry_hash (last es))"
proof -
  obtain xs e where es: "es = xs @ [e]" using assms(1) by (cases es rule: rev_cases) auto
  then show ?thesis using assms(2) by (auto simp: linked_append chain_end_append split: prod.splits)
qed

lemma newest_Some:
  assumes "newest es = Some e"
  shows "e \<in> set es" and "x \<in> set es \<Longrightarrow> ae_sequence x \<le> ae_sequence e"
proof -
  note f = first_by_Some [OF assms [unfolded newest_def]]
  show "e \<in> set es" by (rule f)
  show "ae_sequence x \<le> ae_sequence e" if "x \<in> set es"
    using f(2) [OF that] by (auto simp: word_le_def)
qed

text \<open>The head that \<open>loadChainHead\<close> reads is the end of the chain.\<close>

lemma newest_is_last:
  assumes inv: "audit_inv env k db" and e: "newest (audit_events db) = Some e"
  shows "chain_head db = (ae_sequence e, ae_entry_hash e)"
proof -
  have mem: "e \<in> set (audit_events db)" and max: "\<And>x. x \<in> set (audit_events db) \<Longrightarrow> ae_sequence x \<le> ae_sequence e"
    using newest_Some [OF e] by blast+
  then have ne: "chain_rows db \<noteq> []" by (auto simp flip: set_empty)
  let ?l = "last (chain_rows db)"
  have l: "?l \<in> set (audit_events db)" using last_in_set [OF ne] by simp
  have head: "chain_head db = (ae_sequence ?l, ae_entry_hash ?l)"
    unfolding chain_head_def using inv ne by (intro chain_end_nonempty [of _ env]) (auto simp: audit_inv_def chain_valid_def)
  have "ae_sequence ?l = ae_sequence e"
    using max [OF l] sequence_le_head(1) [OF inv mem] head by auto
  moreover have "distinct (map (\<lambda>e. unat (ae_sequence e)) (chain_rows db))" by (simp add: chain_sequences [OF inv])
  ultimately have "?l = e" using l mem by (auto simp: distinct_map inj_on_def)
  then show ?thesis using head by simp
qed

lemma load_chain_head_keeps: "load_chain_head fault s = (Inr nh, s') \<Longrightarrow> tables s' = tables s"
  unfolding load_chain_head_def bnd_Inr by (auto simp: bnd_Inr dest!: query_Inr split: option.splits)

lemma load_chain_head_Inr:
  assumes "load_chain_head fault s = (Inr (n, h), s')" and inv: "audit_inv env k (tables s)"
  shows "(n, h) = chain_head (tables s)"
proof -
  obtain head s1 where q: "query (AuditEngine (''read audit chain head: '' @ fault)) (\<lambda>db. newest (audit_events db)) s = (Inr head, s1)"
    using assms(1) unfolding load_chain_head_def bnd_Inr by blast
  note t = query_Inr [OF q]
  have "tables s' = tables s \<and> (n, h) = chain_head (tables s)"
  proof (cases head)
    case (Some e)
    then show ?thesis using assms(1) t newest_is_last [OF inv, of e] unfolding load_chain_head_def bnd_run q by simp
  next
    case None
    then have empty: "audit_events (tables s) = []" using t by (simp add: newest_def)
    obtain c s2 where q2: "query (AuditEngine (''read audit checkpoint: '' @ fault)) find_checkpoint s1 = (Inr c, s2)"
      using assms(1) None unfolding load_chain_head_def bnd_run q by (auto split: prod.splits sum.splits)
    show ?thesis
      using assms(1) None t empty query_Inr [OF q2] q2 unfolding load_chain_head_def bnd_run q
      by (auto simp: chain_head_def chain_base_def chain_rows_def split: option.splits)
  qed
  then show ?thesis by blast
qed

lemma verify_stored_head_Inr:
  "verify_stored_head env fault n h s = (Inr u, s') \<Longrightarrow> tables s' = tables s"
  unfolding verify_stored_head_def bnd_Inr by (auto dest: query_Inr split: option.splits if_splits)

text \<open>The keyed hash is never empty: HMAC-SHA256 has 32 bytes.\<close>

definition mac_nonempty :: "audit_env \<Rightarrow> bool" where
  "mac_nonempty env \<longleftrightarrow> (\<forall>p. au_hmac env (au_key env) p \<noteq> [])"

lemma sign_not_Nil: "mac_nonempty env \<Longrightarrow> sign env p \<noteq> []"
  by (auto simp: mac_nonempty_def sign_def format_hex_def neq_Nil_conv)

lemma sign_event_unsigned [simp]:
  "sign_event env (e\<lparr>ae_id := i\<rparr>) = sign_event env e" "sign_event env (e\<lparr>ae_entry_hash := x\<rparr>) = sign_event env e"
  by (simp_all add: sign_event_def event_payload_def)

lemma head_state_verifies:
  assumes "mac_nonempty env" "ae_sequence e \<noteq> 0" "ae_entry_hash e \<noteq> []"
  shows "verify_state env (head_state env now e)"
  using assms sign_not_Nil [OF assms(1)]
  by (simp add: verify_state_def head_state_def Let_def sign_state_def state_payload_def)

lemma through_checkpoint_verifies:
  assumes "mac_nonempty env" "ae_sequence e \<noteq> 0" "ae_entry_hash e \<noteq> []"
  shows "verify_checkpoint env (through_checkpoint env now e)"
  using assms sign_not_Nil [OF assms(1)]
  by (simp add: verify_checkpoint_def through_checkpoint_def Let_def sign_checkpoint_def checkpoint_payload_def)

lemma find_upd_key: "k \<in> key ` set xs \<Longrightarrow> key y = k \<Longrightarrow> find (\<lambda>x. key x = k) (upd_where (\<lambda>x. key x = k) (\<lambda>_. y) xs) = Some y"
  by (induction xs) auto

lemma find_append_new: "k \<notin> key ` set xs \<Longrightarrow> key y = k \<Longrightarrow> find (\<lambda>x. key x = k) (xs @ [y]) = Some y"
  by (induction xs) auto

lemma find_state_save: "as_id st = 1 \<Longrightarrow> find_state (save_state st db) = Some st"
  by (auto simp: find_state_def save_state_def find_upd_key find_append_new simp del: image_iff)

lemma find_checkpoint_save: "ac_id c = 1 \<Longrightarrow> find_checkpoint (save_checkpoint c db) = Some c"
  by (auto simp: find_checkpoint_def save_checkpoint_def find_upd_key find_append_new simp del: image_iff)

lemma save_frames [simp]:
  "audit_events (save_state st db) = audit_events db" "audit_checkpoints (save_state st db) = audit_checkpoints db"
  "audit_events (save_checkpoint c db) = audit_events db" "audit_states (save_checkpoint c db) = audit_states db"
  by (simp_all add: save_state_def save_checkpoint_def)

lemma link_event_fields [simp]:
  "ae_sequence (link_event env n h e) = n + 1" "ae_previous_hash (link_event env n h e) = h"
  "ae_chain_version (link_event env n h e) = ae_chain_version e"
  "ae_entry_hash (link_event env n h e) = sign_event env (link_event env n h e)"
  by (simp_all add: link_event_def Let_def)

definition extended :: "audit_env \<Rightarrow> time \<Rightarrow> audit_event \<Rightarrow> audit_db \<Rightarrow> audit_db" where
  "extended env now e db = save_state (head_state env now e) (db\<lparr>audit_events := audit_events db @ [e]\<rparr>)"

lemma extended_frames [simp]:
  "audit_events (extended env now e db) = audit_events db @ [e]"
  "find_checkpoint (extended env now e db) = find_checkpoint db"
  "find_state (extended env now e db) = Some (head_state env now e)"
  by (simp_all add: extended_def find_checkpoint_def find_state_save head_state_def Let_def)

lemma extended_inv:
  assumes inv: "audit_inv env (Suc k) db" and mac: "mac_nonempty env"
    and e: "ae_sequence e = fst (chain_head db) + 1" "ae_previous_hash e = snd (chain_head db)"
      "ae_chain_version e = chain_version" "sign_event env e = ae_entry_hash e"
  shows "audit_inv env k (extended env now e db)"
proof -
  let ?db = "extended env now e db"
  let ?n = "fst (chain_base db)" and ?h = "snd (chain_base db)"
  have base [simp]: "chain_base ?db = chain_base db" by (simp add: chain_base_def)
  have room: "unat ?n + length (audit_events db) + Suc k < 2 ^ 64" using inv by (simp add: audit_inv_def chain_room_def)
  have seq: "unat (ae_sequence e) = Suc (unat (fst (chain_head db)))"
    using room chain_head_unat [OF inv] unfolding e(1) by (simp add: unat_word_ariths)
  have "ae_sequence x \<le> ae_sequence e" if "x \<in> set (audit_events db)" for x
    using sequence_le_head(1) [OF inv that] seq by (simp add: word_le_nat_alt)
  then have rows: "chain_rows ?db = chain_rows db @ [e]" by (simp add: chain_rows_def sort_key_snoc)
  have l: "linked env (?n + 1) ?h (chain_rows ?db)"
    using inv e unfolding rows by (simp add: linked_append audit_inv_def chain_valid_def chain_head_def)
  have "chain_rows ?db \<noteq> []" by (simp add: rows)
  from chain_end_nonempty [OF this l] have head: "chain_head ?db = (ae_sequence e, ae_entry_hash e)"
    by (simp add: chain_head_def rows)
  have ne: "ae_sequence e \<noteq> 0" "ae_entry_hash e \<noteq> []"
    using seq e(4) sign_not_Nil [OF mac] by (auto simp: sign_event_def)
  have "chain_valid env ?db"
    using inv l ne head head_state_verifies [OF mac ne]
    by (simp add: chain_valid_def audit_inv_def head_matches_def) (simp add: head_state_def Let_def)
  then show ?thesis using room by (simp add: audit_inv_def chain_room_def)
qed

lemma append_tx_Inr:
  assumes run: "append_tx env fault now event s = (Inr e, s')"
  obtains n h where "e = (link_event env n h event)\<lparr>ae_id := next_id (map ae_id (audit_events (tables s)))\<rparr>"
    "tables s' = extended env now e (tables s)"
    "n + 1 \<notin> ae_sequence ` set (audit_events (tables s))"
    "\<And>k. audit_inv env k (tables s) \<Longrightarrow> (n, h) = chain_head (tables s)"
proof -
  let ?rest = "\<lambda>(n, h). bnd (verify_stored_head env fault n h) (\<lambda>_.
     bnd (exec (AuditEngine fault) (create_event (link_event env n h event))) (\<lambda>created.
     case created of
       None \<Rightarrow> throw AuditConstraint
     | Some e \<Rightarrow> bnd (modify (AuditEngine fault) (save_state (head_state env now e))) (\<lambda>_. ret e)))"
  obtain nh s1 where l0: "load_chain_head fault s = (Inr nh, s1)" and rest: "?rest nh s1 = (Inr e, s')"
    using run unfolding append_tx_def bnd_Inr [of "load_chain_head fault"] by blast
  obtain n h where nh0: "nh = (n, h)" by (cases nh)
  have l: "load_chain_head fault s = (Inr (n, h), s1)" using l0 nh0 by simp
  obtain u s2 created s3 where
    v: "verify_stored_head env fault n h s1 = (Inr u, s2)" and
    c: "exec (AuditEngine fault) (create_event (link_event env n h event)) s2 = (Inr created, s3)" and
    f: "(case created of None \<Rightarrow> throw AuditConstraint
         | Some e \<Rightarrow> bnd (modify (AuditEngine fault) (save_state (head_state env now e))) (\<lambda>_. ret e)) s3 = (Inr e, s')"
    using rest unfolding nh0 prod.case bnd_Inr [of "verify_stored_head env fault n h"]
      bnd_Inr [of "exec (AuditEngine fault) (create_event (link_event env n h event))"] by blast
  note head = load_chain_head_keeps [OF l] verify_stored_head_Inr [OF v]
  obtain e' where created: "created = Some e'" using f by (cases created) auto
  then obtain s4 where m: "modify (AuditEngine fault) (save_state (head_state env now e')) s3 = (Inr (), s4)"
      and e': "e' = e" "s4 = s'"
    using f by (auto simp: bnd_Inr)
  have ce: "create_event (link_event env n h event) (tables s) = (Some e, tables s3)"
    using exec_Inr [OF c] created e' head by simp
  then have "e = (link_event env n h event)\<lparr>ae_id := next_id (map ae_id (audit_events (tables s)))\<rparr>"
    "tables s3 = (tables s)\<lparr>audit_events := audit_events (tables s) @ [e]\<rparr>"
    by (auto simp: create_event_def Let_def split: if_splits)
  moreover from this have "tables s' = extended env now e (tables s)"
    using modify_Inr [OF m] e' by (simp add: extended_def)
  moreover have "n + 1 \<notin> ae_sequence ` set (audit_events (tables s))"
    using ce by (auto simp: create_event_def list_ex_iff split: if_splits)
  ultimately show ?thesis using that load_chain_head_Inr [OF l] by blast
qed

lemma append_tx_inv:
  assumes run: "append_tx env fault now event s = (Inr e, s')" and inv: "audit_inv env (Suc k) (tables s)"
    and mac: "mac_nonempty env" and v: "ae_chain_version event = chain_version"
  shows "audit_inv env k (tables s')"
proof -
  obtain n h where e: "e = (link_event env n h event)\<lparr>ae_id := next_id (map ae_id (audit_events (tables s)))\<rparr>"
    "tables s' = extended env now e (tables s)" and head: "chain_head (tables s) = (n, h)"
    by (rule append_tx_Inr [OF run]) (use inv in metis)
  show ?thesis
    unfolding e(2) by (rule extended_inv [OF inv mac]) (simp_all add: e(1) head v)
qed

text \<open>The retry loop: the tables change only in the attempt that succeeds.\<close>

lemma append_attempts_effect:
  "append_attempts env fault clock event attempt left s = (r, s') \<Longrightarrow>
   (\<exists>err. r = Inl err \<and> tables s' = tables s) \<or>
   (\<exists>e n s1 s2. r = Inr e \<and> tables s1 = tables s \<and> tables s' = tables s2
      \<and> append_tx env (fault n) (clock n) event s1 = (Inr e, s2))"
proof (induction left arbitrary: attempt s)
  case 0
  let ?tx = "transaction (AuditEngine (fault attempt)) (append_tx env (fault attempt) (clock attempt) event)"
  obtain r1 s1 where t: "?tx s = (r1, s1)" by fastforce
  show ?case
  proof (cases r1)
    case (Inl err)
    then show ?thesis using 0 t transaction_Inl [of _ _ s err s1] by (auto split: if_splits)
  next
    case (Inr e)
    then show ?thesis using 0 t by (auto elim!: transaction_Inr)
  qed
next
  case (Suc left)
  let ?tx = "transaction (AuditEngine (fault attempt)) (append_tx env (fault attempt) (clock attempt) event)"
  obtain r1 s1 where t: "?tx s = (r1, s1)" by fastforce
  show ?case
  proof (cases r1)
    case (Inl err)
    have s1: "tables s1 = tables s" using transaction_Inl [OF t [unfolded Inl]] .
    show ?thesis
    proof (cases "is_database_busy env err")
      case True
      then have "append_attempts env fault clock event (Suc attempt) left s1 = (r, s')" using Suc.prems t Inl by simp
      from Suc.IH [OF this] show ?thesis unfolding s1 .
    next
      case False
      then show ?thesis using Suc.prems t Inl s1 by auto
    qed
  next
    case (Inr e)
    then show ?thesis using Suc.prems t by (auto elim!: transaction_Inr)
  qed
qed

lemma normalize_version [simp]: "ae_chain_version (normalize_event env now input) = chain_version"
  by (simp add: normalize_event_def Let_def)

lemma append_event_Inr:
  assumes "append_event env fault clock input s = (Inr e, s')"
  obtains n s1 s2 where "tables s1 = tables s" "tables s' = tables s2"
    "append_tx env (fault n) (clock (Suc n)) (normalize_event env (clock 0) input) s1 = (Inr e, s2)"
  using assms append_attempts_effect [of env fault "\<lambda>n. clock (Suc n)" "normalize_event env (clock 0) input" 0 3 s "Inr e" s']
  by (auto simp: append_event_def guard_db_Inr simp del: append_attempts.simps)

lemma append_event_Inl:
  assumes "append_event env fault clock input s = (Inl err, s')"
  shows "tables s' = tables s"
  using assms append_attempts_effect [of env fault "\<lambda>n. clock (Suc n)" "normalize_event env (clock 0) input" 0 3 s "Inl err" s']
  by (auto simp: append_event_def guard_db_Inl simp del: append_attempts.simps)

lemma append_event_moves:
  assumes "mac_nonempty env"
  shows "moves (audit_inv env (Suc k)) (audit_inv env k) (append_event env fault clock input)"
  unfolding moves_def
proof (intro allI impI)
  fix s :: "audit_db engine" assume inv: "audit_inv env (Suc k) (tables s)"
  obtain r s' where run: "append_event env fault clock input s = (r, s')" by fastforce
  show "audit_inv env k (tables (snd (append_event env fault clock input s)))"
  proof (cases r)
    case (Inl err)
    then show ?thesis using run append_event_Inl inv audit_inv_mono by (metis le_SucI le_refl snd_conv)
  next
    case (Inr e)
    with run have "append_event env fault clock input s = (Inr e, s')" by simp
    then obtain n s1 s2 where *: "tables s1 = tables s" "tables s' = tables s2"
        "append_tx env (fault n) (clock (Suc n)) (normalize_event env (clock 0) input) s1 = (Inr e, s2)"
      by (rule append_event_Inr)
    then show ?thesis using append_tx_inv [OF *(3), of k] inv assms run by simp
  qed
qed

section \<open>Retention keeps the chain\<close>

definition shortened :: "audit_env \<Rightarrow> time \<Rightarrow> audit_event \<Rightarrow> audit_db \<Rightarrow> audit_db" where
  "shortened env now e db = snd (delete_through (ae_sequence e) (save_checkpoint (through_checkpoint env now e) db))"

lemma shortened_frames [simp]:
  "audit_events (shortened env now e db) = filter (\<lambda>x. \<not> ae_sequence x \<le> ae_sequence e) (audit_events db)"
  "find_checkpoint (shortened env now e db) = Some (through_checkpoint env now e)"
  "find_state (shortened env now e db) = find_state db"
proof -
  have "find_checkpoint (db'\<lparr>audit_events := es\<rparr>) = find_checkpoint db'" for db' es by (simp add: find_checkpoint_def)
  moreover have "ac_id (through_checkpoint env now e) = 1" by (simp add: through_checkpoint_def Let_def)
  ultimately show "find_checkpoint (shortened env now e db) = Some (through_checkpoint env now e)"
    by (simp add: shortened_def delete_through_def find_checkpoint_save)
qed (simp_all add: shortened_def delete_through_def find_state_def)

lemma shortened_inv:
  assumes inv: "audit_inv env k db" and mac: "mac_nonempty env" and mem: "e \<in> set (audit_events db)"
  shows "audit_inv env k (shortened env now e db)"
proof -
  let ?db = "shortened env now e db"
  let ?n = "fst (chain_base db)" and ?h = "snd (chain_base db)"
  obtain xs ys where split: "chain_rows db = xs @ e # ys" using mem by (metis chain_rows_set(1) split_list)
  have l: "linked env (?n + 1) ?h (xs @ e # ys)" using inv by (simp add: audit_inv_def chain_valid_def split)
  have len: "length (audit_events db) = length xs + Suc (length ys)" using arg_cong [OF split, of length] by simp
  have seqs: "map (\<lambda>x. unat (ae_sequence x)) (xs @ e # ys) = [Suc (unat ?n) ..< Suc (unat ?n + length (audit_events db))]"
    using chain_sequences [OF inv] unfolding split .
  have s: "sorted_wrt (<) (map (\<lambda>x. unat (ae_sequence x)) (xs @ e # ys))" unfolding seqs by (simp del: upt.simps)
  then have lt: "ae_sequence x \<le> ae_sequence e" if "x \<in> set (xs @ [e])" for x
    using that by (auto simp: sorted_wrt_append word_le_nat_alt less_imp_le)
  from s have gt: "\<not> ae_sequence y \<le> ae_sequence e" if "y \<in> set ys" for y
    using that by (auto simp: sorted_wrt_append word_le_nat_alt)
  have rows: "chain_rows ?db = ys"
  proof -
    have "chain_rows ?db = filter (\<lambda>x. \<not> ae_sequence x \<le> ae_sequence e) (chain_rows db)"
      by (simp add: chain_rows_def filter_sort)
    also have "\<dots> = ys" unfolding split using lt gt by (simp add: filter_id_conv filter_empty_conv)
    finally show ?thesis .
  qed
  have base: "chain_base ?db = (ae_sequence e, ae_entry_hash e)"
    by (simp add: chain_base_def through_checkpoint_def Let_def)
  have stop: "chain_end ?n ?h (xs @ [e]) = (ae_sequence e, ae_entry_hash e)"
    using l linked_append [of env "?n + 1" ?h "xs @ [e]" ys] by (intro chain_end_nonempty [THEN trans]) auto
  have ly: "linked env (ae_sequence e + 1) (ae_entry_hash e) ys"
    using l linked_append [of env "?n + 1" ?h "xs @ [e]" ys] stop by simp
  have head: "chain_head ?db = chain_head db"
    using chain_end_append [of ?n ?h "xs @ [e]" ys] stop unfolding chain_head_def split rows base by simp
  have e: "ae_sequence e \<noteq> 0" "ae_entry_hash e \<noteq> []"
    using sequence_le_head(2) [OF inv mem] l sign_not_Nil [OF mac] by (auto simp: sign_event_def linked_append)
  have "unat (ae_sequence e) = unat ?n + Suc (length xs)"
    using arg_cong [OF seqs, of "\<lambda>l. l ! length xs"] len by (simp add: nth_append del: upt.simps)
  moreover have "length (audit_events ?db) = length ys" using rows chain_rows_set(2) by metis
  ultimately have "chain_room k ?db" using inv len by (simp add: audit_inv_def chain_room_def base)
  then show ?thesis
    using inv ly rows head through_checkpoint_verifies [OF mac e]
    by (simp add: audit_inv_def chain_valid_def base)
qed

abbreviation last_expired :: "time \<Rightarrow> audit_db \<Rightarrow> audit_event option" where
  "last_expired cutoff db \<equiv> newest (filter (\<lambda>e. ae_created_at e < cutoff) (audit_events db))"

lemma prune_tx_Inr:
  assumes "transaction (AuditEngine fault)
                   (bnd (modify (AuditEngine (''save audit checkpoint: '' @ fault))
                           (save_checkpoint (through_checkpoint env now e))) (\<lambda>_.
                    exec (AuditEngine (''delete expired audit events: '' @ fault)) (delete_through (ae_sequence e)))) s
      = (Inr n, s')"
  shows "n = length (filter (\<lambda>x. ae_sequence x \<le> ae_sequence e) (audit_events (tables s)))
    \<and> tables s' = shortened env now e (tables s)"
proof -
  obtain s1 s2 where "tables s1 = tables s"
      "bnd (modify (AuditEngine (''save audit checkpoint: '' @ fault))
                 (save_checkpoint (through_checkpoint env now e))) (\<lambda>_.
          exec (AuditEngine (''delete expired audit events: '' @ fault)) (delete_through (ae_sequence e))) s1 = (Inr n, s2)"
      "tables s' = tables s2"
    by (rule transaction_Inr [OF assms])
  then have "delete_through (ae_sequence e) (save_checkpoint (through_checkpoint env now e) (tables s)) = (n, tables s')"
    unfolding bnd_Inr by (auto dest!: modify_Inr exec_Inr)
  then show ?thesis by (simp add: shortened_def delete_through_def)
qed

lemma cleanup_cases:
  assumes run: "cleanup_before env fault now cutoff s = (r, s')"
  obtains (failed) err where "r = Inl err" "tables s' = tables s"
  | (unchanged) c where "r = Inr c" "tables s' = tables s" "chain_valid env (tables s)" "last_expired cutoff (tables s) = None"
      "cr_deleted_entries c = 0"
  | (removed) c e where "r = Inr c" "chain_valid env (tables s)" "last_expired cutoff (tables s) = Some e"
      "tables s' = shortened env now e (tables s)" "cr_checkpoint_sequence c = ae_sequence e"
      "cr_deleted_entries c = int (length (filter (\<lambda>x. ae_sequence x \<le> ae_sequence e) (audit_events (tables s))))"
proof (cases "attached s")
  case False
  then show ?thesis using run failed by (auto simp: cleanup_before_def guard_db_def)
next
  case True
  define tx where "tx e = transaction (AuditEngine fault)
                   (bnd (modify (AuditEngine (''save audit checkpoint: '' @ fault))
                           (save_checkpoint (through_checkpoint env now e))) (\<lambda>_.
                    exec (AuditEngine (''delete expired audit events: '' @ fault)) (delete_through (ae_sequence e))))" for e
  define get where "get = query (AuditEngine (''find expired audit events: '' @ fault)) (last_expired cutoff)"
  obtain v s1 where v: "verify_locked env fault s = (v, s1)" by fastforce
  obtain q s2 where q: "get s1 = (q, s2)" by fastforce
  have t1: "tables s1 = tables s" using keepsD [OF verify_locked_keeps [of "\<lambda>db. db = tables s"] refl v] .
  have t2: "tables s2 = tables s1" using q query_tables [of _ _ s1] unfolding get_def by (metis snd_conv)
  note run' = run [unfolded cleanup_before_def guard_db_def if_P [OF True] bnd_run [of "verify_locked env fault"] v,
      folded tx_def get_def]
  show ?thesis
  proof (cases "\<exists>vr e. v = Inr vr \<and> vr_valid vr \<and> q = Inr (Some e)")
    case True
    then obtain vr e where vr: "v = Inr vr" "vr_valid vr" "q = Inr (Some e)" by blast
    have ok: "chain_valid env (tables s)" using verify_locked_Inr [OF v [unfolded vr]] vr(2) by blast
    have e: "last_expired cutoff (tables s) = Some e" using query_Inr [OF q [unfolded vr get_def]] t1 by simp
    obtain d s3 where d: "tx e s2 = (d, s3)" by fastforce
    show ?thesis
    proof (cases d)
      case (Inl x)
      have "r = Inl x" "s' = s3" using run' by (simp_all add: vr bnd_run q d Inl)
      then show ?thesis using failed transaction_Inl [OF d [unfolded Inl tx_def]] t1 t2 by simp
    next
      case (Inr n)
      note p = prune_tx_Inr [OF d [unfolded Inr tx_def]]
      have rr: "r = Inr \<lparr>cr_deleted_entries = int n, cr_checkpoint_sequence = ae_sequence e,
          cr_checkpoint_entry_hash = ae_entry_hash e, cr_retention_cutoff = cutoff, cr_integrity_check_passed = True\<rparr>"
        "s' = s3"
        using run' by (simp_all add: vr bnd_run q d Inr)
      show ?thesis by (rule removed [OF rr(1) ok e]) (use p t1 t2 rr(2) in simp_all)
    qed
  next
    case False
    consider x where "r = Inl x" "s' = s1 \<or> s' = s2"
      | vr where "v = Inr vr" "vr_valid vr" "q = Inr None" "s' = s2"
        "r = Inr \<lparr>cr_deleted_entries = 0, cr_checkpoint_sequence = vr_checkpoint_sequence vr,
          cr_checkpoint_entry_hash = [], cr_retention_cutoff = cutoff, cr_integrity_check_passed = True\<rparr>"
      using run' False by (cases v; cases q) (auto simp: bnd_run q split: if_splits option.splits)
    then show ?thesis
    proof cases
      case (2 vr)
      have "chain_valid env (tables s)" using verify_locked_Inr [OF v [unfolded 2]] 2(2) by blast
      moreover have "last_expired cutoff (tables s) = None" using query_Inr [OF q [unfolded 2 get_def]] t1 by simp
      ultimately show ?thesis using t1 t2 2(4) by (intro unchanged [OF 2(5)]) simp_all
    qed (use failed t1 t2 in auto)
  qed
qed

lemma cleanup_moves:
  assumes "mac_nonempty env"
  shows "keeps (audit_inv env k) (cleanup_before env fault now cutoff)"
  unfolding keeps_def
proof (intro allI impI)
  fix s :: "audit_db engine" assume inv: "audit_inv env k (tables s)"
  obtain r s' where run: "cleanup_before env fault now cutoff s = (r, s')" by fastforce
  from run show "audit_inv env k (tables (snd (cleanup_before env fault now cutoff s)))"
  proof (cases rule: cleanup_cases)
    case (removed c e)
    have "e \<in> set (audit_events (tables s))" using newest_Some(1) [OF removed(3)] by simp
    then show ?thesis using run removed shortened_inv [OF inv assms] by simp
  qed (use run inv in simp_all)
qed

section \<open>Histories\<close>

datatype audit_op =
    Append "nat \<Rightarrow> string" "nat \<Rightarrow> time" event_input
  | Cleanup string time time
  | Clean "nat \<Rightarrow> string" "nat \<Rightarrow> time" string int
  | Verify string

fun audit_step :: "audit_env \<Rightarrow> audit_op \<Rightarrow> unit audit_act" where
  "audit_step env (Append fault clock input) = bnd (append_event env fault clock input) (\<lambda>_. ret ())"
| "audit_step env (Cleanup fault now cutoff) = bnd (cleanup_before env fault now cutoff) (\<lambda>_. ret ())"
| "audit_step env (Clean fault clock request_id days) = bnd (run_cleaner env fault clock request_id days) (\<lambda>_. ret ())"
| "audit_step env (Verify fault) = bnd (verify env fault) (\<lambda>_. ret ())"

lemma run_cleaner_moves:
  assumes "mac_nonempty env"
  shows "moves (audit_inv env (Suc k)) (audit_inv env k) (run_cleaner env fault clock request_id days)"
  unfolding run_cleaner_def
  by (intro moves_bnd cleanup_moves moves_if moves_ret moves_bnd_last [OF append_event_moves keeps_ret] assms)
    (auto intro: audit_inv_mono)

lemma audit_step_moves:
  assumes "mac_nonempty env"
  shows "moves (audit_inv env (Suc k)) (audit_inv env k) (audit_step env x)"
proof (cases x)
  case (Cleanup fault now cutoff)
  then show ?thesis
    using cleanup_moves [OF assms, of "Suc k" fault now cutoff]
    by (auto intro!: moves_bnd moves_ret intro: audit_inv_mono)
next
  case (Verify fault)
  then show ?thesis
    by (auto simp: verify_def intro!: moves_bnd moves_ret keeps_guard_db verify_locked_keeps intro: audit_inv_mono)
qed (auto intro!: moves_bnd_last append_event_moves run_cleaner_moves keeps_ret assms)

lemma audit_history:
  "mac_nonempty env \<Longrightarrow> audit_inv env (length ops + k) (tables s) \<Longrightarrow> audit_inv env k (tables (run_ops (audit_step env) ops s))"
proof (induction ops arbitrary: s)
  case (Cons x xs)
  then have "audit_inv env (length xs + k) (tables (snd (audit_step env x s)))"
    using audit_step_moves [of env "length xs + k" x] by (simp add: moves_def)
  then show ?case using Cons by simp
qed simp

text \<open>
  C7: The audit chain stays valid.  From tables that \<open>Verify\<close> accepts, every history of
  appended events, cleanups, runs of the cleaner and verifications, with any input and any
  engine failures, leads to tables that \<open>Verify\<close> accepts, as long as the 64-bit sequence
  numbers do not run out.
\<close>

theorem audit_chain_stays_valid:
  assumes "mac_nonempty env"
    and "verify env fault s0 = (Inr r0, s)" "vr_valid r0"
    and "chain_room (length ops) (tables s)"
  shows "\<exists>r. result (verify env fault') (healthy (tables (run_ops (audit_step env) ops s))) = Inr r \<and> vr_valid r"
proof -
  have "verify_locked env fault s0 = (Inr r0, s)" using assms(2) by (simp add: verify_def guard_db_Inr)
  from verify_locked_Inr [OF this] have "audit_inv env (length ops) (tables s)"
    using assms(3,4) by (simp add: audit_inv_def)
  then have "chain_valid env (tables (run_ops (audit_step env) ops s))"
    using audit_history [OF assms(1), of ops 0 s] by (simp add: audit_inv_def)
  then show ?thesis by (metis verify_healthy fst_conv result_def)
qed

definition demo_audit :: audit_env where
  "demo_audit = \<lparr>au_hmac = (\<lambda>key text. ''x'' @ text), au_key = replicate 32 CHR ''k'', au_lower = id, au_upper = id\<rparr>"

lemma demo_audit_mac: "mac_nonempty demo_audit"
  by (simp add: mac_nonempty_def demo_audit_def)

definition empty_audit :: audit_db where
  "empty_audit = \<lparr>audit_events = [], audit_checkpoints = [], audit_states = []\<rparr>"

lemma empty_audit_verifies: "verify env fault (healthy empty_audit) = (Inr fresh_result, healthy empty_audit)"
  by (simp add: verify_def verify_locked_def bnd_run empty_audit_def find_checkpoint_def find_state_def Let_def check_head_def)

theorem audit_chain_stays_valid_witness:
  "\<exists>r. result (verify demo_audit []) (healthy (tables (run_ops (audit_step demo_audit)
       [Append (\<lambda>_. []) (\<lambda>_. 0) (cleanup_event ''r'' 1 5), Cleanup [] 0 9] (healthy empty_audit)))) = Inr r \<and> vr_valid r"
  using audit_chain_stays_valid [OF demo_audit_mac empty_audit_verifies [of demo_audit "[]"],
      of "[Append (\<lambda>_. []) (\<lambda>_. 0) (cleanup_event ''r'' 1 5), Cleanup [] 0 9]" "[]"]
  by (simp add: fresh_result_def chain_room_def chain_base_def empty_audit_def find_checkpoint_def)

lemma append_event_success:
  assumes "append_event env fault clock input s = (Inr e, s')"
  shows "audit_events (tables s') = audit_events (tables s) @ [e]"
    and "audit_checkpoints (tables s') = audit_checkpoints (tables s)"
    and "ae_sequence e \<notin> ae_sequence ` set (audit_events (tables s))"
    and "ae_entry_hash e = sign_event env e"
    and "e\<lparr>ae_id := 0, ae_sequence := 0, ae_previous_hash := [], ae_entry_hash := []\<rparr> = normalize_event env (clock 0) input"
    and "map_option (\<lambda>st. (as_last_sequence st, as_last_entry_hash st)) (find_state (tables s'))
           = Some (ae_sequence e, ae_entry_hash e)"
proof -
  obtain n s1 s2 where *: "tables s1 = tables s" "tables s' = tables s2"
      "append_tx env (fault n) (clock (Suc n)) (normalize_event env (clock 0) input) s1 = (Inr e, s2)"
    by (rule append_event_Inr [OF assms])
  from append_tx_Inr [OF *(3)] obtain m h where
    e: "e = (link_event env m h (normalize_event env (clock 0) input))\<lparr>ae_id := next_id (map ae_id (audit_events (tables s)))\<rparr>"
    "tables s' = extended env (clock (Suc n)) e (tables s)" "m + 1 \<notin> ae_sequence ` set (audit_events (tables s))"
    using *(1,2) by metis
  have u: "(link_event env m h x)\<lparr>ae_id := 0, ae_sequence := 0, ae_previous_hash := [], ae_entry_hash := []\<rparr>
      = x\<lparr>ae_id := 0, ae_sequence := 0, ae_previous_hash := [], ae_entry_hash := []\<rparr>" for x
    by (simp add: link_event_def Let_def)
  show "audit_events (tables s') = audit_events (tables s) @ [e]" by (simp add: e(2))
  show "audit_checkpoints (tables s') = audit_checkpoints (tables s)" by (simp add: e(2) extended_def)
  show "e\<lparr>ae_id := 0, ae_sequence := 0, ae_previous_hash := [], ae_entry_hash := []\<rparr> = normalize_event env (clock 0) input"
    using u [of "normalize_event env (clock 0) input"] by (simp add: e(1) normalize_event_def Let_def)
  have "ae_sequence e = m + 1" by (simp add: e(1))
  then show "ae_sequence e \<notin> ae_sequence ` set (audit_events (tables s))" using e(3) by simp
  show "ae_entry_hash e = sign_event env e" by (simp add: e(1))
  show "map_option (\<lambda>st. (as_last_sequence st, as_last_entry_hash st)) (find_state (tables s'))
           = Some (ae_sequence e, ae_entry_hash e)"
    by (simp add: e(2) head_state_def Let_def)
qed

text \<open>
  An append is all or nothing.  On success the trail gains exactly one event at its end,
  which carries the cleaned input, a new sequence number and its own signature, and the head
  record names it; no earlier event and no checkpoint changes.  On an error nothing changes.
\<close>

theorem append_event_effect:
  "case append_event env fault clock input s of
     (Inl err, s') \<Rightarrow> tables s' = tables s
   | (Inr e, s') \<Rightarrow>
       audit_events (tables s') = audit_events (tables s) @ [e]
       \<and> audit_checkpoints (tables s') = audit_checkpoints (tables s)
       \<and> ae_sequence e \<notin> ae_sequence ` set (audit_events (tables s))
       \<and> ae_entry_hash e = sign_event env e
       \<and> e\<lparr>ae_id := 0, ae_sequence := 0, ae_previous_hash := [], ae_entry_hash := []\<rparr> = normalize_event env (clock 0) input
       \<and> map_option (\<lambda>st. (as_last_sequence st, as_last_entry_hash st)) (find_state (tables s'))
           = Some (ae_sequence e, ae_entry_hash e)"
proof -
  obtain r s' where run: "append_event env fault clock input s = (r, s')" by fastforce
  show ?thesis
  proof (cases r)
    case (Inl err)
    then show ?thesis using run append_event_Inl [OF run [unfolded Inl]] by simp
  next
    case (Inr e)
    then show ?thesis using run append_event_success [OF run [unfolded Inr]] by simp
  qed
qed

section \<open>Tampering\<close>

definition text_valid :: "audit_event \<Rightarrow> bool" where
  "text_valid e \<longleftrightarrow> list_all valid_utf8 [ae_request_id e, ae_event_type e, ae_action e, ae_method e, ae_route e, ae_path e, ae_outcome e, ae_username e, ae_auth_mode e, ae_remote_ip e, ae_user_agent e, ae_message e, ae_previous_hash e]"

text \<open>What a signature covers: every field but the row identifier; the time as 64-bit nanoseconds.\<close>

definition signed_view :: "audit_event \<Rightarrow> audit_event" where
  "signed_view e = e\<lparr>ae_id := 0, ae_created_at := unix_nano (ae_created_at e)\<rparr>"

lemma event_payload_inject:
  assumes "text_valid e" "event_payload e = event_payload f"
  shows "(signed_view e)\<lparr>ae_entry_hash := h\<rparr> = (signed_view f)\<lparr>ae_entry_hash := h\<rparr>"
proof -
  note v = assms(1) [unfolded text_valid_def, simplified]
  note eq = assms(2) [unfolded event_payload_def, simplified append.simps append_assoc]
  have "ae_request_id e = ae_request_id f \<and> ae_event_type e = ae_event_type f \<and> ae_action e = ae_action f \<and> ae_method e = ae_method f \<and> ae_route e = ae_route f \<and> ae_path e = ae_path f \<and> ae_outcome e = ae_outcome f \<and> ae_username e = ae_username f \<and> ae_auth_mode e = ae_auth_mode f \<and> ae_remote_ip e = ae_remote_ip f \<and> ae_user_agent e = ae_user_agent f \<and> ae_message e = ae_message f \<and> ae_previous_hash e = ae_previous_hash f"
    "ae_sequence e = ae_sequence f" "ae_status e = ae_status f" "ae_sensitive e = ae_sensitive f"
    "ae_user_id e = ae_user_id f" "ae_content_length e = ae_content_length f" "ae_duration_ms e = ae_duration_ms f"
    "unix_nano (ae_created_at e) = unix_nano (ae_created_at f)" "ae_chain_version e = ae_chain_version f"
    using eq v by (simp_all add: json_string_end json_bool_end word_unat_eq_iff)
  then show ?thesis by (simp add: signed_view_def)
qed

text \<open>Two rows with different payloads that carry the same signature.\<close>

definition mac_collision :: "audit_env \<Rightarrow> audit_event list \<Rightarrow> audit_event list \<Rightarrow> bool" where
  "mac_collision env es fs \<longleftrightarrow>
     (\<exists>e\<in>set es. \<exists>f\<in>set fs. event_payload e \<noteq> event_payload f \<and> sign env (event_payload e) = sign env (event_payload f))"

lemma same_signature:
  assumes "sign_event env e = ae_entry_hash e" "sign_event env f = ae_entry_hash f" "ae_entry_hash e = ae_entry_hash f"
    "text_valid e" "\<not> mac_collision env [e] [f]"
  shows "signed_view e = signed_view f"
proof -
  have "event_payload e = event_payload f"
    using assms(1-3,5) unfolding mac_collision_def sign_event_def by auto
  from event_payload_inject [OF assms(4) this, of "ae_entry_hash e"] show ?thesis
    using assms(3) by (cases e, cases f) (simp add: signed_view_def)
qed

lemma linked_same:
  "length es = length fs \<Longrightarrow> linked env n h es \<Longrightarrow> linked env m k fs \<Longrightarrow>
   snd (chain_end (n - 1) h es) = snd (chain_end (m - 1) k fs) \<Longrightarrow> list_all text_valid es \<Longrightarrow> \<not> mac_collision env es fs \<Longrightarrow>
   map signed_view es = map signed_view fs"
proof (induction es fs rule: rev_induct2)
  case (4 e es f fs)
  let ?i = "chain_end (n - 1) h es" and ?j = "chain_end (m - 1) k fs"
  have links: "linked env n h es" "linked env m k fs" "ae_previous_hash e = snd ?i" "ae_previous_hash f = snd ?j"
    "sign_event env e = ae_entry_hash e" "sign_event env f = ae_entry_hash f"
    using 4 by (auto simp: linked_append)
  have "ae_entry_hash e = ae_entry_hash f" using 4 by (simp add: chain_end_append split: prod.splits)
  with links 4 have v: "signed_view e = signed_view f" by (intro same_signature [of env]) (auto simp: mac_collision_def)
  have "ae_previous_hash e = ae_previous_hash f" using arg_cong [OF v, of ae_previous_hash] by (simp add: signed_view_def)
  moreover have "\<not> mac_collision env es fs" using 4 by (auto simp: mac_collision_def)
  ultimately show ?case using 4 links v by simp
qed auto

lemma head_rows:
  assumes "chain_valid env db" "find_state db = Some st" "chain_room 0 db"
  shows "unat (as_last_sequence st) = unat (fst (chain_base db)) + length (chain_rows db)"
    "as_last_entry_hash st = snd (chain_head db)"
proof -
  have inv: "audit_inv env 0 db" using assms by (simp add: audit_inv_def)
  have h: "verify_state env st" "as_last_sequence st = fst (chain_head db)"
    "as_last_entry_hash st = (if fst (chain_head db) = 0 then genesis_hash else snd (chain_head db))"
    using assms by (auto simp: chain_valid_def head_matches_def)
  then show "unat (as_last_sequence st) = unat (fst (chain_base db)) + length (chain_rows db)"
    using chain_head_unat [OF inv] by simp
  show "as_last_entry_hash st = snd (chain_head db)" using h by (auto simp: verify_state_def)
qed


definition demo_event :: audit_event where
  "demo_event = link_event demo_audit 0 genesis_hash (normalize_event demo_audit 5
     \<lparr>in_request_id = [], in_event_type = [], in_action = [], in_method = [], in_route = [], in_path = [],
      in_status = 200, in_outcome = [], in_sensitive = True, in_user_id = 1, in_username = [], in_auth_mode = [],
      in_remote_ip = [], in_user_agent = [], in_content_length = 0, in_duration_ms = 0, in_message = [], in_created_at = 0\<rparr>)"

lemma demo_event_extends:
  "audit_inv demo_audit 0 (extended demo_audit 0 (demo_event\<lparr>ae_id := i\<rparr>) empty_audit)" "text_valid (demo_event\<lparr>ae_id := i\<rparr>)"
proof -
  have "chain_valid demo_audit empty_audit" "chain_head empty_audit = (0, genesis_hash)" "chain_room 1 empty_audit"
    by (simp_all add: chain_valid_def empty_audit_def find_checkpoint_def find_state_def chain_base_def chain_rows_def
        chain_head_def head_matches_def chain_room_def)
  then show "audit_inv demo_audit 0 (extended demo_audit 0 (demo_event\<lparr>ae_id := i\<rparr>) empty_audit)"
    by (intro extended_inv demo_audit_mac) (simp_all add: audit_inv_def demo_event_def)
  show "text_valid (demo_event\<lparr>ae_id := i\<rparr>)"
    unfolding text_valid_def demo_event_def list.pred_inject
    by (intro conjI ascii_valid_utf8)
      (simp_all add: link_event_def normalize_event_def Let_def sanitize_def sanitize_default_def case_simps
        genesis_hash_def list_all_iff)
qed


section \<open>Effect of retention\<close>

text \<open>
  Retention.  A cleanup that succeeds started from a trail that \<open>Verify\<close> accepts, leaves no
  event older than the cutoff, removes exactly the events up to the sequence of its new
  checkpoint and counts them; the cleanup of a trail that does not verify, and every cleanup
  that fails, changes nothing.
\<close>

theorem cleanup_effect:
  "case cleanup_before env fault now cutoff s of
     (Inl err, s') \<Rightarrow> tables s' = tables s
   | (Inr c, s') \<Rightarrow>
       result (verify env []) (healthy (tables s)) \<in> Inr ` {r. vr_valid r}
       \<and> list_all (\<lambda>e. cutoff \<le> ae_created_at e) (audit_events (tables s'))
       \<and> cr_deleted_entries c = int (length (audit_events (tables s))) - int (length (audit_events (tables s')))
       \<and> (audit_events (tables s') = audit_events (tables s)
            \<or> audit_events (tables s') = filter (\<lambda>e. cr_checkpoint_sequence c < ae_sequence e) (audit_events (tables s))
              \<and> map_option ac_through_sequence (find_checkpoint (tables s')) = Some (cr_checkpoint_sequence c))"
proof -
  obtain r s' where run: "cleanup_before env fault now cutoff s = (r, s')" by fastforce
  have valid: "result (verify env []) (healthy db) \<in> Inr ` {r. vr_valid r}" if "chain_valid env db" for db
  proof -
    obtain v where "verify env [] (healthy db) = (Inr v, healthy db)" "vr_valid v \<longleftrightarrow> chain_valid env db"
      by (rule verify_healthy)
    then show ?thesis using that by (simp add: result_def)
  qed
  from run show ?thesis
  proof (cases rule: cleanup_cases)
    case (unchanged c)
    then have "filter (\<lambda>e. ae_created_at e < cutoff) (audit_events (tables s)) = []" by (simp add: newest_def)
    then have "list_all (\<lambda>e. cutoff \<le> ae_created_at e) (audit_events (tables s))"
      by (auto simp: filter_empty_conv not_less list_all_iff)
    then show ?thesis using run unchanged valid by simp
  next
    case (removed c e)
    have max: "ae_sequence x \<le> ae_sequence e" if "x \<in> set (audit_events (tables s))" "ae_created_at x < cutoff" for x
      using newest_Some(2) [OF removed(3), of x] that by simp
    then have "list_all (\<lambda>e. cutoff \<le> ae_created_at e) (audit_events (tables s'))"
      unfolding removed(4) by (auto simp: not_less [symmetric] list_all_iff)
    moreover have "length (filter P xs) + length (filter (\<lambda>x. \<not> P x) xs) = length xs" for P and xs :: "audit_event list"
      by (rule sum_length_filter_compl)
    note this [of "\<lambda>x. ae_sequence x \<le> ae_sequence e" "audit_events (tables s)"]
    ultimately show ?thesis
      using run removed valid by (simp add: not_le through_checkpoint_def Let_def)
  qed (use run in simp)
qed

end
