(* ===== verification/Audit_Ops.thy ===== *)
theory Audit_Ops
  imports Audit_Props
begin

text \<open>
  Further properties of the audit trail: what cleaned input looks like, how long an append
  insists on a busy database, and which events retention really removes.
\<close>

section \<open>Cleaned input\<close>

definition plain_rune :: "rune \<Rightarrow> bool" where
  "plain_rune r \<longleftrightarrow> scalar r \<and> \<not> is_control r"

lemma length_utf8_rune: "length (utf8 [r]) \<le> 4"
  using length_encode_rune [of r] by (simp add: utf8_def bytes_def)

lemma sanitize_loop_utf8:
  "list_all rune_ok xs \<Longrightarrow> \<exists>rs. sanitize_loop limit built xs = built @ utf8 rs \<and> list_all plain_rune rs"
proof (induction xs arbitrary: built)
  case Nil
  show ?case by (rule exI [of _ "[]"]) simp
next
  case (Cons x xs)
  define c where "c = (case x of None \<Rightarrow> rune_error | Some r \<Rightarrow> r)"
  define d where "d = (if is_control c then 0x20 else c)"
  have "scalar c" using Cons.prems by (auto simp: c_def rune_ok_def rune_error_def scalar_def split: option.splits)
  then have d: "plain_rune d" by (simp add: d_def plain_rune_def) (simp add: scalar_def is_control_def)
  obtain rs where rs: "sanitize_loop limit (built @ utf8 [d]) xs = (built @ utf8 [d]) @ utf8 rs" "list_all plain_rune rs"
    using Cons.IH [of "built @ utf8 [d]"] Cons.prems by auto
  have "sanitize_loop limit built (x # xs) =
      (if limit \<le> length (built @ utf8 [d]) then built @ utf8 [d] else sanitize_loop limit (built @ utf8 [d]) xs)"
    by (simp add: Let_def c_def d_def)
  then have "sanitize_loop limit built (x # xs) = built @ utf8 [d] \<or> sanitize_loop limit built (x # xs) = built @ utf8 (d # rs)"
    using rs utf8_Cons [of d rs] by simp
  then show ?case
    using d rs(2) by (elim disjE) (rule exI [of _ "[d]"], simp, rule exI [of _ "d # rs"], simp)
qed

lemma sanitize_loop_length: "length built < limit \<Longrightarrow> length (sanitize_loop limit built xs) \<le> limit + 3"
proof (induction xs arbitrary: built)
  case (Cons x xs)
  let ?d = "let c = (case x of None \<Rightarrow> rune_error | Some r \<Rightarrow> r) in if is_control c then 0x20 else c"
  have "length (built @ utf8 [?d]) \<le> limit + 3" using Cons.prems length_utf8_rune [of ?d] by simp
  then show ?case using Cons by (auto simp: Let_def)
qed simp

lemma sanitize_runes:
  obtains rs where "sanitize t limit = utf8 rs" "list_all plain_rune rs"
proof (cases "trim_space t = [] \<or> limit = 0")
  case True
  then show ?thesis using that [of "[]"] by (auto simp: sanitize_def Let_def)
next
  case False
  let ?b = "sanitize_loop limit [] (runes (trim_space t))"
  obtain rs where rs: "?b = utf8 rs" "list_all plain_rune rs"
    using sanitize_loop_utf8 [of "runes (trim_space t)" limit "[]"] runes_ok by (auto simp: list_all_iff)
  then have "list_all scalar rs" by (auto simp: list_all_iff plain_rune_def)
  then obtain ts where ts: "trim_space (utf8 rs) = utf8 ts" "set ts \<subseteq> set rs" by (rule trim_space_utf8)
  then show ?thesis using that [of ts] rs False by (auto simp: sanitize_def Let_def list_all_iff)
qed

lemma sanitize_valid_utf8: "valid_utf8 (sanitize t limit)"
proof -
  obtain rs where "sanitize t limit = utf8 rs" "list_all plain_rune rs" by (rule sanitize_runes)
  then show ?thesis by (auto simp: list_all_iff plain_rune_def intro!: valid_utf8_utf8)
qed

lemma sanitize_length: "length (sanitize t limit) \<le> limit + 3"
proof (cases "limit = 0")
  case False
  then show ?thesis
    using sanitize_loop_length [of "[]" limit "runes (trim_space t)"]
      length_trim_space [of "sanitize_loop limit [] (runes (trim_space t))"]
    by (simp add: sanitize_def Let_def)
qed (simp add: sanitize_def Let_def)

text \<open>
  C36: Cleaned text.  Whatever bytes a client sends, a cleaned field is valid UTF-8 without
  control characters, is trimmed, and has at most three bytes more than its limit.
\<close>

theorem sanitize_output:
  "list_all (\<lambda>x. x \<noteq> None \<and> \<not> is_control (the x)) (runes (sanitize t limit))
   \<and> trim_space (sanitize t limit) = sanitize t limit
   \<and> length (sanitize t limit) \<le> limit + 3"
proof -
  obtain rs where rs: "sanitize t limit = utf8 rs" "list_all plain_rune rs" by (rule sanitize_runes)
  then have "runes (sanitize t limit) = map Some rs" by (auto simp: list_all_iff plain_rune_def intro!: runes_utf8)
  moreover have "trim_space (sanitize t limit) = sanitize t limit" by (simp add: sanitize_def Let_def)
  ultimately show ?thesis using rs(2) sanitize_length by (auto simp: list_all_iff plain_rune_def)
qed

text \<open>Every appended event has valid text, so its signature covers it.\<close>

lemma normalize_text_valid:
  assumes "valid_utf8 h"
  shows "text_valid (link_event env n h (normalize_event env now input))"
proof -
  have "ae_outcome (normalize_event env now input) \<in> {''success'', ''failure''}"
    by (simp add: normalize_event_def Let_def)
  then have "valid_utf8 (ae_outcome (normalize_event env now input))"
    by (auto intro!: ascii_valid_utf8 simp: ascii_def)
  moreover have "valid_utf8 (sanitize_default t fallback limit)" if "ascii fallback" for t fallback limit
    using that sanitize_valid_utf8 ascii_valid_utf8 by (simp add: sanitize_default_def Let_def)
  moreover have "ascii ''http''" "ascii ''unknown''" by (simp_all add: ascii_def)
  ultimately show ?thesis
    using assms sanitize_valid_utf8 by (simp add: text_valid_def link_event_def Let_def normalize_event_def)
qed

section \<open>Busy databases\<close>

text \<open>
  An action whose calls fail with an error in \<open>E\<close>: either it meets no failing call and does what it
  does on an engine that works, consuming at least \<open>n\<close> outcomes when it succeeds, or it stops at the
  first failing call with such an error.
\<close>

definition flaky :: "('e \<Rightarrow> bool) \<Rightarrow> nat \<Rightarrow> ('db, 'e, 'a) act \<Rightarrow> bool" where
  "flaky E n m \<longleftrightarrow>
     (\<forall>s r s'. m s = (r, s') \<longrightarrow> attached s' = attached s \<and>
        ((\<exists>k. fate s' = drop k (fate s) \<and> True \<notin> set (take k (fate s))
            \<and> r = fst (m (healthy (tables s))) \<and> tables s' = tables (snd (m (healthy (tables s)))) \<and> (\<not> isl r \<longrightarrow> n \<le> k))
         \<or> (\<exists>e k. r = Inl e \<and> E e \<and> k < length (fate s) \<and> fate s ! k \<and> True \<notin> set (take k (fate s))
              \<and> fate s' = drop (Suc k) (fate s))))"

lemma flakyE:
  assumes "flaky E n m" "m s = (r, s')"
  obtains (works) k where "attached s' = attached s" "fate s' = drop k (fate s)" "True \<notin> set (take k (fate s))"
      "r = fst (m (healthy (tables s)))" "tables s' = tables (snd (m (healthy (tables s))))" "\<not> isl r \<Longrightarrow> n \<le> k"
    | (fails) e k where "attached s' = attached s" "r = Inl e" "E e" "k < length (fate s)" "fate s ! k" "True \<notin> set (take k (fate s))"
      "fate s' = drop (Suc k) (fate s)"
proof -
  have "attached s' = attached s \<and>
        ((\<exists>k. fate s' = drop k (fate s) \<and> True \<notin> set (take k (fate s))
            \<and> r = fst (m (healthy (tables s))) \<and> tables s' = tables (snd (m (healthy (tables s)))) \<and> (\<not> isl r \<longrightarrow> n \<le> k))
         \<or> (\<exists>e k. r = Inl e \<and> E e \<and> k < length (fate s) \<and> fate s ! k \<and> True \<notin> set (take k (fate s))
              \<and> fate s' = drop (Suc k) (fate s)))"
    using assms unfolding flaky_def by blast
  then show ?thesis using works fails by blast
qed

lemma flaky_healthy: "flaky E n m \<Longrightarrow> \<exists>r db'. m (healthy db) = (r, healthy db')"
proof -
  assume f: "flaky E n m"
  obtain r s' where run: "m (healthy db) = (r, s')" by fastforce
  from f run show ?thesis
  proof (cases rule: flakyE)
    case (works k)
    then have "s' = healthy (tables s')" by (simp add: healthy_def)
    then show ?thesis using run by metis
  qed simp
qed

named_theorems flaky_rules \<open>structural rules for \<open>flaky\<close>\<close>

lemma flaky_ret [flaky_rules]: "flaky E 0 (ret a)"
  unfolding flaky_def by (auto intro: exI [of _ 0])

lemma flaky_throw [flaky_rules]: "flaky E n (throw e)"
  unfolding flaky_def by (auto intro: exI [of _ 0])

lemma flaky_exec:
  assumes "E e"
  shows "flaky E 1 (exec e f)"
  unfolding flaky_def
proof (intro allI impI)
  fix s r s' assume run: "exec e f s = (r, s')"
  show "attached s' = attached s \<and>
        ((\<exists>k. fate s' = drop k (fate s) \<and> True \<notin> set (take k (fate s))
            \<and> r = fst (exec e f (healthy (tables s))) \<and> tables s' = tables (snd (exec e f (healthy (tables s)))) \<and> (\<not> isl r \<longrightarrow> 1 \<le> k))
         \<or> (\<exists>x k. r = Inl x \<and> E x \<and> k < length (fate s) \<and> fate s ! k \<and> True \<notin> set (take k (fate s))
              \<and> fate s' = drop (Suc k) (fate s)))"
  proof (cases "fate s")
    case (Cons b fs)
    show ?thesis
    proof (cases b)
      case True
      then have "r = Inl e" "s' = s\<lparr>fate := fs\<rparr>" using run Cons by (simp_all add: exec_def)
      then show ?thesis using Cons True assms by auto
    next
      case False
      then show ?thesis using run Cons by (auto simp: exec_def split: prod.splits intro!: exI [of _ 1])
    qed
  next
    case Nil
    then show ?thesis using run by (auto simp: exec_def split: prod.splits intro!: exI [of _ 1])
  qed
qed

lemma flaky_query [flaky_rules]: "E e \<Longrightarrow> flaky E 1 (query e f)"
  unfolding query_def by (rule flaky_exec)

lemma flaky_modify [flaky_rules]: "E e \<Longrightarrow> flaky E 1 (modify e f)"
  unfolding modify_def by (rule flaky_exec)

lemma drop_take_set: "True \<notin> set (take k fs) \<Longrightarrow> True \<notin> set (take j (drop k fs)) \<Longrightarrow> True \<notin> set (take (k + j) fs)"
  by (simp add: take_add)

lemma flaky_bnd [flaky_rules]:
  assumes m: "flaky E n m" and f: "\<And>a. flaky E p (f a)"
  shows "flaky E (n + p) (bnd m f)"
  unfolding flaky_def
proof (intro allI impI)
  fix s r s' assume run: "bnd m f s = (r, s')"
  obtain r1 s1 where one: "m s = (r1, s1)" by fastforce
  obtain r0 db1 where h: "m (healthy (tables s)) = (r0, healthy db1)" using flaky_healthy [OF m] by blast
  show "attached s' = attached s \<and>
        ((\<exists>k. fate s' = drop k (fate s) \<and> True \<notin> set (take k (fate s))
            \<and> r = fst (bnd m f (healthy (tables s))) \<and> tables s' = tables (snd (bnd m f (healthy (tables s)))) \<and> (\<not> isl r \<longrightarrow> n + p \<le> k))
         \<or> (\<exists>x k. r = Inl x \<and> E x \<and> k < length (fate s) \<and> fate s ! k \<and> True \<notin> set (take k (fate s))
              \<and> fate s' = drop (Suc k) (fate s)))"
    using m one
  proof (cases rule: flakyE)
    case (fails e k)
    then have "r = Inl e" "s' = s1" using run one by (simp_all add: bnd_def)
    then show ?thesis using fails by blast
  next
    case (works k)
    show ?thesis
    proof (cases r1)
      case (Inl e)
      then have "r = Inl e" "s' = s1" "bnd m f (healthy (tables s)) = (Inl e, healthy db1)"
        using run one works h by (simp_all add: bnd_def)
      then show ?thesis using works h by auto
    next
      case (Inr a)
      have two: "f a s1 = (r, s')" using run one Inr by (simp add: bnd_def)
      have b: "bnd m f (healthy (tables s)) = f a (healthy (tables s1))" using works h Inr by (cases r0) (simp_all add: bnd_def)
      have n: "n \<le> k" using works(6) unfolding Inr by simp
      from f [of a] two show ?thesis
      proof (cases rule: flakyE)
        case later: (works j)
        have "fate s' = drop (k + j) (fate s)" using works later by (simp add: add.commute)
        moreover have "True \<notin> set (take (k + j) (fate s))" using works later by (intro drop_take_set) simp_all
        ultimately show ?thesis using works later n unfolding b by (intro conjI disjI1 exI [of _ "k + j"]) auto
      next
        case later: (fails e j)
        have "k + j < length (fate s)" "fate s ! (k + j)" "fate s' = drop (Suc (k + j)) (fate s)"
          using works later by (auto simp: add.commute)
        moreover have "True \<notin> set (take (k + j) (fate s))" using works later by (intro drop_take_set) simp_all
        ultimately show ?thesis using works later by blast
      qed
    qed
  qed
qed

lemma flaky_less: "flaky E n m \<Longrightarrow> p \<le> n \<Longrightarrow> flaky E p m"
proof -
  assume m: "flaky E n m" and p: "p \<le> n"
  show ?thesis
    unfolding flaky_def
  proof (intro allI impI, goal_cases)
    case (1 s r s')
    with m show ?case
    proof (cases rule: flakyE)
      case (works k)
      then show ?thesis using p by (intro conjI disjI1 exI [of _ k]) auto
    qed blast
  qed
qed

lemma flaky_option [flaky_rules]:
  "flaky E n m \<Longrightarrow> (\<And>x. flaky E n (f x)) \<Longrightarrow> flaky E n (case y of None \<Rightarrow> m | Some x \<Rightarrow> f x)"
  by (cases y) auto

lemma flaky_prod [flaky_rules]: "(\<And>x z. flaky E n (f x z)) \<Longrightarrow> flaky E n (case y of (x, z) \<Rightarrow> f x z)"
  by (cases y) auto

lemma flaky_transaction:
  assumes e: "E e" and m: "flaky E n m"
  shows "flaky E (n + 2) (transaction e m)"
proof -
  let ?tick = "exec e (\<lambda>db. ((), db))"
  define run_body where "run_body = bnd ?tick (\<lambda>_. bnd m (\<lambda>a. bnd ?tick (\<lambda>_. ret a)))"
  have body: "flaky E (1 + (n + (1 + 0))) run_body"
    unfolding run_body_def by (intro flaky_bnd flaky_exec flaky_ret e m)
  have eq: "transaction e m s = (case run_body s of (Inl x, s') \<Rightarrow> (Inl x, s'\<lparr>tables := tables s\<rparr>) | (Inr a, s') \<Rightarrow> (Inr a, s'))" for s
    by (cases rule: exec_cases [of s e "\<lambda>db. ((), db)"])
      (auto simp: run_body_def transaction_def bnd_def split: prod.splits sum.splits)
  show ?thesis
    unfolding flaky_def
  proof (intro allI impI)
    fix s r s' assume run: "transaction e m s = (r, s')"
    obtain rb sb where b: "run_body s = (rb, sb)" by fastforce
    have r: "r = rb" "fate s' = fate sb" "attached s' = attached sb" "tables s' = (if isl rb then tables s else tables sb)"
      using run b by (auto simp: eq split: sum.splits)
    obtain r0 db0 where h: "run_body (healthy (tables s)) = (r0, healthy db0)" using flaky_healthy [OF body] by blast
    have t: "fst (transaction e m (healthy (tables s))) = r0"
      "tables (snd (transaction e m (healthy (tables s)))) = (if isl r0 then tables s else db0)"
      unfolding eq [of "healthy (tables s)"] h by (auto split: sum.splits)
    show "attached s' = attached s \<and>
        ((\<exists>k. fate s' = drop k (fate s) \<and> True \<notin> set (take k (fate s))
            \<and> r = fst (transaction e m (healthy (tables s))) \<and> tables s' = tables (snd (transaction e m (healthy (tables s))))
            \<and> (\<not> isl r \<longrightarrow> n + 2 \<le> k))
         \<or> (\<exists>x k. r = Inl x \<and> E x \<and> k < length (fate s) \<and> fate s ! k \<and> True \<notin> set (take k (fate s))
              \<and> fate s' = drop (Suc k) (fate s)))"
      using body b
    proof (cases rule: flakyE)
      case (works k)
      then show ?thesis using r t h by (intro conjI disjI1 exI [of _ k]) auto
    next
      case (fails x k)
      then show ?thesis using r by auto
    qed
  qed
qed

lemma append_tx_healthy:
  assumes inv: "audit_inv env k db" and new: "sign_event env (link_event env (fst (chain_head db)) (snd (chain_head db)) event)
      \<notin> ae_entry_hash ` set (audit_events db)" and room: "chain_room 1 db"
  shows "\<exists>e db'. append_tx env fault now event (healthy db) = (Inr e, healthy db')"
proof -
  have "answers (load_chain_head fault)" unfolding load_chain_head_def by (intro answers_rules)
  then obtain n h where head: "load_chain_head fault (healthy db) = (Inr (n, h), healthy db)"
    unfolding answers_def by (metis surj_pair)
  then have nh: "chain_head db = (n, h)" using load_chain_head_Inr [of fault "healthy db" n h "healthy db" env k] inv by simp
  have "verify_stored_head env fault n h (healthy db) = (Inr (), healthy db)"
  proof (cases "find_state db")
    case None
    then show ?thesis using inv nh by (simp add: verify_stored_head_def bnd_run audit_inv_def chain_valid_def head_matches_def)
  next
    case (Some st)
    then have "verify_state env st" "as_last_sequence st = n" "as_last_entry_hash st = (if n = 0 then genesis_hash else h)"
      using inv nh by (simp_all add: audit_inv_def chain_valid_def head_matches_def)
    then show ?thesis using Some by (auto simp: verify_stored_head_def bnd_run verify_state_def)
  qed
  moreover have "ae_sequence x \<noteq> n + 1" if "x \<in> set (audit_events db)" for x
  proof -
    have "unat (n + 1) = Suc (unat n)"
      using room chain_head_unat [OF inv] nh by (simp add: chain_room_def unat_word_ariths)
    then show ?thesis using sequence_le_head(1) [OF inv that] nh by (auto simp: word_le_nat_alt)
  qed
  then have "\<not> list_ex (\<lambda>x. ae_sequence x = n + 1 \<or> ae_entry_hash x = sign_event env (link_event env n h event)) (audit_events db)"
    using new nh unfolding list_ex_iff by (metis fst_conv image_eqI snd_conv)
  ultimately show ?thesis
    using head by (auto simp: append_tx_def bnd_run create_event_def Let_def)
qed

text \<open>The errors of an attempt: the text of the engine, behind what the code puts before it.\<close>

definition locked_error :: "audit_env \<Rightarrow> audit_error \<Rightarrow> bool" where
  "locked_error env e \<longleftrightarrow> is_database_busy env e"

lemma sublist_behind: "sublist w xs \<Longrightarrow> sublist w (ys @ xs)"
  unfolding sublist_def by (metis append_assoc)

lemma busy_prefixed:
  "ascii text \<Longrightarrow> ascii before \<Longrightarrow> is_database_busy env (AuditEngine text) \<Longrightarrow> locked_error env (AuditEngine (before @ text))"
  by (auto simp: locked_error_def is_database_busy_def to_lower_def ascii_def intro: sublist_behind)

text \<open>An attempt makes at least six calls: the beginning, two reads, the insertion, the head record, the end.\<close>

lemma flaky_attempt:
  assumes "ascii fault" "is_database_busy env (AuditEngine fault)"
  shows "flaky (locked_error env) 6 (transaction (AuditEngine fault) (append_tx env fault now event))"
proof -
  note p = busy_prefixed [OF assms(1) _ assms(2)]
  have e: "locked_error env (AuditEngine fault)"
    "locked_error env (AuditEngine (''read audit chain head: '' @ fault))"
    "locked_error env (AuditEngine (''read audit checkpoint: '' @ fault))"
    "locked_error env (AuditEngine (''read audit chain state: '' @ fault))"
    using p [of "[]"] p [of "''read audit chain head: ''"] p [of "''read audit checkpoint: ''"] p [of "''read audit chain state: ''"]
    by (simp_all add: ascii_def)
  have none: "flaky (locked_error env) 0 (query (AuditEngine (''read audit checkpoint: '' @ fault)) find_checkpoint)"
    by (rule flaky_less [of _ 1]) (rule flaky_query, rule e(3), simp)
  have head: "flaky (locked_error env) (1 + 0) (load_chain_head fault)"
    unfolding load_chain_head_def
    by (intro flaky_bnd flaky_query e(2) flaky_option flaky_ret flaky_bnd [of _ 0 _ 0, simplified] none)
  have stored: "flaky (locked_error env) (1 + 0) (verify_stored_head env fault n h)" for n h
    unfolding verify_stored_head_def by (intro flaky_bnd flaky_query e(4)) (auto intro: flaky_rules split: option.splits)
  have "flaky (locked_error env) ((1 + 0) + ((1 + 0) + (1 + (1 + 0)))) (append_tx env fault now event)"
    unfolding append_tx_def
    by (intro flaky_bnd head flaky_prod stored flaky_exec flaky_option flaky_throw flaky_modify flaky_ret e(1))
  from flaky_transaction [OF e(1) this] show ?thesis by (simp add: numeral_eq_Suc)
qed

lemma count_take_drop: "count_list xs x = count_list (take k xs) x + count_list (drop k xs) x"
  using count_list_append [of "take k xs" "drop k xs" x] by simp

lemma append_attempts_busy:
  assumes ok: "\<And>n. \<exists>e db'. append_tx env (fault n) (clock n) event (healthy db) = (Inr e, healthy db')"
    and busy: "\<And>n. ascii (fault n) \<and> is_database_busy env (AuditEngine (fault n))"
  shows "tables s = db \<Longrightarrow> count_list (fate s) True \<le> left \<Longrightarrow>
    \<exists>e s'. append_attempts env fault clock event attempt left s = (Inr e, s')"
proof (induction left arbitrary: s attempt rule: less_induct)
  case (less left)
  let ?once = "transaction (AuditEngine (fault attempt)) (append_tx env (fault attempt) (clock attempt) event)"
  obtain r s1 where run: "?once s = (r, s1)" by fastforce
  have "flaky (locked_error env) 6 ?once" using busy [of attempt] by (intro flaky_attempt) auto
  from this run show ?case
  proof (cases rule: flakyE)
    case (works k)
    obtain e db' where "append_tx env (fault attempt) (clock attempt) event (healthy db) = (Inr e, healthy db')" using ok by blast
    then have "r = Inr e" using works less.prems(1) by (simp add: transaction_healthy)
    then show ?thesis using run by (subst append_attempts.simps) simp
  next
    case (fails e k)
    have "count_list (fate s) True = count_list (take k (fate s)) True + count_list (drop k (fate s)) True"
      by (rule count_take_drop)
    moreover have "drop k (fate s) = True # fate s1" using fails by (metis Cons_nth_drop_Suc)
    ultimately have c: "count_list (fate s1) True < left" using less.prems(2) by simp
    then obtain l where l: "left = Suc l" by (cases left) auto
    have "tables s1 = db" using run fails less.prems(1) transaction_Inl by metis
    from less.IH [of l s1 "Suc attempt", OF _ this] c l obtain x s'
      where "append_attempts env fault clock event (Suc attempt) l s1 = (Inr x, s')" by auto
    then show ?thesis using run fails l by (subst append_attempts.simps) (simp add: locked_error_def del: append_attempts.simps)
  qed
qed

lemma attempt_stopped:
  assumes ok: "\<exists>e db'. append_tx env fault now event (healthy (tables s)) = (Inr e, healthy db')"
    and busy: "ascii fault" "is_database_busy env (AuditEngine fault)"
    and fate: "fate s = replicate j False @ True # fs" "j < 6"
  obtains e s1 where "transaction (AuditEngine fault) (append_tx env fault now event) s = (Inl e, s1)"
    "is_database_busy env e" "tables s1 = tables s" "fate s1 = fs"
proof -
  let ?once = "transaction (AuditEngine fault) (append_tx env fault now event)"
  obtain r s1 where run: "?once s = (r, s1)" by fastforce
  have at: "True \<in> set (take k (fate s))" if "j < k" for k using that fate(1) by (cases "k - j") (auto simp: take_Cons')
  from flaky_attempt [OF busy, of now event] run show ?thesis
  proof (cases rule: flakyE)
    case (works k)
    obtain e db' where "append_tx env fault now event (healthy (tables s)) = (Inr e, healthy db')" using ok by blast
    then have "r = Inr e" using works by (simp add: transaction_healthy)
    then have "j < k" using works(6) fate(2) by simp
    then show ?thesis using at works(3) by blast
  next
    case (fails e k)
    have "\<not> j < k" using at fails(6) by blast
    moreover have "\<not> k < j" using fails(5) fate(1) by (auto simp: nth_append)
    ultimately have "k = j" by simp
    then have "fate s1 = fs" using fails(7) fate(1) by simp
    moreover have "tables s1 = tables s" using run fails(2) transaction_Inl by metis
    ultimately show ?thesis using that run fails by (auto simp: locked_error_def)
  qed
qed

lemma append_attempts_give_up:
  assumes ok: "\<And>n. \<exists>e db'. append_tx env (fault n) (clock n) event (healthy db) = (Inr e, healthy db')"
    and busy: "\<And>n. ascii (fault n) \<and> is_database_busy env (AuditEngine (fault n))"
  shows "tables s = db \<Longrightarrow> length js = Suc left \<Longrightarrow> list_all (\<lambda>j. j < 6) js \<Longrightarrow>
    fate s = concat (map (\<lambda>j. replicate j False @ [True]) js) @ fs \<Longrightarrow>
    \<exists>e s'. append_attempts env fault clock event attempt left s = (Inl e, s') \<and> is_database_busy env e \<and> tables s' = db"
proof (induction left arbitrary: s attempt js)
  case (0 s attempt js)
  then obtain j where "js = [j]" by (auto simp: length_Suc_conv)
  with 0 have "fate s = replicate j False @ True # fs" "j < 6" by simp_all
  from attempt_stopped [OF _ _ _ this] obtain e s1
    where "transaction (AuditEngine (fault attempt)) (append_tx env (fault attempt) (clock attempt) event) s = (Inl e, s1)"
      "is_database_busy env e" "tables s1 = tables s"
    using ok [of attempt] busy [of attempt] 0(1) by metis
  then show ?case using 0 by (subst append_attempts.simps) simp
next
  case (Suc left)
  then obtain j js' where js: "js = j # js'" by (cases js) auto
  with Suc.prems have "fate s = replicate j False @ True # (concat (map (\<lambda>j. replicate j False @ [True]) js') @ fs)" "j < 6" by simp_all
  from attempt_stopped [OF _ _ _ this] obtain e s1
    where stop: "transaction (AuditEngine (fault attempt)) (append_tx env (fault attempt) (clock attempt) event) s = (Inl e, s1)"
      "is_database_busy env e" "tables s1 = tables s" "fate s1 = concat (map (\<lambda>j. replicate j False @ [True]) js') @ fs"
    using ok [of attempt] busy [of attempt] Suc.prems(1) by metis
  then show ?case
    using Suc.IH [of s1 js' "Suc attempt"] Suc.prems js by (subst append_attempts.simps) (simp del: append_attempts.simps)
qed

text \<open>What a trail that verifies, with room and a new signature, makes of an append: on an engine that works it succeeds.\<close>

definition ready :: "audit_env \<Rightarrow> time \<Rightarrow> event_input \<Rightarrow> audit_db \<Rightarrow> bool" where
  "ready env now input db \<longleftrightarrow>
     chain_valid env db \<and> chain_room 1 db
     \<and> sign_event env (link_event env (fst (chain_head db)) (snd (chain_head db)) (normalize_event env now input))
         \<notin> ae_entry_hash ` set (audit_events db)"

lemma ready_append:
  "ready env now0 input db \<Longrightarrow> \<exists>e db'. append_tx env fault now (normalize_event env now0 input) (healthy db) = (Inr e, healthy db')"
  by (rule append_tx_healthy [of _ 1]) (simp_all add: ready_def audit_inv_def)

lemma verified_ready:
  assumes "result (verify env fault0) (healthy db) = Inr r" "vr_valid r" "chain_room 1 db"
    and "sign_event env (link_event env (fst (chain_head db)) (snd (chain_head db)) (normalize_event env now input))
      \<notin> ae_entry_hash ` set (audit_events db)"
  shows "ready env now input db"
  using assms verify_healthy [of env fault0 db] unfolding ready_def by (metis Inr_inject fst_conv result_def)

lemma append_event_returns:
  assumes "result (verify env fault0) (healthy db) = Inr r" "vr_valid r" "chain_room 1 db"
    and "sign_event env (link_event env (fst (chain_head db)) (snd (chain_head db)) (normalize_event env (clock 0) input))
      \<notin> ae_entry_hash ` set (audit_events db)"
  shows "\<exists>e s'. append_event env fault clock input (healthy db) = (Inr e, s')"
proof -
  obtain e db' where "append_tx env (fault 0) (clock (Suc 0)) (normalize_event env (clock 0) input) (healthy db) = (Inr e, healthy db')"
    using ready_append [OF verified_ready [OF assms]] by blast
  then show ?thesis
    unfolding append_event_def guard_db_healthy by (subst append_attempts.simps) (simp add: transaction_healthy)
qed

text \<open>
  C34: Waiting for a busy database.  Take a trail that verifies, with room for a sequence number and
  a signature not seen before, and let engine calls answer that the database is locked, at any
  points of the attempts: opening the transaction, reading the head, inserting, writing the head
  record or committing.  When at most three calls find it locked, whichever they are, the append
  succeeds.  When each of the first four attempts finds it locked, each at any of its first six
  calls, the append fails with the busy error and nothing has changed.
\<close>

theorem append_retries_busy:
  assumes "result (verify env fault0) (healthy db) = Inr r" "vr_valid r" "chain_room 1 db"
    and "sign_event env (link_event env (fst (chain_head db)) (snd (chain_head db)) (normalize_event env (clock 0) input))
      \<notin> ae_entry_hash ` set (audit_events db)"
    and "\<And>n. ascii (fault n) \<and> is_database_busy env (AuditEngine (fault n))"
  shows "(count_list calls True \<le> 3 \<longrightarrow>
      (\<exists>e s'. append_event env fault clock input \<lparr>tables = db, fate = calls, attached = True\<rparr> = (Inr e, s')))
    \<and> (length js = 4 \<and> list_all (\<lambda>j. j < 6) js \<longrightarrow>
      (\<exists>e s'. append_event env fault clock input
           \<lparr>tables = db, fate = concat (map (\<lambda>j. replicate j False @ [True]) js) @ calls, attached = True\<rparr> = (Inl e, s')
         \<and> is_database_busy env e \<and> tables s' = db))"
proof -
  let ?event = "normalize_event env (clock 0) input"
  have ok: "\<exists>e db'. append_tx env (fault n) (clock (Suc n)) ?event (healthy db) = (Inr e, healthy db')" for n
    by (rule ready_append [OF verified_ready [OF assms(1-4)]])
  note yes = append_attempts_busy [of env fault "\<lambda>n. clock (Suc n)", OF ok assms(5)]
    and no = append_attempts_give_up [of env fault "\<lambda>n. clock (Suc n)", OF ok assms(5)]
  show ?thesis
    using yes [of "\<lparr>tables = db, fate = calls, attached = True\<rparr>" 3 0]
      no [of "\<lparr>tables = db, fate = concat (map (\<lambda>j. replicate j False @ [True]) js) @ calls, attached = True\<rparr>" js 3 calls 0]
    by (simp add: append_event_def guard_db_def del: append_attempts.simps)
qed

theorem append_retries_busy_witness:
  "(\<exists>e s'. append_event demo_audit (\<lambda>_. ''database is locked'') (\<lambda>_. 0) (cleanup_event ''r'' 1 5)
      \<lparr>tables = empty_audit, fate = [False, False, True, False, False, False, True], attached = True\<rparr> = (Inr e, s'))
   \<and> (\<exists>e s'. append_event demo_audit (\<lambda>_. ''database is locked'') (\<lambda>_. 0) (cleanup_event ''r'' 1 5)
      \<lparr>tables = empty_audit, fate = concat (map (\<lambda>j. replicate j False @ [True]) [4, 2, 0, 5])
         @ [False, False, True, False, False, False, True], attached = True\<rparr> = (Inl e, s'))"
proof -
  have v: "result (verify demo_audit []) (healthy empty_audit) = Inr fresh_result" "vr_valid fresh_result" "chain_room 1 empty_audit"
    by (simp add: result_def empty_audit_verifies)
      (simp_all add: fresh_result_def chain_room_def chain_base_def empty_audit_def find_checkpoint_def)
  have b: "ascii ''database is locked'' \<and> is_database_busy demo_audit (AuditEngine ''database is locked'')"
    by (simp add: is_database_busy_def case_simps)
  have n: "sign_event demo_audit (link_event demo_audit (fst (chain_head empty_audit)) (snd (chain_head empty_audit))
      (normalize_event demo_audit 0 (cleanup_event ''r'' 1 5))) \<notin> ae_entry_hash ` set (audit_events empty_audit)"
    by (simp add: empty_audit_def)
  note w = append_retries_busy [OF v n b, of "[False, False, True, False, False, False, True]" "[4, 2, 0, 5]"]
  have "count_list [False, False, True, False, False, False, True] True \<le> 3" "length [4, 2, 0, 5 :: nat] = 4"
    "list_all (\<lambda>j. j < 6) [4, 2, 0, 5 :: nat]" by simp_all
  with w show ?thesis by blast
qed

section \<open>Events that retention removes early\<close>

lemma cleanup_healthy:
  assumes "chain_valid env db"
  shows "\<exists>c s'. cleanup_before env fault now cutoff (healthy db) = (Inr c, s')"
proof -
  obtain v where v: "verify_locked env fault (healthy db) = (Inr v, healthy db)" by (rule answersE [OF verify_locked_answers])
  have "vr_valid v" using verify_locked_Inr [OF v] assms by simp
  then show ?thesis
    by (cases "last_expired cutoff db") (simp_all add: cleanup_before_def bnd_run v transaction_healthy delete_through_def)
qed

text \<open>
  C40: Retention follows sequence numbers, not times.  Events carry the time their request
  began and are numbered when it ends.  When a request that began before the cutoff was
  recorded after one that began later, the cleanup removes both, also the event that is not
  older than the cutoff.
\<close>

theorem retention_removes_unexpired:
  assumes "result (verify env fault0) (healthy db) = Inr r" "vr_valid r"
    and "young \<in> set (audit_events db)" "old \<in> set (audit_events db)" "ae_sequence young < ae_sequence old"
    and "ae_created_at old < cutoff" "cutoff \<le> ae_created_at young"
  shows "\<exists>c s'. cleanup_before env fault now cutoff (healthy db) = (Inr c, s') \<and> young \<notin> set (audit_events (tables s'))"
proof -
  have "chain_valid env db" using assms(1,2) verify_healthy [of env fault0 db] by (metis Inr_inject fst_conv result_def)
  then obtain c s' where run: "cleanup_before env fault now cutoff (healthy db) = (Inr c, s')" using cleanup_healthy by blast
  from run have "young \<notin> set (audit_events (tables s'))"
  proof (cases rule: cleanup_cases)
    case (unchanged c)
    then show ?thesis using assms(4,6) by (auto simp: newest_def filter_empty_conv)
  next
    case (removed c e)
    have "ae_sequence old \<le> ae_sequence e" using newest_Some(2) [OF removed(3), of old] assms(4,6) by simp
    then show ?thesis using assms(5) removed(4) by auto
  qed simp
  with run show ?thesis by blast
qed

definition first_event :: audit_event where
  "first_event = (let e = demo_event\<lparr>ae_id := 1, ae_created_at := 50\<rparr> in e\<lparr>ae_entry_hash := sign_event demo_audit e\<rparr>)"

definition second_event :: audit_event where
  "second_event = (link_event demo_audit 1 (ae_entry_hash first_event) (demo_event\<lparr>ae_created_at := 10\<rparr>))\<lparr>ae_id := 2\<rparr>"

definition unordered_audit :: audit_db where
  "unordered_audit = extended demo_audit 0 second_event (extended demo_audit 0 first_event empty_audit)"

lemma unordered_audit_valid: "chain_valid demo_audit unordered_audit"
proof -
  have first: "ae_sequence first_event = 1" "ae_previous_hash first_event = genesis_hash" "ae_chain_version first_event = chain_version"
    "sign_event demo_audit first_event = ae_entry_hash first_event"
    by (simp_all add: first_event_def demo_event_def Let_def)
  have "audit_inv demo_audit 2 empty_audit" "chain_head empty_audit = (0, genesis_hash)"
    by (simp_all add: audit_inv_def chain_valid_def empty_audit_def find_checkpoint_def find_state_def chain_base_def chain_rows_def
        chain_head_def head_matches_def chain_room_def)
  then have inv: "audit_inv demo_audit 1 (extended demo_audit 0 first_event empty_audit)"
    by (intro extended_inv demo_audit_mac) (simp_all add: first numeral_2_eq_2)
  have "chain_head (extended demo_audit 0 first_event empty_audit) = (1, ae_entry_hash first_event)"
    by (simp add: chain_head_def chain_base_def chain_rows_def) (simp add: empty_audit_def find_checkpoint_def)
  then have "audit_inv demo_audit 0 unordered_audit"
    using inv unfolding unordered_audit_def One_nat_def
    by (elim extended_inv [OF _ demo_audit_mac]) (simp_all add: second_event_def demo_event_def)
  then show ?thesis by (simp add: audit_inv_def)
qed

theorem retention_removes_unexpired_witness:
  "\<exists>c s'. cleanup_before demo_audit [] 60 40 (healthy unordered_audit) = (Inr c, s')
     \<and> first_event \<notin> set (audit_events (tables s'))"
proof -
  obtain r where r: "result (verify demo_audit []) (healthy unordered_audit) = Inr r" "vr_valid r"
    using verify_healthy [of demo_audit "[]" unordered_audit] unordered_audit_valid by (metis fst_conv result_def)
  have "ae_sequence first_event = 1" "ae_created_at first_event = 50" "ae_sequence second_event = 2" "ae_created_at second_event = 10"
    by (simp_all add: first_event_def second_event_def demo_event_def link_event_def Let_def)
  then show ?thesis
    by (intro retention_removes_unexpired [OF r, of _ second_event]) (simp_all add: unordered_audit_def)
qed

end
