(* ===== verification/Audit_Log.thy ===== *)
theory Audit_Log
  imports Authorization Audit_Ops
begin

text \<open>
  The audit middleware (\<open>AuditLog\<close> in \<open>router/middleware/permission.go\<close>): after a request has
  been served, an event about it is appended unless a handler recorded it or it need not be
  recorded.  The answer to the request does not depend on it.
\<close>

section \<open>The middleware\<close>

text \<open>\<open>http.StatusText\<close> for the codes of errors.\<close>

definition error_texts :: "(int \<times> string) list" where
  "error_texts =
     [(400, ''Bad Request''), (401, ''Unauthorized''), (402, ''Payment Required''),
      (403, ''Forbidden''), (404, ''Not Found''), (405, ''Method Not Allowed''),
      (406, ''Not Acceptable''), (407, ''Proxy Authentication Required''), (408, ''Request Timeout''),
      (409, ''Conflict''), (410, ''Gone''), (411, ''Length Required''),
      (412, ''Precondition Failed''), (413, ''Request Entity Too Large''), (414, ''Request URI Too Long''),
      (415, ''Unsupported Media Type''), (416, ''Requested Range Not Satisfiable''), (417, ''Expectation Failed''),
      (418, ''I'' @ [CHR 0x27] @ ''m a teapot''), (421, ''Misdirected Request''), (422, ''Unprocessable Entity''),
      (423, ''Locked''), (424, ''Failed Dependency''), (425, ''Too Early''),
      (426, ''Upgrade Required''), (428, ''Precondition Required''), (429, ''Too Many Requests''),
      (431, ''Request Header Fields Too Large''), (451, ''Unavailable For Legal Reasons''), (500, ''Internal Server Error''),
      (501, ''Not Implemented''), (502, ''Bad Gateway''), (503, ''Service Unavailable''),
      (504, ''Gateway Timeout''), (505, ''HTTP Version Not Supported''), (506, ''Variant Also Negotiates''),
      (507, ''Insufficient Storage''), (508, ''Loop Detected''), (510, ''Not Extended''),
      (511, ''Network Authentication Required'')]"

definition status_text :: "int \<Rightarrow> string" where
  "status_text status = (case map_of error_texts status of None \<Rightarrow> [] | Some t \<Rightarrow> t)"

text \<open>What the middleware sees of a served request; a context key of another type is absent.\<close>

record served_request = request_info +
  sv_request_id :: string
  sv_handled :: bool
  sv_status :: int
  sv_username :: "string option"
  sv_user :: gin_context
  sv_auth_mode :: "string option"
  sv_start :: time
  sv_duration_ms :: int

definition value_string :: "string option \<Rightarrow> string" where
  "value_string v = (case v of None \<Rightarrow> [] | Some t \<Rightarrow> t)"

definition http_event :: "audit_env \<Rightarrow> served_request \<Rightarrow> event_input" where
  "http_event env sv =
     (let route = (if rq_route sv = [] then rq_path sv else rq_route sv);
          failed = (StatusBadRequest \<le> sv_status sv)
      in \<lparr>in_request_id = sv_request_id sv, in_event_type = ''http'',
          in_action = to_lower (au_lower env) (rq_method sv) @ '' '' @ route,
          in_method = rq_method sv, in_route = route, in_path = rq_path sv,
          in_status = sv_status sv, in_outcome = (if failed then ''failure'' else ''success''),
          in_sensitive = is_sensitive_operation (rq_method sv) (rq_path sv),
          in_user_id = fst (authenticated_user_id (sv_user sv)),
          in_username = value_string (sv_username sv), in_auth_mode = value_string (sv_auth_mode sv),
          in_remote_ip = remote_ip (rq_remote_ip sv), in_user_agent = rq_user_agent sv,
          in_content_length = rq_content_length sv, in_duration_ms = sv_duration_ms sv,
          in_message = (if failed then status_text (sv_status sv) else []),
          in_created_at = sv_start sv\<rparr>)"

text \<open>\<open>manager\<close> is \<open>auditservice.Default() != nil\<close>; the error of the append is only logged.\<close>

definition audit_log :: "audit_env \<Rightarrow> (nat \<Rightarrow> string) \<Rightarrow> (nat \<Rightarrow> time) \<Rightarrow> bool \<Rightarrow> served_request \<Rightarrow> unit audit_act" where
  "audit_log env fault clock manager sv =
     (if sv_handled sv then ret ()
      else if \<not> should_persist_audit (rq_method sv) (rq_path sv) (sv_status sv)
                  (is_sensitive_operation (rq_method sv) (rq_path sv)) then ret ()
      else if \<not> manager then ret ()
      else (\<lambda>s. (Inr (), snd (append_event env fault clock (http_event env sv) s))))"

section \<open>What is recorded\<close>

definition describes :: "served_request \<Rightarrow> audit_event \<Rightarrow> bool" where
  "describes sv e \<longleftrightarrow>
     ae_path e = sanitize (rq_path sv) 1024
     \<and> ae_status e = (if 0 \<le> sv_status sv \<and> sv_status sv \<le> 999 then sv_status sv else 0)
     \<and> ae_outcome e = (if StatusBadRequest \<le> sv_status sv then ''failure'' else ''success'')
     \<and> ae_user_id e = fst (authenticated_user_id (sv_user sv))
     \<and> ae_username e = sanitize (value_string (sv_username sv)) 128
     \<and> ae_sensitive e = is_sensitive_operation (rq_method sv) (rq_path sv)"

lemma normalized_describes: "describes sv (normalize_event env now (http_event env sv))"
proof -
  have o: "to_lower u (trim_space ''success'') = ''success''" "to_lower u (trim_space ''failure'') = ''failure''" for u
    by (simp_all add: go_simps case_simps)
  show ?thesis by (auto simp: describes_def normalize_event_def http_event_def Let_def o)
qed

lemma describes_unsigned:
  "describes sv (e\<lparr>ae_id := 0, ae_sequence := 0, ae_previous_hash := [], ae_entry_hash := []\<rparr>) = describes sv e"
  by (simp add: describes_def)

text \<open>
  C32: Every request that matters is recorded.  On a trail that verifies (with room and a
  signature not seen before), serving a request leaves exactly one new event, with its path,
  status, outcome, user and sensitivity, if no handler has recorded it and it is one to be
  recorded, and no event otherwise; the answer does not depend on it.
\<close>

theorem served_requests_recorded:
  assumes "result (verify env fault0) (healthy db) = Inr r" "vr_valid r" "chain_room 1 db"
    and "sign_event env (link_event env (fst (chain_head db)) (snd (chain_head db))
        (normalize_event env (clock 0) (http_event env sv))) \<notin> ae_entry_hash ` set (audit_events db)"
  shows "\<exists>e s'. audit_log env fault clock True sv (healthy db) = (Inr (), s') \<and> describes sv e
    \<and> audit_events (tables s') = audit_events db @
        (if \<not> sv_handled sv \<and> should_persist_audit (rq_method sv) (rq_path sv) (sv_status sv)
              (is_sensitive_operation (rq_method sv) (rq_path sv)) then [e] else [])"
proof (cases "\<not> sv_handled sv \<and> should_persist_audit (rq_method sv) (rq_path sv) (sv_status sv)
              (is_sensitive_operation (rq_method sv) (rq_path sv))")
  case False
  then show ?thesis using normalized_describes [of sv env 0] by (auto simp: audit_log_def)
next
  case True
  obtain e s' where run: "append_event env fault clock (http_event env sv) (healthy db) = (Inr e, s')"
    using append_event_returns [of env fault0 db r clock "http_event env sv" fault] assms by blast
  have "describes sv e"
    using append_event_success(5) [OF run] normalized_describes [of sv env "clock 0"] describes_unsigned [of sv e] by simp
  then show ?thesis using True run append_event_success(1) [OF run] by (auto simp: audit_log_def)
qed

definition demo_served :: served_request where
  "demo_served = \<lparr>rq_method = ''POST'', rq_route = [], rq_path = ''/v1/x'', rq_remote_ip = [], rq_user_agent = [],
     rq_content_length = 0, sv_request_id = [], sv_handled = False, sv_status = 500, sv_username = None,
     sv_user = \<lparr>ctx_method = ''POST'', ctx_path = ''/v1/x'', ctx_user_id = Some 3, ctx_auth_mode = None, ctx_access = None\<rparr>,
     sv_auth_mode = None, sv_start = 5, sv_duration_ms = 1\<rparr>"

theorem served_requests_recorded_witness:
  "\<exists>e s'. audit_log demo_audit (\<lambda>_. []) (\<lambda>_. 0) True demo_served (healthy empty_audit) = (Inr (), s')
     \<and> describes demo_served e \<and> audit_events (tables s') = [e]"
proof -
  have v: "result (verify demo_audit []) (healthy empty_audit) = Inr fresh_result" "vr_valid fresh_result" "chain_room 1 empty_audit"
    by (simp add: result_def empty_audit_verifies)
      (simp_all add: fresh_result_def chain_room_def chain_base_def empty_audit_def find_checkpoint_def)
  have "\<not> sv_handled demo_served" "should_persist_audit (rq_method demo_served) (rq_path demo_served) (sv_status demo_served) b" for b
    by (simp_all add: demo_served_def should_persist_audit_def)
  then show ?thesis
    using served_requests_recorded [OF v, of "\<lambda>_. 0" demo_served "\<lambda>_. []"] by (simp add: empty_audit_def)
qed

end
