(* ===== verification/Tickets.thy ===== *)
theory Tickets
  imports Codec
begin

text \<open>
  Single-use terminal tickets (\<open>internal/services/ssh/ticket.go\<close> and the ticket store of
  \<open>internal/services/container/terminal.go\<close>): a ticket is a random token; the store keeps the
  claims under its SHA-256 digest until the ticket is consumed or expires.  The digest is a
  parameter.  The two stores differ: the container store removes a ticket at every attempt to
  consume it, the SSH store keeps it when the client address is wrong.
\<close>

section \<open>Stores\<close>

record ticket_claims =
  tc_user_id :: int
  tc_username :: string
  tc_client_ip :: string
  tc_user_agent :: string
  tc_source_session_id :: string
  tc_security_version :: nat

record container_claims = ticket_claims +
  cc_container_reference :: string
  cc_container_id :: string
  cc_container_name :: string
  cc_shell :: string
  cc_high_risk_confirmed :: bool

record 'c ticket_record =
  tr_claims :: 'c
  tr_expires_at :: time

record 'c ticket_store =
  ts_ttl :: int
  ts_entries :: "string \<rightharpoonup> 'c ticket_record"

datatype ticket_error = ErrInvalidTicket | ErrExpiredTicket | TicketRandom

definition new_ticket_store :: "int \<Rightarrow> 'c ticket_store" where
  "new_ticket_store ttl =
     \<lparr>ts_ttl = (if ttl \<le> 0 then 30 * second else ttl), ts_entries = Map.empty\<rparr>"

definition remove_expired :: "time \<Rightarrow> 'c ticket_store \<Rightarrow> 'c ticket_store" where
  "remove_expired now st = st\<lparr>ts_entries := (\<lambda>key.
     case ts_entries st key of
       None \<Rightarrow> None
     | Some r \<Rightarrow> if \<not> tr_expires_at r > now then None else Some r)\<rparr>"

text \<open>The part of \<open>Issue\<close> after the check of the claims; both stores share it.\<close>

definition issue_token :: "(string \<Rightarrow> string) \<Rightarrow> time \<Rightarrow> string option \<Rightarrow> 'c \<Rightarrow> 'c ticket_store
    \<Rightarrow> (ticket_error + string \<times> time) \<times> 'c ticket_store" where
  "issue_token digest now random claims st =
     (case random of
        None \<Rightarrow> (Inl TicketRandom, st)
      | Some raw \<Rightarrow>
          let token = raw_url_encode raw;
              st1 = remove_expired now st;
              expires_at = now + ts_ttl st
          in (Inr (token, expires_at),
              st1\<lparr>ts_entries := (ts_entries st1)(digest token \<mapsto> \<lparr>tr_claims = claims, tr_expires_at = expires_at\<rparr>)\<rparr>))"

definition issue_ticket :: "(string \<Rightarrow> string) \<Rightarrow> time \<Rightarrow> string option \<Rightarrow> ticket_claims \<Rightarrow> ticket_claims ticket_store
    \<Rightarrow> (ticket_error + string \<times> time) \<times> ticket_claims ticket_store" where
  "issue_ticket digest now random claims st =
     (if tc_user_id claims \<le> 0 \<or> tc_username claims = [] \<or> tc_client_ip claims = []
         \<or> tc_source_session_id claims = [] \<or> tc_security_version claims = 0
      then (Inl ErrInvalidTicket, st)
      else issue_token digest now random claims st)"

definition consume_ticket :: "(string \<Rightarrow> string) \<Rightarrow> time \<Rightarrow> string \<Rightarrow> string \<Rightarrow> ticket_claims ticket_store
    \<Rightarrow> (ticket_error + ticket_claims) \<times> ticket_claims ticket_store" where
  "consume_ticket digest now token client_ip st =
     (if token = [] \<or> client_ip = [] then (Inl ErrInvalidTicket, st)
      else
        let key = digest token;
            removed = st\<lparr>ts_entries := (ts_entries st)(key := None)\<rparr>
        in (case ts_entries st key of
              None \<Rightarrow> (Inl ErrInvalidTicket, st)
            | Some r \<Rightarrow>
                if \<not> tr_expires_at r > now then (Inl ErrExpiredTicket, removed)
                else if tc_client_ip (tr_claims r) \<noteq> client_ip then (Inl ErrInvalidTicket, st)
                else (Inr (tr_claims r), removed)))"

definition issue_container_ticket :: "(string \<Rightarrow> string) \<Rightarrow> time \<Rightarrow> string option \<Rightarrow> container_claims
    \<Rightarrow> container_claims ticket_store \<Rightarrow> (ticket_error + string \<times> time) \<times> container_claims ticket_store" where
  "issue_container_ticket digest now random claims st =
     (if tc_user_id claims \<le> 0 \<or> tc_username claims = [] \<or> tc_client_ip claims = []
         \<or> tc_source_session_id claims = [] \<or> tc_security_version claims = 0
         \<or> cc_container_reference claims = [] \<or> cc_container_id claims = [] \<or> cc_shell claims = []
      then (Inl ErrInvalidTicket, st)
      else issue_token digest now random claims st)"

definition consume_container_ticket :: "(string \<Rightarrow> string) \<Rightarrow> time \<Rightarrow> string \<Rightarrow> string \<Rightarrow> container_claims ticket_store
    \<Rightarrow> (ticket_error + container_claims) \<times> container_claims ticket_store" where
  "consume_container_ticket digest now token client_ip st =
     (if token = [] \<or> client_ip = [] then (Inl ErrInvalidTicket, st)
      else
        let key = digest token;
            removed = st\<lparr>ts_entries := (ts_entries st)(key := None)\<rparr>
        in (case ts_entries st key of
              None \<Rightarrow> (Inl ErrInvalidTicket, st)
            | Some r \<Rightarrow>
                if \<not> tr_expires_at r > now then (Inl ErrExpiredTicket, removed)
                else if tc_client_ip (tr_claims r) \<noteq> client_ip then (Inl ErrInvalidTicket, removed)
                else (Inr (tr_claims r), removed)))"

section \<open>Accounting of tickets\<close>

text \<open>A history of issued and redeemed tokens: the reports of both, and the store it leaves.\<close>

fun traffic :: "('i \<Rightarrow> 'st \<Rightarrow> 'k option \<times> 'st) \<Rightarrow> ('c \<Rightarrow> 'st \<Rightarrow> 'k option \<times> 'st) \<Rightarrow> ('i + 'c) list \<Rightarrow> 'st
    \<Rightarrow> 'k option list \<times> 'k option list \<times> 'st" where
  "traffic issue redeem [] st = ([], [], st)"
| "traffic issue redeem (Inl i # evs) st =
     (case issue i st of (r, st1) \<Rightarrow>
        case traffic issue redeem evs st1 of (is, rs, st2) \<Rightarrow> (r # is, rs, st2))"
| "traffic issue redeem (Inr c # evs) st =
     (case redeem c st of (r, st1) \<Rightarrow>
        case traffic issue redeem evs st1 of (is, rs, st2) \<Rightarrow> (is, r # rs, st2))"

text \<open>
  The interface of a store of single-use tokens: what is held, issuing (which reports the key
  it stored under) and consuming (which reports the key it gave up).
\<close>

locale single_use =
  fixes held :: "'st \<Rightarrow> 'k \<Rightarrow> bool"
    and issue :: "'i \<Rightarrow> 'st \<Rightarrow> 'k option \<times> 'st"
    and redeem :: "'c \<Rightarrow> 'st \<Rightarrow> 'k option \<times> 'st"
  assumes issue_holds: "issue i st = (r, st') \<Longrightarrow> held st' k \<Longrightarrow> held st k \<or> r = Some k"
    and redeem_takes: "redeem c st = (Some k, st') \<Longrightarrow> held st k \<and> \<not> held st' k"
    and redeem_adds_none: "redeem c st = (r, st') \<Longrightarrow> held st' k \<Longrightarrow> held st k"
begin

lemma redeemed_bound:
  "traffic issue redeem evs st = (is, rs, st') \<Longrightarrow>
   count_list rs (Some k) + of_bool (held st' k) \<le> count_list is (Some k) + of_bool (held st k)"
proof (induction evs arbitrary: st "is" rs)
  case (Cons ev evs)
  show ?case
  proof (cases ev)
    case (Inl i)
    obtain r st1 where i: "issue i st = (r, st1)" by fastforce
    obtain is1 rs1 where t: "traffic issue redeem evs st1 = (is1, rs1, st')" "is = r # is1" "rs = rs1"
      using Cons.prems Inl i by (auto split: prod.splits)
    have "of_bool (held st1 k) \<le> of_bool (held st k) + (if r = Some k then 1 else 0 :: nat)"
      using issue_holds [OF i, of k] by auto
    then show ?thesis using Cons.IH [OF t(1)] t(2,3) by auto
  next
    case (Inr c)
    obtain r st1 where c: "redeem c st = (r, st1)" by fastforce
    obtain is1 rs1 where t: "traffic issue redeem evs st1 = (is1, rs1, st')" "is = is1" "rs = r # rs1"
      using Cons.prems Inr c by (auto split: prod.splits)
    have "of_bool (held st1 k) + (if r = Some k then 1 else 0 :: nat) \<le> of_bool (held st k)"
      using redeem_takes [of c st k st1] redeem_adds_none [OF c, of k] c by auto
    then show ?thesis using Cons.IH [OF t(1)] t(2,3) by auto
  qed
qed simp

end

definition ticket_held :: "'c ticket_store \<Rightarrow> string \<Rightarrow> bool" where
  "ticket_held st key \<longleftrightarrow> ts_entries st key \<noteq> None"

text \<open>Issuing and consuming, reported by the digest of the token.\<close>

type_synonym 'c issue_event = "time \<times> string option \<times> 'c"
type_synonym consume_event = "time \<times> string \<times> string"

definition issue_keys :: "(string \<Rightarrow> string) \<Rightarrow> (time \<Rightarrow> string option \<Rightarrow> 'c \<Rightarrow> 'c ticket_store
    \<Rightarrow> (ticket_error + string \<times> time) \<times> 'c ticket_store) \<Rightarrow> 'c issue_event \<Rightarrow> 'c ticket_store
    \<Rightarrow> string option \<times> 'c ticket_store" where
  "issue_keys digest f ev st =
     (case ev of (now, random, claims) \<Rightarrow>
        case f now random claims st of
          (Inl _, st') \<Rightarrow> (None, st')
        | (Inr (token, _), st') \<Rightarrow> (Some (digest token), st'))"

definition consume_keys :: "(string \<Rightarrow> string) \<Rightarrow> (time \<Rightarrow> string \<Rightarrow> string \<Rightarrow> 'c ticket_store
    \<Rightarrow> (ticket_error + 'c) \<times> 'c ticket_store) \<Rightarrow> consume_event \<Rightarrow> 'c ticket_store
    \<Rightarrow> string option \<times> 'c ticket_store" where
  "consume_keys digest f ev st =
     (case ev of (now, token, ip) \<Rightarrow>
        case f now token ip st of
          (Inl _, st') \<Rightarrow> (None, st')
        | (Inr _, st') \<Rightarrow> (Some (digest token), st'))"

lemmas ticket_defs = issue_keys_def consume_keys_def issue_token_def remove_expired_def ticket_held_def Let_def

interpretation ssh_tickets: single_use ticket_held "issue_keys digest (issue_ticket digest)" "consume_keys digest (consume_ticket digest)"
  by unfold_locales
    (auto simp: ticket_defs issue_ticket_def consume_ticket_def split: prod.splits if_splits option.splits sum.splits)

interpretation terminal_tickets: single_use ticket_held "issue_keys digest (issue_container_ticket digest)"
    "consume_keys digest (consume_container_ticket digest)"
  by unfold_locales
    (auto simp: ticket_defs issue_container_ticket_def consume_container_ticket_def split: prod.splits if_splits option.splits sum.splits)

text \<open>
  C31: Tickets are single use.  Over every history of issued and presented tickets, with any
  clock, random tokens and client addresses, a ticket is accepted at most as often as it was
  issued (or held at the start), in the SSH store and in the container store.
\<close>

theorem tickets_single_use:
  "(case traffic (issue_keys digest (issue_ticket digest)) (consume_keys digest (consume_ticket digest)) evs st of
      (issued, accepted, st') \<Rightarrow>
        count_list accepted (Some key) \<le> count_list issued (Some key) + of_bool (ticket_held st key))
   \<and> (case traffic (issue_keys digest (issue_container_ticket digest))
           (consume_keys digest (consume_container_ticket digest)) cevs cst of
      (issued, accepted, st') \<Rightarrow>
        count_list accepted (Some key) \<le> count_list issued (Some key) + of_bool (ticket_held cst key))"
proof -
  obtain a b c where a: "traffic (issue_keys digest (issue_ticket digest)) (consume_keys digest (consume_ticket digest)) evs st
      = (a, b, c)" by (metis prod.collapse)
  obtain x y z where x: "traffic (issue_keys digest (issue_container_ticket digest))
      (consume_keys digest (consume_container_ticket digest)) cevs cst = (x, y, z)" by (metis prod.collapse)
  show ?thesis
    using ssh_tickets.redeemed_bound [OF a, of key] terminal_tickets.redeemed_bound [OF x, of key] a x by simp
qed

text \<open>A ticket is bound to its client address and to its time.\<close>

lemma consume_ticket_Inr:
  assumes "consume_ticket digest now token ip st = (Inr claims, st')"
  shows "tc_client_ip claims = ip" and "\<exists>r. ts_entries st (digest token) = Some r \<and> tr_claims r = claims \<and> now < tr_expires_at r"
  using assms by (auto simp: consume_ticket_def Let_def split: if_splits option.splits)

lemma consume_container_ticket_Inr:
  assumes "consume_container_ticket digest now token ip st = (Inr claims, st')"
  shows "tc_client_ip claims = ip" and "\<exists>r. ts_entries st (digest token) = Some r \<and> tr_claims r = claims \<and> now < tr_expires_at r"
  using assms by (auto simp: consume_container_ticket_def Let_def split: if_splits option.splits)

end
