(* ===== verification/Paths.thy ===== *)
theory Paths
  imports Prelude
begin

text \<open>
  The functions of package \<open>path/filepath\<close> the panel confines its files with, for Unix paths:
  \<open>Clean\<close>, \<open>Join\<close>, \<open>IsAbs\<close>, \<open>Base\<close>, \<open>Dir\<close>, \<open>Rel\<close>, and the containment test \<open>pathWithin\<close> of
  \<open>internal/services/panelupdate/archive.go\<close>.  The facts say what containment means: the
  elements of the cleaned root are the first elements of the cleaned candidate.
\<close>

section \<open>Splitting and joining\<close>

fun split_on :: "char \<Rightarrow> string \<Rightarrow> string list" where
  "split_on c [] = [[]]"
| "split_on c (x # xs) =
     (if x = c then [] # split_on c xs
      else (case split_on c xs of [] \<Rightarrow> [[x]] | w # ws \<Rightarrow> (x # w) # ws))"

fun join_with :: "char \<Rightarrow> string list \<Rightarrow> string" where
  "join_with c [] = []"
| "join_with c [w] = w"
| "join_with c (w # v # ws) = w @ c # join_with c (v # ws)"

section \<open>Paths\<close>

abbreviation is_abs :: "string \<Rightarrow> bool" where
  "is_abs path \<equiv> has_prefix path ''/''"

text \<open>The elements of a path that \<open>Clean\<close> keeps, innermost first while they are collected.\<close>

definition push_element :: "bool \<Rightarrow> string \<Rightarrow> string list \<Rightarrow> string list" where
  "push_element rooted e out =
     (if e = [] \<or> e = ''.'' then out
      else if e = ''..'' then
        (if out \<noteq> [] \<and> hd out \<noteq> ''..'' then tl out else if rooted then out else e # out)
      else e # out)"

definition elements :: "string \<Rightarrow> string list" where
  "elements path = rev (fold (push_element (is_abs path)) (split_on CHR ''/'' path) [])"

definition clean :: "string \<Rightarrow> string" where
  "clean path =
     (if is_abs path then CHR ''/'' # join_with CHR ''/'' (elements path)
      else if elements path = [] then ''.''
      else join_with CHR ''/'' (elements path))"

definition join_path :: "string list \<Rightarrow> string" where
  "join_path elems =
     (case dropWhile (\<lambda>e. e = []) elems of
        [] \<Rightarrow> []
      | es \<Rightarrow> clean (join_with CHR ''/'' es))"

text \<open>\<open>filepath.Base\<close>\<close>

definition base_name :: "string \<Rightarrow> string" where
  "base_name path =
     (if path = [] then ''.''
      else let p = rev (dropWhile (\<lambda>c. c = CHR ''/'') (rev path)) in
           if p = [] then ''/'' else last (split_on CHR ''/'' p))"

text \<open>\<open>filepath.Dir\<close>: the path up to its last slash, cleaned.\<close>

definition dir_path :: "string \<Rightarrow> string" where
  "dir_path path = clean (rev (dropWhile (\<lambda>c. c \<noteq> CHR ''/'') (rev path)))"

text \<open>\<open>Rel\<close>: an error when only one of the paths is rooted or the base climbs where the target does not.\<close>

fun strip_common :: "string list \<Rightarrow> string list \<Rightarrow> string list \<times> string list" where
  "strip_common (b # bs) (t # ts) = (if b = t then strip_common bs ts else (b # bs, t # ts))"
| "strip_common bs ts = (bs, ts)"

definition rel :: "string \<Rightarrow> string \<Rightarrow> string option" where
  "rel base targ =
     (if clean base = clean targ then Some ''.''
      else if is_abs base \<noteq> is_abs targ then None
      else (case strip_common (elements base) (elements targ) of
              (bs, ts) \<Rightarrow>
                if bs \<noteq> [] \<and> hd bs = ''..'' then None
                else Some (join_with CHR ''/'' (replicate (length bs) ''..'' @ ts))))"

definition path_within :: "string \<Rightarrow> string \<Rightarrow> bool" where
  "path_within root candidate =
     (case rel (clean root) (clean candidate) of
        None \<Rightarrow> False
      | Some relative \<Rightarrow> relative \<noteq> ''..'' \<and> \<not> has_prefix relative ''../'')"

text \<open>The equations that evaluate the operations on literals.\<close>

lemmas path_eval = path_within_def rel_def join_path_def dir_path_def clean_def elements_def push_element_def

section \<open>Elements of a path\<close>

lemma split_on_nonempty [simp]: "split_on c s \<noteq> []"
  by (induction s) (auto split: list.splits)

lemma join_split: "join_with c (split_on c s) = s"
proof (induction s)
  case (Cons x xs)
  obtain w ws where "split_on c xs = w # ws" by (cases "split_on c xs") auto
  with Cons show ?case by (cases ws) auto
qed simp

lemma split_on_parts: "w \<in> set (split_on c s) \<Longrightarrow> c \<notin> set w"
  by (induction s arbitrary: w) (auto split: if_splits list.splits)

lemma split_part: "c \<notin> set w \<Longrightarrow> split_on c w = [w]"
  by (induction w) auto

lemma split_append: "c \<notin> set w \<Longrightarrow> split_on c (w @ c # s) = w # split_on c s"
  by (induction w) auto

lemma split_join:
  "ws \<noteq> [] \<Longrightarrow> (\<And>w. w \<in> set ws \<Longrightarrow> c \<notin> set w) \<Longrightarrow> split_on c (join_with c ws) = ws"
  by (induction c ws rule: join_with.induct) (auto simp: split_part split_append)

text \<open>An element of a cleaned path, and a list of them as \<open>Clean\<close> leaves it.\<close>

definition plain_element :: "string \<Rightarrow> bool" where
  "plain_element e \<longleftrightarrow> e \<noteq> [] \<and> e \<noteq> ''.'' \<and> e \<noteq> ''..'' \<and> CHR ''/'' \<notin> set e"

definition tidy :: "bool \<Rightarrow> string list \<Rightarrow> bool" where
  "tidy rooted es \<longleftrightarrow> (\<exists>n ps. es = replicate n ''..'' @ ps \<and> list_all plain_element ps \<and> (rooted \<longrightarrow> n = 0))"

lemma push_element_tidy:
  assumes "tidy rooted (rev out)" "CHR ''/'' \<notin> set e"
  shows "tidy rooted (rev (push_element rooted e out))"
proof -
  obtain n ps where out: "rev out = replicate n ''..'' @ ps" "list_all plain_element ps" "rooted \<Longrightarrow> n = 0"
    using assms(1) by (auto simp: tidy_def)
  show ?thesis
  proof (cases "e = [] \<or> e = ''.''")
    case False
    show ?thesis
    proof (cases "e = ''..''")
      case up: True
      show ?thesis
      proof (cases ps rule: rev_cases)
        case Nil
        then have o: "out = replicate n ''..''" using out(1) by (metis append_Nil2 rev_rev_ident rev_replicate)
        then have "\<not> (out \<noteq> [] \<and> hd out \<noteq> ''..'')" by (cases n) auto
        moreover have "tidy False (rev (''..'' # out))"
          unfolding tidy_def o by (rule exI [of _ "Suc n"], rule exI [of _ "[]"]) (simp add: replicate_append_same)
        ultimately show ?thesis using up assms(1) by (cases rooted) (auto simp: push_element_def)
      next
        case (snoc qs q)
        then have "out = q # rev (replicate n ''..'' @ qs)" using out(1) by (metis append_assoc rev.simps(2) rev_rev_ident append_Nil append_Cons rev_append)
        moreover have "q \<noteq> ''..''" using out(2) snoc by (auto simp: plain_element_def)
        moreover have "tidy rooted (replicate n ''..'' @ qs)" unfolding tidy_def using out snoc by fastforce
        ultimately show ?thesis using up by (simp add: push_element_def)
      qed
    next
      case plain: False
      have "tidy rooted (replicate n ''..'' @ ps @ [e])"
        unfolding tidy_def using out plain False assms(2) by (fastforce simp: plain_element_def)
      then show ?thesis using plain False out(1) by (simp add: push_element_def)
    qed
  qed (use assms(1) in \<open>simp add: push_element_def\<close>)
qed

lemma elements_tidy: "tidy (is_abs path) (elements path)"
proof -
  have "tidy r (rev (fold (push_element r) ws out))"
    if "tidy r (rev out)" "\<And>w. w \<in> set ws \<Longrightarrow> CHR ''/'' \<notin> set w" for r ws out
    using that by (induction ws arbitrary: out) (auto simp: push_element_tidy)
  from this [of _ "[]"] show ?thesis using split_on_parts by (force simp: elements_def tidy_def)
qed

lemma tidy_fold:
  assumes "tidy rooted es"
  shows "fold (push_element rooted) es [] = rev es"
proof -
  obtain n ps where es: "es = replicate n ''..'' @ ps" "list_all plain_element ps" "rooted \<Longrightarrow> n = 0"
    using assms by (auto simp: tidy_def)
  have up: "fold (push_element rooted) (replicate n ''..'') (replicate m ''..'') = replicate (m + n) ''..''" for m
  proof (cases rooted)
    case False
    then show ?thesis
    proof (induction n arbitrary: m)
      case (Suc n)
      have "push_element rooted ''..'' (replicate m ''..'') = replicate (Suc m) ''..''"
        using False by (cases m) (auto simp: push_element_def)
      then show ?case using Suc.IH [OF False, of "Suc m"] by simp
    qed simp
  qed (use es(3) in simp)
  have "fold (push_element rooted) ps out = rev ps @ out" for out
    using es(2) by (induction ps arbitrary: out) (auto simp: push_element_def plain_element_def)
  then show ?thesis using up [of 0] unfolding es(1) by simp
qed

lemma tidy_parts:
  assumes "tidy rooted es" "w \<in> set es"
  shows "CHR ''/'' \<notin> set w \<and> w \<noteq> []"
proof -
  obtain n ps where es: "es = replicate n ''..'' @ ps" "list_all plain_element ps"
    using assms(1) by (auto simp: tidy_def)
  then consider "w = ''..''" | "plain_element w" using assms(2) by (auto simp: list_all_iff)
  then show ?thesis by cases (simp_all add: plain_element_def)
qed

lemma join_not_abs:
  assumes "ws \<noteq> []" "\<And>w. w \<in> set ws \<Longrightarrow> CHR ''/'' \<notin> set w \<and> w \<noteq> []"
  shows "\<not> is_abs (join_with CHR ''/'' ws)"
proof -
  obtain c w vs where "ws = (c # w) # vs" "c \<noteq> CHR ''/''"
    using assms by (cases ws; cases "hd ws") force+
  then show ?thesis by (cases vs) auto
qed

lemma elements_of_clean:
  "is_abs (clean path) = is_abs path" "elements (clean path) = elements path"
proof -
  let ?es = "elements path"
  have parts: "CHR ''/'' \<notin> set w \<and> w \<noteq> []" if "w \<in> set ?es" for w
    using tidy_parts [OF elements_tidy that] .
  have sp: "split_on CHR ''/'' (join_with CHR ''/'' ?es) = ?es" if "?es \<noteq> []"
    using split_join [OF that] parts by blast
  have hd: "\<not> is_abs (join_with CHR ''/'' ?es)" if "?es \<noteq> []"
    using join_not_abs [OF that] parts by blast
  show abs: "is_abs (clean path) = is_abs path"
    using hd by (auto simp: clean_def)
  show "elements (clean path) = ?es"
  proof (cases "?es = []")
    case True
    then show ?thesis by (auto simp: clean_def elements_def push_element_def)
  next
    case False
    show ?thesis
    proof (cases "is_abs path")
      case True
      then have "fold (push_element True) ?es [] = rev ?es" using tidy_fold elements_tidy by metis
      then show ?thesis using True False sp by (simp add: clean_def elements_def [of "CHR ''/'' # _"] push_element_def)
    next
      case rel: False
      then have "fold (push_element False) ?es [] = rev ?es" using tidy_fold elements_tidy by metis
      then show ?thesis using rel False sp hd by (simp add: clean_def elements_def [of "join_with _ _"])
    qed
  qed
qed

lemma clean_idem [simp]: "clean (clean path) = clean path"
  by (simp add: clean_def [of "clean path"] elements_of_clean) (simp add: clean_def)

lemma strip_common_cases:
  "strip_common bs ts = (bs', ts') \<Longrightarrow> \<exists>ps. bs = ps @ bs' \<and> ts = ps @ ts' \<and> (bs' = [] \<or> ts' = [] \<or> hd bs' \<noteq> hd ts')"
proof (induction bs ts rule: strip_common.induct)
  case (1 b bs t ts)
  then show ?case by (cases "b = t") (auto intro: exI [of _ "b # _"])
qed auto

text \<open>What the containment test decides, for a rooted root.\<close>

lemma path_within_rooted:
  assumes "is_abs root" "path_within root candidate"
  shows "is_abs candidate \<and> prefix (elements root) (elements candidate)"
proof (cases "clean root = clean candidate")
  case True
  then show ?thesis using assms(1) elements_of_clean by (metis prefix_order.refl)
next
  case False
  obtain bs ts where st: "strip_common (elements root) (elements candidate) = (bs, ts)" by fastforce
  obtain ps where ps: "elements root = ps @ bs" "elements candidate = ps @ ts"
    using strip_common_cases [OF st] by blast
  have abs: "is_abs candidate"
    using assms False by (auto simp: path_within_def rel_def elements_of_clean split: if_splits option.splits)
  have "bs = []"
  proof (cases bs)
    case (Cons b bs')
    then have "rel (clean root) (clean candidate) = None
        \<or> rel (clean root) (clean candidate) = Some (join_with CHR ''/'' (''..'' # replicate (length bs') ''..'' @ ts))"
      using False abs assms(1) st by (auto simp: rel_def elements_of_clean)
    moreover define ws where "ws = replicate (length bs') ''..'' @ ts"
    moreover have "join_with CHR ''/'' (''..'' # ws) = ''..'' \<or> prefix ''../'' (join_with CHR ''/'' (''..'' # ws))"
      by (cases ws) auto
    ultimately have False using assms(2) by (auto simp: path_within_def)
    then show ?thesis ..
  qed
  then show ?thesis using ps abs by simp
qed

lemma strip_common_prefix: "strip_common ps (ps @ ts) = ([], ts)"
  by (induction ps) (cases ts; simp)+

lemma plain_join_stays:
  assumes "list_all plain_element ts" "ts \<noteq> []"
  shows "join_with CHR ''/'' ts \<noteq> ''..''" "\<not> has_prefix (join_with CHR ''/'' ts) ''../''"
proof -
  let ?w = "join_with CHR ''/'' ts"
  have split: "split_on CHR ''/'' ?w = ts" using assms by (intro split_join) (auto simp: list_all_iff plain_element_def)
  have hd: "hd ts \<noteq> ''..''" using assms by (cases ts) (auto simp: plain_element_def)
  show "?w \<noteq> ''..''"
  proof
    assume "?w = ''..''"
    then have "ts = [''..'']" using split by simp
    with hd show False by simp
  qed
  show "\<not> has_prefix ?w ''../''"
  proof
    assume "has_prefix ?w ''../''"
    then obtain z where "?w = ''..'' @ CHR ''/'' # z" by (auto simp: prefix_def)
    then have "ts = ''..'' # split_on CHR ''/'' z" using split split_append [of "CHR ''/''" "''..''" z] by simp
    with hd show False by simp
  qed
qed

lemma path_within_prefix:
  assumes "is_abs root" "is_abs path" "prefix (elements root) (elements path)"
  shows "path_within root path"
proof -
  obtain ts where ts: "elements path = elements root @ ts" using assms(3) by (auto simp: prefix_def)
  have "list_all plain_element (elements path)" using elements_tidy [of path] assms(2) by (auto simp: tidy_def)
  then have plain: "list_all plain_element ts" using ts by simp
  show ?thesis
  proof (cases "ts = []")
    case True
    then show ?thesis using assms ts by (simp add: path_within_def rel_def clean_def)
  next
    case False
    have "rel (clean root) (clean path) = Some ''.'' \<or> rel (clean root) (clean path) = Some (join_with CHR ''/'' ts)"
      using assms(1,2) ts by (auto simp: rel_def elements_of_clean strip_common_prefix)
    then show ?thesis using plain_join_stays [OF plain False] by (auto simp: path_within_def)
  qed
qed

section \<open>Joining below a root\<close>

lemma split_on_append: "split_on c (xs @ c # ys) = split_on c xs @ split_on c ys"
proof (induction xs)
  case (Cons x xs)
  then show ?case by (cases "split_on c xs") auto
qed simp

lemma fold_plain: "list_all plain_element es \<Longrightarrow> fold (push_element rooted) es out = rev es @ out"
  by (induction es arbitrary: out) (auto simp: push_element_def plain_element_def)

lemma elements_join:
  assumes "is_abs root" "es \<noteq> []" "list_all plain_element es"
  shows "elements (join_path [root, join_with CHR ''/'' es]) = elements root @ es"
    and "is_abs (join_path [root, join_with CHR ''/'' es])"
proof -
  let ?path = "root @ CHR ''/'' # join_with CHR ''/'' es"
  have "root \<noteq> []" using assms(1) by auto
  then have path: "join_path [root, join_with CHR ''/'' es] = clean ?path" by (simp add: join_path_def)
  have abs: "is_abs ?path" using assms(1) by (auto simp: prefix_def)
  have "split_on CHR ''/'' (join_with CHR ''/'' es) = es"
    using assms(2,3) by (intro split_join) (auto simp: list_all_iff plain_element_def)
  then have "elements ?path = elements root @ es"
    using assms(1,3) abs by (simp add: elements_def split_on_append fold_plain)
  then show "elements (join_path [root, join_with CHR ''/'' es]) = elements root @ es"
    and "is_abs (join_path [root, join_with CHR ''/'' es])"
    unfolding path using abs by (simp_all add: elements_of_clean)
qed

text \<open>The directory of a path below a root: the last element is dropped.\<close>

lemma dir_join: "CHR ''/'' \<notin> set e \<Longrightarrow> dir_path (p @ CHR ''/'' # e) = clean (p @ ''/'')"
proof -
  assume "CHR ''/'' \<notin> set e"
  then have "\<forall>c\<in>set (rev e). c \<noteq> CHR ''/''" by auto
  from dropWhile_append2 [of "rev e" "\<lambda>c. c \<noteq> CHR ''/''" "CHR ''/'' # rev p"] this show ?thesis
    by (simp add: dir_path_def)
qed

lemma join_with_snoc: "es \<noteq> [] \<Longrightarrow> join_with c (es @ [e]) = join_with c es @ c # e"
  by (induction c es rule: join_with.induct) auto

lemma dir_join_path:
  assumes "is_abs root" "es \<noteq> []" "list_all plain_element es"
  shows "elements (dir_path (join_path [root, join_with CHR ''/'' es])) = elements root @ butlast es"
    and "is_abs (dir_path (join_path [root, join_with CHR ''/'' es]))"
proof -
  let ?path = "join_path [root, join_with CHR ''/'' es]"
  obtain fs e where es: "es = fs @ [e]" using assms(2) by (cases es rule: rev_cases) auto
  have e: "CHR ''/'' \<notin> set e" using assms(3) es by (simp add: plain_element_def)
  let ?up = "elements root @ fs"
  have "clean ?path = ?path" using assms(1) by (cases root) (simp_all add: join_path_def)
  then have path: "?path = CHR ''/'' # join_with CHR ''/'' (?up @ [e])"
    using elements_join [OF assms] by (simp add: clean_def es)
  define q where "q = (if ?up = [] then [] else CHR ''/'' # join_with CHR ''/'' ?up)"
  have q: "?path = q @ CHR ''/'' # e" "q @ ''/'' = CHR ''/'' # (if ?up = [] then [] else join_with CHR ''/'' ?up @ ''/'')"
    using join_with_snoc [of ?up "CHR ''/''" e] unfolding path q_def by (cases "?up = []"; simp)+
  have dir: "dir_path ?path = clean (q @ ''/'')" unfolding q(1) by (rule dir_join [OF e])
  have abs: "is_abs (q @ ''/'')" unfolding q(2) by simp
  then show "is_abs (dir_path ?path)" unfolding dir by (simp add: elements_of_clean)
  have "list_all plain_element ?up"
    using elements_tidy [of root] assms(1,3) es by (auto simp: tidy_def)
  moreover have "split_on CHR ''/'' (join_with CHR ''/'' ?up) = ?up" if "?up \<noteq> []"
    using that calculation by (intro split_join) (auto simp: list_all_iff plain_element_def)
  ultimately have "elements (q @ ''/'') = ?up"
    unfolding q(2) by (auto simp: elements_def split_on_append fold_plain push_element_def)
  then show "elements (dir_path ?path) = elements root @ butlast es"
    unfolding dir by (simp add: elements_of_clean es)
qed

text \<open>A relative path that does not climb out is the list of its plain elements.\<close>

lemma split_clean_relative:
  assumes "\<not> is_abs path" "clean path \<noteq> ''.''" "clean path \<noteq> ''..''" "\<not> has_prefix (clean path) ''../''"
  shows "split_on CHR ''/'' (clean path) = elements path" "elements path \<noteq> []" "list_all plain_element (elements path)"
proof -
  obtain n ps where es: "elements path = replicate n ''..'' @ ps" "list_all plain_element ps"
    using elements_tidy [of path] by (auto simp: tidy_def)
  have ne: "elements path \<noteq> []" using assms(1,2) by (auto simp: clean_def)
  have c: "clean path = join_with CHR ''/'' (elements path)" using assms(1) ne by (simp add: clean_def)
  have "n = 0"
  proof (rule ccontr)
    assume "n \<noteq> 0"
    then obtain ws where "elements path = ''..'' # ws" using es(1) by (cases n) auto
    then show False using assms(3,4) c by (cases ws) auto
  qed
  then show "list_all plain_element (elements path)" using es by simp
  then show "split_on CHR ''/'' (clean path) = elements path"
    unfolding c using ne by (intro split_join) (auto simp: list_all_iff plain_element_def)
  show "elements path \<noteq> []" by (rule ne)
qed

end
