(* ===== verification/Request_Auth.thy ===== *)
theory Request_Auth
  imports Authorization Sessions Tickets Paths
begin

text \<open>
  Authentication of requests (\<open>router/middleware/auth.go\<close>, \<open>utils/jwt.go\<close>): bearer tokens and
  session cookies backed by server-side sessions, single-use tickets for terminals, the gate
  of the first login and the origin check for cookie requests.  The JWT library, Go's URL
  parser and case folding are parameters; the client address is what gin reports.
\<close>

section \<open>Tokens\<close>

record jwt_claims =
  jc_id :: int
  jc_username :: string
  jc_session_id :: string
  jc_security_version :: nat
  jc_expires_at :: "time option"
  jc_issued_at :: "time option"
  jc_issuer :: string

text \<open>
  The JWT library with HS256 and the panel's issuer: \<open>jwt_parse key token\<close> is the error or the
  claims with the flag \<open>Valid\<close>; \<open>jwt_sign key claims\<close> is \<open>SignedString\<close>.
\<close>

record jwt_lib =
  jwt_parse :: "string \<Rightarrow> string \<Rightarrow> string + jwt_claims \<times> bool"
  jwt_sign :: "string \<Rightarrow> jwt_claims \<Rightarrow> string + string"

definition configure_jwt_key :: "string \<Rightarrow> string \<Rightarrow> (string + unit) \<times> string" where
  "configure_jwt_key key configured =
     (if length key < 32 then (Inl ''JWT key must contain at least 32 bytes'', configured) else (Inr (), key))"

definition get_jwt_key :: "string \<Rightarrow> string \<Rightarrow> string + string" where
  "get_jwt_key environment configured =
     (if environment \<noteq> [] then
        if length environment < 32 then Inl ''JWT_SECRET_KEY must contain at least 32 bytes'' else Inr environment
      else if length configured < 32 then Inl ''JWT key is not initialized''
      else Inr configured)"

definition jwt_issuer :: string where
  "jwt_issuer = ''oneinstack-panel''"

definition generate_jwt :: "jwt_lib \<Rightarrow> string + string \<Rightarrow> time \<Rightarrow> string \<Rightarrow> int \<Rightarrow> string \<Rightarrow> nat \<Rightarrow> string + string \<times> time" where
  "generate_jwt lib key now username i session_id version =
     (case key of
        Inl e \<Rightarrow> Inl e
      | Inr k \<Rightarrow>
          let expires = now + 24 * hour in
          case jwt_sign lib k \<lparr>jc_id = i, jc_username = username, jc_session_id = session_id, jc_security_version = version,
                 jc_expires_at = Some expires, jc_issued_at = Some now, jc_issuer = jwt_issuer\<rparr> of
            Inl e \<Rightarrow> Inl e
          | Inr token \<Rightarrow> Inr (token, expires))"

definition generate_session_jwt :: "jwt_lib \<Rightarrow> string + string \<Rightarrow> time \<Rightarrow> string \<Rightarrow> int \<Rightarrow> string \<Rightarrow> nat \<Rightarrow> string + string \<times> time" where
  "generate_session_jwt lib key now username i session_id version =
     (if session_id = [] then Inl ''session id is required''
      else generate_jwt lib key now username i session_id (if version = 0 then 1 else version))"

definition validate_jwt :: "jwt_lib \<Rightarrow> string + string \<Rightarrow> time \<Rightarrow> string \<Rightarrow> string + jwt_claims" where
  "validate_jwt lib key now token =
     (case key of
        Inl e \<Rightarrow> Inl e
      | Inr k \<Rightarrow>
          (case jwt_parse lib k token of
             Inl e \<Rightarrow> Inl e
           | Inr (claims, ok) \<Rightarrow>
               if \<not> ok then Inl ''invalid token''
               else if (case jc_expires_at claims of None \<Rightarrow> False | Some t \<Rightarrow> t < now) then Inl ''token expired''
               else Inr claims))"

section \<open>The request and its outcome\<close>

record auth_request =
  hr_method :: string
  hr_path :: string
  hr_ticket :: string
  hr_container :: string
  hr_user_agent :: string
  hr_client_ip :: string
  hr_authorization :: string
  hr_cookie :: "string option"

abbreviation AuthModeBearer :: string where "AuthModeBearer \<equiv> ''bearer''"
abbreviation AuthModeCookie :: string where "AuthModeCookie \<equiv> ''cookie''"

abbreviation StatusUnauthorized :: int where "StatusUnauthorized \<equiv> 401"

abbreviation ErrInvalidToken :: int where "ErrInvalidToken \<equiv> 1101"
abbreviation ErrMissingToken :: int where "ErrMissingToken \<equiv> 1105"
abbreviation ErrEmptyToken :: int where "ErrEmptyToken \<equiv> 1106"
abbreviation ErrInvalidTokenFormat :: int where "ErrInvalidTokenFormat \<equiv> 1107"
abbreviation ErrSessionRequired :: int where "ErrSessionRequired \<equiv> 1108"
abbreviation ErrSessionInvalidated :: int where "ErrSessionInvalidated \<equiv> 1109"
abbreviation ErrSessionUnavailable :: int where "ErrSessionUnavailable \<equiv> 1110"
abbreviation ErrInvalidTerminalTicket :: int where "ErrInvalidTerminalTicket \<equiv> 1111"
abbreviation ErrPasswordChangeRequired :: int where "ErrPasswordChangeRequired \<equiv> 1112"
abbreviation ErrCSRFRejected :: int where "ErrCSRFRejected \<equiv> 1205"

text \<open>What the middleware sets in the context before \<open>c.Next()\<close>.\<close>

record identity =
  id_username :: string
  id_user_id :: int
  id_auth_mode :: string
  id_session_id :: string
  id_must_change_password :: bool
  id_access :: "user_access option"

text \<open>A refusal also says whether the session cookie is cleared.\<close>

datatype auth_outcome = Proceed identity | Refuse bool api_error

definition refuse :: "bool \<Rightarrow> int \<Rightarrow> int \<Rightarrow> string \<Rightarrow> string \<Rightarrow> auth_outcome" where
  "refuse clear status code message detail =
     Refuse clear \<lparr>api_status = status, api_code = code, api_message = message, api_detail = detail\<rparr>"

record auth_state =
  ps_security :: "security_db engine"
  ps_ssh_tickets :: "ticket_claims ticket_store"
  ps_terminal_tickets :: "container_claims ticket_store"

text \<open>
  The parameters of the middleware: the ticket digest, the JWT library and key, the clock of
  its successive readings, and the access tables that \<open>LoadUserAccess\<close> reads.
\<close>

record auth_env =
  mw_digest :: "string \<Rightarrow> string"
  mw_jwt :: jwt_lib
  mw_key :: "string + string"
  mw_clock :: "nat \<Rightarrow> time"
  mw_access :: "access_db engine"

section \<open>AuthMiddleware\<close>

definition is_container_terminal_open_path :: "string \<Rightarrow> bool" where
  "is_container_terminal_open_path path \<longleftrightarrow>
     has_prefix path ''/v1/containers/'' \<and> has_suffix path ''/terminal/open''
     \<and> (case split_on CHR ''/'' (drop (length ''/v1/containers/'') path) of
          [a, b, c] \<Rightarrow> a \<noteq> [] \<and> b = ''terminal'' \<and> c = ''open''
        | _ \<Rightarrow> False)"

text \<open>
  The account behind a credential and its session: \<open>database.First(&account, id)\<close>, the check
  of the account, and \<open>SessionManager.Validate\<close>.  \<open>Inl False\<close>: the account fails, \<open>Inl True\<close>: the
  session fails.
\<close>

definition live_account :: "time \<Rightarrow> int \<Rightarrow> nat \<Rightarrow> string \<Rightarrow> (user_row \<Rightarrow> bool) \<Rightarrow> security_db engine
    \<Rightarrow> (bool + user_row) \<times> security_db engine" where
  "live_account now uid version session_id matches s =
     (case query SessionEngine (\<lambda>db. find (\<lambda>u. user_id u = uid) (sec_users db)) s of
        (Inr (Some account), s1) \<Rightarrow>
          if \<not> matches account \<or> effective_security_version account \<noteq> version then (Inl False, s1)
          else (case validate_session now session_id uid version s1 of
                  (Inl _, s2) \<Rightarrow> (Inl True, s2)
                | (Inr _, s2) \<Rightarrow> (Inr account, s2))
      | (_, s1) \<Rightarrow> (Inl False, s1))"

definition ticket_identity :: "'a ticket_claims_scheme \<Rightarrow> user_row \<Rightarrow> identity" where
  "ticket_identity claims account =
     \<lparr>id_username = tc_username claims, id_user_id = tc_user_id claims, id_auth_mode = AuthModeTicket,
      id_session_id = tc_source_session_id claims, id_must_change_password = user_must_change_password account,
      id_access = None\<rparr>"

text \<open>The two ticket paths share their second half; the messages differ.\<close>

definition ticket_login :: "auth_env \<Rightarrow> 'a ticket_claims_scheme \<Rightarrow> auth_outcome \<Rightarrow> auth_outcome \<Rightarrow> auth_outcome
    \<Rightarrow> auth_state \<Rightarrow> auth_outcome \<times> auth_state" where
  "ticket_login env claims unavailable mismatch expired st =
     (if \<not> attached (ps_security st) then (unavailable, st)
      else
        case live_account (mw_clock env 1) (tc_user_id claims) (tc_security_version claims) (tc_source_session_id claims)
               (\<lambda>u. user_name u = tc_username claims) (ps_security st) of
          (Inl False, s) \<Rightarrow> (mismatch, st\<lparr>ps_security := s\<rparr>)
        | (Inl True, s) \<Rightarrow> (expired, st\<lparr>ps_security := s\<rparr>)
        | (Inr account, s) \<Rightarrow> (Proceed (ticket_identity claims account), st\<lparr>ps_security := s\<rparr>))"

definition container_ticket_auth :: "auth_env \<Rightarrow> auth_request \<Rightarrow> auth_state \<Rightarrow> auth_outcome \<times> auth_state" where
  "container_ticket_auth env rq st =
     (case consume_container_ticket (mw_digest env) (mw_clock env 0) (hr_ticket rq) (hr_client_ip rq) (ps_terminal_tickets st) of
        (Inl _, ts) \<Rightarrow>
          (refuse False StatusUnauthorized ErrInvalidTerminalTicket
            (utf8 [0x5BB9, 0x5668, 0x7EC8, 0x7AEF, 0x7968, 0x636E, 0x65E0, 0x6548, 0x6216, 0x5DF2, 0x8FC7, 0x671F])
            (utf8 [0x5BB9, 0x5668, 0x7EC8, 0x7AEF, 0x7968, 0x636E, 0x6821, 0x9A8C, 0x5931, 0x8D25, 0xFF0C, 0x8BF7, 0x91CD,
            0x65B0, 0x83B7, 0x53D6, 0x7968, 0x636E, 0x3002]),
           st\<lparr>ps_terminal_tickets := ts\<rparr>)
      | (Inr claims, ts) \<Rightarrow>
          let st1 = st\<lparr>ps_terminal_tickets := ts\<rparr> in
          if tc_user_agent claims \<noteq> hr_user_agent rq \<or> cc_container_reference claims \<noteq> trim_space (hr_container rq) then
            (refuse False StatusUnauthorized ErrInvalidTerminalTicket
            (utf8 [0x5BB9, 0x5668, 0x7EC8, 0x7AEF, 0x7968, 0x636E, 0x65E0, 0x6548])
            (utf8 [0x5F53, 0x524D, 0x8BF7, 0x6C42, 0x4E0E, 0x7B7E, 0x53D1, 0x5BB9, 0x5668, 0x7EC8, 0x7AEF, 0x7968, 0x636E,
            0x65F6, 0x7ED1, 0x5B9A, 0x7684, 0x5BA2, 0x6237, 0x7AEF, 0x6216, 0x5BB9, 0x5668, 0x4E0D, 0x4E00, 0x81F4,
            0x3002]), st1)
          else ticket_login env claims
            (refuse False StatusServiceUnavailable ErrSessionUnavailable
            (utf8 [0x4F1A, 0x8BDD, 0x670D, 0x52A1, 0x4E0D, 0x53EF, 0x7528, 0xFF0C, 0x8BF7, 0x7A0D, 0x540E, 0x91CD, 0x8BD5])
            (utf8 [0x670D, 0x52A1, 0x7AEF, 0x6570, 0x636E, 0x5E93, 0x672A, 0x521D, 0x59CB, 0x5316, 0xFF0C, 0x65E0, 0x6CD5,
            0x6821, 0x9A8C, 0x5BB9, 0x5668, 0x7EC8, 0x7AEF, 0x6765, 0x6E90, 0x4F1A, 0x8BDD, 0x3002]))
            (refuse False StatusUnauthorized ErrSessionInvalidated
            (utf8 [0x5BB9, 0x5668, 0x7EC8, 0x7AEF, 0x6765, 0x6E90, 0x4F1A, 0x8BDD, 0x65E0, 0x6548, 0xFF0C, 0x8BF7, 0x91CD,
            0x65B0, 0x6253, 0x5F00, 0x7EC8, 0x7AEF])
            (utf8 [0x5BB9, 0x5668, 0x7EC8, 0x7AEF, 0x7968, 0x636E, 0x5173, 0x8054, 0x7684, 0x7528, 0x6237, 0x6216, 0x5B89,
            0x5168, 0x7248, 0x672C, 0x4E0E, 0x5F53, 0x524D, 0x670D, 0x52A1, 0x7AEF, 0x8BB0, 0x5F55, 0x4E0D, 0x4E00,
            0x81F4, 0x3002]))
            (refuse False StatusUnauthorized ErrSessionInvalidated
            (utf8 [0x5BB9, 0x5668, 0x7EC8, 0x7AEF, 0x6765, 0x6E90, 0x4F1A, 0x8BDD, 0x5DF2, 0x8FC7, 0x671F, 0x6216, 0x64A4,
            0x9500, 0xFF0C, 0x8BF7, 0x91CD, 0x65B0, 0x6253, 0x5F00, 0x7EC8, 0x7AEF])
            (utf8 [0x8BF7, 0x91CD, 0x65B0, 0x767B, 0x5F55, 0x540E, 0x518D, 0x6253, 0x5F00, 0x5BB9, 0x5668, 0x7EC8, 0x7AEF,
            0x3002])) st1)"

definition ssh_ticket_auth :: "auth_env \<Rightarrow> auth_request \<Rightarrow> auth_state \<Rightarrow> auth_outcome \<times> auth_state" where
  "ssh_ticket_auth env rq st =
     (case consume_ticket (mw_digest env) (mw_clock env 0) (hr_ticket rq) (hr_client_ip rq) (ps_ssh_tickets st) of
        (Inl _, ts) \<Rightarrow>
          (refuse False StatusUnauthorized ErrInvalidTerminalTicket
            (utf8 [0x7EC8, 0x7AEF, 0x7968, 0x636E, 0x65E0, 0x6548, 0x6216, 0x5DF2, 0x8FC7, 0x671F])
            (utf8 [0x7EC8, 0x7AEF, 0x7968, 0x636E, 0x6821, 0x9A8C, 0x5931, 0x8D25, 0xFF0C, 0x8BF7, 0x91CD, 0x65B0, 0x6253,
            0x5F00, 0x7EC8, 0x7AEF, 0x5E76, 0x83B7, 0x53D6, 0x65B0, 0x7684, 0x7968, 0x636E, 0x3002]),
           st\<lparr>ps_ssh_tickets := ts\<rparr>)
      | (Inr claims, ts) \<Rightarrow>
          let st1 = st\<lparr>ps_ssh_tickets := ts\<rparr> in
          if tc_user_agent claims \<noteq> hr_user_agent rq then
            (refuse False StatusUnauthorized ErrInvalidTerminalTicket
            (utf8 [0x7EC8, 0x7AEF, 0x7968, 0x636E, 0x65E0, 0x6548])
            (utf8 [0x5F53, 0x524D, 0x8BF7, 0x6C42, 0x7684, 0x20, 0x55, 0x73, 0x65, 0x72, 0x2D, 0x41, 0x67, 0x65, 0x6E,
            0x74, 0x20, 0x4E0E, 0x7B7E, 0x53D1, 0x7EC8, 0x7AEF, 0x7968, 0x636E, 0x65F6, 0x4E0D, 0x4E00, 0x81F4, 0xFF0C,
            0x8BF7, 0x91CD, 0x65B0, 0x6253, 0x5F00, 0x7EC8, 0x7AEF, 0x3002]), st1)
          else ticket_login env claims
            (refuse False StatusServiceUnavailable ErrSessionUnavailable
            (utf8 [0x4F1A, 0x8BDD, 0x670D, 0x52A1, 0x4E0D, 0x53EF, 0x7528, 0xFF0C, 0x8BF7, 0x7A0D, 0x540E, 0x91CD, 0x8BD5])
            (utf8 [0x670D, 0x52A1, 0x7AEF, 0x6570, 0x636E, 0x5E93, 0x672A, 0x521D, 0x59CB, 0x5316, 0xFF0C, 0x65E0, 0x6CD5,
            0x6821, 0x9A8C, 0x7EC8, 0x7AEF, 0x6765, 0x6E90, 0x4F1A, 0x8BDD, 0x3002]))
            (refuse False StatusUnauthorized ErrSessionInvalidated
            (utf8 [0x7EC8, 0x7AEF, 0x6765, 0x6E90, 0x4F1A, 0x8BDD, 0x65E0, 0x6548, 0xFF0C, 0x8BF7, 0x91CD, 0x65B0, 0x6253,
            0x5F00, 0x7EC8, 0x7AEF])
            (utf8 [0x7EC8, 0x7AEF, 0x7968, 0x636E, 0x5173, 0x8054, 0x7684, 0x7528, 0x6237, 0x6216, 0x5B89, 0x5168, 0x7248,
            0x672C, 0x4E0E, 0x5F53, 0x524D, 0x670D, 0x52A1, 0x7AEF, 0x8BB0, 0x5F55, 0x4E0D, 0x4E00, 0x81F4, 0x3002]))
            (refuse False StatusUnauthorized ErrSessionInvalidated
            (utf8 [0x7EC8, 0x7AEF, 0x6765, 0x6E90, 0x4F1A, 0x8BDD, 0x5DF2, 0x8FC7, 0x671F, 0x6216, 0x64A4, 0x9500, 0xFF0C,
            0x8BF7, 0x91CD, 0x65B0, 0x6253, 0x5F00, 0x7EC8, 0x7AEF])
            (utf8 [0x8BF7, 0x91CD, 0x65B0, 0x767B, 0x5F55, 0x540E, 0x518D, 0x6253, 0x5F00, 0x7EC8, 0x7AEF, 0x3002])) st1)"

text \<open>
  The credential of the request: \<open>Inl\<close> a refusal, or the token and its mode.  \<open>SplitN\<close> cuts the
  header at its first space.
\<close>

definition request_token :: "auth_request \<Rightarrow> auth_outcome + string \<times> string" where
  "request_token rq =
     (if hr_authorization rq \<noteq> [] then
        let parts = (takeWhile (\<lambda>c. c \<noteq> CHR '' '') (hr_authorization rq), dropWhile (\<lambda>c. c \<noteq> CHR '' '') (hr_authorization rq))
        in if snd parts = [] \<or> fst parts \<noteq> ''Bearer'' then
             Inl (refuse False StatusUnauthorized ErrInvalidTokenFormat
            (utf8 [0x41, 0x75, 0x74, 0x68, 0x6F, 0x72, 0x69, 0x7A, 0x61, 0x74, 0x69, 0x6F, 0x6E, 0x20, 0x8BF7, 0x6C42,
            0x5934, 0x683C, 0x5F0F, 0x65E0, 0x6548, 0xFF0C, 0x8BF7, 0x4F7F, 0x7528, 0x20, 0x42, 0x65, 0x61, 0x72, 0x65,
            0x72, 0x20, 0x54, 0x6F, 0x6B, 0x65, 0x6E])
            (utf8 [0x5E94, 0x4F7F, 0x7528, 0x20, 0x42, 0x65, 0x61, 0x72, 0x65, 0x72, 0x20, 0x3C, 0x74, 0x6F, 0x6B, 0x65,
            0x6E, 0x3E, 0x20, 0x683C, 0x5F0F, 0x4F20, 0x9012, 0x8BBF, 0x95EE, 0x4EE4, 0x724C, 0x3002]))
           else if tl (snd parts) = [] then
             Inl (refuse False StatusUnauthorized ErrEmptyToken
            (utf8 [0x8BBF, 0x95EE, 0x4EE4, 0x724C, 0x4E0D, 0x80FD, 0x4E3A, 0x7A7A])
            (utf8 [0x41, 0x75, 0x74, 0x68, 0x6F, 0x72, 0x69, 0x7A, 0x61, 0x74, 0x69, 0x6F, 0x6E, 0x20, 0x8BF7, 0x6C42,
            0x5934, 0x672A, 0x63D0, 0x4F9B, 0x6709, 0x6548, 0x7684, 0x20, 0x42, 0x65, 0x61, 0x72, 0x65, 0x72, 0x20,
            0x4EE4, 0x724C, 0x3002]))
           else Inr (tl (snd parts), AuthModeBearer)
      else
        let (token, mode) = (case hr_cookie rq of None \<Rightarrow> ([], AuthModeBearer) | Some v \<Rightarrow> (v, AuthModeCookie))
        in if token = [] then
             Inl (refuse False StatusUnauthorized ErrMissingToken
            (utf8 [0x8BF7, 0x5148, 0x767B, 0x5F55, 0x540E, 0x518D, 0x8BBF, 0x95EE, 0x6B64, 0x63A5, 0x53E3])
            (utf8 [0x8BF7, 0x5728, 0x8BF7, 0x6C42, 0x4E2D, 0x63D0, 0x4F9B, 0x6709, 0x6548, 0x7684, 0x20, 0x42, 0x65, 0x61,
            0x72, 0x65, 0x72, 0x20, 0x4EE4, 0x724C, 0x6216, 0x767B, 0x5F55, 0x4F1A, 0x8BDD, 0x20, 0x43, 0x6F, 0x6F, 0x6B,
            0x69, 0x65, 0x3002]))
           else Inr (token, mode))"

definition load_access :: "access_db engine \<Rightarrow> int \<Rightarrow> user_access option" where
  "load_access a uid = (case load_user_access uid a of (Inr access, _) \<Rightarrow> Some access | (Inl _, _) \<Rightarrow> None)"

definition token_auth :: "auth_env \<Rightarrow> auth_request \<Rightarrow> auth_state \<Rightarrow> auth_outcome \<times> auth_state" where
  "token_auth env rq st =
     (case request_token rq of
        Inl out \<Rightarrow> (out, st)
      | Inr (token, mode) \<Rightarrow>
          let clear = (mode = AuthModeCookie) in
          (case validate_jwt (mw_jwt env) (mw_key env) (mw_clock env 0) token of
             Inl err \<Rightarrow>
               (refuse clear StatusUnauthorized ErrInvalidToken
            (utf8 [0x8BBF, 0x95EE, 0x4EE4, 0x724C, 0x65E0, 0x6548, 0x6216, 0x5DF2, 0x8FC7, 0x671F, 0xFF0C, 0x8BF7, 0x91CD,
            0x65B0, 0x767B, 0x5F55])
            ((utf8 [0x4EE4, 0x724C, 0x6821, 0x9A8C, 0x5931, 0x8D25, 0xFF1A]) @ err), st)
           | Inr claims \<Rightarrow>
               if jc_session_id claims = [] then
                 (refuse clear StatusUnauthorized ErrSessionRequired
            (utf8 [0x5F53, 0x524D, 0x4F1A, 0x8BDD, 0x7F3A, 0x5C11, 0x5B89, 0x5168, 0x6807, 0x8BC6, 0xFF0C, 0x8BF7, 0x9000,
            0x51FA, 0x540E, 0x91CD, 0x65B0, 0x767B, 0x5F55])
            (utf8 [0x8BF7, 0x9000, 0x51FA, 0x540E, 0x91CD, 0x65B0, 0x767B, 0x5F55, 0xFF0C, 0x4EE5, 0x7B7E, 0x53D1, 0x5305,
            0x542B, 0x670D, 0x52A1, 0x7AEF, 0x4F1A, 0x8BDD, 0x6807, 0x8BC6, 0x7684, 0x65B0, 0x4EE4, 0x724C, 0x3002]), st)
               else if \<not> attached (ps_security st) then
                 (refuse False StatusServiceUnavailable ErrSessionUnavailable
            (utf8 [0x4F1A, 0x8BDD, 0x670D, 0x52A1, 0x4E0D, 0x53EF, 0x7528, 0xFF0C, 0x8BF7, 0x7A0D, 0x540E, 0x91CD, 0x8BD5])
            (utf8 [0x670D, 0x52A1, 0x7AEF, 0x6570, 0x636E, 0x5E93, 0x672A, 0x521D, 0x59CB, 0x5316, 0xFF0C, 0x65E0, 0x6CD5,
            0x6821, 0x9A8C, 0x5F53, 0x524D, 0x767B, 0x5F55, 0x4F1A, 0x8BDD, 0x3002]), st)
               else
                 (case live_account (mw_clock env 1) (jc_id claims) (jc_security_version claims) (jc_session_id claims)
                         (\<lambda>_. True) (ps_security st) of
                    (Inl False, s) \<Rightarrow>
                      (refuse clear StatusUnauthorized ErrSessionInvalidated
            (utf8 [0x767B, 0x5F55, 0x4F1A, 0x8BDD, 0x5DF2, 0x5931, 0x6548, 0xFF0C, 0x8BF7, 0x91CD, 0x65B0, 0x767B, 0x5F55])
            (utf8 [0x7528, 0x6237, 0x5B89, 0x5168, 0x7248, 0x672C, 0x4E0E, 0x4F1A, 0x8BDD, 0x8BB0, 0x5F55, 0x4E0D, 0x4E00,
            0x81F4, 0xFF0C, 0x53EF, 0x80FD, 0x662F, 0x5BC6, 0x7801, 0x6216, 0x5B89, 0x5168, 0x914D, 0x7F6E, 0x5DF2,
            0x53D8, 0x66F4, 0x3002]),
                       st\<lparr>ps_security := s\<rparr>)
                  | (Inl True, s) \<Rightarrow>
                      (refuse clear StatusUnauthorized ErrSessionInvalidated
            (utf8 [0x767B, 0x5F55, 0x4F1A, 0x8BDD, 0x5DF2, 0x8FC7, 0x671F, 0x6216, 0x5DF2, 0x64A4, 0x9500, 0xFF0C, 0x8BF7,
            0x91CD, 0x65B0, 0x767B, 0x5F55])
            (utf8 [0x8BF7, 0x91CD, 0x65B0, 0x767B, 0x5F55, 0x540E, 0x518D, 0x7EE7, 0x7EED, 0x64CD, 0x4F5C, 0x3002]),
                       st\<lparr>ps_security := s\<rparr>)
                  | (Inr account, s) \<Rightarrow>
                      (Proceed \<lparr>id_username = user_name account, id_user_id = jc_id claims, id_auth_mode = mode,
                         id_session_id = jc_session_id claims,
                         id_must_change_password = user_must_change_password account,
                         id_access = load_access (mw_access env) (jc_id claims)\<rparr>,
                       st\<lparr>ps_security := s\<rparr>))))"

definition auth_middleware :: "auth_env \<Rightarrow> auth_request \<Rightarrow> auth_state \<Rightarrow> auth_outcome \<times> auth_state" where
  "auth_middleware env rq st =
     (if is_container_terminal_open_path (hr_path rq) \<and> hr_ticket rq \<noteq> [] then container_ticket_auth env rq st
      else if hr_path rq = ''/v1/ssh/open'' \<and> hr_ticket rq \<noteq> [] then ssh_ticket_auth env rq st
      else token_auth env rq st)"

section \<open>First login and origin\<close>

definition first_login_allowed :: "string \<Rightarrow> string \<Rightarrow> bool" where
  "first_login_allowed method path =
     (if method = MethodPost then path = ''/v1/logout'' \<or> path = ''/v1/sys/resetpassword''
      else if method = MethodGet then path = ''/v1/security/status'' \<or> path = ''/v1/sessions''
      else False)"

definition require_password_change :: "auth_request \<Rightarrow> identity \<Rightarrow> auth_outcome" where
  "require_password_change rq who =
     (if \<not> id_must_change_password who \<or> first_login_allowed (hr_method rq) (hr_path rq) then Proceed who
      else refuse False StatusForbidden ErrPasswordChangeRequired
            (utf8 [0x8BF7, 0x5148, 0x4FEE, 0x6539, 0x521D, 0x59CB, 0x5BC6, 0x7801, 0x540E, 0x518D, 0x8BBF, 0x95EE, 0x6B64,
            0x63A5, 0x53E3])
            (utf8 [0x5F53, 0x524D, 0x8D26, 0x53F7, 0x4ECD, 0x4F7F, 0x7528, 0x521D, 0x59CB, 0x5BC6, 0x7801, 0xFF0C, 0x5B8C,
            0x6210, 0x5BC6, 0x7801, 0x4FEE, 0x6539, 0x524D, 0x4E0D, 0x80FD, 0x8BBF, 0x95EE, 0x8BE5, 0x7BA1, 0x7406,
            0x63A5, 0x53E3, 0x3002]))"

definition is_safe_method :: "string \<Rightarrow> bool" where
  "is_safe_method method \<longleftrightarrow> method \<in> {''GET'', ''HEAD'', ''OPTIONS'', ''TRACE''}"

record origin_url =
  ou_scheme :: string
  ou_has_user :: bool
  ou_host :: string

definition csrf_middleware :: "(string \<Rightarrow> origin_url option) \<Rightarrow> (string \<Rightarrow> string \<Rightarrow> bool) \<Rightarrow> string \<Rightarrow> string \<Rightarrow> auth_request
    \<Rightarrow> identity \<Rightarrow> auth_outcome" where
  "csrf_middleware parse_url equal_fold origin host rq who =
     (if id_auth_mode who \<noteq> AuthModeCookie \<or> is_safe_method (hr_method rq) then Proceed who
      else if (case parse_url origin of
                 None \<Rightarrow> True
               | Some o' \<Rightarrow> ou_scheme o' \<noteq> ''http'' \<and> ou_scheme o' \<noteq> ''https'' \<or> ou_has_user o'
                   \<or> \<not> equal_fold (ou_host o') host)
      then refuse False StatusForbidden ErrCSRFRejected
            (utf8 [0x8BF7, 0x6C42, 0x6765, 0x6E90, 0x65E0, 0x6548, 0xFF0C, 0x8BF7, 0x5237, 0x65B0, 0x9875, 0x9762, 0x540E,
            0x91CD, 0x8BD5])
            (utf8 [0x43, 0x6F, 0x6F, 0x6B, 0x69, 0x65, 0x20, 0x4F1A, 0x8BDD, 0x8BF7, 0x6C42, 0x7684, 0x20, 0x4F, 0x72,
            0x69, 0x67, 0x69, 0x6E, 0x20, 0x4E0E, 0x5F53, 0x524D, 0x9762, 0x677F, 0x5730, 0x5740, 0x4E0D, 0x5339, 0x914D,
            0x3002])
      else Proceed who)"

definition authenticated_session_id :: "identity option \<Rightarrow> string \<times> bool" where
  "authenticated_session_id who =
     (case who of None \<Rightarrow> ([], False) | Some i \<Rightarrow> (id_session_id i, id_session_id i \<noteq> []))"

end
