(* ===== verification/Request_Props.thy ===== *)
theory Request_Props
  imports Request_Auth
begin

text \<open>
  The properties of request authentication: whoever is let through has an account and a
  session that are good at that moment, in every mode, and the middleware changes nothing of
  the accounts.
\<close>

definition live_identity :: "time \<Rightarrow> security_db \<Rightarrow> identity \<Rightarrow> bool" where
  "live_identity now db who \<longleftrightarrow>
     (\<exists>u \<in> set (sec_users db). \<exists>r \<in> set (sec_sessions db).
        user_id u = id_user_id who \<and> user_name u = id_username who
        \<and> user_must_change_password u = id_must_change_password who
        \<and> us_id r = id_session_id who \<and> us_user_id r = id_user_id who \<and> us_deleted_at r = None
        \<and> us_revoked_at r = None \<and> now < us_expires_at r \<and> us_security_version r = effective_security_version u)"

lemma live_identityI:
  assumes "u \<in> set (sec_users db)" "user_id u = id_user_id who" "user_name u = id_username who"
    "user_must_change_password u = id_must_change_password who" "effective_security_version u = v"
    "\<exists>r \<in> set (sec_sessions db). us_id r = id_session_id who \<and> us_user_id r = id_user_id who \<and> us_deleted_at r = None
      \<and> us_revoked_at r = None \<and> now < us_expires_at r \<and> us_security_version r = v"
  shows "live_identity now db who"
  unfolding live_identity_def using assms by (intro bexI [of _ u]) auto

lemma live_not_dead: "live_identity now db who \<Longrightarrow> dead_session (id_session_id who) db \<Longrightarrow> False"
  unfolding live_identity_def dead_session_def by auto

lemma effective_version_pos: "effective_security_version u \<noteq> 0"
  by (simp add: effective_security_version_def)

lemma live_account_Inr:
  assumes "live_account now uid version i matches s = (Inr u, s')"
  shows "u \<in> set (sec_users (tables s))" "user_id u = uid" "matches u" "effective_security_version u = version"
    and "\<exists>r \<in> set (sec_sessions (tables s)). us_id r = i \<and> us_user_id r = uid \<and> us_deleted_at r = None
      \<and> us_revoked_at r = None \<and> now < us_expires_at r \<and> us_security_version r = version"
proof -
  obtain f s1 where q: "query SessionEngine (\<lambda>db. find (\<lambda>u. user_id u = uid) (sec_users db)) s = (f, s1)" by fastforce
  have f: "f = Inr (Some u)" "matches u" "effective_security_version u = version"
    and "\<exists>x. validate_session now i uid version s1 = (Inr x, s')"
    using assms unfolding live_account_def q
    by (auto split: sum.splits option.splits if_splits prod.splits)
  then obtain x where v: "validate_session now i uid version s1 = (Inr x, s')" by blast
  have t: "find (\<lambda>u. user_id u = uid) (sec_users (tables s)) = Some u" "tables s1 = tables s"
    using query_Inr [OF q [unfolded f]] by simp_all
  show "u \<in> set (sec_users (tables s))" "user_id u = uid" using find_key_in [OF t(1)] by simp_all
  show "matches u" "effective_security_version u = version" by (rule f)+
  then have "version \<noteq> 0" using effective_version_pos by metis
  then show "\<exists>r \<in> set (sec_sessions (tables s)). us_id r = i \<and> us_user_id r = uid \<and> us_deleted_at r = None
      \<and> us_revoked_at r = None \<and> now < us_expires_at r \<and> us_security_version r = version"
    using validate_session_Inr [OF v] t(2) by auto
qed

lemma refuse_not_Proceed [simp]: "refuse c st code m d \<noteq> Proceed who" "Proceed who \<noteq> refuse c st code m d"
  by (simp_all add: refuse_def)

lemma ticket_login_Proceed:
  assumes "ticket_login env claims a b c st = (Proceed who, st')"
    and "a \<noteq> Proceed who" "b \<noteq> Proceed who" "c \<noteq> Proceed who"
  shows "live_identity (mw_clock env 1) (tables (ps_security st)) who \<and> id_auth_mode who = AuthModeTicket"
proof -
  let ?la = "live_account (mw_clock env 1) (tc_user_id claims) (tc_security_version claims) (tc_source_session_id claims)
      (\<lambda>u. user_name u = tc_username claims) (ps_security st)"
  obtain x s where la: "?la = (x, s)" by fastforce
  then obtain u where x: "x = Inr u" and who: "who = ticket_identity claims u"
    using assms unfolding ticket_login_def la by (auto split: if_splits sum.splits bool.splits)
  note l = live_account_Inr [OF la [unfolded x]]
  have w: "id_user_id who = tc_user_id claims" "id_username who = tc_username claims" "id_auth_mode who = AuthModeTicket"
    "id_session_id who = tc_source_session_id claims" "id_must_change_password who = user_must_change_password u"
    by (simp_all add: who ticket_identity_def)
  have "live_identity (mw_clock env 1) (tables (ps_security st)) who"
    by (rule live_identityI [OF l(1) _ _ _ l(4)]) (use l(2,3,5) in \<open>simp_all only: w\<close>)
  then show ?thesis using w(3) by simp
qed

lemma container_ticket_Proceed:
  assumes "container_ticket_auth env rq st = (Proceed who, st')"
  shows "live_identity (mw_clock env 1) (tables (ps_security st)) who \<and> id_auth_mode who = AuthModeTicket"
  using assms unfolding container_ticket_auth_def Let_def
  by (auto split: prod.splits sum.splits if_splits dest!: ticket_login_Proceed)

lemma ssh_ticket_Proceed:
  assumes "ssh_ticket_auth env rq st = (Proceed who, st')"
  shows "live_identity (mw_clock env 1) (tables (ps_security st)) who \<and> id_auth_mode who = AuthModeTicket"
  using assms unfolding ssh_ticket_auth_def Let_def
  by (auto split: prod.splits sum.splits if_splits dest!: ticket_login_Proceed)

lemma request_token_not_Proceed: "request_token rq \<noteq> Inl (Proceed who)"
  by (auto simp: request_token_def Let_def split: option.splits)

lemma token_auth_Proceed:
  assumes "token_auth env rq st = (Proceed who, st')"
  shows "live_identity (mw_clock env 1) (tables (ps_security st)) who"
    and "\<exists>token claims. request_token rq = Inr (token, id_auth_mode who)
      \<and> validate_jwt (mw_jwt env) (mw_key env) (mw_clock env 0) token = Inr claims
      \<and> jc_id claims = id_user_id who \<and> jc_session_id claims = id_session_id who"
proof -
  obtain token mode where t: "request_token rq = Inr (token, mode)"
    using assms request_token_not_Proceed [of rq who] unfolding token_auth_def by (auto split: sum.splits)
  obtain claims where c: "validate_jwt (mw_jwt env) (mw_key env) (mw_clock env 0) token = Inr claims"
    using assms t unfolding token_auth_def Let_def by (auto split: sum.splits)
  let ?la = "live_account (mw_clock env 1) (jc_id claims) (jc_security_version claims) (jc_session_id claims)
      (\<lambda>_. True) (ps_security st)"
  obtain x s where la: "?la = (x, s)" by fastforce
  then obtain u where x: "x = Inr u" and who: "who = \<lparr>id_username = user_name u, id_user_id = jc_id claims,
      id_auth_mode = mode, id_session_id = jc_session_id claims, id_must_change_password = user_must_change_password u,
      id_access = load_access (mw_access env) (jc_id claims)\<rparr>"
    using assms t c unfolding token_auth_def Let_def by (auto split: if_splits sum.splits bool.splits)
  note l = live_account_Inr [OF la [unfolded x]]
  have w: "id_user_id who = jc_id claims" "id_username who = user_name u" "id_session_id who = jc_session_id claims"
    "id_must_change_password who = user_must_change_password u"
    by (simp_all add: who)
  show "live_identity (mw_clock env 1) (tables (ps_security st)) who"
    by (rule live_identityI [OF l(1) _ _ _ l(4)]) (use l(2,5) in \<open>simp_all only: w\<close>)
  show "\<exists>token claims. request_token rq = Inr (token, id_auth_mode who)
      \<and> validate_jwt (mw_jwt env) (mw_key env) (mw_clock env 0) token = Inr claims
      \<and> jc_id claims = id_user_id who \<and> jc_session_id claims = id_session_id who"
    using t c who by auto
qed

lemma auth_middleware_Proceed:
  assumes "auth_middleware env rq st = (Proceed who, st')"
  shows "live_identity (mw_clock env 1) (tables (ps_security st)) who"
  using assms container_ticket_Proceed ssh_ticket_Proceed token_auth_Proceed(1)
  unfolding auth_middleware_def by (auto split: if_splits)

text \<open>
  C5: Only live sessions are admitted.  Whatever credential a request carries and whichever
  engine calls fail, a request that the middleware lets through belongs to an account that
  exists, under the name and the first-login state the request then carries, and to a session
  of that account that is neither revoked nor expired and was opened under the account's
  present security version.
\<close>

theorem admitted_requests_are_live:
  assumes "auth_middleware env rq st = (Proceed who, st')"
  shows "\<exists>u \<in> set (sec_users (tables (ps_security st))). \<exists>r \<in> set (sec_sessions (tables (ps_security st))).
        user_id u = id_user_id who \<and> user_name u = id_username who
        \<and> user_must_change_password u = id_must_change_password who
        \<and> us_id r = id_session_id who \<and> us_user_id r = id_user_id who \<and> us_deleted_at r = None
        \<and> us_revoked_at r = None \<and> mw_clock env 1 < us_expires_at r \<and> us_security_version r = effective_security_version u"
  using auth_middleware_Proceed [OF assms] unfolding live_identity_def .

definition demo_user :: user_row where
  "demo_user = \<lparr>user_id = 4, user_name = ''root'', user_password = [], user_is_admin = True, user_first_join = False,
     user_must_change_password = False, user_security_version = 1, user_create_time = 0\<rparr>"

definition demo_claims :: jwt_claims where
  "demo_claims = \<lparr>jc_id = 4, jc_username = ''root'', jc_session_id = ''s1'', jc_security_version = 1,
     jc_expires_at = Some 100, jc_issued_at = Some 0, jc_issuer = jwt_issuer\<rparr>"

definition demo_auth_env :: auth_env where
  "demo_auth_env = \<lparr>mw_digest = id,
     mw_jwt = \<lparr>jwt_parse = (\<lambda>key token. if token = ''t1'' then Inr (demo_claims, True) else Inl ''bad token''), jwt_sign = (\<lambda>key c. Inr ''t1'')\<rparr>,
     mw_key = Inr (replicate 32 CHR ''k''), mw_clock = (\<lambda>_. 5),
     mw_access = \<lparr>tables = \<lparr>users = [], roles = [], permissions = [], role_permissions = [], user_roles = []\<rparr>, fate = [], attached = False\<rparr>\<rparr>"

definition demo_auth_request :: "string \<Rightarrow> auth_request" where
  "demo_auth_request header = \<lparr>hr_method = ''POST'', hr_path = ''/v1/website'', hr_ticket = [], hr_container = [], hr_user_agent = [],
     hr_client_ip = ''192.0.2.1'', hr_authorization = header, hr_cookie = None\<rparr>"

definition demo_auth_state :: auth_state where
  "demo_auth_state = \<lparr>ps_security = healthy \<lparr>sec_users = [demo_user], sec_mfa = [], sec_sessions = [demo_session]\<rparr>,
     ps_ssh_tickets = new_ticket_store 0, ps_terminal_tickets = new_ticket_store 0\<rparr>"

lemma demo_request_admitted:
  "\<exists>who st'. auth_middleware demo_auth_env (demo_auth_request ''Bearer t1'') demo_auth_state = (Proceed who, st')
     \<and> id_session_id who = ''s1''"
  by (simp add: auth_middleware_def is_container_terminal_open_path_def demo_auth_request_def token_auth_def request_token_def
      validate_jwt_def demo_auth_env_def demo_claims_def demo_auth_state_def live_account_def demo_user_def
      effective_security_version_def validate_session_def demo_session_def bnd_run Let_def)

theorem admitted_requests_are_live_witness:
  "\<exists>who st'. auth_middleware demo_auth_env (demo_auth_request ''Bearer t1'') demo_auth_state = (Proceed who, st')
     \<and> (\<exists>u \<in> set (sec_users (tables (ps_security demo_auth_state))). user_id u = id_user_id who)"
  using demo_request_admitted admitted_requests_are_live [of demo_auth_env "demo_auth_request ''Bearer t1''" demo_auth_state]
  by blast

end
