(* ===== verification/Password_Guard.thy ===== *)
theory Password_Guard
  imports Format
begin

text \<open>
  The guard in front of password re-authentication
  (\<open>internal/services/security/password_verification.go\<close>): five failures of a user from one
  address within ten minutes lock that user and address for fifteen minutes.  The map of the
  process is the state.
\<close>

section \<open>The guard\<close>

abbreviation minute :: int where
  "minute \<equiv> 60 * second"

abbreviation failure_limit :: nat where "failure_limit \<equiv> 5"
abbreviation verification_window :: int where "verification_window \<equiv> 10 * minute"
abbreviation verification_cooldown :: int where "verification_cooldown \<equiv> 15 * minute"

record verification_attempt =
  pv_failures :: "time list"
  pv_locked_until :: time

type_synonym verification_guard = "string \<rightharpoonup> verification_attempt"

definition password_verification_key :: "int \<Rightarrow> string \<Rightarrow> string" where
  "password_verification_key uid remote_ip = format_int uid @ '':'' @ remote_ip"

definition recent_failures :: "time list \<Rightarrow> time \<Rightarrow> time list" where
  "recent_failures failures now = filter (\<lambda>t. t > now - verification_window) failures"

text \<open>\<open>now2\<close> is the clock when \<open>time.Until\<close> reads it.\<close>

definition password_verification_allowed :: "time \<Rightarrow> time \<Rightarrow> int \<Rightarrow> string \<Rightarrow> verification_guard
    \<Rightarrow> (bool \<times> int) \<times> verification_guard" where
  "password_verification_allowed now now2 uid remote_ip g =
     (let key = password_verification_key uid remote_ip in
      case g key of
        None \<Rightarrow> ((True, 0), g)
      | Some entry \<Rightarrow>
          if pv_locked_until entry > now then ((False, pv_locked_until entry - now2), g)
          else
            let entry' = entry\<lparr>pv_locked_until := 0, pv_failures := recent_failures (pv_failures entry) now\<rparr>
            in ((True, 0), if pv_failures entry' = [] then g(key := None) else g(key \<mapsto> entry')))"

definition record_password_failure :: "time \<Rightarrow> int \<Rightarrow> string \<Rightarrow> verification_guard
    \<Rightarrow> (bool \<times> int) \<times> verification_guard" where
  "record_password_failure now uid remote_ip g =
     (let key = password_verification_key uid remote_ip;
          entry = (case g key of None \<Rightarrow> \<lparr>pv_failures = [], pv_locked_until = 0\<rparr> | Some e \<Rightarrow> e);
          failures = recent_failures (pv_failures entry) now @ [now]
      in if failure_limit \<le> length failures
         then ((True, verification_cooldown), g(key \<mapsto> \<lparr>pv_failures = [], pv_locked_until = now + verification_cooldown\<rparr>))
         else ((False, 0), g(key \<mapsto> entry\<lparr>pv_failures := failures\<rparr>)))"

definition reset_password_failures :: "int \<Rightarrow> string \<Rightarrow> verification_guard \<Rightarrow> verification_guard" where
  "reset_password_failures uid remote_ip g = g(password_verification_key uid remote_ip := None)"

section \<open>Lock-out\<close>

datatype guard_op =
    Attempt time time int string
  | Failure time int string
  | Success int string

fun guard_step :: "guard_op \<Rightarrow> verification_guard \<Rightarrow> verification_guard" where
  "guard_step (Attempt now now2 uid ip) g = snd (password_verification_allowed now now2 uid ip g)"
| "guard_step (Failure now uid ip) g = snd (record_password_failure now uid ip g)"
| "guard_step (Success uid ip) g = reset_password_failures uid ip g"

text \<open>An operation within the lock that does not report a success of the locked key.\<close>

fun harmless :: "string \<Rightarrow> time \<Rightarrow> time \<Rightarrow> guard_op \<Rightarrow> bool" where
  "harmless key from until (Attempt now now2 uid ip) \<longleftrightarrow> from \<le> now \<and> now < until"
| "harmless key from until (Failure now uid ip) \<longleftrightarrow> from \<le> now \<and> now < until"
| "harmless key from until (Success uid ip) \<longleftrightarrow> password_verification_key uid ip \<noteq> key"

definition locked :: "string \<Rightarrow> time \<Rightarrow> verification_guard \<Rightarrow> bool" where
  "locked key until g \<longleftrightarrow> (\<exists>e. g key = Some e \<and> until \<le> pv_locked_until e)"

lemma guard_step_locked:
  assumes "locked key until g" "harmless key from until x" "until \<le> from + verification_cooldown"
  shows "locked key until (guard_step x g)"
  using assms
  by (cases x)
    (auto simp: locked_def password_verification_allowed_def record_password_failure_def reset_password_failures_def Let_def
      split: option.splits if_splits)

lemma guard_run_locked:
  "locked key until g \<Longrightarrow> list_all (harmless key from until) ops \<Longrightarrow> until \<le> from + verification_cooldown \<Longrightarrow>
   locked key until (fold guard_step ops g)"
proof (induction ops arbitrary: g)
  case (Cons x xs)
  then have "locked key until (guard_step x g)" by (intro guard_step_locked [of key until g "from"]) simp_all
  then show ?case using Cons by simp
qed simp

text \<open>The failures of a key in a history.\<close>

fun failure_of :: "string \<Rightarrow> guard_op \<Rightarrow> bool" where
  "failure_of key (Failure now uid ip) \<longleftrightarrow> password_verification_key uid ip = key"
| "failure_of key _ \<longleftrightarrow> False"

definition failures_of :: "string \<Rightarrow> guard_op list \<Rightarrow> nat" where
  "failures_of key ops = length (filter (failure_of key) ops)"

text \<open>What the guard has counted: \<open>n\<close> failures since \<open>start\<close>, fewer than the limit, and no lock.\<close>

definition counted :: "string \<Rightarrow> time \<Rightarrow> nat \<Rightarrow> verification_guard \<Rightarrow> bool" where
  "counted key start n g \<longleftrightarrow>
     (case g key of
        None \<Rightarrow> n = 0
      | Some e \<Rightarrow> pv_locked_until e = 0 \<and> length (pv_failures e) = n \<and> list_all (\<lambda>t. start \<le> t) (pv_failures e))"

lemma recent_all: "list_all (\<lambda>t. start \<le> t) fs \<Longrightarrow> now < start + verification_window \<Longrightarrow> recent_failures fs now = fs"
  by (auto simp: recent_failures_def filter_id_conv list_all_iff)

lemma counted_allowed:
  "counted key start n g \<Longrightarrow> key = password_verification_key uid ip \<Longrightarrow> 0 \<le> now \<Longrightarrow>
   fst (password_verification_allowed now now2 uid ip g) = (True, 0)"
  by (auto simp: counted_def password_verification_allowed_def Let_def split: option.splits)

lemma counted_fails:
  assumes "counted (password_verification_key uid ip) start n g" "now < start + verification_window"
  shows "fst (record_password_failure now uid ip g) = (if n < 4 then (False, 0) else (True, verification_cooldown))"
    and "n < 4 \<Longrightarrow> start \<le> now \<Longrightarrow> counted (password_verification_key uid ip) start (Suc n) (snd (record_password_failure now uid ip g))"
    and "\<not> n < 4 \<Longrightarrow> locked (password_verification_key uid ip) (now + verification_cooldown) (snd (record_password_failure now uid ip g))"
  using assms
  by (auto simp: counted_def record_password_failure_def Let_def recent_all locked_def recent_failures_def [of "[]"]
      split: option.splits if_splits)

lemma counted_step:
  assumes "counted key start n g" "harmless key start (start + verification_window) x" "0 \<le> start"
    and "failure_of key x \<Longrightarrow> n < 4"
  shows "counted key start (if failure_of key x then Suc n else n) (guard_step x g)"
proof (cases x)
  case (Attempt now now2 uid ip)
  then show ?thesis
    using assms
    by (cases "password_verification_key uid ip = key")
      (auto simp: counted_def password_verification_allowed_def Let_def recent_all split: option.splits)
next
  case (Failure now uid ip)
  then show ?thesis
    using assms counted_fails(2) [of uid ip start n g now]
    by (cases "password_verification_key uid ip = key") (auto simp: counted_def record_password_failure_def Let_def)
next
  case (Success uid ip)
  then show ?thesis using assms by (simp add: counted_def reset_password_failures_def)
qed

lemma counted_run:
  "counted key start n g \<Longrightarrow> list_all (harmless key start (start + verification_window)) ops \<Longrightarrow> 0 \<le> start \<Longrightarrow>
   n + failures_of key ops \<le> 4 \<Longrightarrow> counted key start (n + failures_of key ops) (fold guard_step ops g)"
proof (induction ops arbitrary: n g)
  case (Cons x xs)
  have "counted key start (if failure_of key x then Suc n else n) (guard_step x g)"
    using Cons.prems by (intro counted_step) (auto simp: failures_of_def)
  from Cons.IH [OF this] show ?case using Cons.prems by (auto simp: failures_of_def split: if_splits)
qed (simp add: failures_of_def)

text \<open>
  C33: Guessing is locked out.  Take any history of attempts, failures and successes of all users
  and addresses, within ten minutes, that begins where nothing is recorded for a user and an
  address and reports no success of them, and let it hold four failures of them, with as many
  attempts before, between and after the failures as one likes.  Up to here every attempt of that
  user from that address is let through.  The next failure within the ten minutes reports the lock,
  and then, whatever attempts and failures of anyone follow in the next fifteen minutes, as long as
  no success of that user and address is reported, every attempt of that user from that address in
  this time is refused.
\<close>

theorem five_failures_lock_out:
  assumes "g (password_verification_key uid ip) = None" and "0 \<le> start"
    and "list_all (harmless (password_verification_key uid ip) start (start + verification_window)) ops"
    and "failures_of (password_verification_key uid ip) ops = 4"
    and "start \<le> t5" "t5 < start + verification_window"
    and "list_all (harmless (password_verification_key uid ip) t5 (t5 + verification_cooldown)) later"
    and "t5 \<le> now" "now < t5 + verification_cooldown"
  shows "(\<forall>n t. 0 \<le> t \<longrightarrow> fst (password_verification_allowed t t' uid ip (fold guard_step (take n ops) g)) = (True, 0))
    \<and> fst (record_password_failure t5 uid ip (fold guard_step ops g)) = (True, verification_cooldown)
    \<and> \<not> fst (fst (password_verification_allowed now now2 uid ip
           (fold guard_step (ops @ Failure t5 uid ip # later) g)))"
proof (intro conjI allI impI)
  let ?k = "password_verification_key uid ip"
  have none: "counted ?k start 0 g" using assms(1) by (simp add: counted_def)
  fix n t assume t: "(0::time) \<le> t"
  have "list_all (harmless ?k start (start + verification_window)) (take n ops)"
    using assms(3) by (auto simp: list_all_iff dest: in_set_takeD)
  moreover have "failures_of ?k (take n ops) \<le> 4"
    using assms(4) unfolding failures_of_def
    by (metis append_take_drop_id filter_append length_append le_add1)
  ultimately have "counted ?k start (failures_of ?k (take n ops)) (fold guard_step (take n ops) g)"
    using counted_run [OF none _ assms(2), of "take n ops"] by simp
  then show "fst (password_verification_allowed t t' uid ip (fold guard_step (take n ops) g)) = (True, 0)"
    using t by (intro counted_allowed) simp_all
next
  let ?k = "password_verification_key uid ip" and ?g = "fold guard_step ops g"
  have "counted ?k start (0 + failures_of ?k ops) ?g"
    using assms(1,4) by (intro counted_run [OF _ assms(3,2)]) (simp_all add: counted_def)
  then have four: "counted ?k start 4 ?g" using assms(4) by simp
  show "fst (record_password_failure t5 uid ip ?g) = (True, verification_cooldown)"
    using counted_fails(1) [OF four assms(6)] by simp
  have "locked ?k (t5 + verification_cooldown) (guard_step (Failure t5 uid ip) ?g)"
    using counted_fails(3) [OF four assms(6)] by simp
  from guard_run_locked [OF this assms(7) order_refl]
  show "\<not> fst (fst (password_verification_allowed now now2 uid ip
           (fold guard_step (ops @ Failure t5 uid ip # later) g)))"
    using assms(9) by (auto simp: locked_def password_verification_allowed_def Let_def)
qed

theorem five_failures_lock_out_witness:
  "\<not> fst (fst (password_verification_allowed 60 60 7 ''192.0.2.1''
     (fold guard_step
       ([Attempt 9 9 7 ''192.0.2.1'', Failure 10 7 ''192.0.2.1'', Attempt 19 19 7 ''192.0.2.1'', Failure 20 7 ''192.0.2.1'',
         Failure 30 7 ''192.0.2.1'', Success 8 ''192.0.2.1'', Attempt 39 39 7 ''192.0.2.1'', Failure 40 7 ''192.0.2.1'']
        @ Failure 50 7 ''192.0.2.1'' # [Attempt 55 55 8 ''192.0.2.1'', Failure 56 7 ''192.0.2.1'']) Map.empty)))"
  by (rule five_failures_lock_out [of Map.empty 7 "''192.0.2.1''" 9 _ 50 _ 60 0 60, THEN conjunct2, THEN conjunct2])
    (simp_all add: failures_of_def password_verification_key_def format_int_def)

end
