(* ===== verification/Timestamp.thy ===== *)
theory Timestamp
  imports Format
begin

text \<open>
  How \<open>encoding/json\<close> writes a \<open>time.Time\<close> (RFC 3339 with nanoseconds): the civil date of a
  day number, the zone, and the fraction without trailing zeros.  A \<open>stamp\<close> is an instant with
  the offset of its zone in minutes, as it comes out of a JSON document.
\<close>

record stamp =
  instant :: time
  zone :: int

abbreviation utc :: "stamp \<Rightarrow> stamp" where
  "utc s \<equiv> s\<lparr>zone := 0\<rparr>"

definition leap_year :: "int \<Rightarrow> bool" where
  "leap_year y \<longleftrightarrow> y mod 4 = 0 \<and> (y mod 100 \<noteq> 0 \<or> y mod 400 = 0)"

text \<open>The year and the day in the year of a day number; day 0 is 1 January of the year 1.\<close>

definition civil_year :: "int \<Rightarrow> int \<times> int" where
  "civil_year days =
     (let n400 = days div 146097; d1 = days mod 146097;
          n100 = min 3 (d1 div 36524); d2 = d1 - n100 * 36524;
          n4 = d2 div 1461; d3 = d2 mod 1461;
          n1 = min 3 (d3 div 365)
      in (400 * n400 + 100 * n100 + 4 * n4 + n1 + 1, d3 - n1 * 365))"

definition month_lengths :: "int \<Rightarrow> int list" where
  "month_lengths y = [31, if leap_year y then 29 else 28, 31, 30, 31, 30, 31, 31, 30, 31, 30, 31]"

fun month_day :: "int list \<Rightarrow> int \<Rightarrow> int \<Rightarrow> int \<times> int" where
  "month_day [] m d = (m, d + 1)"
| "month_day (l # ls) m d = (if d < l then (m, d + 1) else month_day ls (m + 1) (d - l))"

definition padded :: "nat \<Rightarrow> int \<Rightarrow> string" where
  "padded k n = (let ds = decimal (nat n) in replicate (k - length ds) CHR ''0'' @ ds)"

definition fraction :: "int \<Rightarrow> string" where
  "fraction ns = (if ns = 0 then [] else CHR ''.'' # rev (dropWhile (\<lambda>c. c = CHR ''0'') (rev (padded 9 ns))))"

definition zone_text :: "int \<Rightarrow> string" where
  "zone_text z =
     (if z = 0 then ''Z''
      else (if z < 0 then ''-'' else ''+'') @ padded 2 (\<bar>z\<bar> div 60) @ '':'' @ padded 2 (\<bar>z\<bar> mod 60))"

text \<open>\<open>Time.MarshalJSON\<close>: an error for a year outside 0 to 9999 and for a zone of a day or more.\<close>

definition marshal_time :: "stamp \<Rightarrow> string option" where
  "marshal_time s =
     (let local = instant s + zone s * 60 * second;
          ns = local mod (24 * hour);
          (y, yday) = civil_year (local div (24 * hour));
          (m, d) = month_day (month_lengths y) 1 yday
      in if y < 0 \<or> 9999 < y \<or> 24 * 60 \<le> \<bar>zone s\<bar> then None
         else Some (CHR 0x22 # padded 4 y @ ''-'' @ padded 2 m @ ''-'' @ padded 2 d @ ''T''
                @ padded 2 (ns div hour) @ '':'' @ padded 2 (ns div (60 * second) mod 60) @ '':''
                @ padded 2 (ns div second mod 60) @ fraction (ns mod second) @ zone_text (zone s) @ [CHR 0x22]))"

section \<open>The calendar\<close>

definition days_before :: "int \<Rightarrow> int" where
  "days_before y = 365 * (y - 1) + (y - 1) div 4 - (y - 1) div 100 + (y - 1) div 400"

lemma civil_year_exact:
  assumes "civil_year days = (y, yday)"
  shows "days = days_before y + yday \<and> 0 \<le> yday \<and> yday < (if leap_year y then 366 else 365)"
proof -
  define n400 d1 where "n400 = days div 146097" and "d1 = days mod 146097"
  define n100 where "n100 = min 3 (d1 div 36524)"
  define d2 where "d2 = d1 - n100 * 36524"
  define n4 d3 where "n4 = d2 div 1461" and "d3 = d2 mod 1461"
  define n1 where "n1 = min 3 (d3 div 365)"
  have "civil_year days = (400 * n400 + 100 * n100 + 4 * n4 + n1 + 1, d3 - n1 * 365)"
    unfolding civil_year_def Let_def n400_def d1_def n100_def d2_def n4_def d3_def n1_def ..
  then have y: "y = 400 * n400 + 100 * n100 + 4 * n4 + n1 + 1" and yd: "yday = d3 - n1 * 365"
    using assms by auto
  have d1: "days = 146097 * n400 + d1" "0 \<le> d1" "d1 < 146097" by (simp_all add: n400_def d1_def)
  have c: "0 \<le> n100" "n100 \<le> 3" "0 \<le> d2" "d2 \<le> 36524" "n100 < 3 \<Longrightarrow> d2 < 36524"
    using d1 by (auto simp: n100_def d2_def min_def)
  have d3: "d2 = 1461 * n4 + d3" "0 \<le> d3" "d3 < 1461" by (simp_all add: n4_def d3_def)
  have n4: "0 \<le> n4" "n4 \<le> 24" using c d3 by linarith+
  have n1: "0 \<le> n1" "n1 \<le> 3" "0 \<le> yday" "yday \<le> 365" "n1 < 3 \<Longrightarrow> yday < 365"
    using d3 unfolding yd by (auto simp: n1_def min_def)
  have "(y - 1) div 4 = 100 * n400 + 25 * n100 + n4"
    by (rule int_div_pos_eq [where r = n1]) (use y n1 in auto)
  moreover have "(y - 1) div 100 = 4 * n400 + n100"
    by (rule int_div_pos_eq [where r = "4 * n4 + n1"]) (use y n1 n4 in auto)
  moreover have "(y - 1) div 400 = n400"
    by (rule int_div_pos_eq [where r = "100 * n100 + 4 * n4 + n1"]) (use y n1 n4 c in auto)
  ultimately have eq: "days = days_before y + yday"
    unfolding days_before_def using y d1(1) yd d3(1) d2_def by simp
  have leap: "leap_year y" if "yday = 365"
  proof -
    have n: "n1 = 3" using that n1 by linarith
    have four: "y mod 4 = 0"
      by (rule int_mod_pos_eq [where q = "100 * n400 + 25 * n100 + n4 + 1"]) (use y n in auto)
    show ?thesis
    proof (cases "n4 < 24")
      case True
      have "y mod 100 = 4 * n4 + 4"
        by (rule int_mod_pos_eq [where q = "4 * n400 + n100"]) (use y n n4 True in auto)
      then show ?thesis using four n4 by (simp add: leap_year_def)
    next
      case False
      then have "n100 = 3" using that n c d3 n4 unfolding yd by linarith
      then have "y mod 400 = 0"
        by (intro int_mod_pos_eq [where q = "n400 + 1"]) (use y n n4 False in auto)
      then show ?thesis using four by (simp add: leap_year_def)
    qed
  qed
  then show ?thesis using eq n1 by fastforce
qed

end
