(* ===== verification/Panel_Update.thy ===== *)
theory Panel_Update
  imports Engine Codec Json Timestamp Paths "HOL-Library.AList"
begin

text \<open>
  Panel updates (\<open>internal/services/panelupdate/{keytrust,manifest,types,instance}.go\<close>): the
  set of signing keys the panel trusts, refreshed from the update center and kept in a file;
  the signed manifest of a release; and the check that decides whether a release is offered.
  SHA-256, Ed25519, the semantic-version package, the URL parser, the address test, case
  folding and the JSON decoder are parameters (\<open>update_env\<close>), the answers of the center are
  another (\<open>center\<close>).  The trust file is the table of the engine: its content is the decoded
  structure, and every file operation may fail.
\<close>

section \<open>Data\<close>

record trusted_key_record =
  tk_key_id :: string
  tk_algorithm :: string
  tk_public_key :: string
  tk_status :: string
  tk_created_at :: stamp
  tk_activated_at :: "stamp option"
  tk_retired_at :: "stamp option"
  tk_revoked_at :: "stamp option"
  tk_revocation_reason :: string

record keyset_signature =
  ks_key_id :: string
  ks_value :: string

record keyset_document =
  kd_schema_version :: int
  kd_revision :: "64 word"
  kd_generated_at :: stamp
  kd_active_key_id :: string
  kd_keys :: "trusted_key_record list"
  kd_signatures :: "keyset_signature list"

record trust_state =
  ts_schema_version :: int
  ts_revision :: "64 word"
  ts_generated_at :: stamp
  ts_active_key_id :: string
  ts_keys :: "trusted_key_record list"
  ts_digest :: string
  ts_updated_at :: time

record key_trust_result =
  kr_source :: string
  kr_revision :: "64 word"
  kr_active_key_id :: string
  kr_trusted_key_count :: nat
  kr_revoked_key_count :: nat
  kr_updated_at :: time

record update_config =
  uc_enabled :: bool
  uc_manifest_url :: string
  uc_resolve_url :: string
  uc_key_status_url :: string
  uc_trust_state_path :: string
  uc_instance_id :: string
  uc_channel :: string
  uc_trusted_keys :: "(string \<times> string) list"
  uc_max_package_bytes :: int
  uc_max_expanded_bytes :: int
  uc_backup_retention :: int
  uc_install_dir :: string
  uc_current_version :: string
  uc_os :: string
  uc_arch :: string

record artifact =
  at_os :: string
  at_arch :: string
  at_url :: string
  at_sha256 :: string
  at_size :: int
  at_file_name :: string

record manifest =
  mf_schema_version :: int
  mf_version :: string
  mf_channel :: string
  mf_published_at :: stamp
  mf_minimum_version :: string
  mf_release_notes :: string
  mf_artifacts :: "artifact list"
  mf_signature :: keyset_signature

record check_result =
  cr_enabled :: bool
  cr_source :: string
  cr_instance_id :: string
  cr_current_version :: string
  cr_latest_version :: string
  cr_update_available :: bool
  cr_channel :: string
  cr_published_at :: time
  cr_release_notes :: string
  cr_minimum_version :: string
  cr_compatible :: bool
  cr_artifact_size :: int
  cr_signing_key_id :: string
  cr_trust_revision :: "64 word"
  cr_trust_source :: string
  cr_trusted_key_count :: nat
  cr_revoked_key_count :: nat
  cr_trust_updated_at :: time

abbreviation "KeysetSchemaVersion \<equiv> (1 :: int)"
abbreviation "ManifestSchemaVersion \<equiv> (1 :: int)"
abbreviation "MaxKeysetBytes \<equiv> (262144 :: nat)"
abbreviation "MaxManifestBytes \<equiv> (1048576 :: nat)"
abbreviation "MaxKeysetKeys \<equiv> (32 :: nat)"
abbreviation "PublicKeySize \<equiv> (32 :: nat)"
abbreviation "SignatureSize \<equiv> (64 :: nat)"

abbreviation "KeyStatusStaged \<equiv> ''staged''"
abbreviation "KeyStatusActive \<equiv> ''active''"
abbreviation "KeyStatusRetired \<equiv> ''retired''"
abbreviation "KeyStatusRevoked \<equiv> ''revoked''"

text \<open>
  The errors, one for each return of the source.  The first four groups and the next four
  errors wrap \<open>ErrInvalidManifest\<close>; \<open>UpdatesDisabled\<close> is \<open>ErrDisabled\<close>.
\<close>

datatype key_fault = NotEd25519Key | KeyIncomplete | KeyIdMismatch | DuplicateKey | ActiveWithoutActivation
  | RetiredIncomplete | RevokedIncomplete | InvalidKeyStatus | KeyRemoved

datatype keyset_fault = KeysetUrl | KeysetTooLarge | KeysetDecode | KeysetMetadata | KeysetGeneratedAt
  | KeysetKeyCount | KeysetSignatureCount | InvalidActiveKey | UnusableSignature | DuplicateSignature
  | InvalidKeysetSignature | NotSignedByTrustedKey | KeysetRollback | KeysetChanged

datatype manifest_fault = ManifestUrl | ResolveUrl | ManifestTooLarge | ManifestDecode | ManifestSchema
  | ManifestVersion | ManifestChannel | ChannelMismatch | ManifestPublishedAt | ManifestMinimumVersion
  | MinimumNewer | ArtifactCount | UntrustedKey | KeyEncoding | SignatureEncoding | SignatureMismatch
  | NoArtifact | InvalidInstanceId | CurrentVersionInvalid | BelowMinimum

datatype artifact_fault = DuplicateTarget | UnsupportedTarget | SizeOutOfRange | InvalidDigest | ArtifactUrl
  | InvalidFileName

datatype update_error =
    BadKey key_fault string
  | BadKeyset keyset_fault
  | BadManifest manifest_fault
  | BadArtifact artifact_fault string
  | TrustPathRequired | TrustStateInvalid | MultipleJson | TrailingJson
  | TrustStateRead | TrustStateDecode | TrustStateEncode | TrustStateWrite
  | RequestInvalid | DownloadFailed | HttpStatus int | ReadFailed | PayloadInvalid
  | UpdatesDisabled

section \<open>The environment\<close>

record url =
  url_scheme :: string
  url_host :: string
  url_hostname :: string
  url_has_user :: bool
  url_fragment :: string

text \<open>What a JSON decoder finds after a value: nothing, another value, or neither.\<close>

datatype json_rest = JsonEof | JsonValue | JsonGarbage

text \<open>
  \<open>ue_decode_keyset\<close>, \<open>ue_decode_manifest\<close> and \<open>ue_decode_state\<close> are \<open>Decode\<close> with
  \<open>DisallowUnknownFields\<close>: an error, or the structure and what a second \<open>Decode\<close> finds.
  \<open>ue_encode_state\<close> is \<open>json.MarshalIndent\<close> of the trust state, which may fail.  \<open>ue_loopback_ip\<close> is
  \<open>net.ParseIP(host).IsLoopback()\<close>.
\<close>

record update_env =
  ue_sha256 :: "string \<Rightarrow> string"
  ue_verify :: "string \<Rightarrow> string \<Rightarrow> string \<Rightarrow> bool"
  ue_semver_valid :: "string \<Rightarrow> bool"
  ue_semver_compare :: "string \<Rightarrow> string \<Rightarrow> int"
  ue_parse_url :: "string \<Rightarrow> url option"
  ue_loopback_ip :: "string \<Rightarrow> bool"
  ue_equal_fold :: "string \<Rightarrow> string \<Rightarrow> bool"
  ue_lower :: casemap
  ue_decode_keyset :: "string \<Rightarrow> (keyset_document \<times> json_rest) option"
  ue_decode_manifest :: "string \<Rightarrow> (manifest \<times> json_rest) option"
  ue_encode_state :: "trust_state \<Rightarrow> string option"
  ue_decode_state :: "string \<Rightarrow> (trust_state \<times> json_rest) option"

text \<open>The outcome of \<open>client.Do\<close>: an error, or a status with a body that may fail to arrive.\<close>

datatype http_result = HttpFailed | HttpResponse int "string option"

record center =
  ct_get :: "string \<Rightarrow> http_result"
  ct_post :: "string \<Rightarrow> string \<Rightarrow> http_result"

text \<open>The trust file at one path: absent, or its bytes.\<close>

datatype trust_file = NoTrustFile | TrustFile string

definition of_result :: "'e + 'a \<Rightarrow> ('db, 'e, 'a) act" where
  "of_result r = (case r of Inl e \<Rightarrow> throw e | Inr a \<Rightarrow> ret a)"

section \<open>Addresses and downloads\<close>

definition is_loopback :: "update_env \<Rightarrow> string \<Rightarrow> bool" where
  "is_loopback env host \<longleftrightarrow> ue_equal_fold env host ''localhost'' \<or> ue_loopback_ip env host"

definition validate_remote_url :: "update_env \<Rightarrow> string \<Rightarrow> bool" where
  "validate_remote_url env raw =
     (case ue_parse_url env (trim_space raw) of
        None \<Rightarrow> False
      | Some u \<Rightarrow>
          if url_host u = [] then False
          else if url_has_user u \<or> url_fragment u \<noteq> [] then False
          else if url_scheme u = ''https'' then True
          else url_scheme u = ''http'' \<and> is_loopback env (url_hostname u))"

definition ensure_json_eof :: "json_rest \<Rightarrow> update_error + unit" where
  "ensure_json_eof rest =
     (case rest of JsonEof \<Rightarrow> Inr () | JsonValue \<Rightarrow> Inl MultipleJson | JsonGarbage \<Rightarrow> Inl TrailingJson)"

text \<open>The download of a document of limited size: \<open>io.LimitReader\<close> stops one byte after the limit.\<close>

definition read_limited :: "update_error \<Rightarrow> nat \<Rightarrow> string option \<Rightarrow> update_error + string" where
  "read_limited too_large limit body =
     (case body of
        None \<Rightarrow> Inl ReadFailed
      | Some content \<Rightarrow>
          let content = take (limit + 1) content in
          if length content > limit then Inl too_large else Inr content)"

definition get_document :: "update_env \<Rightarrow> center \<Rightarrow> update_error \<Rightarrow> nat \<Rightarrow> string \<Rightarrow> update_error + string" where
  "get_document env ct too_large limit address =
     (if ue_parse_url env address = None then Inl RequestInvalid
      else (case ct_get ct address of
              HttpFailed \<Rightarrow> Inl DownloadFailed
            | HttpResponse status body \<Rightarrow>
                if status \<noteq> 200 then Inl (HttpStatus status) else read_limited too_large limit body))"

definition fetch_keyset :: "update_env \<Rightarrow> center \<Rightarrow> string \<Rightarrow> update_error + keyset_document" where
  "fetch_keyset env ct address =
     (if \<not> validate_remote_url env address then Inl (BadKeyset KeysetUrl)
      else (case get_document env ct (BadKeyset KeysetTooLarge) MaxKeysetBytes address of
              Inl e \<Rightarrow> Inl e
            | Inr content \<Rightarrow>
                (case ue_decode_keyset env content of
                   None \<Rightarrow> Inl (BadKeyset KeysetDecode)
                 | Some (document, rest) \<Rightarrow>
                     (case ensure_json_eof rest of Inl e \<Rightarrow> Inl e | Inr _ \<Rightarrow> Inr document))))"

section \<open>Trusted keys\<close>

definition decode_trusted_key :: "string \<Rightarrow> string \<Rightarrow> update_error + string" where
  "decode_trusted_key key_id encoded =
     (let k = trim_space key_id in
      case std_decode (trim_space encoded) of
        None \<Rightarrow> Inl (BadKey NotEd25519Key k)
      | Some decoded \<Rightarrow> if k = [] \<or> length decoded \<noteq> PublicKeySize then Inl (BadKey NotEd25519Key k) else Inr decoded)"

text \<open>
  A map is an association list with distinct keys; for the configured keys its order is the
  order in which Go happens to range over them.
\<close>

definition clone_trusted_keys :: "(string \<times> string) list \<Rightarrow> (string \<times> string) list" where
  "clone_trusted_keys source = fold (\<lambda>(k, v). AList.update (trim_space k) (trim_space v)) source []"

definition apply_record :: "trusted_key_record \<Rightarrow> (string \<times> string) list \<Rightarrow> (string \<times> string) list" where
  "apply_record r keys =
     (if tk_status r = KeyStatusRevoked then AList.delete (tk_key_id r) keys
      else AList.update (tk_key_id r) (tk_public_key r) keys)"

definition effective_trusted_keys :: "(string \<times> string) list \<Rightarrow> trusted_key_record list \<Rightarrow> (string \<times> string) list" where
  "effective_trusted_keys static records = fold apply_record records (clone_trusted_keys static)"

definition reject_removed_keys :: "trusted_key_record list \<Rightarrow> trusted_key_record list \<Rightarrow> update_error + unit" where
  "reject_removed_keys previous current =
     (case find (\<lambda>r. tk_key_id r \<notin> set (map tk_key_id current)) previous of
        None \<Rightarrow> Inr ()
      | Some r \<Rightarrow> Inl (BadKey KeyRemoved (tk_key_id r)))"

section \<open>Signed texts\<close>

text \<open>
  \<open>json.Marshal\<close> of a structure: the fields in order, \<open>None\<close> when a field cannot be written
  (only times can fail); a field marked \<open>omitempty\<close> is left out when it is empty or nil.
\<close>

definition comma_separated :: "string list \<Rightarrow> string" where
  "comma_separated ws = join_with CHR '','' ws"

definition json_object :: "(string \<times> string option) list \<Rightarrow> string option" where
  "json_object fs =
     (if list_all (\<lambda>(k, v). v \<noteq> None) fs
      then Some (''{'' @ comma_separated (map (\<lambda>(k, v). json_string k @ '':'' @ the v) fs) @ ''}'')
      else None)"

definition json_array :: "string option list \<Rightarrow> string option" where
  "json_array vs =
     (if list_all (\<lambda>v. v \<noteq> None) vs then Some (''['' @ comma_separated (map the vs) @ '']'') else None)"

definition text_field :: "string \<Rightarrow> string \<Rightarrow> (string \<times> string option) list" where
  "text_field name v = (if v = [] then [] else [(name, Some (json_string v))])"

definition stamp_field :: "string \<Rightarrow> stamp option \<Rightarrow> (string \<times> string option) list" where
  "stamp_field name v = (case v of None \<Rightarrow> [] | Some t \<Rightarrow> [(name, marshal_time t)])"

definition key_json :: "trusted_key_record \<Rightarrow> string option" where
  "key_json r = json_object
     ([(''keyId'', Some (json_string (tk_key_id r))),
       (''algorithm'', Some (json_string (tk_algorithm r))),
       (''publicKey'', Some (json_string (tk_public_key r))),
       (''status'', Some (json_string (tk_status r))),
       (''createdAt'', marshal_time (tk_created_at r))]
      @ stamp_field ''activatedAt'' (tk_activated_at r)
      @ stamp_field ''retiredAt'' (tk_retired_at r)
      @ stamp_field ''revokedAt'' (tk_revoked_at r)
      @ text_field ''revocationReason'' (tk_revocation_reason r))"

definition keyset_payload :: "keyset_document \<Rightarrow> string option" where
  "keyset_payload doc = json_object
     [(''schemaVersion'', Some (format_int (kd_schema_version doc))),
      (''revision'', Some (decimal (unat (kd_revision doc)))),
      (''generatedAt'', marshal_time (utc (kd_generated_at doc))),
      (''activeKeyId'', Some (json_string (kd_active_key_id doc))),
      (''keys'', json_array (map key_json (kd_keys doc)))]"

definition artifact_json :: "artifact \<Rightarrow> string option" where
  "artifact_json a = json_object
     [(''os'', Some (json_string (at_os a))), (''arch'', Some (json_string (at_arch a))),
      (''url'', Some (json_string (at_url a))), (''sha256'', Some (json_string (at_sha256 a))),
      (''size'', Some (format_int (at_size a))), (''fileName'', Some (json_string (at_file_name a)))]"

definition manifest_payload :: "manifest \<Rightarrow> string option" where
  "manifest_payload m = json_object
     ([(''schemaVersion'', Some (format_int (mf_schema_version m))),
       (''version'', Some (json_string (mf_version m))),
       (''channel'', Some (json_string (mf_channel m))),
       (''publishedAt'', marshal_time (utc (mf_published_at m)))]
      @ text_field ''minimumVersion'' (mf_minimum_version m)
      @ text_field ''releaseNotes'' (mf_release_notes m)
      @ [(''artifacts'', json_array (map artifact_json (mf_artifacts m)))])"

section \<open>The keyset\<close>

definition check_key :: "update_env \<Rightarrow> trusted_key_record \<Rightarrow> (string \<rightharpoonup> trusted_key_record) \<Rightarrow> nat
    \<Rightarrow> update_error + (string \<rightharpoonup> trusted_key_record) \<times> nat" where
  "check_key env r records active =
     (let k = tk_key_id r in
      case decode_trusted_key k (tk_public_key r) of
        Inl e \<Rightarrow> Inl e
      | Inr public_key \<Rightarrow>
          if tk_algorithm r \<noteq> ''Ed25519'' \<or> is_zero (instant (tk_created_at r)) then Inl (BadKey KeyIncomplete k)
          else if k \<noteq> format_hex (take 8 (ue_sha256 env public_key)) then Inl (BadKey KeyIdMismatch k)
          else if records k \<noteq> None then Inl (BadKey DuplicateKey k)
          else if tk_status r = KeyStatusStaged then Inr (records(k \<mapsto> r), active)
          else if tk_status r = KeyStatusActive then
            (if tk_activated_at r = None then Inl (BadKey ActiveWithoutActivation k) else Inr (records(k \<mapsto> r), active + 1))
          else if tk_status r = KeyStatusRetired then
            (if tk_activated_at r = None \<or> tk_retired_at r = None then Inl (BadKey RetiredIncomplete k)
             else Inr (records(k \<mapsto> r), active))
          else if tk_status r = KeyStatusRevoked then
            (if tk_revoked_at r = None \<or> trim_space (tk_revocation_reason r) = [] then Inl (BadKey RevokedIncomplete k)
             else Inr (records(k \<mapsto> r), active))
          else Inl (BadKey InvalidKeyStatus k))"

fun check_keys :: "update_env \<Rightarrow> trusted_key_record list \<Rightarrow> (string \<rightharpoonup> trusted_key_record) \<Rightarrow> nat
    \<Rightarrow> update_error + (string \<rightharpoonup> trusted_key_record) \<times> nat" where
  "check_keys env [] records active = Inr (records, active)"
| "check_keys env (r # rs) records active =
     (case check_key env r records active of
        Inl e \<Rightarrow> Inl e
      | Inr (records', active') \<Rightarrow> check_keys env rs records' active')"

fun check_signatures :: "(string \<rightharpoonup> trusted_key_record) \<Rightarrow> keyset_signature list \<Rightarrow> string list
    \<Rightarrow> update_error + unit" where
  "check_signatures records [] seen = Inr ()"
| "check_signatures records (s # ss) seen =
     (let k = ks_key_id s in
      case records k of
        None \<Rightarrow> Inl (BadKeyset UnusableSignature)
      | Some r \<Rightarrow>
          if tk_status r = KeyStatusRevoked then Inl (BadKeyset UnusableSignature)
          else if k \<in> set seen then Inl (BadKeyset DuplicateSignature)
          else (case std_decode (trim_space (ks_value s)) of
                  None \<Rightarrow> Inl (BadKeyset InvalidKeysetSignature)
                | Some decoded \<Rightarrow>
                    if length decoded \<noteq> SignatureSize then Inl (BadKeyset InvalidKeysetSignature)
                    else check_signatures records ss (k # seen)))"

definition validate_keyset :: "update_env \<Rightarrow> time \<Rightarrow> keyset_document \<Rightarrow> update_error + string \<times> string" where
  "validate_keyset env now doc =
     (if kd_schema_version doc \<noteq> KeysetSchemaVersion \<or> kd_revision doc < 1 then Inl (BadKeyset KeysetMetadata)
      else if is_zero (instant (kd_generated_at doc)) \<or> instant (kd_generated_at doc) > now + 24 * hour
      then Inl (BadKeyset KeysetGeneratedAt)
      else if length (kd_keys doc) < 1 \<or> length (kd_keys doc) > MaxKeysetKeys then Inl (BadKeyset KeysetKeyCount)
      else if length (kd_signatures doc) < 1 \<or> length (kd_signatures doc) > MaxKeysetKeys
      then Inl (BadKeyset KeysetSignatureCount)
      else (case check_keys env (kd_keys doc) Map.empty 0 of
              Inl e \<Rightarrow> Inl e
            | Inr (records, active_count) \<Rightarrow>
                (case records (kd_active_key_id doc) of
                   None \<Rightarrow> Inl (BadKeyset InvalidActiveKey)
                 | Some active \<Rightarrow>
                     if tk_status active \<noteq> KeyStatusActive \<or> active_count \<noteq> 1 then Inl (BadKeyset InvalidActiveKey)
                     else (case check_signatures records (kd_signatures doc) [] of
                             Inl e \<Rightarrow> Inl e
                           | Inr _ \<Rightarrow>
                               (case keyset_payload doc of
                                  None \<Rightarrow> Inl PayloadInvalid
                                | Some payload \<Rightarrow> Inr (payload, format_hex (ue_sha256 env payload)))))))"

definition signature_accepted :: "update_env \<Rightarrow> string \<Rightarrow> (string \<times> string) list \<Rightarrow> keyset_signature \<Rightarrow> bool" where
  "signature_accepted env payload trusted s =
     (case map_of trusted (ks_key_id s) of
        None \<Rightarrow> False
      | Some encoded_key \<Rightarrow>
          (case decode_trusted_key (ks_key_id s) encoded_key of
             Inl _ \<Rightarrow> False
           | Inr public_key \<Rightarrow>
               (case std_decode (trim_space (ks_value s)) of
                  None \<Rightarrow> False
                | Some decoded \<Rightarrow> ue_verify env public_key payload decoded)))"

definition verify_keyset :: "update_env \<Rightarrow> keyset_document \<Rightarrow> string \<Rightarrow> (string \<times> string) list \<Rightarrow> update_error + unit" where
  "verify_keyset env doc payload trusted =
     (if list_ex (signature_accepted env payload trusted) (kd_signatures doc) then Inr ()
      else Inl (BadKeyset NotSignedByTrustedKey))"

section \<open>The trust file\<close>

definition trust_state_valid :: "trust_state \<Rightarrow> bool" where
  "trust_state_valid st \<longleftrightarrow>
     \<not> (ts_schema_version st \<noteq> KeysetSchemaVersion \<or> ts_revision st < 1
        \<or> is_zero (instant (ts_generated_at st)) \<or> ts_active_key_id st = []
        \<or> length (ts_keys st) < 1 \<or> length (ts_keys st) > MaxKeysetKeys \<or> length (ts_digest st) \<noteq> 64)"

definition decode_trust_state :: "update_env \<Rightarrow> string \<Rightarrow> update_error + trust_state" where
  "decode_trust_state env content =
     (case ue_decode_state env content of
        None \<Rightarrow> Inl TrustStateDecode
      | Some (st, rest) \<Rightarrow>
          (case ensure_json_eof rest of
             Inl e \<Rightarrow> Inl e
           | Inr _ \<Rightarrow> if trust_state_valid st then Inr st else Inl TrustStateInvalid))"

definition load_trust_state :: "update_env \<Rightarrow> (trust_file, update_error, trust_state option) act" where
  "load_trust_state env =
     bnd (query TrustStateRead (\<lambda>file. file)) (\<lambda>file.
       case file of
         NoTrustFile \<Rightarrow> ret None
       | TrustFile content \<Rightarrow> (case decode_trust_state env content of Inl e \<Rightarrow> throw e | Inr st \<Rightarrow> ret (Some st)))"

text \<open>
  The encoding, then the directory, the temporary file with its mode, content, sync and close, and
  the rename that installs it: seven operations, of which only the last is seen under the path.
\<close>

definition save_trust_state :: "update_env \<Rightarrow> trust_state \<Rightarrow> (trust_file, update_error, unit) act" where
  "save_trust_state env st =
     (case ue_encode_state env st of
        None \<Rightarrow> throw TrustStateEncode
      | Some content \<Rightarrow>
          bnd (each (\<lambda>_. modify TrustStateWrite (\<lambda>file. file)) [''mkdir'', ''create'', ''chmod'', ''write'', ''sync'', ''close''])
            (\<lambda>_. modify TrustStateWrite (\<lambda>_. TrustFile (content @ [CHR 0x0A]))))"

definition check_progress :: "trust_state option \<Rightarrow> keyset_document \<Rightarrow> string \<Rightarrow> update_error + unit" where
  "check_progress stored doc digest =
     (case stored of
        None \<Rightarrow> Inr ()
      | Some st \<Rightarrow>
          if kd_revision doc < ts_revision st then Inl (BadKeyset KeysetRollback)
          else if kd_revision doc = ts_revision st \<and> digest \<noteq> ts_digest st then Inl (BadKeyset KeysetChanged)
          else reject_removed_keys (ts_keys st) (kd_keys doc))"

definition next_state :: "time \<Rightarrow> keyset_document \<Rightarrow> string \<Rightarrow> trust_state" where
  "next_state now doc digest =
     \<lparr>ts_schema_version = KeysetSchemaVersion, ts_revision = kd_revision doc,
      ts_generated_at = utc (kd_generated_at doc), ts_active_key_id = kd_active_key_id doc,
      ts_keys = kd_keys doc, ts_digest = digest, ts_updated_at = now\<rparr>"

definition stored_keys :: "trust_state option \<Rightarrow> trusted_key_record list" where
  "stored_keys stored = (case stored of None \<Rightarrow> [] | Some st \<Rightarrow> ts_keys st)"

definition static_result :: "(string \<times> string) list \<Rightarrow> key_trust_result" where
  "static_result keys =
     \<lparr>kr_source = ''static'', kr_revision = 0, kr_active_key_id = [], kr_trusted_key_count = length keys,
      kr_revoked_key_count = 0, kr_updated_at = 0\<rparr>"

definition center_result :: "keyset_document \<Rightarrow> (string \<times> string) list \<Rightarrow> key_trust_result" where
  "center_result doc effective =
     \<lparr>kr_source = ''center'', kr_revision = kd_revision doc, kr_active_key_id = kd_active_key_id doc,
      kr_trusted_key_count = length effective,
      kr_revoked_key_count = length (filter (\<lambda>r. tk_status r = KeyStatusRevoked) (kd_keys doc)),
      kr_updated_at = instant (kd_generated_at doc)\<rparr>"

definition refresh_key_trust :: "update_env \<Rightarrow> center \<Rightarrow> (nat \<Rightarrow> time) \<Rightarrow> update_config
    \<Rightarrow> (trust_file, update_error, (string \<times> string) list \<times> key_trust_result) act" where
  "refresh_key_trust env ct clock cfg =
     (let static = clone_trusted_keys (uc_trusted_keys cfg) in
      if trim_space (uc_key_status_url cfg) = [] then ret (static, static_result static)
      else if trim_space (uc_trust_state_path cfg) = [] then throw TrustPathRequired
      else
        bnd (load_trust_state env) (\<lambda>stored.
        bnd (of_result (fetch_keyset env ct (uc_key_status_url cfg))) (\<lambda>doc.
        bnd (of_result (validate_keyset env (clock 0) doc)) (\<lambda>(payload, digest).
        bnd (of_result (verify_keyset env doc payload (effective_trusted_keys static (stored_keys stored)))) (\<lambda>_.
        bnd (of_result (check_progress stored doc digest)) (\<lambda>_.
        bnd (if (case stored of None \<Rightarrow> True | Some st \<Rightarrow> kd_revision doc > ts_revision st)
             then save_trust_state env (next_state (clock 1) doc digest) else ret ()) (\<lambda>_.
          let effective = effective_trusted_keys static (kd_keys doc) in
          ret (effective, center_result doc effective))))))))"

section \<open>Manifests\<close>

definition canonical_version :: "update_env \<Rightarrow> string \<Rightarrow> string" where
  "canonical_version env version =
     (let version = trim_space version in
      if version = [] then []
      else let version = (if has_prefix version ''v'' then version else ''v'' @ version) in
           if ue_semver_valid env version then version else [])"

definition valid_version :: "update_env \<Rightarrow> string \<Rightarrow> bool" where
  "valid_version env version \<longleftrightarrow> canonical_version env version \<noteq> []"

text \<open>\<open>hex.DecodeString\<close> accepts an even number of digits of either case.\<close>

definition hex_length :: "string \<Rightarrow> nat option" where
  "hex_length s =
     (if even (length s) \<and> list_all (\<lambda>c. c \<in> set ''0123456789abcdefABCDEF'') s then Some (length s div 2) else None)"

fun check_artifacts :: "update_env \<Rightarrow> update_config \<Rightarrow> artifact list \<Rightarrow> string list \<Rightarrow> artifact option
    \<Rightarrow> update_error + artifact option" where
  "check_artifacts env cfg [] seen selected = Inr selected"
| "check_artifacts env cfg (a # as) seen selected =
     (let target = at_os a @ ''/'' @ at_arch a in
      if target \<in> set seen then Inl (BadArtifact DuplicateTarget target)
      else if at_os a \<noteq> ''linux'' \<or> (at_arch a \<noteq> ''amd64'' \<and> at_arch a \<noteq> ''arm64'')
      then Inl (BadArtifact UnsupportedTarget target)
      else if at_size a < 1 \<or> at_size a > uc_max_package_bytes cfg then Inl (BadArtifact SizeOutOfRange target)
      else if hex_length (at_sha256 a) \<noteq> Some 32 \<or> to_lower (ue_lower env) (at_sha256 a) \<noteq> at_sha256 a
      then Inl (BadArtifact InvalidDigest target)
      else if \<not> validate_remote_url env (at_url a) then Inl (BadArtifact ArtifactUrl target)
      else if trim_space (at_file_name a) = [] \<or> list_ex (\<lambda>c. c \<in> {CHR ''/'', CHR 0x5C}) (at_file_name a)
      then Inl (BadArtifact InvalidFileName target)
      else check_artifacts env cfg as (target # seen)
             (if at_os a = uc_os cfg \<and> at_arch a = uc_arch cfg then Some a else selected))"

definition verify_signature :: "update_env \<Rightarrow> update_config \<Rightarrow> manifest \<Rightarrow> update_error + unit" where
  "verify_signature env cfg m =
     (let key_id = trim_space (ks_key_id (mf_signature m)) in
      case map_of (uc_trusted_keys cfg) key_id of
        None \<Rightarrow> Inl (BadManifest UntrustedKey)
      | Some encoded_key \<Rightarrow>
          if key_id = [] then Inl (BadManifest UntrustedKey)
          else (case std_decode (trim_space encoded_key) of
                  None \<Rightarrow> Inl (BadManifest KeyEncoding)
                | Some public_key \<Rightarrow>
                    if length public_key \<noteq> PublicKeySize then Inl (BadManifest KeyEncoding)
                    else (case std_decode (trim_space (ks_value (mf_signature m))) of
                            None \<Rightarrow> Inl (BadManifest SignatureEncoding)
                          | Some signature \<Rightarrow>
                              if length signature \<noteq> SignatureSize then Inl (BadManifest SignatureEncoding)
                              else (case manifest_payload m of
                                      None \<Rightarrow> Inl PayloadInvalid
                                    | Some payload \<Rightarrow>
                                        if ue_verify env public_key payload signature then Inr ()
                                        else Inl (BadManifest SignatureMismatch)))))"

definition verify_manifest :: "update_env \<Rightarrow> time \<Rightarrow> update_config \<Rightarrow> manifest \<Rightarrow> update_error + artifact" where
  "verify_manifest env now cfg m =
     (if mf_schema_version m \<noteq> ManifestSchemaVersion then Inl (BadManifest ManifestSchema)
      else if \<not> valid_version env (mf_version m) then Inl (BadManifest ManifestVersion)
      else if mf_channel m \<notin> {''stable'', ''beta'', ''development''} then Inl (BadManifest ManifestChannel)
      else if mf_channel m \<noteq> uc_channel cfg then Inl (BadManifest ChannelMismatch)
      else if is_zero (instant (mf_published_at m)) \<or> instant (mf_published_at m) > now + 24 * hour
      then Inl (BadManifest ManifestPublishedAt)
      else if mf_minimum_version m \<noteq> [] \<and> \<not> valid_version env (mf_minimum_version m)
      then Inl (BadManifest ManifestMinimumVersion)
      else if mf_minimum_version m \<noteq> []
          \<and> ue_semver_compare env (canonical_version env (mf_minimum_version m)) (canonical_version env (mf_version m)) > 0
      then Inl (BadManifest MinimumNewer)
      else if mf_artifacts m = [] \<or> length (mf_artifacts m) > 16 then Inl (BadManifest ArtifactCount)
      else (case verify_signature env cfg m of
              Inl e \<Rightarrow> Inl e
            | Inr _ \<Rightarrow>
                (case check_artifacts env cfg (mf_artifacts m) [] None of
                   Inl e \<Rightarrow> Inl e
                 | Inr None \<Rightarrow> Inl (BadManifest NoArtifact)
                 | Inr (Some a) \<Rightarrow> Inr a)))"

definition decode_manifest :: "update_env \<Rightarrow> string \<Rightarrow> update_error + manifest" where
  "decode_manifest env content =
     (case ue_decode_manifest env content of
        None \<Rightarrow> Inl (BadManifest ManifestDecode)
      | Some (m, rest) \<Rightarrow> (case ensure_json_eof rest of Inl e \<Rightarrow> Inl e | Inr _ \<Rightarrow> Inr m))"

definition fetch_manifest :: "update_env \<Rightarrow> center \<Rightarrow> string \<Rightarrow> update_error + manifest" where
  "fetch_manifest env ct address =
     (if \<not> validate_remote_url env address then Inl (BadManifest ManifestUrl)
      else (case get_document env ct (BadManifest ManifestTooLarge) MaxManifestBytes address of
              Inl e \<Rightarrow> Inl e
            | Inr content \<Rightarrow> decode_manifest env content))"

text \<open>\<open>instanceIDPattern\<close>: the word \<open>panel-\<close> and 32 lower-case hexadecimal digits.\<close>

definition instance_id_ok :: "string \<Rightarrow> bool" where
  "instance_id_ok i \<longleftrightarrow> has_prefix i ''panel-'' \<and> length i = 38
     \<and> list_all (\<lambda>c. c \<in> set ''0123456789abcdef'') (drop 6 i)"

definition center_resolve_request :: "update_config \<Rightarrow> string" where
  "center_resolve_request cfg = the (json_object
     [(''schemaVersion'', Some (format_int ManifestSchemaVersion)),
      (''currentVersion'', Some (json_string (uc_current_version cfg))),
      (''channel'', Some (json_string (uc_channel cfg))),
      (''os'', Some (json_string (uc_os cfg))),
      (''arch'', Some (json_string (uc_arch cfg))),
      (''instanceId'', Some (json_string (uc_instance_id cfg)))])"

text \<open>\<open>None\<close> is the center's answer that there is no release for this panel.\<close>

definition resolve_manifest :: "update_env \<Rightarrow> center \<Rightarrow> update_config \<Rightarrow> update_error + manifest option" where
  "resolve_manifest env ct cfg =
     (if \<not> validate_remote_url env (uc_resolve_url cfg) then Inl (BadManifest ResolveUrl)
      else if \<not> instance_id_ok (uc_instance_id cfg) then Inl (BadManifest InvalidInstanceId)
      else if ue_parse_url env (uc_resolve_url cfg) = None then Inl RequestInvalid
      else (case ct_post ct (uc_resolve_url cfg) (center_resolve_request cfg) of
              HttpFailed \<Rightarrow> Inl DownloadFailed
            | HttpResponse status body \<Rightarrow>
                if status = 204 then Inr None
                else if status \<noteq> 200 then Inl (HttpStatus status)
                else (case read_limited (BadManifest ManifestTooLarge) MaxManifestBytes body of
                        Inl e \<Rightarrow> Inl e
                      | Inr content \<Rightarrow>
                          (case decode_manifest env content of Inl e \<Rightarrow> Inl e | Inr m \<Rightarrow> Inr (Some m)))))"

section \<open>Checking for an update\<close>

text \<open>
  The four results of \<open>CheckUpdate\<close>; \<open>None\<close> stands for the zero \<open>Manifest\<close> and \<open>Artifact\<close> and
  for a nil error.
\<close>

record check_outcome =
  co_result :: check_result
  co_manifest :: "manifest option"
  co_artifact :: "artifact option"
  co_error :: "update_error option"

definition initial_result :: "update_config \<Rightarrow> check_result" where
  "initial_result cfg =
     \<lparr>cr_enabled = uc_enabled cfg, cr_source = [], cr_instance_id = uc_instance_id cfg,
      cr_current_version = uc_current_version cfg, cr_latest_version = [], cr_update_available = False,
      cr_channel = uc_channel cfg, cr_published_at = 0, cr_release_notes = [], cr_minimum_version = [],
      cr_compatible = True, cr_artifact_size = 0, cr_signing_key_id = [], cr_trust_revision = 0,
      cr_trust_source = [], cr_trusted_key_count = 0, cr_revoked_key_count = 0, cr_trust_updated_at = 0\<rparr>"

abbreviation outcome :: "check_result \<Rightarrow> update_error option \<Rightarrow> check_outcome" where
  "outcome res e \<equiv> \<lparr>co_result = res, co_manifest = None, co_artifact = None, co_error = e\<rparr>"

definition trusted_result :: "key_trust_result \<Rightarrow> check_result \<Rightarrow> check_result" where
  "trusted_result trust res =
     res\<lparr>cr_trust_revision := kr_revision trust, cr_trust_source := kr_source trust,
         cr_trusted_key_count := kr_trusted_key_count trust, cr_revoked_key_count := kr_revoked_key_count trust,
         cr_trust_updated_at := kr_updated_at trust\<rparr>"

text \<open>The part of \<open>CheckUpdate\<close> after a manifest has arrived.\<close>

definition judge_manifest :: "update_env \<Rightarrow> time \<Rightarrow> update_config \<Rightarrow> check_result \<Rightarrow> manifest \<Rightarrow> check_outcome" where
  "judge_manifest env now cfg res m =
     (case verify_manifest env now cfg m of
        Inl e \<Rightarrow> outcome res (Some e)
      | Inr a \<Rightarrow>
          let current = canonical_version env (uc_current_version cfg);
              res = res\<lparr>cr_latest_version := mf_version m, cr_published_at := instant (mf_published_at m),
                        cr_release_notes := mf_release_notes m, cr_minimum_version := mf_minimum_version m,
                        cr_artifact_size := at_size a, cr_signing_key_id := ks_key_id (mf_signature m)\<rparr>
          in if mf_minimum_version m \<noteq> []
               \<and> ue_semver_compare env current (canonical_version env (mf_minimum_version m)) < 0
             then \<lparr>co_result = res\<lparr>cr_compatible := False\<rparr>, co_manifest = Some m, co_artifact = Some a,
                    co_error = Some (BadManifest BelowMinimum)\<rparr>
             else \<lparr>co_result = res\<lparr>cr_update_available :=
                       ue_semver_compare env (canonical_version env (mf_version m)) current > 0\<rparr>,
                    co_manifest = Some m, co_artifact = Some a, co_error = None\<rparr>)"

definition find_manifest :: "update_env \<Rightarrow> center \<Rightarrow> update_config \<Rightarrow> string \<times> (update_error + manifest option)" where
  "find_manifest env ct cfg =
     (if trim_space (uc_resolve_url cfg) \<noteq> [] then (''center'', resolve_manifest env ct cfg)
      else (''manifest'', (case fetch_manifest env ct (uc_manifest_url cfg) of Inl e \<Rightarrow> Inl e | Inr m \<Rightarrow> Inr (Some m))))"

definition check_update :: "update_env \<Rightarrow> center \<Rightarrow> (nat \<Rightarrow> time) \<Rightarrow> update_config \<Rightarrow> trust_file engine
    \<Rightarrow> check_outcome \<times> trust_file engine" where
  "check_update env ct clock cfg s =
     (let res = initial_result cfg in
      if \<not> uc_enabled cfg then (outcome res (Some UpdatesDisabled), s)
      else if canonical_version env (uc_current_version cfg) = []
      then (outcome (res\<lparr>cr_compatible := False\<rparr>) (Some (BadManifest CurrentVersionInvalid)), s)
      else (case refresh_key_trust env ct clock cfg s of
              (Inl e, s') \<Rightarrow> (outcome res (Some e), s')
            | (Inr (trusted, trust), s') \<Rightarrow>
                let cfg = cfg\<lparr>uc_trusted_keys := trusted\<rparr>;
                    (source, found) = find_manifest env ct cfg;
                    res = (trusted_result trust res)\<lparr>cr_source := source\<rparr>
                in (case found of
                      Inl e \<Rightarrow> outcome res (Some e)
                    | Inr None \<Rightarrow> outcome (res\<lparr>cr_latest_version := uc_current_version cfg\<rparr>) None
                    | Inr (Some m) \<Rightarrow> judge_manifest env (clock 2) cfg res m, s')))"

section \<open>Configuration\<close>

datatype config_error = InstallDirInvalid | ChannelInvalid | SizeLimitsInvalid | RetentionInvalid
  | SourceMissing | InstanceIdMissing | TrustPathInvalid

definition validate_config :: "update_config \<Rightarrow> config_error + unit" where
  "validate_config cfg =
     (if \<not> is_abs (uc_install_dir cfg) \<or> uc_install_dir cfg = ''/'' then Inl InstallDirInvalid
      else if uc_channel cfg \<noteq> ''stable'' \<and> uc_channel cfg \<noteq> ''beta'' \<and> uc_channel cfg \<noteq> ''development''
      then Inl ChannelInvalid
      else if uc_max_package_bytes cfg < 1048576 \<or> uc_max_expanded_bytes cfg < uc_max_package_bytes cfg
      then Inl SizeLimitsInvalid
      else if uc_backup_retention cfg < 1 then Inl RetentionInvalid
      else if uc_enabled cfg \<and> trim_space (uc_manifest_url cfg) = [] \<and> trim_space (uc_resolve_url cfg) = []
      then Inl SourceMissing
      else if trim_space (uc_resolve_url cfg) \<noteq> [] \<and> \<not> instance_id_ok (uc_instance_id cfg) then Inl InstanceIdMissing
      else if trim_space (uc_key_status_url cfg) \<noteq> []
          \<and> (\<not> is_abs (uc_trust_state_path cfg) \<or> clean (uc_trust_state_path cfg) = ''/'')
      then Inl TrustPathInvalid
      else Inr ())"

text \<open>\<open>NewManager\<close>: the defaults and the cleaned directory; \<open>host_os\<close> and \<open>host_arch\<close> are the build's.\<close>

definition new_manager :: "string \<Rightarrow> string \<Rightarrow> update_config \<Rightarrow> config_error + update_config" where
  "new_manager host_os host_arch cfg =
     (let cfg = cfg\<lparr>uc_os := default_string (uc_os cfg) host_os, uc_arch := default_string (uc_arch cfg) host_arch,
                    uc_install_dir := clean (trim_space (uc_install_dir cfg))\<rparr>
      in case validate_config cfg of Inl e \<Rightarrow> Inl e | Inr _ \<Rightarrow> Inr cfg)"

end
