(* ===== verification/Release_Archive.thy ===== *)
theory Release_Archive
  imports Paths
begin

text \<open>
  Unpacking a release (\<open>internal/services/panelupdate/archive.go\<close>): which entries of a tar file
  are written where, and when the archive is refused.  The archive is the list of what
  \<open>reader.Next\<close> returns; whether a file operation succeeds and what \<open>os.Stat\<close> answers after the
  operations so far are parameters.
\<close>

section \<open>Data\<close>

datatype entry_type = TypeDir | TypeReg | TypeOther

text \<open>\<open>te_executable\<close> is \<open>Mode().Perm() & 0111 != 0\<close>; the size is an \<open>int64\<close>.\<close>

record tar_entry =
  te_name :: string
  te_type :: entry_type
  te_size :: "64 word"
  te_executable :: bool

datatype write_op = MakeDirs string | CreateFile string "64 word" bool

abbreviation op_path :: "write_op \<Rightarrow> string" where
  "op_path w \<equiv> (case w of MakeDirs p \<Rightarrow> p | CreateFile p _ _ \<Rightarrow> p)"

record file_info =
  fi_regular :: bool
  fi_dir :: bool
  fi_executable :: bool

record archive_env =
  av_writes :: "write_op list \<Rightarrow> write_op \<Rightarrow> bool"
  av_stat :: "write_op list \<Rightarrow> string \<Rightarrow> file_info option"

datatype archive_error = ArchiveRead | TooManyEntries | UnsafePath | SeveralRoots | NegativeSize | TooLarge
  | UnsupportedEntry | RootNotDirectory | EscapesRoot | WriteFailed | NoBinary | BinaryNotExecutable | NoBundled

abbreviation "maxArchiveFiles \<equiv> (20000 :: nat)"

record extraction =
  ex_root :: string
  ex_expanded :: "64 word"
  ex_count :: nat
  ex_ops :: "write_op list"

section \<open>Operations\<close>

text \<open>
  Every step returns the error, if any, and the extraction with the operations attempted so far,
  the failed one included.
\<close>

definition do_write :: "archive_env \<Rightarrow> write_op \<Rightarrow> extraction \<Rightarrow> archive_error option \<times> extraction" where
  "do_write env w st =
     (if av_writes env (ex_ops st) w then None else Some WriteFailed, st\<lparr>ex_ops := ex_ops st @ [w]\<rparr>)"

text \<open>
  A file is written below its directory, which is made when it is missing; both are operations
  of the file system, and the file is not begun when the directory cannot be made.
\<close>

definition write_archive_file :: "archive_env \<Rightarrow> string \<Rightarrow> tar_entry \<Rightarrow> extraction \<Rightarrow> archive_error option \<times> extraction" where
  "write_archive_file env target e st =
     (case do_write env (MakeDirs (dir_path target)) st of
        (Some x, st') \<Rightarrow> (Some x, st')
      | (None, st') \<Rightarrow> do_write env (CreateFile target (te_size e) (te_executable e)) st')"

definition trim_prefix :: "string \<Rightarrow> string \<Rightarrow> string" where
  "trim_prefix s p = (if has_prefix s p then drop (length p) s else s)"

definition allowed_path :: "string \<Rightarrow> bool" where
  "allowed_path relative \<longleftrightarrow> relative = ''one'' \<or> relative = ''script-registry''
     \<or> relative = ''script-registry/bundled'' \<or> has_prefix relative ''script-registry/bundled/''"

text \<open>The sizes of regular files are added up before it is decided whether a file is written.\<close>

definition account_entry :: "64 word \<Rightarrow> tar_entry \<Rightarrow> 64 word \<Rightarrow> archive_error + 64 word" where
  "account_entry limit e expanded =
     (case te_type e of
        TypeDir \<Rightarrow> Inr expanded
      | TypeReg \<Rightarrow>
          if sint (te_size e) < 0 then Inl NegativeSize
          else let expanded = expanded + te_size e in
               if sint expanded > sint limit then Inl TooLarge else Inr expanded
      | TypeOther \<Rightarrow> Inl UnsupportedEntry)"

definition place_entry :: "archive_env \<Rightarrow> string \<Rightarrow> tar_entry \<Rightarrow> string \<Rightarrow> extraction \<Rightarrow> archive_error option \<times> extraction" where
  "place_entry env destination e relative st =
     (if relative = [] then (if te_type e \<noteq> TypeDir then Some RootNotDirectory else None, st)
      else if \<not> allowed_path relative then (None, st)
      else let target = join_path [destination, relative] in
           if \<not> path_within destination target then (Some EscapesRoot, st)
           else (case te_type e of
                   TypeDir \<Rightarrow> do_write env (MakeDirs target) st
                 | TypeReg \<Rightarrow> write_archive_file env target e st
                 | TypeOther \<Rightarrow> (None, st)))"

definition extract_entry :: "archive_env \<Rightarrow> string \<Rightarrow> 64 word \<Rightarrow> tar_entry \<Rightarrow> extraction \<Rightarrow> archive_error option \<times> extraction" where
  "extract_entry env destination limit e st =
     (let st = st\<lparr>ex_count := ex_count st + 1\<rparr>;
          name = trim_space (te_name e);
          cleaned = clean name
      in if ex_count st > maxArchiveFiles then (Some TooManyEntries, st)
         else if name = [] \<or> CHR 0x5C \<in> set name \<or> is_abs name then (Some UnsafePath, st)
         else if cleaned = ''.'' \<or> cleaned = ''..'' \<or> has_prefix cleaned ''../'' then (Some UnsafePath, st)
         else let first = hd (split_on CHR ''/'' cleaned);
                  root = (if ex_root st = [] then first else ex_root st);
                  relative = trim_prefix (trim_prefix cleaned root) ''/''
              in if first \<noteq> root then (Some SeveralRoots, st)
                 else (case account_entry limit e (ex_expanded st) of
                         Inl x \<Rightarrow> (Some x, st)
                       | Inr expanded \<Rightarrow> place_entry env destination e relative (st\<lparr>ex_root := root, ex_expanded := expanded\<rparr>)))"

text \<open>\<open>None\<close> in the list is an error of \<open>reader.Next\<close>, its end is \<open>io.EOF\<close>.\<close>

fun extract_entries :: "archive_env \<Rightarrow> string \<Rightarrow> 64 word \<Rightarrow> tar_entry option list \<Rightarrow> extraction \<Rightarrow> archive_error option \<times> extraction" where
  "extract_entries env destination limit [] st = (None, st)"
| "extract_entries env destination limit (None # es) st = (Some ArchiveRead, st)"
| "extract_entries env destination limit (Some e # es) st =
     (case extract_entry env destination limit e st of
        (Some x, st') \<Rightarrow> (Some x, st')
      | (None, st') \<Rightarrow> extract_entries env destination limit es st')"

definition check_payload :: "archive_env \<Rightarrow> string \<Rightarrow> write_op list \<Rightarrow> archive_error option" where
  "check_payload env destination ops =
     (case av_stat env ops (join_path [destination, ''one'']) of
        None \<Rightarrow> Some NoBinary
      | Some binary \<Rightarrow>
          if \<not> fi_regular binary then Some NoBinary
          else if \<not> fi_executable binary then Some BinaryNotExecutable
          else (case av_stat env ops (join_path [destination, ''script-registry'', ''bundled'']) of
                  None \<Rightarrow> Some NoBundled
                | Some bundled \<Rightarrow> if fi_dir bundled then None else Some NoBundled))"

definition no_extraction :: extraction where
  "no_extraction = \<lparr>ex_root = [], ex_expanded = 0, ex_count = 0, ex_ops = []\<rparr>"

definition extract_release :: "archive_env \<Rightarrow> string \<Rightarrow> 64 word \<Rightarrow> tar_entry option list \<Rightarrow> archive_error option \<times> write_op list" where
  "extract_release env destination limit entries =
     (case extract_entries env destination limit entries no_extraction of
        (Some x, st) \<Rightarrow> (Some x, ex_ops st)
      | (None, st) \<Rightarrow> (check_payload env destination (ex_ops st), ex_ops st))"

section \<open>Where an archive is unpacked to\<close>

text \<open>
  The tail of a relative path inside the archive, as elements: the program file, or the
  directory of bundled scripts and what is below it.  The directory of the program file is the
  destination itself.
\<close>

definition release_path :: "string list \<Rightarrow> bool" where
  "release_path es \<longleftrightarrow> list_all plain_element es
     \<and> (es = [''one''] \<or> es = [''script-registry''] \<or> prefix [''script-registry'', ''bundled''] es)"

definition confined :: "string \<Rightarrow> write_op \<Rightarrow> bool" where
  "confined destination w \<longleftrightarrow> is_abs (op_path w)
     \<and> (\<exists>es. elements (op_path w) = elements destination @ es
          \<and> (release_path es \<or> es = [] \<and> w = MakeDirs (op_path w)))"

text \<open>The part of a cleaned path after its first element.\<close>

lemma trim_root:
  assumes "list_all plain_element (r # es)"
  shows "trim_prefix (trim_prefix (join_with CHR ''/'' (r # es)) r) ''/'' = join_with CHR ''/'' es"
proof (cases es)
  case Nil
  then show ?thesis by (simp add: trim_prefix_def)
next
  case (Cons e es')
  then show ?thesis by (simp add: trim_prefix_def)
qed

lemma allowed_release_path:
  assumes "list_all plain_element es" "es \<noteq> []" "allowed_path (join_with CHR ''/'' es)"
  shows "release_path es"
proof -
  let ?s = "''script-registry''" and ?b = "''bundled''"
  have split: "split_on CHR ''/'' (join_with CHR ''/'' es) = es"
    using assms(1,2) by (intro split_join) (auto simp: list_all_iff plain_element_def)
  from assms(3) consider "join_with CHR ''/'' es = ''one''" | "join_with CHR ''/'' es = ?s"
    | "join_with CHR ''/'' es = ?s @ CHR ''/'' # ?b" | rest where "join_with CHR ''/'' es = ?s @ CHR ''/'' # ?b @ CHR ''/'' # rest"
    by (auto simp: allowed_path_def prefix_def)
  then show ?thesis
  proof cases
    case 1
    then show ?thesis using split assms(1) by (simp add: release_path_def)
  next
    case 2
    then show ?thesis using split assms(1) by (simp add: release_path_def)
  next
    case 3
    then have "es = [?s, ?b]" using split by simp
    then show ?thesis using assms(1) by (simp add: release_path_def)
  next
    case (4 rest)
    then have "es = ?s # ?b # split_on CHR ''/'' rest" using split by (simp add: split_append)
    then show ?thesis using assms(1) by (simp add: release_path_def)
  qed
qed

lemma release_path_dir:
  assumes "release_path es"
  shows "release_path (butlast es) \<or> butlast es = []"
proof -
  consider "es = [''one'']" | "es = [''script-registry'']" | fs where "es = ''script-registry'' # ''bundled'' # fs"
    using assms by (auto simp: release_path_def prefix_def)
  then show ?thesis
  proof cases
    case (3 fs)
    then show ?thesis using assms by (cases fs rule: rev_cases) (auto simp: release_path_def butlast_append)
  qed auto
qed

lemma do_write_ops: "do_write env w st = (x, st') \<Longrightarrow> ex_ops st' = ex_ops st @ [w]"
  by (auto simp: do_write_def)

text \<open>The operations one entry adds.\<close>

definition adds :: "string \<Rightarrow> extraction \<Rightarrow> extraction \<Rightarrow> bool" where
  "adds destination st st' \<longleftrightarrow> (\<exists>ws. ex_ops st' = ex_ops st @ ws \<and> list_all (confined destination) ws)"

lemma adds_refl [simp]: "ex_ops st' = ex_ops st \<Longrightarrow> adds destination st st'"
  by (auto simp: adds_def)

lemma adds_trans: "adds destination st st1 \<Longrightarrow> adds destination st1 st2 \<Longrightarrow> adds destination st st2"
  by (auto simp: adds_def)

lemma do_write_adds: "do_write env w st = (x, st') \<Longrightarrow> confined destination w \<Longrightarrow> adds destination st st'"
  by (auto simp: adds_def dest: do_write_ops)

lemma write_archive_file_adds:
  assumes "write_archive_file env target e st = (x, st')" "confined destination (MakeDirs (dir_path target))"
    "\<And>n b. confined destination (CreateFile target n b)"
  shows "adds destination st st'"
  using assms by (auto simp: write_archive_file_def split: prod.splits option.splits
      intro: do_write_adds adds_trans [OF do_write_adds do_write_adds])

lemma place_entry_adds:
  assumes "place_entry env destination e (join_with CHR ''/'' es) st = (x, st')" "is_abs destination" "list_all plain_element es"
  shows "adds destination st st'"
proof (cases "join_with CHR ''/'' es = [] \<or> \<not> allowed_path (join_with CHR ''/'' es)")
  case True
  then show ?thesis using assms(1) by (auto simp: place_entry_def split: if_splits)
next
  case False
  let ?target = "join_path [destination, join_with CHR ''/'' es]"
  have ne: "es \<noteq> []" using False by auto
  have rel: "release_path es" using allowed_release_path [OF assms(3) ne] False by blast
  have target: "confined destination w" if "op_path w = ?target" for w
    unfolding confined_def that elements_join [OF assms(2) ne assms(3)]
    using rel elements_join(2) [OF assms(2) ne assms(3)] by blast
  have up: "confined destination (MakeDirs (dir_path ?target))"
    using dir_join_path [OF assms(2) ne assms(3)] release_path_dir [OF rel] by (auto simp: confined_def)
  show ?thesis
    using assms(1) False target up write_archive_file_adds [OF _ up]
    by (auto simp: place_entry_def Let_def intro: do_write_adds split: if_splits entry_type.splits)
qed

lemma extract_entry_adds:
  assumes "extract_entry env destination limit e st = (x, st')" "is_abs destination"
  shows "adds destination st st'"
proof -
  let ?name = "trim_space (te_name e)"
  let ?cleaned = "clean ?name"
  let ?refused = "Suc (ex_count st) > maxArchiveFiles \<or> ?name = [] \<or> CHR 0x5C \<in> set ?name \<or> is_abs ?name
    \<or> ?cleaned = ''.'' \<or> ?cleaned = ''..'' \<or> has_prefix ?cleaned ''../''"
  show ?thesis
  proof (cases ?refused)
    case True
    then show ?thesis using assms(1) by (auto simp: extract_entry_def Let_def split: if_splits)
  next
    case False
    then have name: "\<not> is_abs ?name" "?cleaned \<noteq> ''.''" "?cleaned \<noteq> ''..''" "\<not> has_prefix ?cleaned ''../''" by auto
    obtain r es where el: "elements ?name = r # es" using split_clean_relative(2) [OF name] by (cases "elements ?name") auto
    have plain: "list_all plain_element (r # es)" using split_clean_relative(3) [OF name] el by simp
    have cleaned: "?cleaned = join_with CHR ''/'' (r # es)" using name(1) el by (simp add: clean_def)
    have first: "hd (split_on CHR ''/'' ?cleaned) = r" using split_clean_relative(1) [OF name] el by simp
    let ?root = "if ex_root st = [] then r else ex_root st"
    show ?thesis
    proof (cases "r = ?root")
      case same: True
      have rel: "trim_prefix (trim_prefix ?cleaned r) ''/'' = join_with CHR ''/'' es"
        unfolding cleaned by (rule trim_root [OF plain])
      let ?st = "st\<lparr>ex_count := ex_count st + 1\<rparr>"
      have eq: "extract_entry env destination limit e st =
          (case account_entry limit e (ex_expanded st) of Inl y \<Rightarrow> (Some y, ?st)
           | Inr expanded \<Rightarrow> place_entry env destination e (join_with CHR ''/'' es) (?st\<lparr>ex_root := r, ex_expanded := expanded\<rparr>))"
        using False same rel first
        by (cases "ex_root st = []") (auto simp: extract_entry_def Let_def split: sum.split)
      show ?thesis
      proof (cases "account_entry limit e (ex_expanded st)")
        case (Inr expanded)
        then show ?thesis
          using place_entry_adds [OF _ assms(2), of env e es "?st\<lparr>ex_root := r, ex_expanded := expanded\<rparr>" x st'] plain assms(1)
          unfolding eq by (simp add: adds_def)
      qed (use assms(1) eq in auto)
    next
      case False
      then show ?thesis using assms(1) \<open>\<not> ?refused\<close> by (auto simp: extract_entry_def Let_def first split: if_splits)
    qed
  qed
qed

lemma extract_entries_adds:
  assumes "is_abs destination"
  shows "extract_entries env destination limit entries st = (x, st') \<Longrightarrow> adds destination st st'"
proof (induction entries arbitrary: st)
  case (Cons entry entries)
  show ?case
  proof (cases entry)
    case None
    then show ?thesis using Cons.prems by simp
  next
    case (Some e)
    obtain y st1 where one: "extract_entry env destination limit e st = (y, st1)" by fastforce
    note step = extract_entry_adds [OF one assms]
    show ?thesis using Cons.prems Cons.IH [of st1] step Some one by (cases y) (auto intro: adds_trans)
  qed
qed simp

lemma extract_release_confined:
  assumes "is_abs destination" "extract_release env destination limit entries = (x, ops)"
  shows "list_all (confined destination) ops"
proof -
  obtain y st where run: "extract_entries env destination limit entries no_extraction = (y, st)" by fastforce
  have "ops = ex_ops st" using assms(2) run by (auto simp: extract_release_def split: option.splits)
  then show ?thesis using extract_entries_adds [OF assms(1) run] by (auto simp: no_extraction_def adds_def)
qed

text \<open>
  C20: Unpacking stays inside its directory.  Whatever the archive contains and wherever it
  fails, every directory made and every file written, the failed attempt included, is reached
  from the destination by elements none of which climbs; it is the program file or belongs to
  the bundled scripts, except that the destination itself, as the directory of the program file,
  may be made again.
\<close>

theorem unpacking_is_confined:
  assumes "is_abs destination" and "extract_release env destination limit entries = (x, ops)" and "w \<in> set ops"
  shows "\<exists>es. elements (op_path w) = elements destination @ es \<and> list_all plain_element es
    \<and> (es = [''one''] \<or> es = [''script-registry''] \<or> prefix [''script-registry'', ''bundled''] es
        \<or> es = [] \<and> w = MakeDirs (op_path w))"
  using extract_release_confined [OF assms(1,2)] assms(3) by (auto simp: list_all_iff confined_def release_path_def)

definition demo_archive :: "tar_entry option list" where
  "demo_archive = map Some
     [\<lparr>te_name = ''r'', te_type = TypeDir, te_size = 0, te_executable = True\<rparr>,
      \<lparr>te_name = ''r/one'', te_type = TypeReg, te_size = 7, te_executable = True\<rparr>,
      \<lparr>te_name = ''r/script-registry/bundled/../../../etc'', te_type = TypeReg, te_size = 7, te_executable = True\<rparr>]"

definition demo_archive_env :: archive_env where
  "demo_archive_env = \<lparr>av_writes = (\<lambda>_ _. True), av_stat = (\<lambda>_ _. None)\<rparr>"

lemma demo_archive_paths:
  "trim_space ''r'' = ''r''" "trim_space ''r/one'' = ''r/one''"
  "trim_space ''r/script-registry/bundled/../../../etc'' = ''r/script-registry/bundled/../../../etc''"
  "clean ''r'' = ''r''" "clean ''r/one'' = ''r/one''" "clean ''r/script-registry/bundled/../../../etc'' = ''etc''"
  "join_path [''/d'', ''one''] = ''/d/one''" "path_within ''/d'' ''/d/one''" "dir_path ''/d/one'' = ''/d''"
  by (simp_all add: go_simps path_eval)

lemma demo_archive_run: "extract_release demo_archive_env ''/d'' 100 demo_archive = (Some SeveralRoots, [MakeDirs ''/d'', CreateFile ''/d/one'' 7 True])"
  by (simp add: extract_release_def demo_archive_def extract_entry_def demo_archive_paths trim_prefix_def account_entry_def
      place_entry_def allowed_path_def do_write_def write_archive_file_def demo_archive_env_def no_extraction_def)

theorem unpacking_is_confined_witness:
  "\<exists>es. elements ''/d/one'' = elements ''/d'' @ es \<and> list_all plain_element es
    \<and> (es = [''one''] \<or> es = [''script-registry''] \<or> prefix [''script-registry'', ''bundled''] es
        \<or> es = [] \<and> CreateFile ''/d/one'' 7 True = MakeDirs ''/d/one'')"
  using unpacking_is_confined [OF _ demo_archive_run, of "CreateFile ''/d/one'' 7 True"] by simp

section \<open>How much is unpacked\<close>

fun written :: "write_op list \<Rightarrow> int" where
  "written [] = 0"
| "written (MakeDirs _ # ws) = written ws"
| "written (CreateFile _ n _ # ws) = sint n + written ws"

lemma written_append [simp]: "written (xs @ ys) = written xs + written ys"
  by (induction xs rule: written.induct) auto

lemma sint_add: "0 \<le> sint a \<Longrightarrow> 0 \<le> sint b \<Longrightarrow> sint a + sint b < 2 ^ 63 \<Longrightarrow> sint (a + b) = sint a + sint (b :: 64 word)"
  by (simp add: sint_word_ariths signed_take_bit_int_eq_self)

definition within_budget :: "64 word \<Rightarrow> extraction \<Rightarrow> bool" where
  "within_budget limit st \<longleftrightarrow> written (ex_ops st) \<le> sint (ex_expanded st) \<and> 0 \<le> sint (ex_expanded st)
     \<and> sint (ex_expanded st) \<le> sint limit \<and> length (ex_ops st) \<le> 2 * ex_count st \<and> length (ex_ops st) \<le> 2 * maxArchiveFiles"

lemma extract_entry_cases:
  assumes run: "extract_entry env destination limit e st = (x, st')"
  obtains (refused) "st' = st\<lparr>ex_count := ex_count st + 1\<rparr>"
  | (placed) root expanded relative where "ex_count st + 1 \<le> maxArchiveFiles" "account_entry limit e (ex_expanded st) = Inr expanded"
      "place_entry env destination e relative (st\<lparr>ex_count := ex_count st + 1, ex_root := root, ex_expanded := expanded\<rparr>) = (x, st')"
proof -
  let ?st = "st\<lparr>ex_count := ex_count st + 1\<rparr>" and ?cleaned = "clean (trim_space (te_name e))"
  let ?first = "hd (split_on CHR ''/'' ?cleaned)"
  define root where "root = (if ex_root ?st = [] then ?first else ex_root ?st)"
  note unfolded = run [unfolded extract_entry_def Let_def, folded root_def]
  consider "st' = ?st" | "ex_count ?st \<le> maxArchiveFiles" "(case account_entry limit e (ex_expanded ?st) of Inl y \<Rightarrow> (Some y, ?st)
      | Inr expanded \<Rightarrow> place_entry env destination e (trim_prefix (trim_prefix ?cleaned root) ''/'')
          (?st\<lparr>ex_root := root, ex_expanded := expanded\<rparr>)) = (x, st')"
    using unfolded by (metis linorder_not_less prod.inject)
  then show thesis
  proof cases
    case 2
    then show thesis using refused placed by (cases "account_entry limit e (ex_expanded ?st)") auto
  qed (rule refused)
qed

lemma account_entry_Inr:
  assumes "account_entry limit e expanded = Inr expanded'" "0 \<le> sint expanded" "sint expanded \<le> 2 ^ 62" "sint (te_size e) < 2 ^ 62"
  shows "te_type e = TypeReg \<Longrightarrow> 0 \<le> sint (te_size e) \<and> sint expanded' = sint expanded + sint (te_size e) \<and> sint expanded' \<le> sint limit"
    and "te_type e \<noteq> TypeReg \<Longrightarrow> expanded' = expanded"
  using assms sint_add [of expanded "te_size e"]
  by (auto simp: account_entry_def Let_def split: entry_type.splits if_splits)

lemma place_entry_cases:
  assumes "place_entry env destination e relative st = (x, st')"
  shows "ex_expanded st' = ex_expanded st" "ex_count st' = ex_count st"
    "\<exists>ws. ex_ops st' = ex_ops st @ ws \<and> length ws \<le> 2
       \<and> (te_type e = TypeReg \<longrightarrow> 0 \<le> sint (te_size e) \<longrightarrow> written ws \<le> sint (te_size e)) \<and> (te_type e \<noteq> TypeReg \<longrightarrow> written ws = 0)"
  using assms
  by (auto simp: place_entry_def Let_def do_write_def write_archive_file_def split: if_splits entry_type.splits)

lemma extract_entry_budget:
  assumes "within_budget limit st" "extract_entry env destination limit e st = (x, st')" "sint limit \<le> 2 ^ 62" "sint (te_size e) < 2 ^ 62"
  shows "within_budget limit st'"
  using assms(2)
proof (cases rule: extract_entry_cases)
  case refused
  then show ?thesis using assms(1) by (auto simp: within_budget_def)
next
  case (placed root expanded relative)
  have bounds: "0 \<le> sint (ex_expanded st)" "sint (ex_expanded st) \<le> 2 ^ 62" using assms(1,3) by (auto simp: within_budget_def)
  note a = account_entry_Inr [OF placed(2) bounds assms(4)] and p = place_entry_cases [OF placed(3)]
  show ?thesis
  proof (cases "te_type e = TypeReg")
    case True
    then show ?thesis using a(1) p placed assms(1) by (auto simp: within_budget_def)
  next
    case False
    then show ?thesis using a(2) p placed assms(1) by (auto simp: within_budget_def)
  qed
qed

lemma extract_entries_budget:
  "within_budget limit st \<Longrightarrow> extract_entries env destination limit entries st = (x, st') \<Longrightarrow> sint limit \<le> 2 ^ 62
     \<Longrightarrow> (\<And>e. Some e \<in> set entries \<Longrightarrow> sint (te_size e) < 2 ^ 62) \<Longrightarrow> within_budget limit st'"
proof (induction entries arbitrary: st)
  case (Cons entry entries)
  show ?case
  proof (cases entry)
    case (Some e)
    obtain y st1 where one: "extract_entry env destination limit e st = (y, st1)" by fastforce
    have "within_budget limit st1"
      using extract_entry_budget [OF Cons.prems(1) one Cons.prems(3)] Cons.prems(4) [of e] Some by simp
    then show ?thesis using Cons.IH Cons.prems Some one by (cases y) auto
  qed (use Cons.prems in auto)
qed simp

text \<open>
  Unpacking is bounded.  Whatever the archive contains and wherever it fails, no more bytes
  are written than the limit allows and no more than 40000 operations are made, two for a file.  The running
  sum is a signed 64-bit number, so the bound needs sizes and a limit that cannot wrap it; a
  file of more than four exabytes cannot be in a package of the allowed size.
\<close>

theorem unpacking_is_bounded:
  assumes "0 \<le> sint limit" and "sint limit \<le> 2 ^ 62" and "\<And>e. Some e \<in> set entries \<Longrightarrow> sint (te_size e) < 2 ^ 62"
    and "extract_release env destination limit entries = (x, ops)"
  shows "written ops \<le> sint limit \<and> length ops \<le> 40000"
proof -
  obtain y st where run: "extract_entries env destination limit entries no_extraction = (y, st)" by fastforce
  have "ops = ex_ops st" using assms(4) run by (auto simp: extract_release_def split: option.splits)
  moreover have "within_budget limit st"
    by (rule extract_entries_budget [OF _ run assms(2,3)]) (use assms(1) in \<open>auto simp: within_budget_def no_extraction_def\<close>)
  ultimately show ?thesis by (auto simp: within_budget_def)
qed

theorem unpacking_is_bounded_witness: "written [MakeDirs ''/d'', CreateFile ''/d/one'' 7 True] \<le> 100 \<and> length [MakeDirs ''/d'', CreateFile ''/d/one'' 7 True] \<le> 40000"
proof -
  have "sint (te_size e) < 2 ^ 62" if "Some e \<in> set demo_archive" for e
    using that by (auto simp: demo_archive_def)
  from unpacking_is_bounded [OF _ _ this demo_archive_run] show ?thesis by simp
qed

end
