(* ===== verification/Update_Install.thy ===== *)
theory Update_Install
  imports Panel_Update Release_Archive
begin

text \<open>
  Installing an update (\<open>internal/services/panelupdate/manager.go\<close>): the part of \<open>Apply\<close> that
  brings a release from the check to the unpacked and tested candidate, the journal of the
  transaction as it is read back after a crash, and the rollback.  What the file system, the
  service manager and the candidate answer is a parameter; the operations that change the
  installation are recorded in a trace.
\<close>

section \<open>Staging a release\<close>

datatype stage_error = LockUnavailable | ErrRecoveryNeeded | JournalUnreadable | StatusWriteFailed string
  | CheckFailed update_error | ErrNoUpdate | StagingFailed | DownloadRefused | DownloadStatus int
  | ContentLengthTooLarge | DestinationFailed | BodyFailed | SizeMismatch | DigestMismatch
  | ArchiveRefused archive_error | CandidateFailed | CandidateVersion | CandidateSilent

text \<open>
  The answer to the download: the declared length (-1 when unknown), and the body or a failure
  to read it.  \<open>sh_journal\<close> is \<open>os.Stat\<close> on the journal: \<open>None\<close> when it fails otherwise than with
  \<open>ErrNotExist\<close>.  \<open>sh_status\<close> says for each written state whether the write succeeds.
  \<open>sh_version\<close> is what running a program with the argument \<open>version\<close> prints, by its path and what
  has been unpacked; \<open>None\<close> is a failed run.
\<close>

datatype download = DownloadError | Download int int "string option"

record stage_host =
  sh_lock :: bool
  sh_journal :: "bool option"
  sh_status :: "string \<Rightarrow> bool"
  sh_mkdir :: "string \<Rightarrow> bool"
  sh_download :: "string \<Rightarrow> download"
  sh_store :: bool
  sh_untar :: "string \<Rightarrow> tar_entry option list"
  sh_archive :: archive_env
  sh_version :: "write_op list \<Rightarrow> string \<Rightarrow> string option"

abbreviation "StateChecking \<equiv> ''checking''"
abbreviation "StateDownloading \<equiv> ''downloading''"
abbreviation "StatePreflight \<equiv> ''preflight''"
abbreviation "StateSwitching \<equiv> ''switching''"
abbreviation "StateHealthChecking \<equiv> ''health_checking''"
abbreviation "StateSucceeded \<equiv> ''succeeded''"
abbreviation "StateFailed \<equiv> ''failed''"
abbreviation "StateRolledBack \<equiv> ''rolled_back''"
abbreviation "StateRollbackFailed \<equiv> ''rollback_failed''"

definition update_root :: "update_config \<Rightarrow> string" where
  "update_root cfg = join_path [uc_install_dir cfg, ''updates'']"

text \<open>\<open>io.LimitReader\<close> lets one byte more than the signed size pass; the content is what was written.\<close>

definition download_artifact :: "update_env \<Rightarrow> stage_host \<Rightarrow> update_config \<Rightarrow> artifact \<Rightarrow> stage_error + string" where
  "download_artifact env host cfg a =
     (if ue_parse_url env (at_url a) = None then Inl DownloadRefused
      else (case sh_download host (at_url a) of
              DownloadError \<Rightarrow> Inl DownloadRefused
            | Download status content_length body \<Rightarrow>
                if status \<noteq> 200 then Inl (DownloadStatus status)
                else if content_length > at_size a \<or> content_length > uc_max_package_bytes cfg
                then Inl ContentLengthTooLarge
                else if \<not> sh_store host then Inl DestinationFailed
                else (case body of
                        None \<Rightarrow> Inl BodyFailed
                      | Some content \<Rightarrow>
                          let content = take (nat (at_size a + 1)) content in
                          if int (length content) \<noteq> at_size a then Inl SizeMismatch
                          else if format_hex (ue_sha256 env content) \<noteq> at_sha256 a then Inl DigestMismatch
                          else Inr content)))"

fun version_line :: "string list \<Rightarrow> string option" where
  "version_line [] = None"
| "version_line (l # ls) =
     (if has_prefix (trim_space l) ''Version:'' then Some (trim_space (trim_prefix (trim_space l) ''Version:''))
      else version_line ls)"

definition verify_candidate :: "update_env \<Rightarrow> string option \<Rightarrow> string \<Rightarrow> stage_error + unit" where
  "verify_candidate env output expected =
     (case output of
        None \<Rightarrow> Inl CandidateFailed
      | Some text \<Rightarrow>
          (case version_line (split_on CHR 0x0A text) of
             None \<Rightarrow> Inl CandidateSilent
           | Some version \<Rightarrow>
               if canonical_version env version \<noteq> canonical_version env expected then Inl CandidateVersion else Inr ()))"

record staged =
  sg_manifest :: manifest
  sg_artifact :: artifact
  sg_content :: string
  sg_ops :: "write_op list"

text \<open>
  \<open>Apply\<close> up to the snapshot.  The trust file changes with the check, whatever follows.
\<close>

definition stage_update :: "update_env \<Rightarrow> center \<Rightarrow> (nat \<Rightarrow> time) \<Rightarrow> string \<Rightarrow> stage_host \<Rightarrow> update_config
    \<Rightarrow> trust_file engine \<Rightarrow> (stage_error + staged) \<times> trust_file engine" where
  "stage_update env ct clock operation_id host cfg s =
     (if \<not> sh_lock host then (Inl LockUnavailable, s)
      else if sh_journal host = Some True then (Inl ErrRecoveryNeeded, s)
      else if sh_journal host = None then (Inl JournalUnreadable, s)
      else if \<not> sh_status host StateChecking then (Inl (StatusWriteFailed StateChecking), s)
      else (case check_update env ct clock cfg s of
              (out, s') \<Rightarrow>
                (case (co_error out, co_manifest out, co_artifact out) of
                   (None, Some m, Some a) \<Rightarrow>
                     let staging = join_path [update_root cfg, ''staging'', operation_id];
                         payload = join_path [staging, ''payload'']
                     in if \<not> cr_update_available (co_result out) then (Inl ErrNoUpdate, s')
                        else if \<not> sh_status host StateDownloading then (Inl (StatusWriteFailed StateDownloading), s')
                        else if \<not> sh_mkdir host staging then (Inl StagingFailed, s')
                        else (case download_artifact env host cfg a of
                                Inl e \<Rightarrow> (Inl e, s')
                              | Inr content \<Rightarrow>
                                  if \<not> sh_mkdir host payload then (Inl StagingFailed, s')
                                  else (case extract_release (sh_archive host) payload
                                               (word_of_int (uc_max_expanded_bytes cfg)) (sh_untar host content) of
                                          (Some e, ops) \<Rightarrow> (Inl (ArchiveRefused e), s')
                                        | (None, ops) \<Rightarrow>
                                            (case verify_candidate env (sh_version host ops (join_path [payload, ''one''])) (mf_version m) of
                                               Inl e \<Rightarrow> (Inl e, s')
                                             | Inr _ \<Rightarrow> (Inr \<lparr>sg_manifest = m, sg_artifact = a, sg_content = content,
                                                              sg_ops = ops\<rparr>, s'))))
                 | (Some e, _, _) \<Rightarrow> (Inl (CheckFailed e), s')
                 | _ \<Rightarrow> (Inl ErrNoUpdate, s'))))"

section \<open>The journal\<close>

record update_snapshot =
  sn_operation_id :: string
  sn_backup_path :: string
  sn_previous_target :: string
  sn_old_bundled_path :: string
  sn_bundled_switch_plan :: bool
  sn_bundled_had_old :: bool
  sn_bundled_switched :: bool
  sn_target_release_path :: string
  sn_was_active :: bool
  sn_files :: "(string \<times> string) list"
  sn_managed_files :: "string list"

datatype journal_error = JournalRead | JournalDecode | UnsafeBackupPath | InvalidOperationId
  | UnsafePreviousTarget | UnsafeTargetRelease | UnsafeBundledBackup | UnsafeManagedFile | UnsafeLiveFile
  | UnsafeBackupFile

definition managed_names :: "string list" where
  "managed_names = [''config.yaml'', ''myadmin.db'', ''myadmin.db-wal'', ''myadmin.db-shm'']"

definition allowed_managed :: "string \<Rightarrow> string list" where
  "allowed_managed install = map (\<lambda>n. join_path [install, n]) managed_names"

text \<open>\<open>content\<close> is the journal file: \<open>None\<close> unreadable, \<open>Some None\<close> not decodable.\<close>

definition read_journal :: "update_config \<Rightarrow> update_snapshot option option \<Rightarrow> journal_error + update_snapshot" where
  "read_journal cfg content =
     (case content of
        None \<Rightarrow> Inl JournalRead
      | Some None \<Rightarrow> Inl JournalDecode
      | Some (Some sn) \<Rightarrow>
          let install = uc_install_dir cfg;
              backup_root = join_path [update_root cfg, ''backups''];
              releases_root = join_path [install, ''releases''];
              bundled_parent = join_path [install, ''script-registry'']
          in if sn_backup_path sn = clean backup_root \<or> \<not> path_within backup_root (sn_backup_path sn)
             then Inl UnsafeBackupPath
             else if sn_operation_id sn = [] \<or> base_name (sn_operation_id sn) \<noteq> sn_operation_id sn
                 \<or> base_name (sn_backup_path sn) \<noteq> sn_operation_id sn
             then Inl InvalidOperationId
             else if sn_previous_target sn \<noteq> []
                 \<and> (is_abs (sn_previous_target sn) \<or> \<not> path_within releases_root (join_path [install, sn_previous_target sn]))
             then Inl UnsafePreviousTarget
             else if sn_target_release_path sn \<noteq> []
                 \<and> (sn_target_release_path sn = clean releases_root \<or> \<not> path_within releases_root (sn_target_release_path sn))
             then Inl UnsafeTargetRelease
             else if sn_old_bundled_path sn \<noteq> []
                 \<and> (\<not> path_within bundled_parent (sn_old_bundled_path sn)
                    \<or> \<not> has_prefix (base_name (sn_old_bundled_path sn)) ''.bundled.old-'')
             then Inl UnsafeBundledBackup
             else if \<not> list_all (\<lambda>live. live \<in> set (allowed_managed install)) (sn_managed_files sn)
             then Inl UnsafeManagedFile
             else if \<not> list_all (\<lambda>(live, backup). live \<in> set (allowed_managed install) \<or> live = join_path [install, ''one''])
                       (sn_files sn)
             then Inl UnsafeLiveFile
             else if \<not> list_all (\<lambda>(live, backup). path_within (sn_backup_path sn) backup) (sn_files sn)
             then Inl UnsafeBackupFile
             else Inr sn)"

section \<open>Rollback\<close>

datatype install_op = StopService | StartService | WaitReady
  | RunPreflight string
  | Symlink string string string
  | RemoveAll string | RemoveFile string | Rename string string | CopyFile string string
  | Mkdir string | MkdirAll string | CopyTree string string | WriteFile string string
  | WriteSnapshot string update_snapshot | WriteStatus string string

text \<open>
  The operations on the host during an installation.  What one of them changes: a symbolic link
  goes through a temporary name beside it.
\<close>

fun touched :: "install_op \<Rightarrow> string list" where
  "touched (Symlink target path suf) = [path @ ''.new-'' @ suf, path]"
| "touched (RemoveAll p) = [p]"
| "touched (RemoveFile p) = [p]"
| "touched (Rename p q) = [p, q]"
| "touched (CopyFile p q) = [q]"
| "touched (Mkdir p) = [p]"
| "touched (MkdirAll p) = [p]"
| "touched (CopyTree p q) = [q]"
| "touched (WriteFile p text) = [p]"
| "touched (WriteSnapshot p sn) = [p]"
| "touched (WriteStatus p state) = [p]"
| "touched _ = []"

text \<open>
  The answers of the host after the operations so far: whether an operation succeeds (removing a
  missing file does), whether the service is active, what \<open>os.Lstat\<close> and \<open>os.Stat\<close> say (\<open>None\<close>: an
  error other than \<open>ErrNotExist\<close>; a missing path is \<open>Some None\<close>), the content of a marker file, the
  target of a link, the directories in a directory and the journal (\<open>Some None\<close> when it does not decode).
\<close>

datatype node = Directory | RegularFile | SymbolicLink | OtherNode

record rollback_host =
  rh_ok :: "install_op list \<Rightarrow> install_op \<Rightarrow> bool"
  rh_active :: "install_op list \<Rightarrow> bool"
  rh_lstat :: "install_op list \<Rightarrow> string \<Rightarrow> node option option"
  rh_stat :: "install_op list \<Rightarrow> string \<Rightarrow> node option option"
  rh_read :: "install_op list \<Rightarrow> string \<Rightarrow> string option option"
  rh_readlink :: "install_op list \<Rightarrow> string \<Rightarrow> string option option"
  rh_dirs :: "install_op list \<Rightarrow> string \<Rightarrow> string list option"
  rh_journal :: "install_op list \<Rightarrow> update_snapshot option option"

text \<open>The failures collected and the operations made; a rollback fails when there is a failure.\<close>

type_synonym rollback_state = "string list \<times> install_op list"

definition attempt :: "rollback_host \<Rightarrow> string \<Rightarrow> install_op \<Rightarrow> rollback_state \<Rightarrow> rollback_state" where
  "attempt host failure w st = (fst st @ (if rh_ok host (snd st) w then [] else [failure]), snd st @ [w])"

definition note_failure :: "string \<Rightarrow> rollback_state \<Rightarrow> rollback_state" where
  "note_failure failure st = (fst st @ [failure], snd st)"

definition owned :: "string option option \<Rightarrow> string \<Rightarrow> bool" where
  "owned marker operation_id = (case marker of Some (Some text) \<Rightarrow> trim_space text = operation_id | _ \<Rightarrow> False)"

definition rollback_bundled :: "rollback_host \<Rightarrow> update_config \<Rightarrow> update_snapshot \<Rightarrow> rollback_state \<Rightarrow> rollback_state" where
  "rollback_bundled host cfg sn st =
     (if \<not> sn_bundled_switch_plan sn then st
      else
        let parent = join_path [uc_install_dir cfg, ''script-registry''];
            active = join_path [parent, ''bundled''];
            pending = join_path [parent, ''.bundled.new-'' @ sn_operation_id sn];
            marker_path = join_path [active, ''.update-operation''];
            st = attempt host ''remove pending bundled scripts'' (RemoveAll pending) st
        in if sn_bundled_had_old sn then
             (case rh_lstat host (snd st) (sn_old_bundled_path sn) of
                Some (Some _) \<Rightarrow>
                  let st' = attempt host ''remove new bundled scripts'' (RemoveAll active) st in
                  if rh_ok host (snd st) (RemoveAll active)
                  then attempt host ''restore bundled scripts'' (Rename (sn_old_bundled_path sn) active) st'
                  else st'
              | None \<Rightarrow> note_failure ''inspect bundled backup'' st
              | Some None \<Rightarrow>
                  if sn_bundled_switched sn
                     \<and> (rh_lstat host (snd st) active \<noteq> Some (Some Directory)
                        \<or> owned (rh_read host (snd st) marker_path) (sn_operation_id sn))
                  then note_failure ''bundled script backup is missing'' st else st)
           else if owned (rh_read host (snd st) marker_path) (sn_operation_id sn)
           then attempt host ''remove new bundled scripts'' (RemoveAll active) st
           else if rh_read host (snd st) marker_path = None
           then note_failure ''inspect bundled ownership marker'' st
           else st)"

definition remove_target_release :: "rollback_host \<Rightarrow> update_config \<Rightarrow> string \<Rightarrow> string \<Rightarrow> rollback_state \<Rightarrow> rollback_state" where
  "remove_target_release host cfg target operation_id st =
     (if target = [] then st
      else
        let install = uc_install_dir cfg;
            releases_root = join_path [install, ''releases''];
            target = clean target;
            current = rh_readlink host (snd st) (join_path [install, ''current''])
        in if target = clean releases_root \<or> \<not> path_within releases_root target
           then note_failure ''target release path escapes releases directory'' st
           else if current = None then note_failure ''inspect current release pointer'' st
           else if (case current of Some (Some link) \<Rightarrow> clean (join_path [install, link]) = target | _ \<Rightarrow> False)
           then note_failure ''refusing to remove the active release'' st
           else
             let marker = rh_read host (snd st) (join_path [target, ''.update-operation'']) in
             if marker = Some None then st
             else if marker = None then note_failure ''inspect release ownership marker'' st
             else if \<not> owned marker operation_id then st
             else attempt host ''remove failed release'' (RemoveAll target) st)"

definition restore_file :: "rollback_host \<Rightarrow> update_snapshot \<Rightarrow> string \<Rightarrow> rollback_state \<Rightarrow> rollback_state" where
  "restore_file host sn live st =
     (let st = attempt host ''remove migrated file'' (RemoveFile live) st in
      case map_of (sn_files sn) live of
        None \<Rightarrow> st
      | Some backup \<Rightarrow>
          (case rh_stat host (snd st) backup of
             Some (Some _) \<Rightarrow> attempt host ''restore file'' (CopyFile backup live) st
           | _ \<Rightarrow> note_failure ''stat backup'' st))"

text \<open>Everything but the restart, then the restart of the old version.\<close>

definition rollback_files :: "rollback_host \<Rightarrow> update_config \<Rightarrow> update_snapshot \<Rightarrow> install_op list \<Rightarrow> rollback_state" where
  "rollback_files host cfg sn ops =
     (let st = ([], ops);
          st = (if rh_active host (snd st) then attempt host ''stop service'' StopService st else st);
          st = (if sn_previous_target sn \<noteq> []
                then attempt host ''restore release pointer''
                       (Symlink (sn_previous_target sn) (join_path [uc_install_dir cfg, ''current'']) ''rollback'') st
                else st);
          st = rollback_bundled host cfg sn st;
          st = remove_target_release host cfg (sn_target_release_path sn) (sn_operation_id sn) st
      in fold (restore_file host sn) (sn_managed_files sn) st)"

definition restart_service :: "rollback_host \<Rightarrow> update_snapshot \<Rightarrow> rollback_state \<Rightarrow> rollback_state" where
  "restart_service host sn st =
     (if sn_was_active sn
      then let st' = attempt host ''start old service'' StartService st in
           if rh_ok host (snd st) StartService then attempt host ''old service health check'' WaitReady st' else st'
      else st)"

definition rollback_update :: "rollback_host \<Rightarrow> update_config \<Rightarrow> update_snapshot \<Rightarrow> install_op list \<Rightarrow> rollback_state" where
  "rollback_update host cfg sn ops = restart_service host sn (rollback_files host cfg sn ops)"

end
