(* ===== verification/Update_Apply.thy ===== *)
theory Update_Apply
  imports Update_Install "HOL-Library.AList" "HOL-Library.List_Lexorder" "HOL-Library.Char_ord"
begin

text \<open>
  The update transaction (\<open>internal/services/panelupdate/manager.go\<close>): the rest of \<open>Apply\<close>, from
  the snapshot over the switch of the release to the commit or the rollback, and \<open>RollbackLast\<close>.
  The state of a run is the operations made so far and the snapshot the function holds in
  memory; the journal is among the operations.
\<close>

section \<open>Runs\<close>

datatype install_error = HostFailed install_op | InspectFailed string | Refused string

record txn =
  tx_ops :: "install_op list"
  tx_snapshot :: update_snapshot

type_synonym 'a run = "txn \<Rightarrow> (install_error + 'a) \<times> txn"

definition yields :: "'a \<Rightarrow> 'a run" where
  "yields a st = (Inr a, st)"

definition fails :: "install_error \<Rightarrow> 'a run" where
  "fails e st = (Inl e, st)"

definition andthen :: "'a run \<Rightarrow> ('a \<Rightarrow> 'b run) \<Rightarrow> 'b run" where
  "andthen m f st = (case m st of (Inl e, st') \<Rightarrow> (Inl e, st') | (Inr a, st') \<Rightarrow> f a st')"

definition perform :: "rollback_host \<Rightarrow> install_op \<Rightarrow> unit run" where
  "perform host w st =
     (if rh_ok host (tx_ops st) w then Inr () else Inl (HostFailed w), st\<lparr>tx_ops := tx_ops st @ [w]\<rparr>)"

text \<open>An operation whose error is ignored: \<open>_ = os.Remove(...)\<close>.\<close>

definition quietly :: "install_op \<Rightarrow> unit run" where
  "quietly w st = (Inr (), st\<lparr>tx_ops := tx_ops st @ [w]\<rparr>)"

definition ask :: "(install_op list \<Rightarrow> 'a) \<Rightarrow> 'a run" where
  "ask q st = (Inr (q (tx_ops st)), st)"

definition held :: "update_snapshot run" where
  "held st = (Inr (tx_snapshot st), st)"

definition revise :: "(update_snapshot \<Rightarrow> update_snapshot) \<Rightarrow> unit run" where
  "revise f st = (Inr (), st\<lparr>tx_snapshot := f (tx_snapshot st)\<rparr>)"

fun in_turn :: "('x \<Rightarrow> unit run) \<Rightarrow> 'x list \<Rightarrow> unit run" where
  "in_turn f [] = yields ()"
| "in_turn f (x # xs) = andthen (f x) (\<lambda>_. in_turn f xs)"

section \<open>Snapshot and journal\<close>

definition status_path :: "update_config \<Rightarrow> string" where
  "status_path cfg = join_path [update_root cfg, ''status.json'']"

definition journal_path :: "update_config \<Rightarrow> string" where
  "journal_path cfg = join_path [update_root cfg, ''active-transaction.json'']"

definition transition :: "rollback_host \<Rightarrow> update_config \<Rightarrow> string \<Rightarrow> unit run" where
  "transition host cfg state = perform host (WriteStatus (status_path cfg) state)"

definition write_journal :: "rollback_host \<Rightarrow> update_config \<Rightarrow> update_snapshot \<Rightarrow> unit run" where
  "write_journal host cfg sn =
     andthen (perform host (WriteSnapshot (journal_path cfg) sn)) (\<lambda>_.
     perform host (WriteSnapshot (join_path [sn_backup_path sn, ''snapshot.json'']) sn))"

definition blank_snapshot :: "string \<Rightarrow> string \<Rightarrow> bool \<Rightarrow> update_snapshot" where
  "blank_snapshot operation_id backup_path was_active =
     \<lparr>sn_operation_id = operation_id, sn_backup_path = backup_path, sn_previous_target = [], sn_old_bundled_path = [],
      sn_bundled_switch_plan = False, sn_bundled_had_old = False, sn_bundled_switched = False,
      sn_target_release_path = [], sn_was_active = was_active, sn_files = [], sn_managed_files = []\<rparr>"

text \<open>The parent of the backup directory is \<open>backups\<close>: an operation identifier is a time stamp.\<close>

definition backup_dir :: "update_config \<Rightarrow> string \<Rightarrow> string" where
  "backup_dir cfg operation_id = join_path [update_root cfg, ''backups'', operation_id]"

definition begin_snapshot :: "rollback_host \<Rightarrow> update_config \<Rightarrow> string \<Rightarrow> bool \<Rightarrow> unit run" where
  "begin_snapshot host cfg operation_id was_active =
     andthen (perform host (MkdirAll (join_path [update_root cfg, ''backups'']))) (\<lambda>_.
     andthen (perform host (Mkdir (backup_dir cfg operation_id))) (\<lambda>_.
     andthen (revise (\<lambda>_. blank_snapshot operation_id (backup_dir cfg operation_id) was_active)) (\<lambda>_.
     andthen held (write_journal host cfg))))"

text \<open>The map of the copies is shared by all copies of the snapshot, so an entry stays when a later copy fails.\<close>

definition save_copy :: "rollback_host \<Rightarrow> update_config \<Rightarrow> string \<Rightarrow> unit run" where
  "save_copy host cfg name =
     andthen held (\<lambda>sn.
       let live = join_path [uc_install_dir cfg, name];
           backup = join_path [sn_backup_path sn, ''files'', name]
       in andthen (perform host (CopyFile live backup)) (\<lambda>_.
          revise (\<lambda>sn. sn\<lparr>sn_files := AList.update live backup (sn_files sn)\<rparr>)))"

definition backup_managed :: "rollback_host \<Rightarrow> update_config \<Rightarrow> string \<Rightarrow> unit run" where
  "backup_managed host cfg name =
     (let live = join_path [uc_install_dir cfg, name] in
      andthen (ask (\<lambda>ops. rh_stat host ops live)) (\<lambda>info.
        case info of
          None \<Rightarrow> fails (InspectFailed live)
        | Some None \<Rightarrow> yields ()
        | Some (Some _) \<Rightarrow> save_copy host cfg name))"

definition backup_binary :: "rollback_host \<Rightarrow> update_config \<Rightarrow> unit run" where
  "backup_binary host cfg =
     (let binary = join_path [uc_install_dir cfg, ''one''] in
      andthen (ask (\<lambda>ops. rh_stat host ops binary)) (\<lambda>info.
        case info of
          Some (Some kind) \<Rightarrow> if kind = RegularFile then save_copy host cfg ''one'' else yields ()
        | _ \<Rightarrow> fails (InspectFailed binary)))"

text \<open>The caller's variable is assigned only when everything, the journal included, is written.\<close>

definition populate_snapshot :: "rollback_host \<Rightarrow> update_config \<Rightarrow> unit run" where
  "populate_snapshot host cfg =
     andthen (in_turn (backup_managed host cfg) managed_names) (\<lambda>_.
     andthen (backup_binary host cfg) (\<lambda>_.
     andthen held (\<lambda>sn.
       let full = sn\<lparr>sn_managed_files := allowed_managed (uc_install_dir cfg)\<rparr> in
       andthen (perform host (WriteSnapshot (join_path [sn_backup_path sn, ''snapshot.json'']) full)) (\<lambda>_.
       andthen (write_journal host cfg full) (\<lambda>_.
       revise (\<lambda>_. full))))))"

section \<open>Preflight and release\<close>

definition preflight_copy :: "rollback_host \<Rightarrow> update_config \<Rightarrow> string \<Rightarrow> string \<Rightarrow> unit run" where
  "preflight_copy host cfg root name =
     andthen held (\<lambda>sn.
       case map_of (sn_files sn) (join_path [uc_install_dir cfg, name]) of
         None \<Rightarrow> yields ()
       | Some backup \<Rightarrow>
           andthen (ask (\<lambda>ops. rh_stat host ops backup)) (\<lambda>info.
             case info of
               Some (Some _) \<Rightarrow> perform host (CopyFile backup (join_path [root, name]))
             | _ \<Rightarrow> fails (InspectFailed backup)))"

definition preflight :: "rollback_host \<Rightarrow> update_config \<Rightarrow> unit run" where
  "preflight host cfg =
     andthen held (\<lambda>sn.
       let root = join_path [sn_backup_path sn, ''preflight''] in
       andthen (perform host (MkdirAll root)) (\<lambda>_.
       andthen (in_turn (preflight_copy host cfg root) managed_names) (\<lambda>_.
       perform host (RunPreflight root))))"

definition release_dir :: "rollback_host \<Rightarrow> update_env \<Rightarrow> update_config \<Rightarrow> string \<Rightarrow> string run" where
  "release_dir host env cfg version =
     (let releases_root = join_path [uc_install_dir cfg, ''releases''];
          name = trim_prefix (canonical_version env version) ''v'';
          path = join_path [releases_root, name]
      in andthen (perform host (MkdirAll releases_root)) (\<lambda>_.
         if name = [] \<or> path = releases_root \<or> \<not> path_within releases_root path
         then fails (Refused ''unsafe release path'') else yields path))"

definition newline :: char where
  "newline = CHR 0x0A"

definition promote_release :: "rollback_host \<Rightarrow> string \<Rightarrow> string \<Rightarrow> string \<Rightarrow> unit run" where
  "promote_release host payload release operation_id =
     andthen (ask (\<lambda>ops. rh_stat host ops release)) (\<lambda>info.
       case info of
         Some (Some _) \<Rightarrow> fails (Refused ''release directory already exists'')
       | None \<Rightarrow> fails (InspectFailed release)
       | Some None \<Rightarrow>
           andthen (perform host (WriteFile (join_path [payload, ''.update-operation'']) (operation_id @ [newline]))) (\<lambda>_.
           perform host (Rename payload release)))"

definition ensure_binary_symlink :: "rollback_host \<Rightarrow> update_config \<Rightarrow> string \<Rightarrow> unit run" where
  "ensure_binary_symlink host cfg operation_id =
     (let binary = join_path [uc_install_dir cfg, ''one''];
          target = join_path [''current'', ''one'']
      in andthen (ask (\<lambda>ops. rh_lstat host ops binary = Some (Some SymbolicLink) \<and> rh_readlink host ops binary = Some (Some target))) (\<lambda>linked.
           if linked then yields () else perform host (Symlink target binary operation_id)))"

text \<open>The two branches: a pointer that is there is checked, a missing one is set to a copy of the running version.\<close>

definition existing_layout :: "rollback_host \<Rightarrow> update_config \<Rightarrow> string \<Rightarrow> node \<Rightarrow> string run" where
  "existing_layout host cfg operation_id kind =
     (let install = uc_install_dir cfg;
          current = join_path [install, ''current''];
          releases_root = join_path [install, ''releases'']
      in if kind \<noteq> SymbolicLink then fails (Refused ''current release pointer is not a symbolic link'')
         else andthen (ask (\<lambda>ops. rh_readlink host ops current)) (\<lambda>link.
           case link of
             Some (Some target) \<Rightarrow>
               let resolved = join_path [install, target] in
               if is_abs target \<or> \<not> path_within releases_root resolved
               then fails (Refused ''current release pointer escapes install directory'')
               else andthen (ask (\<lambda>ops. rh_stat host ops (join_path [resolved, ''one'']))) (\<lambda>info.
                      if info \<noteq> Some (Some RegularFile)
                      then fails (Refused ''current release pointer does not contain a regular one binary'')
                      else andthen (ensure_binary_symlink host cfg operation_id) (\<lambda>_. yields target))
           | _ \<Rightarrow> fails (InspectFailed current)))"

definition legacy_name :: "update_env \<Rightarrow> update_config \<Rightarrow> string \<Rightarrow> string" where
  "legacy_name env cfg operation_id =
     ''legacy-'' @ trim_prefix (canonical_version env (uc_current_version cfg)) ''v'' @ ''-'' @ operation_id"

definition legacy_layout :: "rollback_host \<Rightarrow> update_env \<Rightarrow> update_config \<Rightarrow> string \<Rightarrow> string run" where
  "legacy_layout host env cfg operation_id =
     (let install = uc_install_dir cfg;
          current = join_path [install, ''current''];
          legacy = join_path [join_path [install, ''releases''], legacy_name env cfg operation_id];
          bundled = join_path [install, ''script-registry'', ''bundled''];
          target = join_path [''releases'', legacy_name env cfg operation_id]
      in andthen (perform host (MkdirAll legacy)) (\<lambda>_.
         andthen (perform host (CopyFile (join_path [install, ''one'']) (join_path [legacy, ''one'']))) (\<lambda>_.
         andthen (ask (\<lambda>ops. rh_stat host ops bundled = Some (Some Directory))) (\<lambda>present.
         andthen (if present then perform host (CopyTree bundled (join_path [legacy, ''script-registry'', ''bundled''])) else yields ()) (\<lambda>_.
         andthen (perform host (Symlink target current operation_id)) (\<lambda>_ st.
           case ensure_binary_symlink host cfg operation_id st of
             (Inr _, st') \<Rightarrow> (Inr target, st')
           | (Inl e, st') \<Rightarrow> (Inl e, snd (quietly (RemoveFile current) st'))))))))"

definition ensure_release_layout :: "rollback_host \<Rightarrow> update_env \<Rightarrow> update_config \<Rightarrow> string \<Rightarrow> string run" where
  "ensure_release_layout host env cfg operation_id =
     (let current = join_path [uc_install_dir cfg, ''current''] in
      andthen (ask (\<lambda>ops. rh_lstat host ops current)) (\<lambda>info.
        case info of
          Some (Some kind) \<Rightarrow> existing_layout host cfg operation_id kind
        | None \<Rightarrow> fails (InspectFailed current)
        | Some None \<Rightarrow> legacy_layout host env cfg operation_id))"

section \<open>Bundled scripts\<close>

definition bundled_active :: "update_config \<Rightarrow> string" where
  "bundled_active cfg = join_path [join_path [uc_install_dir cfg, ''script-registry''], ''bundled'']"

definition bundled_next :: "update_config \<Rightarrow> string \<Rightarrow> string" where
  "bundled_next cfg operation_id = join_path [join_path [uc_install_dir cfg, ''script-registry''], ''.bundled.new-'' @ operation_id]"

definition bundled_old :: "update_config \<Rightarrow> string \<Rightarrow> string" where
  "bundled_old cfg operation_id = join_path [join_path [uc_install_dir cfg, ''script-registry''], ''.bundled.old-'' @ operation_id]"

definition must_be_free :: "rollback_host \<Rightarrow> string \<Rightarrow> unit run" where
  "must_be_free host path =
     andthen (ask (\<lambda>ops. rh_lstat host ops path)) (\<lambda>info.
       case info of
         Some None \<Rightarrow> yields ()
       | Some (Some _) \<Rightarrow> fails (Refused ''temporary bundled script path already exists'')
       | None \<Rightarrow> fails (InspectFailed path))"

definition plan_bundled_switch :: "rollback_host \<Rightarrow> update_config \<Rightarrow> string \<Rightarrow> (string \<times> bool) run" where
  "plan_bundled_switch host cfg operation_id =
     andthen (in_turn (must_be_free host) [bundled_next cfg operation_id, bundled_old cfg operation_id]) (\<lambda>_.
     andthen (ask (\<lambda>ops. rh_lstat host ops (bundled_active cfg))) (\<lambda>info.
       case info of
         Some (Some kind) \<Rightarrow>
           if kind = Directory then yields (bundled_old cfg operation_id, True)
           else fails (Refused ''active bundled scripts are not a regular directory'')
       | Some None \<Rightarrow> yields (bundled_old cfg operation_id, False)
       | None \<Rightarrow> fails (InspectFailed (bundled_active cfg))))"

definition switch_bundled :: "rollback_host \<Rightarrow> update_config \<Rightarrow> string \<Rightarrow> string \<Rightarrow> bool \<Rightarrow> unit run" where
  "switch_bundled host cfg release operation_id old_exists =
     (let active = bundled_active cfg;
          pending = bundled_next cfg operation_id;
          old = bundled_old cfg operation_id
      in andthen (perform host (MkdirAll (join_path [uc_install_dir cfg, ''script-registry'']))) (\<lambda>_.
         andthen (perform host (CopyTree (join_path [release, ''script-registry'', ''bundled'']) pending)) (\<lambda>_.
         andthen (perform host (WriteFile (join_path [pending, ''.update-operation'']) (operation_id @ [newline]))) (\<lambda>_.
         andthen (if old_exists then perform host (Rename active old) else yields ()) (\<lambda>_ st.
           case perform host (Rename pending active) st of
             (Inr u, st') \<Rightarrow> (Inr u, st')
           | (Inl e, st') \<Rightarrow> (Inl e, if old_exists then snd (quietly (Rename old active) st') else st'))))))"

section \<open>The transaction\<close>

text \<open>What follows the begun snapshot; an error of it is what \<open>rollbackOnFailure\<close> gets.\<close>

definition switch_release :: "rollback_host \<Rightarrow> update_env \<Rightarrow> update_config \<Rightarrow> string \<Rightarrow> string \<Rightarrow> string \<Rightarrow> unit run" where
  "switch_release host env cfg operation_id version payload =
     andthen (populate_snapshot host cfg) (\<lambda>_.
     andthen (transition host cfg StatePreflight) (\<lambda>_.
     andthen (preflight host cfg) (\<lambda>_.
     andthen (transition host cfg StateSwitching) (\<lambda>_.
     andthen (release_dir host env cfg version) (\<lambda>release.
     andthen (revise (\<lambda>sn. sn\<lparr>sn_target_release_path := release\<rparr>)) (\<lambda>_.
     andthen (andthen held (write_journal host cfg)) (\<lambda>_.
     andthen (promote_release host payload release operation_id) (\<lambda>_.
     andthen (ensure_release_layout host env cfg operation_id) (\<lambda>previous.
     andthen (revise (\<lambda>sn. sn\<lparr>sn_previous_target := previous\<rparr>)) (\<lambda>_.
     andthen (andthen held (write_journal host cfg)) (\<lambda>_.
     andthen (perform host (Symlink (join_path [''releases'', base_name release])
                (join_path [uc_install_dir cfg, ''current'']) operation_id)) (\<lambda>_.
     andthen (plan_bundled_switch host cfg operation_id) (\<lambda>(old, had_old).
     andthen (revise (\<lambda>sn. sn\<lparr>sn_bundled_switch_plan := True, sn_bundled_had_old := had_old, sn_old_bundled_path := old\<rparr>)) (\<lambda>_.
     andthen (andthen held (write_journal host cfg)) (\<lambda>_.
     andthen (switch_bundled host cfg release operation_id had_old) (\<lambda>_.
     andthen (revise (\<lambda>sn. sn\<lparr>sn_bundled_switched := True\<rparr>)) (\<lambda>_.
     andthen held (write_journal host cfg))))))))))))))))))"

definition activate_release :: "rollback_host \<Rightarrow> update_config \<Rightarrow> bool \<Rightarrow> unit run" where
  "activate_release host cfg was_active =
     andthen (if was_active
              then andthen (perform host StartService) (\<lambda>_.
                   andthen (transition host cfg StateHealthChecking) (\<lambda>_.
                   perform host WaitReady))
              else yields ()) (\<lambda>_.
     andthen (transition host cfg StateSucceeded) (\<lambda>_.
     perform host (RemoveFile (journal_path cfg))))"

definition install_body :: "rollback_host \<Rightarrow> update_env \<Rightarrow> update_config \<Rightarrow> string \<Rightarrow> string \<Rightarrow> string \<Rightarrow> bool \<Rightarrow> unit run" where
  "install_body host env cfg operation_id version payload was_active =
     andthen (if was_active then perform host StopService else yields ()) (\<lambda>_.
     andthen (switch_release host env cfg operation_id version payload) (\<lambda>_.
     activate_release host cfg was_active))"

definition cleanup_backups :: "rollback_host \<Rightarrow> update_config \<Rightarrow> unit run" where
  "cleanup_backups host cfg =
     (let root = join_path [update_root cfg, ''backups''] in
      andthen (ask (\<lambda>ops. rh_dirs host ops root)) (\<lambda>listing.
        case listing of
          None \<Rightarrow> yields ()
        | Some names \<Rightarrow>
            let names = sort names in
            if int (length names) \<le> uc_backup_retention cfg then yields ()
            else in_turn (\<lambda>name. let path = join_path [root, name] in
                                 if path_within root path then quietly (RemoveAll path) else yields ())
                   (take (nat (int (length names) - uc_backup_retention cfg)) names)))"

text \<open>The state of the final status, its two flags, the error returned and all operations.\<close>

record report =
  rp_state :: string
  rp_attempted :: bool
  rp_succeeded :: bool
  rp_error :: "install_error option"
  rp_ops :: "install_op list"

definition rollback_on_failure :: "rollback_host \<Rightarrow> update_config \<Rightarrow> install_error \<Rightarrow> txn \<Rightarrow> report" where
  "rollback_on_failure host cfg cause st =
     (case rollback_update host cfg (tx_snapshot st) (tx_ops st) of
        (failures, ops) \<Rightarrow>
          if failures \<noteq> []
          then \<lparr>rp_state = StateRollbackFailed, rp_attempted = True, rp_succeeded = False, rp_error = Some cause,
                rp_ops = ops @ [WriteStatus (status_path cfg) StateRollbackFailed]\<rparr>
          else \<lparr>rp_state = StateRolledBack, rp_attempted = True, rp_succeeded = True, rp_error = Some cause,
                rp_ops = ops @ [WriteStatus (status_path cfg) StateRolledBack, RemoveFile (journal_path cfg)]\<rparr>)"

definition commit_release :: "rollback_host \<Rightarrow> update_config \<Rightarrow> unit run" where
  "commit_release host cfg =
     andthen held (\<lambda>sn.
     andthen (if sn_bundled_had_old sn then quietly (RemoveAll (sn_old_bundled_path sn)) else yields ()) (\<lambda>_.
     cleanup_backups host cfg))"

text \<open>\<open>defer os.RemoveAll(stagingRoot)\<close> comes last whatever happened.\<close>

definition install_release :: "rollback_host \<Rightarrow> update_env \<Rightarrow> update_config \<Rightarrow> string \<Rightarrow> string \<Rightarrow> report" where
  "install_release host env cfg operation_id version =
     (let staging = join_path [update_root cfg, ''staging'', operation_id];
          payload = join_path [staging, ''payload''];
          was_active = rh_active host [];
          report =
            (case begin_snapshot host cfg operation_id was_active \<lparr>tx_ops = [], tx_snapshot = blank_snapshot [] [] False\<rparr> of
               (Inl e, st) \<Rightarrow>
                 \<lparr>rp_state = StateFailed, rp_attempted = False, rp_succeeded = False, rp_error = Some e,
                  rp_ops = tx_ops st @ [WriteStatus (status_path cfg) StateFailed]\<rparr>
             | (Inr _, st) \<Rightarrow>
                 (case install_body host env cfg operation_id version payload was_active st of
                    (Inl e, st') \<Rightarrow> rollback_on_failure host cfg e st'
                  | (Inr _, st') \<Rightarrow>
                      \<lparr>rp_state = StateSucceeded, rp_attempted = False, rp_succeeded = False, rp_error = None,
                       rp_ops = tx_ops (snd (commit_release host cfg st'))\<rparr>))
      in report\<lparr>rp_ops := rp_ops report @ [RemoveAll staging]\<rparr>)"

text \<open>\<open>RollbackLast\<close>, with the lock held; the error of a failed check of the journal is returned as it is.\<close>

definition rollback_last :: "rollback_host \<Rightarrow> update_config \<Rightarrow> journal_error + string \<times> install_op list" where
  "rollback_last host cfg =
     (case read_journal cfg (rh_journal host []) of
        Inl e \<Rightarrow> Inl e
      | Inr sn \<Rightarrow>
          (case rollback_update host cfg sn [] of
             (failures, ops) \<Rightarrow>
               if failures \<noteq> [] then Inr (StateRollbackFailed, ops @ [WriteStatus (status_path cfg) StateRollbackFailed])
               else let w = WriteStatus (status_path cfg) StateRolledBack in
                    if \<not> rh_ok host ops w then Inr (StateRolledBack, ops @ [w])
                    else Inr (StateRolledBack, ops @ [w, RemoveFile (journal_path cfg)])))"

end
