(* ===== verification/Panel_Update_Props.thy ===== *)
theory Panel_Update_Props
  imports Panel_Update
begin

text \<open>
  The properties of panel updates: the stored trust never goes back and loses no key, a change
  of trust is signed by a key trusted before it, a revoked key is not used, and an update is
  offered only when its manifest is signed by a key in force and its artifact fits the host.
\<close>

section \<open>Results as actions\<close>

lemma of_result_Inr [simp]: "of_result r s = (Inr a, s') \<longleftrightarrow> r = Inr a \<and> s' = s"
  by (auto simp: of_result_def split: sum.splits)

lemma of_result_Inl [simp]: "of_result r s = (Inl e, s') \<longleftrightarrow> r = Inl e \<and> s' = s"
  by (auto simp: of_result_def split: sum.splits)

lemma of_result_run [act_eval]: "of_result r s = (r, s)"
  by (cases r) (auto simp: of_result_def)

section \<open>Keys in force\<close>

lemma find_fresh: "k \<notin> key ` set rs \<Longrightarrow> find (\<lambda>r. key r = k) rs = None"
  by (auto simp: find_None_iff)

lemma map_of_apply_record:
  "map_of (apply_record r keys) k =
     (if tk_key_id r = k then if tk_status r = KeyStatusRevoked then None else Some (tk_public_key r) else map_of keys k)"
  by (simp add: apply_record_def update_conv' delete_conv')

lemma map_of_apply_records:
  "distinct (map tk_key_id rs) \<Longrightarrow> map_of (fold apply_record rs keys) k =
     (case find (\<lambda>r. tk_key_id r = k) rs of
        None \<Rightarrow> map_of keys k
      | Some r \<Rightarrow> if tk_status r = KeyStatusRevoked then None else Some (tk_public_key r))"
proof (induction rs arbitrary: keys)
  case (Cons r rs)
  show ?case
  proof (cases "tk_key_id r = k")
    case True
    then have "find (\<lambda>r. tk_key_id r = k) rs = None" using Cons.prems by (intro find_fresh) auto
    then show ?thesis using Cons True by (simp add: map_of_apply_record)
  qed (use Cons in \<open>simp add: map_of_apply_record split: option.splits\<close>)
qed simp

lemma map_of_effective:
  assumes "distinct (map tk_key_id rs)"
  shows "map_of (effective_trusted_keys static rs) k =
     (case find (\<lambda>r. tk_key_id r = k) rs of
        None \<Rightarrow> map_of (clone_trusted_keys static) k
      | Some r \<Rightarrow> if tk_status r = KeyStatusRevoked then None else Some (tk_public_key r))"
  unfolding effective_trusted_keys_def by (rule map_of_apply_records [OF assms])

section \<open>Validated keysets\<close>

text \<open>What every key record of an accepted keyset satisfies.\<close>

definition key_ok :: "update_env \<Rightarrow> trusted_key_record \<Rightarrow> bool" where
  "key_ok env r \<longleftrightarrow>
     (\<exists>pk. std_decode (trim_space (tk_public_key r)) = Some pk \<and> length pk = PublicKeySize
        \<and> tk_key_id r = format_hex (take 8 (ue_sha256 env pk)))
     \<and> tk_status r \<in> {KeyStatusStaged, KeyStatusActive, KeyStatusRetired, KeyStatusRevoked}"

lemma decode_trusted_key_Inr:
  "decode_trusted_key k text = Inr pk \<longleftrightarrow>
     std_decode (trim_space text) = Some pk \<and> length pk = PublicKeySize \<and> trim_space k \<noteq> []"
  by (auto simp: decode_trusted_key_def Let_def split: option.splits)

lemma check_key_Inr:
  assumes "check_key env r records n = Inr (records', n')"
  shows "key_ok env r \<and> records (tk_key_id r) = None \<and> records' = records(tk_key_id r \<mapsto> r)
    \<and> n' = n + of_bool (tk_status r = KeyStatusActive)"
  using assms by (auto simp: check_key_def key_ok_def Let_def decode_trusted_key_Inr split: sum.splits if_splits)

lemma check_keys_Inr:
  "check_keys env rs records n = Inr (records', n') \<Longrightarrow>
     list_all (key_ok env) rs \<and> distinct (map tk_key_id rs) \<and> (\<forall>r\<in>set rs. records (tk_key_id r) = None)
     \<and> (\<forall>k. records' k = (case find (\<lambda>r. tk_key_id r = k) rs of None \<Rightarrow> records k | Some r \<Rightarrow> Some r))
     \<and> n' = n + length (filter (\<lambda>r. tk_status r = KeyStatusActive) rs)"
proof (induction rs arbitrary: records n)
  case (Cons r rs)
  obtain records1 n1 where one: "check_key env r records n = Inr (records1, n1)"
    using Cons.prems by (auto split: sum.splits)
  then have rest: "check_keys env rs records1 n1 = Inr (records', n')" using Cons.prems by simp
  note r = check_key_Inr [OF one]
  note IH = Cons.IH [OF rest]
  have new: "tk_key_id q \<noteq> tk_key_id r" if "q \<in> set rs" for q
    using IH r that by (metis fun_upd_same option.distinct(1))
  then have fresh: "tk_key_id r \<notin> tk_key_id ` set rs" by fastforce
  then have "find (\<lambda>q. tk_key_id q = tk_key_id r) rs = None" by (rule find_fresh)
  moreover have "records (tk_key_id q) = None" if "q \<in> set rs" for q
    using IH r that new [OF that] by auto
  ultimately show ?case using IH r fresh by (auto simp: of_bool_def split: option.splits)
qed simp

lemma check_signatures_Inr:
  "check_signatures records ss seen = Inr u \<Longrightarrow> s \<in> set ss \<Longrightarrow>
     \<exists>r. records (ks_key_id s) = Some r \<and> tk_status r \<noteq> KeyStatusRevoked"
  by (induction records ss seen rule: check_signatures.induct) (auto simp: Let_def split: option.splits if_splits)

lemma validate_keyset_Inr:
  assumes "validate_keyset env now doc = Inr (payload, digest)"
  shows "list_all (key_ok env) (kd_keys doc)" "distinct (map tk_key_id (kd_keys doc))"
    "map tk_key_id (filter (\<lambda>r. tk_status r = KeyStatusActive) (kd_keys doc)) = [kd_active_key_id doc]"
    "\<forall>s\<in>set (kd_signatures doc). \<exists>r\<in>set (kd_keys doc). tk_key_id r = ks_key_id s \<and> tk_status r \<noteq> KeyStatusRevoked"
    "keyset_payload doc = Some payload" "digest = format_hex (ue_sha256 env payload)"
    "instant (kd_generated_at doc) \<le> now + 24 * hour" "kd_revision doc \<noteq> 0"
proof -
  obtain records n where keys: "check_keys env (kd_keys doc) Map.empty 0 = Inr (records, n)"
    using assms by (auto simp: validate_keyset_def split: if_splits sum.splits)
  obtain active where active: "records (kd_active_key_id doc) = Some active" "tk_status active = KeyStatusActive" "n = 1"
    and sigs: "check_signatures records (kd_signatures doc) [] = Inr ()"
    using assms keys by (auto simp: validate_keyset_def split: if_splits sum.splits option.splits)
  note facts = check_keys_Inr [OF keys]
  show "list_all (key_ok env) (kd_keys doc)" "distinct (map tk_key_id (kd_keys doc))" using facts by auto
  have member: "r \<in> set (kd_keys doc) \<and> tk_key_id r = k" if "records k = Some r" for k r
  proof -
    have "find (\<lambda>r. tk_key_id r = k) (kd_keys doc) = Some r"
      using that facts by (simp split: option.splits)
    then show ?thesis by (rule find_key_in)
  qed
  have "length (filter (\<lambda>r. tk_status r = KeyStatusActive) (kd_keys doc)) = 1" using facts active(3) by simp
  then obtain r where r: "filter (\<lambda>r. tk_status r = KeyStatusActive) (kd_keys doc) = [r]"
    by (auto simp: length_Suc_conv)
  have "active \<in> set (filter (\<lambda>r. tk_status r = KeyStatusActive) (kd_keys doc))"
    using member [OF active(1)] active(2) by simp
  then have "active = r" unfolding r by simp
  then show "map tk_key_id (filter (\<lambda>r. tk_status r = KeyStatusActive) (kd_keys doc)) = [kd_active_key_id doc]"
    using r member [OF active(1)] by simp
  show "\<forall>s\<in>set (kd_signatures doc). \<exists>r\<in>set (kd_keys doc). tk_key_id r = ks_key_id s \<and> tk_status r \<noteq> KeyStatusRevoked"
    using check_signatures_Inr [OF sigs] member by blast
  show "keyset_payload doc = Some payload" "digest = format_hex (ue_sha256 env payload)"
    "instant (kd_generated_at doc) \<le> now + 24 * hour" "kd_revision doc \<noteq> 0"
    using assms by (auto simp: validate_keyset_def split: if_splits sum.splits option.splits)
qed

section \<open>Refreshing the trust\<close>

text \<open>The keyset a panel finds in its trust file.\<close>

definition stored_state :: "update_env \<Rightarrow> trust_file \<Rightarrow> trust_state option" where
  "stored_state env f =
     (case f of
        NoTrustFile \<Rightarrow> None
      | TrustFile content \<Rightarrow> (case decode_trust_state env content of Inl _ \<Rightarrow> None | Inr st \<Rightarrow> Some st))"

lemma load_trust_state_Inr:
  assumes "load_trust_state env s = (Inr stored, s')"
  shows "tables s' = tables s \<and> stored = stored_state env (tables s) \<and> (stored = None \<longrightarrow> tables s = NoTrustFile)"
proof -
  obtain f s1 where q: "query TrustStateRead (\<lambda>f. f) s = (Inr f, s1)"
    and rest: "(case f of NoTrustFile \<Rightarrow> ret None
       | TrustFile content \<Rightarrow> (case decode_trust_state env content of Inl e \<Rightarrow> throw e | Inr st \<Rightarrow> ret (Some st))) s1 = (Inr stored, s')"
    using assms unfolding load_trust_state_def bnd_Inr by blast
  have "tables s = f" "tables s1 = f" using query_Inr [OF q] by auto
  then show ?thesis using rest by (cases f) (auto simp: stored_state_def split: sum.splits)
qed

lemma load_trust_state_same: "load_trust_state env s = (Inr stored, s') \<Longrightarrow> tables s' = tables s"
  using load_trust_state_Inr by blast

lemma load_trust_state_Inl:
  assumes "load_trust_state env s = (Inl e, s')"
  shows "tables s' = tables s"
proof -
  consider "query TrustStateRead (\<lambda>f. f) s = (Inl e, s')"
    | f s1 where "query TrustStateRead (\<lambda>f. f) s = (Inr f, s1)"
      "(case f of NoTrustFile \<Rightarrow> ret None
       | TrustFile content \<Rightarrow> (case decode_trust_state env content of Inl e \<Rightarrow> throw e | Inr st \<Rightarrow> ret (Some st))) s1 = (Inl e, s')"
    using assms unfolding load_trust_state_def bnd_Inl by blast
  then show ?thesis
  proof cases
    case 1
    then show ?thesis by (rule query_Inl [THEN conjunct2])
  next
    case (2 f s1)
    have "s1 = s'" using 2(2) by (cases f) (auto split: sum.splits)
    then show ?thesis using query_Inr [OF 2(1)] by blast
  qed
qed

text \<open>A readable trust file is read when the engine works.\<close>

lemma load_trust_state_healthy:
  "stored_state env f = Some st \<Longrightarrow> load_trust_state env (healthy f) = (Inr (Some st), healthy f)"
  by (auto simp: stored_state_def load_trust_state_def bnd_run split: trust_file.splits sum.splits)

lemma each_touch: "each (\<lambda>_. modify e (\<lambda>file. file)) xs s = (r, s') \<Longrightarrow> tables s' = tables s"
proof (induction xs arbitrary: s)
  case (Cons x xs)
  then show ?case
    by (cases r) (auto simp: bnd_Inr bnd_Inl dest!: modify_Inr modify_Inl)
qed simp

lemma save_trust_state_Inr:
  "save_trust_state env st s = (Inr u, s') \<Longrightarrow> \<exists>content. ue_encode_state env st = Some content \<and> tables s' = TrustFile (content @ [CHR 0x0A])"
  unfolding save_trust_state_def by (auto simp del: each.simps simp: bnd_Inr dest: modify_Inr split: option.splits)

lemma save_trust_state_Inl: "save_trust_state env st s = (Inl e, s') \<Longrightarrow> tables s' = tables s"
  unfolding save_trust_state_def
  by (cases "ue_encode_state env st") (auto simp del: each.simps simp: bnd_Inl, (metis modify_Inl each_touch)+)

text \<open>A successful refresh with a center configured, step by step.\<close>

definition supersedes :: "keyset_document \<Rightarrow> trust_state option \<Rightarrow> bool" where
  "supersedes doc stored \<longleftrightarrow> (case stored of None \<Rightarrow> True | Some st \<Rightarrow> ts_revision st < kd_revision doc)"

lemma refresh_key_trust_Inr:
  assumes run: "refresh_key_trust env ct clock cfg s = (Inr (keys, trust), s')"
    and url: "trim_space (uc_key_status_url cfg) \<noteq> []"
  obtains stored doc payload digest where
    "stored = stored_state env (tables s)" "stored = None \<longrightarrow> tables s = NoTrustFile"
    "fetch_keyset env ct (uc_key_status_url cfg) = Inr doc"
    "validate_keyset env (clock 0) doc = Inr (payload, digest)"
    "verify_keyset env doc payload
       (effective_trusted_keys (clone_trusted_keys (uc_trusted_keys cfg)) (stored_keys stored)) = Inr ()"
    "check_progress stored doc digest = Inr ()"
    "if supersedes doc stored
     then \<exists>content. ue_encode_state env (next_state (clock 1) doc digest) = Some content \<and> tables s' = TrustFile (content @ [CHR 0x0A])
     else tables s' = tables s"
    "keys = effective_trusted_keys (clone_trusted_keys (uc_trusted_keys cfg)) (kd_keys doc)"
    "trust = center_result doc keys"
proof -
  let ?static = "clone_trusted_keys (uc_trusted_keys cfg)"
  have path: "trim_space (uc_trust_state_path cfg) \<noteq> []"
    using run url by (auto simp: refresh_key_trust_def Let_def)
  obtain stored s1 doc payload digest s2 where
    load: "load_trust_state env s = (Inr stored, s1)"
    and steps: "fetch_keyset env ct (uc_key_status_url cfg) = Inr doc"
      "validate_keyset env (clock 0) doc = Inr (payload, digest)"
      "verify_keyset env doc payload (effective_trusted_keys ?static (stored_keys stored)) = Inr ()"
      "check_progress stored doc digest = Inr ()"
    and save: "(if supersedes doc stored then save_trust_state env (next_state (clock 1) doc digest) else ret ()) s1 = (Inr (), s2)"
    and res: "keys = effective_trusted_keys ?static (kd_keys doc)" "trust = center_result doc keys" "s' = s2"
    using run url path unfolding refresh_key_trust_def Let_def supersedes_def
    by (auto simp: bnd_Inr split: prod.splits)
  have "if supersedes doc stored
     then \<exists>content. ue_encode_state env (next_state (clock 1) doc digest) = Some content \<and> tables s' = TrustFile (content @ [CHR 0x0A])
     else tables s' = tables s"
  proof (cases "supersedes doc stored")
    case True
    then show ?thesis using save res(3) save_trust_state_Inr [of env "next_state (clock 1) doc digest" s1] by simp
  next
    case False
    then show ?thesis using save res(3) load_trust_state_Inr [OF load] by simp
  qed
  moreover have "stored = stored_state env (tables s)" "stored = None \<longrightarrow> tables s = NoTrustFile"
    using load_trust_state_Inr [OF load] by auto
  ultimately show ?thesis using steps res(1,2) by (intro that)
qed

lemma refresh_key_trust_static:
  assumes "trim_space (uc_key_status_url cfg) = []"
  shows "refresh_key_trust env ct clock cfg = ret (clone_trusted_keys (uc_trusted_keys cfg), static_result (clone_trusted_keys (uc_trusted_keys cfg)))"
  using assms by (simp add: refresh_key_trust_def Let_def)

text \<open>An action that leaves the file as it was when it fails.\<close>

definition calm :: "(trust_file, update_error, 'a) act \<Rightarrow> bool" where
  "calm m \<longleftrightarrow> (\<forall>s e s'. m s = (Inl e, s') \<longrightarrow> tables s' = tables s)"

lemma calm_ret: "calm (ret a)" and calm_throw: "calm (throw e)"
  by (simp_all add: calm_def)

lemma calm_if: "calm m \<Longrightarrow> calm n \<Longrightarrow> calm (if b then m else n)"
  by simp

lemma calm_prod: "(\<And>x y. calm (f x y)) \<Longrightarrow> calm (case p of (x, y) \<Rightarrow> f x y)"
  by (cases p) simp

lemma calm_load: "(\<And>a. calm (f a)) \<Longrightarrow> calm (bnd (load_trust_state env) f)"
  unfolding calm_def bnd_Inl by (metis load_trust_state_Inl load_trust_state_same)

lemma calm_result: "(\<And>a. calm (f a)) \<Longrightarrow> calm (bnd (of_result x) f)"
  unfolding calm_def bnd_Inl by (auto simp: of_result_run)

lemma calm_bnd: "calm m \<Longrightarrow> calm (bnd m (\<lambda>_. ret a))"
  unfolding calm_def bnd_Inl by auto

lemma refresh_key_trust_Inl:
  assumes "refresh_key_trust env ct clock cfg s = (Inl e, s')"
  shows "tables s' = tables s"
proof -
  have "calm (refresh_key_trust env ct clock cfg)"
    unfolding refresh_key_trust_def Let_def
    by (intro calm_if calm_throw calm_ret calm_load calm_result calm_prod calm_bnd) (auto simp: calm_def dest: save_trust_state_Inl)
  with assms show ?thesis by (auto simp: calm_def)
qed

section \<open>The stored keyset does not go back\<close>

abbreviation key_ids :: "trust_state \<Rightarrow> string set" where
  "key_ids st \<equiv> tk_key_id ` set (ts_keys st)"

text \<open>
  What is relied on of \<open>encoding/json\<close>: a decoder leaves only valid UTF-8 in the strings of a document,
  and a state whose strings are valid UTF-8 is read back as it was, when it can be encoded.
\<close>

definition key_strings :: "trusted_key_record \<Rightarrow> bool" where
  "key_strings r \<longleftrightarrow>
     list_all valid_utf8 [tk_key_id r, tk_algorithm r, tk_public_key r, tk_status r, tk_revocation_reason r]"

definition state_text :: "trust_state \<Rightarrow> bool" where
  "state_text st \<longleftrightarrow> valid_utf8 (ts_active_key_id st) \<and> valid_utf8 (ts_digest st) \<and> list_all key_strings (ts_keys st)"

definition json_codec :: "update_env \<Rightarrow> bool" where
  "json_codec env \<longleftrightarrow>
     (\<forall>content doc rest. ue_decode_keyset env content = Some (doc, rest) \<longrightarrow>
        valid_utf8 (kd_active_key_id doc) \<and> list_all key_strings (kd_keys doc))
     \<and> (\<forall>st content. state_text st \<longrightarrow> ue_encode_state env st = Some content \<longrightarrow>
          ue_decode_state env (content @ [CHR 0x0A]) = Some (st, JsonEof))"

definition sha256_size :: "update_env \<Rightarrow> bool" where
  "sha256_size env \<longleftrightarrow> (\<forall>content. length (ue_sha256 env content) = 32)"

definition trust_ahead :: "update_env \<Rightarrow> trust_file \<Rightarrow> trust_file \<Rightarrow> bool" where
  "trust_ahead env old new \<longleftrightarrow>
     (json_codec env \<and> sha256_size env \<longrightarrow>
        old = new \<or>
        (\<exists>st'. stored_state env new = Some st'
          \<and> (old = NoTrustFile \<or>
             (\<exists>st. stored_state env old = Some st \<and> ts_revision st < ts_revision st' \<and> key_ids st \<subseteq> key_ids st'))))"

text \<open>A refresh, as the trust file at \<open>path\<close> sees it: one with another path works on another file.\<close>

definition refresh_step :: "update_env \<Rightarrow> string \<Rightarrow> center \<times> (nat \<Rightarrow> time) \<times> update_config
    \<Rightarrow> (trust_file, update_error, unit) act" where
  "refresh_step env path = (\<lambda>(ct, clock, cfg).
     if uc_trust_state_path cfg = path then bnd (refresh_key_trust env ct clock cfg) (\<lambda>_. ret ()) else ret ())"

lemma reject_removed_keys_Inr:
  "reject_removed_keys previous current = Inr u \<longleftrightarrow> tk_key_id ` set previous \<subseteq> tk_key_id ` set current"
proof (cases "find (\<lambda>r. tk_key_id r \<notin> set (map tk_key_id current)) previous")
  case None
  then have "reject_removed_keys previous current = Inr ()" by (simp add: reject_removed_keys_def)
  moreover from None have "tk_key_id ` set previous \<subseteq> tk_key_id ` set current" by (auto simp: find_None_iff)
  ultimately show ?thesis by simp
next
  case (Some r)
  then have "r \<in> set previous" "tk_key_id r \<notin> tk_key_id ` set current" by (auto simp: find_Some_iff)
  then show ?thesis using Some by (auto simp: reject_removed_keys_def)
qed

lemma check_progress_Some:
  assumes "check_progress (Some st) doc digest = Inr u"
  shows "ts_revision st \<le> kd_revision doc" "kd_revision doc = ts_revision st \<Longrightarrow> digest = ts_digest st"
    "key_ids st \<subseteq> tk_key_id ` set (kd_keys doc)"
  using assms by (auto simp: check_progress_def reject_removed_keys_Inr split: if_splits)

text \<open>What \<open>validateKeyset\<close> accepts is stored as a state \<open>loadTrustState\<close> accepts.\<close>

lemma length_format_hex: "length (format_hex t) = 2 * length t"
  by (induction t) (simp_all add: format_hex_def)

lemma ascii_format_hex: "ascii (format_hex t)"
proof -
  have "ord (digit_char d) < 128" if "d < 16" for d
  proof -
    have "digit_char d \<in> set ''0123456789abcdef''" using that unfolding digit_char_def by (intro nth_mem) simp
    then show ?thesis by auto
  qed
  moreover have "ord c div 16 < 16" for c :: char using nat_of_char_less_256 [of c] by linarith
  ultimately show ?thesis
    by (auto simp: format_hex_def ascii_def list_all_iff)
qed

lemma next_state_valid:
  assumes "validate_keyset env now doc = Inr (payload, digest)" "sha256_size env"
  shows "trust_state_valid (next_state now' doc digest)"
proof -
  note v = validate_keyset_Inr [OF assms(1)]
  have m: "kd_keys doc \<noteq> []" "length (kd_keys doc) \<le> MaxKeysetKeys" "\<not> is_zero (instant (kd_generated_at doc))"
    using assms(1) by (auto simp: validate_keyset_def split: if_splits)
  have "kd_active_key_id doc \<in> tk_key_id ` set (kd_keys doc)"
    using v(3) by (metis (no_types, lifting) filter_is_subset image_mono list.set_intros(1) list.set_map subsetD)
  then obtain r where r: "r \<in> set (kd_keys doc)" "tk_key_id r = kd_active_key_id doc" by auto
  then obtain pk where "kd_active_key_id doc = format_hex (take 8 (ue_sha256 env pk))"
    using v(1) unfolding list_all_iff key_ok_def by metis
  then have "length (kd_active_key_id doc) = 16" using assms(2) by (simp add: length_format_hex sha256_size_def)
  then have "kd_active_key_id doc \<noteq> []" by auto
  moreover have "length digest = 64" using v(6) assms(2) by (simp add: length_format_hex sha256_size_def)
  moreover have "\<not> kd_revision doc < 1" using v(8) by (simp add: word_less_1)
  ultimately show ?thesis using m by (simp add: trust_state_valid_def next_state_def)
qed

lemma next_state_read:
  assumes "validate_keyset env now doc = Inr (payload, digest)" "fetch_keyset env ct address = Inr doc"
    and "json_codec env" "sha256_size env" "ue_encode_state env (next_state now' doc digest) = Some content"
  shows "stored_state env (TrustFile (content @ [CHR 0x0A])) = Some (next_state now' doc digest)"
proof -
  have "\<exists>text rest. ue_decode_keyset env text = Some (doc, rest)"
    using assms(2) by (auto simp: fetch_keyset_def split: if_splits sum.splits option.splits) blast
  then have "valid_utf8 (kd_active_key_id doc)" "list_all key_strings (kd_keys doc)" using assms(3) by (auto simp: json_codec_def)
  moreover have "valid_utf8 digest"
    using validate_keyset_Inr(6) [OF assms(1)] ascii_valid_utf8 ascii_format_hex by simp
  ultimately have "state_text (next_state now' doc digest)" by (simp add: state_text_def next_state_def)
  then have "ue_decode_state env (content @ [CHR 0x0A]) = Some (next_state now' doc digest, JsonEof)"
    using assms(3,5) by (simp add: json_codec_def)
  then show ?thesis
    using next_state_valid [OF assms(1,4)] by (simp add: stored_state_def decode_trust_state_def ensure_json_eof_def)
qed

lemma refresh_ahead: "trust_ahead env (tables s) (tables (snd (refresh_key_trust env ct clock cfg s)))"
proof (cases "refresh_key_trust env ct clock cfg s")
  case (Pair r s')
  show ?thesis
  proof (cases r)
    case (Inl e)
    then show ?thesis using refresh_key_trust_Inl Pair by (simp add: trust_ahead_def)
  next
    case (Inr out)
    obtain keys trust where run: "refresh_key_trust env ct clock cfg s = (Inr (keys, trust), s')"
      using Pair Inr by (cases out) auto
    show ?thesis
    proof (cases "trim_space (uc_key_status_url cfg) = []")
      case True
      then show ?thesis by (simp add: refresh_key_trust_static trust_ahead_def)
    next
      case False
      from run False show ?thesis
      proof (rule refresh_key_trust_Inr)
        fix stored doc payload digest
        assume old: "stored = stored_state env (tables s)" "stored = None \<longrightarrow> tables s = NoTrustFile"
          and doc: "fetch_keyset env ct (uc_key_status_url cfg) = Inr doc"
          and valid: "validate_keyset env (clock 0) doc = Inr (payload, digest)"
          and progress: "check_progress stored doc digest = Inr ()"
          and new: "if supersedes doc stored
            then \<exists>content. ue_encode_state env (next_state (clock 1) doc digest) = Some content \<and> tables s' = TrustFile (content @ [CHR 0x0A])
            else tables s' = tables s"
        show ?thesis
          using old new run check_progress_Some(3) [of _ doc digest] progress next_state_read [OF valid doc]
          by (cases stored) (auto simp: trust_ahead_def supersedes_def next_state_def split: if_splits)
      qed
    qed
  qed
qed

lemma step_ahead: "trust_ahead env (tables s) (tables (snd (refresh_step env path x s)))"
proof -
  obtain ct clock cfg where x: "x = (ct, clock, cfg)" by (cases x) auto
  have "tables (snd (bnd (refresh_key_trust env ct clock cfg) (\<lambda>_. ret ()) s)) = tables (snd (refresh_key_trust env ct clock cfg s))"
    by (auto simp: bnd_def split: prod.splits sum.splits)
  then show ?thesis using refresh_ahead [of env s ct clock cfg] by (simp add: x refresh_step_def) (simp add: trust_ahead_def)
qed

interpretation trust: ratchet "trust_ahead env" "refresh_step env path" for env path
proof
  show "trust_ahead env a c" if "trust_ahead env a b" "trust_ahead env b c" for a b c
    using that unfolding trust_ahead_def stored_state_def by (fastforce split: trust_file.splits)
qed (use step_ahead in \<open>simp_all add: trust_ahead_def\<close>)

text \<open>
  C9: The stored keyset does not go back.  Start with a trust file the panel can read, and let the
  panel refresh any number of times, whatever the center answers, whatever the configurations and
  the clock, and whichever file operations fail.  Then the panel can still read the trust file, and
  it holds the keyset it held before or one with a higher revision that lists every key the old one
  lists.  (The status of a listed key may change in any way.)  SHA-256 has 32 bytes, and
  \<open>encoding/json\<close> reads back what it writes when the strings are valid UTF-8.
\<close>

theorem trust_never_regresses:
  assumes "json_codec env" "sha256_size env" and "load_trust_state env (healthy (tables s)) = (Inr (Some st), s0)"
  shows "\<exists>st'. load_trust_state env (healthy (tables (run_ops (refresh_step env path) ops s)))
        = (Inr (Some st'), healthy (tables (run_ops (refresh_step env path) ops s)))
    \<and> (st' = st \<or> ts_revision st < ts_revision st' \<and> tk_key_id ` set (ts_keys st) \<subseteq> tk_key_id ` set (ts_keys st'))"
proof -
  let ?f = "tables (run_ops (refresh_step env path) ops s)"
  have st: "stored_state env (tables s) = Some st" using load_trust_state_Inr [OF assms(3)] by simp
  have "tables s \<noteq> NoTrustFile" using st by (auto simp: stored_state_def)
  then have "stored_state env ?f = Some st \<or>
      (\<exists>st'. stored_state env ?f = Some st' \<and> ts_revision st < ts_revision st' \<and> key_ids st \<subseteq> key_ids st')"
    using trust.run_ahead [of env s path ops] st assms(1,2) unfolding trust_ahead_def by auto
  then show ?thesis using load_trust_state_healthy by blast
qed

section \<open>What a refresh accepts\<close>

definition file_keys :: "update_env \<Rightarrow> trust_file \<Rightarrow> trusted_key_record list" where
  "file_keys env f = stored_keys (stored_state env f)"

text \<open>The file is the text of a state, or it is read as that state.\<close>

definition holds_state :: "update_env \<Rightarrow> trust_file \<Rightarrow> trust_state \<Rightarrow> bool" where
  "holds_state env f st \<longleftrightarrow>
     (\<exists>content. ue_encode_state env st = Some content \<and> f = TrustFile (content @ [CHR 0x0A])) \<or> stored_state env f = Some st"

lemma verify_keyset_Inr:
  "verify_keyset env doc payload trusted = Inr u \<Longrightarrow> \<exists>sg\<in>set (kd_signatures doc). signature_accepted env payload trusted sg"
  by (auto simp: verify_keyset_def list_ex_iff split: if_splits)

text \<open>
  C10: A keyset is accepted only on the word of a key trusted before.  When a refresh from the
  center succeeds, the keyset it fetched carries a signature over exactly its content by a key
  that was in force under the stored keyset and the configured keys, and that the new keyset
  does not revoke; every listed key has the identifier its public key hashes to; the trust file
  holds that revision with the digest of the signed text; and the keys handed to the caller are
  the configured ones overridden by the keyset, without the revoked ones.  When a refresh fails,
  the trust file is as it was.
\<close>

theorem accepted_keyset_is_authorised:
  assumes "trim_space (uc_key_status_url cfg) \<noteq> []"
  shows "case refresh_key_trust env ct clock cfg s of
      (Inl e, s') \<Rightarrow> tables s' = tables s
    | (Inr (keys, trust), s') \<Rightarrow>
        \<exists>doc payload sg st'. fetch_keyset env ct (uc_key_status_url cfg) = Inr doc \<and> keyset_payload doc = Some payload
          \<and> sg \<in> set (kd_signatures doc)
          \<and> signature_accepted env payload
               (effective_trusted_keys (clone_trusted_keys (uc_trusted_keys cfg)) (file_keys env (tables s))) sg
          \<and> (\<exists>r\<in>set (kd_keys doc). tk_key_id r = ks_key_id sg \<and> tk_status r \<noteq> KeyStatusRevoked)
          \<and> list_all (key_ok env) (kd_keys doc)
          \<and> holds_state env (tables s') st' \<and> ts_revision st' = kd_revision doc
          \<and> ts_digest st' = format_hex (ue_sha256 env payload)
          \<and> (\<forall>k. map_of keys k =
               (case find (\<lambda>r. tk_key_id r = k) (kd_keys doc) of
                  None \<Rightarrow> map_of (clone_trusted_keys (clone_trusted_keys (uc_trusted_keys cfg))) k
                | Some r \<Rightarrow> if tk_status r = KeyStatusRevoked then None else Some (tk_public_key r)))"
proof (cases "refresh_key_trust env ct clock cfg s")
  case (Pair r s')
  show ?thesis
  proof (cases r)
    case (Inl e)
    then show ?thesis using Pair refresh_key_trust_Inl [of env ct clock cfg s e s'] by simp
  next
    case (Inr out)
    obtain keys trust where run: "refresh_key_trust env ct clock cfg s = (Inr (keys, trust), s')"
      using Pair Inr by (cases out) auto
    from run assms show ?thesis
    proof (rule refresh_key_trust_Inr)
      fix stored doc payload digest
      assume old: "stored = stored_state env (tables s)" "stored = None \<longrightarrow> tables s = NoTrustFile"
        and doc: "fetch_keyset env ct (uc_key_status_url cfg) = Inr doc"
        and valid: "validate_keyset env (clock 0) doc = Inr (payload, digest)"
        and signed: "verify_keyset env doc payload
          (effective_trusted_keys (clone_trusted_keys (uc_trusted_keys cfg)) (stored_keys stored)) = Inr ()"
        and progress: "check_progress stored doc digest = Inr ()"
        and new: "if supersedes doc stored
          then \<exists>content. ue_encode_state env (next_state (clock 1) doc digest) = Some content \<and> tables s' = TrustFile (content @ [CHR 0x0A])
          else tables s' = tables s"
        and keys: "keys = effective_trusted_keys (clone_trusted_keys (uc_trusted_keys cfg)) (kd_keys doc)"
      note v = validate_keyset_Inr [OF valid]
      have "stored_keys stored = file_keys env (tables s)"
        using old by (simp add: file_keys_def)
      with signed obtain sg where sg: "sg \<in> set (kd_signatures doc)" "signature_accepted env payload
          (effective_trusted_keys (clone_trusted_keys (uc_trusted_keys cfg)) (file_keys env (tables s))) sg"
        using verify_keyset_Inr [of env doc payload] by metis
      obtain st' where st': "holds_state env (tables s') st'" "ts_revision st' = kd_revision doc" "ts_digest st' = digest"
      proof (cases "supersedes doc stored")
        case True
        with new that [of "next_state (clock 1) doc digest"] show ?thesis by (auto simp: next_state_def holds_state_def)
      next
        case False
        then obtain st where st: "stored = Some st" "\<not> ts_revision st < kd_revision doc"
          by (auto simp: supersedes_def split: option.splits)
        with progress have "kd_revision doc = ts_revision st" "digest = ts_digest st"
          using check_progress_Some [of st doc digest] by (auto simp: order.order_iff_strict)
        with that [of st] new False old st show ?thesis by (simp add: holds_state_def)
      qed
      show ?thesis
        unfolding run prod.case sum.case
        using doc v(1,4,5,6) sg st' map_of_effective [OF v(2)] unfolding keys by blast
    qed
  qed
qed

section \<open>What an offer rests on\<close>

text \<open>An artifact that may be downloaded: a Linux build for a known architecture, of allowed size, with a digest.\<close>

definition artifact_ok :: "update_env \<Rightarrow> update_config \<Rightarrow> artifact \<Rightarrow> bool" where
  "artifact_ok env cfg a \<longleftrightarrow> at_os a = ''linux'' \<and> at_arch a \<in> {''amd64'', ''arm64''}
     \<and> 1 \<le> at_size a \<and> at_size a \<le> uc_max_package_bytes cfg
     \<and> hex_length (at_sha256 a) = Some 32 \<and> to_lower (ue_lower env) (at_sha256 a) = at_sha256 a
     \<and> validate_remote_url env (at_url a)
     \<and> trim_space (at_file_name a) \<noteq> [] \<and> CHR ''/'' \<notin> set (at_file_name a) \<and> CHR 0x5C \<notin> set (at_file_name a)"

lemma check_artifacts_Cons:
  "check_artifacts env cfg (b # as) seen selected = Inr x \<longleftrightarrow>
     at_os b @ ''/'' @ at_arch b \<notin> set seen \<and> artifact_ok env cfg b
     \<and> check_artifacts env cfg as ((at_os b @ ''/'' @ at_arch b) # seen)
         (if at_os b = uc_os cfg \<and> at_arch b = uc_arch cfg then Some b else selected) = Inr x"
proof -
  have name: "list_ex (\<lambda>c. c = CHR ''/'' \<or> c = CHR 0x5C) w \<longleftrightarrow> CHR ''/'' \<in> set w \<or> CHR 0x5C \<in> set w" for w
    by (auto simp: list_ex_iff)
  show ?thesis
    unfolding check_artifacts.simps Let_def guard_Inr artifact_ok_def not_less [symmetric] insert_iff empty_iff simp_thms name by argo
qed

lemma check_artifacts_Inr:
  "check_artifacts env cfg as seen selected = Inr (Some a) \<Longrightarrow>
     selected = Some a \<or> a \<in> set as \<and> at_os a = uc_os cfg \<and> at_arch a = uc_arch cfg \<and> artifact_ok env cfg a"
proof (induction as arbitrary: seen selected)
  case (Cons b as)
  note run = Cons.prems [unfolded check_artifacts_Cons]
  from Cons.IH [OF run [THEN conjunct2, THEN conjunct2]] run show ?case
    by (cases "at_os b = uc_os cfg \<and> at_arch b = uc_arch cfg") auto
qed simp

lemma verify_signature_Inr:
  assumes "verify_signature env cfg m = Inr u"
  obtains key_text public_key signature payload where
    "map_of (uc_trusted_keys cfg) (trim_space (ks_key_id (mf_signature m))) = Some key_text"
    "std_decode (trim_space key_text) = Some public_key" "length public_key = PublicKeySize"
    "std_decode (trim_space (ks_value (mf_signature m))) = Some signature"
    "manifest_payload m = Some payload" "ue_verify env public_key payload signature"
  using assms by (auto simp: verify_signature_def Let_def split: option.splits if_splits)

lemma verify_manifest_Inr:
  assumes "verify_manifest env now cfg m = Inr a"
  shows "mf_channel m = uc_channel cfg" "verify_signature env cfg m = Inr ()"
    "check_artifacts env cfg (mf_artifacts m) [] None = Inr (Some a)"
proof -
  have rest: "mf_channel m = uc_channel cfg \<and> (case verify_signature env cfg m of Inl e \<Rightarrow> Inl e
      | Inr _ \<Rightarrow> (case check_artifacts env cfg (mf_artifacts m) [] None of
          Inl e \<Rightarrow> Inl e | Inr None \<Rightarrow> Inl (BadManifest NoArtifact) | Inr (Some a) \<Rightarrow> Inr a)) = Inr a"
    using assms unfolding verify_manifest_def guard_Inr by blast
  then show "mf_channel m = uc_channel cfg" "verify_signature env cfg m = Inr ()"
    "check_artifacts env cfg (mf_artifacts m) [] None = Inr (Some a)"
    by (auto split: sum.splits option.splits)
qed

lemma judge_manifest_offer:
  assumes "cr_update_available (co_result (judge_manifest env now cfg res m))" "\<not> cr_update_available res"
  shows "\<exists>a. judge_manifest env now cfg res m =
      \<lparr>co_result = co_result (judge_manifest env now cfg res m), co_manifest = Some m, co_artifact = Some a, co_error = None\<rparr>
    \<and> verify_manifest env now cfg m = Inr a
    \<and> ue_semver_compare env (canonical_version env (mf_version m)) (canonical_version env (uc_current_version cfg)) > 0
    \<and> (mf_minimum_version m \<noteq> [] \<longrightarrow>
        \<not> ue_semver_compare env (canonical_version env (uc_current_version cfg)) (canonical_version env (mf_minimum_version m)) < 0)"
  using assms by (auto simp: judge_manifest_def Let_def split: sum.splits if_splits)

lemma effective_not_revoked:
  assumes "distinct (map tk_key_id rs)" "map_of (effective_trusted_keys static rs) k = Some key_text"
    and "r \<in> set rs" "tk_key_id r = k"
  shows "tk_status r \<noteq> KeyStatusRevoked"
proof -
  have "find (\<lambda>q. tk_key_id q = tk_key_id r) rs = Some r" using assms(1,3) by (rule find_key_distinct)
  then show ?thesis using map_of_effective [OF assms(1), of static k] assms(2,4) by auto
qed

lemma check_update_offer:
  assumes "check_update env ct clock cfg s = (out, s')" "cr_update_available (co_result out)"
  obtains keys trust res m where "refresh_key_trust env ct clock cfg s = (Inr (keys, trust), s')"
    "out = judge_manifest env (clock 2) (cfg\<lparr>uc_trusted_keys := keys\<rparr>) res m" "\<not> cr_update_available res"
proof -
  obtain r s1 where run: "refresh_key_trust env ct clock cfg s = (r, s1)" by fastforce
  have off: "\<not> cr_update_available (initial_result cfg)" by (simp add: initial_result_def)
  obtain keys trust where r: "r = Inr (keys, trust)"
    using assms run off by (cases r) (auto simp: check_update_def Let_def split: if_splits)
  obtain source found where f: "find_manifest env ct (cfg\<lparr>uc_trusted_keys := keys\<rparr>) = (source, found)" by fastforce
  let ?res = "(trusted_result trust (initial_result cfg))\<lparr>cr_source := source\<rparr>"
  have res: "\<not> cr_update_available ?res" using off by (simp add: trusted_result_def)
  then obtain m where "found = Inr (Some m)" "s1 = s'"
    "out = judge_manifest env (clock 2) (cfg\<lparr>uc_trusted_keys := keys\<rparr>) ?res m"
    using assms run r f off by (auto simp: check_update_def Let_def split: if_splits sum.splits option.splits)
  with that run r res show ?thesis by blast
qed

lemma check_update_signed:
  assumes "check_update env ct clock cfg s = (out, s')" "cr_update_available (co_result out)"
  obtains keys trust m a key_text public_key signature payload where
    "refresh_key_trust env ct clock cfg s = (Inr (keys, trust), s')"
    "co_error out = None" "co_manifest out = Some m" "co_artifact out = Some a"
    "map_of keys (trim_space (ks_key_id (mf_signature m))) = Some key_text"
    "std_decode (trim_space key_text) = Some public_key"
    "std_decode (trim_space (ks_value (mf_signature m))) = Some signature"
    "manifest_payload m = Some payload" "ue_verify env public_key payload signature"
    "mf_channel m = uc_channel cfg"
    "a \<in> set (mf_artifacts m)" "at_os a = uc_os cfg" "at_arch a = uc_arch cfg" "artifact_ok env cfg a"
    "ue_semver_compare env (canonical_version env (mf_version m)) (canonical_version env (uc_current_version cfg)) > 0"
    "mf_minimum_version m \<noteq> [] \<longrightarrow>
       \<not> ue_semver_compare env (canonical_version env (uc_current_version cfg)) (canonical_version env (mf_minimum_version m)) < 0"
proof -
  obtain keys trust res m where refresh: "refresh_key_trust env ct clock cfg s = (Inr (keys, trust), s')"
    and out: "out = judge_manifest env (clock 2) (cfg\<lparr>uc_trusted_keys := keys\<rparr>) res m" "\<not> cr_update_available res"
    using assms by (rule check_update_offer)
  obtain a where a: "out = \<lparr>co_result = co_result out, co_manifest = Some m, co_artifact = Some a, co_error = None\<rparr>"
    "verify_manifest env (clock 2) (cfg\<lparr>uc_trusted_keys := keys\<rparr>) m = Inr a"
    "ue_semver_compare env (canonical_version env (mf_version m)) (canonical_version env (uc_current_version cfg)) > 0"
    "mf_minimum_version m \<noteq> [] \<longrightarrow>
       \<not> ue_semver_compare env (canonical_version env (uc_current_version cfg)) (canonical_version env (mf_minimum_version m)) < 0"
    using judge_manifest_offer [of env "clock 2" "cfg\<lparr>uc_trusted_keys := keys\<rparr>" res m] assms(2) out by auto
  note v = verify_manifest_Inr [OF a(2)]
  obtain key_text public_key signature payload where sig:
    "map_of keys (trim_space (ks_key_id (mf_signature m))) = Some key_text"
    "std_decode (trim_space key_text) = Some public_key"
    "std_decode (trim_space (ks_value (mf_signature m))) = Some signature"
    "manifest_payload m = Some payload" "ue_verify env public_key payload signature"
    using v(2) by (rule verify_signature_Inr) simp
  have art: "a \<in> set (mf_artifacts m)" "at_os a = uc_os cfg" "at_arch a = uc_arch cfg" "artifact_ok env cfg a"
    using check_artifacts_Inr [OF v(3)] by (auto simp: artifact_ok_def)
  have "co_error out = None" "co_manifest out = Some m" "co_artifact out = Some a" by (subst a(1), simp)+
  moreover have "mf_channel m = uc_channel cfg" using v(1) by simp
  ultimately show thesis using that refresh sig art a(3,4) by blast
qed

text \<open>
  C11: An update is offered only when it is authentic and fits.  If a check reports an available
  update, it reports no error, and the manifest is signed, over exactly its content, by a key
  the refresh of that very check left in force (with a center configured: not one the fetched
  keyset revokes); the manifest is for the configured channel; the artifact is one of the
  manifest's, for this operating system and architecture, of allowed size, with a digest and a
  safe address and file name; the version is newer than the running one, which in turn is not
  below the manifest's minimum.
\<close>

theorem offered_update_is_authentic:
  assumes "check_update env ct clock cfg s = (out, s')" "cr_update_available (co_result out)"
  shows "\<exists>m a keys trust key_text public_key signature payload.
      co_error out = None \<and> co_manifest out = Some m \<and> co_artifact out = Some a
    \<and> refresh_key_trust env ct clock cfg s = (Inr (keys, trust), s')
    \<and> map_of keys (trim_space (ks_key_id (mf_signature m))) = Some key_text
    \<and> std_decode (trim_space key_text) = Some public_key
    \<and> std_decode (trim_space (ks_value (mf_signature m))) = Some signature
    \<and> manifest_payload m = Some payload \<and> ue_verify env public_key payload signature
    \<and> (trim_space (uc_key_status_url cfg) \<noteq> [] \<longrightarrow>
        (\<exists>doc. fetch_keyset env ct (uc_key_status_url cfg) = Inr doc
          \<and> (\<forall>r\<in>set (kd_keys doc). tk_key_id r = trim_space (ks_key_id (mf_signature m)) \<longrightarrow> tk_status r \<noteq> KeyStatusRevoked)))
    \<and> mf_channel m = uc_channel cfg
    \<and> a \<in> set (mf_artifacts m) \<and> at_os a = uc_os cfg \<and> at_arch a = uc_arch cfg \<and> artifact_ok env cfg a
    \<and> ue_semver_compare env (canonical_version env (mf_version m)) (canonical_version env (uc_current_version cfg)) > 0
    \<and> (mf_minimum_version m \<noteq> [] \<longrightarrow>
        \<not> ue_semver_compare env (canonical_version env (uc_current_version cfg)) (canonical_version env (mf_minimum_version m)) < 0)"
proof -
  obtain keys trust m a key_text public_key signature payload where
    refresh: "refresh_key_trust env ct clock cfg s = (Inr (keys, trust), s')"
    and key: "map_of keys (trim_space (ks_key_id (mf_signature m))) = Some key_text"
    and rest: "co_error out = None" "co_manifest out = Some m" "co_artifact out = Some a"
      "std_decode (trim_space key_text) = Some public_key" "std_decode (trim_space (ks_value (mf_signature m))) = Some signature"
      "manifest_payload m = Some payload" "ue_verify env public_key payload signature" "mf_channel m = uc_channel cfg"
      "a \<in> set (mf_artifacts m)" "at_os a = uc_os cfg" "at_arch a = uc_arch cfg" "artifact_ok env cfg a"
      "ue_semver_compare env (canonical_version env (mf_version m)) (canonical_version env (uc_current_version cfg)) > 0"
      "mf_minimum_version m \<noteq> [] \<longrightarrow>
        \<not> ue_semver_compare env (canonical_version env (uc_current_version cfg)) (canonical_version env (mf_minimum_version m)) < 0"
    using assms by (rule check_update_signed)
  have "\<exists>doc. fetch_keyset env ct (uc_key_status_url cfg) = Inr doc
      \<and> (\<forall>r\<in>set (kd_keys doc). tk_key_id r = trim_space (ks_key_id (mf_signature m)) \<longrightarrow> tk_status r \<noteq> KeyStatusRevoked)"
    if url: "trim_space (uc_key_status_url cfg) \<noteq> []"
    by (rule refresh_key_trust_Inr [OF refresh url])
      (use key effective_not_revoked validate_keyset_Inr(2) in blast)
  with refresh key rest show ?thesis by blast
qed

section \<open>A center and its panel\<close>

text \<open>
  An instance of the parameters: a digest that keeps the first 32 bytes, one key whose only signature is
  64 times the letter \<open>s\<close>, and versions that are equal or in the order v1, v2.
\<close>

definition demo_now :: time where
  "demo_now = 24 * hour"

definition demo_public :: "char \<Rightarrow> string" where
  "demo_public c = replicate 32 c"

definition demo_id :: "char \<Rightarrow> string" where
  "demo_id c = format_hex (take 8 (demo_public c))"

definition demo_key :: "char \<Rightarrow> string \<Rightarrow> trusted_key_record" where
  "demo_key c status =
     \<lparr>tk_key_id = demo_id c, tk_algorithm = ''Ed25519'', tk_public_key = std_encode (demo_public c),
      tk_status = status, tk_created_at = \<lparr>instant = demo_now, zone = 0\<rparr>,
      tk_activated_at = Some \<lparr>instant = demo_now, zone = 0\<rparr>, tk_retired_at = Some \<lparr>instant = demo_now, zone = 0\<rparr>,
      tk_revoked_at = Some \<lparr>instant = demo_now, zone = 0\<rparr>, tk_revocation_reason = ''lost''\<rparr>"

definition demo_signature :: keyset_signature where
  "demo_signature = \<lparr>ks_key_id = demo_id CHR ''A'', ks_value = std_encode (replicate 64 CHR ''s'')\<rparr>"

definition demo_doc :: "64 word \<Rightarrow> string \<Rightarrow> keyset_document" where
  "demo_doc revision status =
     \<lparr>kd_schema_version = 1, kd_revision = revision, kd_generated_at = \<lparr>instant = demo_now, zone = 0\<rparr>,
      kd_active_key_id = demo_id CHR ''A'', kd_keys = [demo_key CHR ''A'' KeyStatusActive, demo_key CHR ''B'' status],
      kd_signatures = [demo_signature]\<rparr>"

definition demo_manifest :: manifest where
  "demo_manifest =
     \<lparr>mf_schema_version = 1, mf_version = ''v2'', mf_channel = ''stable'', mf_published_at = \<lparr>instant = demo_now, zone = 0\<rparr>,
      mf_minimum_version = [], mf_release_notes = [],
      mf_artifacts = [\<lparr>at_os = ''linux'', at_arch = ''amd64'', at_url = ''u'', at_sha256 = replicate 64 CHR ''0'',
                       at_size = 5, at_file_name = ''one.tgz''\<rparr>],
      mf_signature = demo_signature\<rparr>"

definition demo_digest :: "string \<Rightarrow> string" where
  "demo_digest s = take 32 (s @ replicate 32 (CHR 0x00))"

lemma demo_digest_public [simp]: "demo_digest (demo_public c) = demo_public c"
  by (simp add: demo_digest_def demo_public_def)

definition demo_state :: "string \<Rightarrow> trust_state" where
  "demo_state status = next_state demo_now (demo_doc 1 status) (replicate 64 CHR ''0'')"

definition demo_next :: "keyset_document \<Rightarrow> trust_state" where
  "demo_next doc = next_state demo_now doc (format_hex (demo_digest (the (keyset_payload doc))))"

text \<open>The trust file with the first keyset, in a code for that keyset and the next one.\<close>

definition demo_file :: trust_file where
  "demo_file = TrustFile [CHR ''1'', CHR 0x0A]"

definition demo_env :: "keyset_document \<Rightarrow> update_env" where
  "demo_env doc =
     \<lparr>ue_sha256 = demo_digest, ue_verify = (\<lambda>pk payload sg. pk = demo_public CHR ''A'' \<and> sg = replicate 64 CHR ''s''),
      ue_semver_valid = (\<lambda>_. True),
      ue_semver_compare = (\<lambda>a b. if a = b then 0 else if a = ''v2'' then 1 else - 1),
      ue_parse_url = (\<lambda>_. Some \<lparr>url_scheme = ''https'', url_host = ''c'', url_hostname = ''c'', url_has_user = False, url_fragment = []\<rparr>),
      ue_loopback_ip = (\<lambda>_. False), ue_equal_fold = (=), ue_lower = id,
      ue_decode_keyset = (\<lambda>_. Some (doc, JsonEof)), ue_decode_manifest = (\<lambda>_. Some (demo_manifest, JsonEof)),
      ue_encode_state = (\<lambda>st. if st = demo_state KeyStatusRevoked then Some ''1'' else if st = demo_next doc then Some ''2'' else None),
      ue_decode_state = (\<lambda>text. if text = [CHR ''1'', CHR 0x0A] then Some (demo_state KeyStatusRevoked, JsonEof)
                          else if text = [CHR ''2'', CHR 0x0A] then Some (demo_next doc, JsonEof) else None)\<rparr>"

definition demo_center :: center where
  "demo_center = \<lparr>ct_get = (\<lambda>_. HttpResponse 200 (Some [])), ct_post = (\<lambda>_ _. HttpFailed)\<rparr>"

definition demo_config :: update_config where
  "demo_config =
     \<lparr>uc_enabled = True, uc_manifest_url = ''m'', uc_resolve_url = [], uc_key_status_url = ''k'',
      uc_trust_state_path = ''/t'', uc_instance_id = [], uc_channel = ''stable'',
      uc_trusted_keys = [(demo_id CHR ''A'', std_encode (demo_public CHR ''A''))], uc_max_package_bytes = 1048576,
      uc_max_expanded_bytes = 1048576, uc_backup_retention = 1, uc_install_dir = ''/o'', uc_current_version = ''v1'',
      uc_os = ''linux'', uc_arch = ''amd64''\<rparr>"

lemma demo_time: "marshal_time \<lparr>instant = demo_now, zone = 0\<rparr> \<noteq> None"
  by code_simp

lemma demo_ids: "demo_id CHR ''A'' = ''4141414141414141''" "demo_id CHR ''B'' = ''4242424242424242''"
  by code_simp+

lemma demo_key_sel [simp]: "tk_key_id (demo_key c s) = demo_id c" "tk_status (demo_key c s) = s"
    "tk_public_key (demo_key c s) = std_encode (demo_public c)"
  by (simp_all add: demo_key_def)

lemma demo_decode: "decode_trusted_key (demo_id CHR ''A'') (std_encode (demo_public c)) = Inr (demo_public c)"
  "decode_trusted_key (demo_id CHR ''B'') (std_encode (demo_public c)) = Inr (demo_public c)"
  unfolding demo_ids by (simp_all add: decode_trusted_key_Inr std_round_trip demo_public_def go_simps)

lemma demo_payload: "\<exists>p. keyset_payload (demo_doc revision status) = Some p"
proof -
  obtain t where t: "marshal_time \<lparr>instant = demo_now, zone = 0\<rparr> = Some t" using demo_time by blast
  have "\<exists>j. key_json (demo_key c st) = Some j" for c st
    using t by (simp add: key_json_def json_object_def stamp_field_def text_field_def demo_key_def)
  then show ?thesis
    using t by (auto simp: keyset_payload_def demo_doc_def json_object_def json_array_def dest: not_None_eq [THEN iffD2])
qed

lemma demo_valid:
  assumes "0 < revision" "status \<in> {KeyStatusStaged, KeyStatusRetired, KeyStatusRevoked}"
  shows "\<exists>p. validate_keyset (demo_env doc) (demo_now) (demo_doc revision status) = Inr (p, format_hex (demo_digest p))"
proof -
  obtain p where p: "keyset_payload (demo_doc revision status) = Some p" using demo_payload by blast
  let ?A = "demo_key CHR ''A'' KeyStatusActive" and ?B = "demo_key CHR ''B'' status"
  have A: "check_key (demo_env doc) ?A Map.empty 0 = Inr ([demo_id CHR ''A'' \<mapsto> ?A], 1)"
    using demo_decode(1) by (simp add: check_key_def Let_def demo_key_def demo_env_def demo_id_def demo_now_def)
  have B: "check_key (demo_env doc) ?B [demo_id CHR ''A'' \<mapsto> ?A] 1 = Inr ([demo_id CHR ''A'' \<mapsto> ?A, demo_id CHR ''B'' \<mapsto> ?B], 1)"
    using demo_decode(2) assms(2) demo_ids by (auto simp: check_key_def Let_def demo_key_def demo_env_def demo_id_def demo_now_def go_simps)
  have keys: "check_keys (demo_env doc) (kd_keys (demo_doc revision status)) Map.empty 0
      = Inr ([demo_id CHR ''A'' \<mapsto> ?A, demo_id CHR ''B'' \<mapsto> ?B], 1)"
    using A B by (simp add: demo_doc_def)
  have sigs: "check_signatures [demo_id CHR ''A'' \<mapsto> ?A, demo_id CHR ''B'' \<mapsto> ?B] [demo_signature] [] = Inr ()"
    using demo_ids by (simp add: demo_signature_def std_round_trip Let_def demo_key_def)
  show ?thesis
    unfolding validate_keyset_def keys p using sigs p assms(1) demo_ids
    by (auto simp: demo_doc_def demo_env_def demo_now_def word_less_nat_alt)
qed

lemma demo_fetch: "fetch_keyset (demo_env doc) demo_center (uc_key_status_url demo_config) = Inr doc"
  by (simp add: fetch_keyset_def demo_env_def demo_config_def validate_remote_url_def get_document_def demo_center_def
      read_limited_def ensure_json_eof_def)

lemma demo_static: "clone_trusted_keys (uc_trusted_keys demo_config) = uc_trusted_keys demo_config"
  using demo_ids by (simp add: clone_trusted_keys_def demo_config_def go_simps)

lemma demo_accepted:
  assumes "map_of trusted (demo_id CHR ''A'') = Some (std_encode (demo_public CHR ''A''))"
  shows "verify_keyset (demo_env doc) (demo_doc revision status) payload trusted = Inr ()"
  using assms demo_decode(1)
  by (simp add: verify_keyset_def demo_doc_def signature_accepted_def demo_signature_def std_round_trip demo_env_def)

abbreviation "demo_clock \<equiv> (\<lambda>_::nat. demo_now)"

text \<open>The panel's next refresh, when the trust file holds a keyset with the two keys of the center.\<close>

lemma demo_state_facts: "trust_state_valid (demo_state status)" "ts_revision (demo_state status) = 1"
    "ts_keys (demo_state status) = [demo_key CHR ''A'' KeyStatusActive, demo_key CHR ''B'' status]"
  using demo_ids by (simp_all add: demo_state_def next_state_def demo_doc_def trust_state_valid_def demo_now_def)

lemma demo_stored: "stored_state (demo_env doc) demo_file = Some (demo_state KeyStatusRevoked)"
  using demo_state_facts(1) by (simp add: stored_state_def decode_trust_state_def demo_file_def demo_env_def ensure_json_eof_def)

lemma demo_refresh_two:
  "refresh_key_trust (demo_env (demo_doc 2 KeyStatusRetired)) demo_center demo_clock demo_config (healthy demo_file)
    = (Inr (effective_trusted_keys (uc_trusted_keys demo_config) (kd_keys (demo_doc 2 KeyStatusRetired)),
            center_result (demo_doc 2 KeyStatusRetired) (effective_trusted_keys (uc_trusted_keys demo_config) (kd_keys (demo_doc 2 KeyStatusRetired)))),
       healthy (TrustFile [CHR ''2'', CHR 0x0A]))"
proof -
  let ?doc = "demo_doc 2 KeyStatusRetired" and ?env = "demo_env (demo_doc 2 KeyStatusRetired)" and ?st = "demo_state KeyStatusRevoked"
  obtain p where valid: "validate_keyset ?env (demo_now) ?doc = Inr (p, format_hex (demo_digest p))"
    using demo_valid [of 2 KeyStatusRetired] by auto
  then have p: "keyset_payload ?doc = Some p" using validate_keyset_Inr(5) by blast
  have "distinct (map tk_key_id (ts_keys ?st))" using demo_ids by (simp add: demo_state_facts)
  then have "map_of (effective_trusted_keys (uc_trusted_keys demo_config) (ts_keys ?st)) (demo_id CHR ''A'')
      = Some (std_encode (demo_public CHR ''A''))"
    by (simp add: map_of_effective demo_state_facts)
  then have signed: "verify_keyset ?env ?doc p (effective_trusted_keys (uc_trusted_keys demo_config) (ts_keys ?st)) = Inr ()"
    by (rule demo_accepted)
  have less: "ts_revision ?st < kd_revision ?doc" by (simp add: demo_doc_def demo_state_facts)
  moreover have "key_ids ?st \<subseteq> tk_key_id ` set (kd_keys ?doc)" by (auto simp: demo_doc_def demo_state_facts)
  ultimately have progress: "check_progress (Some ?st) ?doc (format_hex (demo_digest p)) = Inr ()"
    by (auto simp: check_progress_def reject_removed_keys_Inr)
  have "next_state demo_now ?doc (format_hex (demo_digest p)) = demo_next ?doc" by (simp add: demo_next_def p)
  moreover have "ts_revision (demo_next ?doc) = 2" by (simp add: demo_next_def next_state_def demo_doc_def)
  then have "demo_next ?doc \<noteq> ?st" using demo_state_facts(2) [of KeyStatusRevoked] by auto
  ultimately have save: "save_trust_state ?env (next_state demo_now ?doc (format_hex (demo_digest p))) (healthy demo_file)
      = (Inr (), healthy (TrustFile [CHR ''2'', CHR 0x0A]))"
    by (simp add: save_trust_state_def bnd_run demo_env_def)
  have addresses: "trim_space (uc_key_status_url demo_config) \<noteq> []" "trim_space (uc_trust_state_path demo_config) \<noteq> []"
    by (simp_all add: demo_config_def go_simps)
  show ?thesis
    by (simp add: refresh_key_trust_def Let_def addresses demo_static bnd_run load_trust_state_healthy [OF demo_stored] of_result_run
        demo_fetch valid stored_keys_def signed progress save less)
qed

lemma demo_codec: "json_codec (demo_env (demo_doc 2 KeyStatusRetired))" "sha256_size (demo_env doc)"
proof -
  have k: "ascii (std_encode (demo_public CHR ''A''))" "ascii (std_encode (demo_public CHR ''B''))" by code_simp+
  have "list_all key_strings (kd_keys (demo_doc 2 KeyStatusRetired))"
    by (auto simp: demo_doc_def key_strings_def demo_key_def demo_id_def k ascii_format_hex intro!: ascii_valid_utf8)
      (simp_all add: ascii_def)
  moreover have "valid_utf8 (kd_active_key_id (demo_doc 2 KeyStatusRetired))"
    by (simp add: demo_doc_def demo_id_def ascii_format_hex ascii_valid_utf8)
  ultimately show "json_codec (demo_env (demo_doc 2 KeyStatusRetired))"
    unfolding json_codec_def by (auto simp: demo_env_def split: if_splits)
  show "sha256_size (demo_env doc)" by (auto simp: sha256_size_def demo_env_def demo_digest_def min_def)
qed

theorem trust_never_regresses_witness:
  "\<exists>st'. load_trust_state (demo_env (demo_doc 2 KeyStatusRetired)) (healthy (tables (run_ops
        (refresh_step (demo_env (demo_doc 2 KeyStatusRetired)) (uc_trust_state_path demo_config))
        [(demo_center, demo_clock, demo_config)] (healthy demo_file)))) = (Inr (Some st'), healthy (TrustFile [CHR ''2'', CHR 0x0A]))
     \<and> (st' = demo_state KeyStatusRevoked \<or> ts_revision (demo_state KeyStatusRevoked) < ts_revision st')"
proof -
  let ?env = "demo_env (demo_doc 2 KeyStatusRetired)"
  have "tables (run_ops (refresh_step ?env (uc_trust_state_path demo_config)) [(demo_center, demo_clock, demo_config)] (healthy demo_file))
      = TrustFile [CHR ''2'', CHR 0x0A]"
    by (simp add: refresh_step_def bnd_run demo_refresh_two)
  then show ?thesis
    using trust_never_regresses [OF demo_codec, of "healthy demo_file" "demo_state KeyStatusRevoked" "healthy demo_file"
        "uc_trust_state_path demo_config" "[(demo_center, demo_clock, demo_config)]"]
      load_trust_state_healthy [OF demo_stored] by auto
qed

theorem accepted_keyset_is_authorised_witness:
  "\<exists>keys trust s' doc payload sg.
     refresh_key_trust (demo_env (demo_doc 2 KeyStatusRetired)) demo_center demo_clock demo_config
       (healthy demo_file) = (Inr (keys, trust), s')
     \<and> keyset_payload doc = Some payload \<and> sg \<in> set (kd_signatures doc)
     \<and> signature_accepted (demo_env (demo_doc 2 KeyStatusRetired)) payload
         (effective_trusted_keys (clone_trusted_keys (uc_trusted_keys demo_config)) (ts_keys (demo_state KeyStatusRevoked))) sg"
proof -
  let ?s = "healthy demo_file" and ?env = "demo_env (demo_doc 2 KeyStatusRetired)"
  obtain keys trust s' where run: "refresh_key_trust ?env demo_center demo_clock demo_config ?s = (Inr (keys, trust), s')"
    using demo_refresh_two by blast
  have "trim_space (uc_key_status_url demo_config) \<noteq> []" by (simp add: demo_config_def go_simps)
  from accepted_keyset_is_authorised [OF this, where env = ?env and ct = demo_center and clock = demo_clock and s = ?s] run
  show ?thesis by (auto simp: file_keys_def demo_stored stored_keys_def)
qed

text \<open>
  Revocation is not final for the panel.  A key that the stored keyset revokes is in force
  again as soon as a later keyset, signed by the active key, lists it with another status: the
  panel checks that a known key is still listed, not in which order its status changes.
\<close>

theorem revoked_key_returns:
  "\<exists>keys trust s'.
     refresh_key_trust (demo_env (demo_doc 2 KeyStatusRetired)) demo_center demo_clock demo_config
       (healthy demo_file) = (Inr (keys, trust), s')
     \<and> (\<exists>r\<in>set (ts_keys (demo_state KeyStatusRevoked)). tk_key_id r = demo_id CHR ''B'' \<and> tk_status r = KeyStatusRevoked)
     \<and> map_of keys (demo_id CHR ''B'') = Some (std_encode (demo_public CHR ''B''))"
proof -
  have "distinct (map tk_key_id (kd_keys (demo_doc 2 KeyStatusRetired)))"
    using demo_ids by (simp add: demo_doc_def)
  note keys = map_of_effective [OF this, of "uc_trusted_keys demo_config" "demo_id CHR ''B''"]
  show ?thesis
    by (intro exI conjI, rule demo_refresh_two)
      (use keys demo_ids in \<open>auto simp: demo_state_facts demo_doc_def\<close>)
qed

abbreviation "demo_offer \<equiv> check_update (demo_env (demo_doc 2 KeyStatusRetired)) demo_center demo_clock demo_config
  (healthy demo_file)"

lemma demo_manifest_ok:
  assumes "map_of keys (demo_id CHR ''A'') = Some (std_encode (demo_public CHR ''A''))"
  shows "\<exists>a. verify_manifest (demo_env doc) demo_now (demo_config\<lparr>uc_trusted_keys := keys\<rparr>) demo_manifest = Inr a"
proof -
  let ?cfg = "demo_config\<lparr>uc_trusted_keys := keys\<rparr>"
  obtain t where t: "marshal_time \<lparr>instant = demo_now, zone = 0\<rparr> = Some t" using demo_time by blast
  have "manifest_payload demo_manifest \<noteq> None"
    using t by (simp add: manifest_payload_def demo_manifest_def json_object_def json_array_def artifact_json_def text_field_def)
  then have sig: "verify_signature (demo_env doc) ?cfg demo_manifest = Inr ()"
    using assms demo_ids(1)
    by (auto simp: verify_signature_def Let_def demo_manifest_def demo_signature_def std_round_trip demo_public_def demo_env_def go_simps)
  have d: "hex_length (replicate 64 CHR ''0'') = Some 32" by code_simp
  have l: "to_lower id (replicate 64 CHR ''0'') = replicate 64 CHR ''0''" by code_simp
  have art: "\<exists>a. check_artifacts (demo_env doc) ?cfg (mf_artifacts demo_manifest) [] None = Inr (Some a)"
    using d l by (simp add: demo_manifest_def demo_config_def demo_env_def validate_remote_url_def go_simps)
  have v: "valid_version (demo_env doc) ''v2''"
    by (simp add: valid_version_def canonical_version_def demo_env_def go_simps)
  have sel: "mf_schema_version demo_manifest = 1" "mf_version demo_manifest = ''v2''" "mf_channel demo_manifest = ''stable''"
    "uc_channel ?cfg = ''stable''" "instant (mf_published_at demo_manifest) = demo_now" "mf_minimum_version demo_manifest = []"
    "mf_artifacts demo_manifest \<noteq> []" "length (mf_artifacts demo_manifest) \<le> 16"
    by (simp_all add: demo_manifest_def demo_config_def)
  show ?thesis
    unfolding verify_manifest_def sel(1-6) using sel(7,8) sig art v by (force simp: demo_now_def)
qed

lemma demo_offered:
  "\<exists>out s'. demo_offer = (out, s') \<and> cr_update_available (co_result out) \<and> co_error out = None
     \<and> co_manifest out = Some demo_manifest \<and> co_artifact out = Some (hd (mf_artifacts demo_manifest))"
proof -
  let ?env = "demo_env (demo_doc 2 KeyStatusRetired)"
  note run = demo_refresh_two
  define keys where "keys = effective_trusted_keys (uc_trusted_keys demo_config) (kd_keys (demo_doc 2 KeyStatusRetired))"
  have "distinct (map tk_key_id (kd_keys (demo_doc 2 KeyStatusRetired)))" using demo_ids by (simp add: demo_doc_def)
  then have "map_of keys (demo_id CHR ''A'') = Some (std_encode (demo_public CHR ''A''))"
    unfolding keys_def by (simp add: map_of_effective demo_doc_def)
  then obtain a where a: "verify_manifest ?env demo_now (demo_config\<lparr>uc_trusted_keys := keys\<rparr>) demo_manifest = Inr a"
    using demo_manifest_ok by blast
  have found: "find_manifest ?env demo_center (demo_config\<lparr>uc_trusted_keys := keys\<rparr>) = (''manifest'', Inr (Some demo_manifest))"
    by (simp add: find_manifest_def fetch_manifest_def decode_manifest_def get_document_def read_limited_def demo_center_def
        demo_config_def demo_env_def validate_remote_url_def ensure_json_eof_def)
  have versions: "canonical_version ?env (uc_current_version demo_config) = ''v1''" "canonical_version ?env ''v2'' = ''v2''"
    "uc_enabled demo_config" "mf_version demo_manifest = ''v2''" "mf_minimum_version demo_manifest = []"
    by (simp_all add: canonical_version_def demo_env_def demo_config_def demo_manifest_def go_simps)
  have "a = hd (mf_artifacts demo_manifest)"
    using check_artifacts_Inr [OF verify_manifest_Inr(3) [OF a]] by (auto simp: demo_manifest_def)
  then show ?thesis
    unfolding check_update_def Let_def run keys_def [symmetric] prod.case sum.case found using a versions
    by (simp add: judge_manifest_def Let_def) (simp add: demo_env_def)
qed

theorem offered_update_is_authentic_witness:
  "\<exists>m keys trust key_text public_key signature payload.
     cr_update_available (co_result (fst demo_offer)) \<and> co_manifest (fst demo_offer) = Some m
     \<and> refresh_key_trust (demo_env (demo_doc 2 KeyStatusRetired)) demo_center demo_clock demo_config
         (healthy demo_file) = (Inr (keys, trust), snd demo_offer)
     \<and> map_of keys (trim_space (ks_key_id (mf_signature m))) = Some key_text
     \<and> std_decode (trim_space key_text) = Some public_key
     \<and> std_decode (trim_space (ks_value (mf_signature m))) = Some signature
     \<and> manifest_payload m = Some payload \<and> ue_verify (demo_env (demo_doc 2 KeyStatusRetired)) public_key payload signature"
proof -
  obtain out s' where out: "demo_offer = (out, s')" "cr_update_available (co_result out)" using demo_offered by blast
  from offered_update_is_authentic [OF out] out(2) show ?thesis unfolding out(1) fst_conv snd_conv by blast
qed

end
