(* ===== verification/Update_Install_Props.thy ===== *)
theory Update_Install_Props
  imports Update_Install Panel_Update_Props
begin

text \<open>
  The properties of installing an update: what is staged is what was signed, and a rollback
  from a journal that passed the checks changes nothing outside the installation.
\<close>

section \<open>Paths below the installation\<close>

definition below :: "string \<Rightarrow> string \<Rightarrow> bool" where
  "below root p \<longleftrightarrow> is_abs p \<and> (\<exists>e es. elements p = elements root @ e # es)"

lemma below_join:
  assumes "is_abs root" "es \<noteq> []" "list_all plain_element es"
  shows "below root (join_path [root, join_with CHR ''/'' es])"
  using elements_join [OF assms] assms(2) by (cases es) (auto simp: below_def)

lemma join_element:
  assumes "is_abs root" "plain_element e"
  shows "elements (join_path [root, e]) = elements root @ [e]" "is_abs (join_path [root, e])" "below root (join_path [root, e])"
  using elements_join [OF assms(1), of "[e]"] below_join [OF assms(1), of "[e]"] assms(2) by simp_all

lemma below_within:
  assumes "is_abs root" "plain_element e" "path_within (join_path [root, e]) p"
  shows "below root p"
  using path_within_rooted [OF join_element(2) [OF assms(1,2)] assms(3)] join_element(1) [OF assms(1,2)]
  by (auto simp: below_def prefix_def)

lemma below_trans: "below root p \<Longrightarrow> below p q \<Longrightarrow> below root q"
  by (auto simp: below_def)

lemma below_clean: "below root p \<Longrightarrow> below root (clean p)"
  by (simp add: below_def elements_of_clean)

lemma plain_names: "plain_element ''updates''" "plain_element ''backups''" "plain_element ''releases''"
  "plain_element ''script-registry''" "plain_element ''bundled''" "plain_element ''current''" "plain_element ''one''"
  "plain_element ''staging''" "plain_element ''payload''" "n \<in> set managed_names \<Longrightarrow> plain_element n"
  by (auto simp: plain_element_def managed_names_def)

text \<open>A name beside a joined path.\<close>

lemma join_with_suffix: "join_with c (xs @ [y]) @ z = join_with c (xs @ [y @ z])"
  by (induction xs rule: induct_list012) auto

lemma elements_suffix:
  assumes "is_abs root" "plain_element e" "plain_element (e @ z)"
  shows "elements (join_path [root, e] @ z) = elements root @ [e @ z]" "below root (join_path [root, e] @ z)"
proof -
  let ?es = "elements root @ [e @ z]"
  have tidy: "tidy True (elements root)" using elements_tidy [of root] assms(1) by simp
  then have t: "tidy True ?es" using assms(3) by (auto simp: tidy_def)
  have "root \<noteq> []" using assms(1) by auto
  then have "clean (join_path [root, e]) = join_path [root, e]" by (simp add: join_path_def)
  then have "join_path [root, e] = CHR ''/'' # join_with CHR ''/'' (elements root @ [e])"
    using join_element(1,2) [OF assms(1,2)] by (simp add: clean_def)
  then have p: "join_path [root, e] @ z = CHR ''/'' # join_with CHR ''/'' ?es" by (simp add: join_with_suffix)
  have "split_on CHR ''/'' (join_with CHR ''/'' ?es) = ?es"
    using tidy_parts [OF t] by (intro split_join) auto
  then have "elements (CHR ''/'' # join_with CHR ''/'' ?es) = ?es"
    using tidy_fold [OF t] by (simp add: elements_def push_element_def)
  then show "elements (join_path [root, e] @ z) = ?es" "below root (join_path [root, e] @ z)"
    unfolding p by (auto simp: below_def)
qed

section \<open>Rollback\<close>

definition ops_below :: "string \<Rightarrow> rollback_state \<Rightarrow> bool" where
  "ops_below root st \<longleftrightarrow> (\<forall>w\<in>set (snd st). \<forall>p\<in>set (touched w). below root p)"

lemma ops_below_attempt:
  "ops_below root st \<Longrightarrow> (\<And>p. p \<in> set (touched w) \<Longrightarrow> below root p) \<Longrightarrow> ops_below root (attempt host failure w st)"
  by (auto simp: ops_below_def attempt_def)

lemma ops_below_note [simp]: "ops_below root (note_failure failure st) = ops_below root st"
  by (simp add: ops_below_def note_failure_def)

lemma ops_below_if: "(c \<Longrightarrow> ops_below root s) \<Longrightarrow> (\<not> c \<Longrightarrow> ops_below root t) \<Longrightarrow> ops_below root (if c then s else t)"
  by simp

text \<open>What the checks of the journal establish.\<close>

definition journal_ok :: "string \<Rightarrow> update_snapshot \<Rightarrow> bool" where
  "journal_ok install sn \<longleftrightarrow> CHR ''/'' \<notin> set (sn_operation_id sn)
     \<and> (sn_old_bundled_path sn \<noteq> [] \<longrightarrow> below install (sn_old_bundled_path sn))
     \<and> (\<forall>live\<in>set (sn_managed_files sn). below install live)"

lemma base_name_fixed:
  assumes "base_name x = x" "x \<noteq> []"
  shows "CHR ''/'' \<notin> set x \<or> x = ''/''"
proof -
  let ?p = "rev (dropWhile (\<lambda>c. c = CHR ''/'') (rev x))"
  show ?thesis
  proof (cases "?p = []")
    case True
    then show ?thesis using assms by (simp add: base_name_def)
  next
    case False
    then have "x = last (split_on CHR ''/'' ?p)" using assms unfolding base_name_def Let_def by (simp only: if_False)
    then show ?thesis using split_on_parts [OF last_in_set [OF split_on_nonempty]] by metis
  qed
qed

lemma base_name_slash:
  assumes "base_name p = ''/''"
  shows "elements p = []"
proof -
  let ?q = "rev (dropWhile (\<lambda>c. c = CHR ''/'') (rev p))"
  have "?q = []"
  proof (rule ccontr)
    assume "?q \<noteq> []"
    then have "last (split_on CHR ''/'' ?q) = ''/''" using assms by (auto simp: base_name_def Let_def split: if_splits)
    then show False using split_on_parts [OF last_in_set [OF split_on_nonempty, of "CHR ''/''" ?q]] by simp
  qed
  then have slashes: "set p \<subseteq> {CHR ''/''}" by (auto simp: dropWhile_eq_Nil_conv)
  then have "set (split_on CHR ''/'' p) \<subseteq> {[]}" by (induction p) auto
  moreover have "set ws \<subseteq> {[]} \<Longrightarrow> fold (push_element r) ws [] = []" for r ws
    by (induction ws) (auto simp: push_element_def)
  ultimately show ?thesis by (simp add: elements_def)
qed

lemma read_journal_ok:
  assumes "read_journal cfg content = Inr sn" and install: "is_abs (uc_install_dir cfg)"
  shows "journal_ok (uc_install_dir cfg) sn"
proof -
  let ?install = "uc_install_dir cfg"
  have g: "path_within (join_path [update_root cfg, ''backups'']) (sn_backup_path sn)" "sn_operation_id sn \<noteq> []"
    "base_name (sn_operation_id sn) = sn_operation_id sn" "base_name (sn_backup_path sn) = sn_operation_id sn"
    "sn_old_bundled_path sn \<noteq> [] \<longrightarrow> path_within (join_path [?install, ''script-registry'']) (sn_old_bundled_path sn)"
    "list_all (\<lambda>live. live \<in> set (allowed_managed ?install)) (sn_managed_files sn)"
    using assms(1) unfolding read_journal_def Let_def by (auto simp: guard_Inr split: option.splits)
  have root: "is_abs (update_root cfg)" "elements (update_root cfg) = elements ?install @ [''updates'']"
    unfolding update_root_def using join_element [OF install plain_names(1)] by simp_all
  have "sn_operation_id sn \<noteq> ''/''"
  proof
    assume "sn_operation_id sn = ''/''"
    then have "elements (sn_backup_path sn) = []" using g(4) by (intro base_name_slash) simp
    then show False
      using path_within_rooted [OF join_element(2) [OF root(1) plain_names(2)] g(1)] join_element(1) [OF root(1) plain_names(2)] by simp
  qed
  then have "CHR ''/'' \<notin> set (sn_operation_id sn)" using base_name_fixed [OF g(3,2)] by blast
  moreover have "below ?install live" if "live \<in> set (sn_managed_files sn)" for live
    using g(6) that join_element(3) [OF install plain_names(10)] by (auto simp: list_all_iff allowed_managed_def)
  moreover have "sn_old_bundled_path sn \<noteq> [] \<longrightarrow> below ?install (sn_old_bundled_path sn)"
    using g(5) below_within [OF install plain_names(4)] by blast
  ultimately show ?thesis by (simp add: journal_ok_def)
qed

lemma rollback_bundled_below:
  assumes "ops_below install st" "journal_ok install sn" "is_abs install" "install = uc_install_dir cfg"
    and missing: "\<And>ops. rh_lstat host ops [] = Some None"
  shows "ops_below install (rollback_bundled host cfg sn st)"
proof -
  let ?parent = "join_path [install, ''script-registry'']"
  define active pending where "active = join_path [?parent, ''bundled'']"
    and "pending = join_path [?parent, ''.bundled.new-'' @ sn_operation_id sn]"
  have parent: "is_abs ?parent" "below install ?parent" using join_element [OF assms(3) plain_names(4)] by simp_all
  have active: "below install active"
    unfolding active_def using below_trans [OF parent(2) join_element(3) [OF parent(1) plain_names(5)]] .
  have "plain_element (''.bundled.new-'' @ sn_operation_id sn)" using assms(2) by (simp add: plain_element_def journal_ok_def)
  then have pending: "below install pending"
    unfolding pending_def using below_trans [OF parent(2) join_element(3) [OF parent(1)]] by blast
  have backup: "below install (sn_old_bundled_path sn)" if "rh_lstat host ops (sn_old_bundled_path sn) = Some (Some n)" for ops n
    using assms(2) that missing [of ops] by (cases "sn_old_bundled_path sn = []") (auto simp: journal_ok_def)
  define st1 where "st1 = attempt host ''remove pending bundled scripts'' (RemoveAll pending) st"
  have st1: "ops_below install st1" unfolding st1_def by (rule ops_below_attempt) (use assms(1) pending in auto)
  have removed: "ops_below install (attempt host failure (RemoveAll active) st1)" for failure
    by (rule ops_below_attempt) (use st1 active in auto)
  show ?thesis
  proof (cases "rh_lstat host (snd st1) (sn_old_bundled_path sn)")
    case None
    then show ?thesis
      unfolding rollback_bundled_def Let_def assms(4) [symmetric]
      unfolding active_def [symmetric] pending_def [symmetric] st1_def [symmetric]
      using assms(1) st1 removed by (simp only: option.case) (intro ops_below_if; simp)
  next
    case (Some n)
    show ?thesis
    proof (cases n)
      case None
      then show ?thesis
        unfolding rollback_bundled_def Let_def assms(4) [symmetric]
        unfolding active_def [symmetric] pending_def [symmetric] st1_def [symmetric] Some
        using assms(1) st1 removed by (simp only: option.case) (intro ops_below_if; simp)
    next
      case (Some k)
      with \<open>rh_lstat host (snd st1) (sn_old_bundled_path sn) = Some n\<close>
      have found: "rh_lstat host (snd st1) (sn_old_bundled_path sn) = Some (Some k)" by simp
      have "ops_below install (attempt host f (Rename (sn_old_bundled_path sn) active) (attempt host g (RemoveAll active) st1))" for f g
        by (rule ops_below_attempt [OF removed]) (use backup [OF found] active in auto)
      then show ?thesis
        unfolding rollback_bundled_def Let_def assms(4) [symmetric]
        unfolding active_def [symmetric] pending_def [symmetric] st1_def [symmetric] found
        using assms(1) st1 removed by (simp only: option.case) (intro ops_below_if; simp)
    qed
  qed
qed

lemma remove_target_release_below:
  assumes "ops_below install st" "is_abs install" "install = uc_install_dir cfg"
  shows "ops_below install (remove_target_release host cfg target operation_id st)"
proof -
  have "below install (clean target)" if "path_within (join_path [install, ''releases'']) (clean target)"
    using below_within [OF assms(2) plain_names(3) that] .
  then show ?thesis
    unfolding remove_target_release_def Let_def assms(3) [symmetric]
    using assms(1) by (auto intro!: ops_below_attempt)
qed

lemma restore_files_below:
  assumes "\<And>live. live \<in> set lives \<Longrightarrow> below install live"
  shows "ops_below install st \<Longrightarrow> ops_below install (fold (restore_file host sn) lives st)"
  using assms
proof (induction lives arbitrary: st)
  case (Cons live lives)
  have "ops_below install (restore_file host sn live st)"
    unfolding restore_file_def Let_def using Cons.prems by (auto intro!: ops_below_attempt split: option.splits)
  then show ?case using Cons by simp
qed simp

lemma rollback_below:
  assumes "journal_ok install sn" "is_abs install" "install = uc_install_dir cfg"
    and missing: "\<And>ops. rh_lstat host ops [] = Some None"
    and start: "ops_below install ([], ops)"
  shows "ops_below install (rollback_update host cfg sn ops)"
proof -
  have current: "below install (join_path [install, ''current''])" by (rule join_element(3) [OF assms(2) plain_names(6)])
  have beside: "below install (join_path [install, ''current''] @ ''.new-rollback'')"
    by (rule elements_suffix(2) [OF assms(2) plain_names(6)]) (simp add: plain_element_def)
  define st1 :: rollback_state where "st1 = (if rh_active host ops then attempt host ''stop service'' StopService ([], ops) else ([], ops))"
  have st1: "ops_below install st1"
    unfolding st1_def by (intro ops_below_if ops_below_attempt start) auto
  define st2 where "st2 = (if sn_previous_target sn \<noteq> [] then attempt host ''restore release pointer''
      (Symlink (sn_previous_target sn) (join_path [install, ''current'']) ''rollback'') st1 else st1)"
  have st2: "ops_below install st2"
    unfolding st2_def by (intro ops_below_if ops_below_attempt st1) (use current beside in auto)
  note bundled = rollback_bundled_below [OF st2 assms(1-3) missing]
  note release = remove_target_release_below [OF bundled assms(2,3)]
  have lives: "\<And>live. live \<in> set (sn_managed_files sn) \<Longrightarrow> below install live" using assms(1) by (simp add: journal_ok_def)
  note files = restore_files_below [OF lives release]
  show ?thesis
    unfolding rollback_update_def rollback_files_def restart_service_def Let_def snd_conv assms(3) [symmetric] st1_def [symmetric]
    unfolding st2_def [symmetric]
    by (intro ops_below_if ops_below_attempt files) auto
qed

text \<open>
  C19: a rollback is confined to the installation.  Whatever a journal left behind by a crash
  says, if it passes the checks of \<open>readJournal\<close> then every path that the rollback removes,
  renames, overwrites or links lies strictly below the installation directory, and whatever the
  host answers along the way.  (The empty path never exists.)
\<close>

theorem rollback_is_confined:
  assumes "read_journal cfg content = Inr sn" and "is_abs (uc_install_dir cfg)"
    and "\<And>ops. rh_lstat host ops [] = Some None"
    and "w \<in> set (snd (rollback_update host cfg sn []))" and "p \<in> set (touched w)"
  shows "is_abs p \<and> (\<exists>e es. elements p = elements (uc_install_dir cfg) @ e # es)"
  using rollback_below [OF read_journal_ok [OF assms(1,2)] assms(2) refl assms(3), of "[]"] assms(4,5)
  by (auto simp: ops_below_def below_def)

text \<open>A journal and a host on which a rollback does everything.\<close>

definition demo_snapshot :: update_snapshot where
  "demo_snapshot = \<lparr>sn_operation_id = ''7'', sn_backup_path = ''/o/updates/backups/7'', sn_previous_target = ''releases/1'',
     sn_old_bundled_path = ''/o/script-registry/.bundled.old-7'', sn_bundled_switch_plan = True, sn_bundled_had_old = True,
     sn_bundled_switched = True, sn_target_release_path = ''/o/releases/2'', sn_was_active = True,
     sn_files = [(''/o/myadmin.db'', ''/o/updates/backups/7/db'')], sn_managed_files = [''/o/myadmin.db'']\<rparr>"

definition demo_rollback_host :: rollback_host where
  "demo_rollback_host = \<lparr>rh_ok = (\<lambda>_ _. True), rh_active = (\<lambda>_. True),
     rh_lstat = (\<lambda>_ p. if p = [] then Some None else Some (Some Directory)),
     rh_stat = (\<lambda>_ _. Some (Some RegularFile)), rh_read = (\<lambda>_ _. Some (Some ''7'')),
     rh_readlink = (\<lambda>_ _. Some (Some ''releases/1'')), rh_dirs = (\<lambda>_ _. None), rh_journal = (\<lambda>_. Some (Some demo_snapshot))\<rparr>"

lemma demo_install: "uc_install_dir demo_config = ''/o''"
  by (simp add: demo_config_def)

lemma demo_journal: "read_journal demo_config (Some (Some demo_snapshot)) = Inr demo_snapshot"
  by (simp add: read_journal_def update_root_def demo_install demo_snapshot_def base_name_def allowed_managed_def
      managed_names_def path_eval)

lemma demo_rollback: "Rename ''/o/script-registry/.bundled.old-7'' ''/o/script-registry/bundled''
    \<in> set (snd (rollback_update demo_rollback_host demo_config demo_snapshot []))"
  by (simp add: rollback_update_def rollback_files_def restart_service_def rollback_bundled_def remove_target_release_def restore_file_def attempt_def demo_install
      demo_snapshot_def demo_rollback_host_def path_eval Let_def owned_def)

theorem rollback_is_confined_witness:
  "\<exists>e es. elements ''/o/script-registry/.bundled.old-7'' = elements ''/o'' @ e # es"
proof -
  have "is_abs (uc_install_dir demo_config)" "uc_install_dir demo_config = ''/o''" by (simp_all add: demo_config_def)
  moreover have "\<And>ops. rh_lstat demo_rollback_host ops [] = Some None" by (simp add: demo_rollback_host_def)
  ultimately show ?thesis
    using rollback_is_confined [OF demo_journal _ _ demo_rollback, of "''/o/script-registry/.bundled.old-7''"] by simp
qed

section \<open>What is staged\<close>

lemma download_artifact_Inr:
  assumes "download_artifact env host cfg a = Inr content"
  shows "int (length content) = at_size a" "format_hex (ue_sha256 env content) = at_sha256 a"
  using assms by (auto simp: download_artifact_def Let_def split: if_splits download.splits option.splits)

lemma verify_candidate_Inr:
  assumes "verify_candidate env output expected = Inr u"
  shows "\<exists>text version. output = Some text \<and> version_line (split_on CHR 0x0A text) = Some version
    \<and> canonical_version env version = canonical_version env expected"
  using assms by (auto simp: verify_candidate_def split: option.splits if_splits)

lemma stage_update_Inr:
  assumes "stage_update env ct clock operation_id host cfg s = (Inr g, s')"
  obtains out u where "check_update env ct clock cfg s = (out, s')" "cr_update_available (co_result out)"
    "co_manifest out = Some (sg_manifest g)" "co_artifact out = Some (sg_artifact g)"
    "sh_journal host = Some False" "download_artifact env host cfg (sg_artifact g) = Inr (sg_content g)"
    "extract_release (sh_archive host) (join_path [join_path [update_root cfg, ''staging'', operation_id], ''payload''])
       (word_of_int (uc_max_expanded_bytes cfg)) (sh_untar host (sg_content g)) = (None, sg_ops g)"
    "verify_candidate env (sh_version host (sg_ops g) (join_path [join_path [join_path [update_root cfg, ''staging'', operation_id], ''payload''], ''one''])) (mf_version (sg_manifest g)) = Inr u"
proof -
  obtain out s1 where c: "check_update env ct clock cfg s = (out, s1)" by fastforce
  show thesis
    by (rule that [of out]) (use assms c in \<open>auto simp: stage_update_def Let_def split: if_splits option.splits sum.splits prod.splits\<close>)
qed

lemma payload_elements:
  assumes "is_abs (uc_install_dir cfg)" "plain_element operation_id"
  defines "payload \<equiv> join_path [join_path [update_root cfg, ''staging'', operation_id], ''payload'']"
  shows "is_abs payload"
    "elements payload = elements (uc_install_dir cfg) @ [''updates'', ''staging'', operation_id, ''payload'']"
proof -
  have root: "is_abs (update_root cfg)" "elements (update_root cfg) = elements (uc_install_dir cfg) @ [''updates'']"
    unfolding update_root_def using join_element [OF assms(1) plain_names(1)] by simp_all
  have "operation_id \<noteq> []" "update_root cfg \<noteq> []" using assms(2) root(1) by (auto simp: plain_element_def)
  then have eq: "join_path [update_root cfg, ''staging'', operation_id]
      = join_path [update_root cfg, join_with CHR ''/'' [''staging'', operation_id]]" by (simp add: join_path_def)
  note two = elements_join [OF root(1), of "[''staging'', operation_id]"]
  have staging: "is_abs (join_path [update_root cfg, ''staging'', operation_id])"
    "elements (join_path [update_root cfg, ''staging'', operation_id]) = elements (update_root cfg) @ [''staging'', operation_id]"
    unfolding eq using two plain_names(8) assms(2) by simp_all
  show "is_abs payload" "elements payload = elements (uc_install_dir cfg) @ [''updates'', ''staging'', operation_id, ''payload'']"
    unfolding payload_def using join_element [OF staging(1) plain_names(9)] staging(2) root(2) by simp_all
qed

text \<open>
  C18: what is staged is what was signed.  When staging succeeds, no journal of an earlier
  transaction is pending; the manifest is signed over exactly its content by a key which the
  refresh of this very run left in force; the package is one of the manifest's for this machine
  and has the signed size and digest; every file unpacked from it lies below the staging
  directory of this operation; and the program at \<open>payload/one\<close> below it, run as a test after the
  unpacking, names the signed version.
\<close>

theorem staged_release_is_signed:
  assumes "stage_update env ct clock operation_id host cfg s = (Inr g, s')"
    and "is_abs (uc_install_dir cfg)" and "plain_element operation_id"
  shows "sh_journal host = Some False
    \<and> (\<exists>keys trust key_text public_key signature payload.
        refresh_key_trust env ct clock cfg s = (Inr (keys, trust), s')
      \<and> map_of keys (trim_space (ks_key_id (mf_signature (sg_manifest g)))) = Some key_text
      \<and> std_decode (trim_space key_text) = Some public_key
      \<and> std_decode (trim_space (ks_value (mf_signature (sg_manifest g)))) = Some signature
      \<and> manifest_payload (sg_manifest g) = Some payload \<and> ue_verify env public_key payload signature)
    \<and> sg_artifact g \<in> set (mf_artifacts (sg_manifest g)) \<and> at_os (sg_artifact g) = uc_os cfg \<and> at_arch (sg_artifact g) = uc_arch cfg
    \<and> int (length (sg_content g)) = at_size (sg_artifact g)
    \<and> format_hex (ue_sha256 env (sg_content g)) = at_sha256 (sg_artifact g)
    \<and> (\<forall>w\<in>set (sg_ops g). is_abs (op_path w)
        \<and> prefix (elements (uc_install_dir cfg) @ [''updates'', ''staging'', operation_id, ''payload'']) (elements (op_path w)))
    \<and> (\<exists>text version. sh_version host (sg_ops g) (join_path [join_path [join_path [update_root cfg, ''staging'', operation_id], ''payload''], ''one'']) = Some text
        \<and> version_line (split_on CHR 0x0A text) = Some version
        \<and> canonical_version env version = canonical_version env (mf_version (sg_manifest g)))"
proof -
  obtain out u where st: "check_update env ct clock cfg s = (out, s')" "cr_update_available (co_result out)"
    "co_manifest out = Some (sg_manifest g)" "co_artifact out = Some (sg_artifact g)" "sh_journal host = Some False"
    "download_artifact env host cfg (sg_artifact g) = Inr (sg_content g)"
    "extract_release (sh_archive host) (join_path [join_path [update_root cfg, ''staging'', operation_id], ''payload''])
       (word_of_int (uc_max_expanded_bytes cfg)) (sh_untar host (sg_content g)) = (None, sg_ops g)"
    "verify_candidate env (sh_version host (sg_ops g) (join_path [join_path [join_path [update_root cfg, ''staging'', operation_id], ''payload''], ''one''])) (mf_version (sg_manifest g)) = Inr u"
    using assms(1) by (rule stage_update_Inr)
  obtain keys trust m a key_text public_key signature payload where
    refresh: "refresh_key_trust env ct clock cfg s = (Inr (keys, trust), s')"
    and co: "co_manifest out = Some m" "co_artifact out = Some a"
    and sig: "map_of keys (trim_space (ks_key_id (mf_signature m))) = Some key_text"
      "std_decode (trim_space key_text) = Some public_key" "std_decode (trim_space (ks_value (mf_signature m))) = Some signature"
      "manifest_payload m = Some payload" "ue_verify env public_key payload signature"
    and art: "a \<in> set (mf_artifacts m)" "at_os a = uc_os cfg" "at_arch a = uc_arch cfg"
    using st(1,2) by (rule check_update_signed)
  have same: "m = sg_manifest g" "a = sg_artifact g" using st(3,4) co by simp_all
  have ops: "is_abs (op_path w) \<and> prefix (elements (uc_install_dir cfg) @ [''updates'', ''staging'', operation_id, ''payload'']) (elements (op_path w))"
    if "w \<in> set (sg_ops g)" for w
    using extract_release_confined [OF payload_elements(1) [OF assms(2,3)] st(7)] that payload_elements(2) [OF assms(2,3)]
    by (auto simp: list_all_iff confined_def)
  show ?thesis
    using refresh sig art ops download_artifact_Inr [OF st(6)] verify_candidate_Inr [OF st(8)] st(5) unfolding same by blast
qed

definition demo_stage_host :: stage_host where
  "demo_stage_host = \<lparr>sh_lock = True, sh_journal = Some False, sh_status = (\<lambda>_. True), sh_mkdir = (\<lambda>_. True),
     sh_download = (\<lambda>_. Download 200 5 (Some (replicate 5 (CHR 0x00)))), sh_store = True,
     sh_untar = (\<lambda>_. take 2 demo_archive),
     sh_archive = \<lparr>av_writes = (\<lambda>_ _. True), av_stat = (\<lambda>_ _. Some \<lparr>fi_regular = True, fi_dir = True, fi_executable = True\<rparr>)\<rparr>,
     sh_version = (\<lambda>ops path. if \<exists>n. CreateFile path n True \<in> set ops then Some ''Version:v2'' else None)\<rparr>"

abbreviation "demo_staging \<equiv> stage_update (demo_env (demo_doc 2 KeyStatusRetired)) demo_center demo_clock ''7'' demo_stage_host demo_config
  (healthy demo_file)"

lemma demo_payload_path:
  "join_path [join_path [update_root demo_config, ''staging'', ''7''], ''payload''] = ''/o/updates/staging/7/payload''"
  "join_path [''/o/updates/staging/7/payload'', ''one''] = ''/o/updates/staging/7/payload/one''"
  "path_within ''/o/updates/staging/7/payload'' ''/o/updates/staging/7/payload/one''"
  "dir_path ''/o/updates/staging/7/payload/one'' = ''/o/updates/staging/7/payload''"
  by (simp_all add: update_root_def demo_install path_eval)

lemma demo_extract:
  "extract_release (sh_archive demo_stage_host) ''/o/updates/staging/7/payload''
     (word_of_int (uc_max_expanded_bytes demo_config)) (sh_untar demo_stage_host content)
   = (None, [MakeDirs ''/o/updates/staging/7/payload'', CreateFile ''/o/updates/staging/7/payload/one'' 7 True])"
  by (simp add: extract_release_def demo_archive_def extract_entry_def demo_archive_paths demo_payload_path(2-4) trim_prefix_def
      account_entry_def place_entry_def allowed_path_def do_write_def write_archive_file_def demo_stage_host_def
      no_extraction_def check_payload_def demo_config_def)

lemma demo_download:
  "download_artifact (demo_env doc) demo_stage_host demo_config (hd (mf_artifacts demo_manifest)) = Inr (replicate 5 (CHR 0x00))"
proof -
  have "format_hex (demo_digest (replicate 5 (CHR 0x00))) = replicate 64 CHR ''0''" by code_simp
  then show ?thesis by (simp add: download_artifact_def demo_manifest_def demo_stage_host_def demo_config_def demo_env_def Let_def)
qed

lemma demo_candidate: "verify_candidate (demo_env doc) (Some ''Version:v2'') ''v2'' = Inr ()"
proof -
  have "version_line (split_on CHR 0x0A ''Version:v2'') = Some ''v2''" by (simp add: go_simps trim_prefix_def)
  then show ?thesis by (simp add: verify_candidate_def)
qed

lemma demo_staged: "\<exists>g s'. demo_staging = (Inr g, s') \<and> sg_manifest g = demo_manifest"
proof -
  obtain out s' where out: "demo_offer = (out, s')" "cr_update_available (co_result out)" "co_error out = None"
    "co_manifest out = Some demo_manifest" "co_artifact out = Some (hd (mf_artifacts demo_manifest))"
    using demo_offered by blast
  have host: "sh_lock demo_stage_host" "sh_journal demo_stage_host = Some False" "sh_status demo_stage_host st"
    "sh_mkdir demo_stage_host p" "sh_version demo_stage_host [q, CreateFile f n True] f = Some ''Version:v2''" "mf_version demo_manifest = ''v2''" for st p q f n
    by (auto simp: demo_stage_host_def demo_manifest_def)
  show ?thesis
    unfolding stage_update_def Let_def demo_payload_path out(1) prod.case
    by (simp add: host out demo_download demo_extract demo_candidate)
qed

theorem staged_release_is_signed_witness:
  "\<exists>g s' text version. demo_staging = (Inr g, s') \<and> int (length (sg_content g)) = at_size (sg_artifact g)
    \<and> format_hex (ue_sha256 (demo_env (demo_doc 2 KeyStatusRetired)) (sg_content g)) = at_sha256 (sg_artifact g)
    \<and> sh_version demo_stage_host (sg_ops g) ''/o/updates/staging/7/payload/one'' = Some text \<and> version_line (split_on CHR 0x0A text) = Some version"
proof -
  obtain g s' where run: "demo_staging = (Inr g, s')" using demo_staged by blast
  have "is_abs (uc_install_dir demo_config)" "plain_element ''7''" by (simp_all add: demo_config_def plain_element_def)
  from staged_release_is_signed [OF run this, unfolded demo_payload_path] run show ?thesis by blast
qed

end
