(* ===== verification/Update_Disk.thy ===== *)
theory Update_Disk
  imports Update_Apply Update_Install_Props
begin

text \<open>
  A file system under the update transaction.  A disk maps the elements of an absolute path to
  what is there.  The effect of every operation of the installer on it is defined, also of one
  that fails, which may leave anything at the places it was about to replace; the programs that
  run meanwhile may write, too.  The answers of a host agree with a disk when they are what is
  on it.
\<close>

section \<open>Disks\<close>

datatype content = Text string | Saved update_snapshot

datatype entry = Regular content | Link string | Dir

type_synonym disk = "string list \<Rightarrow> entry option"

fun kind :: "entry \<Rightarrow> node" where
  "kind (Regular c) = RegularFile"
| "kind (Link t) = SymbolicLink"
| "kind Dir = Directory"

text \<open>\<open>os.MkdirAll\<close>\<close>

definition directories :: "string list \<Rightarrow> disk \<Rightarrow> disk" where
  "directories p d x = (if prefix x p \<and> d x = None then Some Dir else d x)"

text \<open>A tree copied or moved: \<open>q\<close> and below shows what \<open>p\<close> and below showed.\<close>

definition tree_at :: "disk \<Rightarrow> string list \<Rightarrow> string list \<Rightarrow> string list \<Rightarrow> entry option" where
  "tree_at d p q x = d (p @ drop (length q) x)"

text \<open>
  The effect of an operation that succeeds.  \<open>follow\<close> gives the content behind a source that is
  not itself a regular file.
\<close>

fun effect :: "(string list \<Rightarrow> content) \<Rightarrow> install_op \<Rightarrow> disk \<Rightarrow> disk" where
  "effect follow (Symlink target path suf) d =
     d(elements (path @ ''.new-'' @ suf) := None, elements path \<mapsto> Link target)"
| "effect follow (RemoveAll p) d = (\<lambda>x. if prefix (elements p) x then None else d x)"
| "effect follow (RemoveFile p) d = d(elements p := None)"
| "effect follow (Rename p q) d =
     (\<lambda>x. if prefix (elements q) x then tree_at d (elements p) (elements q) x
          else if prefix (elements p) x then None else d x)"
| "effect follow (CopyFile p q) d =
     (directories (butlast (elements q)) d)(elements q \<mapsto>
        Regular (case d (elements p) of Some (Regular c) \<Rightarrow> c | _ \<Rightarrow> follow (elements p)))"
| "effect follow (Mkdir p) d = d(elements p \<mapsto> Dir)"
| "effect follow (MkdirAll p) d = directories (elements p) d"
| "effect follow (CopyTree p q) d =
     (\<lambda>x. if prefix (elements q) x \<and> tree_at d (elements p) (elements q) x \<noteq> None
          then tree_at d (elements p) (elements q) x else directories (elements q) d x)"
| "effect follow (WriteFile p text) d = d(elements p \<mapsto> Regular (Text text))"
| "effect follow (WriteSnapshot p sn) d = (directories (butlast (elements p)) d)(elements p \<mapsto> Regular (Saved sn))"
| "effect follow (WriteStatus p state) d = (directories (butlast (elements p)) d)(elements p \<mapsto> Regular (Text state))"
| "effect follow _ d = d"

text \<open>
  The places an operation that fails may leave in any state.  A symbolic link, a copied file and
  the journal are put in place by a rename, which happens or does not.
\<close>

fun spoils :: "install_op \<Rightarrow> string list \<Rightarrow> bool" where
  "spoils (Symlink target path suf) x = (x = elements (path @ ''.new-'' @ suf))"
| "spoils (RemoveAll p) x = prefix (elements p) x"
| "spoils (CopyFile p q) x = strict_prefix x (elements q)"
| "spoils (MkdirAll p) x = prefix x (elements p)"
| "spoils (CopyTree p q) x = (prefix (elements q) x \<or> prefix x (elements q))"
| "spoils (WriteFile p text) x = (x = elements p)"
| "spoils (WriteSnapshot p sn) x = strict_prefix x (elements p)"
| "spoils (WriteStatus p state) x = strict_prefix x (elements p)"
| "spoils _ x = False"

fun runs_programs :: "install_op \<Rightarrow> bool" where
  "runs_programs StopService = True"
| "runs_programs StartService = True"
| "runs_programs WaitReady = True"
| "runs_programs (RunPreflight root) = True"
| "runs_programs _ = False"

text \<open>
  The unknowns: which operations succeed, what a failed one leaves, what is behind a link, and
  what the programs write (\<open>de_programs\<close>: the panel, old and new, up to the end of the operation).
\<close>

record disk_env =
  de_ok :: "install_op list \<Rightarrow> install_op \<Rightarrow> bool"
  de_debris :: "install_op list \<Rightarrow> disk"
  de_follow :: "install_op list \<Rightarrow> string list \<Rightarrow> content"
  de_programs :: "install_op list \<Rightarrow> disk \<Rightarrow> disk"

definition advance :: "disk_env \<Rightarrow> install_op list \<Rightarrow> install_op \<Rightarrow> disk \<Rightarrow> disk" where
  "advance de ops w d =
     (if runs_programs w then de_programs de ops d
      else if de_ok de ops w then effect (de_follow de ops) w d
      else (\<lambda>x. if spoils w x then de_debris de ops x else d x))"

definition disk_after :: "disk_env \<Rightarrow> disk \<Rightarrow> install_op list \<Rightarrow> disk" where
  "disk_after de base ops = snd (fold (\<lambda>w (made, d). (made @ [w], advance de made w d)) ops ([], base))"

lemma disk_after_Nil [simp]: "disk_after de base [] = base"
  by (simp add: disk_after_def)

lemma disk_after_snoc: "disk_after de base (ops @ [w]) = advance de ops w (disk_after de base ops)"
proof -
  let ?step = "\<lambda>w (made, d). (made @ [w], advance de made w d)"
  have made: "fst (fold ?step ops (made, d)) = made @ ops" for made d by (induction ops arbitrary: made d) auto
  obtain made d where run: "fold ?step ops ([], base) = (made, d)" by fastforce
  then have "made = ops" using made [of "[]" base] by simp
  with run show ?thesis by (simp add: disk_after_def)
qed

section \<open>What an operation leaves alone\<close>

fun footprint :: "install_op \<Rightarrow> string list \<Rightarrow> bool" where
  "footprint (Symlink target path suf) x = (x = elements (path @ ''.new-'' @ suf) \<or> x = elements path)"
| "footprint (RemoveAll p) x = prefix (elements p) x"
| "footprint (RemoveFile p) x = (x = elements p)"
| "footprint (Rename p q) x = (prefix (elements p) x \<or> prefix (elements q) x)"
| "footprint (CopyFile p q) x = prefix x (elements q)"
| "footprint (Mkdir p) x = (x = elements p)"
| "footprint (MkdirAll p) x = prefix x (elements p)"
| "footprint (CopyTree p q) x = (prefix (elements q) x \<or> prefix x (elements q))"
| "footprint (WriteFile p text) x = (x = elements p)"
| "footprint (WriteSnapshot p sn) x = prefix x (elements p)"
| "footprint (WriteStatus p state) x = prefix x (elements p)"
| "footprint _ x = False"

lemma prefix_butlast: "prefix x (butlast p) \<Longrightarrow> prefix x p"
  by (metis prefix_order.trans prefixeq_butlast)

lemma advance_frame:
  assumes "\<not> runs_programs w" "\<not> footprint w x"
  shows "advance de ops w d x = d x"
  using assms prefix_butlast
  by (cases w) (auto simp: advance_def directories_def strict_prefix_def)

end
