(* ===== verification/Update_Recovery.thy ===== *)
theory Update_Recovery
  imports Update_Disk
begin

text \<open>
  Why a rollback works: what the disk must look like for a snapshot to be enough to restore the
  installation, and that a rollback without failures then restores it.
\<close>

section \<open>The places of the transaction\<close>

definition site :: "update_config \<Rightarrow> string \<Rightarrow> bool" where
  "site cfg operation_id \<longleftrightarrow> is_abs (uc_install_dir cfg) \<and> plain_element operation_id \<and> (\<forall>c\<in>set operation_id. graphic c)"

abbreviation "home cfg \<equiv> elements (uc_install_dir cfg)"
abbreviation "at_current cfg \<equiv> home cfg @ [''current'']"
abbreviation "at_active cfg \<equiv> home cfg @ [''script-registry'', ''bundled'']"
abbreviation "at_old cfg operation_id \<equiv> home cfg @ [''script-registry'', ''.bundled.old-'' @ operation_id]"
abbreviation "at_next cfg operation_id \<equiv> home cfg @ [''script-registry'', ''.bundled.new-'' @ operation_id]"
abbreviation "at_journal cfg \<equiv> home cfg @ [''updates'', ''active-transaction.json'']"
abbreviation "at_backup cfg operation_id name \<equiv> home cfg @ [''updates'', ''backups'', operation_id, ''files'', name]"

definition live_path :: "update_config \<Rightarrow> string \<Rightarrow> string" where
  "live_path cfg name = join_path [uc_install_dir cfg, name]"

definition copy_path :: "update_config \<Rightarrow> string \<Rightarrow> string \<Rightarrow> string" where
  "copy_path cfg operation_id name = join_path [backup_dir cfg operation_id, ''files'', name]"

definition marker_path :: "string \<Rightarrow> string" where
  "marker_path dir = join_path [dir, ''.update-operation'']"

lemma join_two:
  assumes "is_abs root" "plain_element a" "plain_element b"
  shows "elements (join_path [root, a, b]) = elements root @ [a, b]" "is_abs (join_path [root, a, b])"
proof -
  have "root \<noteq> []" "a \<noteq> []" using assms(1,2) by (auto simp: plain_element_def)
  then have "join_path [root, a, b] = join_path [root, join_with CHR ''/'' [a, b]]" by (simp add: join_path_def)
  then show "elements (join_path [root, a, b]) = elements root @ [a, b]" "is_abs (join_path [root, a, b])"
    using elements_join [OF assms(1), of "[a, b]"] assms(2,3) by simp_all
qed

lemma plain_suffix: "plain_element e \<Longrightarrow> plain_element z \<Longrightarrow> plain_element (e @ ''.new-'' @ z)"
  "plain_element z \<Longrightarrow> plain_element (''.bundled.new-'' @ z)" "plain_element z \<Longrightarrow> plain_element (''.bundled.old-'' @ z)"
  by (auto simp: plain_element_def)

lemma plain_literals: "plain_element ''files''" "plain_element ''preflight''" "plain_element ''snapshot.json''"
  "plain_element ''status.json''" "plain_element ''active-transaction.json''" "plain_element ''.update-operation''"
  "plain_element ''rollback''"
  by (simp_all add: plain_element_def)

lemma site_paths:
  assumes "site cfg operation_id"
  shows "plain_element name \<Longrightarrow> elements (live_path cfg name) = home cfg @ [name]"
    "plain_element name \<Longrightarrow> plain_element suf \<Longrightarrow> elements (live_path cfg name @ ''.new-'' @ suf) = home cfg @ [name @ ''.new-'' @ suf]"
    "elements (update_root cfg) = home cfg @ [''updates'']" "is_abs (update_root cfg)"
    "elements (journal_path cfg) = at_journal cfg" "elements (status_path cfg) = home cfg @ [''updates'', ''status.json'']"
    "elements (backup_dir cfg operation_id) = home cfg @ [''updates'', ''backups'', operation_id]" "is_abs (backup_dir cfg operation_id)"
    "plain_element name \<Longrightarrow> elements (copy_path cfg operation_id name) = at_backup cfg operation_id name"
    "elements (bundled_active cfg) = at_active cfg" "is_abs (bundled_active cfg)"
    "elements (bundled_next cfg operation_id) = at_next cfg operation_id" "is_abs (bundled_next cfg operation_id)"
    "elements (bundled_old cfg operation_id) = at_old cfg operation_id"
    "elements (marker_path (bundled_active cfg)) = at_active cfg @ [''.update-operation'']"
    "elements (marker_path (bundled_next cfg operation_id)) = at_next cfg operation_id @ [''.update-operation'']"
proof -
  have install: "is_abs (uc_install_dir cfg)" and plain: "plain_element operation_id" using assms by (simp_all add: site_def)
  show "plain_element name \<Longrightarrow> elements (live_path cfg name) = home cfg @ [name]"
    unfolding live_path_def by (rule join_element(1) [OF install])
  show "plain_element name \<Longrightarrow> plain_element suf \<Longrightarrow> elements (live_path cfg name @ ''.new-'' @ suf) = home cfg @ [name @ ''.new-'' @ suf]"
    unfolding live_path_def using elements_suffix(1) [OF install _ plain_suffix(1)] .
  show root: "elements (update_root cfg) = home cfg @ [''updates'']" "is_abs (update_root cfg)"
    unfolding update_root_def using join_element [OF install plain_names(1)] by simp_all
  show "elements (journal_path cfg) = at_journal cfg" "elements (status_path cfg) = home cfg @ [''updates'', ''status.json'']"
    unfolding journal_path_def status_path_def
    using join_element(1) [OF root(2)] plain_literals root(1) by simp_all
  show dir: "elements (backup_dir cfg operation_id) = home cfg @ [''updates'', ''backups'', operation_id]" "is_abs (backup_dir cfg operation_id)"
    unfolding backup_dir_def using join_two [OF root(2) plain_names(2) plain] root(1) by simp_all
  show "plain_element name \<Longrightarrow> elements (copy_path cfg operation_id name) = at_backup cfg operation_id name"
    unfolding copy_path_def using join_two(1) [OF dir(2) plain_literals(1)] dir(1) by simp
  have registry: "is_abs (join_path [uc_install_dir cfg, ''script-registry''])"
    "elements (join_path [uc_install_dir cfg, ''script-registry'']) = home cfg @ [''script-registry'']"
    using join_element [OF install plain_names(4)] by simp_all
  show active: "elements (bundled_active cfg) = at_active cfg" "is_abs (bundled_active cfg)"
    unfolding bundled_active_def using join_element [OF registry(1) plain_names(5)] registry(2) by simp_all
  show pending: "elements (bundled_next cfg operation_id) = at_next cfg operation_id" "is_abs (bundled_next cfg operation_id)"
    unfolding bundled_next_def using join_element [OF registry(1) plain_suffix(2) [OF plain]] registry(2) by simp_all
  show "elements (bundled_old cfg operation_id) = at_old cfg operation_id"
    unfolding bundled_old_def using join_element(1) [OF registry(1) plain_suffix(3) [OF plain]] registry(2) by simp
  show "elements (marker_path (bundled_active cfg)) = at_active cfg @ [''.update-operation'']"
    "elements (marker_path (bundled_next cfg operation_id)) = at_next cfg operation_id @ [''.update-operation'']"
    unfolding marker_path_def using join_element(1) [OF active(2) plain_literals(6)] join_element(1) [OF pending(2) plain_literals(6)]
      active(1) pending(1) by simp_all
qed

text \<open>The marker holds the identifier and a line feed.\<close>

lemma newline_code: "newline = char_of (10 :: nat)"
proof -
  have "ord newline = 10" by (simp add: newline_def)
  then show ?thesis by (metis char_of_char)
qed

lemma trim_marker:
  assumes "site cfg operation_id"
  shows "trim_space (operation_id @ [newline]) = operation_id"
proof -
  have id: "operation_id \<noteq> []" "graphic (hd operation_id)" "graphic (last operation_id)"
    using assms by (auto simp: site_def plain_element_def)
  have "hd (operation_id @ [newline]) = hd operation_id" using id(1) by simp
  then have left: "trim_left (operation_id @ [newline]) = operation_id @ [newline]"
    using space_prefix_graphic [of "operation_id @ [newline]"] id(2) by (simp add: trim_left.simps [of "operation_id @ [newline]"])
  have suf: "space_suffix (operation_id @ [newline]) = Some [newline]"
  proof (cases "space_suffix (operation_id @ [newline])")
    case None
    moreover have "[newline] \<in> set space_runes" by (simp add: space_runes_def bytes_def newline_code)
    ultimately have "\<not> suffix [newline] (operation_id @ [newline])" unfolding space_suffix_def find_None_iff by blast
    then show ?thesis by (simp add: suffix_def)
  next
    case (Some w)
    then have w: "w \<in> set space_runes" "suffix w (operation_id @ [newline])" using space_suffix_Some by blast+
    have "last w = newline" using w space_runes_nonempty [OF w(1)] by (auto simp: suffix_def) (metis last_appendR last_snoc)
    then have "ord (last w) = 10" by (simp add: newline_def)
    with w(1) have "w = [newline]" by (auto simp: space_runes_def bytes_def newline_code)
    with Some show ?thesis by simp
  qed
  have "trim_right (operation_id @ [newline]) = trim_right operation_id"
    by (simp add: trim_right.simps [of "operation_id @ [newline]"] suf)
  also have "\<dots> = operation_id" using space_suffix_graphic [OF id(3)] by (simp add: trim_right.simps [of operation_id])
  finally show ?thesis by (simp add: trim_space_def left)
qed

section \<open>Snapshots that are enough\<close>

text \<open>
  \<open>orig\<close> is the disk when the service has been stopped, \<open>d\<close> the disk when a rollback begins.  Before
  the copies are complete the files are untouched; after that every file has its copy.
\<close>

definition files_ok :: "update_config \<Rightarrow> string \<Rightarrow> disk \<Rightarrow> update_snapshot \<Rightarrow> disk \<Rightarrow> bool" where
  "files_ok cfg operation_id orig sn d \<longleftrightarrow>
     sn_managed_files sn = [] \<and> (\<forall>n\<in>set managed_names. d (home cfg @ [n]) = orig (home cfg @ [n]))
     \<or> sn_managed_files sn = allowed_managed (uc_install_dir cfg) \<and>
       (\<forall>n\<in>set managed_names.
          case orig (home cfg @ [n]) of
            None \<Rightarrow> map_of (sn_files sn) (live_path cfg n) = None
          | Some e \<Rightarrow> map_of (sn_files sn) (live_path cfg n) = Some (copy_path cfg operation_id n)
              \<and> d (at_backup cfg operation_id n) = Some e \<and> (\<exists>c. e = Regular c))"

text \<open>An installation without a release pointer gets one, which stays.\<close>

definition pointer_ok :: "update_config \<Rightarrow> disk \<Rightarrow> update_snapshot \<Rightarrow> disk \<Rightarrow> bool" where
  "pointer_ok cfg orig sn d \<longleftrightarrow> orig (at_current cfg) = None
     \<or> sn_previous_target sn = [] \<and> d (at_current cfg) = orig (at_current cfg)
     \<or> sn_previous_target sn \<noteq> [] \<and> orig (at_current cfg) = Some (Link (sn_previous_target sn))"

definition scripts_ok :: "update_config \<Rightarrow> string \<Rightarrow> disk \<Rightarrow> update_snapshot \<Rightarrow> disk \<Rightarrow> bool" where
  "scripts_ok cfg operation_id orig sn d \<longleftrightarrow>
     (if \<not> sn_bundled_switch_plan sn then \<forall>r. d (at_active cfg @ r) = orig (at_active cfg @ r)
      else if sn_bundled_had_old sn
      then sn_old_bundled_path sn = bundled_old cfg operation_id
        \<and> (d (at_old cfg operation_id) \<noteq> None \<and> (\<forall>r. d (at_old cfg operation_id @ r) = orig (at_active cfg @ r))
           \<or> d (at_old cfg operation_id) = None \<and> (\<forall>r. d (at_active cfg @ r) = orig (at_active cfg @ r)))
      else (\<forall>r. orig (at_active cfg @ r) = None)
        \<and> ((\<forall>r. d (at_active cfg @ r) = None)
           \<or> d (at_active cfg @ [''.update-operation'']) = Some (Regular (Text (operation_id @ [newline])))))"

definition recoverable :: "update_config \<Rightarrow> string \<Rightarrow> disk \<Rightarrow> update_snapshot \<Rightarrow> disk \<Rightarrow> bool" where
  "recoverable cfg operation_id orig sn d \<longleftrightarrow> sn_operation_id sn = operation_id
     \<and> files_ok cfg operation_id orig sn d \<and> pointer_ok cfg orig sn d \<and> scripts_ok cfg operation_id orig sn d"

definition files_back :: "update_config \<Rightarrow> disk \<Rightarrow> disk \<Rightarrow> bool" where
  "files_back cfg orig d \<longleftrightarrow> (\<forall>n\<in>set managed_names. d (home cfg @ [n]) = orig (home cfg @ [n]))"

definition pointer_back :: "update_config \<Rightarrow> disk \<Rightarrow> disk \<Rightarrow> bool" where
  "pointer_back cfg orig d \<longleftrightarrow> orig (at_current cfg) \<noteq> None \<longrightarrow> d (at_current cfg) = orig (at_current cfg)"

definition scripts_back :: "update_config \<Rightarrow> disk \<Rightarrow> disk \<Rightarrow> bool" where
  "scripts_back cfg orig d \<longleftrightarrow> (\<forall>r. d (at_active cfg @ r) = orig (at_active cfg @ r))"

section \<open>Hosts and programs\<close>

definition watched :: "update_config \<Rightarrow> string \<Rightarrow> string list" where
  "watched cfg operation_id =
     map (live_path cfg) managed_names @ map (copy_path cfg operation_id) managed_names
     @ [live_path cfg ''current'', bundled_active cfg, bundled_old cfg operation_id, marker_path (bundled_active cfg)]"

text \<open>What the host says about these places is what is on the disk, unless it answers with an error.\<close>

definition answers :: "rollback_host \<Rightarrow> disk_env \<Rightarrow> disk \<Rightarrow> update_config \<Rightarrow> string \<Rightarrow> bool" where
  "answers host de base cfg operation_id \<longleftrightarrow> rh_ok host = de_ok de
     \<and> (\<forall>ops. \<forall>p\<in>set (watched cfg operation_id). let e = disk_after de base ops (elements p) in
          rh_lstat host ops p \<in> {None, Some (map_option kind e)}
        \<and> ((\<forall>t. e \<noteq> Some (Link t)) \<longrightarrow> rh_stat host ops p \<in> {None, Some (map_option kind e)})
        \<and> (\<forall>t. e = Some (Link t) \<longrightarrow> rh_readlink host ops p \<in> {None, Some (Some t)})
        \<and> (e = None \<longrightarrow> rh_read host ops p \<in> {None, Some None})
        \<and> (\<forall>t. e = Some (Regular (Text t)) \<longrightarrow> rh_read host ops p \<in> {None, Some (Some t)}))"

text \<open>
  The programs do not write the release pointer, the bundled scripts, the journal and the copies.
\<close>

definition guarded :: "update_config \<Rightarrow> string \<Rightarrow> string list \<Rightarrow> bool" where
  "guarded cfg operation_id x \<longleftrightarrow> x = at_current cfg \<or> prefix (at_active cfg) x \<or> prefix (at_old cfg operation_id) x
     \<or> x = at_journal cfg \<or> (\<exists>n\<in>set managed_names. x = at_backup cfg operation_id n)"

definition tame :: "disk_env \<Rightarrow> update_config \<Rightarrow> string \<Rightarrow> bool" where
  "tame de cfg operation_id \<longleftrightarrow> (\<forall>ops d x. guarded cfg operation_id x \<longrightarrow> de_programs de ops d x = d x)"

lemma answers_at:
  assumes "answers host de base cfg operation_id" "p \<in> set (watched cfg operation_id)" "elements p = x"
  shows "rh_lstat host ops p = None \<or> rh_lstat host ops p = Some (map_option kind (disk_after de base ops x))"
    "(\<forall>t. disk_after de base ops x \<noteq> Some (Link t)) \<Longrightarrow>
       rh_stat host ops p = None \<or> rh_stat host ops p = Some (map_option kind (disk_after de base ops x))"
    "disk_after de base ops x = Some (Link t) \<Longrightarrow> rh_readlink host ops p = None \<or> rh_readlink host ops p = Some (Some t)"
    "disk_after de base ops x = None \<Longrightarrow> rh_read host ops p = None \<or> rh_read host ops p = Some None"
    "disk_after de base ops x = Some (Regular (Text t)) \<Longrightarrow> rh_read host ops p = None \<or> rh_read host ops p = Some (Some t)"
  using assms unfolding answers_def Let_def by blast+

lemma recoverable_cong:
  assumes "\<And>x. guarded cfg operation_id x \<Longrightarrow> x \<noteq> at_journal cfg \<Longrightarrow> d' x = d x"
    and "sn_managed_files sn = [] \<Longrightarrow> \<forall>n\<in>set managed_names. d' (home cfg @ [n]) = d (home cfg @ [n])"
    and "recoverable cfg operation_id orig sn d"
  shows "recoverable cfg operation_id orig sn d'"
proof -
  have g: "d' (at_current cfg) = d (at_current cfg)" "\<And>r. d' (at_active cfg @ r) = d (at_active cfg @ r)"
    "\<And>r. d' (at_old cfg operation_id @ r) = d (at_old cfg operation_id @ r)" "d' (at_old cfg operation_id) = d (at_old cfg operation_id)"
    "\<And>n. n \<in> set managed_names \<Longrightarrow> d' (at_backup cfg operation_id n) = d (at_backup cfg operation_id n)"
    by (intro assms(1); auto simp: guarded_def)+
  have f: "files_ok cfg operation_id orig sn d'"
  proof (cases "sn_managed_files sn = []")
    case True
    then show ?thesis using assms(2,3) by (auto simp: recoverable_def files_ok_def allowed_managed_def managed_names_def)
  next
    case False
    then show ?thesis using g(5) assms(3) unfolding recoverable_def files_ok_def by (auto split: option.splits)
  qed
  have "pointer_ok cfg orig sn d'" using g(1) assms(3) by (auto simp: recoverable_def pointer_ok_def)
  moreover have "scripts_ok cfg operation_id orig sn d'"
    using assms(3) unfolding recoverable_def scripts_ok_def g(2-4) by blast
  ultimately show ?thesis using f assms(3) by (simp add: recoverable_def)
qed

section \<open>The phases of a rollback\<close>

text \<open>A phase changes nothing outside its region.\<close>

definition same_but :: "(string list \<Rightarrow> bool) \<Rightarrow> disk \<Rightarrow> disk \<Rightarrow> bool" where
  "same_but region d d' \<longleftrightarrow> (\<forall>x. \<not> region x \<longrightarrow> d' x = d x)"

lemma same_but_refl [simp]: "same_but region d d"
  by (simp add: same_but_def)

lemma same_but_trans: "same_but region d d' \<Longrightarrow> same_but region d' d'' \<Longrightarrow> same_but region d d''"
  unfolding same_but_def by auto

lemma same_butD: "same_but region d d' \<Longrightarrow> \<not> region x \<Longrightarrow> d' x = d x"
  by (auto simp: same_but_def)

lemma same_but_step:
  assumes "\<not> runs_programs w" "\<And>x. footprint w x \<Longrightarrow> region x"
  shows "same_but region (disk_after de base ops) (disk_after de base (ops @ [w]))"
  unfolding same_but_def disk_after_snoc using advance_frame [OF assms(1)] assms(2) by blast

lemma step_effect:
  "de_ok de ops w \<Longrightarrow> \<not> runs_programs w \<Longrightarrow>
     disk_after de base (ops @ [w]) = effect (de_follow de ops) w (disk_after de base ops)"
  by (simp add: disk_after_snoc advance_def)

lemma attempt_clean: "fst (attempt host failure w st) = [] \<longleftrightarrow> fst st = [] \<and> rh_ok host (snd st) w"
  "snd (attempt host failure w st) = snd st @ [w]"
  by (simp_all add: attempt_def)

lemma note_failure_clean [simp]: "fst (note_failure failure st) \<noteq> []" "snd (note_failure failure st) = snd st"
  by (simp_all add: note_failure_def)

lemma files_ok_cong:
  assumes "\<And>n. n \<in> set managed_names \<Longrightarrow> d' (home cfg @ [n]) = d (home cfg @ [n])"
    and "\<And>n. n \<in> set managed_names \<Longrightarrow> d' (at_backup cfg operation_id n) = d (at_backup cfg operation_id n)"
  shows "files_ok cfg operation_id orig sn d \<Longrightarrow> files_ok cfg operation_id orig sn d'"
  using assms unfolding files_ok_def by (auto split: option.splits)

lemma scripts_ok_cong:
  assumes "\<And>r. d' (at_active cfg @ r) = d (at_active cfg @ r)" "\<And>r. d' (at_old cfg operation_id @ r) = d (at_old cfg operation_id @ r)"
    and "scripts_ok cfg operation_id orig sn d"
  shows "scripts_ok cfg operation_id orig sn d'"
proof -
  have "d' (at_old cfg operation_id) = d (at_old cfg operation_id)" using assms(2) [of "[]"] by simp
  then show ?thesis using assms(3) by (simp only: scripts_ok_def assms(1,2))
qed

lemma managed_not: "n \<in> set managed_names \<Longrightarrow> n \<noteq> ''current'' \<and> n \<noteq> ''script-registry'' \<and> n \<noteq> ''releases'' \<and> n \<noteq> ''updates''
    \<and> n \<noteq> ''one'' \<and> n \<noteq> ''current.new-rollback''"
  by (auto simp: managed_names_def)

lemma stop_phase:
  assumes "tame de cfg operation_id" "recoverable cfg operation_id orig sn (disk_after de base ops)"
    and "sn_managed_files sn = [] \<Longrightarrow> \<not> rh_active host ops"
  shows "recoverable cfg operation_id orig sn (disk_after de base
     (snd (if rh_active host ops then attempt host ''stop service'' StopService ([], ops) else ([], ops))))"
proof (cases "rh_active host ops")
  case True
  have "recoverable cfg operation_id orig sn (de_programs de ops (disk_after de base ops))"
    by (rule recoverable_cong [OF _ _ assms(2)]) (use assms(1,3) True in \<open>auto simp: tame_def\<close>)
  then show ?thesis using True by (simp add: attempt_clean disk_after_snoc advance_def)
qed (use assms(2) in simp)

lemma pointer_phase:
  assumes "site cfg operation_id" "rh_ok host = de_ok de" "recoverable cfg operation_id orig sn (disk_after de base (snd st))"
  defines "st' \<equiv> (if sn_previous_target sn \<noteq> []
     then attempt host ''restore release pointer'' (Symlink (sn_previous_target sn) (join_path [uc_install_dir cfg, ''current'']) ''rollback'') st
     else st)"
  shows "fst st' = [] \<Longrightarrow> fst st = []" "fst st' = [] \<Longrightarrow> pointer_back cfg orig (disk_after de base (snd st'))"
    "files_ok cfg operation_id orig sn (disk_after de base (snd st'))" "scripts_ok cfg operation_id orig sn (disk_after de base (snd st'))"
proof -
  let ?w = "Symlink (sn_previous_target sn) (join_path [uc_install_dir cfg, ''current'']) ''rollback''"
  have places: "elements (join_path [uc_install_dir cfg, ''current'']) = at_current cfg"
    "elements (join_path [uc_install_dir cfg, ''current''] @ ''.new-rollback'') = home cfg @ [''current.new-rollback'']"
    using site_paths(1,2) [OF assms(1), of "''current''"] plain_names(6) plain_literals(7) by (simp_all add: live_path_def)
  have region: "same_but (\<lambda>x. x = at_current cfg \<or> x = home cfg @ [''current.new-rollback''])
      (disk_after de base (snd st)) (disk_after de base (snd st'))"
    unfolding st'_def using places by (auto simp: attempt_clean intro!: same_but_step)
  note same = same_butD [OF region]
  show "files_ok cfg operation_id orig sn (disk_after de base (snd st'))"
    by (rule files_ok_cong [of _ _ "disk_after de base (snd st)"]; (rule same)?) (use assms(3) managed_not in \<open>auto simp: recoverable_def\<close>)
  show "scripts_ok cfg operation_id orig sn (disk_after de base (snd st'))"
    by (rule scripts_ok_cong [of _ _ "disk_after de base (snd st)"]) (use assms(3) in \<open>auto intro!: same simp: recoverable_def\<close>)
  show "fst st = []" if "fst st' = []" using that by (auto simp: st'_def attempt_clean split: if_splits)
  show "pointer_back cfg orig (disk_after de base (snd st'))" if clean: "fst st' = []"
  proof (cases "sn_previous_target sn = []")
    case True
    then show ?thesis using assms(3) by (auto simp: st'_def pointer_back_def recoverable_def pointer_ok_def)
  next
    case False
    then have "rh_ok host (snd st) ?w" using clean by (simp add: st'_def attempt_clean)
    then have "disk_after de base (snd st') (at_current cfg) = Some (Link (sn_previous_target sn))"
      using False assms(2) places by (simp add: st'_def attempt_clean step_effect)
    then show ?thesis using assms(3) False by (auto simp: pointer_back_def recoverable_def pointer_ok_def)
  qed
qed

text \<open>The bundled scripts, the removal of the new release and the files.\<close>

abbreviation in_scripts :: "update_config \<Rightarrow> string \<Rightarrow> string list \<Rightarrow> bool" where
  "in_scripts cfg operation_id x \<equiv>
     prefix (at_active cfg) x \<or> prefix (at_old cfg operation_id) x \<or> prefix (at_next cfg operation_id) x"

lemma tree_at_append [simp]: "tree_at d p q (q @ r) = d (p @ r)"
  by (simp add: tree_at_def)

lemma bundled_names:
  "join_path [join_path [uc_install_dir cfg, ''script-registry''], ''bundled''] = bundled_active cfg"
  "join_path [join_path [uc_install_dir cfg, ''script-registry''], ''.bundled.new-'' @ operation_id] = bundled_next cfg operation_id"
  "join_path [bundled_active cfg, ''.update-operation''] = marker_path (bundled_active cfg)"
  by (simp_all add: bundled_active_def bundled_next_def marker_path_def)

lemma bundled_phase:
  assumes site: "site cfg operation_id" and ans: "answers host de base cfg operation_id"
    and ok: "scripts_ok cfg operation_id orig sn (disk_after de base (snd st))" "sn_operation_id sn = operation_id"
    and clean: "fst (rollback_bundled host cfg sn st) = []"
  shows "fst st = [] \<and> scripts_back cfg orig (disk_after de base (snd (rollback_bundled host cfg sn st)))
    \<and> same_but (in_scripts cfg operation_id) (disk_after de base (snd st))
        (disk_after de base (snd (rollback_bundled host cfg sn st)))"
proof (cases "sn_bundled_switch_plan sn")
  case False
  then show ?thesis using ok clean by (simp add: rollback_bundled_def scripts_ok_def scripts_back_def)
next
  case plan: True
  let ?D = "disk_after de base" and ?old = "sn_old_bundled_path sn" and ?active = "bundled_active cfg"
  define st1 where "st1 = attempt host ''remove pending bundled scripts'' (RemoveAll (bundled_next cfg operation_id)) st"
  define rest where "rest =
     (if sn_bundled_had_old sn then
        (case rh_lstat host (snd st1) ?old of
           Some (Some _) \<Rightarrow>
             let st' = attempt host ''remove new bundled scripts'' (RemoveAll ?active) st1 in
             if rh_ok host (snd st1) (RemoveAll ?active)
             then attempt host ''restore bundled scripts'' (Rename ?old ?active) st' else st'
         | None \<Rightarrow> note_failure ''inspect bundled backup'' st1
         | Some None \<Rightarrow>
             if sn_bundled_switched sn
                \<and> (rh_lstat host (snd st1) ?active \<noteq> Some (Some Directory)
                   \<or> owned (rh_read host (snd st1) (marker_path ?active)) operation_id)
             then note_failure ''bundled script backup is missing'' st1 else st1)
      else if owned (rh_read host (snd st1) (marker_path ?active)) operation_id
      then attempt host ''remove new bundled scripts'' (RemoveAll ?active) st1
      else if rh_read host (snd st1) (marker_path ?active) = None
      then note_failure ''inspect bundled ownership marker'' st1
      else st1)"
  have rest: "rollback_bundled host cfg sn st = rest"
    unfolding rollback_bundled_def Let_def rest_def st1_def ok(2) bundled_names by (simp only: plan not_True_eq_False if_False)
  note places = site_paths(10,12,14,15) [OF site]
  have host: "rh_ok host = de_ok de" using ans by (simp add: answers_def)
  have removed: "same_but (in_scripts cfg operation_id) (?D (snd st)) (?D (snd st1))"
    unfolding st1_def attempt_clean using places by (intro same_but_step) auto
  have "?D (snd st1) x = ?D (snd st) x" if "\<not> prefix (at_next cfg operation_id) x" for x
    unfolding st1_def attempt_clean disk_after_snoc using that places by (intro advance_frame) auto
  then have ok1: "scripts_ok cfg operation_id orig sn (?D (snd st1))"
    by (intro scripts_ok_cong [OF _ _ ok(1)]) simp_all
  note old = answers_at(1) [OF ans, of "bundled_old cfg operation_id" "at_old cfg operation_id" "snd st1"]
  note marker = answers_at(4,5) [OF ans, of "marker_path ?active" "at_active cfg @ [''.update-operation'']" "snd st1"]
  show ?thesis
  proof (cases "sn_bundled_had_old sn")
    case had: True
    then have sn: "?old = bundled_old cfg operation_id" using ok1 plan by (simp add: scripts_ok_def)
    show ?thesis
    proof (cases "rh_lstat host (snd st1) ?old")
      case None
      then show ?thesis using clean unfolding rest rest_def by (simp add: had)
    next
      case (Some info)
      then have info: "info = map_option kind (?D (snd st1) (at_old cfg operation_id))"
        using old places(3) sn by (simp add: watched_def)
      show ?thesis
      proof (cases info)
        case None
        then have "?D (snd st1) (at_old cfg operation_id) = None" using info by simp
        then have "scripts_back cfg orig (?D (snd st1))"
          using ok1 plan had by (auto simp: scripts_ok_def scripts_back_def)
        moreover have "rest = st1" using clean Some None unfolding rest rest_def by (auto simp: had split: if_splits)
        ultimately show ?thesis using clean removed unfolding rest by (simp add: st1_def attempt_clean)
      next
        case (Some k)
        with \<open>rh_lstat host (snd st1) ?old = Some info\<close> have found: "rh_lstat host (snd st1) ?old = Some (Some k)" by simp
        let ?v = "RemoveAll ?active" and ?w = "Rename (bundled_old cfg operation_id) ?active"
        have v: "rh_ok host (snd st1) ?v" "fst st1 = []" "rh_ok host (snd st1 @ [?v]) ?w" "snd rest = (snd st1 @ [?v]) @ [?w]"
          using clean found sn unfolding rest rest_def Let_def
          by (simp_all add: had attempt_clean split: if_splits)
        have "\<And>r. ?D (snd st1) (at_old cfg operation_id @ r) = orig (at_active cfg @ r)"
          using ok1 plan had info Some by (auto simp: scripts_ok_def)
        moreover have d: "?D (snd st1 @ [?v]) = effect (de_follow de (snd st1)) ?v (?D (snd st1))"
          "?D ((snd st1 @ [?v]) @ [?w]) = effect (de_follow de (snd st1 @ [?v])) ?w (?D (snd st1 @ [?v]))"
          by (intro step_effect; use v(1,3) host in simp)+
        have "?D (snd rest) (at_active cfg @ r) = ?D (snd st1) (at_old cfg operation_id @ r)" for r
          unfolding v(4) d by (simp add: places tree_at_def)
        ultimately have "scripts_back cfg orig (?D (snd rest))" by (simp add: scripts_back_def)
        moreover have "same_but (in_scripts cfg operation_id) (?D (snd st1)) (?D (snd rest))"
          unfolding v(4) by (rule same_but_trans [of _ _ "?D (snd st1 @ [?v])"]; rule same_but_step) (use places in auto)
        moreover have "fst st = []" using v(2) by (simp add: st1_def attempt_clean)
        ultimately show ?thesis using same_but_trans [OF removed] unfolding rest by blast
      qed
    qed
  next
    case had: False
    let ?m = "rh_read host (snd st1) (marker_path ?active)"
    have none: "\<And>r. orig (at_active cfg @ r) = None" using ok1 plan had by (simp add: scripts_ok_def)
    show ?thesis
    proof (cases "owned ?m operation_id")
      case True
      let ?v = "RemoveAll ?active"
      have v: "rh_ok host (snd st1) ?v" "fst st1 = []" "snd rest = snd st1 @ [?v]"
        using clean True unfolding rest rest_def by (simp_all add: had attempt_clean)
      have "scripts_back cfg orig (?D (snd rest))"
        using v(1) places none by (simp add: v(3) step_effect host scripts_back_def)
      moreover have "same_but (in_scripts cfg operation_id) (?D (snd st1)) (?D (snd rest))"
        unfolding v(3) by (rule same_but_step) (use places in auto)
      moreover have "fst st = []" using v(2) by (simp add: st1_def attempt_clean)
      ultimately show ?thesis using same_but_trans [OF removed] unfolding rest by blast
    next
      case False
      then have r: "rest = st1" "?m \<noteq> None" using clean unfolding rest rest_def by (auto simp: had split: if_splits)
      have "?D (snd st1) (at_active cfg @ [''.update-operation'']) \<noteq> Some (Regular (Text (operation_id @ [newline])))"
        using marker(2) [of "operation_id @ [newline]"] r(2) False places(4) trim_marker [OF site]
        by (auto simp: owned_def watched_def)
      then have "scripts_back cfg orig (?D (snd st1))" using ok1 plan had none by (auto simp: scripts_ok_def scripts_back_def)
      then show ?thesis using removed clean unfolding rest r(1) by (simp add: st1_def attempt_clean)
    qed
  qed
qed

lemma release_phase:
  assumes "site cfg operation_id" "fst (remove_target_release host cfg target owner st) = []"
  shows "fst st = [] \<and> same_but (prefix (home cfg @ [''releases''])) (disk_after de base (snd st))
    (disk_after de base (snd (remove_target_release host cfg target owner st)))"
proof -
  let ?root = "join_path [uc_install_dir cfg, ''releases'']"
  have root: "is_abs ?root" "elements ?root = home cfg @ [''releases'']"
    using assms(1) join_element [OF _ plain_names(3)] by (simp_all add: site_def)
  have inside: "prefix (home cfg @ [''releases'']) (elements (clean target))" if "path_within ?root (clean target)"
    using path_within_rooted [OF root(1) that] root(2) by simp
  have step: "same_but (prefix (home cfg @ [''releases''])) (disk_after de base ops) (disk_after de base (ops @ [RemoveAll (clean target)]))"
    if "path_within ?root (clean target)" for ops
    by (rule same_but_step) (use inside [OF that] prefix_order.trans in auto)
  let ?final = "remove_target_release host cfg target owner st"
  have "?final = st \<or> (\<exists>failure. ?final = note_failure failure st)
      \<or> path_within ?root (clean target) \<and> (\<exists>failure. ?final = attempt host failure (RemoveAll (clean target)) st)"
    unfolding remove_target_release_def Let_def by (simp split: if_split) blast
  then show ?thesis using assms(2) step by (auto simp: attempt_clean)
qed

definition copy_kept :: "update_config \<Rightarrow> string \<Rightarrow> disk \<Rightarrow> update_snapshot \<Rightarrow> disk \<Rightarrow> string \<Rightarrow> bool" where
  "copy_kept cfg operation_id orig sn d n \<longleftrightarrow>
     (case orig (home cfg @ [n]) of
        None \<Rightarrow> map_of (sn_files sn) (live_path cfg n) = None
      | Some e \<Rightarrow> map_of (sn_files sn) (live_path cfg n) = Some (copy_path cfg operation_id n)
          \<and> d (at_backup cfg operation_id n) = Some e \<and> (\<exists>c. e = Regular c))"

lemma restore_file_phase:
  assumes site: "site cfg operation_id" and host: "rh_ok host = de_ok de" and n: "n \<in> set managed_names"
    and kept: "copy_kept cfg operation_id orig sn (disk_after de base (snd st)) n"
    and clean: "fst (restore_file host sn (live_path cfg n) st) = []"
  shows "fst st = [] \<and> disk_after de base (snd (restore_file host sn (live_path cfg n) st)) (home cfg @ [n]) = orig (home cfg @ [n])
    \<and> same_but (\<lambda>x. prefix x (home cfg @ [n])) (disk_after de base (snd st))
        (disk_after de base (snd (restore_file host sn (live_path cfg n) st)))"
proof -
  let ?D = "disk_after de base" and ?v = "RemoveFile (live_path cfg n)" and ?copy = "copy_path cfg operation_id n"
  let ?w = "CopyFile ?copy (live_path cfg n)"
  have plain: "plain_element n" using plain_names(10) n by blast
  note places = site_paths(1,9) [OF site plain]
  have v: "fst st = []" "rh_ok host (snd st) ?v"
    using clean unfolding restore_file_def Let_def by (auto simp: attempt_clean split: option.splits)
  have d1: "?D (snd st @ [?v]) = (?D (snd st))(home cfg @ [n] := None)"
    using step_effect [of de "snd st" ?v] v(2) host places by simp
  have first: "same_but (\<lambda>x. prefix x (home cfg @ [n])) (?D (snd st)) (?D (snd st @ [?v]))"
    by (rule same_but_step) (use places in auto)
  show ?thesis
  proof (cases "orig (home cfg @ [n])")
    case None
    then have "restore_file host sn (live_path cfg n) st = attempt host ''remove migrated file'' ?v st"
      using kept by (simp add: restore_file_def Let_def copy_kept_def)
    then show ?thesis using v(1) d1 first None by (simp add: attempt_clean)
  next
    case (Some e)
    then obtain c where files: "map_of (sn_files sn) (live_path cfg n) = Some ?copy" "?D (snd st) (at_backup cfg operation_id n) = Some (Regular c)"
      "e = Regular c" using kept by (auto simp: copy_kept_def)
    have w: "rh_ok host (snd st @ [?v]) ?w" "snd (restore_file host sn (live_path cfg n) st) = (snd st @ [?v]) @ [?w]"
      using clean files(1) unfolding restore_file_def Let_def by (auto simp: attempt_clean split: option.splits)
    have d2: "?D ((snd st @ [?v]) @ [?w]) = effect (de_follow de (snd st @ [?v])) ?w (?D (snd st @ [?v]))"
      by (intro step_effect) (use w(1) host in simp_all)
    have "?D ((snd st @ [?v]) @ [?w]) (home cfg @ [n]) = Some (Regular c)"
      unfolding d2 d1 using files(2) places n by simp
    moreover have "same_but (\<lambda>x. prefix x (home cfg @ [n])) (?D (snd st @ [?v])) (?D ((snd st @ [?v]) @ [?w]))"
      by (rule same_but_step) (use places in auto)
    ultimately show ?thesis using v(1) same_but_trans [OF first] Some files(3) unfolding w(2) by metis
  qed
qed

lemma copy_kept_cong: "d' (at_backup cfg operation_id n) = d (at_backup cfg operation_id n) \<Longrightarrow>
    copy_kept cfg operation_id orig sn d n \<Longrightarrow> copy_kept cfg operation_id orig sn d' n"
  by (auto simp: copy_kept_def split: option.splits)

lemma restore_files_dirty: "fst st \<noteq> [] \<Longrightarrow> fst (fold (restore_file host sn) lives st) \<noteq> []"
proof (induction lives arbitrary: st)
  case (Cons live lives)
  have "fst (restore_file host sn live st) \<noteq> []"
    using Cons.prems unfolding restore_file_def Let_def by (auto simp: attempt_def note_failure_def split: option.splits)
  then show ?case using Cons.IH by simp
qed simp

lemma restore_files_phase:
  assumes site: "site cfg operation_id" and host: "rh_ok host = de_ok de"
  shows "set ns \<subseteq> set managed_names \<Longrightarrow> distinct ns \<Longrightarrow> \<forall>n\<in>set ns. copy_kept cfg operation_id orig sn (disk_after de base (snd st)) n \<Longrightarrow>
    fst (fold (restore_file host sn) (map (live_path cfg) ns) st) = [] \<Longrightarrow>
    fst st = [] \<and> (\<forall>n\<in>set ns. disk_after de base (snd (fold (restore_file host sn) (map (live_path cfg) ns) st)) (home cfg @ [n]) = orig (home cfg @ [n]))
    \<and> same_but (\<lambda>x. \<exists>n\<in>set ns. prefix x (home cfg @ [n])) (disk_after de base (snd st))
        (disk_after de base (snd (fold (restore_file host sn) (map (live_path cfg) ns) st)))"
proof (induction ns arbitrary: st)
  case (Cons n ns)
  let ?D = "disk_after de base" and ?st = "restore_file host sn (live_path cfg n) st"
  let ?final = "fold (restore_file host sn) (map (live_path cfg) ns) ?st"
  have n: "n \<in> set managed_names" "n \<notin> set ns" using Cons.prems by simp_all
  have clean: "fst ?final = []" using Cons.prems by simp
  have this_kept: "copy_kept cfg operation_id orig sn (?D (snd st)) n" using Cons.prems(3) by simp
  note phase = restore_file_phase [OF site host n(1) this_kept]
  have one: "same_but (\<lambda>x. prefix x (home cfg @ [n])) (?D (snd st)) (?D (snd ?st))" if "fst ?st = []"
    using phase [OF that] by blast
  have kept: "\<forall>m\<in>set ns. copy_kept cfg operation_id orig sn (?D (snd ?st)) m" if "fst ?st = []"
  proof
    fix m assume "m \<in> set ns"
    show "copy_kept cfg operation_id orig sn (?D (snd ?st)) m"
      by (rule copy_kept_cong [of _ _ _ _ "?D (snd st)"], rule same_butD [OF one [OF that]])
        (use Cons.prems(3) \<open>m \<in> set ns\<close> in auto)
  qed
  have "fst ?st = []" using restore_files_dirty clean by blast
  note IH = Cons.IH [OF _ _ kept [OF this] clean] and single = phase [OF this]
  have rest: "\<forall>m\<in>set ns. ?D (snd ?final) (home cfg @ [m]) = orig (home cfg @ [m])"
    "same_but (\<lambda>x. \<exists>m\<in>set ns. prefix x (home cfg @ [m])) (?D (snd ?st)) (?D (snd ?final))"
    using IH Cons.prems by simp_all
  have "?D (snd ?final) (home cfg @ [n]) = ?D (snd ?st) (home cfg @ [n])"
    by (rule same_butD [OF rest(2)]) (use n in auto)
  moreover have "same_but (\<lambda>x. \<exists>m\<in>set (n # ns). prefix x (home cfg @ [m])) (?D (snd st)) (?D (snd ?final))"
    using one [OF \<open>fst ?st = []\<close>] rest(2) unfolding same_but_def by simp
  ultimately show ?case using rest(1) single by (simp only: fold_simps list.map list.set insert_iff ball_simps)
qed simp

text \<open>A rollback without failures restores what a recoverable snapshot stands for.\<close>

definition restored :: "update_config \<Rightarrow> disk \<Rightarrow> disk \<Rightarrow> bool" where
  "restored cfg orig d \<longleftrightarrow> files_back cfg orig d \<and> pointer_back cfg orig d \<and> scripts_back cfg orig d"

lemma rollback_restores:
  assumes site: "site cfg operation_id" and ans: "answers host de base cfg operation_id" and tame: "tame de cfg operation_id"
    and rec: "recoverable cfg operation_id orig sn (disk_after de base ops)"
    and idle: "sn_managed_files sn = [] \<Longrightarrow> \<not> rh_active host ops"
    and clean: "fst (rollback_files host cfg sn ops) = []"
  shows "restored cfg orig (disk_after de base (snd (rollback_files host cfg sn ops)))"
proof -
  let ?D = "disk_after de base"
  have host: "rh_ok host = de_ok de" using ans by (simp add: answers_def)
  define st1 :: rollback_state where "st1 = (if rh_active host ops then attempt host ''stop service'' StopService ([], ops) else ([], ops))"
  define st2 where "st2 = (if sn_previous_target sn \<noteq> [] then attempt host ''restore release pointer''
      (Symlink (sn_previous_target sn) (join_path [uc_install_dir cfg, ''current'']) ''rollback'') st1 else st1)"
  define st3 where "st3 = rollback_bundled host cfg sn st2"
  define st4 where "st4 = remove_target_release host cfg (sn_target_release_path sn) (sn_operation_id sn) st3"
  define st5 where "st5 = fold (restore_file host sn) (sn_managed_files sn) st4"
  have run: "rollback_files host cfg sn ops = st5"
    unfolding rollback_files_def Let_def snd_conv st5_def st4_def st3_def st2_def st1_def ..
  have rec1: "recoverable cfg operation_id orig sn (?D (snd st1))"
    unfolding st1_def using stop_phase [OF tame rec] idle by blast
  have lives: "sn_managed_files sn = [] \<or> sn_managed_files sn = map (live_path cfg) managed_names"
    using rec by (auto simp: recoverable_def files_ok_def allowed_managed_def live_path_def)
  have distinct: "distinct managed_names" by (simp add: managed_names_def)
  let ?region = "\<lambda>x. prefix (home cfg @ [''releases'']) x \<or> in_scripts cfg operation_id x"
  note pointer = pointer_phase [OF site host rec1, folded st2_def]
  note bundled = bundled_phase [OF site ans, of orig sn st2, folded st3_def]
  note release = release_phase [OF site, of host "sn_target_release_path sn" "sn_operation_id sn" st3 de base, folded st4_def]
  note files = restore_files_phase [OF site host, of managed_names orig sn base st4]
  have c4: "fst st4 = []" using clean restore_files_dirty unfolding run st5_def by blast
  then have c3: "fst st3 = []" and kept4: "same_but (prefix (home cfg @ [''releases''])) (?D (snd st3)) (?D (snd st4))"
    using release by blast+
  have c2: "fst st2 = []" and scripts3: "scripts_back cfg orig (?D (snd st3))"
    and kept3: "same_but (in_scripts cfg operation_id) (?D (snd st2)) (?D (snd st3))"
    using bundled pointer(4) rec c3 by (auto simp: recoverable_def)
  have kept: "same_but ?region (?D (snd st2)) (?D (snd st4))"
    using kept3 kept4 unfolding same_but_def by simp
  have files4: "files_ok cfg operation_id orig sn (?D (snd st4))"
    by (rule files_ok_cong [OF _ _ pointer(3)]; rule same_butD [OF kept]) (use managed_not in auto)
  have files5: "files_back cfg orig (?D (snd st5)) \<and>
      same_but (\<lambda>x. \<exists>n\<in>set managed_names. prefix x (home cfg @ [n])) (?D (snd st4)) (?D (snd st5))"
  proof (cases "sn_managed_files sn = []")
    case True
    then show ?thesis using files4 by (simp add: st5_def files_ok_def files_back_def allowed_managed_def managed_names_def)
  next
    case False
    then have st5: "st5 = fold (restore_file host sn) (map (live_path cfg) managed_names) st4" using lives by (simp add: st5_def)
    have "\<forall>n\<in>set managed_names. copy_kept cfg operation_id orig sn (?D (snd st4)) n"
      using files4 False by (simp add: files_ok_def copy_kept_def)
    from files [OF subset_refl distinct this] clean show ?thesis unfolding run st5 files_back_def by blast
  qed
  have far: "?D (snd st5) (at_current cfg) = ?D (snd st2) (at_current cfg)"
    "?D (snd st5) (at_active cfg @ r) = ?D (snd st3) (at_active cfg @ r)" for r
    using same_butD [OF conjunct2 [OF files5], of "at_current cfg"] same_butD [OF kept, of "at_current cfg"]
      same_butD [OF conjunct2 [OF files5], of "at_active cfg @ r"] same_butD [OF kept4, of "at_active cfg @ r"] managed_not by auto
  then show ?thesis
    using files5 pointer(2) [OF c2] scripts3 unfolding run restored_def pointer_back_def scripts_back_def by simp
qed

end
