(* ===== verification/Update_Safety.thy ===== *)
theory Update_Safety
  imports Update_Recovery
begin

text \<open>
  The update transaction keeps its way back open: at every point between the stop of the service
  and the commit, the snapshot in memory and the journal on disk are enough to restore the
  installation.  The invariant is carried through the code by rules for runs.
\<close>

section \<open>Rules for runs\<close>

definition holds :: "(txn \<Rightarrow> bool) \<Rightarrow> 'a run \<Rightarrow> ('a \<Rightarrow> txn \<Rightarrow> bool) \<Rightarrow> (txn \<Rightarrow> bool) \<Rightarrow> bool" where
  "holds P m Q E \<longleftrightarrow> (\<forall>st. P st \<longrightarrow> (case m st of (Inl e, st') \<Rightarrow> E st' | (Inr a, st') \<Rightarrow> Q a st'))"

named_theorems run_rules \<open>rules for the constructs of a run\<close>

lemma holdsI: "(\<And>st. P st \<Longrightarrow> case m st of (Inl e, st') \<Rightarrow> E st' | (Inr a, st') \<Rightarrow> Q a st') \<Longrightarrow> holds P m Q E"
  by (simp add: holds_def)

lemma holds_Inr: "holds P m Q E \<Longrightarrow> P st \<Longrightarrow> m st = (Inr a, st') \<Longrightarrow> Q a st'"
  unfolding holds_def by (metis (mono_tags, lifting) old.prod.case sum.case(2))

lemma holds_Inl: "holds P m Q E \<Longrightarrow> P st \<Longrightarrow> m st = (Inl e, st') \<Longrightarrow> E st'"
  unfolding holds_def by (metis (mono_tags, lifting) old.prod.case sum.case(1))

lemma holds_andthen: "holds P m Q E \<Longrightarrow> (\<And>a. holds (Q a) (f a) R E) \<Longrightarrow> holds P (andthen m f) R E"
  unfolding holds_def andthen_def by (fastforce split: prod.splits sum.splits)

lemma holds_weaken:
  "holds P m Q E \<Longrightarrow> (\<And>st. P' st \<Longrightarrow> P st) \<Longrightarrow> (\<And>a st. Q a st \<Longrightarrow> Q' a st) \<Longrightarrow> (\<And>st. E st \<Longrightarrow> E' st) \<Longrightarrow> holds P' m Q' E'"
  unfolding holds_def by (fastforce split: prod.splits sum.splits)

lemma holds_pre: "holds P m Q E \<Longrightarrow> (\<And>st. P' st \<Longrightarrow> P st) \<Longrightarrow> holds P' m Q E"
  by (rule holds_weaken)

lemma holds_yields: "(\<And>st. P st \<Longrightarrow> Q a st) \<Longrightarrow> holds P (yields a) Q E"
  by (simp add: holds_def yields_def)

lemma holds_fails: "(\<And>st. P st \<Longrightarrow> E st) \<Longrightarrow> holds P (fails e) Q E"
  by (simp add: holds_def fails_def)

lemma holds_ask: "(\<And>st. P st \<Longrightarrow> Q (q (tx_ops st)) st) \<Longrightarrow> holds P (ask q) Q E"
  by (simp add: holds_def ask_def)

lemma holds_held: "(\<And>st. P st \<Longrightarrow> Q (tx_snapshot st) st) \<Longrightarrow> holds P held Q E"
  by (simp add: holds_def held_def)

lemma holds_revise: "(\<And>st. P st \<Longrightarrow> Q () (st\<lparr>tx_snapshot := f (tx_snapshot st)\<rparr>)) \<Longrightarrow> holds P (revise f) Q E"
  by (simp add: holds_def revise_def)

lemma holds_perform:
  "(\<And>st. P st \<Longrightarrow> rh_ok host (tx_ops st) w \<Longrightarrow> Q () (st\<lparr>tx_ops := tx_ops st @ [w]\<rparr>)) \<Longrightarrow>
   (\<And>st. P st \<Longrightarrow> \<not> rh_ok host (tx_ops st) w \<Longrightarrow> E (st\<lparr>tx_ops := tx_ops st @ [w]\<rparr>)) \<Longrightarrow> holds P (perform host w) Q E"
  by (simp add: holds_def perform_def)

lemma holds_in_turn: "(\<And>x. x \<in> set xs \<Longrightarrow> holds P (f x) (\<lambda>_. P) E) \<Longrightarrow> holds P (in_turn f xs) (\<lambda>_. P) E"
  by (induction xs) (auto intro: holds_andthen holds_yields)

section \<open>Settings\<close>

text \<open>A host with its disk, and the point of the transaction at which the service has been stopped.\<close>

record setting =
  s_host :: rollback_host
  s_env :: disk_env
  s_base :: disk
  s_cfg :: update_config
  s_id :: string
  s_start :: "install_op list"

abbreviation disk_of :: "setting \<Rightarrow> install_op list \<Rightarrow> disk" where
  "disk_of t ops \<equiv> disk_after (s_env t) (s_base t) ops"

abbreviation orig_of :: "setting \<Rightarrow> disk" where
  "orig_of t \<equiv> disk_of t (s_start t)"

text \<open>
  The managed files are regular files where they exist, and nothing is below a directory that
  does not exist.
\<close>

definition proper :: "setting \<Rightarrow> bool" where
  "proper t \<longleftrightarrow> site (s_cfg t) (s_id t) \<and> answers (s_host t) (s_env t) (s_base t) (s_cfg t) (s_id t) \<and> tame (s_env t) (s_cfg t) (s_id t)
     \<and> (\<forall>n\<in>set managed_names. \<forall>e. orig_of t (home (s_cfg t) @ [n]) = Some e \<longrightarrow> (\<exists>c. e = Regular c))
     \<and> (orig_of t (at_active (s_cfg t)) = None \<longrightarrow> (\<forall>r. orig_of t (at_active (s_cfg t) @ r) = None))"

definition important :: "setting \<Rightarrow> string list \<Rightarrow> bool" where
  "important t x \<longleftrightarrow> guarded (s_cfg t) (s_id t) x \<or> (\<exists>n\<in>set managed_names. x = home (s_cfg t) @ [n])"

definition neutral :: "setting \<Rightarrow> install_op \<Rightarrow> bool" where
  "neutral t w \<longleftrightarrow> \<not> runs_programs w \<and> (\<forall>x. footprint w x \<longrightarrow> \<not> important t x)"

lemma neutral_step: "neutral t w \<Longrightarrow> important t x \<Longrightarrow> disk_of t (ops @ [w]) x = disk_of t ops x"
  unfolding neutral_def disk_after_snoc by (metis advance_frame)

section \<open>Readable journals\<close>

definition formed :: "setting \<Rightarrow> update_snapshot \<Rightarrow> bool" where
  "formed t sn \<longleftrightarrow>
     (let cfg = s_cfg t; install = uc_install_dir cfg; releases_root = join_path [install, ''releases'']
      in sn_operation_id sn = s_id t \<and> sn_backup_path sn = backup_dir cfg (s_id t)
       \<and> (sn_previous_target sn = [] \<or> \<not> is_abs (sn_previous_target sn) \<and> path_within releases_root (join_path [install, sn_previous_target sn]))
       \<and> (sn_target_release_path sn = [] \<or> sn_target_release_path sn \<noteq> clean releases_root \<and> path_within releases_root (sn_target_release_path sn))
       \<and> (sn_old_bundled_path sn = [] \<or> sn_old_bundled_path sn = bundled_old cfg (s_id t))
       \<and> (sn_managed_files sn = [] \<or> sn_managed_files sn = allowed_managed install)
       \<and> (\<forall>(live, backup)\<in>set (sn_files sn). \<exists>n\<in>set (''one'' # managed_names). live = live_path cfg n \<and> backup = copy_path cfg (s_id t) n))"

lemma strip_nothing: "p \<noteq> [] \<Longrightarrow> last p \<noteq> c \<Longrightarrow> rev (dropWhile (\<lambda>x. x = c) (rev p)) = p"
  by (cases p rule: rev_cases) auto

lemma base_name_clean:
  assumes "clean p = p" "is_abs p" "elements p = xs @ [e]"
  shows "base_name p = e"
proof -
  let ?es = "xs @ [e]"
  have t: "tidy True ?es" using elements_tidy [of p] assms by simp
  have p: "p = CHR ''/'' # join_with CHR ''/'' ?es" using assms by (simp add: clean_def)
  have e: "CHR ''/'' \<notin> set e" "e \<noteq> []" using tidy_parts [OF t] by auto
  have "last (join_with CHR ''/'' (ys @ [e])) = last e \<and> join_with CHR ''/'' (ys @ [e]) \<noteq> []" for ys
    using e(2) by (induction ys rule: induct_list012) auto
  then have "last p = last e" unfolding p by simp
  then have "last p \<noteq> CHR ''/''" using e last_in_set [OF e(2)] by metis
  moreover have "p \<noteq> []" unfolding p by simp
  ultimately have strip: "rev (dropWhile (\<lambda>c. c = CHR ''/'') (rev p)) = p" by (intro strip_nothing)
  have "split_on CHR ''/'' (join_with CHR ''/'' ?es) = ?es" using tidy_parts [OF t] by (intro split_join) auto
  then have "last (split_on CHR ''/'' p) = e" unfolding p by simp
  then show ?thesis using strip \<open>p \<noteq> []\<close> by (simp add: base_name_def)
qed

lemma clean_join [simp]: "root \<noteq> [] \<Longrightarrow> clean (join_path (root # es)) = join_path (root # es)"
  by (simp add: join_path_def)

lemma base_name_plain: "plain_element e \<Longrightarrow> base_name e = e"
proof -
  assume e: "plain_element e"
  then have ne: "e \<noteq> []" "CHR ''/'' \<notin> set e" by (simp_all add: plain_element_def)
  then have "last e \<noteq> CHR ''/''" using last_in_set by metis
  then have "rev (dropWhile (\<lambda>c. c = CHR ''/'') (rev e)) = e" using strip_nothing ne(1) by metis
  then show ?thesis using ne by (simp add: base_name_def split_part)
qed

lemma formed_readable:
  assumes "proper t" "formed t sn"
  shows "read_journal (s_cfg t) (Some (Some sn)) = Inr sn"
proof -
  let ?cfg = "s_cfg t" and ?id = "s_id t"
  have site: "site ?cfg ?id" using assms(1) by (simp add: proper_def)
  have plain: "plain_element ?id" and install: "is_abs (uc_install_dir ?cfg)" using site by (simp_all add: site_def)
  note root = site_paths(3,4) [OF site]
  have backups: "is_abs (join_path [update_root ?cfg, ''backups''])"
    "elements (join_path [update_root ?cfg, ''backups'']) = home ?cfg @ [''updates'', ''backups'']"
    using join_element [OF root(2) plain_names(2)] root(1) by simp_all
  have registry: "is_abs (join_path [uc_install_dir ?cfg, ''script-registry''])"
    "elements (join_path [uc_install_dir ?cfg, ''script-registry'']) = home ?cfg @ [''script-registry'']"
    using join_element [OF install plain_names(4)] by simp_all
  have dir: "elements (backup_dir ?cfg ?id) = home ?cfg @ [''updates'', ''backups'', ?id]" "is_abs (backup_dir ?cfg ?id)"
    using site_paths(7,8) [OF site] by simp_all
  have old: "elements (bundled_old ?cfg ?id) = home ?cfg @ [''script-registry'', ''.bundled.old-'' @ ?id]"
    using site_paths(14) [OF site] by simp
  have old_abs: "is_abs (bundled_old ?cfg ?id)" unfolding bundled_old_def
    using join_element(2) [OF registry(1) plain_suffix(3) [OF plain]] .
  have "update_root ?cfg \<noteq> []" using root(2) by auto
  then have bd: "base_name (backup_dir ?cfg ?id) = ?id"
    using base_name_clean [OF _ dir(2), of "home ?cfg @ [''updates'', ''backups'']" ?id] dir(1) by (simp add: backup_dir_def)
  have "join_path [uc_install_dir ?cfg, ''script-registry''] \<noteq> []" using registry(1) by auto
  then have bo: "base_name (bundled_old ?cfg ?id) = ''.bundled.old-'' @ ?id"
    using base_name_clean [OF _ old_abs, of "home ?cfg @ [''script-registry'']" "''.bundled.old-'' @ ?id"] old by (simp add: bundled_old_def)
  have w1: "path_within (join_path [update_root ?cfg, ''backups'']) (backup_dir ?cfg ?id)"
    by (rule path_within_prefix [OF backups(1) dir(2)]) (simp add: backups dir)
  have w2: "path_within (join_path [uc_install_dir ?cfg, ''script-registry'']) (bundled_old ?cfg ?id)"
    by (rule path_within_prefix [OF registry(1) old_abs]) (simp add: registry old)
  have ne: "backup_dir ?cfg ?id \<noteq> clean (join_path [update_root ?cfg, ''backups''])"
    using dir(1) backups(2) elements_of_clean [of "join_path [update_root ?cfg, ''backups'']"] by auto
  have files: "is_abs (copy_path ?cfg ?id n) \<and> path_within (backup_dir ?cfg ?id) (copy_path ?cfg ?id n)"
    if "n \<in> set (''one'' # managed_names)" for n
  proof -
    have "plain_element n" using that plain_names(7,10) by auto
    then have c: "elements (copy_path ?cfg ?id n) = at_backup ?cfg ?id n" "is_abs (copy_path ?cfg ?id n)"
      using site_paths(9) [OF site] join_two(2) [OF dir(2) plain_literals(1)] by (simp_all add: copy_path_def)
    then show ?thesis using path_within_prefix [OF dir(2) c(2)] dir(1) by simp
  qed
  have "?id \<noteq> []" using plain by (simp add: plain_element_def)
  note f = assms(2) [unfolded formed_def Let_def]
  have c1: "(sn_backup_path sn = clean (join_path [update_root ?cfg, ''backups''])
      \<or> \<not> path_within (join_path [update_root ?cfg, ''backups'']) (sn_backup_path sn)) = False" using f w1 ne by simp
  have c2: "(sn_operation_id sn = [] \<or> base_name (sn_operation_id sn) \<noteq> sn_operation_id sn
      \<or> base_name (sn_backup_path sn) \<noteq> sn_operation_id sn) = False" using f bd base_name_plain [OF plain] \<open>?id \<noteq> []\<close> by simp
  have c3: "(sn_previous_target sn \<noteq> [] \<and> (is_abs (sn_previous_target sn) \<or> \<not> path_within (join_path [uc_install_dir ?cfg, ''releases''])
      (join_path [uc_install_dir ?cfg, sn_previous_target sn]))) = False" using f by blast
  have c4: "(sn_target_release_path sn \<noteq> [] \<and> (sn_target_release_path sn = clean (join_path [uc_install_dir ?cfg, ''releases''])
      \<or> \<not> path_within (join_path [uc_install_dir ?cfg, ''releases'']) (sn_target_release_path sn))) = False" using f by blast
  have c5: "(sn_old_bundled_path sn \<noteq> [] \<and> (\<not> path_within (join_path [uc_install_dir ?cfg, ''script-registry'']) (sn_old_bundled_path sn)
      \<or> \<not> has_prefix (base_name (sn_old_bundled_path sn)) ''.bundled.old-'')) = False" using f w2 bo by (auto simp: prefix_def)
  have c6: "(\<not> list_all (\<lambda>live. live \<in> set (allowed_managed (uc_install_dir ?cfg))) (sn_managed_files sn)) = False"
    using f by (auto simp: list_all_iff)
  have c7: "(\<not> list_all (\<lambda>(live, backup). live \<in> set (allowed_managed (uc_install_dir ?cfg))
      \<or> live = join_path [uc_install_dir ?cfg, ''one'']) (sn_files sn)) = False"
    using f by (fastforce simp: list_all_iff allowed_managed_def live_path_def)
  have c8: "(\<not> list_all (\<lambda>(live, backup). path_within (sn_backup_path sn) backup) (sn_files sn)) = False"
    using f files by (fastforce simp: list_all_iff)
  show ?thesis unfolding read_journal_def Let_def option.case by (simp only: c1 c2 c3 c4 c5 c6 c7 c8 if_False)
qed

section \<open>The invariant\<close>

definition sound :: "setting \<Rightarrow> update_snapshot \<Rightarrow> disk \<Rightarrow> bool" where
  "sound t sn d \<longleftrightarrow> recoverable (s_cfg t) (s_id t) (orig_of t) sn d \<and> formed t sn"

definition journal_good :: "setting \<Rightarrow> install_op list \<Rightarrow> bool" where
  "journal_good t ops \<longleftrightarrow>
     (\<exists>j. disk_of t ops (at_journal (s_cfg t)) = Some (Regular (Saved j)) \<and> sound t j (disk_of t ops))"

text \<open>
  \<open>Q\<close> holds of the snapshot in memory and \<open>R\<close> of the one in the journal, both with the disk; the
  journal has been good all the way; the new version runs only after the copies are complete.
\<close>

definition way_back :: "setting \<Rightarrow> (update_snapshot \<Rightarrow> disk \<Rightarrow> bool) \<Rightarrow> (update_snapshot \<Rightarrow> disk \<Rightarrow> bool) \<Rightarrow> txn \<Rightarrow> bool" where
  "way_back t Q R st \<longleftrightarrow> prefix (s_start t) (tx_ops st)
     \<and> (\<forall>p. prefix (s_start t) p \<longrightarrow> prefix p (tx_ops st) \<longrightarrow> journal_good t p)
     \<and> (sn_managed_files (tx_snapshot st) = [] \<longrightarrow> StartService \<notin> set (drop (length (s_start t)) (tx_ops st)))
     \<and> Q (tx_snapshot st) (disk_of t (tx_ops st))
     \<and> (\<exists>j. disk_of t (tx_ops st) (at_journal (s_cfg t)) = Some (Regular (Saved j)) \<and> R j (disk_of t (tx_ops st)))"

abbreviation safe :: "setting \<Rightarrow> txn \<Rightarrow> bool" where
  "safe t \<equiv> way_back t (sound t) (sound t)"

lemma way_back_mono:
  "way_back t Q R st \<Longrightarrow> (\<And>sn d. Q sn d \<Longrightarrow> Q' sn d) \<Longrightarrow> (\<And>sn d. R sn d \<Longrightarrow> R' sn d) \<Longrightarrow> way_back t Q' R' st"
  unfolding way_back_def by blast

lemma way_back_step:
  assumes "way_back t Q R st" "w = StartService \<Longrightarrow> sn_managed_files (tx_snapshot st) \<noteq> []"
    and "Q' (tx_snapshot st) (disk_of t (tx_ops st @ [w]))"
    and "disk_of t (tx_ops st @ [w]) (at_journal (s_cfg t)) = Some (Regular (Saved j))"
    and "R' j (disk_of t (tx_ops st @ [w]))" "\<And>sn d. R' sn d \<Longrightarrow> sound t sn d"
  shows "way_back t Q' R' (st\<lparr>tx_ops := tx_ops st @ [w]\<rparr>)"
proof -
  have good: "journal_good t (tx_ops st @ [w])" using assms(4-6) by (auto simp: journal_good_def)
  have "journal_good t p" if "prefix (s_start t) p" "prefix p (tx_ops st @ [w])" for p
    using that good assms(1) unfolding prefix_snoc way_back_def by blast
  moreover have "prefix (s_start t) (tx_ops st @ [w])" using assms(1) by (simp add: way_back_def prefix_snoc)
  moreover have "StartService \<notin> set (drop (length (s_start t)) (tx_ops st @ [w]))" if "sn_managed_files (tx_snapshot st) = []"
    using assms(1,2) that by (auto simp: way_back_def dest!: in_set_dropD split: if_splits) (metis in_set_dropD)?
  ultimately show ?thesis using assms(3-5) unfolding way_back_def by simp
qed

definition minds :: "setting \<Rightarrow> (update_snapshot \<Rightarrow> disk \<Rightarrow> bool) \<Rightarrow> bool" where
  "minds t Q \<longleftrightarrow> (\<forall>sn d d'. (\<forall>x. important t x \<longrightarrow> x \<noteq> at_journal (s_cfg t) \<longrightarrow> d' x = d x) \<longrightarrow> Q sn d \<longrightarrow> Q sn d')"

text \<open>The conditions do not look at the journal.  A robust one also holds when programs may run.\<close>

definition robust :: "setting \<Rightarrow> (update_snapshot \<Rightarrow> disk \<Rightarrow> bool) \<Rightarrow> bool" where
  "robust t Q \<longleftrightarrow> (\<forall>sn d. Q sn d \<longrightarrow> sn_managed_files sn \<noteq> []) \<and>
     (\<forall>sn d d'. (\<forall>x. guarded (s_cfg t) (s_id t) x \<longrightarrow> x \<noteq> at_journal (s_cfg t) \<longrightarrow> d' x = d x) \<longrightarrow> Q sn d \<longrightarrow> Q sn d')"

lemma robust_minds: "robust t Q \<Longrightarrow> minds t Q"
  unfolding robust_def minds_def important_def by blast

lemma journal_important: "important t (at_journal (s_cfg t))"
  by (simp add: important_def guarded_def)

lemma way_back_neutral:
  assumes "neutral t w" "minds t Q" "minds t R" "\<And>sn d. R sn d \<Longrightarrow> sound t sn d" "way_back t Q R st"
  shows "way_back t Q R (st\<lparr>tx_ops := tx_ops st @ [w]\<rparr>)"
proof -
  note same = neutral_step [OF assms(1)]
  obtain j where j: "disk_of t (tx_ops st) (at_journal (s_cfg t)) = Some (Regular (Saved j))" "R j (disk_of t (tx_ops st))"
    using assms(5) by (auto simp: way_back_def)
  show ?thesis
  proof (rule way_back_step [OF assms(5), where j = j])
    show "Q (tx_snapshot st) (disk_of t (tx_ops st @ [w]))"
      using assms(2,5) same unfolding minds_def way_back_def by blast
    show "R j (disk_of t (tx_ops st @ [w]))" using assms(3) j(2) same unfolding minds_def by blast
    show "disk_of t (tx_ops st @ [w]) (at_journal (s_cfg t)) = Some (Regular (Saved j))"
      using same [OF journal_important] j(1) by simp
  qed (use assms(1,4) in \<open>auto simp: neutral_def\<close>)
qed

lemma way_back_programs:
  assumes "proper t" "runs_programs w" "robust t Q" "robust t R" "\<And>sn d. R sn d \<Longrightarrow> sound t sn d" "way_back t Q R st"
  shows "way_back t Q R (st\<lparr>tx_ops := tx_ops st @ [w]\<rparr>)"
proof -
  have same: "disk_of t (tx_ops st @ [w]) x = disk_of t (tx_ops st) x" if "guarded (s_cfg t) (s_id t) x" for x
    using assms(1,2) that by (simp add: disk_after_snoc advance_def proper_def tame_def)
  obtain j where j: "disk_of t (tx_ops st) (at_journal (s_cfg t)) = Some (Regular (Saved j))" "R j (disk_of t (tx_ops st))"
    using assms(6) by (auto simp: way_back_def)
  show ?thesis
  proof (rule way_back_step [OF assms(6), where j = j])
    show "Q (tx_snapshot st) (disk_of t (tx_ops st @ [w]))" "sn_managed_files (tx_snapshot st) \<noteq> []"
      using assms(3,6) same unfolding robust_def way_back_def by blast+
    show "R j (disk_of t (tx_ops st @ [w]))" using assms(4) j(2) same unfolding robust_def by blast
    show "disk_of t (tx_ops st @ [w]) (at_journal (s_cfg t)) = Some (Regular (Saved j))"
      using same [of "at_journal (s_cfg t)"] j(1) by (simp add: guarded_def)
  qed (use assms(5) in auto)
qed

lemma holds_neutral:
  assumes "neutral t w" "minds t Q" "minds t R" "\<And>sn d. Q sn d \<Longrightarrow> sound t sn d" "\<And>sn d. R sn d \<Longrightarrow> sound t sn d"
  shows "holds (way_back t Q R) (perform (s_host t) w) (\<lambda>_. way_back t Q R) (safe t)"
proof (rule holds_perform)
  fix st assume now: "way_back t Q R st"
  have then_too: "way_back t Q R (st\<lparr>tx_ops := tx_ops st @ [w]\<rparr>)"
    by (rule way_back_neutral [OF assms(1-3)]) (use assms(5) now in auto)
  then show "way_back t Q R (st\<lparr>tx_ops := tx_ops st @ [w]\<rparr>)" "safe t (st\<lparr>tx_ops := tx_ops st @ [w]\<rparr>)"
    using way_back_mono [OF then_too, of "sound t" "sound t"] assms(4,5) by auto
qed

lemma holds_programs:
  assumes "proper t" "runs_programs w" "robust t Q" "robust t R" "\<And>sn d. Q sn d \<Longrightarrow> sound t sn d" "\<And>sn d. R sn d \<Longrightarrow> sound t sn d"
  shows "holds (way_back t Q R) (perform (s_host t) w) (\<lambda>_. way_back t Q R) (safe t)"
proof (rule holds_perform)
  fix st assume now: "way_back t Q R st"
  have then_too: "way_back t Q R (st\<lparr>tx_ops := tx_ops st @ [w]\<rparr>)"
    by (rule way_back_programs [OF assms(1-4)]) (use assms(6) now in auto)
  then show "way_back t Q R (st\<lparr>tx_ops := tx_ops st @ [w]\<rparr>)" "safe t (st\<lparr>tx_ops := tx_ops st @ [w]\<rparr>)"
    using way_back_mono [OF then_too, of "sound t" "sound t"] assms(5,6) by auto
qed

end
