(* ===== verification/Update_Phases.thy ===== *)
theory Update_Phases
  imports Update_Safety
begin

text \<open>
  The phases of the update transaction, each with the condition of the snapshots and the disk it
  starts from and the one it ends in.
\<close>

section \<open>Operations that touch nothing important\<close>

definition keys :: "setting \<Rightarrow> string list list" where
  "keys t = [[''current''], [''script-registry'', ''bundled''], [''script-registry'', ''.bundled.old-'' @ s_id t],
             [''updates'', ''active-transaction.json'']]
     @ map (\<lambda>n. [''updates'', ''backups'', s_id t, ''files'', n]) managed_names @ map (\<lambda>n. [n]) managed_names"

lemma important_key: "important t x \<Longrightarrow> \<exists>k\<in>set (keys t). prefix (home (s_cfg t) @ k) x"
  unfolding important_def guarded_def keys_def by auto

text \<open>A path and what is above it, or what is below it as well.\<close>

definition clear_above :: "setting \<Rightarrow> string list \<Rightarrow> bool" where
  "clear_above t ps \<longleftrightarrow> (\<forall>k\<in>set (keys t). \<not> prefix k ps)"

definition clear :: "setting \<Rightarrow> string list \<Rightarrow> bool" where
  "clear t ps \<longleftrightarrow> (\<forall>k\<in>set (keys t). \<not> prefix k ps \<and> \<not> prefix ps k)"

lemma clear_up: "clear_above t ps \<Longrightarrow> prefix x (home (s_cfg t) @ ps) \<Longrightarrow> \<not> important t x"
  using important_key [of t x] unfolding clear_above_def by (metis prefix_order.trans same_prefix_prefix)

lemma clear_down: "clear t ps \<Longrightarrow> prefix (home (s_cfg t) @ ps) x \<Longrightarrow> \<not> important t x"
  using important_key [of t x] unfolding clear_def by (metis prefix_same_cases same_prefix_prefix)

lemma clear_here: "clear t ps \<Longrightarrow> \<not> important t (home (s_cfg t) @ ps)"
  using clear_down [of t ps "home (s_cfg t) @ ps"] by simp

lemma clear_clear_above: "clear t ps \<Longrightarrow> clear_above t ps"
  by (simp add: clear_def clear_above_def)

lemmas clear_eval = clear_def clear_above_def keys_def managed_names_def

abbreviation "payload_of t \<equiv> join_path [join_path [update_root (s_cfg t), ''staging'', s_id t], ''payload'']"
abbreviation "releases_of t \<equiv> join_path [uc_install_dir (s_cfg t), ''releases'']"
abbreviation "legacy_of t name \<equiv> join_path [releases_of t, name]"

lemma neutral_ops:
  assumes "proper t"
  shows "neutral t (WriteStatus (status_path (s_cfg t)) state)"
    "neutral t (WriteSnapshot (join_path [backup_dir (s_cfg t) (s_id t), ''snapshot.json'']) sn)"
    "neutral t (MkdirAll (join_path [backup_dir (s_cfg t) (s_id t), ''preflight'']))"
    "plain_element n \<Longrightarrow> neutral t (CopyFile p (join_path [join_path [backup_dir (s_cfg t) (s_id t), ''preflight''], n]))"
    "neutral t (CopyFile p (copy_path (s_cfg t) (s_id t) ''one''))"
    "neutral t (MkdirAll (releases_of t))"
    "neutral t (WriteFile (join_path [payload_of t, ''.update-operation'']) text)"
    "prefix (home (s_cfg t) @ [''releases'']) (elements q) \<Longrightarrow> neutral t (Rename (payload_of t) q)"
    "neutral t (Symlink target (join_path [uc_install_dir (s_cfg t), ''one'']) (s_id t))"
    "plain_element name \<Longrightarrow> neutral t (MkdirAll (legacy_of t name))"
    "plain_element name \<Longrightarrow> neutral t (CopyFile p (join_path [legacy_of t name, ''one'']))"
    "plain_element name \<Longrightarrow> neutral t (CopyTree p (join_path [legacy_of t name, ''script-registry'', ''bundled'']))"
    "neutral t (MkdirAll (join_path [uc_install_dir (s_cfg t), ''script-registry'']))"
    "neutral t (CopyTree p (bundled_next (s_cfg t) (s_id t)))"
    "neutral t (WriteFile (marker_path (bundled_next (s_cfg t) (s_id t))) text)"
proof -
  let ?cfg = "s_cfg t" and ?id = "s_id t"
  have site: "site ?cfg ?id" using assms by (simp add: proper_def)
  have plain: "plain_element ?id" and install: "is_abs (uc_install_dir ?cfg)" using site by (simp_all add: site_def)
  note root = site_paths(3,4) [OF site] and dir = site_paths(7,8) [OF site]
  show "neutral t (WriteStatus (status_path ?cfg) state)"
    using clear_up [of t "[''updates'', ''status.json'']"] site_paths(6) [OF site] by (auto simp: neutral_def clear_eval)
  show "neutral t (WriteSnapshot (join_path [backup_dir ?cfg ?id, ''snapshot.json'']) sn)"
    using clear_up [of t "[''updates'', ''backups'', ?id, ''snapshot.json'']"] join_element(1) [OF dir(2) plain_literals(3)] dir(1)
    by (auto simp: neutral_def clear_eval)
  have pre: "is_abs (join_path [backup_dir ?cfg ?id, ''preflight''])"
    "elements (join_path [backup_dir ?cfg ?id, ''preflight'']) = home ?cfg @ [''updates'', ''backups'', ?id, ''preflight'']"
    using join_element [OF dir(2) plain_literals(2)] dir(1) by simp_all
  show "neutral t (MkdirAll (join_path [backup_dir ?cfg ?id, ''preflight'']))"
    using clear_up [of t "[''updates'', ''backups'', ?id, ''preflight'']"] pre by (auto simp: neutral_def clear_eval)
  show "neutral t (CopyFile p (join_path [join_path [backup_dir ?cfg ?id, ''preflight''], n]))" if "plain_element n"
    using clear_up [of t "[''updates'', ''backups'', ?id, ''preflight'', n]"] join_element(1) [OF pre(1) that] pre(2)
    by (auto simp: neutral_def clear_eval)
  show "neutral t (CopyFile p (copy_path ?cfg ?id ''one''))"
    using clear_up [of t "[''updates'', ''backups'', ?id, ''files'', ''one'']"] site_paths(9) [OF site plain_names(7)]
    by (auto simp: neutral_def clear_eval)
  have rel: "is_abs (releases_of t)" "elements (releases_of t) = home ?cfg @ [''releases'']"
    using join_element [OF install plain_names(3)] by simp_all
  show "neutral t (MkdirAll (releases_of t))"
    using clear_up [of t "[''releases'']"] rel by (auto simp: neutral_def clear_eval)
  note payload = payload_elements [OF install plain]
  show "neutral t (WriteFile (join_path [payload_of t, ''.update-operation'']) text)"
    using clear_here [of t "[''updates'', ''staging'', ?id, ''payload'', ''.update-operation'']"]
      join_element(1) [OF payload(1) plain_literals(6)] payload(2)
    by (auto simp: neutral_def clear_eval)
  show "neutral t (Rename (payload_of t) q)" if "prefix (home ?cfg @ [''releases'']) (elements q)"
    using clear_down [of t "[''updates'', ''staging'', ?id, ''payload'']"] clear_down [of t "[''releases'']"] payload(2) that prefix_order.trans
    by (auto simp: neutral_def clear_eval)
  show "neutral t (Symlink target (join_path [uc_install_dir ?cfg, ''one'']) ?id)"
    using clear_here [of t "[''one'']"] clear_here [of t "[''one.new-'' @ ?id]"] site_paths(1,2) [OF site plain_names(7)] plain
    by (auto simp: neutral_def clear_eval live_path_def)
  have legacy: "is_abs (legacy_of t name)" "elements (legacy_of t name) = home ?cfg @ [''releases'', name]" if "plain_element name"
    using join_element [OF rel(1) that] rel(2) by simp_all
  show "neutral t (MkdirAll (legacy_of t name))" if "plain_element name"
    using clear_up [of t "[''releases'', name]"] legacy [OF that] by (auto simp: neutral_def clear_eval)
  show "neutral t (CopyFile p (join_path [legacy_of t name, ''one'']))" if "plain_element name"
    using clear_up [of t "[''releases'', name, ''one'']"] legacy [OF that] join_element(1) [OF legacy(1) [OF that] plain_names(7)]
    by (auto simp: neutral_def clear_eval)
  show "neutral t (CopyTree p (join_path [legacy_of t name, ''script-registry'', ''bundled'']))" if "plain_element name"
  proof -
    have "elements (join_path [legacy_of t name, ''script-registry'', ''bundled'']) = home ?cfg @ [''releases'', name, ''script-registry'', ''bundled'']"
      using join_two(1) [OF legacy(1) [OF that] plain_names(4,5)] legacy(2) [OF that] by simp
    then show ?thesis
      using clear_up [of t "[''releases'', name, ''script-registry'', ''bundled'']"] clear_down [of t "[''releases'', name, ''script-registry'', ''bundled'']"]
      by (auto simp: neutral_def clear_eval)
  qed
  show "neutral t (MkdirAll (join_path [uc_install_dir ?cfg, ''script-registry'']))"
    using clear_up [of t "[''script-registry'']"] join_element(1) [OF install plain_names(4)] by (auto simp: neutral_def clear_eval)
  show "neutral t (CopyTree p (bundled_next ?cfg ?id))"
    using clear_up [of t "[''script-registry'', ''.bundled.new-'' @ ?id]"] clear_down [of t "[''script-registry'', ''.bundled.new-'' @ ?id]"]
      site_paths(12) [OF site] by (auto simp: neutral_def clear_eval)
  show "neutral t (WriteFile (marker_path (bundled_next ?cfg ?id)) text)"
    using clear_here [of t "[''script-registry'', ''.bundled.new-'' @ ?id, ''.update-operation'']"] site_paths(16) [OF site]
    by (auto simp: neutral_def clear_eval)
qed

section \<open>Conditions\<close>

definition untouched :: "setting \<Rightarrow> disk \<Rightarrow> bool" where
  "untouched t d \<longleftrightarrow> d (at_current (s_cfg t)) = orig_of t (at_current (s_cfg t))
     \<and> (\<forall>r. d (at_active (s_cfg t) @ r) = orig_of t (at_active (s_cfg t) @ r))
     \<and> (\<forall>n\<in>set managed_names. d (home (s_cfg t) @ [n]) = orig_of t (home (s_cfg t) @ [n]))"

definition fresh :: "setting \<Rightarrow> update_snapshot \<Rightarrow> disk \<Rightarrow> bool" where
  "fresh t sn d \<longleftrightarrow> formed t sn \<and> sn_managed_files sn = [] \<and> sn_previous_target sn = [] \<and> \<not> sn_bundled_switch_plan sn \<and> untouched t d"

text \<open>The files named by \<open>ns\<close> have been seen to.\<close>

definition begun :: "setting \<Rightarrow> string list \<Rightarrow> update_snapshot \<Rightarrow> disk \<Rightarrow> bool" where
  "begun t ns sn d \<longleftrightarrow> fresh t sn d
     \<and> (\<forall>n\<in>set managed_names. n \<in> set ns \<longrightarrow> copy_kept (s_cfg t) (s_id t) (orig_of t) sn d n)
     \<and> (\<forall>n\<in>set managed_names. n \<notin> set ns \<longrightarrow> map_of (sn_files sn) (live_path (s_cfg t) n) = None)"

definition secured :: "setting \<Rightarrow> update_snapshot \<Rightarrow> disk \<Rightarrow> bool" where
  "secured t sn d \<longleftrightarrow> sound t sn d \<and> sn_managed_files sn \<noteq> []"

definition saved :: "setting \<Rightarrow> update_snapshot \<Rightarrow> disk \<Rightarrow> bool" where
  "saved t sn d \<longleftrightarrow> secured t sn d \<and> \<not> sn_bundled_switch_plan sn \<and> sn_previous_target sn = []"

definition pointed :: "setting \<Rightarrow> update_snapshot \<Rightarrow> disk \<Rightarrow> bool" where
  "pointed t sn d \<longleftrightarrow> secured t sn d \<and> \<not> sn_bundled_switch_plan sn \<and> sn_previous_target sn \<noteq> []"

definition planned :: "setting \<Rightarrow> bool \<Rightarrow> update_snapshot \<Rightarrow> disk \<Rightarrow> bool" where
  "planned t had sn d \<longleftrightarrow> secured t sn d \<and> sn_bundled_switch_plan sn \<and> sn_bundled_had_old sn = had
     \<and> d (at_old (s_cfg t) (s_id t)) = None \<and> (\<forall>r. d (at_active (s_cfg t) @ r) = orig_of t (at_active (s_cfg t) @ r))
     \<and> (had \<longrightarrow> orig_of t (at_active (s_cfg t)) \<noteq> None)"

definition moved :: "setting \<Rightarrow> update_snapshot \<Rightarrow> disk \<Rightarrow> bool" where
  "moved t sn d \<longleftrightarrow> secured t sn d \<and> sn_bundled_switch_plan sn \<and> sn_bundled_had_old sn \<and> d (at_old (s_cfg t) (s_id t)) \<noteq> None
     \<and> (\<forall>r. d (at_old (s_cfg t) (s_id t) @ r) = orig_of t (at_active (s_cfg t) @ r))"

lemma fresh_sound: "fresh t sn d \<Longrightarrow> sound t sn d"
  by (auto simp: fresh_def sound_def recoverable_def files_ok_def pointer_ok_def scripts_ok_def untouched_def formed_def Let_def)

lemma conditions_sound:
  "secured t sn d \<Longrightarrow> sound t sn d" "saved t sn d \<Longrightarrow> sound t sn d" "pointed t sn d \<Longrightarrow> sound t sn d"
  "planned t had sn d \<Longrightarrow> sound t sn d" "moved t sn d \<Longrightarrow> sound t sn d" "begun t ns sn d \<Longrightarrow> sound t sn d"
  by (auto simp: secured_def saved_def pointed_def planned_def moved_def begun_def fresh_sound)

lemma important_places:
  "important t (at_current (s_cfg t))" "important t (at_active (s_cfg t) @ r)" "important t (at_old (s_cfg t) (s_id t) @ r)"
  "n \<in> set managed_names \<Longrightarrow> important t (home (s_cfg t) @ [n])"
  "n \<in> set managed_names \<Longrightarrow> important t (at_backup (s_cfg t) (s_id t) n)"
  by (auto simp: important_def guarded_def)

lemma not_journal:
  "at_current (s_cfg t) \<noteq> at_journal (s_cfg t)" "at_active (s_cfg t) @ r \<noteq> at_journal (s_cfg t)"
  "at_old (s_cfg t) (s_id t) @ r \<noteq> at_journal (s_cfg t)" "at_old (s_cfg t) (s_id t) \<noteq> at_journal (s_cfg t)"
  "home (s_cfg t) @ [n] \<noteq> at_journal (s_cfg t)" "at_backup (s_cfg t) (s_id t) n \<noteq> at_journal (s_cfg t)"
  by simp_all

lemma minds_fresh: "minds t (fresh t)"
  unfolding minds_def fresh_def untouched_def using important_places not_journal by simp

lemma minds_begun: "minds t (begun t ns)"
  unfolding minds_def
proof (intro allI impI)
  fix sn and d d' :: disk assume same: "\<forall>x. important t x \<longrightarrow> x \<noteq> at_journal (s_cfg t) \<longrightarrow> d' x = d x" and b: "begun t ns sn d"
  have "fresh t sn d'" using minds_fresh b same unfolding minds_def begun_def by blast
  moreover have "copy_kept (s_cfg t) (s_id t) (orig_of t) sn d' n" if "n \<in> set managed_names" "n \<in> set ns" for n
    using b that same important_places(5) not_journal(6) copy_kept_cong unfolding begun_def by metis
  ultimately show "begun t ns sn d'" using b by (simp add: begun_def)
qed

lemma robust_secured: "robust t (secured t)"
  unfolding robust_def
proof (intro conjI allI impI)
  fix sn and d d' :: disk assume same: "\<forall>x. guarded (s_cfg t) (s_id t) x \<longrightarrow> x \<noteq> at_journal (s_cfg t) \<longrightarrow> d' x = d x" and sec: "secured t sn d"
  have "recoverable (s_cfg t) (s_id t) (orig_of t) sn d'"
    by (rule recoverable_cong [of _ _ _ d]) (use same sec in \<open>auto simp: secured_def sound_def\<close>)
  with sec show "secured t sn d'" by (simp add: secured_def sound_def)
qed (simp add: secured_def)

lemma robust_and:
  assumes "robust t Q" "\<And>sn d d'. \<forall>x. guarded (s_cfg t) (s_id t) x \<longrightarrow> x \<noteq> at_journal (s_cfg t) \<longrightarrow> d' x = d x \<Longrightarrow> P sn d \<Longrightarrow> P sn d'"
  shows "robust t (\<lambda>sn d. Q sn d \<and> P sn d)"
  using assms unfolding robust_def by blast

lemma guarded_keep:
  assumes "\<forall>x. guarded (s_cfg t) (s_id t) x \<longrightarrow> x \<noteq> at_journal (s_cfg t) \<longrightarrow> d' x = d x"
  shows "d' (at_active (s_cfg t) @ r) = d (at_active (s_cfg t) @ r)"
    "d' (at_old (s_cfg t) (s_id t) @ r) = d (at_old (s_cfg t) (s_id t) @ r)"
    "d' (at_old (s_cfg t) (s_id t)) = d (at_old (s_cfg t) (s_id t))"
  using assms not_journal(2-4) by (auto simp: guarded_def)

lemma robust_conditions: "robust t (saved t)" "robust t (pointed t)" "robust t (planned t had)" "robust t (moved t)"
proof -
  show "robust t (saved t)" "robust t (pointed t)"
    unfolding saved_def [abs_def] pointed_def [abs_def] by (rule robust_and [OF robust_secured]; blast)+
  show "robust t (planned t had)" unfolding planned_def [abs_def]
  proof (rule robust_and [OF robust_secured])
    fix sn and d d' :: disk assume same: "\<forall>x. guarded (s_cfg t) (s_id t) x \<longrightarrow> x \<noteq> at_journal (s_cfg t) \<longrightarrow> d' x = d x"
      and P: "sn_bundled_switch_plan sn \<and> sn_bundled_had_old sn = had \<and> d (at_old (s_cfg t) (s_id t)) = None
        \<and> (\<forall>r. d (at_active (s_cfg t) @ r) = orig_of t (at_active (s_cfg t) @ r)) \<and> (had \<longrightarrow> orig_of t (at_active (s_cfg t)) \<noteq> None)"
    from P show "sn_bundled_switch_plan sn \<and> sn_bundled_had_old sn = had \<and> d' (at_old (s_cfg t) (s_id t)) = None
        \<and> (\<forall>r. d' (at_active (s_cfg t) @ r) = orig_of t (at_active (s_cfg t) @ r)) \<and> (had \<longrightarrow> orig_of t (at_active (s_cfg t)) \<noteq> None)"
      unfolding guarded_keep [OF same] by blast
  qed
  show "robust t (moved t)" unfolding moved_def [abs_def]
  proof (rule robust_and [OF robust_secured])
    fix sn and d d' :: disk assume same: "\<forall>x. guarded (s_cfg t) (s_id t) x \<longrightarrow> x \<noteq> at_journal (s_cfg t) \<longrightarrow> d' x = d x"
      and P: "sn_bundled_switch_plan sn \<and> sn_bundled_had_old sn \<and> d (at_old (s_cfg t) (s_id t)) \<noteq> None
        \<and> (\<forall>r. d (at_old (s_cfg t) (s_id t) @ r) = orig_of t (at_active (s_cfg t) @ r))"
    from P show "sn_bundled_switch_plan sn \<and> sn_bundled_had_old sn \<and> d' (at_old (s_cfg t) (s_id t)) \<noteq> None
        \<and> (\<forall>r. d' (at_old (s_cfg t) (s_id t) @ r) = orig_of t (at_active (s_cfg t) @ r))"
      unfolding guarded_keep [OF same] by blast
  qed
qed

lemmas minds_conditions = minds_fresh minds_begun robust_minds [OF robust_secured] robust_conditions [THEN robust_minds]

section \<open>The journal\<close>

lemma important_above_key:
  assumes "important t x" "prefix x (home (s_cfg t) @ key)" "\<And>k. k \<in> set (keys t) \<Longrightarrow> prefix k key \<Longrightarrow> k = key"
  shows "x = home (s_cfg t) @ key"
proof -
  obtain k where k: "k \<in> set (keys t)" "prefix (home (s_cfg t) @ k) x" using important_key [OF assms(1)] by blast
  then have "prefix k key" using prefix_order.trans [OF k(2) assms(2)] by (simp only: same_prefix_prefix)
  then have "k = key" using assms(3) k(1) by blast
  with k(2) assms(2) show ?thesis using prefix_order.antisym by blast
qed

lemma important_above_journal: "important t x \<Longrightarrow> prefix x (at_journal (s_cfg t)) \<Longrightarrow> x = at_journal (s_cfg t)"
  by (rule important_above_key) (auto simp: keys_def managed_names_def)

lemma journal_write:
  assumes "proper t"
  shows "important t x \<Longrightarrow> x \<noteq> at_journal (s_cfg t) \<Longrightarrow>
      disk_of t (ops @ [WriteSnapshot (journal_path (s_cfg t)) sn]) x = disk_of t ops x"
    "disk_of t (ops @ [WriteSnapshot (journal_path (s_cfg t)) sn]) (at_journal (s_cfg t)) =
      (if rh_ok (s_host t) ops (WriteSnapshot (journal_path (s_cfg t)) sn) then Some (Regular (Saved sn)) else disk_of t ops (at_journal (s_cfg t)))"
proof -
  have site: "site (s_cfg t) (s_id t)" and host: "rh_ok (s_host t) = de_ok (s_env t)"
    using assms by (simp_all add: proper_def answers_def)
  note place = site_paths(5) [OF site]
  show "disk_of t (ops @ [WriteSnapshot (journal_path (s_cfg t)) sn]) x = disk_of t ops x"
    if "important t x" "x \<noteq> at_journal (s_cfg t)"
    unfolding disk_after_snoc by (rule advance_frame) (use important_above_journal [OF that(1)] that(2) place in auto)
  show "disk_of t (ops @ [WriteSnapshot (journal_path (s_cfg t)) sn]) (at_journal (s_cfg t)) =
      (if rh_ok (s_host t) ops (WriteSnapshot (journal_path (s_cfg t)) sn) then Some (Regular (Saved sn)) else disk_of t ops (at_journal (s_cfg t)))"
    unfolding disk_after_snoc advance_def host using place by simp
qed

lemma way_back_journal:
  assumes "proper t" "minds t Q" "minds t R" "minds t R'" "\<And>sn d. R sn d \<Longrightarrow> sound t sn d" "\<And>sn d. R' sn d \<Longrightarrow> sound t sn d"
    and st: "way_back t Q R st" "R' sn (disk_of t (tx_ops st))"
  defines "w \<equiv> WriteSnapshot (journal_path (s_cfg t)) sn"
  shows "way_back t Q (if rh_ok (s_host t) (tx_ops st) w then R' else R) (st\<lparr>tx_ops := tx_ops st @ [w]\<rparr>)"
proof -
  note same = journal_write(1) [OF assms(1), of _ "tx_ops st" sn, folded w_def]
  note here = journal_write(2) [OF assms(1), of "tx_ops st" sn, folded w_def]
  have carry: "P j (disk_of t (tx_ops st @ [w]))" if "minds t P" "P j (disk_of t (tx_ops st))" for P j
    using that same unfolding minds_def by blast
  obtain j where j: "disk_of t (tx_ops st) (at_journal (s_cfg t)) = Some (Regular (Saved j))" "R j (disk_of t (tx_ops st))"
    using st(1) by (auto simp: way_back_def)
  have Q: "Q (tx_snapshot st) (disk_of t (tx_ops st @ [w]))" using carry [OF assms(2)] st(1) by (simp add: way_back_def)
  show ?thesis
  proof (cases "rh_ok (s_host t) (tx_ops st) w")
    case True
    then show ?thesis
      using way_back_step [OF st(1), of w Q sn R'] Q here carry [OF assms(4) st(2)] assms(6) by (simp add: w_def)
  next
    case False
    then show ?thesis
      using way_back_step [OF st(1), of w Q j R] Q here j carry [OF assms(3) j(2)] assms(5) by (simp add: w_def)
  qed
qed

lemma holds_write_journal:
  assumes "proper t" "minds t Q" "minds t R" "minds t R'"
    and sound: "\<And>sn d. Q sn d \<Longrightarrow> sound t sn d" "\<And>sn d. R sn d \<Longrightarrow> sound t sn d" "\<And>sn d. R' sn d \<Longrightarrow> sound t sn d"
  shows "holds (\<lambda>st. way_back t Q R st \<and> R' sn (disk_of t (tx_ops st))) (write_journal (s_host t) (s_cfg t) sn) (\<lambda>_. way_back t Q R') (safe t)"
proof (cases "sn_backup_path sn = backup_dir (s_cfg t) (s_id t)")
  case True
  show ?thesis unfolding write_journal_def True
  proof (rule holds_andthen)
    let ?w = "WriteSnapshot (journal_path (s_cfg t)) sn"
    show "holds (\<lambda>st. way_back t Q R st \<and> R' sn (disk_of t (tx_ops st))) (perform (s_host t) ?w) (\<lambda>_. way_back t Q R') (safe t)"
    proof (rule holds_perform)
      fix st assume st: "way_back t Q R st \<and> R' sn (disk_of t (tx_ops st))"
      note step = way_back_journal [OF assms(1-4) sound(2,3) conjunct1 [OF st] conjunct2 [OF st]]
      show "way_back t Q R' (st\<lparr>tx_ops := tx_ops st @ [?w]\<rparr>)" if "rh_ok (s_host t) (tx_ops st) ?w" using step that by simp
      show "safe t (st\<lparr>tx_ops := tx_ops st @ [?w]\<rparr>)" if "\<not> rh_ok (s_host t) (tx_ops st) ?w"
        using step that sound(1,2) by (auto intro: way_back_mono)
    qed
    show "holds (way_back t Q R') (perform (s_host t) (WriteSnapshot (join_path [backup_dir (s_cfg t) (s_id t), ''snapshot.json'']) sn))
        (\<lambda>_. way_back t Q R') (safe t)"
      by (rule holds_neutral [OF neutral_ops(2) [OF assms(1)] assms(2,4) sound(1,3)])
  qed
next
  case False
  have "\<not> R' sn d" for d using False sound(3) [of sn d] by (auto simp: sound_def formed_def Let_def)
  then show ?thesis by (simp add: holds_def)
qed

text \<open>Writing the snapshot held in memory.\<close>

lemma holds_journal:
  assumes "proper t" "minds t Q" "minds t R" "\<And>sn d. Q sn d \<Longrightarrow> sound t sn d" "\<And>sn d. R sn d \<Longrightarrow> sound t sn d"
  shows "holds (way_back t Q R) (andthen held (write_journal (s_host t) (s_cfg t))) (\<lambda>_. way_back t Q Q) (safe t)"
proof (rule holds_andthen)
  show "holds (way_back t Q R) held (\<lambda>sn st. way_back t Q R st \<and> Q sn (disk_of t (tx_ops st))) (safe t)"
    by (rule holds_held) (simp add: way_back_def)
  show "holds (\<lambda>st. way_back t Q R st \<and> Q sn (disk_of t (tx_ops st))) (write_journal (s_host t) (s_cfg t) sn) (\<lambda>_. way_back t Q Q) (safe t)" for sn
    by (rule holds_write_journal [OF assms(1,2,3,2)]) (use assms(4,5) in auto)
qed

end
