(* ===== verification/Update_Forward.thy ===== *)
theory Update_Forward
  imports Update_Phases
begin

text \<open>
  The phases of \<open>Apply\<close> in order: the copies and their journal, the preflight, the release, the
  pointer, the bundled scripts and the start of the new version.
\<close>

section \<open>Copies\<close>

lemma set_update_subset: "set (AList.update k v xs) \<subseteq> insert (k, v) (set xs)"
  by (induction xs) auto

lemma live_path_inject:
  "site cfg operation_id \<Longrightarrow> plain_element n \<Longrightarrow> plain_element m \<Longrightarrow> live_path cfg n = live_path cfg m \<longleftrightarrow> n = m"
  using site_paths(1) by (metis last_snoc)

lemma formed_copy:
  assumes "formed t sn" "n \<in> set (''one'' # managed_names)"
  shows "formed t (sn\<lparr>sn_files := AList.update (live_path (s_cfg t) n) (copy_path (s_cfg t) (s_id t) n) (sn_files sn)\<rparr>)"
proof -
  let ?xs = "AList.update (live_path (s_cfg t) n) (copy_path (s_cfg t) (s_id t) n) (sn_files sn)"
  let ?ok = "\<lambda>(live, backup). \<exists>n\<in>set (''one'' # managed_names). live = live_path (s_cfg t) n \<and> backup = copy_path (s_cfg t) (s_id t) n"
  have "?ok p" if "p \<in> set ?xs" for p
  proof (cases "p \<in> set (sn_files sn)")
    case True
    then show ?thesis using assms(1) unfolding formed_def Let_def by blast
  next
    case False
    then have "p = (live_path (s_cfg t) n, copy_path (s_cfg t) (s_id t) n)" using that set_update_subset by fastforce
    then show ?thesis using assms(2) by auto
  qed
  then have "\<forall>p\<in>set ?xs. ?ok p" by blast
  with assms(1) show ?thesis by (simp add: formed_def Let_def)
qed

lemma important_above_backup:
  assumes "n \<in> set managed_names" "important t x" "prefix x (at_backup (s_cfg t) (s_id t) n)"
  shows "x = at_backup (s_cfg t) (s_id t) n"
proof (rule important_above_key [OF assms(2,3)])
  fix k assume k: "k \<in> set (keys t)" "prefix k [''updates'', ''backups'', s_id t, ''files'', n]"
  have "''updates'' \<notin> set managed_names" by (simp add: managed_names_def)
  with k have "k \<in> (\<lambda>n. [''updates'', ''backups'', s_id t, ''files'', n]) ` set managed_names" by (auto simp: keys_def)
  with k(2) show "k = [''updates'', ''backups'', s_id t, ''files'', n]" by auto
qed

lemma copy_step:
  assumes "proper t" "n \<in> set managed_names" "untouched t (disk_of t ops)"
  defines "w \<equiv> CopyFile (live_path (s_cfg t) n) (copy_path (s_cfg t) (s_id t) n)"
  shows "important t x \<Longrightarrow> x \<noteq> at_backup (s_cfg t) (s_id t) n \<Longrightarrow> disk_of t (ops @ [w]) x = disk_of t ops x"
    "rh_ok (s_host t) ops w \<Longrightarrow> orig_of t (home (s_cfg t) @ [n]) \<noteq> None \<Longrightarrow>
      disk_of t (ops @ [w]) (at_backup (s_cfg t) (s_id t) n) = orig_of t (home (s_cfg t) @ [n])"
proof -
  have site: "site (s_cfg t) (s_id t)" and host: "rh_ok (s_host t) = de_ok (s_env t)"
    using assms(1) by (simp_all add: proper_def answers_def)
  have plain: "plain_element n" using plain_names(10) assms(2) by blast
  note places = site_paths(1,9) [OF site plain]
  show "disk_of t (ops @ [w]) x = disk_of t ops x" if "important t x" "x \<noteq> at_backup (s_cfg t) (s_id t) n"
    unfolding disk_after_snoc w_def
  proof (rule advance_frame)
    show "\<not> footprint (CopyFile (live_path (s_cfg t) n) (copy_path (s_cfg t) (s_id t) n)) x"
      using important_above_backup [OF assms(2) that(1)] that(2) places by auto
  qed simp
  show "disk_of t (ops @ [w]) (at_backup (s_cfg t) (s_id t) n) = orig_of t (home (s_cfg t) @ [n])"
    if ok: "rh_ok (s_host t) ops w" and there: "orig_of t (home (s_cfg t) @ [n]) \<noteq> None"
  proof -
    obtain c where c: "orig_of t (home (s_cfg t) @ [n]) = Some (Regular c)"
      using there assms(1,2) unfolding proper_def by blast
    then have "disk_of t ops (home (s_cfg t) @ [n]) = Some (Regular c)" using assms(2,3) by (simp add: untouched_def)
    then show ?thesis using ok c places unfolding disk_after_snoc advance_def w_def host by simp
  qed
qed

text \<open>A copy, then its entry in the snapshot.\<close>

lemma copy_kept_update:
  assumes "site cfg operation_id" "plain_element n" "plain_element m"
  shows "copy_kept cfg operation_id orig (sn\<lparr>sn_files := AList.update (live_path cfg n) b (sn_files sn)\<rparr>) d m \<longleftrightarrow>
    (if n = m then (\<exists>c. orig (home cfg @ [m]) = Some (Regular c) \<and> b = copy_path cfg operation_id m \<and> d (at_backup cfg operation_id m) = Some (Regular c))
     else copy_kept cfg operation_id orig sn d m)"
  using live_path_inject [OF assms] by (auto simp: copy_kept_def update_conv' split: option.splits)

lemma begun_copy:
  assumes "proper t" "n \<in> set managed_names" "n \<notin> set ns" and begun: "begun t ns sn (disk_of t ops)"
  shows "begun t ns sn (disk_of t (ops @ [CopyFile (live_path (s_cfg t) n) (copy_path (s_cfg t) (s_id t) n)]))"
proof -
  let ?w = "CopyFile (live_path (s_cfg t) n) (copy_path (s_cfg t) (s_id t) n)"
  have "untouched t (disk_of t ops)" using begun by (simp add: begun_def fresh_def)
  note same = copy_step(1) [OF assms(1,2) this]
  have "untouched t (disk_of t (ops @ [?w]))"
    using begun same important_places [where t = t] unfolding begun_def fresh_def untouched_def by simp
  moreover have "copy_kept (s_cfg t) (s_id t) (orig_of t) sn (disk_of t (ops @ [?w])) m" if "m \<in> set managed_names" "m \<in> set ns" for m
    by (rule copy_kept_cong [of _ _ _ _ "disk_of t ops"], rule same)
      (use begun that assms(3) important_places(5) in \<open>auto simp: begun_def\<close>)
  ultimately show ?thesis using begun by (simp add: begun_def fresh_def)
qed

lemma way_back_copy:
  assumes "proper t" "n \<in> set managed_names" "n \<notin> set ns" and st: "way_back t (begun t ns) (fresh t) st"
  shows "way_back t (begun t ns) (fresh t) (st\<lparr>tx_ops := tx_ops st @ [CopyFile (live_path (s_cfg t) n) (copy_path (s_cfg t) (s_id t) n)]\<rparr>)"
proof -
  let ?w = "CopyFile (live_path (s_cfg t) n) (copy_path (s_cfg t) (s_id t) n)"
  have un: "untouched t (disk_of t (tx_ops st))" using st by (simp add: way_back_def begun_def fresh_def)
  note same = copy_step(1) [OF assms(1,2) un]
  obtain j where j: "disk_of t (tx_ops st) (at_journal (s_cfg t)) = Some (Regular (Saved j))" "fresh t j (disk_of t (tx_ops st))"
    using st by (auto simp: way_back_def)
  have "fresh t j (disk_of t (tx_ops st @ [?w]))"
    using j(2) same important_places [where t = t] unfolding fresh_def untouched_def by simp
  moreover have "disk_of t (tx_ops st @ [?w]) (at_journal (s_cfg t)) = Some (Regular (Saved j))"
    using same [OF journal_important] j(1) by simp
  moreover have "begun t ns (tx_snapshot st) (disk_of t (tx_ops st @ [?w]))"
    using begun_copy [OF assms(1-3)] st by (simp add: way_back_def)
  ultimately show ?thesis using way_back_step [OF st, of ?w "begun t ns" j "fresh t"] fresh_sound by simp
qed

lemma save_copy_holds:
  assumes "\<And>st. B st \<Longrightarrow> sn_backup_path (tx_snapshot st) = backup_dir cfg operation_id"
    and "holds B (perform host (CopyFile (live_path cfg n) (copy_path cfg operation_id n))) (\<lambda>_. C) E"
    and "holds C (revise (\<lambda>sn. sn\<lparr>sn_files := AList.update (live_path cfg n) (copy_path cfg operation_id n) (sn_files sn)\<rparr>)) (\<lambda>_. D) E"
  shows "holds B (save_copy host cfg n) (\<lambda>_. D) E"
  unfolding save_copy_def
proof (rule holds_andthen)
  show "holds B held (\<lambda>sn st. B st \<and> sn_backup_path sn = backup_dir cfg operation_id) E" by (rule holds_held) (simp add: assms(1))
  show "holds (\<lambda>st. B st \<and> sn_backup_path sn = backup_dir cfg operation_id)
      (let live = join_path [uc_install_dir cfg, n]; backup = join_path [sn_backup_path sn, ''files'', n]
       in andthen (perform host (CopyFile live backup)) (\<lambda>_. revise (\<lambda>sn. sn\<lparr>sn_files := AList.update live backup (sn_files sn)\<rparr>)))
      (\<lambda>_. D) E" for sn
  proof (cases "sn_backup_path sn = backup_dir cfg operation_id")
    case True
    show ?thesis unfolding Let_def True live_path_def [symmetric] copy_path_def [symmetric]
      by (rule holds_pre [OF holds_andthen [OF assms(2,3)]]) simp
  qed (simp add: holds_def)
qed

lemma save_copy_rule:
  assumes "proper t" "n \<in> set managed_names" "n \<notin> set ns" "orig_of t (home (s_cfg t) @ [n]) \<noteq> None"
  shows "holds (way_back t (begun t ns) (fresh t)) (save_copy (s_host t) (s_cfg t) n) (\<lambda>_. way_back t (begun t (n # ns)) (fresh t)) (safe t)"
proof -
  have site: "site (s_cfg t) (s_id t)" using assms(1) by (simp add: proper_def)
  let ?live = "live_path (s_cfg t) n" and ?copy = "copy_path (s_cfg t) (s_id t) n"
  let ?w = "CopyFile ?live ?copy" and ?bak = "at_backup (s_cfg t) (s_id t) n"
  obtain c where c: "orig_of t (home (s_cfg t) @ [n]) = Some (Regular c)" using assms(1,2,4) unfolding proper_def by blast
  define copied where "copied = (\<lambda>sn d. begun t ns sn d \<and> d ?bak = Some (Regular c))"
  have plain: "\<And>m. m \<in> set managed_names \<Longrightarrow> plain_element m" using plain_names(10) by blast
  have perform: "holds (way_back t (begun t ns) (fresh t)) (perform (s_host t) ?w) (\<lambda>_. way_back t copied (fresh t)) (safe t)"
  proof (rule holds_perform)
    fix st assume st: "way_back t (begun t ns) (fresh t) st"
    have un: "untouched t (disk_of t (tx_ops st))" using st by (simp add: way_back_def begun_def fresh_def)
    show "way_back t copied (fresh t) (st\<lparr>tx_ops := tx_ops st @ [?w]\<rparr>)" if "rh_ok (s_host t) (tx_ops st) ?w"
      using way_back_copy [OF assms(1-3) st] copy_step(2) [OF assms(1,2) un that assms(4)] c by (simp add: way_back_def copied_def)
    show "safe t (st\<lparr>tx_ops := tx_ops st @ [?w]\<rparr>)"
      using way_back_copy [OF assms(1-3) st] conditions_sound(6) fresh_sound by (blast intro: way_back_mono)
  qed
  have revise: "holds (way_back t copied (fresh t)) (revise (\<lambda>sn. sn\<lparr>sn_files := AList.update ?live ?copy (sn_files sn)\<rparr>))
      (\<lambda>_. way_back t (begun t (n # ns)) (fresh t)) (safe t)"
  proof (rule holds_revise)
    fix st assume st: "way_back t copied (fresh t) st"
    let ?sn = "tx_snapshot st" and ?d = "disk_of t (tx_ops st)"
    let ?sn' = "?sn\<lparr>sn_files := AList.update ?live ?copy (sn_files ?sn)\<rparr>"
    have b: "begun t ns ?sn ?d" "?d ?bak = Some (Regular c)" using st by (simp_all add: way_back_def copied_def)
    have "formed t ?sn'" by (rule formed_copy) (use b(1) assms(2) in \<open>auto simp: begun_def fresh_def\<close>)
    then have "fresh t ?sn' ?d" using b(1) by (simp add: begun_def fresh_def)
    moreover have "copy_kept (s_cfg t) (s_id t) (orig_of t) ?sn' ?d m" if "m \<in> set managed_names" "m \<in> set (n # ns)" for m
      using copy_kept_update [OF site plain [OF assms(2)] plain [OF that(1)]] b c that by (auto simp: begun_def)
    moreover have "map_of (sn_files ?sn') (live_path (s_cfg t) m) = None" if "m \<in> set managed_names" "m \<notin> set (n # ns)" for m
      using b(1) that live_path_inject [OF site plain [OF assms(2)] plain [OF that(1)]] by (auto simp: begun_def update_conv')
    ultimately have "begun t (n # ns) ?sn' ?d" by (simp add: begun_def)
    with st show "way_back t (begun t (n # ns)) (fresh t) (st\<lparr>tx_snapshot := ?sn'\<rparr>)"
      by (simp add: way_back_def)
  qed
  show ?thesis
    by (rule save_copy_holds [OF _ perform revise]) (simp add: way_back_def begun_def fresh_def formed_def Let_def)
qed

lemma backup_managed_rule:
  assumes "proper t" "n \<in> set managed_names" "n \<notin> set ns"
  shows "holds (way_back t (begun t ns) (fresh t)) (backup_managed (s_host t) (s_cfg t) n) (\<lambda>_. way_back t (begun t (n # ns)) (fresh t)) (safe t)"
proof -
  have site: "site (s_cfg t) (s_id t)" and ans: "answers (s_host t) (s_env t) (s_base t) (s_cfg t) (s_id t)"
    using assms(1) by (simp_all add: proper_def)
  have plain: "plain_element n" using plain_names(10) assms(2) by blast
  let ?live = "live_path (s_cfg t) n" and ?orig = "orig_of t (home (s_cfg t) @ [n])"
  have "?live \<in> set (watched (s_cfg t) (s_id t))" using assms(2) by (simp add: watched_def)
  note stat = answers_at(2) [OF ans this site_paths(1) [OF site plain]]
  have ask: "holds (way_back t (begun t ns) (fresh t)) (ask (\<lambda>ops. rh_stat (s_host t) ops ?live))
      (\<lambda>info st. way_back t (begun t ns) (fresh t) st \<and> (info = None \<or> info = Some (map_option kind ?orig))) (safe t)"
  proof (rule holds_ask)
    fix st assume st: "way_back t (begun t ns) (fresh t) st"
    then have here: "disk_of t (tx_ops st) (home (s_cfg t) @ [n]) = ?orig"
      using assms(2) by (simp add: way_back_def begun_def fresh_def untouched_def)
    have "?orig \<noteq> Some (Link l)" for l using assms(1,2) unfolding proper_def by blast
    then show "way_back t (begun t ns) (fresh t) st \<and>
        (rh_stat (s_host t) (tx_ops st) ?live = None \<or> rh_stat (s_host t) (tx_ops st) ?live = Some (map_option kind ?orig))"
      using stat [of "tx_ops st"] here st by simp
  qed
  have body: "holds (\<lambda>st. way_back t (begun t ns) (fresh t) st \<and> (info = None \<or> info = Some (map_option kind ?orig)))
      (case info of None \<Rightarrow> fails (InspectFailed ?live) | Some None \<Rightarrow> yields () | Some (Some _) \<Rightarrow> save_copy (s_host t) (s_cfg t) n)
      (\<lambda>_. way_back t (begun t (n # ns)) (fresh t)) (safe t)" for info
  proof (cases "info = Some (map_option kind ?orig)")
    case True
    show ?thesis
    proof (cases ?orig)
      case None
      have "holds (way_back t (begun t ns) (fresh t)) (yields ()) (\<lambda>_. way_back t (begun t (n # ns)) (fresh t)) (safe t)"
        by (rule holds_yields) (use None assms(2,3) in \<open>auto simp: way_back_def begun_def copy_kept_def\<close>)
      then show ?thesis using True None by (auto intro: holds_pre)
    next
      case (Some e)
      have "holds (way_back t (begun t ns) (fresh t)) (save_copy (s_host t) (s_cfg t) n) (\<lambda>_. way_back t (begun t (n # ns)) (fresh t)) (safe t)"
        by (rule save_copy_rule [OF assms]) (simp add: Some)
      then show ?thesis using True Some by (auto intro: holds_pre)
    qed
  next
    case False
    have "safe t st" if "way_back t (begun t ns) (fresh t) st" for st
      using that conditions_sound(6) fresh_sound by (blast intro: way_back_mono)
    then show ?thesis by (cases info) (use False in \<open>auto simp: holds_def fails_def\<close>)
  qed
  show ?thesis unfolding backup_managed_def Let_def live_path_def [symmetric] by (rule holds_andthen [OF ask body])
qed

lemma backup_files_rule:
  assumes "proper t" "distinct xs" "set xs \<subseteq> set managed_names"
  shows "set xs \<inter> set ns = {} \<Longrightarrow>
    holds (way_back t (begun t ns) (fresh t)) (in_turn (backup_managed (s_host t) (s_cfg t)) xs) (\<lambda>_. way_back t (begun t (rev xs @ ns)) (fresh t)) (safe t)"
  using assms(2,3)
proof (induction xs arbitrary: ns)
  case Nil
  then show ?case by (simp add: holds_yields)
next
  case (Cons x xs)
  have rest: "holds (way_back t (begun t (x # ns)) (fresh t)) (in_turn (backup_managed (s_host t) (s_cfg t)) xs)
      (\<lambda>_. way_back t (begun t (rev xs @ x # ns)) (fresh t)) (safe t)"
    by (rule Cons.IH) (use Cons.prems in auto)
  show ?case using holds_andthen [OF backup_managed_rule [OF assms(1), of x ns] rest] Cons.prems by simp
qed

lemma backup_binary_rule:
  assumes "proper t"
  shows "holds (way_back t (begun t ns) (fresh t)) (backup_binary (s_host t) (s_cfg t)) (\<lambda>_. way_back t (begun t ns) (fresh t)) (safe t)"
proof -
  have site: "site (s_cfg t) (s_id t)" using assms by (simp add: proper_def)
  let ?B = "way_back t (begun t ns) (fresh t)" and ?live = "live_path (s_cfg t) ''one''" and ?copy = "copy_path (s_cfg t) (s_id t) ''one''"
  have safe: "safe t st" if "?B st" for st using that conditions_sound(6) fresh_sound by (blast intro: way_back_mono)
  have perform: "holds ?B (perform (s_host t) (CopyFile ?live ?copy)) (\<lambda>_. ?B) (safe t)"
    by (rule holds_neutral [OF neutral_ops(5) [OF assms] minds_begun minds_fresh conditions_sound(6) fresh_sound])
  have revise: "holds ?B (revise (\<lambda>sn. sn\<lparr>sn_files := AList.update ?live ?copy (sn_files sn)\<rparr>)) (\<lambda>_. ?B) (safe t)"
  proof (rule holds_revise)
    fix st assume st: "?B st"
    let ?sn = "tx_snapshot st" and ?d = "disk_of t (tx_ops st)"
    let ?sn' = "?sn\<lparr>sn_files := AList.update ?live ?copy (sn_files ?sn)\<rparr>"
    have b: "begun t ns ?sn ?d" using st by (simp add: way_back_def)
    have "formed t ?sn'" by (rule formed_copy) (use b in \<open>auto simp: begun_def fresh_def\<close>)
    moreover have other: "live_path (s_cfg t) m \<noteq> ?live" "copy_kept (s_cfg t) (s_id t) (orig_of t) ?sn' ?d m = copy_kept (s_cfg t) (s_id t) (orig_of t) ?sn ?d m"
      if "m \<in> set managed_names" for m
      using live_path_inject [OF site plain_names(10) [OF that] plain_names(7)] copy_kept_update [OF site plain_names(7) plain_names(10) [OF that]]
        managed_not [OF that] by auto
    ultimately have "begun t ns ?sn' ?d" using b by (auto simp: begun_def fresh_def update_conv')
    with st show "?B (st\<lparr>tx_snapshot := ?sn'\<rparr>)" by (simp add: way_back_def)
  qed
  have save: "holds ?B (save_copy (s_host t) (s_cfg t) ''one'') (\<lambda>_. ?B) (safe t)"
    by (rule save_copy_holds [OF _ perform revise]) (simp add: way_back_def begun_def fresh_def formed_def Let_def)
  have body: "holds ?B (case info of Some (Some k) \<Rightarrow> if k = RegularFile then save_copy (s_host t) (s_cfg t) ''one'' else yields ()
      | _ \<Rightarrow> fails (InspectFailed (join_path [uc_install_dir (s_cfg t), ''one'']))) (\<lambda>_. ?B) (safe t)" for info
    using save by (auto intro: holds_yields holds_fails safe split: option.splits)
  show ?thesis unfolding backup_binary_def Let_def by (rule holds_andthen [OF _ body]) (simp add: holds_ask)
qed

lemma holds_revise_back:
  assumes "\<And>sn d. Q sn d \<Longrightarrow> Q' (f sn) d" "\<And>sn. sn_managed_files (f sn) = [] \<Longrightarrow> sn_managed_files sn = []"
  shows "holds (way_back t Q R) (revise f) (\<lambda>_. way_back t Q' R) E"
proof (rule holds_revise)
  fix st assume st: "way_back t Q R st"
  then have "Q' (f (tx_snapshot st)) (disk_of t (tx_ops st))" using assms(1) unfolding way_back_def by blast
  moreover have sel: "tx_ops (st\<lparr>tx_snapshot := x\<rparr>) = tx_ops st" "tx_snapshot (st\<lparr>tx_snapshot := x\<rparr>) = x" for x by simp_all
  ultimately show "way_back t Q' R (st\<lparr>tx_snapshot := f (tx_snapshot st)\<rparr>)"
    using st assms(2) [of "tx_snapshot st"] unfolding way_back_def sel by blast
qed

lemma begun_saved:
  assumes "begun t ns sn d" "set managed_names \<subseteq> set ns"
  shows "saved t (sn\<lparr>sn_managed_files := allowed_managed (uc_install_dir (s_cfg t))\<rparr>) d"
proof -
  let ?full = "sn\<lparr>sn_managed_files := allowed_managed (uc_install_dir (s_cfg t))\<rparr>"
  have f: "fresh t sn d" using assms(1) by (simp add: begun_def)
  have "\<forall>n\<in>set managed_names. copy_kept (s_cfg t) (s_id t) (orig_of t) sn d n" using assms by (auto simp: begun_def)
  then have "files_ok (s_cfg t) (s_id t) (orig_of t) ?full d" by (simp add: files_ok_def copy_kept_def cong: option.case_cong)
  moreover have "pointer_ok (s_cfg t) (orig_of t) ?full d" "scripts_ok (s_cfg t) (s_id t) (orig_of t) ?full d"
    using f by (simp_all add: fresh_def untouched_def pointer_ok_def scripts_ok_def)
  moreover have "formed t ?full" "sn_operation_id ?full = s_id t" using f by (simp_all add: fresh_def formed_def Let_def)
  moreover have "sn_managed_files ?full \<noteq> []" by (simp add: allowed_managed_def managed_names_def)
  ultimately show ?thesis using f by (simp add: saved_def secured_def sound_def recoverable_def fresh_def)
qed

lemma populate_rule:
  assumes "proper t"
  shows "holds (way_back t (begun t []) (fresh t)) (populate_snapshot (s_host t) (s_cfg t)) (\<lambda>_. way_back t (saved t) (saved t)) (safe t)"
proof -
  let ?all = "rev managed_names" and ?allowed = "allowed_managed (uc_install_dir (s_cfg t))"
  have files: "holds (way_back t (begun t []) (fresh t)) (in_turn (backup_managed (s_host t) (s_cfg t)) managed_names)
      (\<lambda>_. way_back t (begun t ?all) (fresh t)) (safe t)"
    using backup_files_rule [OF assms, of managed_names "[]"] by (simp add: managed_names_def)
  define this_one where "this_one sn = (\<lambda>sn' d. sn' = sn \<and> begun t ?all sn' d)" for sn
  have minds: "minds t (this_one sn)" for sn using minds_begun [of t ?all] unfolding this_one_def minds_def by blast
  have one_sound: "this_one sn sn' d \<Longrightarrow> sound t sn' d" for sn sn' d
    using conditions_sound(6) unfolding this_one_def by blast
  have full: "saved t (sn\<lparr>sn_managed_files := ?allowed\<rparr>) d" if "begun t ?all sn d" for sn d
    by (rule begun_saved [OF that]) simp
  have nonempty: "?allowed \<noteq> []" by (simp add: allowed_managed_def managed_names_def)
  have rest: "holds (way_back t (this_one sn) (fresh t))
      (let full = sn\<lparr>sn_managed_files := ?allowed\<rparr> in
       andthen (perform (s_host t) (WriteSnapshot (join_path [sn_backup_path sn, ''snapshot.json'']) full)) (\<lambda>_.
       andthen (write_journal (s_host t) (s_cfg t) full) (\<lambda>_. revise (\<lambda>_. full))))
      (\<lambda>_. way_back t (saved t) (saved t)) (safe t)" for sn
  proof (cases "sn_backup_path sn = backup_dir (s_cfg t) (s_id t)")
    case True
    let ?full = "sn\<lparr>sn_managed_files := ?allowed\<rparr>"
    have p: "holds (way_back t (this_one sn) (fresh t)) (perform (s_host t) (WriteSnapshot (join_path [backup_dir (s_cfg t) (s_id t), ''snapshot.json'']) ?full))
        (\<lambda>_. way_back t (this_one sn) (fresh t)) (safe t)"
      by (rule holds_neutral [OF neutral_ops(2) [OF assms] minds minds_fresh]) (auto intro: one_sound fresh_sound)
    have j: "holds (way_back t (this_one sn) (fresh t)) (write_journal (s_host t) (s_cfg t) ?full) (\<lambda>_. way_back t (this_one sn) (saved t)) (safe t)"
      by (rule holds_pre, rule holds_write_journal [OF assms minds minds_fresh minds_conditions(4), where sn = ?full])
        (auto intro: one_sound fresh_sound conditions_sound simp: way_back_def this_one_def full)
    have r: "holds (way_back t (this_one sn) (saved t)) (revise (\<lambda>_. ?full)) (\<lambda>_. way_back t (saved t) (saved t)) (safe t)"
      by (rule holds_revise_back) (use full nonempty in \<open>auto simp: this_one_def\<close>)
    show ?thesis unfolding Let_def True by (rule holds_andthen [OF p holds_andthen [OF j r]])
  next
    case False
    then have "\<not> way_back t (this_one sn) (fresh t) st" for st
      by (auto simp: way_back_def this_one_def begun_def fresh_def formed_def Let_def)
    then show ?thesis by (simp add: holds_def)
  qed
  have held: "holds (way_back t (begun t ?all) (fresh t)) held (\<lambda>sn. way_back t (this_one sn) (fresh t)) (safe t)"
    by (rule holds_held) (simp add: way_back_def this_one_def)
  show ?thesis
    unfolding populate_snapshot_def
    by (rule holds_andthen [OF files holds_andthen [OF backup_binary_rule [OF assms] holds_andthen [OF held rest]]])
qed

section \<open>Preflight and release\<close>

lemma saved_neutral:
  "proper t \<Longrightarrow> neutral t w \<Longrightarrow> holds (way_back t (saved t) (saved t)) (perform (s_host t) w) (\<lambda>_. way_back t (saved t) (saved t)) (safe t)"
  by (rule holds_neutral) (auto intro: minds_conditions conditions_sound)

lemma back_safe:
  "way_back t Q R st \<Longrightarrow> (\<And>sn d. Q sn d \<Longrightarrow> sound t sn d) \<Longrightarrow> (\<And>sn d. R sn d \<Longrightarrow> sound t sn d) \<Longrightarrow> safe t st"
  using way_back_mono [of t Q R st "sound t" "sound t"] by blast

lemma saved_safe: "way_back t (saved t) (saved t) st \<Longrightarrow> safe t st"
  using back_safe conditions_sound(2) by blast

text \<open>What a rollback needs does not depend on the release that is installed, nor on the last flag.\<close>

lemma recoverable_fields [simp]:
  "recoverable cfg operation_id orig (sn\<lparr>sn_target_release_path := r\<rparr>) d = recoverable cfg operation_id orig sn d"
  "recoverable cfg operation_id orig (sn\<lparr>sn_bundled_switched := b\<rparr>) d = recoverable cfg operation_id orig sn d"
  by (simp_all add: recoverable_def files_ok_def pointer_ok_def scripts_ok_def cong: option.case_cong)

lemma preflight_rule:
  assumes "proper t"
  shows "holds (way_back t (saved t) (saved t)) (preflight (s_host t) (s_cfg t)) (\<lambda>_. way_back t (saved t) (saved t)) (safe t)"
proof -
  let ?S = "way_back t (saved t) (saved t)" and ?dir = "backup_dir (s_cfg t) (s_id t)"
  have copy: "holds ?S (preflight_copy (s_host t) (s_cfg t) (join_path [?dir, ''preflight'']) n) (\<lambda>_. ?S) (safe t)" if "n \<in> set managed_names" for n
  proof -
    have "holds ?S (perform (s_host t) (CopyFile b (join_path [join_path [?dir, ''preflight''], n]))) (\<lambda>_. ?S) (safe t)" for b
      by (rule saved_neutral [OF assms neutral_ops(4) [OF assms plain_names(10) [OF that]]])
    then have "holds ?S (case info of Some (Some _) \<Rightarrow> perform (s_host t) (CopyFile b (join_path [join_path [?dir, ''preflight''], n]))
        | _ \<Rightarrow> fails (InspectFailed b)) (\<lambda>_. ?S) (safe t)" for b info
      by (auto intro: holds_fails saved_safe split: option.splits)
    then have "holds ?S (andthen (ask (\<lambda>ops. rh_stat (s_host t) ops b)) (\<lambda>info.
        case info of Some (Some _) \<Rightarrow> perform (s_host t) (CopyFile b (join_path [join_path [?dir, ''preflight''], n]))
        | _ \<Rightarrow> fails (InspectFailed b))) (\<lambda>_. ?S) (safe t)" for b
      by (rule holds_andthen [rotated]) (simp add: holds_ask)
    then have "holds ?S (case found of None \<Rightarrow> yields () | Some b \<Rightarrow> andthen (ask (\<lambda>ops. rh_stat (s_host t) ops b)) (\<lambda>info.
        case info of Some (Some _) \<Rightarrow> perform (s_host t) (CopyFile b (join_path [join_path [?dir, ''preflight''], n]))
        | _ \<Rightarrow> fails (InspectFailed b))) (\<lambda>_. ?S) (safe t)" for found
      by (auto intro: holds_yields split: option.splits)
    then show ?thesis unfolding preflight_copy_def by (rule holds_andthen [rotated]) (simp add: holds_held)
  qed
  have run: "holds ?S (perform (s_host t) (RunPreflight p)) (\<lambda>_. ?S) (safe t)" for p
    by (rule holds_programs [OF assms]) (auto intro: robust_conditions conditions_sound)
  have body: "holds (\<lambda>st. ?S st \<and> sn_backup_path sn = ?dir)
      (let root = join_path [sn_backup_path sn, ''preflight''] in
       andthen (perform (s_host t) (MkdirAll root)) (\<lambda>_.
       andthen (in_turn (preflight_copy (s_host t) (s_cfg t) root) managed_names) (\<lambda>_. perform (s_host t) (RunPreflight root))))
      (\<lambda>_. ?S) (safe t)" for sn
  proof (cases "sn_backup_path sn = ?dir")
    case True
    show ?thesis unfolding Let_def True
      by (rule holds_pre [OF holds_andthen [OF saved_neutral [OF assms neutral_ops(3) [OF assms]] holds_andthen [OF holds_in_turn run]]])
        (auto intro: copy)
  qed (simp add: holds_def)
  show ?thesis unfolding preflight_def
    by (rule holds_andthen [OF _ body], rule holds_held)
      (auto simp: way_back_def saved_def secured_def sound_def formed_def Let_def)
qed

definition release_ok :: "setting \<Rightarrow> string \<Rightarrow> bool" where
  "release_ok t release \<longleftrightarrow> release \<noteq> releases_of t \<and> path_within (releases_of t) release"

lemma release_dir_rule:
  assumes "proper t"
  shows "holds (way_back t (saved t) (saved t)) (release_dir (s_host t) env (s_cfg t) version)
    (\<lambda>release st. way_back t (saved t) (saved t) st \<and> release_ok t release) (safe t)"
  unfolding release_dir_def Let_def
proof (rule holds_andthen [OF saved_neutral [OF assms neutral_ops(6) [OF assms]]])
  let ?name = "trim_prefix (canonical_version env version) ''v''"
  show "holds (way_back t (saved t) (saved t))
     (if ?name = [] \<or> join_path [releases_of t, ?name] = releases_of t \<or> \<not> path_within (releases_of t) (join_path [releases_of t, ?name])
      then fails (Refused ''unsafe release path'') else yields (join_path [releases_of t, ?name]))
     (\<lambda>release st. way_back t (saved t) (saved t) st \<and> release_ok t release) (safe t)" for u :: unit
    by (auto simp: release_ok_def intro!: holds_fails holds_yields saved_safe)
qed

lemma target_revised:
  assumes "proper t" "saved t sn d" "release_ok t release"
  shows "saved t (sn\<lparr>sn_target_release_path := release\<rparr>) d"
proof -
  have "uc_install_dir (s_cfg t) \<noteq> []" using assms(1) by (auto simp: proper_def site_def)
  then have "clean (releases_of t) = releases_of t" by simp
  then show ?thesis
    using assms(2,3) by (auto simp: saved_def secured_def sound_def formed_def Let_def release_ok_def)
qed

lemma promote_rule:
  assumes "proper t" "release_ok t release"
  shows "holds (way_back t (saved t) (saved t)) (promote_release (s_host t) (payload_of t) release operation_id)
    (\<lambda>_. way_back t (saved t) (saved t)) (safe t)"
proof -
  let ?S = "way_back t (saved t) (saved t)"
  have rel: "is_abs (releases_of t)" "elements (releases_of t) = home (s_cfg t) @ [''releases'']"
    using assms(1) join_element [OF _ plain_names(3)] by (simp_all add: proper_def site_def)
  have "prefix (home (s_cfg t) @ [''releases'']) (elements release)"
    using path_within_rooted [OF rel(1)] assms(2) rel(2) by (simp add: release_ok_def)
  then have two: "holds ?S (andthen (perform (s_host t) (WriteFile (join_path [payload_of t, ''.update-operation'']) marker)) (\<lambda>_.
      perform (s_host t) (Rename (payload_of t) release))) (\<lambda>_. ?S) (safe t)" for marker
    by (intro holds_andthen [OF saved_neutral [OF assms(1) neutral_ops(7) [OF assms(1)]]] saved_neutral [OF assms(1)] neutral_ops(8) [OF assms(1)])
  show ?thesis unfolding promote_release_def
  proof (rule holds_andthen)
    show "holds ?S (ask (\<lambda>ops. rh_stat (s_host t) ops release)) (\<lambda>_. ?S) (safe t)" by (simp add: holds_ask)
    show "holds ?S (case info of Some (Some _) \<Rightarrow> fails (Refused ''release directory already exists'') | None \<Rightarrow> fails (InspectFailed release)
        | Some None \<Rightarrow> andthen (perform (s_host t) (WriteFile (join_path [payload_of t, ''.update-operation'']) (operation_id @ [newline]))) (\<lambda>_.
            perform (s_host t) (Rename (payload_of t) release))) (\<lambda>_. ?S) (safe t)" for info
      using two by (auto intro: holds_fails saved_safe split: option.splits)
  qed
qed

end
