(* ===== verification/Update_Switch.thy ===== *)
theory Update_Switch
  imports Update_Forward
begin

text \<open>
  The second half of the transaction: the release pointer and the bundled scripts are replaced,
  the new version is started.
\<close>

section \<open>Operations on places a condition does not depend on\<close>

definition spares :: "setting \<Rightarrow> (string list \<Rightarrow> bool) \<Rightarrow> (update_snapshot \<Rightarrow> disk \<Rightarrow> bool) \<Rightarrow> bool" where
  "spares t K Q \<longleftrightarrow> (\<forall>sn d d'. (\<forall>x. important t x \<longrightarrow> x \<noteq> at_journal (s_cfg t) \<longrightarrow> \<not> K x \<longrightarrow> d' x = d x) \<longrightarrow> Q sn d \<longrightarrow> Q sn d')"

lemma way_back_spare:
  assumes "\<not> runs_programs w" "\<And>x. footprint w x \<Longrightarrow> important t x \<Longrightarrow> K x \<and> x \<noteq> at_journal (s_cfg t)"
    and "spares t K Q" "spares t K R" "\<And>sn d. R sn d \<Longrightarrow> sound t sn d" "way_back t Q R st"
  shows "way_back t Q R (st\<lparr>tx_ops := tx_ops st @ [w]\<rparr>)"
proof -
  have same: "disk_of t (tx_ops st @ [w]) x = disk_of t (tx_ops st) x" if "important t x" "\<not> K x \<or> x = at_journal (s_cfg t)" for x
    unfolding disk_after_snoc using advance_frame [OF assms(1)] assms(2) that by blast
  obtain j where j: "disk_of t (tx_ops st) (at_journal (s_cfg t)) = Some (Regular (Saved j))" "R j (disk_of t (tx_ops st))"
    using assms(6) by (auto simp: way_back_def)
  show ?thesis
  proof (rule way_back_step [OF assms(6), where j = j])
    show "Q (tx_snapshot st) (disk_of t (tx_ops st @ [w]))"
      using assms(3,6) same unfolding spares_def way_back_def by blast
    show "R j (disk_of t (tx_ops st @ [w]))" using assms(4) j(2) same unfolding spares_def by blast
    show "disk_of t (tx_ops st @ [w]) (at_journal (s_cfg t)) = Some (Regular (Saved j))"
      using same [OF journal_important] j(1) by simp
  qed (use assms(1,5) in auto)
qed

lemma holds_spare:
  assumes "\<not> runs_programs w" "\<And>x. footprint w x \<Longrightarrow> important t x \<Longrightarrow> K x \<and> x \<noteq> at_journal (s_cfg t)"
    and "spares t K Q" "spares t K R" "\<And>sn d. Q sn d \<Longrightarrow> sound t sn d" "\<And>sn d. R sn d \<Longrightarrow> sound t sn d"
  shows "holds (way_back t Q R) (perform (s_host t) w) (\<lambda>_. way_back t Q R) (safe t)"
proof (rule holds_perform)
  fix st assume now: "way_back t Q R st"
  have then_too: "way_back t Q R (st\<lparr>tx_ops := tx_ops st @ [w]\<rparr>)"
    by (rule way_back_spare [OF assms(1) _ assms(3,4)]) (use assms(2,6) now in auto)
  then show "way_back t Q R (st\<lparr>tx_ops := tx_ops st @ [w]\<rparr>)" "safe t (st\<lparr>tx_ops := tx_ops st @ [w]\<rparr>)"
    using back_safe assms(5,6) by blast+
qed

section \<open>The release pointer\<close>

abbreviation "current_of t \<equiv> join_path [uc_install_dir (s_cfg t), ''current'']"

definition unlinked :: "setting \<Rightarrow> update_snapshot \<Rightarrow> disk \<Rightarrow> bool" where
  "unlinked t sn d \<longleftrightarrow> saved t sn d \<and> orig_of t (at_current (s_cfg t)) = None"

lemma spares_current:
  assumes "\<And>x. important t x \<Longrightarrow> x \<noteq> at_journal (s_cfg t) \<Longrightarrow> x \<noteq> at_current (s_cfg t) \<Longrightarrow> d' x = d x"
    and "sound t sn d" "orig_of t (at_current (s_cfg t)) = None \<or> sn_previous_target sn \<noteq> []"
  shows "sound t sn d'"
proof -
  have files: "files_ok (s_cfg t) (s_id t) (orig_of t) sn d'"
    by (rule files_ok_cong [of _ _ d]; (rule assms(1))?)
      (use assms(2) managed_not in \<open>auto simp: sound_def recoverable_def important_def guarded_def\<close>)
  have scripts: "scripts_ok (s_cfg t) (s_id t) (orig_of t) sn d'"
    by (rule scripts_ok_cong [of _ _ d]; (rule assms(1))?)
      (use assms(2) in \<open>auto simp: sound_def recoverable_def important_def guarded_def\<close>)
  show ?thesis using assms(2,3) files scripts by (auto simp: sound_def recoverable_def pointer_ok_def)
qed

lemma spares_unlinked: "spares t (\<lambda>x. x = at_current (s_cfg t)) (unlinked t)"
  unfolding spares_def unlinked_def saved_def secured_def using spares_current by blast

lemma spares_pointed: "spares t (\<lambda>x. x = at_current (s_cfg t)) (pointed t)"
  unfolding spares_def pointed_def secured_def using spares_current by blast

lemma unlinked_sound: "unlinked t sn d \<Longrightarrow> sound t sn d"
  by (simp add: unlinked_def conditions_sound)

lemma current_places:
  assumes "proper t"
  shows "elements (current_of t) = at_current (s_cfg t)" "elements (current_of t @ ''.new-'' @ s_id t) = home (s_cfg t) @ [''current.new-'' @ s_id t]"
    "\<not> important t (home (s_cfg t) @ [''current.new-'' @ s_id t])"
proof -
  have site: "site (s_cfg t) (s_id t)" using assms by (simp add: proper_def)
  show "elements (current_of t) = at_current (s_cfg t)" using site_paths(1) [OF site plain_names(6)] by (simp add: live_path_def)
  show "elements (current_of t @ ''.new-'' @ s_id t) = home (s_cfg t) @ [''current.new-'' @ s_id t]"
    using site_paths(2) [OF site plain_names(6)] site by (simp add: live_path_def site_def)
  show "\<not> important t (home (s_cfg t) @ [''current.new-'' @ s_id t])" by (rule clear_here) (simp add: clear_eval)
qed

lemma current_only:
  assumes "proper t" "w = Symlink target (current_of t) (s_id t) \<or> w = RemoveFile (current_of t)"
  shows "\<not> runs_programs w" "footprint w x \<Longrightarrow> important t x \<Longrightarrow> x = at_current (s_cfg t) \<and> x \<noteq> at_journal (s_cfg t)"
  using assms(2) current_places [OF assms(1)] by auto

definition target_ok :: "setting \<Rightarrow> string \<Rightarrow> bool" where
  "target_ok t target \<longleftrightarrow> target \<noteq> [] \<and> \<not> is_abs target \<and> path_within (releases_of t) (join_path [uc_install_dir (s_cfg t), target])
     \<and> (orig_of t (at_current (s_cfg t)) = None \<or> orig_of t (at_current (s_cfg t)) = Some (Link target))"

lemma releases_place:
  assumes "proper t"
  shows "is_abs (releases_of t)" "elements (releases_of t) = home (s_cfg t) @ [''releases'']"
  using assms join_element [OF _ plain_names(3)] by (simp_all add: proper_def site_def)

lemma inside_not_empty:
  assumes "proper t" "path_within (releases_of t) (join_path [uc_install_dir (s_cfg t), target])"
  shows "target \<noteq> []"
proof
  assume "target = []"
  have install: "is_abs (uc_install_dir (s_cfg t))" using assms(1) by (simp add: proper_def site_def)
  then have "uc_install_dir (s_cfg t) \<noteq> []" by auto
  then have "join_path [uc_install_dir (s_cfg t), []] = clean (uc_install_dir (s_cfg t) @ [CHR ''/''])" by (simp add: join_path_def)
  moreover have "elements (uc_install_dir (s_cfg t) @ [CHR ''/'']) = home (s_cfg t)"
    using install split_on_append [of "CHR ''/''" "uc_install_dir (s_cfg t)" "[]"]
    by (auto simp: elements_def push_element_def prefix_def)
  ultimately have "elements (join_path [uc_install_dir (s_cfg t), []]) = home (s_cfg t)" by (simp add: elements_of_clean)
  with path_within_rooted [OF releases_place(1) [OF assms(1)] assms(2)] \<open>target = []\<close> releases_place(2) [OF assms(1)]
  show False by simp
qed

lemma binary_symlink_rule:
  assumes "proper t" "minds t Q" "minds t R" "\<And>sn d. Q sn d \<Longrightarrow> sound t sn d" "\<And>sn d. R sn d \<Longrightarrow> sound t sn d"
  shows "holds (way_back t Q R) (ensure_binary_symlink (s_host t) (s_cfg t) (s_id t)) (\<lambda>_. way_back t Q R) (safe t)"
proof -
  have "holds (way_back t Q R) (perform (s_host t) (Symlink target (join_path [uc_install_dir (s_cfg t), ''one'']) (s_id t))) (\<lambda>_. way_back t Q R) (safe t)" for target
    by (rule holds_neutral [OF neutral_ops(9) [OF assms(1)] assms(2,3)]) (use assms(4,5) in auto)
  then show ?thesis unfolding ensure_binary_symlink_def Let_def
    by (intro holds_andthen [where Q = "\<lambda>_. way_back t Q R"] holds_ask) (auto intro: holds_yields)
qed

lemma existing_layout_rule:
  assumes "proper t"
  shows "holds (\<lambda>st. way_back t (saved t) (saved t) st \<and> map_option kind (disk_of t (tx_ops st) (at_current (s_cfg t))) = Some k)
    (existing_layout (s_host t) (s_cfg t) (s_id t) k) (\<lambda>target st. way_back t (saved t) (saved t) st \<and> target_ok t target) (safe t)"
proof -
  let ?S = "way_back t (saved t) (saved t)" and ?cur = "at_current (s_cfg t)" and ?resolved = "\<lambda>target. join_path [uc_install_dir (s_cfg t), target]"
  have ans: "answers (s_host t) (s_env t) (s_base t) (s_cfg t) (s_id t)" using assms by (simp add: proper_def)
  have "current_of t \<in> set (watched (s_cfg t) (s_id t))" by (simp add: watched_def live_path_def)
  note link = answers_at(3) [OF ans this current_places(1) [OF assms]]
  have fail: "holds (\<lambda>st. ?S st \<and> P st) (fails e) Q (safe t)" for P e and Q :: "string \<Rightarrow> txn \<Rightarrow> bool"
    by (rule holds_fails) (blast intro: saved_safe)
  have ask: "holds (\<lambda>st. ?S st \<and> map_option kind (disk_of t (tx_ops st) ?cur) = Some SymbolicLink)
      (ask (\<lambda>ops. rh_readlink (s_host t) ops (current_of t)))
      (\<lambda>found st. ?S st \<and> (\<forall>target. found = Some (Some target) \<longrightarrow> orig_of t ?cur = None \<or> orig_of t ?cur = Some (Link target))) (safe t)"
  proof (rule holds_ask)
    fix st assume st: "?S st \<and> map_option kind (disk_of t (tx_ops st) ?cur) = Some SymbolicLink"
    then obtain l where l: "disk_of t (tx_ops st) ?cur = Some (Link l)" by (auto elim: kind.elims)
    have "orig_of t ?cur = None \<or> orig_of t ?cur = Some (Link l)"
      using st l by (auto simp: way_back_def saved_def secured_def sound_def recoverable_def pointer_ok_def)
    with st link [OF l] show "?S st \<and> (\<forall>target. rh_readlink (s_host t) (tx_ops st) (current_of t) = Some (Some target) \<longrightarrow>
        orig_of t ?cur = None \<or> orig_of t ?cur = Some (Link target))" by auto
  qed
  have last: "holds (\<lambda>st. ?S st \<and> target_ok t target) (andthen (ask (\<lambda>ops. rh_stat (s_host t) ops (join_path [?resolved target, ''one'']))) (\<lambda>info.
      if info \<noteq> Some (Some RegularFile) then fails (Refused ''current release pointer does not contain a regular one binary'')
      else andthen (ensure_binary_symlink (s_host t) (s_cfg t) (s_id t)) (\<lambda>_. yields target)))
      (\<lambda>target st. ?S st \<and> target_ok t target) (safe t)" for target
  proof (cases "target_ok t target")
    case True
    have "holds ?S (ensure_binary_symlink (s_host t) (s_cfg t) (s_id t)) (\<lambda>_. ?S) (safe t)"
      by (rule binary_symlink_rule [OF assms]) (auto intro: minds_conditions conditions_sound)
    then have "holds ?S (andthen (ensure_binary_symlink (s_host t) (s_cfg t) (s_id t)) (\<lambda>_. yields target)) (\<lambda>target st. ?S st \<and> target_ok t target) (safe t)"
      by (rule holds_andthen) (rule holds_yields, simp add: True)
    then have "holds ?S (if info \<noteq> Some (Some RegularFile) then fails (Refused ''current release pointer does not contain a regular one binary'')
        else andthen (ensure_binary_symlink (s_host t) (s_cfg t) (s_id t)) (\<lambda>_. yields target)) (\<lambda>target st. ?S st \<and> target_ok t target) (safe t)" for info
      by (auto intro: holds_fails saved_safe)
    then show ?thesis by (intro holds_andthen [where Q = "\<lambda>_. ?S"] holds_ask) auto
  qed (simp add: holds_def)
  have body: "holds (\<lambda>st. ?S st \<and> (\<forall>target. found = Some (Some target) \<longrightarrow> orig_of t ?cur = None \<or> orig_of t ?cur = Some (Link target)))
      (case found of Some (Some target) \<Rightarrow>
           if is_abs target \<or> \<not> path_within (releases_of t) (?resolved target)
           then fails (Refused ''current release pointer escapes install directory'')
           else andthen (ask (\<lambda>ops. rh_stat (s_host t) ops (join_path [?resolved target, ''one'']))) (\<lambda>info.
                  if info \<noteq> Some (Some RegularFile)
                  then fails (Refused ''current release pointer does not contain a regular one binary'')
                  else andthen (ensure_binary_symlink (s_host t) (s_cfg t) (s_id t)) (\<lambda>_. yields target))
       | _ \<Rightarrow> fails (InspectFailed (current_of t))) (\<lambda>target st. ?S st \<and> target_ok t target) (safe t)" for found
  proof (cases "\<exists>target. found = Some (Some target) \<and> \<not> is_abs target \<and> path_within (releases_of t) (?resolved target)")
    case True
    then obtain target where found: "found = Some (Some target)" "\<not> is_abs target" "path_within (releases_of t) (?resolved target)" by blast
    have "holds (\<lambda>st. ?S st \<and> (\<forall>target. found = Some (Some target) \<longrightarrow> orig_of t ?cur = None \<or> orig_of t ?cur = Some (Link target)))
        (andthen (ask (\<lambda>ops. rh_stat (s_host t) ops (join_path [?resolved target, ''one'']))) (\<lambda>info.
          if info \<noteq> Some (Some RegularFile) then fails (Refused ''current release pointer does not contain a regular one binary'')
          else andthen (ensure_binary_symlink (s_host t) (s_cfg t) (s_id t)) (\<lambda>_. yields target)))
        (\<lambda>target st. ?S st \<and> target_ok t target) (safe t)"
      by (rule holds_pre [OF last]) (use found inside_not_empty [OF assms found(3)] in \<open>auto simp: target_ok_def\<close>)
    then show ?thesis using found by simp
  next
    case False
    then show ?thesis by (auto split: option.splits intro!: holds_fails saved_safe)
  qed
  show ?thesis
  proof (cases "k = SymbolicLink")
    case True
    show ?thesis unfolding existing_layout_def Let_def True using holds_andthen [OF ask body] by (simp only: simp_thms if_False)
  next
    case False
    then show ?thesis unfolding existing_layout_def Let_def by (simp add: fail)
  qed
qed

lemma join_relative:
  assumes "plain_element a" "plain_element b"
  shows "join_path [a, b] = a @ CHR ''/'' # b" "\<not> is_abs (join_path [a, b])"
proof -
  let ?p = "a @ CHR ''/'' # b"
  have a: "a \<noteq> []" "CHR ''/'' \<notin> set a" using assms(1) by (simp_all add: plain_element_def)
  have rel: "\<not> is_abs ?p" using a by (cases a) auto
  have "split_on CHR ''/'' ?p = [a, b]"
    using split_append [OF a(2)] split_part [of "CHR ''/''" b] assms(2) by (simp add: plain_element_def)
  then have "elements ?p = [a, b]" using fold_plain [of "[a, b]"] assms by (simp add: elements_def)
  then have "clean ?p = ?p" using rel by (simp add: clean_def)
  then show "join_path [a, b] = ?p" "\<not> is_abs (join_path [a, b])" using a rel by (simp_all add: join_path_def)
qed

lemma legacy_plain:
  assumes "proper t" "CHR ''/'' \<notin> set (canonical_version env (uc_current_version (s_cfg t)))"
  shows "plain_element (legacy_name env (s_cfg t) (s_id t))"
proof -
  have "CHR ''/'' \<notin> set (trim_prefix (canonical_version env (uc_current_version (s_cfg t))) ''v'')"
    using assms(2) by (auto simp: trim_prefix_def dest: in_set_dropD)
  moreover have "CHR ''/'' \<notin> set (s_id t)" using assms(1) by (simp add: proper_def site_def plain_element_def)
  ultimately show ?thesis by (simp add: legacy_name_def plain_element_def)
qed

lemma legacy_target_ok:
  assumes "proper t" "plain_element name" "orig_of t (at_current (s_cfg t)) = None"
  shows "target_ok t (join_path [''releases'', name])"
proof -
  note rel = join_relative [OF plain_names(3) assms(2)]
  have install: "is_abs (uc_install_dir (s_cfg t))" using assms(1) by (simp add: proper_def site_def)
  have "list_all plain_element [''releases'', name]" using assms(2) plain_names(3) by simp
  from elements_join [OF install _ this] rel(1)
  have "is_abs (join_path [uc_install_dir (s_cfg t), join_path [''releases'', name]])"
    "elements (join_path [uc_install_dir (s_cfg t), join_path [''releases'', name]]) = home (s_cfg t) @ [''releases'', name]" by simp_all
  then have "path_within (releases_of t) (join_path [uc_install_dir (s_cfg t), join_path [''releases'', name]])"
    using path_within_prefix [OF releases_place(1) [OF assms(1)]] releases_place(2) [OF assms(1)] by simp
  then show ?thesis using rel assms(3) by (simp add: target_ok_def)
qed

lemma minds_unlinked: "minds t (unlinked t)"
  using robust_conditions(1) [of t, THEN robust_minds] unfolding minds_def unlinked_def by blast

lemma legacy_layout_rule:
  assumes "proper t" "CHR ''/'' \<notin> set (canonical_version env (uc_current_version (s_cfg t)))"
  shows "holds (way_back t (unlinked t) (unlinked t)) (legacy_layout (s_host t) env (s_cfg t) (s_id t))
    (\<lambda>target st. way_back t (saved t) (saved t) st \<and> target_ok t target) (safe t)"
proof (cases "orig_of t (at_current (s_cfg t)) = None")
  case orig: True
  let ?U = "way_back t (unlinked t) (unlinked t)" and ?name = "legacy_name env (s_cfg t) (s_id t)"
  note plain = legacy_plain [OF assms]
  have neutral: "holds ?U (perform (s_host t) w) (\<lambda>_. ?U) (safe t)" if "neutral t w" for w
    by (rule holds_neutral [OF that minds_unlinked minds_unlinked]) (auto intro: unlinked_sound)
  have link: "holds ?U (perform (s_host t) (Symlink target (current_of t) (s_id t))) (\<lambda>_. ?U) (safe t)" for target
    by (rule holds_spare [OF current_only(1) [OF assms(1) disjI1 [OF refl]] current_only(2) [OF assms(1) disjI1 [OF refl]] spares_unlinked spares_unlinked])
      (auto intro: unlinked_sound)
  have binary: "holds ?U (ensure_binary_symlink (s_host t) (s_cfg t) (s_id t)) (\<lambda>_. ?U) ?U"
  proof -
    have "way_back t (unlinked t) (unlinked t) (st\<lparr>tx_ops := tx_ops st @ [Symlink target (join_path [uc_install_dir (s_cfg t), ''one'']) (s_id t)]\<rparr>)"
      if "?U st" for st target
      by (rule way_back_neutral [OF neutral_ops(9) [OF assms(1)] minds_unlinked minds_unlinked]) (use that in \<open>auto intro: unlinked_sound\<close>)
    then have "holds ?U (perform (s_host t) (Symlink target (join_path [uc_install_dir (s_cfg t), ''one'']) (s_id t))) (\<lambda>_. ?U) ?U" for target
      by (intro holds_perform)
    then show ?thesis unfolding ensure_binary_symlink_def Let_def
      by (intro holds_andthen [where Q = "\<lambda>_. ?U"] holds_ask) (auto intro: holds_yields)
  qed
  have to_saved: "way_back t (saved t) (saved t) st" if "?U st" for st using that by (rule way_back_mono) (simp_all add: unlinked_def)
  have removed: "?U (snd (quietly (RemoveFile (current_of t)) st))" if "?U st" for st
    unfolding quietly_def snd_conv
    by (rule way_back_spare [OF current_only(1) [OF assms(1) disjI2 [OF refl]] current_only(2) [OF assms(1) disjI2 [OF refl]] spares_unlinked spares_unlinked])
      (use that in \<open>auto intro: unlinked_sound\<close>)
  have tail: "holds ?U (\<lambda>st. case ensure_binary_symlink (s_host t) (s_cfg t) (s_id t) st of
      (Inr _, st') \<Rightarrow> (Inr (join_path [''releases'', ?name]), st')
    | (Inl e, st') \<Rightarrow> (Inl e, snd (quietly (RemoveFile (current_of t)) st')))
    (\<lambda>target st. way_back t (saved t) (saved t) st \<and> target_ok t target) (safe t)"
  proof (rule holdsI)
    fix st assume "?U st"
    obtain r st' where run: "ensure_binary_symlink (s_host t) (s_cfg t) (s_id t) st = (r, st')" by fastforce
    then have "?U st'" using holds_Inr [OF binary \<open>?U st\<close>] holds_Inl [OF binary \<open>?U st\<close>] by (cases r) auto
    have "safe t (snd (quietly (RemoveFile (current_of t)) st'))" using removed [OF \<open>?U st'\<close>] unlinked_sound back_safe by blast
    moreover have "way_back t (saved t) (saved t) st' \<and> target_ok t (join_path [''releases'', ?name])"
      using to_saved [OF \<open>?U st'\<close>] legacy_target_ok [OF assms(1) plain orig] by blast
    ultimately show "case case ensure_binary_symlink (s_host t) (s_cfg t) (s_id t) st of
        (Inr _, st') \<Rightarrow> (Inr (join_path [''releases'', ?name]), st') | (Inl e, st') \<Rightarrow> (Inl e, snd (quietly (RemoveFile (current_of t)) st'))
      of (Inl e, st') \<Rightarrow> safe t st' | (Inr a, st') \<Rightarrow> way_back t (saved t) (saved t) st' \<and> target_ok t a"
      using run by (cases r) simp_all
  qed
  have tree: "holds ?U (if present then perform (s_host t) (CopyTree p (join_path [legacy_of t ?name, ''script-registry'', ''bundled''])) else yields ())
      (\<lambda>_. ?U) (safe t)" for present p
    using neutral [OF neutral_ops(12) [OF assms(1) plain]] by (simp add: holds_yields)
  show ?thesis unfolding legacy_layout_def Let_def
    by (intro holds_andthen [where Q = "\<lambda>_. ?U"] holds_ask neutral neutral_ops(10,11) [OF assms(1) plain] tree link tail)
next
  case False
  then have "\<not> way_back t (unlinked t) (unlinked t) st" for st by (auto simp: way_back_def unlinked_def)
  then show ?thesis by (simp add: holds_def)
qed

lemma release_layout_rule:
  assumes "proper t" "CHR ''/'' \<notin> set (canonical_version env (uc_current_version (s_cfg t)))"
  shows "holds (way_back t (saved t) (saved t)) (ensure_release_layout (s_host t) env (s_cfg t) (s_id t))
    (\<lambda>target st. way_back t (saved t) (saved t) st \<and> target_ok t target) (safe t)"
proof -
  let ?S = "way_back t (saved t) (saved t)" and ?cur = "at_current (s_cfg t)"
  have ans: "answers (s_host t) (s_env t) (s_base t) (s_cfg t) (s_id t)" using assms(1) by (simp add: proper_def)
  have "current_of t \<in> set (watched (s_cfg t) (s_id t))" by (simp add: watched_def live_path_def)
  note lstat = answers_at(1) [OF ans this current_places(1) [OF assms(1)]]
  have ask: "holds ?S (ask (\<lambda>ops. rh_lstat (s_host t) ops (current_of t)))
      (\<lambda>info st. ?S st \<and> (info = None \<or> info = Some (map_option kind (disk_of t (tx_ops st) ?cur)))) (safe t)"
    by (rule holds_ask) (use lstat in blast)
  have unlinked: "way_back t (unlinked t) (unlinked t) st" if "?S st" "disk_of t (tx_ops st) ?cur = None" for st
  proof -
    have "orig_of t ?cur = None"
      using that by (auto simp: way_back_def saved_def secured_def sound_def recoverable_def pointer_ok_def)
    then show ?thesis using way_back_mono [OF that(1), of "unlinked t" "unlinked t"] by (simp add: unlinked_def)
  qed
  have body: "holds (\<lambda>st. ?S st \<and> (info = None \<or> info = Some (map_option kind (disk_of t (tx_ops st) ?cur))))
      (case info of Some (Some k) \<Rightarrow> existing_layout (s_host t) (s_cfg t) (s_id t) k
       | None \<Rightarrow> fails (InspectFailed (current_of t)) | Some None \<Rightarrow> legacy_layout (s_host t) env (s_cfg t) (s_id t))
      (\<lambda>target st. ?S st \<and> target_ok t target) (safe t)" for info
  proof (cases info)
    case None
    then show ?thesis by (auto intro: holds_fails saved_safe)
  next
    case (Some i)
    show ?thesis
    proof (cases i)
      case None
      show ?thesis unfolding Some None option.case by (rule holds_pre [OF legacy_layout_rule [OF assms]]) (use unlinked in auto)
    next
      case (Some k)
      show ?thesis unfolding \<open>info = Some i\<close> Some option.case by (rule holds_pre [OF existing_layout_rule [OF assms(1)]]) auto
    qed
  qed
  show ?thesis unfolding ensure_release_layout_def Let_def by (rule holds_andthen [OF ask body])
qed

lemma previous_revised:
  assumes "saved t sn d" "target_ok t target"
  shows "pointed t (sn\<lparr>sn_previous_target := target\<rparr>) d"
  using assms unfolding pointed_def saved_def secured_def sound_def
  by (auto simp: recoverable_def files_ok_def pointer_ok_def scripts_ok_def target_ok_def formed_def Let_def cong: option.case_cong)

lemma switch_pointer_rule:
  assumes "proper t"
  shows "holds (way_back t (pointed t) (pointed t)) (perform (s_host t) (Symlink target (current_of t) (s_id t)))
    (\<lambda>_. way_back t (pointed t) (pointed t)) (safe t)"
  by (rule holds_spare [OF current_only(1) [OF assms disjI1 [OF refl]] current_only(2) [OF assms disjI1 [OF refl]] spares_pointed spares_pointed])
    (auto intro: conditions_sound)

section \<open>The bundled scripts\<close>

definition plan_ok :: "setting \<Rightarrow> string \<Rightarrow> bool \<Rightarrow> disk \<Rightarrow> bool" where
  "plan_ok t old had d \<longleftrightarrow> old = bundled_old (s_cfg t) (s_id t) \<and> d (at_old (s_cfg t) (s_id t)) = None
     \<and> (had \<longleftrightarrow> d (at_active (s_cfg t)) \<noteq> None)"

lemma plan_rule:
  assumes "proper t"
  shows "holds (way_back t (pointed t) (pointed t)) (plan_bundled_switch (s_host t) (s_cfg t) (s_id t))
    (\<lambda>(old, had) st. way_back t (pointed t) (pointed t) st \<and> plan_ok t old had (disk_of t (tx_ops st))) (safe t)"
proof -
  let ?P = "way_back t (pointed t) (pointed t)" and ?old = "bundled_old (s_cfg t) (s_id t)"
  let ?free = "\<lambda>st. ?P st \<and> disk_of t (tx_ops st) (at_old (s_cfg t) (s_id t)) = None"
  have site: "site (s_cfg t) (s_id t)" and ans: "answers (s_host t) (s_env t) (s_base t) (s_cfg t) (s_id t)"
    using assms by (simp_all add: proper_def)
  have watched: "?old \<in> set (watched (s_cfg t) (s_id t))" "bundled_active (s_cfg t) \<in> set (watched (s_cfg t) (s_id t))"
    by (simp_all add: watched_def)
  note old = answers_at(1) [OF ans watched(1) site_paths(14) [OF site]] and active = answers_at(1) [OF ans watched(2) site_paths(10) [OF site]]
  have safe: "safe t st" if "?P st" for st using that back_safe conditions_sound(3) by blast
  have first: "holds ?P (must_be_free (s_host t) p) (\<lambda>_. ?P) (safe t)" for p
    unfolding must_be_free_def
    by (rule holds_andthen [where Q = "\<lambda>_. ?P"], simp add: holds_ask)
      (auto intro: holds_yields holds_fails safe split: option.splits)
  have second: "holds ?P (must_be_free (s_host t) ?old) (\<lambda>_. ?free) (safe t)"
    unfolding must_be_free_def
  proof (rule holds_andthen)
    show "holds ?P (ask (\<lambda>ops. rh_lstat (s_host t) ops ?old)) (\<lambda>info st. ?P st \<and>
        (info = None \<or> info = Some (map_option kind (disk_of t (tx_ops st) (at_old (s_cfg t) (s_id t)))))) (safe t)"
      by (rule holds_ask) (use old in blast)
    show "holds (\<lambda>st. ?P st \<and> (info = None \<or> info = Some (map_option kind (disk_of t (tx_ops st) (at_old (s_cfg t) (s_id t))))))
        (case info of Some None \<Rightarrow> yields () | Some (Some _) \<Rightarrow> fails (Refused ''temporary bundled script path already exists'')
         | None \<Rightarrow> fails (InspectFailed ?old)) (\<lambda>_. ?free) (safe t)" for info
      by (auto intro!: holds_yields holds_fails safe split: option.splits)
  qed
  have free: "holds ?P (in_turn (must_be_free (s_host t)) [bundled_next (s_cfg t) (s_id t), ?old]) (\<lambda>_. ?free) (safe t)"
    unfolding in_turn.simps by (intro holds_andthen [OF first holds_andthen [OF second]] holds_yields)
  have some: "\<exists>y. x = Some y" if "Some k = map_option kind x" for k x using that by (cases x) auto
  have last: "holds (\<lambda>st. ?free st \<and> (info = None \<or> info = Some (map_option kind (disk_of t (tx_ops st) (at_active (s_cfg t))))))
      (case info of Some (Some k) \<Rightarrow> if k = Directory then yields (?old, True) else fails (Refused ''active bundled scripts are not a regular directory'')
       | Some None \<Rightarrow> yields (?old, False) | None \<Rightarrow> fails (InspectFailed (bundled_active (s_cfg t))))
      (\<lambda>(old, had) st. ?P st \<and> plan_ok t old had (disk_of t (tx_ops st))) (safe t)" for info
    by (auto intro!: holds_yields holds_fails safe dest!: some simp: plan_ok_def split: option.splits)
  have ask: "holds ?free (ask (\<lambda>ops. rh_lstat (s_host t) ops (bundled_active (s_cfg t))))
      (\<lambda>info st. ?free st \<and> (info = None \<or> info = Some (map_option kind (disk_of t (tx_ops st) (at_active (s_cfg t)))))) (safe t)"
    by (rule holds_ask) (use active in blast)
  show ?thesis unfolding plan_bundled_switch_def by (rule holds_andthen [OF free holds_andthen [OF ask last]])
qed

lemma plan_revised:
  assumes "proper t" "pointed t sn d" "plan_ok t old had d"
  shows "planned t had (sn\<lparr>sn_bundled_switch_plan := True, sn_bundled_had_old := had, sn_old_bundled_path := old\<rparr>) d"
proof -
  let ?sn = "sn\<lparr>sn_bundled_switch_plan := True, sn_bundled_had_old := had, sn_old_bundled_path := old\<rparr>"
  have p: "sound t sn d" "sn_managed_files sn \<noteq> []" "\<not> sn_bundled_switch_plan sn" using assms(2) by (simp_all add: pointed_def secured_def)
  have same: "\<forall>r. d (at_active (s_cfg t) @ r) = orig_of t (at_active (s_cfg t) @ r)"
    using p(1,3) by (simp add: sound_def recoverable_def scripts_ok_def)
  then have here: "d (at_active (s_cfg t)) = orig_of t (at_active (s_cfg t))" using spec [of _ "[]"] by (metis append_Nil2)
  have none: "\<forall>r. orig_of t (at_active (s_cfg t) @ r) = None" if "\<not> had"
    using that assms(1,3) here by (simp add: plan_ok_def proper_def)
  have "scripts_ok (s_cfg t) (s_id t) (orig_of t) ?sn d"
    using assms(3) same none unfolding scripts_ok_def plan_ok_def by simp
  moreover have "files_ok (s_cfg t) (s_id t) (orig_of t) ?sn d" "pointer_ok (s_cfg t) (orig_of t) ?sn d" "formed t ?sn" "sn_operation_id ?sn = s_id t"
    using p(1) assms(3) by (auto simp: sound_def recoverable_def files_ok_def pointer_ok_def formed_def Let_def plan_ok_def cong: option.case_cong)
  ultimately have "sound t ?sn d" by (simp add: sound_def recoverable_def)
  then show ?thesis using p(2) same here assms(3) by (simp add: planned_def secured_def plan_ok_def)
qed

text \<open>The new scripts are complete and carry the mark of this operation.\<close>

definition marked :: "setting \<Rightarrow> disk \<Rightarrow> bool" where
  "marked t d \<longleftrightarrow> d (at_next (s_cfg t) (s_id t) @ [''.update-operation'']) = Some (Regular (Text (s_id t @ [newline])))"

lemma scripts_aside:
  assumes "sn_bundled_switch_plan sn" "sn_bundled_had_old sn" "sn_old_bundled_path sn = bundled_old cfg operation_id"
    and "d (at_old cfg operation_id) \<noteq> None" "\<And>r. d (at_old cfg operation_id @ r) = orig (at_active cfg @ r)"
  shows "scripts_ok cfg operation_id orig sn d"
  unfolding scripts_ok_def using assms by (simp only: simp_thms if_True if_False)

lemma moved_scripts:
  assumes "sound t sn d" "sn_bundled_switch_plan sn" "sn_bundled_had_old sn"
  shows "sn_old_bundled_path sn = bundled_old (s_cfg t) (s_id t)"
  using assms by (simp add: sound_def recoverable_def scripts_ok_def)

lemma planned_moved:
  assumes "planned t True sn d" and "\<And>r. d' (at_old (s_cfg t) (s_id t) @ r) = d (at_active (s_cfg t) @ r)"
    and "\<And>x. important t x \<Longrightarrow> x \<noteq> at_journal (s_cfg t) \<Longrightarrow> \<not> in_scripts (s_cfg t) (s_id t) x \<Longrightarrow> d' x = d x"
  shows "moved t sn d'"
proof -
  have s: "sound t sn d" "sn_managed_files sn \<noteq> []" "sn_bundled_switch_plan sn" "sn_bundled_had_old sn"
    "orig_of t (at_active (s_cfg t)) \<noteq> None" "\<And>r. d (at_active (s_cfg t) @ r) = orig_of t (at_active (s_cfg t) @ r)"
    using assms(1) by (simp_all add: planned_def secured_def)
  have old: "\<And>r. d' (at_old (s_cfg t) (s_id t) @ r) = orig_of t (at_active (s_cfg t) @ r)" using s(6) assms(2) by simp
  have there: "d' (at_old (s_cfg t) (s_id t)) \<noteq> None" using old [of "[]"] s(5) by (metis append_Nil2)
  have "files_ok (s_cfg t) (s_id t) (orig_of t) sn d'"
    by (rule files_ok_cong [of _ _ d]; (rule assms(3))?)
      (use s(1) managed_not in \<open>auto simp: sound_def recoverable_def important_def guarded_def\<close>)
  moreover have "pointer_ok (s_cfg t) (orig_of t) sn d'"
    using s(1) assms(3) [of "at_current (s_cfg t)"] important_places(1) by (auto simp: sound_def recoverable_def pointer_ok_def)
  moreover have "scripts_ok (s_cfg t) (s_id t) (orig_of t) sn d'"
    by (rule scripts_aside [OF s(3,4) moved_scripts [OF s(1,3,4)] there old])
  ultimately have "sound t sn d'" using s(1) by (simp add: sound_def recoverable_def)
  then show ?thesis using s old there by (simp add: moved_def secured_def)
qed

text \<open>The directory of the active scripts does not matter once the old one is set aside.\<close>

lemma spares_moved: "spares t (prefix (at_active (s_cfg t))) (moved t)"
  unfolding spares_def
proof (intro allI impI)
  fix sn and d d' :: disk
  assume same: "\<forall>x. important t x \<longrightarrow> x \<noteq> at_journal (s_cfg t) \<longrightarrow> \<not> prefix (at_active (s_cfg t)) x \<longrightarrow> d' x = d x" and m: "moved t sn d"
  have s: "sound t sn d" "sn_bundled_switch_plan sn" "sn_bundled_had_old sn" using m by (simp_all add: moved_def secured_def)
  have old: "d' (at_old (s_cfg t) (s_id t) @ r) = d (at_old (s_cfg t) (s_id t) @ r)" for r
    using same important_places(3) by simp
  then have here: "d' (at_old (s_cfg t) (s_id t)) = d (at_old (s_cfg t) (s_id t))" by (metis append_Nil2)
  have "files_ok (s_cfg t) (s_id t) (orig_of t) sn d'"
    by (rule files_ok_cong [of _ _ d]; (rule same [rule_format])?)
      (use s(1) managed_not in \<open>auto simp: sound_def recoverable_def important_def guarded_def\<close>)
  moreover have "pointer_ok (s_cfg t) (orig_of t) sn d'"
    using s(1) same important_places(1) by (auto simp: sound_def recoverable_def pointer_ok_def)
  moreover have "scripts_ok (s_cfg t) (s_id t) (orig_of t) sn d'"
    by (rule scripts_aside [OF s(2,3) moved_scripts [OF s]], unfold here old) (use m in \<open>unfold moved_def, blast+\<close>)
  ultimately have "sound t sn d'" using s(1) by (simp add: sound_def recoverable_def)
  then show "moved t sn d'" using m unfolding moved_def secured_def here old by blast
qed

lemma moved_planned:
  assumes "moved t sn d" and "\<And>r. d' (at_active (s_cfg t) @ r) = d (at_old (s_cfg t) (s_id t) @ r)" "d' (at_old (s_cfg t) (s_id t)) = None"
    and "\<And>x. important t x \<Longrightarrow> x \<noteq> at_journal (s_cfg t) \<Longrightarrow> \<not> in_scripts (s_cfg t) (s_id t) x \<Longrightarrow> d' x = d x"
  shows "secured t sn d'"
proof -
  have s: "sound t sn d" "sn_managed_files sn \<noteq> []" "sn_bundled_switch_plan sn" "sn_bundled_had_old sn"
    "\<And>r. d (at_old (s_cfg t) (s_id t) @ r) = orig_of t (at_active (s_cfg t) @ r)"
    using assms(1) by (simp_all add: moved_def secured_def)
  have "\<forall>r. d' (at_active (s_cfg t) @ r) = orig_of t (at_active (s_cfg t) @ r)" using s(5) assms(2) by simp
  then have "scripts_ok (s_cfg t) (s_id t) (orig_of t) sn d'"
    unfolding scripts_ok_def using s(3,4) moved_scripts [OF s(1,3,4)] assms(3) by (simp only: simp_thms if_True if_False)
  moreover have "files_ok (s_cfg t) (s_id t) (orig_of t) sn d'"
    by (rule files_ok_cong [of _ _ d]; (rule assms(4))?)
      (use s(1) managed_not in \<open>auto simp: sound_def recoverable_def important_def guarded_def\<close>)
  moreover have "pointer_ok (s_cfg t) (orig_of t) sn d'"
    using s(1) assms(4) [of "at_current (s_cfg t)"] important_places(1) by (auto simp: sound_def recoverable_def pointer_ok_def)
  ultimately show ?thesis using s(1,2) by (simp add: sound_def recoverable_def secured_def)
qed

lemma planned_marked:
  assumes "planned t False sn d" and "d' (at_active (s_cfg t) @ [''.update-operation'']) = Some (Regular (Text (s_id t @ [newline])))"
    and "\<And>x. important t x \<Longrightarrow> x \<noteq> at_journal (s_cfg t) \<Longrightarrow> \<not> in_scripts (s_cfg t) (s_id t) x \<Longrightarrow> d' x = d x"
  shows "secured t sn d'"
proof -
  have s: "sound t sn d" "sn_managed_files sn \<noteq> []" "sn_bundled_switch_plan sn" "\<not> sn_bundled_had_old sn"
    using assms(1) by (simp_all add: planned_def secured_def)
  have "scripts_ok (s_cfg t) (s_id t) (orig_of t) sn d'"
    using s(1,3,4) assms(2) unfolding scripts_ok_def sound_def recoverable_def by simp
  moreover have "files_ok (s_cfg t) (s_id t) (orig_of t) sn d'"
    by (rule files_ok_cong [of _ _ d]; (rule assms(3))?)
      (use s(1) managed_not in \<open>auto simp: sound_def recoverable_def important_def guarded_def\<close>)
  moreover have "pointer_ok (s_cfg t) (orig_of t) sn d'"
    using s(1) assms(3) [of "at_current (s_cfg t)"] important_places(1) by (auto simp: sound_def recoverable_def pointer_ok_def)
  ultimately show ?thesis using s(1,2) by (simp add: sound_def recoverable_def secured_def)
qed

lemma scripts_rename:
  assumes "proper t" "w = Rename p q"
  shows "\<not> rh_ok (s_host t) ops w \<Longrightarrow> disk_of t (ops @ [w]) = disk_of t ops"
    "rh_ok (s_host t) ops w \<Longrightarrow> disk_of t (ops @ [w]) (elements q @ r) = disk_of t ops (elements p @ r)"
    "rh_ok (s_host t) ops w \<Longrightarrow> prefix (elements p) y \<Longrightarrow> \<not> prefix (elements q) y \<Longrightarrow> disk_of t (ops @ [w]) y = None"
    "\<not> prefix (elements p) y \<Longrightarrow> \<not> prefix (elements q) y \<Longrightarrow> disk_of t (ops @ [w]) y = disk_of t ops y"
proof -
  have host: "rh_ok (s_host t) = de_ok (s_env t)" using assms(1) by (simp add: proper_def answers_def)
  show "disk_of t (ops @ [w]) y = disk_of t ops y" if "\<not> prefix (elements p) y" "\<not> prefix (elements q) y"
    unfolding disk_after_snoc assms(2) by (rule advance_frame) (use that in auto)
  show "disk_of t (ops @ [w]) = disk_of t ops" if "\<not> rh_ok (s_host t) ops w"
    using that unfolding disk_after_snoc advance_def assms(2) host by simp
  show "disk_of t (ops @ [w]) (elements q @ r) = disk_of t ops (elements p @ r)" if "rh_ok (s_host t) ops w"
    using that unfolding disk_after_snoc advance_def assms(2) host by simp
  show "disk_of t (ops @ [w]) y = None" if "rh_ok (s_host t) ops w" "prefix (elements p) y" "\<not> prefix (elements q) y"
    using that unfolding disk_after_snoc advance_def assms(2) host by simp
qed

end
