(* ===== verification/Update_Commit.thy ===== *)
theory Update_Commit
  imports Update_Switch
begin

text \<open>
  The switch of the bundled scripts and the start of the new version, and the properties of the
  whole update transaction: an update that fails and is rolled back leaves the installation as
  it was, and so does one that is interrupted at any point and rolled back afterwards.
\<close>

section \<open>The switch of the scripts\<close>

lemma way_back_change:
  assumes "way_back t Q R st" "w \<noteq> StartService" "\<And>sn d. R' sn d \<Longrightarrow> sound t sn d"
    and "\<And>sn. Q sn (disk_of t (tx_ops st)) \<Longrightarrow> Q' sn (disk_of t (tx_ops st @ [w]))"
    and "\<And>sn. R sn (disk_of t (tx_ops st)) \<Longrightarrow> R' sn (disk_of t (tx_ops st @ [w]))"
    and "disk_of t (tx_ops st @ [w]) (at_journal (s_cfg t)) = disk_of t (tx_ops st) (at_journal (s_cfg t))"
  shows "way_back t Q' R' (st\<lparr>tx_ops := tx_ops st @ [w]\<rparr>)"
proof -
  obtain j where j: "disk_of t (tx_ops st) (at_journal (s_cfg t)) = Some (Regular (Saved j))" "R j (disk_of t (tx_ops st))"
    using assms(1) by (auto simp: way_back_def)
  have "Q (tx_snapshot st) (disk_of t (tx_ops st))" using assms(1) by (simp add: way_back_def)
  then show ?thesis
    using way_back_step [OF assms(1), of w Q' j R'] assms(2-6) j by simp
qed

lemma script_places:
  assumes "proper t"
  shows "elements (bundled_active (s_cfg t)) = at_active (s_cfg t)" "elements (bundled_old (s_cfg t) (s_id t)) = at_old (s_cfg t) (s_id t)"
    "elements (bundled_next (s_cfg t) (s_id t)) = at_next (s_cfg t) (s_id t)"
    "elements (marker_path (bundled_next (s_cfg t) (s_id t))) = at_next (s_cfg t) (s_id t) @ [''.update-operation'']"
  using assms site_paths(10,12,14,16) [of "s_cfg t" "s_id t"] by (simp_all add: proper_def)

lemma journal_outside: "\<not> in_scripts (s_cfg t) (s_id t) (at_journal (s_cfg t))"
  by simp

lemma next_unimportant: "prefix (at_next (s_cfg t) (s_id t)) x \<Longrightarrow> \<not> important t x"
  by (rule clear_down [of t "[''script-registry'', ''.bundled.new-'' @ s_id t]"]) (simp_all add: clear_eval)

text \<open>Setting the old scripts aside.\<close>

lemma aside_rule:
  assumes "proper t"
  shows "holds (\<lambda>st. way_back t (planned t True) (planned t True) st \<and> marked t (disk_of t (tx_ops st)))
    (perform (s_host t) (Rename (bundled_active (s_cfg t)) (bundled_old (s_cfg t) (s_id t))))
    (\<lambda>_ st. way_back t (moved t) (moved t) st) (safe t)"
proof (rule holds_perform)
  let ?w = "Rename (bundled_active (s_cfg t)) (bundled_old (s_cfg t) (s_id t))"
  note places = script_places [OF assms]
  note move = scripts_rename [OF assms, of ?w "bundled_active (s_cfg t)" "bundled_old (s_cfg t) (s_id t)", OF refl, unfolded places(1,2)]
  have far: "disk_of t (ops @ [?w]) x = disk_of t ops x" if "\<not> in_scripts (s_cfg t) (s_id t) x" for ops x
    using move(4) that by blast
  fix st assume st: "way_back t (planned t True) (planned t True) st \<and> marked t (disk_of t (tx_ops st))"
  show "way_back t (moved t) (moved t) (st\<lparr>tx_ops := tx_ops st @ [?w]\<rparr>)" if ok: "rh_ok (s_host t) (tx_ops st) ?w"
  proof -
    have "moved t sn (disk_of t (tx_ops st @ [?w]))" if "planned t True sn (disk_of t (tx_ops st))" for sn
      by (rule planned_moved [OF that move(2) [OF ok] far])
    then show ?thesis using way_back_change [OF conjunct1 [OF st], of ?w "moved t" "moved t"] far [OF journal_outside] conditions_sound(5) by blast
  qed
  show "safe t (st\<lparr>tx_ops := tx_ops st @ [?w]\<rparr>)" if "\<not> rh_ok (s_host t) (tx_ops st) ?w"
    by (rule way_back_change [OF conjunct1 [OF st]]) (unfold move(1) [OF that], auto intro: conditions_sound)
qed

text \<open>Putting the new scripts in place, with the old ones aside or with none before.\<close>

lemma in_place_moved:
  assumes "proper t" "way_back t (moved t) (moved t) st"
  shows "way_back t (moved t) (moved t) (st\<lparr>tx_ops := tx_ops st @ [Rename (bundled_next (s_cfg t) (s_id t)) (bundled_active (s_cfg t))]\<rparr>)"
proof (rule way_back_spare [OF _ _ spares_moved spares_moved])
  show "prefix (at_active (s_cfg t)) x \<and> x \<noteq> at_journal (s_cfg t)"
    if "footprint (Rename (bundled_next (s_cfg t) (s_id t)) (bundled_active (s_cfg t))) x" "important t x" for x
    using that next_unimportant script_places [OF assms(1)] by auto
qed (use assms(2) in \<open>auto intro: conditions_sound\<close>)

lemma in_place_marked:
  assumes "proper t" "way_back t (planned t False) (planned t False) st" "marked t (disk_of t (tx_ops st))"
  shows "way_back t (secured t) (secured t) (st\<lparr>tx_ops := tx_ops st @ [Rename (bundled_next (s_cfg t) (s_id t)) (bundled_active (s_cfg t))]\<rparr>)"
proof -
  let ?w = "Rename (bundled_next (s_cfg t) (s_id t)) (bundled_active (s_cfg t))"
  note places = script_places [OF assms(1)]
  note move = scripts_rename [OF assms(1), of ?w "bundled_next (s_cfg t) (s_id t)" "bundled_active (s_cfg t)", OF refl, unfolded places(1,3)]
  have far: "disk_of t (ops @ [?w]) x = disk_of t ops x" if "\<not> in_scripts (s_cfg t) (s_id t) x" for ops x
    using move(4) that by blast
  have "secured t sn (disk_of t (tx_ops st @ [?w]))" if p: "planned t False sn (disk_of t (tx_ops st))" for sn
  proof (cases "rh_ok (s_host t) (tx_ops st) ?w")
    case True
    have "disk_of t (tx_ops st @ [?w]) (at_active (s_cfg t) @ [''.update-operation'']) = Some (Regular (Text (s_id t @ [newline])))"
      using move(2) [OF True, of "[''.update-operation'']"] assms(3) unfolding marked_def by (simp only:)
    from planned_marked [OF p this far] show ?thesis .
  next
    case False
    then show ?thesis using move(1) p by (simp add: planned_def)
  qed
  then show ?thesis
    using way_back_change [OF assms(2), of ?w "secured t" "secured t"] far [OF journal_outside] conditions_sound(1) by blast
qed

lemma put_back:
  assumes "proper t" "way_back t (moved t) (moved t) st"
  shows "safe t (st\<lparr>tx_ops := tx_ops st @ [Rename (bundled_old (s_cfg t) (s_id t)) (bundled_active (s_cfg t))]\<rparr>)"
proof -
  let ?w = "Rename (bundled_old (s_cfg t) (s_id t)) (bundled_active (s_cfg t))"
  note places = script_places [OF assms(1)]
  note move = scripts_rename [OF assms(1), of ?w "bundled_old (s_cfg t) (s_id t)" "bundled_active (s_cfg t)", OF refl, unfolded places(1,2)]
  have far: "disk_of t (ops @ [?w]) x = disk_of t ops x" if "\<not> in_scripts (s_cfg t) (s_id t) x" for ops x
    using move(4) that by blast
  have "sound t sn (disk_of t (tx_ops st @ [?w]))" if m: "moved t sn (disk_of t (tx_ops st))" for sn
  proof (cases "rh_ok (s_host t) (tx_ops st) ?w")
    case True
    have gone: "disk_of t (tx_ops st @ [?w]) (at_old (s_cfg t) (s_id t)) = None" by (rule move(3) [OF True]) simp_all
    show ?thesis using moved_planned [OF m move(2) [OF True] gone far] by (simp add: secured_def)
  next
    case False
    then show ?thesis using move(1) m by (simp add: moved_def secured_def)
  qed
  then show ?thesis
    using way_back_change [OF assms(2), of ?w "sound t" "sound t"] far [OF journal_outside] by blast
qed

lemma mark_rule:
  assumes "proper t"
  shows "holds (way_back t (planned t had) (planned t had))
    (perform (s_host t) (WriteFile (marker_path (bundled_next (s_cfg t) (s_id t))) (s_id t @ [newline])))
    (\<lambda>_ st. way_back t (planned t had) (planned t had) st \<and> marked t (disk_of t (tx_ops st))) (safe t)"
proof (rule holds_perform)
  let ?w = "WriteFile (marker_path (bundled_next (s_cfg t) (s_id t))) (s_id t @ [newline])"
  have host: "rh_ok (s_host t) = de_ok (s_env t)" using assms by (simp add: proper_def answers_def)
  fix st assume st: "way_back t (planned t had) (planned t had) st"
  have then_too: "way_back t (planned t had) (planned t had) (st\<lparr>tx_ops := tx_ops st @ [?w]\<rparr>)"
    by (rule way_back_neutral [OF neutral_ops(15) [OF assms]]) (use st in \<open>auto intro: minds_conditions conditions_sound\<close>)
  show "way_back t (planned t had) (planned t had) (st\<lparr>tx_ops := tx_ops st @ [?w]\<rparr>) \<and> marked t (disk_of t (tx_ops (st\<lparr>tx_ops := tx_ops st @ [?w]\<rparr>)))"
    if "rh_ok (s_host t) (tx_ops st) ?w"
    using then_too that step_effect [of "s_env t" "tx_ops st" ?w "s_base t"] script_places(4) [OF assms] by (simp add: marked_def host)
  show "safe t (st\<lparr>tx_ops := tx_ops st @ [?w]\<rparr>)" using then_too back_safe conditions_sound(4) by blast
qed

lemma switch_bundled_rule:
  assumes "proper t"
  shows "holds (way_back t (planned t had) (planned t had)) (switch_bundled (s_host t) (s_cfg t) release (s_id t) had)
    (\<lambda>_. way_back t (secured t) (secured t)) (safe t)"
proof -
  let ?P = "way_back t (planned t had) (planned t had)" and ?w = "Rename (bundled_next (s_cfg t) (s_id t)) (bundled_active (s_cfg t))"
  let ?ready = "\<lambda>st. if had then way_back t (moved t) (moved t) st else ?P st \<and> marked t (disk_of t (tx_ops st))"
  have neutral: "holds ?P (perform (s_host t) w) (\<lambda>_. ?P) (safe t)" if "neutral t w" for w
    by (rule holds_neutral [OF that]) (auto intro: minds_conditions conditions_sound)
  have aside: "holds (\<lambda>st. ?P st \<and> marked t (disk_of t (tx_ops st)))
      (if had then perform (s_host t) (Rename (bundled_active (s_cfg t)) (bundled_old (s_cfg t) (s_id t))) else yields ()) (\<lambda>_. ?ready) (safe t)"
    using aside_rule [OF assms] by (cases had) (auto intro: holds_yields)
  have after: "way_back t (secured t) (secured t) (st\<lparr>tx_ops := tx_ops st @ [?w]\<rparr>)
      \<and> (had \<longrightarrow> way_back t (moved t) (moved t) (st\<lparr>tx_ops := tx_ops st @ [?w]\<rparr>))" if "?ready st" for st
  proof (cases had)
    case True
    then have m: "way_back t (moved t) (moved t) (st\<lparr>tx_ops := tx_ops st @ [?w]\<rparr>)" using in_place_moved [OF assms] that by simp
    from way_back_mono [OF m, of "secured t" "secured t"] m show ?thesis by (simp add: moved_def)
  next
    case False
    then show ?thesis using in_place_marked [OF assms] that by simp
  qed
  have last: "holds ?ready (\<lambda>st. case perform (s_host t) ?w st of (Inr u, st') \<Rightarrow> (Inr u, st')
      | (Inl e, st') \<Rightarrow> (Inl e, if had then snd (quietly (Rename (bundled_old (s_cfg t) (s_id t)) (bundled_active (s_cfg t))) st') else st'))
      (\<lambda>_. way_back t (secured t) (secured t)) (safe t)"
  proof (rule holdsI)
    fix st assume "?ready st"
    let ?st = "st\<lparr>tx_ops := tx_ops st @ [?w]\<rparr>"
    note d = after [OF \<open>?ready st\<close>]
    have "safe t ?st" using d back_safe conditions_sound(1) by blast
    moreover have "safe t (snd (quietly (Rename (bundled_old (s_cfg t) (s_id t)) (bundled_active (s_cfg t))) ?st))" if had
      using put_back [OF assms, of ?st] d that unfolding quietly_def by simp
    ultimately show "case case perform (s_host t) ?w st of (Inr u, st') \<Rightarrow> (Inr u, st')
      | (Inl e, st') \<Rightarrow> (Inl e, if had then snd (quietly (Rename (bundled_old (s_cfg t) (s_id t)) (bundled_active (s_cfg t))) st') else st')
      of (Inl e, st') \<Rightarrow> safe t st' | (Inr a, st') \<Rightarrow> way_back t (secured t) (secured t) st'"
      using d by (simp add: perform_def)
  qed
  show ?thesis unfolding switch_bundled_def Let_def marker_path_def [symmetric]
    by (rule holds_andthen [OF neutral [OF neutral_ops(13) [OF assms]] holds_andthen [OF neutral [OF neutral_ops(14) [OF assms]]
          holds_andthen [OF mark_rule [OF assms] holds_andthen [OF aside last]]]])
qed

section \<open>The whole transaction\<close>

lemma switch_release_rule:
  assumes "proper t" "CHR ''/'' \<notin> set (canonical_version env (uc_current_version (s_cfg t)))"
  shows "holds (way_back t (begun t []) (fresh t)) (switch_release (s_host t) env (s_cfg t) (s_id t) version (payload_of t))
    (\<lambda>_. way_back t (secured t) (secured t)) (safe t)"
proof -
  let ?S = "way_back t (saved t) (saved t)" and ?P = "way_back t (pointed t) (pointed t)"
  note sounds = conditions_sound and minds = minds_conditions
  have status: "holds ?S (transition (s_host t) (s_cfg t) state) (\<lambda>_. ?S) (safe t)" for state
    unfolding transition_def by (rule saved_neutral [OF assms(1) neutral_ops(1) [OF assms(1)]])
  have journal: "holds (way_back t Q R) (andthen held (write_journal (s_host t) (s_cfg t))) (\<lambda>_. way_back t Q Q) (safe t)"
    if "minds t Q" "minds t R" "\<And>sn d. Q sn d \<Longrightarrow> sound t sn d" "\<And>sn d. R sn d \<Longrightarrow> sound t sn d" for Q R
    by (rule holds_journal [OF assms(1) that])
  have scripts: "holds ?P (andthen (plan_bundled_switch (s_host t) (s_cfg t) (s_id t)) (\<lambda>(old, had).
     andthen (revise (\<lambda>sn. sn\<lparr>sn_bundled_switch_plan := True, sn_bundled_had_old := had, sn_old_bundled_path := old\<rparr>)) (\<lambda>_.
     andthen (andthen held (write_journal (s_host t) (s_cfg t))) (\<lambda>_.
     andthen (switch_bundled (s_host t) (s_cfg t) release (s_id t) had) (\<lambda>_.
     andthen (revise (\<lambda>sn. sn\<lparr>sn_bundled_switched := True\<rparr>)) (\<lambda>_.
     andthen held (write_journal (s_host t) (s_cfg t)))))))) (\<lambda>_. way_back t (secured t) (secured t)) (safe t)" for release
  proof (rule holds_andthen [OF plan_rule [OF assms(1)]], clarsimp simp only: prod.case split: prod.split)
    fix old had
    have plan: "holds (\<lambda>st. ?P st \<and> plan_ok t old had (disk_of t (tx_ops st)))
        (revise (\<lambda>sn. sn\<lparr>sn_bundled_switch_plan := True, sn_bundled_had_old := had, sn_old_bundled_path := old\<rparr>))
        (\<lambda>_. way_back t (planned t had) (pointed t)) (safe t)"
      by (rule holds_revise) (use plan_revised [OF assms(1)] in \<open>auto simp: way_back_def\<close>)
    have flag: "holds (way_back t (secured t) (secured t)) (revise (\<lambda>sn. sn\<lparr>sn_bundled_switched := True\<rparr>)) (\<lambda>_. way_back t (secured t) (secured t)) (safe t)"
      by (rule holds_revise_back) (auto simp: secured_def sound_def formed_def Let_def)
    show "holds (\<lambda>st. ?P st \<and> plan_ok t old had (disk_of t (tx_ops st)))
       (andthen (revise (\<lambda>sn. sn\<lparr>sn_bundled_switch_plan := True, sn_bundled_had_old := had, sn_old_bundled_path := old\<rparr>)) (\<lambda>_.
        andthen (andthen held (write_journal (s_host t) (s_cfg t))) (\<lambda>_.
        andthen (switch_bundled (s_host t) (s_cfg t) release (s_id t) had) (\<lambda>_.
        andthen (revise (\<lambda>sn. sn\<lparr>sn_bundled_switched := True\<rparr>)) (\<lambda>_.
        andthen held (write_journal (s_host t) (s_cfg t))))))) (\<lambda>_. way_back t (secured t) (secured t)) (safe t)"
      by (rule holds_andthen [OF plan holds_andthen [OF journal holds_andthen [OF switch_bundled_rule [OF assms(1)] holds_andthen [OF flag journal]]]])
        (auto intro: minds sounds)
  qed
  have pointer: "holds ?S (andthen (ensure_release_layout (s_host t) env (s_cfg t) (s_id t)) (\<lambda>previous.
     andthen (revise (\<lambda>sn. sn\<lparr>sn_previous_target := previous\<rparr>)) (\<lambda>_.
     andthen (andthen held (write_journal (s_host t) (s_cfg t))) (\<lambda>_.
     andthen (perform (s_host t) (Symlink target (current_of t) (s_id t))) (\<lambda>_. rest))))) Q (safe t)"
    if rest: "holds ?P rest Q (safe t)" for target and rest :: "unit run" and Q
  proof (rule holds_andthen [OF release_layout_rule [OF assms]])
    fix previous
    have previous: "holds (\<lambda>st. ?S st \<and> target_ok t previous) (revise (\<lambda>sn. sn\<lparr>sn_previous_target := previous\<rparr>)) (\<lambda>_. way_back t (pointed t) (saved t)) (safe t)"
      by (rule holds_revise) (use previous_revised in \<open>auto simp: way_back_def\<close>)
    show "holds (\<lambda>st. ?S st \<and> target_ok t previous) (andthen (revise (\<lambda>sn. sn\<lparr>sn_previous_target := previous\<rparr>)) (\<lambda>_.
       andthen (andthen held (write_journal (s_host t) (s_cfg t))) (\<lambda>_.
       andthen (perform (s_host t) (Symlink target (current_of t) (s_id t))) (\<lambda>_. rest)))) Q (safe t)"
      by (rule holds_andthen [OF previous holds_andthen [OF journal holds_andthen [OF switch_pointer_rule [OF assms(1)] rest]]])
        (auto intro: minds sounds)
  qed
  have release: "holds (\<lambda>st. ?S st \<and> release_ok t release) (andthen (revise (\<lambda>sn. sn\<lparr>sn_target_release_path := release\<rparr>)) (\<lambda>_.
     andthen (andthen held (write_journal (s_host t) (s_cfg t))) (\<lambda>_.
     andthen (promote_release (s_host t) (payload_of t) release (s_id t)) (\<lambda>_. rest)))) Q (safe t)"
    if rest: "holds ?S rest Q (safe t)" for release and rest :: "unit run" and Q
  proof (cases "release_ok t release")
    case True
    have target: "holds ?S (revise (\<lambda>sn. sn\<lparr>sn_target_release_path := release\<rparr>)) (\<lambda>_. ?S) (safe t)"
      by (rule holds_revise_back) (use target_revised [OF assms(1) _ True] in auto)
    have "holds ?S (andthen (revise (\<lambda>sn. sn\<lparr>sn_target_release_path := release\<rparr>)) (\<lambda>_.
       andthen (andthen held (write_journal (s_host t) (s_cfg t))) (\<lambda>_.
       andthen (promote_release (s_host t) (payload_of t) release (s_id t)) (\<lambda>_. rest)))) Q (safe t)"
      by (rule holds_andthen [OF target holds_andthen [OF journal holds_andthen [OF promote_rule [OF assms(1) True] rest]]])
        (auto intro: minds sounds)
    then show ?thesis by (rule holds_pre) simp
  qed (simp add: holds_def)
  show ?thesis unfolding switch_release_def
    by (rule holds_andthen [OF populate_rule [OF assms(1)] holds_andthen [OF status holds_andthen [OF preflight_rule [OF assms(1)]
          holds_andthen [OF status holds_andthen [OF release_dir_rule [OF assms(1)] release [OF pointer [OF scripts]]]]]]])
qed

text \<open>The start of the new version, up to the removal of the journal, which is the commit.\<close>

definition committed :: "setting \<Rightarrow> txn \<Rightarrow> bool" where
  "committed t st \<longleftrightarrow> (\<exists>ops. tx_ops st = ops @ [RemoveFile (journal_path (s_cfg t))] \<and> prefix (s_start t) ops
     \<and> (\<forall>p. prefix (s_start t) p \<longrightarrow> prefix p ops \<longrightarrow> journal_good t p))"

lemma activate_rule:
  assumes "proper t"
  shows "holds (way_back t (secured t) (secured t)) (activate_release (s_host t) (s_cfg t) was_active) (\<lambda>_. committed t) (safe t)"
proof -
  let ?S = "way_back t (secured t) (secured t)"
  have site: "site (s_cfg t) (s_id t)" and host: "rh_ok (s_host t) = de_ok (s_env t)"
    using assms by (simp_all add: proper_def answers_def)
  have status: "holds ?S (transition (s_host t) (s_cfg t) state) (\<lambda>_. ?S) (safe t)" for state
    unfolding transition_def by (rule holds_neutral [OF neutral_ops(1) [OF assms]]) (auto intro: minds_conditions conditions_sound)
  have programs: "holds ?S (perform (s_host t) w) (\<lambda>_. ?S) (safe t)" if "runs_programs w" for w
    by (rule holds_programs [OF assms that robust_secured robust_secured]) (auto intro: conditions_sound)
  have start: "holds ?S (if was_active then andthen (perform (s_host t) StartService) (\<lambda>_.
      andthen (transition (s_host t) (s_cfg t) StateHealthChecking) (\<lambda>_. perform (s_host t) WaitReady)) else yields ()) (\<lambda>_. ?S) (safe t)"
  proof (cases was_active)
    case True
    have "holds ?S (andthen (perform (s_host t) StartService) (\<lambda>_.
      andthen (transition (s_host t) (s_cfg t) StateHealthChecking) (\<lambda>_. perform (s_host t) WaitReady))) (\<lambda>_. ?S) (safe t)"
      by (rule holds_andthen [OF programs holds_andthen [OF status programs]]) simp_all
    then show ?thesis using True by simp
  qed (simp add: holds_yields)
  have remove: "holds ?S (perform (s_host t) (RemoveFile (journal_path (s_cfg t)))) (\<lambda>_. committed t) (safe t)"
  proof (rule holds_perform)
    let ?w = "RemoveFile (journal_path (s_cfg t))"
    fix st assume st: "?S st"
    then show "committed t (st\<lparr>tx_ops := tx_ops st @ [?w]\<rparr>)" by (simp add: committed_def way_back_def)
    show "safe t (st\<lparr>tx_ops := tx_ops st @ [?w]\<rparr>)" if "\<not> rh_ok (s_host t) (tx_ops st) ?w"
    proof -
      have same: "disk_of t (tx_ops st @ [?w]) = disk_of t (tx_ops st)"
        using that unfolding disk_after_snoc advance_def host by simp
      show ?thesis by (rule way_back_change [OF st]) (unfold same, auto intro: conditions_sound)
    qed
  qed
  show ?thesis unfolding activate_release_def by (rule holds_andthen [OF start holds_andthen [OF status remove]])
qed

section \<open>The start of the transaction\<close>

definition begin_ops :: "update_config \<Rightarrow> string \<Rightarrow> bool \<Rightarrow> install_op list" where
  "begin_ops cfg operation_id was_active =
     (let sn = blank_snapshot operation_id (backup_dir cfg operation_id) was_active in
      [MkdirAll (join_path [update_root cfg, ''backups'']), Mkdir (backup_dir cfg operation_id), WriteSnapshot (journal_path cfg) sn,
       WriteSnapshot (join_path [backup_dir cfg operation_id, ''snapshot.json'']) sn])"

abbreviation stop_ops :: "bool \<Rightarrow> install_op list" where
  "stop_ops was_active \<equiv> if was_active then [StopService] else []"

lemma begin_snapshot_Inr:
  assumes "begin_snapshot host cfg operation_id was_active \<lparr>tx_ops = [], tx_snapshot = x\<rparr> = (Inr u, st)"
  shows "tx_ops st = begin_ops cfg operation_id was_active"
    "tx_snapshot st = blank_snapshot operation_id (backup_dir cfg operation_id) was_active"
    "rh_ok host (take 2 (begin_ops cfg operation_id was_active)) (WriteSnapshot (journal_path cfg) (tx_snapshot st))"
  using assms unfolding begin_snapshot_def write_journal_def andthen_def perform_def revise_def held_def begin_ops_def Let_def
  by (auto simp: blank_snapshot_def split: if_splits)

definition start_setting :: "rollback_host \<Rightarrow> disk_env \<Rightarrow> disk \<Rightarrow> update_config \<Rightarrow> string \<Rightarrow> bool \<Rightarrow> setting" where
  "start_setting host de base cfg operation_id was_active =
     \<lparr>s_host = host, s_env = de, s_base = base, s_cfg = cfg, s_id = operation_id,
      s_start = begin_ops cfg operation_id was_active @ stop_ops was_active\<rparr>"

lemma start_setting_sel [simp]:
  "s_host (start_setting host de base cfg operation_id was_active) = host" "s_env (start_setting host de base cfg operation_id was_active) = de"
  "s_base (start_setting host de base cfg operation_id was_active) = base" "s_cfg (start_setting host de base cfg operation_id was_active) = cfg"
  "s_id (start_setting host de base cfg operation_id was_active) = operation_id"
  "s_start (start_setting host de base cfg operation_id was_active) = begin_ops cfg operation_id was_active @ stop_ops was_active"
  by (simp_all add: start_setting_def)

lemma blank_formed: "formed (start_setting host de base cfg operation_id b) (blank_snapshot operation_id (backup_dir cfg operation_id) was_active)"
  by (simp add: formed_def blank_snapshot_def)

lemma start_journal:
  assumes "proper (start_setting host de base cfg operation_id was_active)"
    and "rh_ok host (take 2 (begin_ops cfg operation_id was_active))
      (WriteSnapshot (journal_path cfg) (blank_snapshot operation_id (backup_dir cfg operation_id) was_active))"
  shows "disk_after de base (begin_ops cfg operation_id was_active @ stop_ops was_active) (at_journal cfg)
    = Some (Regular (Saved (blank_snapshot operation_id (backup_dir cfg operation_id) was_active)))"
proof -
  let ?t = "start_setting host de base cfg operation_id was_active" and ?sn = "blank_snapshot operation_id (backup_dir cfg operation_id) was_active"
  define first where "first = take 2 (begin_ops cfg operation_id was_active)"
  let ?j = "WriteSnapshot (journal_path cfg) ?sn"
  let ?b = "WriteSnapshot (join_path [backup_dir cfg operation_id, ''snapshot.json'']) ?sn"
  have ops: "begin_ops cfg operation_id was_active = (first @ [?j]) @ [?b]" by (simp add: first_def begin_ops_def Let_def)
  have "disk_of ?t (first @ [?j]) (at_journal cfg) = Some (Regular (Saved ?sn))"
    using journal_write(2) [OF assms(1), of first ?sn] assms(2) by (simp add: first_def)
  then have here: "disk_of ?t (begin_ops cfg operation_id was_active) (at_journal cfg) = Some (Regular (Saved ?sn))"
    unfolding ops using neutral_step [OF neutral_ops(2) [OF assms(1)] journal_important, of "first @ [?j]" ?sn] by simp
  show ?thesis
  proof (cases was_active)
    case True
    have "guarded cfg operation_id (at_journal cfg)" by (simp add: guarded_def)
    then show ?thesis using True here assms(1) by (simp add: disk_after_snoc advance_def proper_def tame_def)
  qed (use here in simp)
qed

lemma start_way_back:
  assumes "proper (start_setting host de base cfg operation_id was_active)"
    and "begin_snapshot host cfg operation_id was_active \<lparr>tx_ops = [], tx_snapshot = x\<rparr> = (Inr u, st)"
  shows "way_back (start_setting host de base cfg operation_id was_active) (begun (start_setting host de base cfg operation_id was_active) [])
      (fresh (start_setting host de base cfg operation_id was_active)) (st\<lparr>tx_ops := tx_ops st @ stop_ops was_active\<rparr>)"
proof -
  let ?t = "start_setting host de base cfg operation_id was_active" and ?sn = "blank_snapshot operation_id (backup_dir cfg operation_id) was_active"
  note b = begin_snapshot_Inr [OF assms(2)]
  have j: "disk_of ?t (s_start ?t) (at_journal cfg) = Some (Regular (Saved ?sn))"
    using start_journal [OF assms(1)] b(2,3) by simp
  have f: "fresh ?t ?sn (disk_of ?t (s_start ?t))"
    using blank_formed [of host de base cfg operation_id was_active was_active] by (simp add: fresh_def untouched_def blank_snapshot_def)
  have q: "begun ?t [] ?sn (disk_of ?t (s_start ?t))" using f by (simp add: begun_def blank_snapshot_def)
  have "journal_good ?t (s_start ?t)" using j fresh_sound [OF f] by (auto simp: journal_good_def)
  then have good: "\<forall>p. prefix (s_start ?t) p \<longrightarrow> prefix p (s_start ?t) \<longrightarrow> journal_good ?t p" using prefix_order.antisym by blast
  have sel: "tx_ops (st\<lparr>tx_ops := tx_ops st @ stop_ops was_active\<rparr>) = s_start ?t"
    "tx_snapshot (st\<lparr>tx_ops := tx_ops st @ stop_ops was_active\<rparr>) = ?sn" using b(1,2) by simp_all
  have "StartService \<notin> set (drop (length (s_start ?t)) (s_start ?t))" "prefix (s_start ?t) (s_start ?t)" by simp_all
  then show ?thesis unfolding way_back_def sel using good q j f unfolding start_setting_sel(4) by blast
qed

section \<open>Rolled back means restored\<close>

lemma body_safe:
  fixes operation_id cfg was_active host de base
  defines "payload \<equiv> join_path [join_path [update_root cfg, ''staging'', operation_id], ''payload'']"
    and "t \<equiv> start_setting host de base cfg operation_id was_active"
  assumes "proper t" "CHR ''/'' \<notin> set (canonical_version env (uc_current_version cfg))"
    and begins: "begin_snapshot host cfg operation_id was_active \<lparr>tx_ops = [], tx_snapshot = x\<rparr> = (Inr u, st)"
    and stops: "was_active \<Longrightarrow> rh_ok host (begin_ops cfg operation_id True) StopService"
    and run: "install_body host env cfg operation_id version payload was_active st = (r, st')"
  shows "case r of Inl e \<Rightarrow> safe t st' | Inr _ \<Rightarrow> committed t st'"
proof -
  let ?st = "st\<lparr>tx_ops := tx_ops st @ stop_ops was_active\<rparr>"
  have first: "(if was_active then perform host StopService else yields ()) st = (Inr (), ?st)"
    using stops begin_snapshot_Inr(1) [OF begins] by (simp add: perform_def yields_def)
  then have rest: "andthen (switch_release host env cfg operation_id version payload) (\<lambda>_. activate_release host cfg was_active) ?st = (r, st')"
    using run unfolding install_body_def andthen_def by simp
  have "holds (way_back t (begun t []) (fresh t)) (andthen (switch_release host env cfg operation_id version payload) (\<lambda>_. activate_release host cfg was_active))
      (\<lambda>_. committed t) (safe t)"
    using holds_andthen [OF switch_release_rule [OF assms(3)] activate_rule [OF assms(3)]] assms(4) unfolding t_def payload_def by simp
  from holds_Inr [OF this] holds_Inl [OF this] start_way_back [OF assms(3) [unfolded t_def] begins] rest
  show ?thesis unfolding t_def by (cases r) auto
qed

lemma canonical_slash: "(\<And>v. ue_semver_valid env v \<Longrightarrow> CHR ''/'' \<notin> set v) \<Longrightarrow> CHR ''/'' \<notin> set (canonical_version env version)"
  by (auto simp: canonical_version_def Let_def)

lemma restart_clean:
  assumes "fst (restart_service host sn st) = []"
  shows "fst st = [] \<and> (\<exists>restart. snd (restart_service host sn st) = snd st @ restart \<and> set restart \<subseteq> {StartService, WaitReady})"
  using assms by (auto simp: restart_service_def Let_def attempt_def split: if_splits)

lemma safe_idle:
  assumes "safe t st" "\<And>more. StartService \<notin> set more \<Longrightarrow> \<not> rh_active (s_host t) (s_start t @ more)"
  shows "sn_managed_files (tx_snapshot st) = [] \<Longrightarrow> \<not> rh_active (s_host t) (tx_ops st)"
proof -
  assume none: "sn_managed_files (tx_snapshot st) = []"
  obtain more where more: "tx_ops st = s_start t @ more" using assms(1) by (auto simp: way_back_def prefix_def)
  then show "\<not> rh_active (s_host t) (tx_ops st)" using assms none by (simp add: way_back_def)
qed

text \<open>
  C12: a rolled back update leaves the installation as it was.  Whatever operation fails after the
  stop of the service, and whatever a failed operation or the programs that run meanwhile leave on
  the disk (the programs do not write the journal, the copies, the release pointer and the bundled
  scripts): when \<open>Apply\<close> reports \<open>rolled_back\<close>, then on the disk on which the old version is started
  again the configuration and the database files are those of the moment the service was stopped,
  the release pointer is the old one if there was one, and the bundled scripts are the old ones,
  file by file.  It is assumed that stopping the service succeeds and that it then stays stopped
  until it is started; that the configuration and the database files, where they exist, are regular
  files; that nothing lies below the bundled scripts when they are missing; and that a semantic
  version contains no slash.
\<close>

theorem failed_update_restores:
  fixes host :: rollback_host and de :: disk_env and base :: disk and env :: update_env and cfg :: update_config
    and operation_id version :: string
  defines "was_active \<equiv> rh_active host []"
  defines "start \<equiv> begin_ops cfg operation_id was_active @ stop_ops was_active"
  defines "orig \<equiv> disk_after de base start" and "report \<equiv> install_release host env cfg operation_id version"
  assumes "site cfg operation_id" "answers host de base cfg operation_id" "tame de cfg operation_id"
    and "\<And>v. ue_semver_valid env v \<Longrightarrow> CHR ''/'' \<notin> set v"
    and "was_active \<Longrightarrow> rh_ok host (begin_ops cfg operation_id True) StopService"
    and "\<And>more. StartService \<notin> set more \<Longrightarrow> \<not> rh_active host (start @ more)"
    and "\<And>n e. n \<in> set managed_names \<Longrightarrow> orig (home cfg @ [n]) = Some e \<Longrightarrow> \<exists>c. e = Regular c"
    and "\<And>r. orig (at_active cfg) = None \<Longrightarrow> orig (at_active cfg @ r) = None"
    and "rp_state report = StateRolledBack"
  shows "\<exists>back restart. rp_ops report = back @ restart @ [WriteStatus (status_path cfg) StateRolledBack, RemoveFile (journal_path cfg),
        RemoveAll (join_path [update_root cfg, ''staging'', operation_id])]
    \<and> set restart \<subseteq> {StartService, WaitReady}
    \<and> (\<forall>n\<in>set managed_names. disk_after de base back (home cfg @ [n]) = orig (home cfg @ [n]))
    \<and> (orig (at_current cfg) \<noteq> None \<longrightarrow> disk_after de base back (at_current cfg) = orig (at_current cfg))
    \<and> (\<forall>r. disk_after de base back (at_active cfg @ r) = orig (at_active cfg @ r))"
proof -
  let ?t = "start_setting host de base cfg operation_id was_active"
  let ?blank = "\<lparr>tx_ops = [], tx_snapshot = blank_snapshot [] [] False\<rparr>"
  let ?payload = "join_path [join_path [update_root cfg, ''staging'', operation_id], ''payload'']"
  have proper: "proper ?t" using assms(5-7,11,12) unfolding proper_def orig_def start_def start_setting_sel by blast
  have slash: "CHR ''/'' \<notin> set (canonical_version env (uc_current_version cfg))" using canonical_slash assms(8) by blast
  obtain b st where bg: "begin_snapshot host cfg operation_id was_active ?blank = (b, st)" by fastforce
  obtain r st' where run: "install_body host env cfg operation_id version ?payload was_active st = (r, st')" by fastforce
  have report: "report = (let report = (case b of Inl e \<Rightarrow> \<lparr>rp_state = StateFailed, rp_attempted = False, rp_succeeded = False, rp_error = Some e,
        rp_ops = tx_ops st @ [WriteStatus (status_path cfg) StateFailed]\<rparr>
      | Inr _ \<Rightarrow> (case r of Inl e \<Rightarrow> rollback_on_failure host cfg e st'
          | Inr _ \<Rightarrow> \<lparr>rp_state = StateSucceeded, rp_attempted = False, rp_succeeded = False, rp_error = None,
                      rp_ops = tx_ops (snd (commit_release host cfg st'))\<rparr>))
      in report\<lparr>rp_ops := rp_ops report @ [RemoveAll (join_path [update_root cfg, ''staging'', operation_id])]\<rparr>)"
    unfolding report_def install_release_def Let_def was_active_def [symmetric] bg prod.case run by (cases b; cases r) simp_all
  then obtain u e where be: "b = Inr u" "r = Inl e" using assms(13) by (cases b; cases r) (auto simp: Let_def)
  have safe: "safe ?t st'" using body_safe [OF proper slash bg [unfolded be(1)] assms(9) run] be(2) by simp
  obtain failures ops where roll: "rollback_update host cfg (tx_snapshot st') (tx_ops st') = (failures, ops)" by fastforce
  have clean: "failures = []" and made: "rp_ops report = ops @ [WriteStatus (status_path cfg) StateRolledBack, RemoveFile (journal_path cfg),
      RemoveAll (join_path [update_root cfg, ''staging'', operation_id])]"
    using assms(13) roll unfolding report be Let_def by (auto simp: rollback_on_failure_def split: if_splits)
  let ?files = "rollback_files host cfg (tx_snapshot st') (tx_ops st')"
  obtain restart where backed: "fst ?files = []" "ops = snd ?files @ restart" "set restart \<subseteq> {StartService, WaitReady}"
    using restart_clean [of host "tx_snapshot st'" ?files] roll clean unfolding rollback_update_def by auto
  have "restored cfg orig (disk_after de base (snd ?files))"
  proof (rule rollback_restores [OF assms(5,6,7) _ _ backed(1)])
    show "recoverable cfg operation_id orig (tx_snapshot st') (disk_after de base (tx_ops st'))"
      using safe by (simp add: way_back_def sound_def orig_def start_def)
    show "\<not> rh_active host (tx_ops st')" if "sn_managed_files (tx_snapshot st') = []"
      using safe_idle [OF safe _ that] assms(10) by (simp add: start_def)
  qed
  then have "(\<forall>n\<in>set managed_names. disk_after de base (snd ?files) (home cfg @ [n]) = orig (home cfg @ [n]))
    \<and> (orig (at_current cfg) \<noteq> None \<longrightarrow> disk_after de base (snd ?files) (at_current cfg) = orig (at_current cfg))
    \<and> (\<forall>r. disk_after de base (snd ?files) (at_active cfg @ r) = orig (at_active cfg @ r))"
    unfolding restored_def files_back_def pointer_back_def scripts_back_def .
  moreover have "rp_ops report = snd ?files @ restart @ [WriteStatus (status_path cfg) StateRolledBack, RemoveFile (journal_path cfg),
      RemoveAll (join_path [update_root cfg, ''staging'', operation_id])]" using made backed(2) by simp
  ultimately show ?thesis using backed(3) by blast
qed

lemma interrupted_journal:
  fixes operation_id cfg was_active host de base
  defines "t \<equiv> start_setting host de base cfg operation_id was_active"
  assumes "case r of Inl e \<Rightarrow> safe t st' | Inr _ \<Rightarrow> committed t st'"
    and "prefix (s_start t) p" "prefix p (tx_ops st')" "r = Inr () \<Longrightarrow> p \<noteq> tx_ops st'"
  shows "journal_good t p"
proof (cases r)
  case (Inl e)
  then show ?thesis using assms(2-4) by (simp add: way_back_def)
next
  case (Inr u)
  then obtain ops where ops: "tx_ops st' = ops @ [RemoveFile (journal_path (s_cfg t))]"
    "\<forall>p. prefix (s_start t) p \<longrightarrow> prefix p ops \<longrightarrow> journal_good t p" using assms(2) by (auto simp: committed_def)
  then have "prefix p ops" using assms(4,5) Inr by (simp add: prefix_snoc)
  with ops(2) assms(3) show ?thesis by blast
qed

lemma rollback_last_cases:
  assumes "read_journal cfg (rh_journal host []) = Inr sn"
  shows "\<exists>state ops. rollback_last host cfg = Inr (state, ops)
    \<and> (state = StateRolledBack \<longrightarrow> (\<exists>rest. fst (rollback_files host cfg sn []) = [] \<and> ops = snd (rollback_files host cfg sn []) @ rest
        \<and> set rest \<subseteq> {StartService, WaitReady, WriteStatus (status_path cfg) StateRolledBack, RemoveFile (journal_path cfg)}))"
proof -
  obtain failures ops where roll: "rollback_update host cfg sn [] = (failures, ops)" by fastforce
  show ?thesis
  proof (cases "failures = []")
    case True
    then obtain restart where "fst (rollback_files host cfg sn []) = []" "ops = snd (rollback_files host cfg sn []) @ restart"
      "set restart \<subseteq> {StartService, WaitReady}"
      using restart_clean [of host sn "rollback_files host cfg sn []"] roll unfolding rollback_update_def by auto
    then show ?thesis using assms roll True by (auto simp: rollback_last_def Let_def)
  next
    case False
    then show ?thesis using assms roll by (simp add: rollback_last_def)
  qed
qed

text \<open>
  C13: an update that is interrupted can be undone.  Take the operations of the transaction up to
  any point after the stop of the service and before the commit, as after a crash, or after a loss
  of power if the operations have become durable in their order: the journal on the disk passes the
  checks of \<open>RollbackLast\<close>, which therefore runs, and if it reports \<open>rolled_back\<close> then the files,
  the release pointer and the bundled scripts are those from before the update, just as for a
  failure that \<open>Apply\<close> itself notices.  The host after the interruption is any host with that disk;
  the service must not have been started again unless the journal already lists the copies.  As
  in C12, stopping the service succeeded, the configuration and the database files were regular
  files, and nothing lay below missing bundled scripts.
\<close>

theorem interrupted_update_restores:
  fixes host host' :: rollback_host and de de' :: disk_env and base :: disk and env :: update_env and cfg :: update_config
    and operation_id version :: string and p :: "install_op list"
  defines "was_active \<equiv> rh_active host []"
  defines "start \<equiv> begin_ops cfg operation_id was_active @ stop_ops was_active"
  defines "orig \<equiv> disk_after de base start"
  assumes "site cfg operation_id" "answers host de base cfg operation_id" "tame de cfg operation_id"
    and "\<And>v. ue_semver_valid env v \<Longrightarrow> CHR ''/'' \<notin> set v"
    and "was_active \<Longrightarrow> rh_ok host (begin_ops cfg operation_id True) StopService"
    and "\<And>n e. n \<in> set managed_names \<Longrightarrow> orig (home cfg @ [n]) = Some e \<Longrightarrow> \<exists>c. e = Regular c"
    and "\<And>r. orig (at_active cfg) = None \<Longrightarrow> orig (at_active cfg @ r) = None"
    and "begin_snapshot host cfg operation_id was_active \<lparr>tx_ops = [], tx_snapshot = blank_snapshot [] [] False\<rparr> = (Inr u, st)"
    and "install_body host env cfg operation_id version
      (join_path [join_path [update_root cfg, ''staging'', operation_id], ''payload'']) was_active st = (r, st')"
    and "prefix start p" "prefix p (tx_ops st')" "r = Inr () \<Longrightarrow> p \<noteq> tx_ops st'"
    and "answers host' de' (disk_after de base p) cfg operation_id" "tame de' cfg operation_id"
    and "\<And>j. disk_after de base p (at_journal cfg) = Some (Regular (Saved j)) \<Longrightarrow> rh_journal host' [] = Some (Some j)"
    and "\<And>j. rh_journal host' [] = Some (Some j) \<Longrightarrow> sn_managed_files j = [] \<Longrightarrow> \<not> rh_active host' []"
  shows "\<exists>state ops. rollback_last host' cfg = Inr (state, ops)
    \<and> (state = StateRolledBack \<longrightarrow> (\<exists>back rest. ops = back @ rest
        \<and> set rest \<subseteq> {StartService, WaitReady, WriteStatus (status_path cfg) StateRolledBack, RemoveFile (journal_path cfg)}
        \<and> (\<forall>n\<in>set managed_names. disk_after de' (disk_after de base p) back (home cfg @ [n]) = orig (home cfg @ [n]))
        \<and> (orig (at_current cfg) \<noteq> None \<longrightarrow> disk_after de' (disk_after de base p) back (at_current cfg) = orig (at_current cfg))
        \<and> (\<forall>r. disk_after de' (disk_after de base p) back (at_active cfg @ r) = orig (at_active cfg @ r))))"
proof -
  let ?t = "start_setting host de base cfg operation_id was_active" and ?d = "disk_after de base p"
  have proper: "proper ?t" using assms(4-6,9,10) unfolding proper_def orig_def start_def start_setting_sel by blast
  have slash: "CHR ''/'' \<notin> set (canonical_version env (uc_current_version cfg))" using canonical_slash assms(7) by blast
  have "journal_good ?t p"
    by (rule interrupted_journal [OF body_safe [OF proper slash assms(11) assms(8) assms(12)]]) (use assms(13-15) in \<open>simp_all add: start_def\<close>)
  then obtain j where j: "?d (at_journal cfg) = Some (Regular (Saved j))" "sound ?t j ?d" by (auto simp: journal_good_def)
  have seen: "rh_journal host' [] = Some (Some j)" by (rule assms(18) [OF j(1)])
  have "read_journal cfg (rh_journal host' []) = Inr j" using formed_readable [OF proper] j(2) seen by (simp add: sound_def)
  from rollback_last_cases [OF this] obtain state ops where last: "rollback_last host' cfg = Inr (state, ops)"
    "state = StateRolledBack \<longrightarrow> (\<exists>rest. fst (rollback_files host' cfg j []) = [] \<and> ops = snd (rollback_files host' cfg j []) @ rest
        \<and> set rest \<subseteq> {StartService, WaitReady, WriteStatus (status_path cfg) StateRolledBack, RemoveFile (journal_path cfg)})" by blast
  have "restored cfg orig (disk_after de' ?d (snd (rollback_files host' cfg j [])))" if "fst (rollback_files host' cfg j []) = []"
    by (rule rollback_restores [OF assms(4,16,17) _ assms(19) [OF seen] that])
      (use j(2) in \<open>simp_all add: sound_def orig_def start_def\<close>)
  then show ?thesis using last unfolding restored_def files_back_def pointer_back_def scripts_back_def by blast
qed

section \<open>An example\<close>

text \<open>A host that answers from a disk, with the service stopped.\<close>

definition disk_host :: "disk_env \<Rightarrow> disk \<Rightarrow> update_config \<Rightarrow> rollback_host" where
  "disk_host de base cfg =
     \<lparr>rh_ok = de_ok de, rh_active = (\<lambda>_. False),
      rh_lstat = (\<lambda>ops p. Some (map_option kind (disk_after de base ops (elements p)))),
      rh_stat = (\<lambda>ops p. Some (map_option kind (disk_after de base ops (elements p)))),
      rh_read = (\<lambda>ops p. Some (case disk_after de base ops (elements p) of Some (Regular (Text t)) \<Rightarrow> Some t | _ \<Rightarrow> None)),
      rh_readlink = (\<lambda>ops p. Some (case disk_after de base ops (elements p) of Some (Link t) \<Rightarrow> Some t | _ \<Rightarrow> None)),
      rh_dirs = (\<lambda>_ _. None),
      rh_journal = (\<lambda>ops. case disk_after de base ops (at_journal cfg) of Some (Regular (Saved j)) \<Rightarrow> Some (Some j) | _ \<Rightarrow> None)\<rparr>"

lemma disk_host_answers: "answers (disk_host de base cfg) de base cfg operation_id"
  by (simp add: answers_def disk_host_def Let_def)

definition demo_disk :: disk where
  "demo_disk = [[''o'', ''config.yaml''] \<mapsto> Regular (Text ''a''), [''o'', ''one''] \<mapsto> Regular (Text ''b'')]"

definition demo_disk_env :: disk_env where
  "demo_disk_env =
     \<lparr>de_ok = (\<lambda>_ w. \<not> (case w of RunPreflight _ \<Rightarrow> True | _ \<Rightarrow> False)), de_debris = (\<lambda>_. Map.empty), de_follow = (\<lambda>_ _. Text []),
      de_programs = (\<lambda>_ d. d)\<rparr>"

definition strict_env :: update_env where
  "strict_env = (demo_env (demo_doc 1 KeyStatusRevoked))\<lparr>ue_semver_valid := (\<lambda>v. CHR ''/'' \<notin> set v)\<rparr>"

abbreviation "demo_host \<equiv> disk_host demo_disk_env demo_disk demo_config"

lemmas run_eval = andthen_def perform_def revise_def held_def yields_def fails_def ask_def quietly_def

lemma demo_joins:
  "join_path [''/o'', ''updates''] = ''/o/updates''"
  "join_path [''/o/updates'', ''backups''] = ''/o/updates/backups''"
  "join_path [''/o/updates'', ''backups'', ''7''] = ''/o/updates/backups/7''"
  "join_path [''/o/updates'', ''active-transaction.json''] = ''/o/updates/active-transaction.json''"
  "join_path [''/o/updates'', ''status.json''] = ''/o/updates/status.json''"
  "join_path [''/o/updates/backups/7'', ''snapshot.json''] = ''/o/updates/backups/7/snapshot.json''"
  "join_path [''/o/updates/backups/7'', ''preflight''] = ''/o/updates/backups/7/preflight''"
  "join_path [''/o'', ''config.yaml''] = ''/o/config.yaml''"
  "join_path [''/o/updates/backups/7'', ''files'', ''config.yaml''] = ''/o/updates/backups/7/files/config.yaml''"
  "join_path [''/o/updates/backups/7/preflight'', ''config.yaml''] = ''/o/updates/backups/7/preflight/config.yaml''"
  "join_path [''/o'', ''myadmin.db''] = ''/o/myadmin.db''"
  "join_path [''/o/updates/backups/7'', ''files'', ''myadmin.db''] = ''/o/updates/backups/7/files/myadmin.db''"
  "join_path [''/o/updates/backups/7/preflight'', ''myadmin.db''] = ''/o/updates/backups/7/preflight/myadmin.db''"
  "join_path [''/o'', ''myadmin.db-wal''] = ''/o/myadmin.db-wal''"
  "join_path [''/o/updates/backups/7'', ''files'', ''myadmin.db-wal''] = ''/o/updates/backups/7/files/myadmin.db-wal''"
  "join_path [''/o/updates/backups/7/preflight'', ''myadmin.db-wal''] = ''/o/updates/backups/7/preflight/myadmin.db-wal''"
  "join_path [''/o'', ''myadmin.db-shm''] = ''/o/myadmin.db-shm''"
  "join_path [''/o/updates/backups/7'', ''files'', ''myadmin.db-shm''] = ''/o/updates/backups/7/files/myadmin.db-shm''"
  "join_path [''/o/updates/backups/7/preflight'', ''myadmin.db-shm''] = ''/o/updates/backups/7/preflight/myadmin.db-shm''"
  "join_path [''/o'', ''one''] = ''/o/one''"
  "join_path [''/o/updates/backups/7'', ''files'', ''one''] = ''/o/updates/backups/7/files/one''"
  by (simp_all add: path_eval)

lemma demo_elements:
  "elements ''/o/updates/backups'' = [''o'', ''updates'', ''backups'']"
  "elements ''/o/updates/backups/7'' = [''o'', ''updates'', ''backups'', ''7'']"
  "elements ''/o/updates/active-transaction.json'' = [''o'', ''updates'', ''active-transaction.json'']"
  "elements ''/o/updates/status.json'' = [''o'', ''updates'', ''status.json'']"
  "elements ''/o/updates/backups/7/snapshot.json'' = [''o'', ''updates'', ''backups'', ''7'', ''snapshot.json'']"
  "elements ''/o/updates/backups/7/preflight'' = [''o'', ''updates'', ''backups'', ''7'', ''preflight'']"
  "elements ''/o/updates/backups/7/files/config.yaml'' = [''o'', ''updates'', ''backups'', ''7'', ''files'', ''config.yaml'']"
  "elements ''/o/updates/backups/7/files/one'' = [''o'', ''updates'', ''backups'', ''7'', ''files'', ''one'']"
  "elements ''/o/updates/backups/7/preflight/config.yaml'' = [''o'', ''updates'', ''backups'', ''7'', ''preflight'', ''config.yaml'']"
  "elements ''/o/one'' = [''o'', ''one'']"
  "elements ''/o/config.yaml'' = [''o'', ''config.yaml'']"
  "elements ''/o/myadmin.db'' = [''o'', ''myadmin.db'']"
  "elements ''/o/myadmin.db-wal'' = [''o'', ''myadmin.db-wal'']"
  "elements ''/o/myadmin.db-shm'' = [''o'', ''myadmin.db-shm'']"
  by (simp_all add: path_eval)

lemma demo_begin:
  "begin_ops demo_config ''7'' False = [MkdirAll ''/o/updates/backups'', Mkdir ''/o/updates/backups/7'',
     WriteSnapshot ''/o/updates/active-transaction.json'' (blank_snapshot ''7'' ''/o/updates/backups/7'' False),
     WriteSnapshot ''/o/updates/backups/7/snapshot.json'' (blank_snapshot ''7'' ''/o/updates/backups/7'' False)]"
  by (simp add: begin_ops_def Let_def demo_install update_root_def backup_dir_def journal_path_def demo_joins)

lemmas demo_run = populate_snapshot_def
  backup_managed_def backup_binary_def save_copy_def preflight_def preflight_copy_def transition_def write_journal_def
  run_eval disk_host_def demo_disk_def demo_disk_env_def managed_names_def allowed_managed_def demo_install
  demo_joins demo_elements disk_after_def advance_def directories_def blank_snapshot_def Let_def journal_path_def status_path_def update_root_def

definition demo_saved :: update_snapshot where
  "demo_saved = (blank_snapshot ''7'' ''/o/updates/backups/7'' False)
     \<lparr>sn_files := [(''/o/config.yaml'', ''/o/updates/backups/7/files/config.yaml''), (''/o/one'', ''/o/updates/backups/7/files/one'')],
      sn_managed_files := [''/o/config.yaml'', ''/o/myadmin.db'', ''/o/myadmin.db-wal'', ''/o/myadmin.db-shm'']\<rparr>"

definition demo_copies :: "install_op list" where
  "demo_copies = [CopyFile ''/o/config.yaml'' ''/o/updates/backups/7/files/config.yaml'', CopyFile ''/o/one'' ''/o/updates/backups/7/files/one'',
     WriteSnapshot ''/o/updates/backups/7/snapshot.json'' demo_saved, WriteSnapshot ''/o/updates/active-transaction.json'' demo_saved,
     WriteSnapshot ''/o/updates/backups/7/snapshot.json'' demo_saved]"

lemma demo_populate:
  "populate_snapshot demo_host demo_config
     \<lparr>tx_ops = begin_ops demo_config ''7'' False, tx_snapshot = blank_snapshot ''7'' ''/o/updates/backups/7'' False\<rparr>
   = (Inr (), \<lparr>tx_ops = begin_ops demo_config ''7'' False @ demo_copies, tx_snapshot = demo_saved\<rparr>)"
  by (simp add: demo_run demo_begin demo_copies_def demo_saved_def)


definition demo_trial :: "install_op list" where
  "demo_trial = [WriteStatus ''/o/updates/status.json'' StatePreflight, MkdirAll ''/o/updates/backups/7/preflight'',
     CopyFile ''/o/updates/backups/7/files/config.yaml'' ''/o/updates/backups/7/preflight/config.yaml'',
     RunPreflight ''/o/updates/backups/7/preflight'']"

lemma disk_after_quiet:
  "(\<And>w ops d. w \<in> set later \<Longrightarrow> advance de ops w d x = d x) \<Longrightarrow> disk_after de base (ops @ later) x = disk_after de base ops x"
proof (induction later rule: rev_induct)
  case (snoc w later)
  then show ?case using disk_after_snoc [of de base "ops @ later" w] by simp
qed simp

lemma demo_copy_saved:
  "disk_after demo_disk_env demo_disk (begin_ops demo_config ''7'' False @ demo_copies)
     [''o'', ''updates'', ''backups'', ''7'', ''files'', ''config.yaml''] = Some (Regular (Text ''a''))"
  by (simp add: demo_run demo_begin demo_copies_def)

lemma demo_copy_there:
  assumes "set later \<subseteq> insert (RemoveFile ''/o/config.yaml'') (set demo_trial)"
  shows "disk_after demo_disk_env demo_disk (begin_ops demo_config ''7'' False @ demo_copies @ later)
     [''o'', ''updates'', ''backups'', ''7'', ''files'', ''config.yaml''] = Some (Regular (Text ''a''))"
proof -
  have "advance demo_disk_env ops w d [''o'', ''updates'', ''backups'', ''7'', ''files'', ''config.yaml'']
      = d [''o'', ''updates'', ''backups'', ''7'', ''files'', ''config.yaml'']"
    if "w \<in> insert (RemoveFile ''/o/config.yaml'') (set demo_trial)" for ops w d
    using that by (auto simp: demo_trial_def advance_def demo_disk_env_def directories_def demo_elements)
  then have "advance demo_disk_env ops w d [''o'', ''updates'', ''backups'', ''7'', ''files'', ''config.yaml'']
      = d [''o'', ''updates'', ''backups'', ''7'', ''files'', ''config.yaml'']" if "w \<in> set later" for ops w d
    using that assms by blast
  from disk_after_quiet [OF this, where base = demo_disk and ops = "begin_ops demo_config ''7'' False @ demo_copies"]
  show ?thesis using demo_copy_saved by simp
qed

lemma demo_saved_sel: "sn_files demo_saved = [(''/o/config.yaml'', ''/o/updates/backups/7/files/config.yaml''), (''/o/one'', ''/o/updates/backups/7/files/one'')]"
  "sn_managed_files demo_saved = [''/o/config.yaml'', ''/o/myadmin.db'', ''/o/myadmin.db-wal'', ''/o/myadmin.db-shm'']"
  "sn_backup_path demo_saved = ''/o/updates/backups/7''" "sn_previous_target demo_saved = []" "\<not> sn_bundled_switch_plan demo_saved"
  "sn_target_release_path demo_saved = []" "\<not> sn_was_active demo_saved"
  by (simp_all add: demo_saved_def blank_snapshot_def)

lemma demo_host_sel: "rh_ok demo_host ops w = (\<forall>root. w \<noteq> RunPreflight root)" "rh_active demo_host ops = False"
  "rh_stat demo_host ops p = Some (map_option kind (disk_after demo_disk_env demo_disk ops (elements p)))"
  by (auto simp: disk_host_def demo_disk_env_def split: install_op.split)

lemma demo_preflight:
  "switch_release demo_host strict_env demo_config ''7'' v payload
     \<lparr>tx_ops = begin_ops demo_config ''7'' False, tx_snapshot = blank_snapshot ''7'' ''/o/updates/backups/7'' False\<rparr>
   = (Inl (HostFailed (RunPreflight ''/o/updates/backups/7/preflight'')),
      \<lparr>tx_ops = begin_ops demo_config ''7'' False @ demo_copies @ demo_trial, tx_snapshot = demo_saved\<rparr>)"
  using demo_copy_there [of "take 2 demo_trial"] set_take_subset [of 2 demo_trial]
  by (simp add: subset_insertI2 switch_release_def run_eval demo_populate transition_def preflight_def preflight_copy_def demo_saved_sel demo_host_sel
    demo_trial_def managed_names_def demo_install demo_joins demo_elements status_path_def update_root_def Let_def)

lemma demo_undone:
  "fst (rollback_update demo_host demo_config demo_saved (begin_ops demo_config ''7'' False @ demo_copies @ demo_trial)) = []"
  using demo_copy_there [of "demo_trial @ [RemoveFile ''/o/config.yaml'']"]
  by (simp add: rollback_update_def rollback_files_def restart_service_def rollback_bundled_def
    remove_target_release_def restore_file_def attempt_def demo_saved_sel demo_host_sel demo_elements)

lemma demo_begun:
  "begin_snapshot demo_host demo_config ''7'' False \<lparr>tx_ops = [], tx_snapshot = blank_snapshot [] [] False\<rparr>
   = (Inr (), \<lparr>tx_ops = begin_ops demo_config ''7'' False, tx_snapshot = blank_snapshot ''7'' ''/o/updates/backups/7'' False\<rparr>)"
  by (simp add: begin_snapshot_def write_journal_def run_eval demo_begin demo_joins backup_dir_def journal_path_def update_root_def demo_install
    disk_host_def demo_disk_env_def blank_snapshot_def)

lemma demo_rolled_back: "rp_state (install_release demo_host strict_env demo_config ''7'' ''v2'') = StateRolledBack"
proof -
  have "\<not> rh_active demo_host ops" for ops by (simp add: disk_host_def)
  then show ?thesis
    using demo_undone by (auto simp: install_release_def Let_def demo_begun install_body_def andthen_def yields_def demo_preflight
      rollback_on_failure_def split: prod.split)
qed

lemma demo_site: "site demo_config ''7''" "tame demo_disk_env demo_config ''7''" "home demo_config = [''o'']"
  "ue_semver_valid strict_env v \<Longrightarrow> CHR ''/'' \<notin> set v"
  by (simp_all add: site_def tame_def demo_disk_env_def demo_install strict_env_def demo_env_def plain_element_def path_eval)

text \<open>Before the update there are the configuration and the binary, no pointer and no scripts.\<close>

lemma demo_before:
  "disk_after demo_disk_env demo_disk (begin_ops demo_config ''7'' False) ([''o'', ''script-registry'', ''bundled''] @ r) = None"
  "disk_after demo_disk_env demo_disk (begin_ops demo_config ''7'' False) [''o'', ''updates'', ''active-transaction.json'']
     = Some (Regular (Saved (blank_snapshot ''7'' ''/o/updates/backups/7'' False)))"
  "n \<in> set managed_names \<Longrightarrow> disk_after demo_disk_env demo_disk (begin_ops demo_config ''7'' False) [''o'', n]
     = (if n = ''config.yaml'' then Some (Regular (Text ''a'')) else None)"
  by (auto simp: demo_begin demo_disk_def disk_after_def advance_def demo_disk_env_def directories_def demo_elements managed_names_def)

lemma demo_settled:
  "n \<in> set managed_names \<Longrightarrow> disk_after demo_disk_env demo_disk (begin_ops demo_config ''7'' False) (home demo_config @ [n]) = Some e
     \<Longrightarrow> \<exists>c. e = Regular c"
  "disk_after demo_disk_env demo_disk (begin_ops demo_config ''7'' False) (at_active demo_config @ r) = None"
  using demo_before(1) [of r] demo_before(3) [of n] by (auto simp: demo_site(3) split: if_splits)

lemma demo_start: "begin_ops demo_config ''7'' (rh_active demo_host []) @ stop_ops (rh_active demo_host []) = begin_ops demo_config ''7'' False"
  by (simp add: demo_host_sel)

theorem failed_update_restores_witness:
  "let ops = rp_ops (install_release demo_host strict_env demo_config ''7'' ''v2'');
       start = begin_ops demo_config ''7'' (rh_active demo_host []) @ stop_ops (rh_active demo_host []);
       orig = disk_after demo_disk_env demo_disk start
   in \<exists>back restart. ops = back @ restart @ [WriteStatus (status_path demo_config) StateRolledBack, RemoveFile (journal_path demo_config),
         RemoveAll (join_path [update_root demo_config, ''staging'', ''7''])]
     \<and> set restart \<subseteq> {StartService, WaitReady}
     \<and> (\<forall>n\<in>set managed_names. disk_after demo_disk_env demo_disk back (home demo_config @ [n]) = orig (home demo_config @ [n]))
     \<and> (orig (at_current demo_config) \<noteq> None \<longrightarrow> disk_after demo_disk_env demo_disk back (at_current demo_config) = orig (at_current demo_config))
     \<and> (\<forall>r. disk_after demo_disk_env demo_disk back (at_active demo_config @ r) = orig (at_active demo_config @ r))"
  unfolding Let_def
proof (rule failed_update_restores [OF demo_site(1) disk_host_answers demo_site(2)], unfold demo_start)
  show "rp_state (install_release demo_host strict_env demo_config ''7'' ''v2'') = StateRolledBack" by (rule demo_rolled_back)
  show "\<exists>c. e = Regular c"
    if "n \<in> set managed_names" "disk_after demo_disk_env demo_disk (begin_ops demo_config ''7'' False) (home demo_config @ [n]) = Some e" for n e
    using demo_settled(1) [OF that] .
qed (use demo_site(4) demo_settled(2) demo_host_sel(2) in auto)

abbreviation "demo_crash \<equiv> begin_ops demo_config ''7'' False @ demo_copies"

abbreviation "demo_crash_host \<equiv> disk_host demo_disk_env (disk_after demo_disk_env demo_disk demo_crash) demo_config"

theorem interrupted_update_restores_witness:
  "let orig = disk_after demo_disk_env demo_disk (begin_ops demo_config ''7'' (rh_active demo_host []) @ stop_ops (rh_active demo_host []));
       after = disk_after demo_disk_env (disk_after demo_disk_env demo_disk demo_crash)
   in \<exists>state ops. rollback_last demo_crash_host demo_config = Inr (state, ops)
     \<and> (state = StateRolledBack \<longrightarrow> (\<exists>back rest. ops = back @ rest
         \<and> set rest \<subseteq> {StartService, WaitReady, WriteStatus (status_path demo_config) StateRolledBack, RemoveFile (journal_path demo_config)}
         \<and> (\<forall>n\<in>set managed_names. after back (home demo_config @ [n]) = orig (home demo_config @ [n]))
         \<and> (orig (at_current demo_config) \<noteq> None \<longrightarrow> after back (at_current demo_config) = orig (at_current demo_config))
         \<and> (\<forall>r. after back (at_active demo_config @ r) = orig (at_active demo_config @ r))))"
  unfolding Let_def
proof (rule interrupted_update_restores [OF demo_site(1) disk_host_answers demo_site(2)], unfold demo_start)
  show "begin_snapshot demo_host demo_config ''7'' (rh_active demo_host []) \<lparr>tx_ops = [], tx_snapshot = blank_snapshot [] [] False\<rparr>
      = (Inr (), \<lparr>tx_ops = begin_ops demo_config ''7'' False, tx_snapshot = blank_snapshot ''7'' ''/o/updates/backups/7'' False\<rparr>)"
    unfolding demo_host_sel(2) by (rule demo_begun)
  show "install_body demo_host strict_env demo_config ''7'' ''v2''
      (join_path [join_path [update_root demo_config, ''staging'', ''7''], ''payload'']) (rh_active demo_host [])
      \<lparr>tx_ops = begin_ops demo_config ''7'' False, tx_snapshot = blank_snapshot ''7'' ''/o/updates/backups/7'' False\<rparr>
    = (Inl (HostFailed (RunPreflight ''/o/updates/backups/7/preflight'')), \<lparr>tx_ops = demo_crash @ demo_trial, tx_snapshot = demo_saved\<rparr>)"
    by (simp add: demo_host_sel(2) install_body_def andthen_def yields_def demo_preflight)
  show "answers demo_crash_host demo_disk_env (disk_after demo_disk_env demo_disk demo_crash) demo_config ''7''" by (rule disk_host_answers)
  show "\<exists>c. e = Regular c"
    if "n \<in> set managed_names" "disk_after demo_disk_env demo_disk (begin_ops demo_config ''7'' False) (home demo_config @ [n]) = Some e" for n e
    using demo_settled(1) [OF that] .
  show "rh_journal demo_crash_host [] = Some (Some j)"
    if "disk_after demo_disk_env demo_disk demo_crash (at_journal demo_config) = Some (Regular (Saved j))" for j
    using that by (simp add: disk_host_def)
  show "\<not> rh_active demo_crash_host []" by (simp add: disk_host_def)
qed (use demo_site(2,4) demo_settled(2) demo_host_sel(2) in auto)

end
