(* ===== verification/Net_Addr.thy ===== *)
theory Net_Addr
  imports Format Paths
begin

text \<open>
  What the services use of Go's packages \<open>net\<close> and \<open>strconv\<close>: IP addresses and networks as text
  (\<open>net.ParseIP\<close>, \<open>net.ParseCIDR\<close> over \<open>netip.ParseAddr\<close>, \<open>IP.To4\<close>, \<open>IP.String\<close>, \<open>IPNet.String\<close>) and
  \<open>strconv.Atoi\<close>.  An address is its sixteen bytes.  A zone (a per cent sign) is refused by both
  parsers, so it is refused at once.  The lemmas read a printed address back.
\<close>

section \<open>Numbers\<close>

declare of_digits.simps [simp del]

text \<open>The value and whether there was no error: 0 for a syntax error, the bound when out of range.\<close>

definition max_int :: int where
  "max_int = 9223372036854775807"

definition atoi :: "string \<Rightarrow> int \<times> bool" where
  "atoi s =
     (let negative = has_prefix s ''-'';
          ds = (if negative \<or> has_prefix s ''+'' then tl s else s);
          n = int (of_digits ds)
      in if ds = [] \<or> \<not> list_all digit ds then (0, False)
         else if negative then (if n > max_int + 1 then (- max_int - 1, False) else (- n, True))
         else if n > max_int then (max_int, False) else (n, True))"

section \<open>Addresses\<close>

definition v4_prefix :: "nat list" where
  "v4_prefix = replicate 10 0 @ [255, 255]"

definition octet :: "string \<Rightarrow> nat option" where
  "octet w =
     (if w = [] \<or> \<not> list_all digit w \<or> (length w > 1 \<and> hd w = CHR ''0'') \<or> of_digits w > 255 then None
      else Some (of_digits w))"

definition ipv4_fields :: "string \<Rightarrow> nat list option" where
  "ipv4_fields s =
     (case map octet (split_on CHR ''.'' s) of
        [Some a, Some b, Some c, Some d] \<Rightarrow> Some [a, b, c, d]
      | _ \<Rightarrow> None)"

definition hex_digit :: "char \<Rightarrow> nat option" where
  "hex_digit c =
     (let n = ord c in
      if 48 \<le> n \<and> n \<le> 57 then Some (n - 48)
      else if 97 \<le> n \<and> n \<le> 102 then Some (n - 87)
      else if 65 \<le> n \<and> n \<le> 70 then Some (n - 55)
      else None)"

definition of_hex :: "string \<Rightarrow> nat" where
  "of_hex ds = foldl (\<lambda>n c. 16 * n + the (hex_digit c)) 0 ds"

text \<open>
  The loop of the IPv6 parser: groups still free, the text left, the bytes so far and where the
  ellipsis stands.
\<close>

fun ipv6_groups :: "nat \<Rightarrow> string \<Rightarrow> nat list \<Rightarrow> nat option \<Rightarrow> (nat list \<times> nat option \<times> string) option" where
  "ipv6_groups 0 s ip ellipsis = Some (ip, ellipsis, s)"
| "ipv6_groups (Suc n) s ip ellipsis =
     (let run = takeWhile (\<lambda>c. hex_digit c \<noteq> None) s;
          rest = drop (length run) s;
          ip' = ip @ [of_hex run div 256, of_hex run mod 256]
      in if run = [] \<or> length run > 4 then None
         else if has_prefix rest ''.'' then
           (if ellipsis = None \<and> length ip \<noteq> 12 \<or> length ip + 4 > 16 then None
            else map_option (\<lambda>f. (ip @ f, ellipsis, [])) (ipv4_fields s))
         else if rest = [] then Some (ip', ellipsis, [])
         else if \<not> has_prefix rest '':'' \<or> length rest = 1 then None
         else if has_prefix (tl rest) '':'' then
           (if ellipsis \<noteq> None then None
            else if length rest = 2 then Some (ip', Some (length ip'), [])
            else ipv6_groups n (drop 2 rest) ip' (Some (length ip')))
         else ipv6_groups n (tl rest) ip' ellipsis)"

definition fill_ellipsis :: "nat list \<times> nat option \<times> string \<Rightarrow> nat list option" where
  "fill_ellipsis = (\<lambda>(ip, ellipsis, s).
     if s \<noteq> [] then None
     else if length ip < 16 then map_option (\<lambda>e. take e ip @ replicate (16 - length ip) 0 @ drop e ip) ellipsis
     else if ellipsis \<noteq> None then None
     else Some ip)"

definition ipv6_bytes :: "string \<Rightarrow> nat list option" where
  "ipv6_bytes s =
     (if s = ''::'' then Some (replicate 16 0)
      else Option.bind (if has_prefix s ''::'' then ipv6_groups 8 (drop 2 s) [] (Some 0) else ipv6_groups 8 s [] None)
             fill_ellipsis)"

text \<open>The first of the separators decides; the flag says that the text is that of an IPv4 address.\<close>

definition parse_addr :: "string \<Rightarrow> (bool \<times> nat list) option" where
  "parse_addr s =
     (if CHR ''%'' \<in> set s then None
      else (case find (\<lambda>c. c = CHR ''.'' \<or> c = CHR '':'') s of
              None \<Rightarrow> None
            | Some c \<Rightarrow>
                if c = CHR ''.'' then map_option (\<lambda>f. (True, v4_prefix @ f)) (ipv4_fields s)
                else map_option (Pair False) (ipv6_bytes s)))"

definition parse_ip :: "string \<Rightarrow> nat list option" where
  "parse_ip s = map_option snd (parse_addr s)"

definition to4 :: "nat list \<Rightarrow> nat list option" where
  "to4 ip = (if take 12 ip = v4_prefix then Some (drop 12 ip) else None)"

definition is_loopback :: "nat list \<Rightarrow> bool" where
  "is_loopback ip = (case to4 ip of Some f \<Rightarrow> f ! 0 = 127 | None \<Rightarrow> ip = replicate 15 0 @ [1])"

definition is_private :: "nat list \<Rightarrow> bool" where
  "is_private ip =
     (case to4 ip of
        Some f \<Rightarrow> f ! 0 = 10 \<or> f ! 0 = 172 \<and> f ! 1 div 16 = 1 \<or> f ! 0 = 192 \<and> f ! 1 = 168
      | None \<Rightarrow> ip ! 0 div 2 = 126)"

definition is_unspecified :: "nat list \<Rightarrow> bool" where
  "is_unspecified ip \<longleftrightarrow> ip = v4_prefix @ [0, 0, 0, 0] \<or> ip = replicate 16 0"

section \<open>Printing\<close>

definition format_ip4 :: "nat list \<Rightarrow> string" where
  "format_ip4 f = join_with CHR ''.'' (map decimal f)"

fun hex_text :: "nat \<Rightarrow> string" where
  "hex_text n = (if n < 16 then [''0123456789abcdef'' ! n] else hex_text (n div 16) @ [''0123456789abcdef'' ! (n mod 16)])"

declare hex_text.simps [simp del]

fun groups_of :: "nat list \<Rightarrow> nat list" where
  "groups_of (a # b # bs) = (256 * a + b) # groups_of bs"
| "groups_of _ = []"

text \<open>The first longest run of at least two zero groups: where it starts and its length.\<close>

definition zero_run :: "nat list \<Rightarrow> nat \<times> nat" where
  "zero_run gs =
     fold (\<lambda>i (start, len). let l = length (takeWhile (\<lambda>g. g = 0) (drop i gs)) in
             if l \<ge> 2 \<and> l > len then (i, l) else (start, len))
       [0..<length gs] (0, 0)"

definition format_ip6 :: "nat list \<Rightarrow> string" where
  "format_ip6 ip =
     (let gs = groups_of ip in
      case zero_run gs of (start, len) \<Rightarrow>
        if len = 0 then join_with CHR '':'' (map hex_text gs)
        else join_with CHR '':'' (map hex_text (take start gs)) @ ''::''
             @ join_with CHR '':'' (map hex_text (drop (start + len) gs)))"

section \<open>Networks\<close>

definition mask_byte :: "nat \<Rightarrow> nat \<Rightarrow> nat" where
  "mask_byte keep b = b div 2 ^ (8 - keep) * 2 ^ (8 - keep)"

text \<open>The first \<open>n\<close> bits.\<close>

fun mask_bytes :: "nat \<Rightarrow> nat list \<Rightarrow> nat list" where
  "mask_bytes n [] = []"
| "mask_bytes n (b # bs) = mask_byte (min 8 n) b # mask_bytes (n - 8) bs"

text \<open>The address before the slash, and the text of the network.\<close>

definition parse_cidr :: "string \<Rightarrow> (nat list \<times> string) option" where
  "parse_cidr s =
     (let addr = takeWhile (\<lambda>c. c \<noteq> CHR ''/'') s;
          mask = drop (Suc (length addr)) s
      in if CHR ''/'' \<notin> set s then None
         else (case parse_addr addr of
                 None \<Rightarrow> None
               | Some (four, ip) \<Rightarrow>
                   let n = of_digits mask in
                   if mask = [] \<or> \<not> list_all digit mask \<or> n > (if four then 32 else 128) then None
                   else let network = mask_bytes (if four then n + 96 else n) ip in
                        Some (ip, case to4 network of
                                    Some f \<Rightarrow> format_ip4 f @ CHR ''/'' # decimal (if four then n else n - 96)
                                  | None \<Rightarrow> format_ip6 network @ CHR ''/'' # decimal n)))"

section \<open>Reading back\<close>

lemma decimal_no: "\<not> digit c \<Longrightarrow> c \<notin> set (decimal n)"
  using decimal_digits [of n] by blast

lemma decimal_all_digits: "list_all digit (decimal n)"
  using decimal_digits [of n] unfolding list_all_iff by blast

lemma decimal_leading: "1 < length (decimal n) \<Longrightarrow> hd (decimal n) \<noteq> CHR ''0''"
proof (induction n rule: decimal.induct)
  case (1 n)
  show ?case
  proof (cases "n < 10")
    case True
    then show ?thesis using 1(2) by (simp add: decimal.simps [of n])
  next
    case False
    then have eq: "decimal n = decimal (n div 10) @ [digit_char (n mod 10)]" by (subst decimal.simps) simp
    have hd: "hd (decimal n) = hd (decimal (n div 10))" using eq decimal_not_Nil by simp
    show ?thesis
    proof (cases "n div 10 < 10")
      case True
      then have "decimal (n div 10) = [digit_char (n div 10)]" by (subst decimal.simps) simp
      moreover have "0 < n div 10" using False by (simp add: div_greater_zero_iff)
      ultimately show ?thesis using digit_char_ord [OF True] hd by auto
    next
      case big: False
      then have "1 < length (decimal (n div 10))" by (subst decimal.simps) (auto simp: decimal_not_Nil Suc_lessI)
      then show ?thesis using 1(1) [OF False] hd by simp
    qed
  qed
qed

lemma octet_decimal: "octet (decimal n) = (if n > 255 then None else Some n)"
  using decimal_not_Nil [of n] decimal_all_digits [of n] decimal_leading [of n] unfolding octet_def of_digits_decimal by (auto simp del: set_simps)

lemma octet_bound: "octet w = Some n \<Longrightarrow> n \<le> 255"
  by (auto simp: octet_def split: if_splits)

lemma atoi_decimal: "n \<le> 65535 \<Longrightarrow> atoi (decimal n) = (int n, True)"
proof -
  assume n: "n \<le> 65535"
  have sign: "\<not> has_prefix (decimal n) ''-''" "\<not> has_prefix (decimal n) ''+''"
    using decimal_no [of "CHR ''-''" n] decimal_no [of "CHR ''+''" n] by (auto simp: prefix_def)
  show ?thesis
    using decimal_not_Nil [of n] decimal_all_digits [of n] n unfolding atoi_def Let_def
    by (simp add: sign of_digits_decimal max_int_def del: set_simps)
qed

definition quad :: "nat list \<Rightarrow> bool" where
  "quad f \<longleftrightarrow> length f = 4 \<and> list_all (\<lambda>n. n \<le> 255) f"

lemma quad_cases:
  assumes "quad f"
  obtains a b c d where "f = [a, b, c, d]" "a \<le> 255" "b \<le> 255" "c \<le> 255" "d \<le> 255"
proof -
  have "length f = Suc (Suc (Suc (Suc 0)))" using assms by (simp add: quad_def)
  then obtain a b c d where "f = [a, b, c, d]" by (auto simp: length_Suc_conv)
  then show ?thesis using that assms by (simp add: quad_def)
qed

lemma ipv4_fields_quad: "ipv4_fields s = Some f \<Longrightarrow> quad f"
  by (auto simp: ipv4_fields_def quad_def dest!: octet_bound split: list.splits option.splits)

lemma format_ip4_parts: "f \<noteq> [] \<Longrightarrow> split_on CHR ''.'' (format_ip4 f) = map decimal f"
  unfolding format_ip4_def by (rule split_join) (auto simp: list_all_iff decimal_no)

lemma ipv4_fields_format: "quad f \<Longrightarrow> ipv4_fields (format_ip4 f) = Some f"
proof -
  assume q: "quad f"
  then obtain a b c d where f: "f = [a, b, c, d]" by (rule quad_cases)
  have "f \<noteq> []" by (simp add: f)
  then show ?thesis using q unfolding ipv4_fields_def format_ip4_parts [OF \<open>f \<noteq> []\<close>] by (simp add: f quad_def octet_decimal)
qed

end
