(* ===== verification/Firewall_Rules.thy ===== *)
theory Firewall_Rules
  imports Net_Addr Json "HOL-Library.List_Lexorder" "HOL-Library.Char_ord"
begin

text \<open>
  Firewall rules (\<open>internal/models/iptables.go\<close>, \<open>internal/services/safe/validation.go\<close> and the pure
  part of \<open>backend.go\<close>): the row of a rule, its normalisation, and the commands that install and
  remove it on the three supported firewalls.
\<close>

section \<open>Data\<close>

declare of_digits.simps [simp del]

record iptables_rule =
  ir_id :: int
  ir_rule_type :: string
  ir_direction :: string
  ir_protocol :: string
  ir_strategy :: string
  ir_ips :: string
  ir_ports :: string
  ir_state :: int
  ir_remark :: string
  ir_location :: string
  ir_expires_at :: "time option"
  ir_backend :: string
  ir_token :: string
  ir_protected :: bool

record normalized_rule =
  nr_rule_type :: string
  nr_direction :: string
  nr_protocol :: string
  nr_strategy :: string
  nr_ips :: "string list"
  nr_ports :: "string list"
  nr_remark :: string
  nr_location :: string
  nr_expires_at :: "time option"
  nr_state :: int

datatype rule_fault = BadRuleType | BadDirection | BadProtocol | BadStrategy | LongRemark | LongLocation
  | NoRegion | PastExpiry | BadAddress | PortsNotAllowed | EmptyPort | BadPortFormat | BadPort | BadPortRange
  | TooManyParts | BlocksEverything | BlocksPanel

text \<open>
  What validation takes from its surroundings: Unicode case mapping, and \<open>sort.Slice\<close> with the
  order on start ports, which leaves the order of values with the same start open.
\<close>

record rule_env =
  re_lower :: casemap
  re_sort_ports :: "string list \<Rightarrow> string list"

section \<open>Values\<close>

definition split_values :: "string \<Rightarrow> string list" where
  "split_values raw = filter (\<lambda>v. v \<noteq> []) (map trim_space (split_on CHR '','' raw))"

abbreviation "all_ipv4 \<equiv> ''0.0.0.0/0''"

text \<open>\<open>strings.EqualFold(value, "any")\<close>: none of the three letters folds with one outside ASCII.\<close>

definition normalize_ip :: "string \<Rightarrow> rule_fault + string" where
  "normalize_ip v =
     (if map lower_char v = ''any'' \<or> v = all_ipv4 then Inr all_ipv4
      else if CHR ''/'' \<in> set v then
        (case parse_cidr v of
           Some (ip, network) \<Rightarrow> if to4 ip = None then Inl BadAddress else Inr network
         | None \<Rightarrow> Inl BadAddress)
      else
        (case Option.bind (parse_ip v) to4 of
           Some f \<Rightarrow> Inr (format_ip4 f)
         | None \<Rightarrow> Inl BadAddress))"

text \<open>A loop that stops at the first error; duplicates are dropped, the first one stays.\<close>

fun collect :: "('x \<Rightarrow> 'e + 'v) \<Rightarrow> 'x list \<Rightarrow> 'e + 'v list" where
  "collect f [] = Inr []"
| "collect f (x # xs) =
     (case f x of
        Inl e \<Rightarrow> Inl e
      | Inr v \<Rightarrow> (case collect f xs of Inl e \<Rightarrow> Inl e | Inr vs \<Rightarrow> Inr (v # vs)))"

definition unique_values :: "string list \<Rightarrow> string list" where
  "unique_values vs = rev (remdups (rev vs))"

definition normalize_ips :: "string \<Rightarrow> rule_fault + string list" where
  "normalize_ips raw =
     (if split_values raw = [] then Inr [all_ipv4]
      else (case collect normalize_ip (split_values raw) of
              Inl e \<Rightarrow> Inl e
            | Inr vs \<Rightarrow> Inr (sort (unique_values vs))))"

definition normalize_port :: "string \<Rightarrow> rule_fault + string" where
  "normalize_port v =
     (let segments = split_on CHR ''-'' v in
      if length segments > 2 then Inl BadPortFormat
      else case atoi (trim_space (segments ! 0)) of (start, ok) \<Rightarrow>
        if \<not> ok \<or> start < 1 \<or> start > 65535 then Inl BadPort
        else if length segments = 2 then
          (case atoi (trim_space (segments ! 1)) of (stop, ok) \<Rightarrow>
             if \<not> ok \<or> stop < start \<or> stop > 65535 then Inl BadPortRange
             else if stop \<noteq> start then Inr (format_int start @ CHR ''-'' # format_int stop)
             else Inr (format_int start))
        else Inr (format_int start))"

definition normalize_ports :: "rule_env \<Rightarrow> string \<Rightarrow> string \<Rightarrow> rule_fault + string list" where
  "normalize_ports env raw protocol =
     (let parts = map trim_space (split_on CHR '','' raw) in
      if trim_space raw = [] then Inr []
      else if protocol = ''icmp'' \<or> protocol = ''all'' then Inl PortsNotAllowed
      else if [] \<in> set parts then Inl EmptyPort
      else (case collect normalize_port parts of
              Inl e \<Rightarrow> Inl e
            | Inr vs \<Rightarrow> Inr (re_sort_ports env (unique_values vs))))"

definition port_bounds :: "string \<Rightarrow> int \<times> int" where
  "port_bounds v =
     (let segments = split_on CHR ''-'' v;
          start = fst (atoi (segments ! 0))
      in (start, if length segments = 2 then fst (atoi (segments ! 1)) else start))"

definition port_set_contains :: "string list \<Rightarrow> int \<Rightarrow> bool" where
  "port_set_contains ports port \<longleftrightarrow>
     ports = [] \<or> list_ex (\<lambda>v. case port_bounds v of (start, stop) \<Rightarrow> start \<le> port \<and> port \<le> stop) ports"

definition contains_all_ipv4 :: "string list \<Rightarrow> bool" where
  "contains_all_ipv4 ips \<longleftrightarrow> list_ex (\<lambda>v. v = all_ipv4) ips"

section \<open>Normalisation\<close>

text \<open>The caller's rule loses its ports when it is not a port rule, whatever follows.\<close>

definition rule_kind :: "rule_env \<Rightarrow> iptables_rule \<Rightarrow> string" where
  "rule_kind env rule =
     (let k = to_lower (re_lower env) (trim_space (ir_rule_type rule)) in if k = [] then ''port'' else k)"

definition clear_ports :: "rule_env \<Rightarrow> iptables_rule \<Rightarrow> iptables_rule" where
  "clear_ports env rule =
     (if rule_kind env rule \<in> {''ip'', ''region'', ''auto_block''} then rule\<lparr>ir_ports := []\<rparr> else rule)"

definition blocks_panel :: "normalized_rule \<Rightarrow> int \<Rightarrow> bool" where
  "blocks_panel nr panel_port \<longleftrightarrow>
     nr_direction nr = ''in'' \<and> nr_strategy nr = ''deny'' \<and> (nr_protocol nr = ''tcp'' \<or> nr_protocol nr = ''udp'')
     \<and> port_set_contains (nr_ports nr) panel_port"

definition blocks_everything :: "normalized_rule \<Rightarrow> bool" where
  "blocks_everything nr \<longleftrightarrow>
     nr_direction nr = ''in'' \<and> nr_strategy nr = ''deny'' \<and> nr_protocol nr = ''all'' \<and> contains_all_ipv4 (nr_ips nr)"

definition normalize_rule :: "rule_env \<Rightarrow> time \<Rightarrow> int \<Rightarrow> iptables_rule \<Rightarrow> rule_fault + normalized_rule" where
  "normalize_rule env now panel_port rule =
     (let lower = (\<lambda>s. to_lower (re_lower env) (trim_space s));
          kind = rule_kind env rule;
          direction = (if kind = ''port'' then lower (ir_direction rule) else ''in'');
          protocol = (if kind = ''port'' then lower (ir_protocol rule) else ''all'');
          strategy = lower (ir_strategy rule);
          remark = trim_space (ir_remark rule);
          location = trim_space (ir_location rule)
      in if kind \<notin> {''port'', ''ip'', ''region'', ''auto_block''} then Inl BadRuleType
         else if direction \<noteq> ''in'' \<and> direction \<noteq> ''out'' then Inl BadDirection
         else if protocol \<notin> {''tcp'', ''udp'', ''icmp'', ''all''} then Inl BadProtocol
         else if strategy \<noteq> ''allow'' \<and> strategy \<noteq> ''deny'' then Inl BadStrategy
         else if length (runes remark) > 200 then Inl LongRemark
         else if length (runes location) > 128 then Inl LongLocation
         else if kind = ''region'' \<and> location = [] then Inl NoRegion
         else if (case ir_expires_at rule of Some t \<Rightarrow> \<not> now < t | None \<Rightarrow> False) then Inl PastExpiry
         else (case normalize_ips (ir_ips rule) of
                 Inl e \<Rightarrow> Inl e
               | Inr ips \<Rightarrow>
                   (case normalize_ports env (if kind = ''port'' then ir_ports rule else []) protocol of
                      Inl e \<Rightarrow> Inl e
                    | Inr ports \<Rightarrow>
                        let nr = \<lparr>nr_rule_type = kind, nr_direction = direction, nr_protocol = protocol,
                                  nr_strategy = strategy, nr_ips = ips, nr_ports = ports, nr_remark = remark,
                                  nr_location = location, nr_expires_at = ir_expires_at rule,
                                  nr_state = (if ir_state rule \<noteq> 0 then 1 else 0)\<rparr>
                        in if length ips * max 1 (length ports) > 100 then Inl TooManyParts
                           else if blocks_everything nr then Inl BlocksEverything
                           else if blocks_panel nr panel_port then Inl BlocksPanel
                           else Inr nr)))"

definition apply_normalized :: "iptables_rule \<Rightarrow> normalized_rule \<Rightarrow> iptables_rule" where
  "apply_normalized rule nr =
     rule\<lparr>ir_rule_type := nr_rule_type nr, ir_direction := nr_direction nr, ir_protocol := nr_protocol nr,
          ir_strategy := nr_strategy nr, ir_ips := join_with CHR '','' (nr_ips nr),
          ir_ports := join_with CHR '','' (nr_ports nr), ir_remark := nr_remark nr, ir_location := nr_location nr,
          ir_expires_at := nr_expires_at nr, ir_state := nr_state nr\<rparr>"

definition validate_rule :: "rule_env \<Rightarrow> time \<Rightarrow> int \<Rightarrow> iptables_rule \<Rightarrow> rule_fault + unit" where
  "validate_rule env now panel_port rule =
     (case normalize_rule env now panel_port rule of Inl e \<Rightarrow> Inl e | Inr _ \<Rightarrow> Inr ())"

definition describe_ip_location :: "string \<Rightarrow> string" where
  "describe_ip_location raw =
     (case split_values raw of
        [] \<Rightarrow> utf8 [0x5168, 0x90E8] @ '' IPv4''
      | [v] \<Rightarrow>
          if v = all_ipv4 then utf8 [0x5168, 0x90E8] @ '' IPv4''
          else (case parse_ip (takeWhile (\<lambda>c. c \<noteq> CHR ''/'') v) of
                  None \<Rightarrow> utf8 [0x672A, 0x77E5]
                | Some ip \<Rightarrow>
                    if is_loopback ip then utf8 [0x672C, 0x673A]
                    else if is_private ip then utf8 [0x5185, 0x7F51]
                    else utf8 [0x516C, 0x7F51, 0x5730, 0x5740])
      | _ \<Rightarrow> utf8 [0x591A, 0x4E2A, 0x5730, 0x5740])"

definition normalize_stored_rule :: "iptables_rule \<Rightarrow> iptables_rule" where
  "normalize_stored_rule rule =
     rule\<lparr>ir_rule_type := (if ir_rule_type rule = [] then ''port'' else ir_rule_type rule),
          ir_location := (if ir_location rule = [] then describe_ip_location (ir_ips rule) else ir_location rule)\<rparr>"

section \<open>Commands\<close>

record command_operation =
  co_name :: string
  co_args :: "string list"
  co_undo_name :: string
  co_undo_args :: "string list"

abbreviation "BackendNone \<equiv> ''none''"
abbreviation "BackendUFW \<equiv> ''ufw''"
abbreviation "BackendFirewalld \<equiv> ''firewalld''"
abbreviation "BackendIPTables \<equiv> ''iptables''"

definition expanded_values :: "iptables_rule \<Rightarrow> string list \<times> string list" where
  "expanded_values rule =
     (let ips = split_values (ir_ips rule);
          ports = split_values (ir_ports rule)
      in (if ips = [] then [all_ipv4] else ips, if ports = [] then [[]] else ports))"

text \<open>The two nested loops over addresses and ports.\<close>

definition for_each_pair :: "iptables_rule \<Rightarrow> (string \<Rightarrow> string \<Rightarrow> command_operation) \<Rightarrow> command_operation list" where
  "for_each_pair rule f =
     (case expanded_values rule of (ips, ports) \<Rightarrow> concat (map (\<lambda>ip. map (f ip) ports) ips))"

definition ufw_address :: "string \<Rightarrow> string" where
  "ufw_address v = (if v = all_ipv4 then ''any'' else v)"

definition colon_range :: "string \<Rightarrow> string" where
  "colon_range port = map (\<lambda>c. if c = CHR ''-'' then CHR '':'' else c) port"

abbreviation has_port :: "iptables_rule \<Rightarrow> string \<Rightarrow> bool" where
  "has_port rule port \<equiv> ir_protocol rule \<noteq> ''icmp'' \<and> ir_protocol rule \<noteq> ''all'' \<and> port \<noteq> []"

definition ufw_rule_operations :: "iptables_rule \<Rightarrow> command_operation list" where
  "ufw_rule_operations rule =
     for_each_pair rule (\<lambda>ip port.
       let args = [ir_strategy rule, ir_direction rule]
             @ (if ir_direction rule = ''in'' then [''from'', ufw_address ip, ''to'', ''any''] else [''to'', ufw_address ip])
             @ (if has_port rule port then [''port'', colon_range port] else [])
             @ (if ir_protocol rule \<noteq> ''all'' then [''proto'', ir_protocol rule] else [])
       in \<lparr>co_name = ''ufw'', co_args = args @ (if ir_token rule \<noteq> [] then [''comment'', ''oneinstack:'' @ ir_token rule] else []),
           co_undo_name = ''ufw'', co_undo_args = [''--force'', ''delete''] @ args\<rparr>)"

definition quoted :: "string \<Rightarrow> string" where
  "quoted v = [CHR 0x22] @ v @ [CHR 0x22]"

definition firewalld_rich_rule :: "iptables_rule \<Rightarrow> string \<Rightarrow> string \<Rightarrow> string" where
  "firewalld_rich_rule rule ip port =
     join_with CHR '' ''
       ([''rule family='' @ quoted ''ipv4'']
        @ (if ip \<noteq> all_ipv4
           then [(if ir_direction rule = ''out'' then ''destination'' else ''source'') @ '' address='' @ quoted ip] else [])
        @ (if ir_protocol rule = ''all'' then []
           else if ir_protocol rule = ''icmp'' then [''protocol value='' @ quoted ''icmp'']
           else if port = [] then [''protocol value='' @ quoted (ir_protocol rule)]
           else [''port port='' @ quoted port @ '' protocol='' @ quoted (ir_protocol rule)])
        @ [if ir_strategy rule = ''allow'' then ''accept'' else ''drop''])"

abbreviation target_of :: "iptables_rule \<Rightarrow> string" where
  "target_of rule \<equiv> if ir_strategy rule = ''deny'' then ''DROP'' else ''ACCEPT''"

abbreviation comment_args :: "iptables_rule \<Rightarrow> string list" where
  "comment_args rule \<equiv>
     if ir_token rule \<noteq> [] then [''-m'', ''comment'', ''--comment'', ''oneinstack:'' @ ir_token rule] else []"

definition firewalld_direct_operations :: "iptables_rule \<Rightarrow> string \<Rightarrow> bool \<Rightarrow> command_operation list" where
  "firewalld_direct_operations rule command permanent =
     for_each_pair rule (\<lambda>ip port.
       let rest = [''ipv4'', ''filter'', ''OUTPUT'', ''0'']
             @ (if ir_protocol rule \<noteq> ''all'' then [''-p'', ir_protocol rule] else []) @ [''-d'', ip]
             @ (if has_port rule port then [''--dport'', colon_range port] else [])
             @ comment_args rule @ [''-j'', target_of rule];
           kept = (if permanent then [''--permanent''] else [])
       in \<lparr>co_name = command, co_args = kept @ [''--direct'', ''--add-rule''] @ rest,
           co_undo_name = command, co_undo_args = kept @ [''--direct'', ''--remove-rule''] @ rest\<rparr>)"

definition firewalld_rule_operations :: "iptables_rule \<Rightarrow> string \<Rightarrow> bool \<Rightarrow> command_operation list" where
  "firewalld_rule_operations rule command permanent =
     (if ir_direction rule = ''out'' then firewalld_direct_operations rule command permanent
      else for_each_pair rule (\<lambda>ip port.
             let kept = (if permanent then [''--permanent''] else []) in
             \<lparr>co_name = command, co_args = kept @ [''--add-rich-rule='' @ firewalld_rich_rule rule ip port],
              co_undo_name = command, co_undo_args = kept @ [''--remove-rich-rule='' @ firewalld_rich_rule rule ip port]\<rparr>))"

text \<open>The rule without the action: what is appended, deleted or looked for.\<close>

definition iptables_spec :: "iptables_rule \<Rightarrow> string \<Rightarrow> string \<Rightarrow> string list" where
  "iptables_spec rule ip port =
     (if ir_direction rule = ''out'' then [''OUTPUT''] else [''INPUT''])
     @ (if ir_protocol rule \<noteq> ''all'' then [''-p'', ir_protocol rule] else [])
     @ [if ir_direction rule = ''out'' then ''-d'' else ''-s'', ip]
     @ (if has_port rule port then [''--dport'', colon_range port] else [])
     @ comment_args rule @ [''-j'', target_of rule]"

definition iptables_rule_operations :: "iptables_rule \<Rightarrow> command_operation list" where
  "iptables_rule_operations rule =
     for_each_pair rule (\<lambda>ip port.
       \<lparr>co_name = ''iptables'', co_args = ''-A'' # iptables_spec rule ip port,
        co_undo_name = ''iptables'', co_undo_args = ''-D'' # iptables_spec rule ip port\<rparr>)"

definition reverse_operation :: "command_operation \<Rightarrow> command_operation" where
  "reverse_operation c =
     \<lparr>co_name = co_undo_name c, co_args = co_undo_args c, co_undo_name = co_name c, co_undo_args = co_args c\<rparr>"

definition reverse_operations :: "command_operation list \<Rightarrow> command_operation list" where
  "reverse_operations ops = map reverse_operation (rev ops)"

definition parse_panel_port :: "string \<Rightarrow> int" where
  "parse_panel_port raw =
     (case atoi (trim_space raw) of (port, ok) \<Rightarrow> if \<not> ok \<or> port < 1 \<or> port > 65535 then 8089 else port)"

text \<open>\<open>NewService\<close>\<close>

definition service_port :: "int \<Rightarrow> int" where
  "service_port panel_port = (if panel_port < 1 \<or> panel_port > 65535 then 8089 else panel_port)"

end
