(* ===== verification/Firewall.thy ===== *)
theory Firewall
  imports Firewall_Rules Engine
begin

text \<open>
  The firewall service (\<open>internal/services/safe\<close>): rules are kept in a table and installed on the
  host with commands; a step that fails is compensated by undoing the commands before it.  The
  host is a parameter: a state of any type, and what the programs, the clock, the random source
  and the UFW rules file answer in it.  \<open>fw_missed\<close> observes the run and has no part in it: a call
  whose error the code ignores has failed.
\<close>

section \<open>State\<close>

record port_forward =
  pf_id :: int
  pf_protocol :: string
  pf_source_port :: int
  pf_destination_ip :: string
  pf_destination_port :: int
  pf_state :: int
  pf_remark :: string
  pf_backend :: string

record auto_block_config =
  ab_enabled :: bool
  ab_threshold :: int
  ab_window_minutes :: int
  ab_ban_minutes :: int
  ab_last_run_at :: "time option"

record 'h firewall =
  fw_rules :: "iptables_rule list"
  fw_last :: int
  fw_forwards :: "port_forward list"
  fw_last_forward :: int
  fw_auto :: "auto_block_config option"
  fw_migration :: "(string \<times> string) option"
  fw_host :: 'h
  fw_missed :: bool

record 'h firewall_env =
  fe_rules :: rule_env
  fe_panel_port :: int
  fe_look :: "'h \<Rightarrow> string \<Rightarrow> bool"
  fe_run :: "'h \<Rightarrow> string \<Rightarrow> string list \<Rightarrow> (bool \<times> string) \<times> 'h"
  fe_now :: "'h \<Rightarrow> time \<times> 'h"
  fe_uuid :: "'h \<Rightarrow> string \<times> 'h"
  fe_ufw_read :: "'h \<Rightarrow> string option"
  fe_ufw_stat :: "'h \<Rightarrow> bool"
  fe_ufw_write :: "'h \<Rightarrow> string \<Rightarrow> bool \<times> 'h"
  fe_failed_logins :: "string \<Rightarrow> string list"
  fe_range :: "string list \<Rightarrow> string list"

datatype fw_error = InvalidRule rule_fault | InvalidInput string | RuleNotFound | DatabaseFailed | ErrProtected
  | ErrUnsupported | CommandFailed | FileFailed | ErrAutoBlockDisabled

type_synonym ('h, 'a) fw_act = "('h firewall, fw_error, 'a) act"

section \<open>Calls\<close>

definition host_call :: "('h \<Rightarrow> 'a \<times> 'h) \<Rightarrow> ('h, 'a) fw_act" where
  "host_call f s = (case f (fw_host (tables s)) of (a, h) \<Rightarrow> (Inr a, s\<lparr>tables := (tables s)\<lparr>fw_host := h\<rparr>\<rparr>))"

definition look_path :: "'h firewall_env \<Rightarrow> string \<Rightarrow> ('h, bool) fw_act" where
  "look_path env name = host_call (\<lambda>h. (fe_look env h name, h))"

definition run_program :: "'h firewall_env \<Rightarrow> string \<Rightarrow> string list \<Rightarrow> ('h, bool \<times> string) fw_act" where
  "run_program env name args = host_call (\<lambda>h. fe_run env h name args)"

definition command :: "'h firewall_env \<Rightarrow> string \<Rightarrow> string list \<Rightarrow> ('h, unit) fw_act" where
  "command env name args = bnd (run_program env name args) (\<lambda>(ok, out). if ok then ret () else throw CommandFailed)"

text \<open>An error that is ignored, and one that is returned after a compensation.\<close>

definition ignored :: "('h, 'a) fw_act \<Rightarrow> ('h, unit) fw_act" where
  "ignored m s =
     (case m s of
        (Inr _, s') \<Rightarrow> (Inr (), s')
      | (Inl _, s') \<Rightarrow> (Inr (), s'\<lparr>tables := (tables s')\<lparr>fw_missed := True\<rparr>\<rparr>))"

definition on_error :: "('h, 'a) fw_act \<Rightarrow> ('h, unit) fw_act \<Rightarrow> ('h, 'a) fw_act" where
  "on_error m compensate s =
     (case m s of
        (Inr a, s') \<Rightarrow> (Inr a, s')
      | (Inl e, s') \<Rightarrow> bnd compensate (\<lambda>_. throw e) s')"

text \<open>The result of a call is looked at, error or not.\<close>

definition outcome :: "('h, 'a) fw_act \<Rightarrow> (fw_error + 'a \<Rightarrow> ('h, 'b) fw_act) \<Rightarrow> ('h, 'b) fw_act" where
  "outcome m f s = (case m s of (r, s') \<Rightarrow> f r s')"

definition if_so :: "bool \<Rightarrow> ('h, unit) fw_act \<Rightarrow> ('h, unit) fw_act" where
  "if_so b m = (if b then m else ret ())"

text \<open>\<open>time.Now()\<close> is read only for a rule that expires.\<close>

definition normalized :: "'h firewall_env \<Rightarrow> iptables_rule \<Rightarrow> ('h, normalized_rule) fw_act" where
  "normalized env rule =
     bnd (if ir_expires_at rule = None then ret 0 else host_call (fe_now env)) (\<lambda>now.
     case normalize_rule (fe_rules env) now (fe_panel_port env) rule of
       Inl e \<Rightarrow> throw (InvalidRule e)
     | Inr nr \<Rightarrow> ret nr)"

section \<open>Backends\<close>

record backend_state =
  bs_name :: string
  bs_installed :: bool
  bs_enabled :: bool
  bs_persistent :: bool
  bs_can_toggle :: bool
  bs_repair_required :: bool

definition detect_ufw :: "'h firewall_env \<Rightarrow> ('h, backend_state list) fw_act" where
  "detect_ufw env =
     bnd (look_path env ''ufw'') (\<lambda>found.
     if \<not> found then ret []
     else bnd (run_program env ''ufw'' [''status'']) (\<lambda>(ok, out).
            ret [\<lparr>bs_name = BackendUFW, bs_installed = True, bs_enabled = (ok \<and> sublist ''Status: active'' out),
                  bs_persistent = True, bs_can_toggle = True, bs_repair_required = False\<rparr>]))"

definition detect_firewalld :: "'h firewall_env \<Rightarrow> ('h, backend_state list) fw_act" where
  "detect_firewalld env =
     bnd (look_path env ''firewall-cmd'') (\<lambda>found.
     if \<not> found then ret []
     else bnd (run_program env ''firewall-cmd'' [''--state'']) (\<lambda>(running, out).
          bnd (if running then ret False
               else bnd (look_path env ''firewall-offline-cmd'') (\<lambda>offline.
                    if \<not> offline then ret False
                    else bnd (run_program env ''firewall-offline-cmd'' [''--check-config'']) (\<lambda>(ok, out). ret (\<not> ok)))) (\<lambda>repair.
          bnd (bnd (look_path env ''systemctl'') (\<lambda>systemd.
               if \<not> systemd then ret False
               else bnd (run_program env ''systemctl'' [''show-environment'']) (\<lambda>(ok, out). ret ok))) (\<lambda>toggle.
          ret [\<lparr>bs_name = BackendFirewalld, bs_installed = True, bs_enabled = running,
                bs_persistent = True, bs_can_toggle = toggle, bs_repair_required = repair\<rparr>]))))"

definition detect_iptables :: "'h firewall_env \<Rightarrow> ('h, backend_state list) fw_act" where
  "detect_iptables env =
     bnd (look_path env ''iptables'') (\<lambda>found.
     if \<not> found then ret []
     else bnd (look_path env ''netfilter-persistent'') (\<lambda>persistent.
            ret [\<lparr>bs_name = BackendIPTables, bs_installed = True, bs_enabled = True,
                  bs_persistent = persistent, bs_can_toggle = False, bs_repair_required = False\<rparr>]))"

definition choose_backend :: "backend_state list \<Rightarrow> backend_state" where
  "choose_backend states =
     (case filter (\<lambda>st. bs_enabled st \<and> (bs_name st = BackendUFW \<or> bs_name st = BackendFirewalld)) states
        @ concat (map (\<lambda>name. filter (\<lambda>st. bs_name st = name) states) [BackendFirewalld, BackendUFW, BackendIPTables]) of
        st # _ \<Rightarrow> st
      | [] \<Rightarrow> \<lparr>bs_name = BackendNone, bs_installed = False, bs_enabled = False, bs_persistent = False,
               bs_can_toggle = False, bs_repair_required = False\<rparr>)"

definition detect_backend :: "'h firewall_env \<Rightarrow> ('h, backend_state) fw_act" where
  "detect_backend env =
     bnd (detect_ufw env) (\<lambda>u. bnd (detect_firewalld env) (\<lambda>f. bnd (detect_iptables env) (\<lambda>i.
     ret (choose_backend (u @ f @ i)))))"

definition rule_operations :: "'h firewall_env \<Rightarrow> iptables_rule \<Rightarrow> ('h, command_operation list) fw_act" where
  "rule_operations env rule =
     (if ir_backend rule = BackendUFW then ret (ufw_rule_operations rule)
      else if ir_backend rule = BackendFirewalld then ret (firewalld_rule_operations rule ''firewall-cmd'' True)
      else if ir_backend rule = BackendIPTables then
        bnd (look_path env ''netfilter-persistent'') (\<lambda>found.
        if found then ret (iptables_rule_operations rule) else throw ErrUnsupported)
      else throw ErrUnsupported)"

definition persist :: "'h firewall_env \<Rightarrow> string \<Rightarrow> ('h, unit) fw_act" where
  "persist env backend =
     (if backend = BackendFirewalld then command env ''firewall-cmd'' [''--reload'']
      else if backend = BackendIPTables then command env ''netfilter-persistent'' [''save'']
      else ret ())"

definition rollback_operations :: "'h firewall_env \<Rightarrow> command_operation list \<Rightarrow> ('h, unit) fw_act" where
  "rollback_operations env applied =
     each (\<lambda>c. ignored (command env (co_undo_name c) (co_undo_args c))) (rev applied)"

fun run_each :: "'h firewall_env \<Rightarrow> command_operation list \<Rightarrow> command_operation list \<Rightarrow> ('h, unit) fw_act" where
  "run_each env applied [] = ret ()"
| "run_each env applied (c # cs) =
     bnd (on_error (command env (co_name c) (co_args c)) (rollback_operations env applied)) (\<lambda>_.
     run_each env (applied @ [c]) cs)"

definition run_operations :: "'h firewall_env \<Rightarrow> string \<Rightarrow> command_operation list \<Rightarrow> ('h, unit) fw_act" where
  "run_operations env backend ops =
     bnd (run_each env [] ops) (\<lambda>_.
     on_error (persist env backend) (bnd (rollback_operations env ops) (\<lambda>_. ignored (persist env backend))))"

definition install_rule :: "'h firewall_env \<Rightarrow> iptables_rule \<Rightarrow> ('h, command_operation list) fw_act" where
  "install_rule env rule =
     bnd (rule_operations env rule) (\<lambda>ops. bnd (run_operations env (ir_backend rule) ops) (\<lambda>_. ret ops))"

definition uninstall_rule :: "'h firewall_env \<Rightarrow> iptables_rule \<Rightarrow> ('h, command_operation list) fw_act" where
  "uninstall_rule env rule =
     bnd (rule_operations env rule) (\<lambda>ops.
     bnd (run_operations env (ir_backend rule) (reverse_operations ops)) (\<lambda>_. ret ops))"

section \<open>Table\<close>

definition find_rule :: "int \<Rightarrow> ('h, iptables_rule) fw_act" where
  "find_rule rule_id =
     bnd (query DatabaseFailed (\<lambda>db. find (\<lambda>r. ir_id r = rule_id) (fw_rules db))) (\<lambda>row.
     case row of None \<Rightarrow> throw RuleNotFound | Some r \<Rightarrow> ret r)"

definition delete_row :: "int \<Rightarrow> ('h, unit) fw_act" where
  "delete_row rule_id = modify DatabaseFailed (\<lambda>db. db\<lparr>fw_rules := filter (\<lambda>r. ir_id r \<noteq> rule_id) (fw_rules db)\<rparr>)"

definition update_row :: "int \<Rightarrow> (iptables_rule \<Rightarrow> iptables_rule) \<Rightarrow> ('h, unit) fw_act" where
  "update_row rule_id f =
     modify DatabaseFailed (\<lambda>db. db\<lparr>fw_rules := upd_where (\<lambda>r. ir_id r = rule_id) f (fw_rules db)\<rparr>)"

text \<open>A new key, and the column default of an empty rule type.\<close>

definition create_row :: "iptables_rule \<Rightarrow> ('h, iptables_rule) fw_act" where
  "create_row rule =
     exec DatabaseFailed (\<lambda>db.
       let r = rule\<lparr>ir_id := fw_last db + 1, ir_rule_type := default_string (ir_rule_type rule) ''port''\<rparr>
       in (r, db\<lparr>fw_rules := fw_rules db @ [r], fw_last := fw_last db + 1\<rparr>))"

definition protected_first :: "iptables_rule list \<Rightarrow> iptables_rule list" where
  "protected_first rows =
     (let by_id = rev (sort_key ir_id rows) in filter ir_protected by_id @ filter (\<lambda>r. \<not> ir_protected r) by_id)"

section \<open>Rules\<close>

definition locate :: "iptables_rule \<Rightarrow> iptables_rule" where
  "locate rule = rule\<lparr>ir_location := default_string (ir_location rule) (describe_ip_location (ir_ips rule))\<rparr>"

text \<open>The rule is installed, then recorded; what cannot be recorded is taken back.\<close>

definition store_rule :: "'h firewall_env \<Rightarrow> iptables_rule \<Rightarrow> ('h, iptables_rule) fw_act" where
  "store_rule env rule =
     bnd (if ir_state rule = 1 then install_rule env rule else ret []) (\<lambda>ops.
     on_error (create_row rule)
       (if_so (ir_state rule = 1)
          (bnd (rollback_operations env ops) (\<lambda>_. ignored (persist env (ir_backend rule))))))"

definition add_locked :: "'h firewall_env \<Rightarrow> iptables_rule \<Rightarrow> ('h, iptables_rule) fw_act" where
  "add_locked env requested =
     bnd (normalized env requested) (\<lambda>nr.
     bnd (detect_backend env) (\<lambda>st.
     if \<not> bs_installed st then throw ErrUnsupported
     else bnd (host_call (fe_uuid env)) (\<lambda>token.
       store_rule env (locate ((apply_normalized requested nr)\<lparr>ir_id := 0, ir_backend := bs_name st, ir_token := token,
         ir_protected := False\<rparr>)))))"

definition rule_exists :: "'h firewall_env \<Rightarrow> iptables_rule \<Rightarrow> backend_state \<Rightarrow> ('h, bool) fw_act" where
  "rule_exists env rule st =
     (if ir_backend rule = BackendUFW then
        bnd (run_program env ''ufw'' [''show'', ''added'']) (\<lambda>(ok, out).
        ret (ok \<and> ir_token rule \<noteq> [] \<and> sublist (''oneinstack:'' @ ir_token rule) out))
      else if ir_backend rule = BackendFirewalld then
        bnd (if bs_enabled st then ret True else look_path env ''firewall-offline-cmd'') (\<lambda>found.
        if \<not> found then ret False
        else
          let program = (if bs_enabled st then ''firewall-cmd'' else ''firewall-offline-cmd'');
              question = (\<lambda>a. if a = ''--add-rule'' then ''--query-rule''
                              else if has_prefix a ''--add-rich-rule=''
                              then ''--query-rich-rule='' @ drop (length ''--add-rich-rule='') a else a)
          in (case firewalld_rule_operations rule program (bs_enabled st) of
                [] \<Rightarrow> ret False
              | c # _ \<Rightarrow> bnd (run_program env program (map question (co_args c))) (\<lambda>(ok, out). ret ok)))
      else if ir_backend rule = BackendIPTables then
        (case iptables_rule_operations rule of
           [] \<Rightarrow> ret False
         | c # _ \<Rightarrow> bnd (run_program env ''iptables'' (''-C'' # tl (co_args c))) (\<lambda>(ok, out). ret ok))
      else ret False)"

text \<open>The identifier of a rule that already opens the port, if there is one.\<close>

fun reusable_rule :: "'h firewall_env \<Rightarrow> backend_state \<Rightarrow> int \<Rightarrow> iptables_rule list \<Rightarrow> ('h, int option) fw_act" where
  "reusable_rule env st port [] = ret None"
| "reusable_rule env st port (candidate # candidates) =
     bnd (if ir_expires_at candidate = None then ret 0 else host_call (fe_now env)) (\<lambda>now.
     let usable = (case normalize_rule (fe_rules env) now (fe_panel_port env) candidate of
                     Inl e \<Rightarrow> False
                   | Inr nr \<Rightarrow> contains_all_ipv4 (nr_ips nr) \<and> port_set_contains (nr_ports nr) port)
     in if \<not> usable \<or> ir_backend candidate \<noteq> [] \<and> ir_backend candidate \<noteq> bs_name st
        then reusable_rule env st port candidates
        else bnd (rule_exists env (clear_ports (fe_rules env) candidate) st) (\<lambda>found.
             if found then ret (Some (ir_id candidate)) else reusable_rule env st port candidates))"

definition website_rule :: "int \<Rightarrow> string \<Rightarrow> iptables_rule" where
  "website_rule port remark =
     \<lparr>ir_id = 0, ir_rule_type = ''port'', ir_direction = ''in'', ir_protocol = ''tcp'', ir_strategy = ''allow'',
      ir_ips = all_ipv4, ir_ports = format_int port, ir_state = 1, ir_remark = remark, ir_location = [],
      ir_expires_at = None, ir_backend = [], ir_token = [], ir_protected = False\<rparr>"

definition ensure_website_port :: "'h firewall_env \<Rightarrow> int \<Rightarrow> string \<Rightarrow> ('h, int \<times> bool) fw_act" where
  "ensure_website_port env port website_name =
     (if port < 1 \<or> port > 65535 then throw (InvalidInput ''port'')
      else if trim_space website_name = [] then throw (InvalidInput ''name'')
      else bnd (detect_backend env) (\<lambda>st.
        if \<not> bs_installed st \<or> \<not> bs_enabled st then ret (0, False)
        else bnd (query DatabaseFailed (\<lambda>db. protected_first (filter (\<lambda>r. ir_state r = 1 \<and> ir_direction r = ''in''
                    \<and> ir_strategy r = ''allow'' \<and> ir_protocol r \<in> {''tcp'', ''all''}) (fw_rules db)))) (\<lambda>candidates.
             bnd (reusable_rule env st port candidates) (\<lambda>reused.
             case reused of
               Some rule_id \<Rightarrow> ret (rule_id, False)
             | None \<Rightarrow> bnd (add_locked env (website_rule port (trim_space website_name))) (\<lambda>rule. ret (ir_id rule, True))))))"

definition stored_update :: "iptables_rule \<Rightarrow> iptables_rule \<Rightarrow> iptables_rule" where
  "stored_update requested row =
     row\<lparr>ir_rule_type := ir_rule_type requested, ir_direction := ir_direction requested,
         ir_protocol := ir_protocol requested, ir_strategy := ir_strategy requested, ir_ips := ir_ips requested,
         ir_ports := ir_ports requested, ir_state := ir_state requested, ir_remark := ir_remark requested,
         ir_location := ir_location requested, ir_expires_at := ir_expires_at requested,
         ir_backend := ir_backend requested, ir_token := ir_token requested\<rparr>"

text \<open>The backend a rule was made for, or the present one for a rule from before backends were recorded.\<close>

definition backend_of :: "'h firewall_env \<Rightarrow> iptables_rule \<Rightarrow> ('h, string) fw_act" where
  "backend_of env rule =
     (if ir_backend rule = [] then bnd (detect_backend env) (\<lambda>st. ret (bs_name st)) else ret (ir_backend rule))"

text \<open>The old rule is removed, the new one installed, the row rewritten; each failure puts back what was there.\<close>

definition exchange_rule :: "'h firewall_env \<Rightarrow> iptables_rule \<Rightarrow> iptables_rule \<Rightarrow> ('h, unit) fw_act" where
  "exchange_rule env old rule =
     bnd (if ir_state old = 1 then uninstall_rule env old else ret []) (\<lambda>old_ops.
     let restore = if_so (ir_state old = 1) (ignored (run_operations env (ir_backend old) old_ops))
     in bnd (on_error (if ir_state rule = 1 then install_rule env rule else ret []) restore) (\<lambda>new_ops.
        on_error (update_row (ir_id old) (stored_update rule))
          (bnd (if_so (ir_state rule = 1) (ignored (run_operations env (ir_backend rule) (reverse_operations new_ops))))
             (\<lambda>_. restore))))"

definition update_rule :: "'h firewall_env \<Rightarrow> iptables_rule \<Rightarrow> ('h, iptables_rule) fw_act" where
  "update_rule env requested =
     (if ir_id requested < 1 then throw (InvalidInput ''id'')
      else bnd (find_rule (ir_id requested)) (\<lambda>found.
        if ir_protected found then throw ErrProtected
        else bnd (normalized env requested) (\<lambda>nr.
        bnd (backend_of env found) (\<lambda>backend.
        bnd (if ir_token found = [] then host_call (fe_uuid env) else ret (ir_token found)) (\<lambda>token.
        bnd (exchange_rule env (found\<lparr>ir_backend := backend\<rparr>)
               (locate ((apply_normalized requested nr)\<lparr>ir_backend := backend, ir_token := token, ir_protected := False\<rparr>))) (\<lambda>_.
        find_rule (ir_id found)))))))"

definition remove_rule :: "'h firewall_env \<Rightarrow> iptables_rule \<Rightarrow> ('h, unit) fw_act" where
  "remove_rule env rule =
     bnd (if ir_state rule = 1 then uninstall_rule env rule else ret []) (\<lambda>ops.
     on_error (delete_row (ir_id rule)) (if_so (ir_state rule = 1) (ignored (run_operations env (ir_backend rule) ops))))"

definition delete_locked :: "'h firewall_env \<Rightarrow> int \<Rightarrow> ('h, unit) fw_act" where
  "delete_locked env rule_id =
     (if rule_id < 1 then throw (InvalidInput ''id'')
      else bnd (find_rule rule_id) (\<lambda>found.
        if ir_protected found then throw ErrProtected
        else bnd (backend_of env found) (\<lambda>backend. remove_rule env (found\<lparr>ir_backend := backend\<rparr>))))"

definition set_rule_state_locked :: "'h firewall_env \<Rightarrow> int \<Rightarrow> bool \<Rightarrow> ('h, unit) fw_act" where
  "set_rule_state_locked env rule_id enabled =
     (if rule_id < 1 then throw (InvalidInput ''id'')
      else bnd (find_rule rule_id) (\<lambda>rule.
        let goal = (if enabled then 1 else 0) in
        if ir_protected rule then throw ErrProtected
        else if ir_state rule = goal then ret ()
        else bnd (if enabled then (case ir_expires_at rule of
                    None \<Rightarrow> ret False
                  | Some t \<Rightarrow> bnd (host_call (fe_now env)) (\<lambda>now. ret (\<not> now < t))) else ret False) (\<lambda>expired.
        if expired then throw (InvalidInput ''expired'')
        else bnd (backend_of env rule) (\<lambda>backend.
             bnd (rule_operations env (rule\<lparr>ir_backend := backend\<rparr>)) (\<lambda>ops.
             let run = (if enabled then ops else reverse_operations ops)
             in bnd (run_operations env backend run) (\<lambda>_.
                on_error (update_row rule_id (\<lambda>r. r\<lparr>ir_state := goal\<rparr>))
                  (bnd (rollback_operations env run) (\<lambda>_. ignored (persist env backend)))))))))"

section \<open>Several rules\<close>

definition unique_ids :: "int list \<Rightarrow> int list" where
  "unique_ids ids = rev (remdups (rev (filter (\<lambda>i. i \<ge> 1) ids)))"

text \<open>How many were done, and the error that stopped the loop.\<close>

fun count_until_error :: "('x \<Rightarrow> ('h, 'a) fw_act) \<Rightarrow> nat \<Rightarrow> 'x list \<Rightarrow> ('h, nat \<times> fw_error option) fw_act" where
  "count_until_error f n [] = ret (n, None)"
| "count_until_error f n (x # xs) =
     outcome (f x) (\<lambda>r.
       case r of
         Inl e \<Rightarrow> ret (n, Some e)
       | Inr _ \<Rightarrow> count_until_error f (Suc n) xs)"

definition batch :: "'h firewall_env \<Rightarrow> int list \<Rightarrow> string \<Rightarrow> ('h, nat \<times> fw_error option) fw_act" where
  "batch env ids action =
     (let action = to_lower (re_lower (fe_rules env)) (trim_space action) in
      if ids = [] then ret (0, Some (InvalidInput ''empty''))
      else if length ids > 500 then ret (0, Some (InvalidInput ''too many''))
      else count_until_error (\<lambda>rule_id.
             if action = ''enable'' then set_rule_state_locked env rule_id True
             else if action = ''disable'' then set_rule_state_locked env rule_id False
             else if action = ''delete'' then delete_locked env rule_id
             else throw (InvalidInput ''action'')) 0 (unique_ids ids))"

definition cleanup_expired :: "'h firewall_env \<Rightarrow> ('h, nat \<times> fw_error option) fw_act" where
  "cleanup_expired env =
     bnd (host_call (fe_now env)) (\<lambda>now.
     bnd (query DatabaseFailed (\<lambda>db. sort_key ir_id
            (filter (\<lambda>r. case ir_expires_at r of Some t \<Rightarrow> t \<le> now | None \<Rightarrow> False) (fw_rules db)))) (\<lambda>rules.
     count_until_error (\<lambda>rule. delete_locked env (ir_id rule)) 0 (filter (\<lambda>r. \<not> ir_protected r) rules)))"

definition of_type :: "string \<Rightarrow> iptables_rule \<Rightarrow> bool" where
  "of_type rule_type r \<longleftrightarrow>
     rule_type = [] \<or> ir_rule_type r = rule_type \<or> rule_type = ''port'' \<and> ir_rule_type r = []"

definition export_rules :: "string \<Rightarrow> ('h, iptables_rule list) fw_act" where
  "export_rules rule_type =
     query DatabaseFailed (\<lambda>db.
       map (\<lambda>r. (normalize_stored_rule r)\<lparr>ir_id := 0, ir_backend := [], ir_token := [], ir_protected := False\<rparr>)
         (sort_key ir_id (filter (\<lambda>r. \<not> ir_protected r \<and> of_type (trim_space rule_type) r) (fw_rules db))))"

text \<open>The rules are added one by one; an error removes those added before it, newest first.\<close>

fun import_each :: "'h firewall_env \<Rightarrow> (int list \<Rightarrow> ('h, unit) fw_act) \<Rightarrow> int list \<Rightarrow> iptables_rule list \<Rightarrow> ('h, int list) fw_act" where
  "import_each env undo created [] = ret created"
| "import_each env undo created (r # rs) =
     bnd (on_error (add_locked env (r\<lparr>ir_id := 0, ir_protected := False\<rparr>)) (undo created)) (\<lambda>rule.
     import_each env undo (created @ [ir_id rule]) rs)"

definition remove_created :: "'h firewall_env \<Rightarrow> int list \<Rightarrow> ('h, unit) fw_act" where
  "remove_created env created = each (\<lambda>rule_id. ignored (delete_locked env rule_id)) (rev created)"

definition import_rules :: "'h firewall_env \<Rightarrow> iptables_rule list \<Rightarrow> ('h, nat) fw_act" where
  "import_rules env rules =
     (if rules = [] then throw (InvalidInput ''empty'')
      else if length rules > 500 then throw (InvalidInput ''too many'')
      else bnd (import_each env (remove_created env) [] rules) (\<lambda>created. ret (length created)))"

definition replace_rules :: "'h firewall_env \<Rightarrow> iptables_rule list \<Rightarrow> ('h, unit) fw_act" where
  "replace_rules env rules =
     bnd (query DatabaseFailed (\<lambda>db. sort_key ir_id (filter (\<lambda>r. \<not> ir_protected r) (fw_rules db)))) (\<lambda>current.
     bnd (each (\<lambda>rule. delete_locked env (ir_id rule)) current) (\<lambda>_.
     bnd (import_each env (\<lambda>created.
            bnd (remove_created env created) (\<lambda>_. each (\<lambda>rule. ignored (add_locked env rule)) current)) [] rules) (\<lambda>_.
     ret ())))"

section \<open>The panel port\<close>

definition panel_rule_remark :: string where
  "panel_rule_remark = ''Panel '' @ utf8 [0x7BA1, 0x7406, 0x7AEF, 0x53E3, 0xFF08, 0x7CFB, 0x7EDF, 0x4FDD, 0x62A4, 0xFF09]"

definition protection_rule :: "string \<Rightarrow> string \<Rightarrow> int \<Rightarrow> iptables_rule" where
  "protection_rule backend token port =
     \<lparr>ir_id = 0, ir_rule_type = [], ir_direction = ''in'', ir_protocol = ''tcp'', ir_strategy = ''allow'',
      ir_ips = all_ipv4, ir_ports = format_int port, ir_state = 1, ir_remark = panel_rule_remark, ir_location = [],
      ir_expires_at = None, ir_backend = backend, ir_token = token, ir_protected = True\<rparr>"

definition protects :: "int \<Rightarrow> iptables_rule \<Rightarrow> bool" where
  "protects port r \<longleftrightarrow>
     ir_protected r \<and> ir_protocol r = ''tcp'' \<and> ir_strategy r = ''allow'' \<and> ir_ports r = format_int port"

definition offline_persist_backend :: "backend_state \<Rightarrow> string" where
  "offline_persist_backend st =
     (if bs_name st = BackendFirewalld \<and> \<not> bs_enabled st then BackendNone else bs_name st)"

text \<open>The commands for a protection rule; a firewalld that is not running is written to offline.\<close>

definition protection_operations :: "'h firewall_env \<Rightarrow> backend_state \<Rightarrow> iptables_rule \<Rightarrow> ('h, command_operation list) fw_act" where
  "protection_operations env st rule =
     (if bs_name st = BackendFirewalld \<and> \<not> bs_enabled st then
        bnd (look_path env ''firewall-offline-cmd'') (\<lambda>found.
        if found then ret (firewalld_rule_operations rule ''firewall-offline-cmd'' False) else throw ErrUnsupported)
      else rule_operations env rule)"

text \<open>A record whose system rule is gone is removed and the rule made again.\<close>

definition ensure_protected_port :: "'h firewall_env \<Rightarrow> backend_state \<Rightarrow> int
    \<Rightarrow> ('h, (iptables_rule \<times> command_operation list) option) fw_act" where
  "ensure_protected_port env st port =
     bnd (query DatabaseFailed (\<lambda>db. first_by ir_id (filter (\<lambda>r. protects port r \<and> ir_backend r = bs_name st) (fw_rules db)))) (\<lambda>existing.
     bnd (case existing of None \<Rightarrow> ret False | Some r \<Rightarrow> rule_exists env r st) (\<lambda>present.
     if present then ret None
     else bnd (case existing of None \<Rightarrow> ret () | Some r \<Rightarrow> delete_row (ir_id r)) (\<lambda>_.
          bnd (host_call (fe_uuid env)) (\<lambda>token.
            let rule = protection_rule (bs_name st) token port
            in bnd (protection_operations env st rule) (\<lambda>ops.
               bnd (run_operations env (offline_persist_backend st) ops) (\<lambda>_.
               bnd (on_error (create_row rule)
                      (bnd (rollback_operations env ops) (\<lambda>_. ignored (persist env (offline_persist_backend st))))) (\<lambda>row.
               ret (Some (row, ops)))))))))"

definition toggle_backend :: "'h firewall_env \<Rightarrow> string \<Rightarrow> bool \<Rightarrow> ('h, unit) fw_act" where
  "toggle_backend env backend enabled =
     (if backend = BackendUFW then command env ''ufw'' [''--force'', if enabled then ''enable'' else ''disable'']
      else if backend = BackendFirewalld then command env ''systemctl'' [if enabled then ''start'' else ''stop'', ''firewalld'']
      else throw ErrUnsupported)"

definition set_enabled :: "'h firewall_env \<Rightarrow> bool \<Rightarrow> string \<Rightarrow> ('h, unit) fw_act" where
  "set_enabled env enabled confirmation =
     bnd (detect_backend env) (\<lambda>st.
     if \<not> bs_installed st then throw ErrUnsupported
     else if bs_enabled st = enabled then ret ()
     else if \<not> enabled \<and> trim_space confirmation \<noteq> ''DISABLE FIREWALL'' then throw (InvalidInput ''confirmation'')
     else if enabled then
       if bs_repair_required st then throw ErrUnsupported
       else if \<not> bs_can_toggle st then throw ErrUnsupported
       else bnd (ensure_protected_port env st (fe_panel_port env)) (\<lambda>created.
            on_error (toggle_backend env (bs_name st) True)
              (case created of
                 None \<Rightarrow> ret ()
               | Some (rule, ops) \<Rightarrow> bnd (rollback_operations env ops) (\<lambda>_. ignored (delete_row (ir_id rule)))))
     else toggle_backend env (bs_name st) False)"

definition prepare_panel_port :: "'h firewall_env \<Rightarrow> int \<Rightarrow> ('h, int \<times> bool) fw_act" where
  "prepare_panel_port env port =
     (if port < 1 \<or> port > 65535 then throw (InvalidInput ''port'')
      else bnd (detect_backend env) (\<lambda>st.
        if \<not> bs_installed st then ret (0, False)
        else bnd (ensure_protected_port env st port) (\<lambda>created.
             ret (case created of None \<Rightarrow> (0, False) | Some (rule, ops) \<Rightarrow> (ir_id rule, True)))))"

definition rollback_prepared_panel_port :: "'h firewall_env \<Rightarrow> int \<Rightarrow> ('h, unit) fw_act" where
  "rollback_prepared_panel_port env rule_id =
     (if rule_id < 1 then ret ()
      else bnd (find_rule rule_id) (\<lambda>rule.
        if \<not> ir_protected rule then throw ErrProtected
        else bnd (uninstall_rule env rule) (\<lambda>ops.
             on_error (delete_row (ir_id rule)) (ignored (run_operations env (ir_backend rule) ops)))))"

definition cleanup_uninstalled_backend :: "'h firewall_env \<Rightarrow> string \<Rightarrow> ('h, unit) fw_act" where
  "cleanup_uninstalled_backend env backend s =
     (if \<not> attached s \<or> backend \<noteq> BackendFirewalld then ret () s
      else bnd (look_path env ''firewall-cmd'') (\<lambda>found.
           if found then ret ()
           else modify DatabaseFailed (\<lambda>db. db\<lparr>fw_rules := filter (\<lambda>r. \<not> (ir_protected r \<and> ir_backend r = backend)) (fw_rules db)\<rparr>)) s)"

section \<open>Echo requests\<close>

definition echo_request_line :: "string \<Rightarrow> bool" where
  "echo_request_line l \<longleftrightarrow> sublist ''-A ufw-before-input -p icmp --icmp-type echo-request'' l"

definition ping_rule :: "string list" where
  "ping_rule = [''INPUT'', ''-p'', ''icmp'', ''--icmp-type'', ''echo-request'', ''-m'', ''comment'', ''--comment'', ''oneinstack:ping'',
     ''-j'', ''DROP'']"

definition ping_blocked :: "'h firewall_env \<Rightarrow> backend_state \<Rightarrow> ('h, bool) fw_act" where
  "ping_blocked env st =
     (if bs_name st = BackendUFW then
        bnd (host_call (\<lambda>h. (fe_ufw_read env h, h))) (\<lambda>content.
        case content of
          None \<Rightarrow> throw FileFailed
        | Some s \<Rightarrow>
            (case filter echo_request_line (split_on (CHR 0x0A) s) of
               [] \<Rightarrow> throw FileFailed
             | l # _ \<Rightarrow> ret (sublist ''-j DROP'' l)))
      else if bs_name st = BackendFirewalld then
        bnd (run_program env ''firewall-cmd'' [''--query-icmp-block=echo-request'']) (\<lambda>(ok, out).
        ret (ok \<and> trim_space out = ''yes''))
      else if bs_name st = BackendIPTables then
        bnd (run_program env ''iptables'' (''-C'' # ping_rule)) (\<lambda>(ok, out). ret ok)
      else ret False)"

text \<open>\<open>strings.Replace(line, old, new, 1)\<close>\<close>

fun replace_first :: "string \<Rightarrow> string \<Rightarrow> string \<Rightarrow> string" where
  "replace_first old new [] = (if old = [] then new else [])"
| "replace_first old new (c # cs) =
     (if has_prefix (c # cs) old then new @ drop (length old) (c # cs) else c # replace_first old new cs)"

text \<open>The first line about echo requests gets the action; \<open>None\<close> when there is no such line or it has no action.\<close>

fun retarget :: "bool \<Rightarrow> string list \<Rightarrow> string list option" where
  "retarget blocked [] = None"
| "retarget blocked (l # ls) =
     (if \<not> echo_request_line l then map_option ((#) l) (retarget blocked ls)
      else
        let goal = ''-j '' @ (if blocked then ''DROP'' else ''ACCEPT'') in
        if sublist ''-j ACCEPT'' l then Some (replace_first ''-j ACCEPT'' goal l # ls)
        else if sublist ''-j DROP'' l then Some (replace_first ''-j DROP'' goal l # ls)
        else None)"

definition write_ufw :: "'h firewall_env \<Rightarrow> string \<Rightarrow> ('h, unit) fw_act" where
  "write_ufw env content =
     bnd (host_call (\<lambda>h. fe_ufw_write env h content)) (\<lambda>ok. if ok then ret () else throw FileFailed)"

definition set_ufw_ping_blocked :: "'h firewall_env \<Rightarrow> bool \<Rightarrow> ('h, unit) fw_act" where
  "set_ufw_ping_blocked env blocked =
     bnd (host_call (\<lambda>h. (fe_ufw_read env h, h))) (\<lambda>content.
     case content of
       None \<Rightarrow> throw FileFailed
     | Some original \<Rightarrow>
         (case retarget blocked (split_on (CHR 0x0A) original) of
            None \<Rightarrow> throw (InvalidInput ''echo-request'')
          | Some ls \<Rightarrow>
              let updated = join_with (CHR 0x0A) ls in
              if updated = original then ret ()
              else bnd (host_call (\<lambda>h. (fe_ufw_stat env h, h))) (\<lambda>known.
                   if \<not> known then throw FileFailed
                   else bnd (write_ufw env updated) (\<lambda>_.
                        on_error (command env ''ufw'' [''reload''])
                          (bnd (ignored (write_ufw env original)) (\<lambda>_. ignored (command env ''ufw'' [''reload''])))))))"

definition icmp_action :: "bool \<Rightarrow> string" where
  "icmp_action blocked = (if blocked then ''--add-icmp-block=echo-request'' else ''--remove-icmp-block=echo-request'')"

definition ping_operation :: command_operation where
  "ping_operation =
     \<lparr>co_name = ''iptables'', co_args = ''-A'' # ping_rule, co_undo_name = ''iptables'', co_undo_args = ''-D'' # ping_rule\<rparr>"

definition set_ping_blocked :: "'h firewall_env \<Rightarrow> bool \<Rightarrow> ('h, unit) fw_act" where
  "set_ping_blocked env blocked =
     bnd (detect_backend env) (\<lambda>st.
     if \<not> bs_installed st then throw ErrUnsupported
     else outcome (ping_blocked env st) (\<lambda>current.
       if current = Inr blocked then ret ()
       else if bs_name st = BackendUFW then
         (case current of Inl e \<Rightarrow> throw e | Inr _ \<Rightarrow> set_ufw_ping_blocked env blocked)
       else if bs_name st = BackendFirewalld then
         run_operations env BackendFirewalld
           [\<lparr>co_name = ''firewall-cmd'', co_args = [''--permanent'', icmp_action blocked],
             co_undo_name = ''firewall-cmd'', co_undo_args = [''--permanent'', icmp_action (\<not> blocked)]\<rparr>]
       else if bs_name st = BackendIPTables then
         if bs_persistent st
         then run_operations env BackendIPTables [if blocked then ping_operation else reverse_operation ping_operation]
         else throw ErrUnsupported
       else throw ErrUnsupported))"

end
