(* ===== verification/Firewall_Forward.thy ===== *)
theory Firewall_Forward
  imports Firewall
begin

text \<open>
  Port forwarding (\<open>forward.go\<close>), the automatic blocking of addresses with failed logins
  (\<open>auto_block.go\<close>) and the status of the firewall (\<open>Service.Status\<close>).
\<close>

section \<open>Port forwarding\<close>

datatype forward_fault = BadForwardProtocol | BadForwardPort | ForwardsPanel | BadDestination | LongForwardRemark

definition normalize_port_forward :: "'h firewall_env \<Rightarrow> port_forward \<Rightarrow> forward_fault + port_forward" where
  "normalize_port_forward env f =
     (let protocol = to_lower (re_lower (fe_rules env)) (trim_space (pf_protocol f));
          remark = trim_space (pf_remark f)
      in if protocol \<noteq> ''tcp'' \<and> protocol \<noteq> ''udp'' then Inl BadForwardProtocol
         else if pf_source_port f < 1 \<or> pf_source_port f > 65535 \<or> pf_destination_port f < 1 \<or> pf_destination_port f > 65535
         then Inl BadForwardPort
         else if pf_source_port f = fe_panel_port env then Inl ForwardsPanel
         else (case parse_ip (trim_space (pf_destination_ip f)) of
                 None \<Rightarrow> Inl BadDestination
               | Some ip \<Rightarrow>
                   (case to4 ip of
                      None \<Rightarrow> Inl BadDestination
                    | Some octets \<Rightarrow>
                        if is_unspecified ip then Inl BadDestination
                        else if length (runes remark) > 200 then Inl LongForwardRemark
                        else Inr (f\<lparr>pf_protocol := protocol, pf_destination_ip := format_ip4 octets, pf_remark := remark,
                                    pf_state := (if pf_state f \<noteq> 0 then 1 else 0)\<rparr>))))"

definition firewalld_forward_operation :: "port_forward \<Rightarrow> command_operation" where
  "firewalld_forward_operation f =
     (let spec = ''port='' @ format_int (pf_source_port f) @ '':proto='' @ pf_protocol f
            @ '':toport='' @ format_int (pf_destination_port f) @ '':toaddr='' @ pf_destination_ip f
      in \<lparr>co_name = ''firewall-cmd'', co_args = [''--permanent'', ''--add-forward-port='' @ spec],
          co_undo_name = ''firewall-cmd'', co_undo_args = [''--permanent'', ''--remove-forward-port='' @ spec]\<rparr>)"

definition checked_forward :: "'h firewall_env \<Rightarrow> port_forward \<Rightarrow> ('h, port_forward) fw_act" where
  "checked_forward env f =
     (case normalize_port_forward env f of Inl e \<Rightarrow> throw (InvalidInput ''port forward'') | Inr f' \<Rightarrow> ret f')"

definition firewalld_running :: "'h firewall_env \<Rightarrow> ('h, unit) fw_act" where
  "firewalld_running env =
     bnd (detect_backend env) (\<lambda>st.
     if bs_name st \<noteq> BackendFirewalld \<or> \<not> bs_enabled st then throw ErrUnsupported else ret ())"

definition create_forward :: "port_forward \<Rightarrow> ('h, port_forward) fw_act" where
  "create_forward f =
     exec DatabaseFailed (\<lambda>db. let f = f\<lparr>pf_id := fw_last_forward db + 1\<rparr> in
       (f, db\<lparr>fw_forwards := fw_forwards db @ [f], fw_last_forward := fw_last_forward db + 1\<rparr>))"

definition find_forward :: "int \<Rightarrow> ('h, port_forward) fw_act" where
  "find_forward forward_id =
     bnd (query DatabaseFailed (\<lambda>db. find (\<lambda>f. pf_id f = forward_id) (fw_forwards db))) (\<lambda>row.
     case row of None \<Rightarrow> throw RuleNotFound | Some f \<Rightarrow> ret f)"

definition add_port_forward :: "'h firewall_env \<Rightarrow> port_forward \<Rightarrow> ('h, port_forward) fw_act" where
  "add_port_forward env requested =
     bnd (checked_forward env requested) (\<lambda>f.
     bnd (firewalld_running env) (\<lambda>_.
       let f = f\<lparr>pf_id := 0, pf_backend := BackendFirewalld\<rparr>;
           c = firewalld_forward_operation f
       in bnd (if_so (pf_state f = 1) (run_operations env BackendFirewalld [c])) (\<lambda>_.
          on_error (create_forward f)
            (if_so (pf_state f = 1) (bnd (rollback_operations env [c]) (\<lambda>_. ignored (persist env BackendFirewalld)))))))"

definition update_port_forward :: "'h firewall_env \<Rightarrow> port_forward \<Rightarrow> ('h, unit) fw_act" where
  "update_port_forward env requested =
     (if pf_id requested < 1 then throw (InvalidInput ''id'')
      else bnd (find_forward (pf_id requested)) (\<lambda>old.
        bnd (checked_forward env requested) (\<lambda>f.
        bnd (firewalld_running env) (\<lambda>_.
          let f = f\<lparr>pf_backend := BackendFirewalld\<rparr>;
              old_op = firewalld_forward_operation old;
              new_op = firewalld_forward_operation f;
              restore = if_so (pf_state old = 1) (ignored (run_operations env BackendFirewalld [old_op]))
          in bnd (if_so (pf_state old = 1) (run_operations env BackendFirewalld (reverse_operations [old_op]))) (\<lambda>_.
             bnd (on_error (if_so (pf_state f = 1) (run_operations env BackendFirewalld [new_op])) restore) (\<lambda>_.
             on_error (modify DatabaseFailed (\<lambda>db. db\<lparr>fw_forwards := upd_where (\<lambda>r. pf_id r = pf_id old)
                  (\<lambda>r. r\<lparr>pf_protocol := pf_protocol f, pf_source_port := pf_source_port f, pf_destination_ip := pf_destination_ip f,
                         pf_destination_port := pf_destination_port f, pf_state := pf_state f, pf_remark := pf_remark f,
                         pf_backend := pf_backend f\<rparr>) (fw_forwards db)\<rparr>))
               (bnd (if_so (pf_state f = 1) (ignored (run_operations env BackendFirewalld (reverse_operations [new_op])))) (\<lambda>_.
                restore))))))))"

definition delete_port_forward :: "'h firewall_env \<Rightarrow> int \<Rightarrow> ('h, unit) fw_act" where
  "delete_port_forward env forward_id =
     (if forward_id < 1 then throw (InvalidInput ''id'')
      else bnd (find_forward forward_id) (\<lambda>f.
        let c = firewalld_forward_operation f in
        bnd (if_so (pf_state f = 1) (run_operations env BackendFirewalld (reverse_operations [c]))) (\<lambda>_.
        on_error (modify DatabaseFailed (\<lambda>db. db\<lparr>fw_forwards := filter (\<lambda>r. pf_id r \<noteq> forward_id) (fw_forwards db)\<rparr>))
          (if_so (pf_state f = 1) (ignored (run_operations env BackendFirewalld [c]))))))"

definition set_port_forward_state :: "'h firewall_env \<Rightarrow> int \<Rightarrow> bool \<Rightarrow> ('h, unit) fw_act" where
  "set_port_forward_state env forward_id enabled =
     bnd (find_forward forward_id) (\<lambda>f. update_port_forward env (f\<lparr>pf_state := (if enabled then 1 else 0)\<rparr>))"

section \<open>Automatic blocking\<close>

definition apply_auto_block_defaults :: "auto_block_config \<Rightarrow> auto_block_config" where
  "apply_auto_block_defaults c =
     c\<lparr>ab_threshold := (if ab_threshold c = 0 then 8 else ab_threshold c),
       ab_window_minutes := (if ab_window_minutes c = 0 then 10 else ab_window_minutes c),
       ab_ban_minutes := (if ab_ban_minutes c = 0 then 1440 else ab_ban_minutes c)\<rparr>"

definition get_auto_block_config :: "('h, auto_block_config) fw_act" where
  "get_auto_block_config =
     bnd (query DatabaseFailed fw_auto) (\<lambda>row.
     ret (apply_auto_block_defaults (case row of Some c \<Rightarrow> c
       | None \<Rightarrow> \<lparr>ab_enabled = False, ab_threshold = 0, ab_window_minutes = 0, ab_ban_minutes = 0, ab_last_run_at = None\<rparr>)))"

text \<open>\<open>Save\<close> writes the whole row; the migration state of Fail2ban follows when the policy is switched on.\<close>

definition save_auto_block_config :: "bool \<Rightarrow> int \<Rightarrow> int \<Rightarrow> int \<Rightarrow> ('h, auto_block_config) fw_act" where
  "save_auto_block_config enabled threshold window_minutes ban_minutes =
     (let c = apply_auto_block_defaults \<lparr>ab_enabled = enabled, ab_threshold = threshold, ab_window_minutes = window_minutes,
                ab_ban_minutes = ban_minutes, ab_last_run_at = None\<rparr>
      in if ab_threshold c < 3 \<or> ab_threshold c > 100 then throw (InvalidInput ''threshold'')
         else if ab_window_minutes c < 1 \<or> ab_window_minutes c > 1440 then throw (InvalidInput ''window'')
         else if ab_ban_minutes c < 5 \<or> ab_ban_minutes c > 525600 then throw (InvalidInput ''ban'')
         else bnd (modify DatabaseFailed (\<lambda>db. db\<lparr>fw_auto := Some c\<rparr>)) (\<lambda>_.
              bnd (if_so enabled (ignored (modify DatabaseFailed (\<lambda>db. db\<lparr>fw_migration :=
                     (case fw_migration db of Some (status, e) \<Rightarrow> if status = ''not_required'' then Some (''pending'', []) else Some (status, e)
                      | None \<Rightarrow> None)\<rparr>)))) (\<lambda>_.
              ret c)))"

definition hostile_address :: "string \<Rightarrow> string option" where
  "hostile_address text =
     (case parse_ip text of
        None \<Rightarrow> None
      | Some ip \<Rightarrow> if is_private ip \<or> is_loopback ip \<or> is_unspecified ip then None else map_option format_ip4 (to4 ip))"

definition block_rule :: "string \<Rightarrow> time \<Rightarrow> iptables_rule" where
  "block_rule address expires =
     \<lparr>ir_id = 0, ir_rule_type = ''auto_block'', ir_direction = ''in'', ir_protocol = ''all'', ir_strategy = ''deny'',
      ir_ips = address, ir_ports = [], ir_state = 1,
      ir_remark = ''SSH '' @ utf8 [0x5931, 0x8D25, 0x767B, 0x5F55, 0x81EA, 0x52A8, 0x5C01, 0x7981],
      ir_location = describe_ip_location address, ir_expires_at = Some expires, ir_backend = [], ir_token = [],
      ir_protected = False\<rparr>"

definition blocked_already :: "time \<Rightarrow> string \<Rightarrow> iptables_rule \<Rightarrow> bool" where
  "blocked_already now address r \<longleftrightarrow>
     ir_rule_type r = ''auto_block'' \<and> ir_ips r = address \<and> ir_state r = 1
     \<and> (case ir_expires_at r of None \<Rightarrow> True | Some t \<Rightarrow> now < t)"

fun block_each :: "'h firewall_env \<Rightarrow> time \<Rightarrow> time \<Rightarrow> nat \<Rightarrow> string list \<Rightarrow> ('h, nat \<times> fw_error option) fw_act" where
  "block_each env now expires created [] = ret (created, None)"
| "block_each env now expires created (address # addresses) =
     outcome (query DatabaseFailed (\<lambda>db. list_ex (blocked_already now address) (fw_rules db))) (\<lambda>r.
       case r of
         Inl e \<Rightarrow> ret (created, Some e)
       | Inr present \<Rightarrow>
           if present then block_each env now expires created addresses
           else outcome (add_locked env (block_rule address expires)) (\<lambda>added.
             case added of
               Inl e \<Rightarrow> ret (created, Some e)
             | Inr _ \<Rightarrow>
                 if Suc created \<ge> 100 then ret (Suc created, None)
                 else block_each env now expires (Suc created) addresses))"

definition run_auto_block :: "'h firewall_env \<Rightarrow> ('h, nat \<times> fw_error option) fw_act" where
  "run_auto_block env =
     bnd get_auto_block_config (\<lambda>config.
     if \<not> ab_enabled config then throw ErrAutoBlockDisabled
     else bnd (look_path env ''journalctl'') (\<lambda>found.
     if \<not> found then ret (0, None)
     else bnd (run_program env ''journalctl'' [''--no-pager'', ''--since'', format_int (ab_window_minutes config) @ '' minutes ago'',
                 ''-u'', ''ssh'', ''-u'', ''sshd'']) (\<lambda>(ok, out).
     if \<not> ok then throw CommandFailed
     else
       let hits = List.map_filter hostile_address (fe_failed_logins env out);
           addresses = filter (\<lambda>a. int (count_list hits a) \<ge> ab_threshold config) (fe_range env (remdups hits))
       in bnd (host_call (fe_now env)) (\<lambda>now.
          bnd (block_each env now (now + ab_ban_minutes config * 60 * second) 0 addresses) (\<lambda>(created, error).
          if error \<noteq> None then ret (created, error)
          else bnd (host_call (fe_now env)) (\<lambda>current.
            outcome (modify DatabaseFailed (\<lambda>db. db\<lparr>fw_auto := map_option (\<lambda>c. c\<lparr>ab_last_run_at := Some current\<rparr>) (fw_auto db)\<rparr>)) (\<lambda>r.
              case r of Inl e \<Rightarrow> ret (created, Some e) | Inr _ \<Rightarrow> ret (created, None))))))))"

text \<open>One round of the maintenance; both errors are only logged.\<close>

definition maintenance_run :: "'h firewall_env \<Rightarrow> ('h, unit) fw_act" where
  "maintenance_run env = outcome (cleanup_expired env) (\<lambda>_. outcome (run_auto_block env) (\<lambda>_. ret ()))"

section \<open>Status\<close>

record firewall_status =
  ws_install :: bool
  ws_enabled :: bool
  ws_backend :: string
  ws_runtime_backend :: string
  ws_persistent :: bool
  ws_can_toggle :: bool
  ws_repair_required :: bool
  ws_managed_rule_count :: nat
  ws_managed_backend :: string
  ws_managed_panel_rule :: bool
  ws_panel_port_protected :: bool
  ws_ping_blocked :: bool

definition backend_persistent_default :: "string \<Rightarrow> bool" where
  "backend_persistent_default name \<longleftrightarrow> name = BackendUFW \<or> name = BackendFirewalld"

text \<open>What the tables say: the number of rules, the backend of the newest protection rule, and whether the one of
  this backend is installed.\<close>

definition stored_status :: "'h firewall_env \<Rightarrow> backend_state \<Rightarrow> ('h, nat \<times> string option \<times> bool) fw_act" where
  "stored_status env st s =
     (if \<not> attached s then ret (0, None, False) s
      else bnd (ignored (cleanup_uninstalled_backend env BackendFirewalld)) (\<lambda>_.
           bnd (query DatabaseFailed (\<lambda>db. length (fw_rules db))) (\<lambda>managed_count.
           bnd (query DatabaseFailed (\<lambda>db. first_by (\<lambda>r. - ir_id r) (filter (protects (fe_panel_port env)) (fw_rules db)))) (\<lambda>managed.
           bnd (query DatabaseFailed (\<lambda>db. first_by ir_id
                  (filter (\<lambda>r. protects (fe_panel_port env) r \<and> ir_backend r = bs_name st) (fw_rules db)))) (\<lambda>row.
           bnd (case row of
                  None \<Rightarrow> ret False
                | Some r \<Rightarrow> if bs_enabled st then rule_exists env r st else ret False) (\<lambda>protected_now.
           ret (managed_count, map_option ir_backend managed, protected_now)))))) s)"

text \<open>The texts of the warnings and the counts by type are left out; a failed clean-up only adds a warning.\<close>

definition firewall_status_of :: "'h firewall_env \<Rightarrow> ('h, firewall_status) fw_act" where
  "firewall_status_of env =
     bnd (detect_backend env) (\<lambda>st.
     bnd (stored_status env st) (\<lambda>(managed_count, managed, protected_now).
     outcome (ping_blocked env st) (\<lambda>ping.
       let managed_backend = (case managed of None \<Rightarrow> [] | Some b \<Rightarrow> b);
           adopted = (\<not> bs_installed st \<and> managed_backend \<noteq> [])
       in ret \<lparr>ws_install = (bs_installed st \<or> adopted), ws_enabled = bs_enabled st,
               ws_backend = (if adopted then managed_backend else bs_name st),
               ws_runtime_backend = (if \<not> bs_enabled st \<and> (bs_name st = BackendUFW \<or> bs_name st = BackendFirewalld)
                                     then BackendNone else bs_name st),
               ws_persistent = (if adopted then backend_persistent_default managed_backend else bs_persistent st),
               ws_can_toggle = bs_can_toggle st, ws_repair_required = bs_repair_required st,
               ws_managed_rule_count = managed_count, ws_managed_backend = managed_backend,
               ws_managed_panel_rule = (managed \<noteq> None), ws_panel_port_protected = protected_now,
               ws_ping_blocked = (case ping of Inl e \<Rightarrow> False | Inr b \<Rightarrow> b)\<rparr>)))"

end
