(* ===== verification/Firewall_Valid.thy ===== *)
theory Firewall_Valid
  imports Firewall_Rules "HOL-Library.Multiset"
begin

text \<open>
  Normalised values: an address, a network or a port in normal form is left as it is, the lists
  of a stored rule are read back as they were validated, and a normalised rule is accepted again.
\<close>

section \<open>Masks\<close>

lemma mask_byte_idem [simp]: "mask_byte k (mask_byte k b) = mask_byte k b"
  by (simp add: mask_byte_def)

lemma mask_byte_le: "mask_byte k b \<le> b"
  by (simp add: mask_byte_def)

lemma mask_byte_full [simp]: "mask_byte 8 b = b"
  by (simp add: mask_byte_def)

lemma mask_bytes_idem [simp]: "mask_bytes n (mask_bytes n bs) = mask_bytes n bs"
  by (induction n bs rule: mask_bytes.induct) auto

lemma length_mask_bytes [simp]: "length (mask_bytes n bs) = length bs"
  by (induction n bs rule: mask_bytes.induct) auto

lemma mask_bytes_append: "mask_bytes n (a @ b) = mask_bytes n a @ mask_bytes (n - 8 * length a) b"
  by (induction a arbitrary: n) (auto simp: algebra_simps)

lemma mask_bytes_full: "8 * length a \<le> n \<Longrightarrow> mask_bytes n a = a"
  by (induction a arbitrary: n) auto

lemma mask_bytes_bound: "list_all (\<lambda>b. b \<le> 255) bs \<Longrightarrow> list_all (\<lambda>b. b \<le> 255) (mask_bytes n bs)"
  by (induction n bs rule: mask_bytes.induct) (auto intro: order_trans [OF mask_byte_le])

lemma mask_byte_255: "mask_byte k b = 255 \<Longrightarrow> 8 \<le> k"
proof (rule ccontr)
  assume m: "mask_byte k b = 255" and "\<not> 8 \<le> k"
  then obtain j where "8 - k = Suc j" by (cases "8 - k") auto
  then have "even (mask_byte k b)" unfolding mask_byte_def by (simp only: power_Suc even_mult_iff even_numeral simp_thms)
  then show False unfolding m by simp
qed

text \<open>A network is that of an IPv4 address only if the mask covers the prefix.\<close>

lemma mapped_network:
  assumes "take 12 (mask_bytes n ip) = v4_prefix" "take 12 ip = v4_prefix"
  shows "96 \<le> n" "mask_bytes n ip = v4_prefix @ mask_bytes (n - 96) (drop 12 ip)"
proof -
  have split: "ip = v4_prefix @ drop 12 ip" using assms(2) by (metis append_take_drop_id)
  have len: "length v4_prefix = 12" by (simp add: v4_prefix_def)
  have m: "mask_bytes n ip = mask_bytes n v4_prefix @ mask_bytes (n - 96) (drop 12 ip)"
    by (subst split, subst mask_bytes_append) (simp add: len)
  then have pre: "mask_bytes n v4_prefix = v4_prefix" using assms(1) len by simp
  have "mask_bytes n v4_prefix ! 11 = mask_byte (min 8 (n - 88)) 255" by (simp add: v4_prefix_def numeral_eq_Suc)
  then have "mask_byte (min 8 (n - 88)) 255 = 255" unfolding pre by (simp add: v4_prefix_def numeral_eq_Suc)
  from mask_byte_255 [OF this] show "96 \<le> n" by simp
  show "mask_bytes n ip = v4_prefix @ mask_bytes (n - 96) (drop 12 ip)" using m pre by simp
qed

section \<open>Addresses\<close>

text \<open>What the parsers return are sixteen bytes.\<close>

lemma of_hex_bound: "length ds \<le> 4 \<Longrightarrow> list_all (\<lambda>c. hex_digit c \<noteq> None) ds \<Longrightarrow> of_hex ds < 65536"
proof -
  have digit: "the (hex_digit c) < 16" if "hex_digit c \<noteq> None" for c
    using that by (auto simp: hex_digit_def Let_def split: if_splits)
  have step: "foldl (\<lambda>n c. 16 * n + the (hex_digit c)) acc ds < 16 ^ length ds * Suc acc"
    if "list_all (\<lambda>c. hex_digit c \<noteq> None) ds" for acc ds
    using that
  proof (induction ds arbitrary: acc)
    case (Cons c ds)
    have "foldl (\<lambda>n c. 16 * n + the (hex_digit c)) (16 * acc + the (hex_digit c)) ds < 16 ^ length ds * Suc (16 * acc + the (hex_digit c))"
      using Cons by simp
    also have "\<dots> \<le> 16 ^ length ds * (16 * Suc acc)" using digit [of c] Cons.prems by (intro mult_le_mono2) auto
    finally show ?case by (simp add: algebra_simps)
  qed simp
  assume "length ds \<le> 4" "list_all (\<lambda>c. hex_digit c \<noteq> None) ds"
  then have "of_hex ds < 16 ^ length ds" using step [of ds 0] by (simp add: of_hex_def)
  also have "\<dots> \<le> 16 ^ 4" using \<open>length ds \<le> 4\<close> by (intro power_increasing) auto
  finally show ?thesis by simp
qed

text \<open>One turn of the loop.\<close>

lemma ipv6_groups_turn:
  assumes "ipv6_groups (Suc n) s ip ellipsis = Some out"
  obtains run where "run \<noteq> []" "length run \<le> 4" "list_all (\<lambda>c. hex_digit c \<noteq> None) run"
    "(\<exists>f. ipv4_fields s = Some f \<and> length ip + 4 \<le> 16 \<and> out = (ip @ f, ellipsis, []))
     \<or> (let ip' = ip @ [of_hex run div 256, of_hex run mod 256] in
        out = (ip', ellipsis, []) \<or> out = (ip', Some (length ip'), [])
        \<or> (\<exists>t. ipv6_groups n t ip' ellipsis = Some out \<or> ipv6_groups n t ip' (Some (length ip')) = Some out))"
proof
  define run where "run = takeWhile (\<lambda>c. hex_digit c \<noteq> None) s"
  define ip' where "ip' = ip @ [of_hex run div 256, of_hex run mod 256]"
  note def = assms [unfolded ipv6_groups.simps Let_def, folded run_def, folded ip'_def]
  have guard: "\<not> (run = [] \<or> 4 < length run)" by (rule notI) (use def in simp)
  note def = def [unfolded if_not_P [OF guard]]
  show "run \<noteq> []" "length run \<le> 4" using guard by auto
  show "list_all (\<lambda>c. hex_digit c \<noteq> None) run" unfolding run_def list_all_iff by (blast dest: set_takeWhileD)
  show "(\<exists>f. ipv4_fields s = Some f \<and> length ip + 4 \<le> 16 \<and> out = (ip @ f, ellipsis, []))
     \<or> (let ip' = ip @ [of_hex run div 256, of_hex run mod 256] in
        out = (ip', ellipsis, []) \<or> out = (ip', Some (length ip'), [])
        \<or> (\<exists>t. ipv6_groups n t ip' ellipsis = Some out \<or> ipv6_groups n t ip' (Some (length ip')) = Some out))"
    unfolding Let_def ip'_def [symmetric] using def by (simp split: if_split_asm option.split_asm) blast+
qed

definition some_bytes :: "nat list \<Rightarrow> bool" where
  "some_bytes ip \<longleftrightarrow> length ip \<le> 16 \<and> list_all (\<lambda>b. b \<le> 255) ip"

lemma ipv6_groups_bytes:
  "ipv6_groups n s ip ellipsis = Some (ip', ellipsis', s') \<Longrightarrow> some_bytes ip \<Longrightarrow> length ip + 2 * n = 16 \<Longrightarrow>
   (\<forall>e. ellipsis = Some e \<longrightarrow> e \<le> length ip) \<Longrightarrow> some_bytes ip' \<and> (\<forall>e. ellipsis' = Some e \<longrightarrow> e \<le> length ip')"
proof (induction n arbitrary: s ip ellipsis)
  case (Suc n)
  obtain run where run: "length run \<le> 4" "list_all (\<lambda>c. hex_digit c \<noteq> None) run"
    and out: "(\<exists>f. ipv4_fields s = Some f \<and> length ip + 4 \<le> 16 \<and> (ip', ellipsis', s') = (ip @ f, ellipsis, []))
     \<or> (let ip1 = ip @ [of_hex run div 256, of_hex run mod 256] in
        (ip', ellipsis', s') = (ip1, ellipsis, []) \<or> (ip', ellipsis', s') = (ip1, Some (length ip1), [])
        \<or> (\<exists>t. ipv6_groups n t ip1 ellipsis = Some (ip', ellipsis', s') \<or> ipv6_groups n t ip1 (Some (length ip1)) = Some (ip', ellipsis', s')))"
    using ipv6_groups_turn [OF Suc.prems(1)] by metis
  define ip1 where "ip1 = ip @ [of_hex run div 256, of_hex run mod 256]"
  have "of_hex run < 65536" using of_hex_bound run by blast
  then have ip1: "some_bytes ip1" "length ip1 + 2 * n = 16" "length ip \<le> length ip1"
    using Suc.prems(2,3) by (auto simp: ip1_def some_bytes_def)
  have four: "some_bytes (ip @ f)" if "length ip + 4 \<le> 16" "ipv4_fields s = Some f" for f
    using ipv4_fields_quad [OF that(2)] that(1) Suc.prems(2) by (simp add: some_bytes_def quad_def)
  have e: "\<forall>e. ellipsis = Some e \<longrightarrow> e \<le> length ip1" using Suc.prems(4) ip1(3) by auto
  note IH = Suc.IH [OF _ ip1(1,2)]
  show ?case using out [folded ip1_def, unfolded Let_def] four ip1(1) e Suc.prems(4) IH by (fastforce simp: trans_le_add1)
qed auto

definition full_bytes :: "nat list \<Rightarrow> bool" where
  "full_bytes ip \<longleftrightarrow> length ip = 16 \<and> list_all (\<lambda>b. b \<le> 255) ip"

lemma fill_ellipsis_bytes:
  assumes "fill_ellipsis (ip, ellipsis, s) = Some out" "some_bytes ip" "\<forall>e. ellipsis = Some e \<longrightarrow> e \<le> length ip"
  shows "full_bytes out"
proof -
  have "list_all (\<lambda>b. b \<le> 255) (take e ip @ replicate n 0 @ drop e ip)" for e n
    using assms(2) unfolding some_bytes_def list_all_iff by (auto dest: in_set_takeD in_set_dropD)
  then show ?thesis using assms by (auto simp: fill_ellipsis_def some_bytes_def full_bytes_def split: if_splits)
qed

lemma ipv6_bytes_full: "ipv6_bytes s = Some ip \<Longrightarrow> full_bytes ip"
proof -
  assume s: "ipv6_bytes s = Some ip"
  show ?thesis
  proof (cases "s = ''::''")
    case False
    then obtain t e ip' e' s' where t: "ipv6_groups 8 t [] e = Some (ip', e', s')" "fill_ellipsis (ip', e', s') = Some ip" "e = None \<or> e = Some 0"
      using s by (auto simp: ipv6_bytes_def bind_eq_Some_conv split: if_splits)
    have "some_bytes ip' \<and> (\<forall>e. e' = Some e \<longrightarrow> e \<le> length ip')"
      by (rule ipv6_groups_bytes [OF t(1)]) (use t(3) in \<open>auto simp: some_bytes_def\<close>)
    then show ?thesis using fill_ellipsis_bytes [OF t(2)] by blast
  qed (use s in \<open>auto simp: ipv6_bytes_def full_bytes_def list_all_iff\<close>)
qed

lemma parse_addr_full: "parse_addr s = Some (four, ip) \<Longrightarrow> full_bytes ip \<and> (four \<longrightarrow> take 12 ip = v4_prefix)"
proof -
  assume s: "parse_addr s = Some (four, ip)"
  have "full_bytes (v4_prefix @ f)" if "quad f" for f using that by (auto simp: full_bytes_def quad_def v4_prefix_def list_all_iff)
  then show ?thesis
    using s ipv4_fields_quad ipv6_bytes_full by (fastforce simp: parse_addr_def v4_prefix_def split: if_splits option.splits)
qed

lemma to4_quad: "full_bytes ip \<Longrightarrow> to4 ip = Some f \<Longrightarrow> quad f \<and> ip = v4_prefix @ f"
proof -
  assume "full_bytes ip" "to4 ip = Some f"
  moreover then have "ip = v4_prefix @ f" by (auto simp: to4_def split: if_splits) (metis append_take_drop_id)
  ultimately show ?thesis by (auto simp: full_bytes_def quad_def v4_prefix_def)
qed

lemma to4_prefix [simp]: "to4 (v4_prefix @ f) = Some f"
  by (simp add: to4_def v4_prefix_def)

lemma set_join: "set (join_with c ws) \<subseteq> insert c (\<Union> (set ` set ws))"
  by (induction c ws rule: join_with.induct) auto

lemma format_ip4_no: "\<not> digit c \<Longrightarrow> c \<noteq> CHR ''.'' \<Longrightarrow> c \<notin> set (format_ip4 f)"
proof
  assume c: "\<not> digit c" "c \<noteq> CHR ''.''" and "c \<in> set (format_ip4 f)"
  then have "c \<in> (\<Union>n\<in>set f. set (decimal n))"
    unfolding format_ip4_def using set_join [of "CHR ''.''" "map decimal f"] by (auto simp del: set_simps)
  then show False using decimal_no [OF c(1)] by blast
qed

lemma format_ip4_dot: "quad f \<Longrightarrow> CHR ''.'' \<in> set (format_ip4 f)"
  by (auto simp: quad_def format_ip4_def length_Suc_conv numeral_eq_Suc)

lemma parse_addr_format: "quad f \<Longrightarrow> parse_addr (format_ip4 f) = Some (True, v4_prefix @ f)"
proof -
  assume q: "quad f"
  have no: "CHR ''%'' \<notin> set (format_ip4 f)" "CHR '':'' \<notin> set (format_ip4 f)" using format_ip4_no by simp_all
  have "find (\<lambda>c. c = CHR ''.'' \<or> c = CHR '':'') xs = Some (CHR ''.'')" if "CHR '':'' \<notin> set xs" "CHR ''.'' \<in> set xs" for xs
    using that by (induction xs) auto
  then have "find (\<lambda>c. c = CHR ''.'' \<or> c = CHR '':'') (format_ip4 f) = Some (CHR ''.'')" using no format_ip4_dot [OF q] by blast
  then show ?thesis using no ipv4_fields_format [OF q] by (simp add: parse_addr_def)
qed

lemma network_format:
  assumes "quad f" "n \<le> 32" "mask_bytes n f = f"
  shows "parse_cidr (format_ip4 f @ CHR ''/'' # decimal n) = Some (v4_prefix @ f, format_ip4 f @ CHR ''/'' # decimal n)"
proof -
  let ?s = "format_ip4 f @ CHR ''/'' # decimal n"
  have "CHR ''/'' \<notin> set (format_ip4 f)" using format_ip4_no by simp
  then have cut: "takeWhile (\<lambda>c. c \<noteq> CHR ''/'') ?s = format_ip4 f" by (subst takeWhile_append2) auto
  have len: "length v4_prefix = 12" by (simp add: v4_prefix_def)
  have "mask_bytes (n + 96) (v4_prefix @ f) = v4_prefix @ f"
    using assms(3) mask_bytes_full [of v4_prefix "n + 96"] by (simp add: mask_bytes_append len)
  then show ?thesis
    using parse_addr_format [OF assms(1)] assms(2) decimal_not_Nil [of n] decimal_all_digits [of n]
    unfolding parse_cidr_def cut Let_def by (simp add: of_digits_decimal del: set_simps) simp
qed

text \<open>What normalisation returns: a text of IPv4 alone, or one with a colon, of an IPv6 network.\<close>

lemma format_ip6_colon: "2 \<le> length (groups_of ip) \<Longrightarrow> CHR '':'' \<in> set (format_ip6 ip)"
proof -
  assume "2 \<le> length (groups_of ip)"
  then obtain a b gs where "groups_of ip = a # b # gs" by (cases "groups_of ip"; cases "tl (groups_of ip)") auto
  then show ?thesis by (cases "zero_run (groups_of ip)") (auto simp: format_ip6_def Let_def)
qed

lemma groups_length: "full_bytes ip \<Longrightarrow> 2 \<le> length (groups_of ip)"
  by (auto simp: full_bytes_def length_Suc_conv numeral_eq_Suc)

definition ipv4_value :: "string \<Rightarrow> bool" where
  "ipv4_value w \<longleftrightarrow> (\<exists>f. quad f \<and> (w = format_ip4 f \<or> (\<exists>n \<le> 32. mask_bytes n f = f \<and> w = format_ip4 f @ CHR ''/'' # decimal n)))"

lemma parse_cidr_form:
  assumes "parse_cidr v = Some (ip, w)"
  obtains four n where "parse_addr (takeWhile (\<lambda>c. c \<noteq> CHR ''/'') v) = Some (four, ip)" "n \<le> (if four then 32 else 128)"
    "w = (case to4 (mask_bytes (if four then n + 96 else n) ip) of
        Some f \<Rightarrow> format_ip4 f @ CHR ''/'' # decimal (if four then n else n - 96)
      | None \<Rightarrow> format_ip6 (mask_bytes (if four then n + 96 else n) ip) @ CHR ''/'' # decimal n)"
proof -
  let ?addr = "takeWhile (\<lambda>c. c \<noteq> CHR ''/'') v"
  obtain four ip' where pa: "parse_addr ?addr = Some (four, ip')"
    using assms by (cases "parse_addr ?addr") (auto simp: parse_cidr_def Let_def split: if_splits)
  let ?n = "of_digits (drop (Suc (length ?addr)) v)"
  have "ip' = ip" "?n \<le> (if four then 32 else 128)"
    "w = (case to4 (mask_bytes (if four then ?n + 96 else ?n) ip) of
      Some f \<Rightarrow> format_ip4 f @ CHR ''/'' # decimal (if four then ?n else ?n - 96)
    | None \<Rightarrow> format_ip6 (mask_bytes (if four then ?n + 96 else ?n) ip) @ CHR ''/'' # decimal ?n)"
    using assms unfolding parse_cidr_def Let_def pa by (auto simp del: set_simps split: if_split_asm)
  then show ?thesis using that pa by blast
qed

lemma parse_cidr_value:
  assumes "parse_cidr v = Some (ip, w)" "to4 ip \<noteq> None"
  shows "CHR '':'' \<in> set w \<or> ipv4_value w"
proof -
  obtain four n where a: "parse_addr (takeWhile (\<lambda>c. c \<noteq> CHR ''/'') v) = Some (four, ip)" "n \<le> (if four then 32 else 128)"
    and w: "w = (case to4 (mask_bytes (if four then n + 96 else n) ip) of
        Some f \<Rightarrow> format_ip4 f @ CHR ''/'' # decimal (if four then n else n - 96)
      | None \<Rightarrow> format_ip6 (mask_bytes (if four then n + 96 else n) ip) @ CHR ''/'' # decimal n)"
    by (rule parse_cidr_form [OF assms(1)])
  define m where "m = (if four then n + 96 else n)"
  have full: "full_bytes ip" using parse_addr_full [OF a(1)] by simp
  then have masked: "full_bytes (mask_bytes m ip)" using mask_bytes_bound by (simp add: full_bytes_def)
  show ?thesis
  proof (cases "to4 (mask_bytes m ip)")
    case None
    then show ?thesis using w format_ip6_colon groups_length [OF masked] by (simp add: m_def)
  next
    case (Some f)
    have f: "quad f" "mask_bytes m ip = v4_prefix @ f" using to4_quad [OF masked Some] by simp_all
    have pre: "take 12 (mask_bytes m ip) = v4_prefix" "take 12 ip = v4_prefix"
      using Some assms(2) by (auto simp: to4_def split: if_splits)
    have m: "96 \<le> m" "f = mask_bytes (m - 96) (drop 12 ip)" using mapped_network [OF pre] f(2) by simp_all
    have "mask_bytes (m - 96) f = f" "m - 96 \<le> 32" using m a(2) by (auto simp: m_def split: if_splits)
    moreover have "w = format_ip4 f @ CHR ''/'' # decimal (m - 96)" using w Some by (auto simp: m_def split: if_splits)
    ultimately show ?thesis using f(1) unfolding ipv4_value_def by blast
  qed
qed

lemma normalize_ip_value: "normalize_ip v = Inr w \<Longrightarrow> CHR '':'' \<in> set w \<or> ipv4_value w"
proof -
  assume v: "normalize_ip v = Inr w"
  have all: "ipv4_value all_ipv4"
    unfolding ipv4_value_def
    by (rule exI [of _ "[0, 0, 0, 0]"], rule conjI, simp add: quad_def, rule disjI2, rule exI [of _ 0])
      (simp add: format_ip4_def decimal.simps [of 0] digit_char_def mask_byte_def)
  have plain: "ipv4_value (format_ip4 f)" if "parse_ip v = Some ip" "to4 ip = Some f" for ip f
    using to4_quad [OF _ that(2)] parse_addr_full [of v] that(1) unfolding ipv4_value_def parse_ip_def by fastforce
  show ?thesis
    using v all plain parse_cidr_value [of v]
    by (auto simp: normalize_ip_def bind_eq_Some_conv split: if_splits option.splits prod.splits)
qed

lemma ipv4_value_fixed:
  assumes "ipv4_value w"
  shows "normalize_ip w = Inr w"
proof (cases "w = all_ipv4")
  case False
  obtain f where q: "quad f" and w: "w = format_ip4 f \<or> (\<exists>n \<le> 32. mask_bytes n f = f \<and> w = format_ip4 f @ CHR ''/'' # decimal n)"
    using assms by (auto simp: ipv4_value_def)
  have dot: "CHR ''.'' \<in> set w" using w format_ip4_dot [OF q] by auto
  have "map lower_char w \<noteq> ''any''"
  proof
    assume "map lower_char w = ''any''"
    then have "lower_char (CHR ''.'') \<in> set ''any''" using dot by (metis image_eqI set_map)
    then show False by (simp add: lower_char_def)
  qed
  moreover have "CHR ''/'' \<notin> set (format_ip4 f)" using format_ip4_no by simp
  ultimately show ?thesis
    using w False parse_addr_format [OF q] network_format [OF q] by (auto simp: normalize_ip_def parse_ip_def)
qed (simp add: normalize_ip_def)

section \<open>Lists\<close>

text \<open>A value that a comma-separated list gives back: no comma, and nothing to trim.\<close>

definition neat_char :: "char \<Rightarrow> bool" where
  "neat_char c \<longleftrightarrow> graphic c \<and> c \<noteq> CHR '',''"

definition neat :: "string \<Rightarrow> bool" where
  "neat w \<longleftrightarrow> w \<noteq> [] \<and> list_all neat_char w"

lemma neat_trim: "neat w \<Longrightarrow> trim_space w = w"
  by (rule trim_space_graphic) (auto simp: neat_def neat_char_def list_all_iff)

lemma neat_comma: "neat w \<Longrightarrow> CHR '','' \<notin> set w"
  by (auto simp: neat_def neat_char_def list_all_iff)

lemma neat_parts: "ws \<noteq> [] \<Longrightarrow> list_all neat ws \<Longrightarrow> map trim_space (split_on CHR '','' (join_with CHR '','' ws)) = ws"
  using split_join [of ws "CHR '',''"] neat_comma neat_trim by (auto simp: list_all_iff map_idI)

lemma split_values_join: "list_all neat ws \<Longrightarrow> split_values (join_with CHR '','' ws) = ws"
proof (cases "ws = []")
  case False
  assume "list_all neat ws"
  then show ?thesis using neat_parts [OF False] by (auto simp: split_values_def neat_def list_all_iff intro: filter_True)
qed (simp add: split_values_def)

lemma join_not_blank: "ws \<noteq> [] \<Longrightarrow> list_all neat ws \<Longrightarrow> trim_space (join_with CHR '','' ws) \<noteq> []"
proof -
  assume ws: "ws \<noteq> []" "list_all neat ws"
  have "\<forall>c\<in>set (join_with CHR '','' ws). graphic c"
    using set_join [of "CHR '',''" ws] ws(2) by (fastforce simp: neat_def neat_char_def list_all_iff)
  moreover have "join_with CHR '','' ws \<noteq> []" using ws by (cases "(CHR '','', ws)" rule: join_with.cases) (auto simp: neat_def)
  ultimately show ?thesis using trim_space_graphic [of "join_with CHR '','' ws"] by simp
qed

lemma neat_digit: "digit c \<Longrightarrow> neat_char c"
  by (auto simp: neat_char_def)

lemma neat_decimal: "list_all neat_char (decimal n)"
  using decimal_all_digits [of n] neat_digit unfolding list_all_iff by blast

lemma neat_join: "neat_char c \<Longrightarrow> (\<And>w. w \<in> set ws \<Longrightarrow> list_all neat_char w) \<Longrightarrow> list_all neat_char (join_with c ws)"
  using set_join [of c ws] unfolding list_all_iff by blast

lemma neat_format_ip4: "list_all neat_char (format_ip4 f)"
  unfolding format_ip4_def by (rule neat_join) (auto simp: neat_char_def intro: neat_decimal)

lemma format_ip4_nonempty: "quad f \<Longrightarrow> format_ip4 f \<noteq> []"
  using format_ip4_dot by fastforce

lemma neat_hex: "list_all neat_char (hex_text n)"
proof (induction n rule: hex_text.induct)
  case (1 n)
  have "list_all neat_char ''0123456789abcdef''" by (simp add: neat_char_def)
  then have "neat_char (''0123456789abcdef'' ! k)" if "k < 16" for k
    using that unfolding list_all_length by simp
  then show ?case using 1 by (subst hex_text.simps) simp
qed

lemma neat_format_ip6: "list_all neat_char (format_ip6 ip)"
proof -
  have colon: "neat_char (CHR '':'')" by (simp add: neat_char_def)
  have join: "list_all neat_char (join_with CHR '':'' (map hex_text gs))" for gs
    by (rule neat_join [OF colon]) (auto intro: neat_hex)
  then show ?thesis using colon by (cases "zero_run (groups_of ip)") (simp add: format_ip6_def Let_def)
qed

lemma parse_cidr_neat: "parse_cidr v = Some (ip, w) \<Longrightarrow> neat w"
proof -
  assume "parse_cidr v = Some (ip, w)"
  then obtain f n where "w = format_ip4 f @ CHR ''/'' # decimal n \<or> w = format_ip6 f @ CHR ''/'' # decimal n"
    by (rule parse_cidr_form) (simp split: option.split_asm, blast+)
  moreover have "neat_char (CHR ''/'')" by (simp add: neat_char_def)
  ultimately show ?thesis using neat_format_ip4 neat_format_ip6 neat_decimal by (auto simp: neat_def)
qed

lemma normalize_ip_neat: "normalize_ip v = Inr w \<Longrightarrow> neat w"
proof -
  assume v: "normalize_ip v = Inr w"
  have plain: "neat (format_ip4 f)" if "parse_ip v = Some ip" "to4 ip = Some f" for ip f
    using to4_quad [OF _ that(2)] parse_addr_full [of v] that(1) format_ip4_nonempty neat_format_ip4
    unfolding parse_ip_def neat_def by fastforce
  have "neat all_ipv4" by (simp add: neat_def neat_char_def)
  then show ?thesis
    using v parse_cidr_neat plain by (auto simp: normalize_ip_def bind_eq_Some_conv split: if_splits option.splits prod.splits)
qed

lemma collect_fixed: "list_all (\<lambda>v. f v = Inr v) vs \<Longrightarrow> collect f vs = Inr vs"
  by (induction vs) auto

lemma collect_image: "collect f xs = Inr vs \<Longrightarrow> v \<in> set vs \<Longrightarrow> \<exists>x\<in>set xs. f x = Inr v"
  by (induction xs arbitrary: vs) (auto split: sum.splits)

lemma collect_nonempty: "collect f xs = Inr vs \<Longrightarrow> vs = [] \<longleftrightarrow> xs = []"
  by (cases xs) (auto split: sum.splits)

lemma unique_values_simps [simp]: "set (unique_values vs) = set vs" "distinct (unique_values vs)"
  by (simp_all add: unique_values_def)

lemma unique_values_distinct: "distinct vs \<Longrightarrow> unique_values vs = vs"
  by (simp add: unique_values_def distinct_remdups_id)

lemma normalize_ips_facts:
  assumes "normalize_ips raw = Inr vs"
  shows "vs \<noteq> []" "list_all neat vs" "distinct vs" "sorted vs" "v \<in> set vs \<Longrightarrow> v = all_ipv4 \<or> (\<exists>x. normalize_ip x = Inr v)"
proof -
  obtain ws where ws: "vs = [all_ipv4] \<or> ws \<noteq> [] \<and> vs = sort (unique_values ws) \<and> (\<forall>w\<in>set ws. \<exists>x. normalize_ip x = Inr w)"
  proof (cases "split_values raw = []")
    case False
    then obtain ws where "collect normalize_ip (split_values raw) = Inr ws" "vs = sort (unique_values ws)"
      using assms by (auto simp: normalize_ips_def split: sum.splits)
    note ws = this
    have "ws \<noteq> []" using collect_nonempty [OF ws(1)] False by simp
    moreover have "\<forall>w\<in>set ws. \<exists>x. normalize_ip x = Inr w" using collect_image [OF ws(1)] by blast
    ultimately show ?thesis using that [of ws] ws(2) by simp
  qed (use assms that in \<open>auto simp: normalize_ips_def\<close>)
  have "neat all_ipv4" by (simp add: neat_def neat_char_def)
  then show "vs \<noteq> []" "list_all neat vs" "distinct vs" "sorted vs"
    using ws normalize_ip_neat by (auto simp: list_all_iff) (metis set_empty set_sort unique_values_simps(1))+
  show "v \<in> set vs \<Longrightarrow> v = all_ipv4 \<or> (\<exists>x. normalize_ip x = Inr v)" using ws by auto
qed

lemma normalize_ips_again:
  assumes "normalize_ips raw = Inr vs" "list_all (\<lambda>v. CHR '':'' \<notin> set v) vs"
  shows "normalize_ips (join_with CHR '','' vs) = Inr vs"
proof -
  note facts = normalize_ips_facts [OF assms(1)]
  have "normalize_ip v = Inr v" if "v \<in> set vs" for v
    using facts(5) [OF that] normalize_ip_value ipv4_value_fixed assms(2) that by (auto simp: list_all_iff normalize_ip_def [of all_ipv4])
  then have "collect normalize_ip vs = Inr vs" by (intro collect_fixed) (simp add: list_all_iff)
  then show ?thesis
    using facts by (simp add: normalize_ips_def split_values_join unique_values_distinct sorted_sort_id)
qed

section \<open>Ports\<close>

definition port_text :: "nat \<Rightarrow> nat \<Rightarrow> string" where
  "port_text a b = (if a = b then decimal a else decimal a @ CHR ''-'' # decimal b)"

definition port_value :: "string \<Rightarrow> bool" where
  "port_value w \<longleftrightarrow> (\<exists>a b. 1 \<le> a \<and> a \<le> b \<and> b \<le> 65535 \<and> w = port_text a b)"

lemma port_segments: "split_on CHR ''-'' (port_text a b) = (if a = b then [decimal a] else [decimal a, decimal b])"
  by (simp add: port_text_def split_part split_append decimal_no)

lemma neat_port: "neat (port_text a b)"
  using neat_decimal by (simp add: port_text_def neat_def decimal_not_Nil neat_char_def)

lemma trim_decimal [simp]: "trim_space (decimal n) = decimal n"
  by (rule neat_trim) (simp add: neat_def decimal_not_Nil neat_decimal)

lemma normalize_port_value: "normalize_port v = Inr w \<Longrightarrow> port_value w"
proof -
  assume v: "normalize_port v = Inr w"
  obtain start ok where start: "atoi (trim_space (split_on CHR ''-'' v ! 0)) = (start, ok)" by fastforce
  obtain stop ok' where stop: "atoi (trim_space (split_on CHR ''-'' v ! 1)) = (stop, ok')" by fastforce
  have "1 \<le> start \<and> start \<le> 65535 \<and> (w = decimal (nat start) \<or> start \<le> stop \<and> stop \<le> 65535 \<and> stop \<noteq> start
      \<and> w = decimal (nat start) @ CHR ''-'' # decimal (nat stop))"
    using v unfolding normalize_port_def Let_def start stop by (auto simp: format_int_def split: if_split_asm)
  then have "1 \<le> nat start \<and> nat start \<le> 65535 \<and> (w = port_text (nat start) (nat start)
      \<or> nat start \<le> nat stop \<and> nat stop \<le> 65535 \<and> w = port_text (nat start) (nat stop))"
    by (auto simp: port_text_def nat_le_iff)
  then show ?thesis unfolding port_value_def by blast
qed

lemma normalize_port_fixed: "port_value w \<Longrightarrow> normalize_port w = Inr w"
proof -
  assume "port_value w"
  then obtain a b where ab: "1 \<le> a" "a \<le> b" "b \<le> 65535" "w = port_text a b" by (auto simp: port_value_def)
  then show ?thesis
    unfolding normalize_port_def Let_def ab(4) port_segments by (simp add: atoi_decimal format_int_def) (simp add: port_text_def)
qed

lemma port_bounds_text: "a \<le> 65535 \<Longrightarrow> b \<le> 65535 \<Longrightarrow> port_bounds (port_text a b) = (int a, int b)"
  unfolding port_bounds_def Let_def port_segments by (simp add: atoi_decimal)

lemma normalize_ports_facts:
  assumes sort: "\<And>xs. mset (re_sort_ports env xs) = mset xs" and ports: "normalize_ports env raw protocol = Inr vs"
  shows "list_all port_value vs" "list_all neat vs" "distinct vs" "protocol = ''icmp'' \<or> protocol = ''all'' \<Longrightarrow> vs = []"
proof -
  obtain ws where ws: "vs = [] \<or> vs = re_sort_ports env (unique_values ws) \<and> protocol \<noteq> ''icmp'' \<and> protocol \<noteq> ''all''
      \<and> (\<forall>w\<in>set ws. port_value w)"
  proof (cases "vs = []")
    case False
    then obtain ws where ws: "collect normalize_port (map trim_space (split_on CHR '','' raw)) = Inr ws"
      "vs = re_sort_ports env (unique_values ws)" "protocol \<noteq> ''icmp''" "protocol \<noteq> ''all''"
      using ports unfolding normalize_ports_def Let_def by (simp split: if_split_asm sum.split_asm)
    have "\<forall>w\<in>set ws. port_value w" using collect_image [OF ws(1)] normalize_port_value by blast
    then show ?thesis using that [of ws] ws by simp
  qed (use that in blast)
  have "set (re_sort_ports env xs) = set xs" "distinct (re_sort_ports env xs) = distinct xs" for xs
    using sort [of xs] by (metis set_mset_mset, metis mset_eq_imp_distinct_iff)
  then show "list_all port_value vs" "distinct vs" "protocol = ''icmp'' \<or> protocol = ''all'' \<Longrightarrow> vs = []"
    using ws by (auto simp: list_all_iff)
  then show "list_all neat vs" using neat_port unfolding list_all_iff port_value_def by auto
qed

lemma normalize_ports_again:
  assumes sort: "\<And>xs. mset (re_sort_ports env xs) = mset xs" and ports: "normalize_ports env raw protocol = Inr vs"
  shows "\<exists>ws. normalize_ports env (join_with CHR '','' vs) protocol = Inr ws \<and> mset ws = mset vs"
proof (cases "vs = []")
  case False
  note facts = normalize_ports_facts [OF assms]
  have "collect normalize_port vs = Inr vs"
    using facts(1) normalize_port_fixed by (intro collect_fixed) (auto simp: list_all_iff)
  moreover have "[] \<notin> set vs" using facts(2) by (auto simp: neat_def list_all_iff)
  ultimately show ?thesis
    using False facts sort [of vs] neat_parts [OF False facts(2)] join_not_blank [OF False facts(2)]
    by (auto simp: normalize_ports_def Let_def unique_values_distinct)
qed (simp add: normalize_ports_def)

section \<open>Rules\<close>

lemma lower_literals: "to_lower uni ''port'' = ''port''" "to_lower uni ''ip'' = ''ip''" "to_lower uni ''region'' = ''region''"
  "to_lower uni ''auto_block'' = ''auto_block''" "to_lower uni ''in'' = ''in''" "to_lower uni ''out'' = ''out''"
  "to_lower uni ''tcp'' = ''tcp''" "to_lower uni ''udp'' = ''udp''" "to_lower uni ''icmp'' = ''icmp''" "to_lower uni ''all'' = ''all''"
  "to_lower uni ''allow'' = ''allow''" "to_lower uni ''deny'' = ''deny''"
  by (simp_all add: case_simps)

lemma trim_literals: "trim_space ''port'' = ''port''" "trim_space ''ip'' = ''ip''" "trim_space ''region'' = ''region''"
  "trim_space ''auto_block'' = ''auto_block''" "trim_space ''in'' = ''in''" "trim_space ''out'' = ''out''"
  "trim_space ''tcp'' = ''tcp''" "trim_space ''udp'' = ''udp''" "trim_space ''icmp'' = ''icmp''" "trim_space ''all'' = ''all''"
  "trim_space ''allow'' = ''allow''" "trim_space ''deny'' = ''deny''"
  by (simp_all add: go_simps)

text \<open>What is known of an accepted rule.\<close>

lemma normalize_rule_facts:
  assumes "normalize_rule env now port rule = Inr nr"
  shows "nr_rule_type nr \<in> {''port'', ''ip'', ''region'', ''auto_block''}" "nr_direction nr \<in> {''in'', ''out''}"
    "nr_protocol nr \<in> {''tcp'', ''udp'', ''icmp'', ''all''}" "nr_strategy nr \<in> {''allow'', ''deny''}" "nr_state nr \<in> {0, 1}"
    "nr_rule_type nr \<noteq> ''port'' \<Longrightarrow> nr_direction nr = ''in'' \<and> nr_protocol nr = ''all''"
    "nr_remark nr = trim_space (ir_remark rule)" "nr_location nr = trim_space (ir_location rule)" "nr_expires_at nr = ir_expires_at rule"
    "length (runes (nr_remark nr)) \<le> 200" "length (runes (nr_location nr)) \<le> 128" "nr_rule_type nr = ''region'' \<Longrightarrow> nr_location nr \<noteq> []"
    "\<not> (case ir_expires_at rule of Some t \<Rightarrow> \<not> now < t | None \<Rightarrow> False)"
    "normalize_ips (ir_ips rule) = Inr (nr_ips nr)" "\<exists>raw. normalize_ports env raw (nr_protocol nr) = Inr (nr_ports nr)"
    "length (nr_ips nr) * max 1 (length (nr_ports nr)) \<le> 100" "\<not> blocks_everything nr" "\<not> blocks_panel nr port"
    "nr_rule_type nr = rule_kind env rule" "nr_state nr = (if ir_state rule \<noteq> 0 then 1 else 0)"
proof -
  let ?kind = "rule_kind env rule" and ?lower = "\<lambda>s. to_lower (re_lower env) (trim_space s)"
  let ?direction = "if ?kind = ''port'' then ?lower (ir_direction rule) else ''in''"
  let ?protocol = "if ?kind = ''port'' then ?lower (ir_protocol rule) else ''all''"
  obtain ips ports where ips: "normalize_ips (ir_ips rule) = Inr ips"
    and ports: "normalize_ports env (if ?kind = ''port'' then ir_ports rule else []) ?protocol = Inr ports"
    and nr: "nr = \<lparr>nr_rule_type = ?kind, nr_direction = ?direction, nr_protocol = ?protocol, nr_strategy = ?lower (ir_strategy rule),
        nr_ips = ips, nr_ports = ports, nr_remark = trim_space (ir_remark rule), nr_location = trim_space (ir_location rule),
        nr_expires_at = ir_expires_at rule, nr_state = (if ir_state rule \<noteq> 0 then 1 else 0)\<rparr>"
    and guards: "?kind \<in> {''port'', ''ip'', ''region'', ''auto_block''}" "?direction = ''in'' \<or> ?direction = ''out''"
      "?protocol \<in> {''tcp'', ''udp'', ''icmp'', ''all''}" "?lower (ir_strategy rule) = ''allow'' \<or> ?lower (ir_strategy rule) = ''deny''"
      "\<not> length (runes (trim_space (ir_remark rule))) > 200" "\<not> length (runes (trim_space (ir_location rule))) > 128"
      "\<not> (?kind = ''region'' \<and> trim_space (ir_location rule) = [])"
      "\<not> (case ir_expires_at rule of Some t \<Rightarrow> \<not> now < t | None \<Rightarrow> False)"
      "\<not> length ips * max 1 (length ports) > 100" "\<not> blocks_everything nr" "\<not> blocks_panel nr port"
    using assms unfolding normalize_rule_def Let_def guard_Inr case_Inr sum.inject by blast
  show "nr_rule_type nr \<in> {''port'', ''ip'', ''region'', ''auto_block''}" "nr_direction nr \<in> {''in'', ''out''}"
    "nr_protocol nr \<in> {''tcp'', ''udp'', ''icmp'', ''all''}" "nr_strategy nr \<in> {''allow'', ''deny''}"
    using guards(1-4) unfolding nr normalized_rule.simps by blast+
  show "nr_state nr \<in> {0, 1}" "nr_rule_type nr \<noteq> ''port'' \<Longrightarrow> nr_direction nr = ''in'' \<and> nr_protocol nr = ''all''"
    "nr_remark nr = trim_space (ir_remark rule)" "nr_location nr = trim_space (ir_location rule)" "nr_expires_at nr = ir_expires_at rule"
    "nr_rule_type nr = rule_kind env rule" "nr_state nr = (if ir_state rule \<noteq> 0 then 1 else 0)"
    unfolding nr normalized_rule.simps by simp_all
  show "length (runes (nr_remark nr)) \<le> 200" "length (runes (nr_location nr)) \<le> 128"
    "length (nr_ips nr) * max 1 (length (nr_ports nr)) \<le> 100" using guards(5,6,9) unfolding nr normalized_rule.simps by linarith+
  show "nr_rule_type nr = ''region'' \<Longrightarrow> nr_location nr \<noteq> []" "\<not> (case ir_expires_at rule of Some t \<Rightarrow> \<not> now < t | None \<Rightarrow> False)"
    "normalize_ips (ir_ips rule) = Inr (nr_ips nr)" "\<exists>raw. normalize_ports env raw (nr_protocol nr) = Inr (nr_ports nr)"
    "\<not> blocks_everything nr" "\<not> blocks_panel nr port"
    using guards(7,8,10,11) ips ports unfolding nr normalized_rule.simps by blast+
qed

lemma keyword_fixed:
  assumes "w \<in> {''port'', ''ip'', ''region'', ''auto_block'', ''in'', ''out'', ''tcp'', ''udp'', ''icmp'', ''all'', ''allow'', ''deny''}"
  shows "to_lower uni (trim_space w) = w"
  using assms by (elim insertE emptyE) (simp_all only: trim_literals lower_literals)

lemma blocks_panel_perm: "mset ports = mset (nr_ports nr) \<Longrightarrow> blocks_panel (nr\<lparr>nr_ports := ports\<rparr>) port = blocks_panel nr port"
proof -
  assume "mset ports = mset (nr_ports nr)"
  then have "set ports = set (nr_ports nr)" "ports = [] \<longleftrightarrow> nr_ports nr = []" by (auto dest: mset_eq_setD)
  then show ?thesis by (simp add: blocks_panel_def port_set_contains_def list_ex_iff)
qed

text \<open>The row keeps the normal form: normalising it once more changes nothing but the order of the ports.\<close>

lemma normalize_row:
  assumes sort: "\<And>xs. mset (re_sort_ports env xs) = mset xs" and nr: "normalize_rule env now port rule = Inr nr"
    and colon: "list_all (\<lambda>v. CHR '':'' \<notin> set v) (nr_ips nr)"
  shows "\<exists>ports. mset ports = mset (nr_ports nr)
    \<and> normalize_rule env now port (apply_normalized rule nr) = Inr (nr\<lparr>nr_ports := ports\<rparr>)"
proof -
  let ?row = "apply_normalized rule nr"
  note facts = normalize_rule_facts [OF nr]
  obtain raw where raw: "normalize_ports env raw (nr_protocol nr) = Inr (nr_ports nr)" using facts(15) by blast
  obtain ports where ports: "normalize_ports env (join_with CHR '','' (nr_ports nr)) (nr_protocol nr) = Inr ports" "mset ports = mset (nr_ports nr)"
    using normalize_ports_again [OF sort raw] by blast
  have ips: "normalize_ips (ir_ips ?row) = Inr (nr_ips nr)"
    using normalize_ips_again [OF facts(14) colon] by (simp add: apply_normalized_def)
  have lower: "to_lower (re_lower env) (trim_space (nr_direction nr)) = nr_direction nr"
    "to_lower (re_lower env) (trim_space (nr_protocol nr)) = nr_protocol nr"
    "to_lower (re_lower env) (trim_space (nr_strategy nr)) = nr_strategy nr"
    "to_lower (re_lower env) (trim_space (nr_rule_type nr)) = nr_rule_type nr"
    by (rule keyword_fixed, use facts(1-4) in blast)+
  have kind: "rule_kind env ?row = nr_rule_type nr"
    using lower(4) facts(1) by (auto simp: rule_kind_def apply_normalized_def)
  have none: "nr_rule_type nr \<noteq> ''port'' \<Longrightarrow> nr_ports nr = []" using normalize_ports_facts(4) [OF sort raw] facts(6) by blast
  have ports': "normalize_ports env (if nr_rule_type nr = ''port'' then ir_ports ?row else [])
      (if nr_rule_type nr = ''port'' then nr_protocol nr else ''all'') = Inr ports"
    using ports(1) facts(6) none by (cases "nr_rule_type nr = ''port''") (simp_all add: apply_normalized_def)
  have len: "length ports = length (nr_ports nr)" using ports(2) by (metis size_mset)
  have blocks: "\<not> blocks_everything (nr\<lparr>nr_ports := ports\<rparr>)" "\<not> blocks_panel (nr\<lparr>nr_ports := ports\<rparr>) port"
    using facts(17,18) blocks_panel_perm [OF ports(2)] by (simp_all add: blocks_everything_def)
  let ?same = "\<lparr>nr_rule_type = nr_rule_type nr, nr_direction = (if nr_rule_type nr = ''port'' then nr_direction nr else ''in''),
      nr_protocol = (if nr_rule_type nr = ''port'' then nr_protocol nr else ''all''), nr_strategy = nr_strategy nr, nr_ips = nr_ips nr,
      nr_ports = ports, nr_remark = trim_space (nr_remark nr), nr_location = trim_space (nr_location nr), nr_expires_at = nr_expires_at nr,
      nr_state = (if nr_state nr \<noteq> 0 then 1 else 0)\<rparr>"
  have same: "?same = nr\<lparr>nr_ports := ports\<rparr>" using facts(5-8) by (cases nr) auto
  have row: "ir_direction ?row = nr_direction nr" "ir_protocol ?row = nr_protocol nr" "ir_strategy ?row = nr_strategy nr"
    "ir_remark ?row = nr_remark nr" "ir_location ?row = nr_location nr" "ir_expires_at ?row = nr_expires_at nr" "ir_state ?row = nr_state nr"
    by (simp_all add: apply_normalized_def)
  have "normalize_rule env now port ?row = Inr (nr\<lparr>nr_ports := ports\<rparr>)"
    unfolding normalize_rule_def Let_def row kind lower ips ports' guard_Inr case_Inr
  proof (intro conjI exI)
    show "\<not> nr_rule_type nr \<notin> {''port'', ''ip'', ''region'', ''auto_block''}" using facts(1) by blast
    show "\<not> ((if nr_rule_type nr = ''port'' then nr_direction nr else ''in'') \<noteq> ''in''
      \<and> (if nr_rule_type nr = ''port'' then nr_direction nr else ''in'') \<noteq> ''out'')" using facts(2) by auto
    show "\<not> (if nr_rule_type nr = ''port'' then nr_protocol nr else ''all'') \<notin> {''tcp'', ''udp'', ''icmp'', ''all''}"
      using facts(3) by (cases "nr_rule_type nr = ''port''") simp_all
    show "\<not> (nr_strategy nr \<noteq> ''allow'' \<and> nr_strategy nr \<noteq> ''deny'')" using facts(4) by blast
    show "\<not> 200 < length (runes (trim_space (nr_remark nr)))" "\<not> 128 < length (runes (trim_space (nr_location nr)))"
      using facts(7,8,10,11) by (simp_all add: not_less)
    show "\<not> (nr_rule_type nr = ''region'' \<and> trim_space (nr_location nr) = [])" using facts(8,12) by auto
    show "\<not> (case nr_expires_at nr of None \<Rightarrow> False | Some t \<Rightarrow> \<not> now < t)" using facts(9,13) by simp
  qed (use facts(16) len blocks same in \<open>simp_all add: not_less\<close>)
  then show ?thesis using ports(2) by blast
qed

text \<open>The lists of the row are those that were validated, so its commands are bounded.\<close>

lemma expanded_row:
  assumes sort: "\<And>xs. mset (re_sort_ports env xs) = mset xs" and nr: "normalize_rule env now port rule = Inr nr"
    and row: "ir_ips row = join_with CHR '','' (nr_ips nr)" "ir_ports row = join_with CHR '','' (nr_ports nr)"
  shows "expanded_values row = (nr_ips nr, if nr_ports nr = [] then [[]] else nr_ports nr)"
proof -
  note facts = normalize_rule_facts [OF nr]
  obtain raw where raw: "normalize_ports env raw (nr_protocol nr) = Inr (nr_ports nr)" using facts(15) by blast
  show ?thesis
    using normalize_ips_facts(1,2) [OF facts(14)] normalize_ports_facts(2) [OF sort raw]
    by (simp add: expanded_values_def Let_def row split_values_join)
qed

lemma length_for_each_pair: "length (for_each_pair rule f) = length (fst (expanded_values rule)) * length (snd (expanded_values rule))"
  by (cases "expanded_values rule") (simp add: for_each_pair_def length_concat comp_def sum_list_triv)

section \<open>Properties\<close>

definition demo_rule_env :: rule_env where
  "demo_rule_env = \<lparr>re_lower = (\<lambda>s. s), re_sort_ports = sort_key (\<lambda>v. fst (port_bounds v))\<rparr>"

lemma demo_sort: "mset (re_sort_ports demo_rule_env xs) = mset xs"
  by (simp add: demo_rule_env_def)

definition demo_rule :: "string \<Rightarrow> string \<Rightarrow> iptables_rule" where
  "demo_rule strategy ips =
     \<lparr>ir_id = 0, ir_rule_type = ''ip'', ir_direction = [], ir_protocol = [], ir_strategy = strategy, ir_ips = ips,
      ir_ports = [], ir_state = 1, ir_remark = [], ir_location = [], ir_expires_at = None, ir_backend = [], ir_token = [],
      ir_protected = False\<rparr>"

lemma demo_rule_accepted:
  "\<exists>nr. normalize_rule demo_rule_env 0 8089 (demo_rule ''allow'' ''any'') = Inr nr \<and> nr_ips nr = [all_ipv4] \<and> nr_ports nr = []"
proof -
  have any: "split_values ''any'' = [''any'']" using split_values_join [of "[''any'']"] by (simp add: neat_def neat_char_def)
  have "normalize_ips ''any'' = Inr [all_ipv4]" by (simp add: normalize_ips_def any normalize_ip_def lower_char_def unique_values_def)
  moreover have "rule_kind demo_rule_env (demo_rule ''allow'' ips) = ''ip''" for ips
    using keyword_fixed [of "''ip''"] by (simp add: rule_kind_def demo_rule_def)
  moreover have "to_lower uni (trim_space ''allow'') = ''allow''" for uni by (rule keyword_fixed) simp
  ultimately show ?thesis
    unfolding normalize_rule_def Let_def by (simp add: demo_rule_def normalize_ports_def blocks_everything_def blocks_panel_def)
qed

text \<open>The key the ports are sorted by, and what \<open>sort.Slice\<close> promises of it; it need not be stable.\<close>

definition port_start :: "string \<Rightarrow> int" where
  "port_start v = fst (atoi (split_on CHR ''-'' v ! 0))"

definition sorts_ports :: "rule_env \<Rightarrow> bool" where
  "sorts_ports env \<longleftrightarrow> (\<forall>xs. mset (re_sort_ports env xs) = mset xs \<and> sorted (map port_start (re_sort_ports env xs)))"

lemma normalize_ports_sorted:
  assumes "sorts_ports env" "normalize_ports env raw protocol = Inr vs"
  shows "sorted (map port_start vs)"
  using assms by (auto simp: normalize_ports_def sorts_ports_def Let_def split: if_splits sum.splits)

text \<open>
  C27: normalising a rule settles it.  Take any rule that is accepted, and write its normal form
  back into the rule, as every operation that stores a rule does.  The result is accepted again
  and has the same normal form; its ports are the same, in the order of their starts, and only
  ranges with the same start may have changed places, as the sort is not stable.  What is
  installed, exported and imported is therefore what was validated.  The addresses must be IPv4:
  an IPv4-mapped IPv6 network with a short mask is normalised to an IPv6 network.
\<close>

theorem normalization_settles:
  assumes "sorts_ports env" and "normalize_rule env now port rule = Inr nr"
    and "list_all (\<lambda>v. CHR '':'' \<notin> set v) (nr_ips nr)"
  shows "\<exists>ports. mset ports = mset (nr_ports nr) \<and> sorted (map port_start ports)
    \<and> map port_start ports = map port_start (nr_ports nr)
    \<and> normalize_rule env now port (apply_normalized rule nr) = Inr (nr\<lparr>nr_ports := ports\<rparr>)"
proof -
  obtain ports where ports: "mset ports = mset (nr_ports nr)"
    "normalize_rule env now port (apply_normalized rule nr) = Inr (nr\<lparr>nr_ports := ports\<rparr>)"
    using normalize_row [OF _ assms(2,3)] assms(1) by (auto simp: sorts_ports_def)
  have "sorted (map port_start ports)" "sorted (map port_start (nr_ports nr))"
    using normalize_rule_facts(15) [OF ports(2)] normalize_rule_facts(15) [OF assms(2)] normalize_ports_sorted [OF assms(1)] by auto
  moreover from this have "map port_start ports = map port_start (nr_ports nr)"
    using ports(1) by (metis mset_map properties_for_sort)
  ultimately show ?thesis using ports by blast
qed

definition demo_port_rule :: iptables_rule where
  "demo_port_rule = (demo_rule ''allow'' ''any'')
     \<lparr>ir_rule_type := ''port'', ir_direction := ''in'', ir_protocol := ''tcp'', ir_ports := ''8000-8010,22,8000''\<rparr>"

lemma demo_any: "normalize_ips ''any'' = Inr [all_ipv4]"
proof -
  have "split_values ''any'' = [''any'']" using split_values_join [of "[''any'']"] by (simp add: neat_def neat_char_def)
  then show ?thesis by (simp add: normalize_ips_def normalize_ip_def lower_char_def unique_values_def)
qed

lemma demo_sorts: "sorts_ports demo_rule_env"
proof -
  have "fst (port_bounds v) = port_start v" for v by (simp add: port_bounds_def port_start_def Let_def)
  then show ?thesis by (simp add: sorts_ports_def demo_rule_env_def)
qed

lemma demo_port_texts:
  "port_text 22 22 = ''22''" "port_text 8000 8000 = ''8000''" "port_text 8000 8010 = ''8000-8010''"
  by (simp_all add: port_text_def decimal.simps digit_char_def)

lemma demo_starts: "port_start ''22'' = 22" "port_start ''8000'' = 8000" "port_start ''8000-8010'' = 8000"
proof -
  have "port_start (port_text a b) = int a" if "a \<le> 65535" for a b
    unfolding port_start_def port_segments using that by (simp add: atoi_decimal)
  from this [of 22 22] this [of 8000 8000] this [of 8000 8010]
  show "port_start ''22'' = 22" "port_start ''8000'' = 8000" "port_start ''8000-8010'' = 8000" unfolding demo_port_texts by simp_all
qed

lemma demo_ports: "normalize_ports demo_rule_env ''8000-8010,22,8000'' ''tcp'' = Inr [''22'', ''8000-8010'', ''8000'']"
proof -
  let ?vs = "[''8000-8010'', ''22'', ''8000'']"
  have "port_value (port_text a b)" if "1 \<le> a" "a \<le> b" "b \<le> 65535" for a b
    using that unfolding port_value_def by blast
  from this [of 22 22] this [of 8000 8000] this [of 8000 8010] have "list_all port_value ?vs" unfolding demo_port_texts by simp
  then have vs: "list_all neat ?vs" "collect normalize_port ?vs = Inr ?vs"
    using neat_port normalize_port_fixed by (auto simp: port_value_def list_all_iff intro!: collect_fixed)
  have "map trim_space (split_on CHR '','' ''8000-8010,22,8000'') = ?vs" "trim_space ''8000-8010,22,8000'' \<noteq> []"
    using neat_parts [of ?vs] join_not_blank [of ?vs] vs(1) by simp_all
  moreover have "fst (port_bounds v) = port_start v" for v by (simp add: port_bounds_def port_start_def Let_def)
  ultimately show ?thesis
    using vs(2) by (simp add: normalize_ports_def Let_def unique_values_distinct demo_rule_env_def sort_key_def demo_starts)
qed

lemma demo_port_rule_accepted:
  "\<exists>nr. normalize_rule demo_rule_env 0 8089 demo_port_rule = Inr nr \<and> nr_ips nr = [all_ipv4]
     \<and> nr_ports nr = [''22'', ''8000-8010'', ''8000'']"
proof -
  have "rule_kind demo_rule_env demo_port_rule = ''port''"
    using keyword_fixed [of "''port''"] by (simp add: rule_kind_def demo_port_rule_def)
  moreover have "to_lower uni (trim_space w) = w" if "w \<in> {''in'', ''tcp'', ''allow''}" for uni w
    by (rule keyword_fixed) (use that in auto)
  ultimately show ?thesis
    unfolding normalize_rule_def Let_def
    by (simp add: demo_port_rule_def demo_rule_def demo_any demo_ports blocks_everything_def blocks_panel_def)
qed

theorem normalization_settles_witness:
  "\<exists>nr ports. normalize_rule demo_rule_env 0 8089 demo_port_rule = Inr nr \<and> nr_ports nr = [''22'', ''8000-8010'', ''8000'']
    \<and> mset ports = mset (nr_ports nr) \<and> map port_start ports = [22, 8000, 8000]
    \<and> normalize_rule demo_rule_env 0 8089 (apply_normalized demo_port_rule nr) = Inr (nr\<lparr>nr_ports := ports\<rparr>)"
proof -
  obtain nr where nr: "normalize_rule demo_rule_env 0 8089 demo_port_rule = Inr nr" "nr_ips nr = [all_ipv4]"
    "nr_ports nr = [''22'', ''8000-8010'', ''8000'']"
    using demo_port_rule_accepted by blast
  then have "list_all (\<lambda>v. CHR '':'' \<notin> set v) (nr_ips nr)" by simp
  moreover have "map port_start [''22'', ''8000-8010'', ''8000''] = [22, 8000, 8000]" by (simp add: demo_starts)
  ultimately show ?thesis using normalization_settles [OF demo_sorts nr(1)] nr(1,3) by metis
qed

text \<open>
  C35: an accepted rule needs at most a hundred commands on each firewall, one for each pair of an
  address and a port of the normal form.
\<close>

theorem accepted_rule_bounded:
  assumes "\<And>xs. mset (re_sort_ports env xs) = mset xs" and "normalize_rule env now port rule = Inr nr"
  shows "\<forall>ops \<in> {ufw_rule_operations, iptables_rule_operations, \<lambda>r. firewalld_rule_operations r program permanent}.
    length (ops (apply_normalized rule nr)) = length (nr_ips nr) * max 1 (length (nr_ports nr)) \<and> length (ops (apply_normalized rule nr)) \<le> 100"
proof -
  let ?row = "apply_normalized rule nr"
  have vals: "expanded_values ?row = (nr_ips nr, if nr_ports nr = [] then [[]] else nr_ports nr)"
    by (rule expanded_row [OF assms]) (simp_all add: apply_normalized_def)
  have "length (if nr_ports nr = [] then [[]] else nr_ports nr) = max 1 (length (nr_ports nr))" by (cases "nr_ports nr") auto
  then have n: "length (for_each_pair ?row f) = length (nr_ips nr) * max 1 (length (nr_ports nr))" for f
    unfolding length_for_each_pair vals by simp
  show ?thesis
    using normalize_rule_facts(16) [OF assms(2)]
    by (auto simp: n ufw_rule_operations_def iptables_rule_operations_def firewalld_rule_operations_def firewalld_direct_operations_def)
qed

theorem accepted_rule_bounded_witness:
  "\<exists>nr. normalize_rule demo_rule_env 0 8089 (demo_rule ''allow'' ''any'') = Inr nr
    \<and> length (iptables_rule_operations (apply_normalized (demo_rule ''allow'' ''any'') nr)) = 1"
proof -
  obtain nr where nr: "normalize_rule demo_rule_env 0 8089 (demo_rule ''allow'' ''any'') = Inr nr" "nr_ips nr = [all_ipv4]" "nr_ports nr = []"
    using demo_rule_accepted by blast
  from accepted_rule_bounded [OF demo_sort nr(1)] show ?thesis using nr by auto
qed

text \<open>
  C39: the guard against blocking everything looks for one spelling.  A rule that denies the two
  halves of the address space is accepted although together they are every IPv4 address, the
  panel's port included; with the network as a whole it is refused.
\<close>

theorem deny_all_by_halves:
  "normalize_rule demo_rule_env now port (demo_rule ''deny'' ''0.0.0.0/0'') = Inl BlocksEverything
   \<and> (\<exists>nr. normalize_rule demo_rule_env now port (demo_rule ''deny'' ''0.0.0.0/1,128.0.0.0/1'') = Inr nr
        \<and> nr_direction nr = ''in'' \<and> nr_protocol nr = ''all'' \<and> nr_strategy nr = ''deny''
        \<and> {format_ip4 (mask_bytes 1 f) @ ''/1'' |f. quad f} \<subseteq> set (nr_ips nr))"
proof -
  have lit: "format_ip4 [0, 0, 0, 0] @ ''/1'' = ''0.0.0.0/1''" "format_ip4 [128, 0, 0, 0] @ ''/1'' = ''128.0.0.0/1''"
    by (simp_all add: format_ip4_def decimal.simps digit_char_def)
  have one: "decimal (Suc 0) = ''1''" by (subst decimal.simps) (simp add: digit_char_def)
  have halves: "ipv4_value ''0.0.0.0/1''" "ipv4_value ''128.0.0.0/1''"
  proof -
    have "ipv4_value (format_ip4 f @ ''/1'')" if "quad f" "mask_bytes 1 f = f" for f
      unfolding ipv4_value_def using that by (intro exI [of _ f] conjI disjI2 exI [of _ 1]) (simp_all add: one)
    from this [of "[0, 0, 0, 0]"] this [of "[128, 0, 0, 0]"] show "ipv4_value ''0.0.0.0/1''" "ipv4_value ''128.0.0.0/1''"
      unfolding lit by (simp_all add: quad_def mask_byte_def)
  qed
  have all: "split_values all_ipv4 = [all_ipv4]" and two: "split_values ''0.0.0.0/1,128.0.0.0/1'' = [''0.0.0.0/1'', ''128.0.0.0/1'']"
    using split_values_join [of "[all_ipv4]"] split_values_join [of "[''0.0.0.0/1'', ''128.0.0.0/1'']"]
    by (simp_all add: neat_def neat_char_def)
  have ips: "normalize_ips all_ipv4 = Inr [all_ipv4]" "normalize_ips ''0.0.0.0/1,128.0.0.0/1'' = Inr [''0.0.0.0/1'', ''128.0.0.0/1'']"
    using ipv4_value_fixed [OF halves(1)] ipv4_value_fixed [OF halves(2)]
    by (simp_all add: normalize_ips_def all two normalize_ip_def [of all_ipv4] unique_values_def)
  have cover: "{format_ip4 (mask_bytes 1 f) @ ''/1'' |f. quad f} \<subseteq> {''0.0.0.0/1'', ''128.0.0.0/1''}"
  proof -
    have "format_ip4 (mask_bytes 1 f) @ ''/1'' \<in> {''0.0.0.0/1'', ''128.0.0.0/1''}" if q: "quad f" for f
    proof -
      obtain a b c d where f: "f = [a, b, c, d]" "a \<le> 255" "b \<le> 255" "c \<le> 255" "d \<le> 255"
        by (rule quad_cases [OF q])
      have half: "mask_byte 1 a = 0 \<or> mask_byte 1 a = 128"
      proof -
        have "a div 128 < 2" using f(2) by (intro less_mult_imp_div_less) simp
        then have "a div 128 = 0 \<or> a div 128 = 1" by linarith
        then show ?thesis by (auto simp: mask_byte_def)
      qed
      have zero: "mask_byte 0 x = 0" if "x \<le> 255" for x using that by (simp add: mask_byte_def)
      have "mask_bytes 1 f \<in> {[0, 0, 0, 0], [128, 0, 0, 0]}" using f zero half by auto
      then show ?thesis using lit by auto
    qed
    then show ?thesis by blast
  qed
  have kind: "rule_kind demo_rule_env (demo_rule ''deny'' ips) = ''ip''" for ips
    using keyword_fixed [of "''ip''"] by (simp add: rule_kind_def demo_rule_def)
  have deny: "to_lower uni (trim_space ''deny'') = ''deny''" for uni by (rule keyword_fixed) simp
  have "\<exists>nr. normalize_rule demo_rule_env now port (demo_rule ''deny'' ''0.0.0.0/1,128.0.0.0/1'') = Inr nr
      \<and> nr_direction nr = ''in'' \<and> nr_protocol nr = ''all'' \<and> nr_strategy nr = ''deny'' \<and> nr_ips nr = [''0.0.0.0/1'', ''128.0.0.0/1'']"
    unfolding normalize_rule_def Let_def kind by (simp add: demo_rule_def ips(2) deny normalize_ports_def blocks_everything_def
      contains_all_ipv4_def blocks_panel_def)
  moreover have "normalize_rule demo_rule_env now port (demo_rule ''deny'' all_ipv4) = Inl BlocksEverything"
    unfolding normalize_rule_def Let_def kind by (simp add: demo_rule_def ips(1) deny normalize_ports_def blocks_everything_def
      contains_all_ipv4_def)
  ultimately show ?thesis using cover by auto
qed

end
