(* ===== verification/Firewall_Table.thy ===== *)
theory Firewall_Table
  imports Firewall_Forward Firewall_Valid
begin

text \<open>
  The table of the rules under any history of operations, whatever the host and the engine
  answer: every row is in normal form and blocks neither the panel nor everything, and the rows
  that protect the panel port are changed by the operations made for that only.
\<close>

section \<open>Structural rules\<close>

lemma keeps_on_error [keeps_rules]: "keeps I m \<Longrightarrow> keeps I c \<Longrightarrow> keeps I (on_error m c)"
  unfolding keeps_def on_error_def bnd_def by (auto split: prod.split sum.split)

lemma keeps_if_so [keeps_rules]: "keeps I m \<Longrightarrow> keeps I (if_so b m)"
  by (simp add: if_so_def keeps_ret)

lemma keeps_outcome [keeps_rules]: "keeps I m \<Longrightarrow> (\<And>r. keeps I (f r)) \<Longrightarrow> keeps I (outcome m f)"
  unfolding keeps_def outcome_def by (auto split: prod.split)

lemma keeps_count [keeps_rules]:
  assumes "\<And>x. keeps I (f x)"
  shows "keeps I (count_until_error f n xs)"
proof (induction xs arbitrary: n)
  case (Cons x xs)
  show ?case unfolding count_until_error.simps by (intro keeps_rules assms Cons)
qed (simp add: keeps_ret)

lemma keeps_list [keeps_rules]:
  "keeps I m \<Longrightarrow> (\<And>x xs. keeps I (f x xs)) \<Longrightarrow> keeps I (case ys of [] \<Rightarrow> m | x # xs \<Rightarrow> f x xs)"
  by (cases ys) auto

lemma moves_on_error [moves_rules]: "moves P Q m \<Longrightarrow> keeps Q c \<Longrightarrow> moves P Q (on_error m c)"
  unfolding moves_def keeps_def on_error_def bnd_def by (auto split: prod.split sum.split)

text \<open>
  A predicate that neither a change of the host nor a failure that is ignored can end; every action on the host keeps it.
\<close>

locale lasting =
  fixes I :: "'h firewall \<Rightarrow> bool"
  assumes host_change: "I db \<Longrightarrow> I (db\<lparr>fw_host := h\<rparr>)"
    and missed_change: "I db \<Longrightarrow> I (db\<lparr>fw_missed := True\<rparr>)"
begin

lemma keeps_host_call [keeps_rules]: "keeps I (host_call f)"
  by (auto simp: keeps_def host_call_def host_change split: prod.split)

lemma keeps_ignored [keeps_rules]: "keeps I m \<Longrightarrow> keeps I (ignored m)"
  by (auto simp: keeps_def ignored_def missed_change split: prod.split sum.split)

lemma keeps_primitive [keeps_rules]:
  "keeps I (look_path env name)" "keeps I (run_program env name args)"
  unfolding look_path_def run_program_def by (intro keeps_rules)+

lemma keeps_command [keeps_rules]: "keeps I (command env name args)"
  unfolding command_def by (intro keeps_rules)

lemma keeps_host_actions [keeps_rules]:
  "keeps I (persist env backend)" "keeps I (rollback_operations env applied)"
  "keeps I (normalized env rule)" "keeps I (detect_backend env)" "keeps I (rule_operations env rule)"
  "keeps I (rule_exists env rule st)" "keeps I (toggle_backend env backend enabled)"
  "keeps I (ping_blocked env st)" "keeps I (write_ufw env t)"
  unfolding persist_def rollback_operations_def normalized_def detect_backend_def detect_ufw_def detect_firewalld_def
    detect_iptables_def rule_operations_def rule_exists_def toggle_backend_def write_ufw_def ping_blocked_def Let_def
  by (intro keeps_rules)+

lemma keeps_later_actions [keeps_rules]:
  "keeps I (set_ufw_ping_blocked env blocked)" "keeps I (backend_of env rule)"
  "keeps I (protection_operations env st rule)" "keeps I (firewalld_running env)"
  unfolding set_ufw_ping_blocked_def backend_of_def protection_operations_def firewalld_running_def Let_def
  by (intro keeps_rules)+

lemma keeps_run_each: "keeps I (run_each env applied ops)"
proof (induction ops arbitrary: applied)
  case (Cons c ops)
  then show ?case unfolding run_each.simps by (intro keeps_rules)
qed (simp add: keeps_ret)

lemma keeps_runs [keeps_rules]: "keeps I (run_operations env backend ops)"
  unfolding run_operations_def by (intro keeps_rules keeps_run_each)

lemma keeps_installs [keeps_rules]:
  "keeps I (install_rule env rule)" "keeps I (uninstall_rule env rule)"
  "keeps I (set_ping_blocked env blocked)"
  unfolding install_rule_def uninstall_rule_def set_ping_blocked_def by (intro keeps_rules)+

lemma keeps_reusable [keeps_rules]: "keeps I (reusable_rule env st port candidates)"
proof (induction candidates)
  case (Cons c cs)
  show ?case unfolding reusable_rule.simps Let_def by (intro keeps_rules Cons)
qed (simp only: reusable_rule.simps keeps_ret)

end

text \<open>The predicates of the tables are of this kind, and so is that something was missed.\<close>

definition on_table :: "(iptables_rule list \<Rightarrow> int \<Rightarrow> port_forward list \<Rightarrow> auto_block_config option \<Rightarrow> bool) \<Rightarrow> 'h firewall \<Rightarrow> bool" where
  "on_table J db \<longleftrightarrow> J (fw_rules db) (fw_last db) (fw_forwards db) (fw_auto db)"

interpretation table: lasting "on_table J" for J
  by unfold_locales (simp_all add: on_table_def)

interpretation missed: lasting fw_missed
  by unfold_locales simp_all

section \<open>Sound rows\<close>

definition typed_row :: "iptables_rule \<Rightarrow> bool" where
  "typed_row r \<longleftrightarrow>
     ir_rule_type r \<in> {''port'', ''ip'', ''region'', ''auto_block''} \<and> ir_direction r \<in> {''in'', ''out''}
     \<and> ir_protocol r \<in> {''tcp'', ''udp'', ''icmp'', ''all''} \<and> ir_strategy r \<in> {''allow'', ''deny''} \<and> ir_state r \<in> {0, 1}
     \<and> split_values (ir_ips r) \<noteq> [] \<and> list_all port_value (split_values (ir_ports r))
     \<and> (ir_protocol r \<in> {''icmp'', ''all''} \<longrightarrow> split_values (ir_ports r) = [])
     \<and> (ir_rule_type r \<noteq> ''port'' \<longrightarrow> ir_direction r = ''in'' \<and> ir_protocol r = ''all'')"

text \<open>
  An item of a list of ports names a port when it is its number or a range around it; this is read
  off the text, not with the functions of the guard.  The row denies the port, or everything to
  everyone in one network.
\<close>

definition names_port :: "string \<Rightarrow> int \<Rightarrow> bool" where
  "names_port item port \<longleftrightarrow>
     (\<exists>a b. b \<le> 65535 \<and> int a \<le> port \<and> port \<le> int b
        \<and> (item = decimal a \<and> a = b \<or> item = decimal a @ CHR ''-'' # decimal b \<and> a < b))"

definition closes_port :: "int \<Rightarrow> iptables_rule \<Rightarrow> bool" where
  "closes_port port r \<longleftrightarrow>
     ir_direction r = ''in'' \<and> ir_strategy r = ''deny''
     \<and> (ir_protocol r \<in> {''tcp'', ''udp''}
           \<and> (split_values (ir_ports r) = [] \<or> (\<exists>item\<in>set (split_values (ir_ports r)). names_port item port))
        \<or> ir_protocol r = ''all'' \<and> ''0.0.0.0/0'' \<in> set (split_values (ir_ips r)))"

lemma names_port_contained: "names_port item port \<Longrightarrow> item \<in> set ports \<Longrightarrow> port_set_contains ports port"
proof -
  assume "names_port item port" and item: "item \<in> set ports"
  then obtain a b where ab: "b \<le> 65535" "int a \<le> port" "port \<le> int b"
    "item = decimal a \<and> a = b \<or> item = decimal a @ CHR ''-'' # decimal b \<and> a < b" unfolding names_port_def by blast
  from ab(4) have form: "item = port_text a b" "a \<le> b" by (auto simp: port_text_def)
  have "port_bounds item = (int a, int b)" unfolding form(1) using ab(1) form(2) by (intro port_bounds_text) simp_all
  then show ?thesis using ab(2,3) item by (force simp: port_set_contains_def list_ex_iff)
qed

lemma open_port: "\<not> port_set_contains ports port \<Longrightarrow> ports \<noteq> [] \<and> (\<forall>item\<in>set ports. \<not> names_port item port)"
  using names_port_contained by (auto simp: port_set_contains_def)

definition typed_forward :: "port_forward \<Rightarrow> bool" where
  "typed_forward f \<longleftrightarrow>
     pf_protocol f \<in> {''tcp'', ''udp''} \<and> pf_source_port f \<in> {1..65535} \<and> pf_destination_port f \<in> {1..65535}
     \<and> pf_state f \<in> {0, 1} \<and> pf_backend f = BackendFirewalld \<and> (\<exists>q. quad q \<and> pf_destination_ip f = format_ip4 q)"

definition typed_policy :: "auto_block_config \<Rightarrow> bool" where
  "typed_policy c \<longleftrightarrow> ab_threshold c \<in> {3..100} \<and> ab_window_minutes c \<in> {1..1440} \<and> ab_ban_minutes c \<in> {5..525600}"

definition keyed :: "iptables_rule list \<Rightarrow> int \<Rightarrow> bool" where
  "keyed rows n \<longleftrightarrow> distinct (map ir_id rows) \<and> list_all (\<lambda>r. ir_id r \<le> n) rows"

definition sound :: "int \<Rightarrow> iptables_rule list \<Rightarrow> int \<Rightarrow> port_forward list \<Rightarrow> auto_block_config option \<Rightarrow> bool" where
  "sound port rows n forwards policy \<longleftrightarrow>
     keyed rows n \<and> list_all (\<lambda>r. typed_row r \<and> \<not> closes_port port r) rows
     \<and> list_all (\<lambda>f. typed_forward f \<and> pf_source_port f \<noteq> port) forwards \<and> pred_option typed_policy policy"

definition row_content :: "iptables_rule \<Rightarrow> string \<times> string \<times> string \<times> string \<times> string \<times> string" where
  "row_content r = (ir_rule_type r, ir_direction r, ir_protocol r, ir_strategy r, ir_ips r, ir_ports r)"

lemma row_content_cong:
  assumes "row_content r = row_content r'" "ir_state r \<in> {0, 1}" "typed_row r'" "\<not> closes_port port r'"
  shows "typed_row r \<and> \<not> closes_port port r"
  using assms unfolding row_content_def typed_row_def closes_port_def by simp

lemma normalized_row_sound:
  assumes sort: "\<And>xs. mset (re_sort_ports env xs) = mset xs" and nr: "normalize_rule env now port rule = Inr nr"
  shows "typed_row (apply_normalized rule nr) \<and> \<not> closes_port port (apply_normalized rule nr)"
proof -
  let ?row = "apply_normalized rule nr"
  note facts = normalize_rule_facts [OF nr]
  obtain raw where raw: "normalize_ports env raw (nr_protocol nr) = Inr (nr_ports nr)" using facts(15) by blast
  have ips: "split_values (ir_ips ?row) = nr_ips nr" and ports: "split_values (ir_ports ?row) = nr_ports nr"
    using normalize_ips_facts(2) [OF facts(14)] normalize_ports_facts(2) [OF sort raw]
    by (simp_all add: apply_normalized_def split_values_join)
  have eqs: "ir_rule_type ?row = nr_rule_type nr" "ir_direction ?row = nr_direction nr" "ir_protocol ?row = nr_protocol nr"
    "ir_strategy ?row = nr_strategy nr" "ir_state ?row = nr_state nr"
    by (simp_all add: apply_normalized_def)
  show ?thesis
    unfolding typed_row_def closes_port_def ips ports eqs
    using facts(1-6,17,18) normalize_ports_facts(1,4) [OF sort raw] normalize_ips_facts(1) [OF facts(14)]
      open_port [of "nr_ports nr" port]
    unfolding blocks_everything_def blocks_panel_def contains_all_ipv4_def list_ex_iff by blast
qed

section \<open>Operations keep the tables sound\<close>

lemma sound_filter: "on_table (sound port) db \<Longrightarrow> on_table (sound port) (db\<lparr>fw_rules := filter p (fw_rules db)\<rparr>)"
  by (auto simp: on_table_def sound_def keyed_def list_all_iff distinct_map inj_on_def)

lemma keeps_delete_row [keeps_rules]: "keeps (on_table (sound port)) (delete_row rule_id)"
  unfolding delete_row_def by (intro keeps_rules sound_filter)

lemma keeps_update_row:
  assumes "\<And>r. typed_row r \<and> \<not> closes_port port r \<Longrightarrow> typed_row (f r) \<and> \<not> closes_port port (f r)" and id: "\<And>r. ir_id (f r) = ir_id r"
  shows "keeps (on_table (sound port)) (update_row rule_id f)"
proof -
  have ids: "map ir_id (upd_where p f rows) = map ir_id rows" for p rows
    by (auto simp: upd_where_def id)
  show ?thesis
    unfolding update_row_def
  proof (rule keeps_modify)
    fix db :: "'a firewall" assume old: "on_table (sound port) db"
    let ?rows = "upd_where (\<lambda>r. ir_id r = rule_id) f (fw_rules db)"
    have "list_all (\<lambda>r. typed_row r \<and> \<not> closes_port port r) ?rows" "list_all (\<lambda>r. ir_id r \<le> fw_last db) ?rows"
      using old assms by (auto simp: on_table_def sound_def keyed_def upd_where_def list_all_iff)
    then show "on_table (sound port) (db\<lparr>fw_rules := ?rows\<rparr>)"
      using old ids by (simp add: on_table_def sound_def keyed_def)
  qed
qed

lemma keyed_append: "keyed rows n \<Longrightarrow> ir_id r = n + 1 \<Longrightarrow> keyed (rows @ [r]) (n + 1)"
  by (fastforce simp: keyed_def list_all_iff)

lemma typed_default: "typed_row r \<Longrightarrow> r\<lparr>ir_rule_type := default_string (ir_rule_type r) ''port''\<rparr> = r"
  by (cases r) (auto simp: typed_row_def default_string_def)

lemma keeps_create_row:
  assumes "typed_row (r\<lparr>ir_rule_type := default_string (ir_rule_type r) ''port''\<rparr>)" "\<not> closes_port port r"
  shows "keeps (on_table (sound port)) (create_row r)"
proof -
  let ?new = "\<lambda>n. r\<lparr>ir_id := n, ir_rule_type := default_string (ir_rule_type r) ''port''\<rparr>"
  have new: "typed_row (?new n)" "\<not> closes_port port (?new n)" for n
    using assms by (simp_all add: typed_row_def closes_port_def)
  show ?thesis
    unfolding create_row_def
    by (rule keeps_exec) (simp add: Let_def on_table_def sound_def keyed_append new)
qed

lemma keeps_find [keeps_rules]: "keeps I (find_rule rule_id)" "keeps I (find_forward forward_id)"
  unfolding find_rule_def find_forward_def by (intro keeps_rules)+

lemma keeps_bnd_returns:
  assumes "keeps I m" "\<And>s a s'. m s = (Inr a, s') \<Longrightarrow> R a" "\<And>a. R a \<Longrightarrow> keeps I (f a)"
  shows "keeps I (bnd m f)"
  by (rule keeps_bnd_dep [OF assms(1)]) (use assms(2,3) in \<open>auto simp: keeps_def\<close>)

lemma normalized_returns:
  "normalized env rule s = (Inr nr, s') \<Longrightarrow> \<exists>now. normalize_rule (fe_rules env) now (fe_panel_port env) rule = Inr nr"
proof -
  assume "normalized env rule s = (Inr nr, s')"
  then obtain now s1 where "(case normalize_rule (fe_rules env) now (fe_panel_port env) rule of
      Inl e \<Rightarrow> throw (InvalidRule e) | Inr nr \<Rightarrow> ret nr) s1 = (Inr nr, s')"
    unfolding normalized_def bnd_Inr by blast
  then show ?thesis by (cases "normalize_rule (fe_rules env) now (fe_panel_port env) rule") auto
qed

lemma row_sound:
  assumes "\<And>xs. mset (re_sort_ports (fe_rules env) xs) = mset xs" "\<exists>now. normalize_rule (fe_rules env) now (fe_panel_port env) rule = Inr nr"
    and "row_content r = row_content (apply_normalized rule nr)" "ir_state r = nr_state nr"
  shows "typed_row r \<and> \<not> closes_port (fe_panel_port env) r"
proof -
  obtain now where nr: "normalize_rule (fe_rules env) now (fe_panel_port env) rule = Inr nr" using assms(2) by blast
  show ?thesis
    using normalized_row_sound [OF assms(1) nr] normalize_rule_facts(5) [OF nr] assms(4)
    by (intro row_content_cong [OF assms(3)]) simp_all
qed

lemma keeps_add_locked:
  assumes sort: "\<And>xs. mset (re_sort_ports (fe_rules env) xs) = mset xs"
  shows "keeps (on_table (sound (fe_panel_port env))) (add_locked env requested)"
  unfolding add_locked_def Let_def
proof (rule keeps_bnd_returns [OF _ normalized_returns])
  fix nr assume nr: "\<exists>now. normalize_rule (fe_rules env) now (fe_panel_port env) requested = Inr nr"
  let ?row = "\<lambda>st token. locate (apply_normalized requested nr\<lparr>ir_id := 0, ir_backend := bs_name st, ir_token := token, ir_protected := False\<rparr>)"
  have row: "typed_row (?row st token) \<and> \<not> closes_port (fe_panel_port env) (?row st token)" for st :: backend_state and token
    by (rule row_sound [OF sort nr]) (simp_all add: row_content_def locate_def apply_normalized_def)
  have "keeps (on_table (sound (fe_panel_port env))) (create_row (?row st token))" for st :: backend_state and token
    using row typed_default by (intro keeps_create_row) simp_all
  then show "keeps (on_table (sound (fe_panel_port env))) (bnd (detect_backend env) (\<lambda>st.
      if \<not> bs_installed st then throw ErrUnsupported
      else bnd (host_call (fe_uuid env)) (\<lambda>token. store_rule env (?row st token))))"
    unfolding store_rule_def by (intro keeps_rules)
qed (intro keeps_rules)

lemma keeps_update_rule:
  assumes sort: "\<And>xs. mset (re_sort_ports (fe_rules env) xs) = mset xs"
  shows "keeps (on_table (sound (fe_panel_port env))) (update_rule env requested)"
proof -
  let ?row = "\<lambda>nr backend token. locate (apply_normalized requested nr\<lparr>ir_backend := backend, ir_token := token, ir_protected := False\<rparr>)"
  have stored: "keeps (on_table (sound (fe_panel_port env))) (update_row i (stored_update (?row nr backend token)))"
    if nr: "\<exists>now. normalize_rule (fe_rules env) now (fe_panel_port env) requested = Inr nr" for nr backend token i
    by (rule keeps_update_row, rule row_sound [OF sort nr])
      (simp_all add: row_content_def locate_def apply_normalized_def stored_update_def)
  show ?thesis
    unfolding update_rule_def exchange_rule_def Let_def
    by (intro keeps_rules keeps_bnd_returns [of _ "normalized env requested", OF _ normalized_returns] stored)
qed

lemma keeps_delete_locked [keeps_rules]: "keeps (on_table (sound port)) (delete_locked env rule_id)"
  unfolding delete_locked_def remove_rule_def by (intro keeps_rules)

lemma keeps_set_rule_state [keeps_rules]: "keeps (on_table (sound port)) (set_rule_state_locked env rule_id enabled)"
proof -
  have "keeps (on_table (sound port)) (update_row rule_id (\<lambda>r. r\<lparr>ir_state := if enabled then 1 else 0\<rparr>))"
    by (rule keeps_update_row) (simp_all add: typed_row_def closes_port_def)
  then show ?thesis unfolding set_rule_state_locked_def Let_def by (intro keeps_rules)
qed

lemma keeps_several [keeps_rules]:
  "keeps (on_table (sound port)) (batch env ids action)" "keeps (on_table (sound port)) (cleanup_expired env)"
  "keeps (on_table (sound port)) (remove_created env created)"
  unfolding batch_def cleanup_expired_def remove_created_def Let_def by (intro keeps_rules)+

lemma keeps_import_each:
  assumes "\<And>r. keeps I (add_locked env r)" "\<And>c. keeps I (undo c)"
  shows "keeps I (import_each env undo created rs)"
proof (induction rs arbitrary: created)
  case (Cons r rs)
  show ?case unfolding import_each.simps by (intro keeps_rules assms Cons)
qed (simp add: keeps_ret)

lemma keeps_block_each:
  assumes "\<And>r. keeps I (add_locked env r)"
  shows "keeps I (block_each env now expires created addresses)"
proof (induction addresses arbitrary: created)
  case (Cons a as)
  show ?case unfolding block_each.simps by (intro keeps_rules assms Cons)
qed (simp add: keeps_ret)

lemma keeps_additions:
  assumes sort: "\<And>xs. mset (re_sort_ports (fe_rules env) xs) = mset xs"
  shows "keeps (on_table (sound (fe_panel_port env))) (import_rules env rules)"
    "keeps (on_table (sound (fe_panel_port env))) (replace_rules env rules)"
    "keeps (on_table (sound (fe_panel_port env))) (ensure_website_port env port name)"
  unfolding import_rules_def replace_rules_def ensure_website_port_def
  by (intro keeps_rules keeps_import_each keeps_add_locked [OF sort])+

lemma single_values:
  assumes "1 \<le> port" "port \<le> 65535"
  shows "port_value (format_int port)" "split_values (format_int port) = [format_int port]" "split_values all_ipv4 = [all_ipv4]"
proof -
  show port: "port_value (format_int port)"
    using assms unfolding port_value_def
    by (intro exI [of _ "nat port"]) (auto simp: port_text_def format_int_def)
  then have "neat (format_int port)" using neat_port by (auto simp: port_value_def)
  then show "split_values (format_int port) = [format_int port]" using split_values_join [of "[format_int port]"] by simp
  show "split_values all_ipv4 = [all_ipv4]" using split_values_join [of "[all_ipv4]"] by (simp add: neat_def neat_char_def)
qed

lemma protection_row:
  assumes "1 \<le> port" "port \<le> 65535"
  shows "typed_row (protection_rule backend token port\<lparr>ir_rule_type := ''port''\<rparr>)" "\<not> closes_port panel (protection_rule backend token port)"
  using single_values [OF assms] by (simp_all add: typed_row_def closes_port_def protection_rule_def)

lemma keeps_ensure_protected:
  assumes "1 \<le> port" "port \<le> 65535"
  shows "keeps (on_table (sound panel)) (ensure_protected_port env st port)"
proof -
  have "keeps (on_table (sound panel)) (create_row (protection_rule backend token port))" for backend token
    using protection_row [OF assms] by (intro keeps_create_row) (simp_all add: protection_rule_def default_string_def)
  then show ?thesis unfolding ensure_protected_port_def Let_def by (intro keeps_rules)
qed

lemma keeps_cleanup_uninstalled [keeps_rules]: "keeps (on_table (sound port)) (cleanup_uninstalled_backend env backend)"
proof -
  have "keeps (on_table (sound port)) (bnd (look_path env ''firewall-cmd'') (\<lambda>found. if found then ret ()
      else modify DatabaseFailed (\<lambda>db. db\<lparr>fw_rules := filter (\<lambda>r. \<not> (ir_protected r \<and> ir_backend r = backend)) (fw_rules db)\<rparr>)))"
    by (intro keeps_rules sound_filter)
  then show ?thesis by (auto simp: keeps_def cleanup_uninstalled_backend_def)
qed

lemma keeps_panel_port [keeps_rules]:
  "keeps (on_table (sound panel)) (prepare_panel_port env port)" "keeps (on_table (sound panel)) (rollback_prepared_panel_port env rule_id)"
  unfolding prepare_panel_port_def rollback_prepared_panel_port_def
  by (cases "1 \<le> port \<and> port \<le> 65535") (auto intro!: keeps_rules keeps_ensure_protected)

lemma keeps_set_enabled:
  assumes "1 \<le> fe_panel_port env" "fe_panel_port env \<le> 65535"
  shows "keeps (on_table (sound panel)) (set_enabled env enabled confirmation)"
  unfolding set_enabled_def by (intro keeps_rules keeps_ensure_protected assms)

section \<open>Forwards and policy\<close>

lemma normalized_forward:
  assumes "normalize_port_forward env f = Inr f'"
  shows "typed_forward (f'\<lparr>pf_id := i, pf_backend := BackendFirewalld\<rparr>)" "pf_source_port f' \<noteq> fe_panel_port env"
proof -
  let ?protocol = "to_lower (re_lower (fe_rules env)) (trim_space (pf_protocol f))"
  obtain ip octets where ip: "parse_ip (trim_space (pf_destination_ip f)) = Some ip" "to4 ip = Some octets"
    and f': "f' = f\<lparr>pf_protocol := ?protocol, pf_destination_ip := format_ip4 octets, pf_remark := trim_space (pf_remark f),
      pf_state := (if pf_state f \<noteq> 0 then 1 else 0)\<rparr>"
    and guards: "?protocol = ''tcp'' \<or> ?protocol = ''udp''" "pf_source_port f \<noteq> fe_panel_port env"
      "\<not> (pf_source_port f < 1 \<or> pf_source_port f > 65535 \<or> pf_destination_port f < 1 \<or> pf_destination_port f > 65535)"
    using assms unfolding normalize_port_forward_def Let_def by (auto split: if_split_asm option.split_asm)
  obtain four where "parse_addr (trim_space (pf_destination_ip f)) = Some (four, ip)" using ip(1) by (auto simp: parse_ip_def)
  then have "quad octets" using to4_quad [OF _ ip(2)] parse_addr_full by blast
  then show "typed_forward (f'\<lparr>pf_id := i, pf_backend := BackendFirewalld\<rparr>)" "pf_source_port f' \<noteq> fe_panel_port env"
    using guards unfolding f' typed_forward_def by auto
qed

lemma checked_forward_returns:
  "checked_forward env f s = (Inr f', s') \<Longrightarrow> normalize_port_forward env f = Inr f'"
  by (cases "normalize_port_forward env f") (auto simp: checked_forward_def)

lemma keeps_checked_forward [keeps_rules]: "keeps I (checked_forward env f)"
  unfolding checked_forward_def by (intro keeps_rules)

lemma keeps_create_forward:
  assumes "\<And>i. typed_forward (f\<lparr>pf_id := i\<rparr>)" "pf_source_port f \<noteq> port"
  shows "keeps (on_table (sound port)) (create_forward f)"
  unfolding create_forward_def by (rule keeps_exec) (simp add: Let_def on_table_def sound_def assms)

lemma keeps_add_forward [keeps_rules]: "keeps (on_table (sound (fe_panel_port env))) (add_port_forward env requested)"
  unfolding add_port_forward_def Let_def
proof (rule keeps_bnd_returns [OF _ checked_forward_returns])
  fix f assume f: "normalize_port_forward env requested = Inr f"
  have "keeps (on_table (sound (fe_panel_port env))) (create_forward (f\<lparr>pf_id := 0, pf_backend := BackendFirewalld\<rparr>))"
    by (rule keeps_create_forward) (use normalized_forward [OF f] in \<open>simp_all add: typed_forward_def\<close>)
  then show "keeps (on_table (sound (fe_panel_port env))) (bnd (firewalld_running env) (\<lambda>_.
      bnd (if_so (pf_state (f\<lparr>pf_id := 0, pf_backend := BackendFirewalld\<rparr>) = 1) (run_operations env BackendFirewalld
        [firewalld_forward_operation (f\<lparr>pf_id := 0, pf_backend := BackendFirewalld\<rparr>)])) (\<lambda>_.
      on_error (create_forward (f\<lparr>pf_id := 0, pf_backend := BackendFirewalld\<rparr>))
        (if_so (pf_state (f\<lparr>pf_id := 0, pf_backend := BackendFirewalld\<rparr>) = 1)
          (bnd (rollback_operations env [firewalld_forward_operation (f\<lparr>pf_id := 0, pf_backend := BackendFirewalld\<rparr>)])
            (\<lambda>_. ignored (persist env BackendFirewalld)))))))"
    by (intro keeps_rules)
qed (intro keeps_rules)

lemma keeps_update_forward [keeps_rules]: "keeps (on_table (sound (fe_panel_port env))) (update_port_forward env requested)"
proof -
  have stored: "keeps (on_table (sound (fe_panel_port env))) (modify DatabaseFailed (\<lambda>db. db\<lparr>fw_forwards := upd_where (\<lambda>r. pf_id r = pf_id old)
      (\<lambda>r. r\<lparr>pf_protocol := pf_protocol (f\<lparr>pf_backend := BackendFirewalld\<rparr>), pf_source_port := pf_source_port (f\<lparr>pf_backend := BackendFirewalld\<rparr>),
        pf_destination_ip := pf_destination_ip (f\<lparr>pf_backend := BackendFirewalld\<rparr>),
        pf_destination_port := pf_destination_port (f\<lparr>pf_backend := BackendFirewalld\<rparr>), pf_state := pf_state (f\<lparr>pf_backend := BackendFirewalld\<rparr>),
        pf_remark := pf_remark (f\<lparr>pf_backend := BackendFirewalld\<rparr>), pf_backend := pf_backend (f\<lparr>pf_backend := BackendFirewalld\<rparr>)\<rparr>) (fw_forwards db)\<rparr>))"
    if f: "normalize_port_forward env requested = Inr f" for f and old :: port_forward
    using normalized_forward [OF f]
    by (intro keeps_modify) (auto simp: on_table_def sound_def list_all_iff upd_where_def typed_forward_def)
  show ?thesis
    unfolding update_port_forward_def Let_def
    by (intro keeps_rules keeps_bnd_returns [of _ "checked_forward env requested", OF _ checked_forward_returns] stored)
qed

lemma keeps_other_forwards [keeps_rules]:
  "keeps (on_table (sound port)) (delete_port_forward env forward_id)"
  "keeps (on_table (sound (fe_panel_port env))) (set_port_forward_state env forward_id enabled)"
proof -
  have "on_table (sound port) (db\<lparr>fw_forwards := filter (\<lambda>r. pf_id r \<noteq> forward_id) (fw_forwards db)\<rparr>)"
    if "on_table (sound port) db" for db :: "'a firewall"
    using that by (auto simp: on_table_def sound_def list_all_iff)
  then show "keeps (on_table (sound port)) (delete_port_forward env forward_id)"
    unfolding delete_port_forward_def Let_def by (intro keeps_rules)
  show "keeps (on_table (sound (fe_panel_port env))) (set_port_forward_state env forward_id enabled)"
    unfolding set_port_forward_state_def by (intro keeps_rules)
qed

lemma keeps_save_policy [keeps_rules]: "keeps (on_table (sound port)) (save_auto_block_config enabled threshold window_minutes ban_minutes)"
  unfolding save_auto_block_config_def Let_def
  by (auto intro!: keeps_rules simp: on_table_def sound_def typed_policy_def not_less)

lemma keeps_run_auto_block:
  assumes sort: "\<And>xs. mset (re_sort_ports (fe_rules env) xs) = mset xs"
  shows "keeps (on_table (sound (fe_panel_port env))) (run_auto_block env)"
proof -
  have "on_table (sound (fe_panel_port env)) (db\<lparr>fw_auto := map_option (\<lambda>c. c\<lparr>ab_last_run_at := t\<rparr>) (fw_auto db)\<rparr>)"
    if "on_table (sound (fe_panel_port env)) db" for t and db :: "'a firewall"
    using that by (auto simp: on_table_def sound_def typed_policy_def option.pred_map comp_def cong: option.pred_cong)
  then show ?thesis
    unfolding run_auto_block_def get_auto_block_config_def Let_def
    by (intro keeps_rules keeps_block_each keeps_add_locked [OF sort])
qed

lemma keeps_maintenance:
  assumes "\<And>xs. mset (re_sort_ports (fe_rules env) xs) = mset xs"
  shows "keeps (on_table (sound (fe_panel_port env))) (maintenance_run env)"
  unfolding maintenance_run_def by (intro keeps_rules keeps_run_auto_block [OF assms])

lemma keeps_status [keeps_rules]: "keeps (on_table (sound port)) (firewall_status_of env)"
proof -
  have "keeps (on_table (sound port)) (stored_status env st)" for st
  proof -
    have "keeps (on_table (sound port)) (bnd (ignored (cleanup_uninstalled_backend env BackendFirewalld)) (\<lambda>_.
           bnd (query DatabaseFailed (\<lambda>db. length (fw_rules db))) (\<lambda>managed_count.
           bnd (query DatabaseFailed (\<lambda>db. first_by (\<lambda>r. - ir_id r) (filter (protects (fe_panel_port env)) (fw_rules db)))) (\<lambda>managed.
           bnd (query DatabaseFailed (\<lambda>db. first_by ir_id
                  (filter (\<lambda>r. protects (fe_panel_port env) r \<and> ir_backend r = bs_name st) (fw_rules db)))) (\<lambda>row.
           bnd (case row of None \<Rightarrow> ret False | Some r \<Rightarrow> if bs_enabled st then rule_exists env r st else ret False) (\<lambda>protected_now.
           ret (managed_count, map_option ir_backend managed, protected_now)))))))"
      by (intro keeps_rules)
    then show ?thesis by (auto simp: keeps_def stored_status_def)
  qed
  then show ?thesis unfolding firewall_status_of_def Let_def by (intro keeps_rules)
qed

section \<open>Histories\<close>

datatype firewall_op = AddRule iptables_rule | UpdateRule iptables_rule | DeleteRule int | SetRuleState int bool
  | Batch "int list" string | CleanupExpired | ImportRules "iptables_rule list" | ReplaceRules "iptables_rule list"
  | EnsureWebsitePort int string | RunAutoBlock | Maintenance | SaveAutoBlockConfig bool int int int
  | AddPortForward port_forward | UpdatePortForward port_forward | DeletePortForward int | SetPortForwardState int bool
  | SetPingBlocked bool | SetEnabled bool string | PreparePanelPort int | RollbackPreparedPanelPort int
  | CleanupUninstalledBackend string | Status

fun firewall_step :: "'h firewall_env \<Rightarrow> firewall_op \<Rightarrow> ('h, unit) fw_act" where
  "firewall_step env (AddRule r) = bnd (add_locked env r) (\<lambda>_. ret ())"
| "firewall_step env (UpdateRule r) = bnd (update_rule env r) (\<lambda>_. ret ())"
| "firewall_step env (DeleteRule i) = delete_locked env i"
| "firewall_step env (SetRuleState i b) = set_rule_state_locked env i b"
| "firewall_step env (Batch is action) = bnd (batch env is action) (\<lambda>_. ret ())"
| "firewall_step env CleanupExpired = bnd (cleanup_expired env) (\<lambda>_. ret ())"
| "firewall_step env (ImportRules rs) = bnd (import_rules env rs) (\<lambda>_. ret ())"
| "firewall_step env (ReplaceRules rs) = replace_rules env rs"
| "firewall_step env (EnsureWebsitePort port name) = bnd (ensure_website_port env port name) (\<lambda>_. ret ())"
| "firewall_step env RunAutoBlock = bnd (run_auto_block env) (\<lambda>_. ret ())"
| "firewall_step env Maintenance = maintenance_run env"
| "firewall_step env (SaveAutoBlockConfig b t w m) = bnd (save_auto_block_config b t w m) (\<lambda>_. ret ())"
| "firewall_step env (AddPortForward f) = bnd (add_port_forward env f) (\<lambda>_. ret ())"
| "firewall_step env (UpdatePortForward f) = update_port_forward env f"
| "firewall_step env (DeletePortForward i) = delete_port_forward env i"
| "firewall_step env (SetPortForwardState i b) = set_port_forward_state env i b"
| "firewall_step env (SetPingBlocked b) = set_ping_blocked env b"
| "firewall_step env (SetEnabled b c) = set_enabled env b c"
| "firewall_step env (PreparePanelPort port) = bnd (prepare_panel_port env port) (\<lambda>_. ret ())"
| "firewall_step env (RollbackPreparedPanelPort i) = rollback_prepared_panel_port env i"
| "firewall_step env (CleanupUninstalledBackend b) = cleanup_uninstalled_backend env b"
| "firewall_step env Status = bnd (firewall_status_of env) (\<lambda>_. ret ())"

lemma firewall_step_sound:
  assumes sort: "\<And>xs. mset (re_sort_ports (fe_rules env) xs) = mset xs" and port: "1 \<le> fe_panel_port env" "fe_panel_port env \<le> 65535"
  shows "keeps (on_table (sound (fe_panel_port env))) (firewall_step env x)"
  by (cases x; simp only: firewall_step.simps)
    (intro keeps_rules keeps_add_locked [OF sort] keeps_update_rule [OF sort] keeps_additions [OF sort]
      keeps_run_auto_block [OF sort] keeps_maintenance [OF sort] keeps_set_enabled [OF port])+

lemma service_port_range: "1 \<le> service_port p" "service_port p \<le> 65535"
  by (simp_all add: service_port_def)

end
