(* ===== verification/Firewall_Protected.thy ===== *)
theory Firewall_Protected
  imports Firewall_Table
begin

text \<open>
  The rows that protect the panel port: no operation on rules, forwards or the automatic policy
  changes, disables or deletes one of them, whatever fails on the way; only the operations made
  for the protection do.
\<close>

section \<open>Rows that are left alone\<close>

definition guarded :: "iptables_rule list \<Rightarrow> iptables_rule list \<Rightarrow> int \<Rightarrow> port_forward list \<Rightarrow> auto_block_config option \<Rightarrow> bool" where
  "guarded kept rows n forwards policy \<longleftrightarrow> keyed rows n \<and> filter ir_protected rows = kept"

text \<open>The same after a read of the row \<open>old\<close>.\<close>

definition holding :: "iptables_rule list \<Rightarrow> int \<Rightarrow> iptables_rule \<Rightarrow> iptables_rule list \<Rightarrow> int \<Rightarrow> port_forward list \<Rightarrow> auto_block_config option \<Rightarrow> bool" where
  "holding kept i old rows n forwards policy \<longleftrightarrow>
     guarded kept rows n forwards policy \<and> find (\<lambda>r. ir_id r = i) rows = Some old"

lemma held_row:
  assumes "keyed rows n" "find (\<lambda>r. ir_id r = i) rows = Some old" "r \<in> set rows" "ir_id r = i"
  shows "r = old"
proof -
  have "old \<in> set rows" "ir_id old = i" using assms(2) by (auto simp: find_Some_iff)
  then show ?thesis using assms(1,3,4) by (auto simp: keyed_def distinct_map inj_on_def)
qed

lemma holding_guarded: "on_table (holding kept i old) db \<Longrightarrow> on_table (guarded kept) db"
  by (simp add: on_table_def holding_def)

lemma moves_delete_row:
  assumes "\<not> ir_protected old"
  shows "moves (on_table (holding kept i old)) (on_table (guarded kept)) (delete_row i)"
  unfolding delete_row_def
proof (rule moves_modify)
  fix db :: "'a firewall" assume held: "on_table (holding kept i old) db"
  then have key: "keyed (fw_rules db) (fw_last db)" and found: "find (\<lambda>r. ir_id r = i) (fw_rules db) = Some old"
    by (simp_all add: on_table_def holding_def guarded_def)
  have "filter ir_protected (filter (\<lambda>r. ir_id r \<noteq> i) (fw_rules db)) = filter ir_protected (fw_rules db)"
    using held_row [OF key found] assms unfolding filter_filter by (intro filter_cong) auto
  moreover have "keyed (filter (\<lambda>r. ir_id r \<noteq> i) (fw_rules db)) (fw_last db)"
    using held by (auto simp: on_table_def holding_def guarded_def keyed_def list_all_iff distinct_map inj_on_def)
  ultimately show "on_table (guarded kept) (db\<lparr>fw_rules := filter (\<lambda>r. ir_id r \<noteq> i) (fw_rules db)\<rparr>)"
    using held by (simp add: on_table_def holding_def guarded_def)
qed (rule holding_guarded)

lemma moves_update_row:
  assumes "\<not> ir_protected old" "\<And>r. ir_id (f r) = ir_id r" "\<And>r. ir_protected (f r) = ir_protected r"
  shows "moves (on_table (holding kept i old)) (on_table (guarded kept)) (update_row i f)"
  unfolding update_row_def
proof (rule moves_modify)
  fix db :: "'a firewall" assume held: "on_table (holding kept i old) db"
  let ?rows = "upd_where (\<lambda>r. ir_id r = i) f (fw_rules db)"
  have key: "keyed (fw_rules db) (fw_last db)" and found: "find (\<lambda>r. ir_id r = i) (fw_rules db) = Some old"
    using held by (simp_all add: on_table_def holding_def guarded_def)
  have "r \<in> set (fw_rules db) \<Longrightarrow> ir_id r = i \<Longrightarrow> \<not> ir_protected r" for r
    using held_row [OF key found] assms(1) by blast
  then have "filter ir_protected (upd_where (\<lambda>r. ir_id r = i) f rows) = filter ir_protected rows" if "set rows \<subseteq> set (fw_rules db)" for rows
    using that by (induction rows) (auto simp: assms(3))
  moreover have "keyed ?rows (fw_last db)"
    using key by (auto simp: keyed_def list_all_iff map_upd_where assms(2) set_upd_where)
  ultimately show "on_table (guarded kept) (db\<lparr>fw_rules := ?rows\<rparr>)"
    using held by (simp add: on_table_def holding_def guarded_def)
qed (rule holding_guarded)

lemma keeps_create_unprotected:
  assumes "\<not> ir_protected r"
  shows "keeps (on_table (guarded kept)) (create_row r)"
  unfolding create_row_def
  by (rule keeps_exec) (simp add: Let_def on_table_def guarded_def keyed_append assms)

lemma keeps_after_find:
  assumes "\<And>old. ir_id old = i \<Longrightarrow> moves (on_table (holding kept i old)) (on_table (guarded kept)) (f old)"
  shows "keeps (on_table (guarded kept)) (bnd (find_rule i) f)"
proof (rule keeps_after_read)
  show "keeps (on_table (guarded kept)) (find_rule i)" by (intro keeps_rules)
  show "find (\<lambda>r. ir_id r = i) (fw_rules (tables s')) = Some old" if found: "find_rule i s = (Inr old, s')" for s old and s' :: "'a firewall engine"
  proof -
    obtain row s1 where row: "query DatabaseFailed (\<lambda>db. find (\<lambda>r. ir_id r = i) (fw_rules db)) s = (Inr row, s1)"
      "(case row of None \<Rightarrow> throw RuleNotFound | Some r \<Rightarrow> ret r) s1 = (Inr old, s')"
      using found unfolding find_rule_def bnd_Inr by blast
    from row(2) have "row = Some old" "s' = s1" by (cases row; simp)+
    with query_Inr [OF row(1)] show ?thesis by simp
  qed
  show "moves (\<lambda>db. on_table (guarded kept) db \<and> find (\<lambda>r. ir_id r = i) (fw_rules db) = Some old) (on_table (guarded kept)) (f old)" for old
    using assms [of old] by (auto simp: moves_def on_table_def holding_def find_Some_iff)
qed

section \<open>Operations\<close>

text \<open>Steps on the host keep what was read; the last one is the write.\<close>

lemma moves_cond: "(b \<Longrightarrow> moves P Q m) \<Longrightarrow> (\<not> b \<Longrightarrow> moves P Q n) \<Longrightarrow> moves P Q (if b then m else n)"
  by simp

lemma moves_reread: "moves P Q m \<Longrightarrow> moves P Q (bnd m (\<lambda>_. find_rule i))"
  by (erule moves_bnd_last) (intro keeps_rules)

lemmas after_read = moves_reread moves_bnd [OF holding_guarded] moves_throw [OF holding_guarded] moves_ret [OF holding_guarded] moves_cond moves_on_error

lemma guarded_delete [keeps_rules]: "keeps (on_table (guarded kept)) (delete_locked env rule_id)"
proof -
  have "moves (on_table (holding kept rule_id old)) (on_table (guarded kept)) (delete_row (ir_id (old\<lparr>ir_backend := b\<rparr>)))"
    if "\<not> ir_protected old" "ir_id old = rule_id" for old b
    using moves_delete_row [of old kept rule_id] that by simp
  then show ?thesis
    unfolding delete_locked_def remove_rule_def by (intro keeps_rules keeps_after_find after_read)
qed

lemma guarded_set_state [keeps_rules]: "keeps (on_table (guarded kept)) (set_rule_state_locked env rule_id enabled)"
  unfolding set_rule_state_locked_def Let_def
  by (intro keeps_if keeps_throw keeps_after_find after_read keeps_rules moves_update_row) simp_all

lemma guarded_add [keeps_rules]: "keeps (on_table (guarded kept)) (add_locked env requested)"
  unfolding add_locked_def store_rule_def by (intro keeps_rules keeps_create_unprotected) (simp add: locate_def)

lemma guarded_update [keeps_rules]: "keeps (on_table (guarded kept)) (update_rule env requested)"
proof -
  have "moves (on_table (holding kept (ir_id requested) old)) (on_table (guarded kept))
      (update_row (ir_id (old\<lparr>ir_backend := b\<rparr>)) (stored_update r))"
    if "\<not> ir_protected old" "ir_id old = ir_id requested" for old b r
    using moves_update_row [of old "stored_update r" kept "ir_id requested"] that by (simp add: stored_update_def)
  then show ?thesis
    unfolding update_rule_def exchange_rule_def Let_def
    by (intro keeps_if keeps_throw keeps_after_find after_read keeps_rules)
qed

lemma guarded_several [keeps_rules]:
  "keeps (on_table (guarded kept)) (batch env rule_ids action)" "keeps (on_table (guarded kept)) (cleanup_expired env)"
  "keeps (on_table (guarded kept)) (remove_created env created)"
  unfolding batch_def cleanup_expired_def remove_created_def Let_def by (intro keeps_rules)+

lemma guarded_additions [keeps_rules]:
  "keeps (on_table (guarded kept)) (import_rules env rules)" "keeps (on_table (guarded kept)) (replace_rules env rules)"
  "keeps (on_table (guarded kept)) (ensure_website_port env port name)"
  unfolding import_rules_def replace_rules_def ensure_website_port_def by (intro keeps_rules keeps_import_each)+

lemma guarded_elsewhere:
  "on_table (guarded kept) (db\<lparr>fw_forwards := x\<rparr>) = on_table (guarded kept) db"
  "on_table (guarded kept) (db\<lparr>fw_forwards := x, fw_last_forward := n\<rparr>) = on_table (guarded kept) db"
  "on_table (guarded kept) (db\<lparr>fw_auto := y\<rparr>) = on_table (guarded kept) db"
  "on_table (guarded kept) (db\<lparr>fw_migration := z\<rparr>) = on_table (guarded kept) db"
  by (simp_all add: on_table_def guarded_def)

lemma guarded_create_forward [keeps_rules]: "keeps (on_table (guarded kept)) (create_forward f)"
  unfolding create_forward_def by (rule keeps_exec) (simp add: Let_def guarded_elsewhere)

lemma guarded_update_forward [keeps_rules]: "keeps (on_table (guarded kept)) (update_port_forward env f)"
  unfolding update_port_forward_def Let_def by (intro keeps_rules) (simp add: guarded_elsewhere)

lemma guarded_forwards [keeps_rules]:
  "keeps (on_table (guarded kept)) (add_port_forward env f)"
  "keeps (on_table (guarded kept)) (delete_port_forward env i)"
  "keeps (on_table (guarded kept)) (set_port_forward_state env i enabled)"
  unfolding add_port_forward_def delete_port_forward_def set_port_forward_state_def Let_def
  by ((intro keeps_rules; simp add: guarded_elsewhere)+)

lemma guarded_policy [keeps_rules]:
  "keeps (on_table (guarded kept)) (save_auto_block_config enabled threshold window_minutes ban_minutes)"
  "keeps (on_table (guarded kept)) (run_auto_block env)"
  unfolding save_auto_block_config_def run_auto_block_def get_auto_block_config_def Let_def
  by ((intro keeps_rules keeps_block_each; simp add: guarded_elsewhere)+)

lemma guarded_maintenance [keeps_rules]: "keeps (on_table (guarded kept)) (maintenance_run env)"
  unfolding maintenance_run_def by (intro keeps_rules)

text \<open>The operations made for the protection of the panel port; a status query removes the records of a firewalld that is gone.\<close>

fun protection_op :: "firewall_op \<Rightarrow> bool" where
  "protection_op (SetEnabled b c) = True"
| "protection_op (PreparePanelPort port) = True"
| "protection_op (RollbackPreparedPanelPort i) = True"
| "protection_op (CleanupUninstalledBackend b) = True"
| "protection_op Status = True"
| "protection_op _ = False"

lemma firewall_step_guarded: "\<not> protection_op x \<Longrightarrow> keeps (on_table (guarded kept)) (firewall_step env x)"
  by (cases x; simp only: firewall_step.simps protection_op.simps simp_thms) (intro keeps_rules)+

end
