(* ===== verification/Firewall_Sync.thy ===== *)
theory Firewall_Sync
  imports Firewall_Table
begin

text \<open>
  The table and the kernel.  On a host whose firewall is iptables with netfilter-persistent, the
  rules of the kernel are those of the active rows and the ones the panel does not manage, after
  any history: every operation either takes effect on both sides or on neither.  The host is
  described by what the manuals of the programs say; a rule of the kernel is the meaning \<open>sem\<close> of
  the arguments that append it, and the order of the rules is left out.  Commands that change
  something may fail, but \<open>iptables -C\<close> must find a rule that is there: \<open>ensureProtectedPort\<close> takes
  any failure of it for absence and would install the rule a second time.
\<close>

section \<open>The host\<close>

definition iptables_host :: "'h firewall_env \<Rightarrow> ('h \<Rightarrow> 'r multiset) \<Rightarrow> (string list \<Rightarrow> 'r) \<Rightarrow> bool" where
  "iptables_host env R sem \<longleftrightarrow>
     (\<forall>h. \<not> fe_look env h ''ufw'' \<and> \<not> fe_look env h ''firewall-cmd'' \<and> fe_look env h ''iptables'' \<and> fe_look env h ''netfilter-persistent'')
     \<and> (\<forall>h. R (snd (fe_now env h)) = R h) \<and> (\<forall>h. R (snd (fe_uuid env h)) = R h)
     \<and> (\<forall>h. R (snd (fe_run env h ''netfilter-persistent'' [''save''])) = R h)
     \<and> (\<forall>h args. R (snd (fe_run env h ''journalctl'' args)) = R h)
     \<and> (\<forall>h args. R (snd (fe_run env h ''firewall-cmd'' args)) = R h)
     \<and> (\<forall>h spec. R (snd (fe_run env h ''iptables'' (''-C'' # spec))) = R h)
     \<and> (\<forall>h spec. sem spec \<in># R h \<longrightarrow> fst (fst (fe_run env h ''iptables'' (''-C'' # spec))))
     \<and> (\<forall>h spec ok out h'. fe_run env h ''iptables'' (''-A'' # spec) = ((ok, out), h') \<longrightarrow>
          R h' = (if ok then add_mset (sem spec) (R h) else R h))
     \<and> (\<forall>h spec ok out h'. fe_run env h ''iptables'' (''-D'' # spec) = ((ok, out), h') \<longrightarrow>
          (if ok then R h = add_mset (sem spec) (R h') else R h' = R h))"

lemma host_programs:
  assumes "iptables_host env R sem"
  shows "\<not> fe_look env h ''ufw''" "\<not> fe_look env h ''firewall-cmd''" "fe_look env h ''iptables''" "fe_look env h ''netfilter-persistent''"
  using assms by (simp_all add: iptables_host_def)

lemma host_quiet:
  assumes "iptables_host env R sem"
  shows "R (snd (fe_now env h)) = R h" "R (snd (fe_uuid env h)) = R h" "R (snd (fe_run env h ''netfilter-persistent'' [''save''])) = R h"
    "R (snd (fe_run env h ''journalctl'' args)) = R h" "R (snd (fe_run env h ''firewall-cmd'' args)) = R h"
    "R (snd (fe_run env h ''iptables'' (''-C'' # spec))) = R h"
  using assms by (simp_all add: iptables_host_def)

lemma host_rules:
  assumes "iptables_host env R sem"
  shows "sem spec \<in># R h \<Longrightarrow> fst (fst (fe_run env h ''iptables'' (''-C'' # spec)))"
    "fe_run env h ''iptables'' (''-A'' # spec) = ((ok, out), h') \<Longrightarrow> R h' = (if ok then add_mset (sem spec) (R h) else R h)"
    "fe_run env h ''iptables'' (''-D'' # spec) = ((ok, out), h') \<Longrightarrow> (if ok then R h = add_mset (sem spec) (R h') else R h' = R h)"
  using assms by (simp_all add: iptables_host_def)

text \<open>The rules a row stands for.\<close>

definition rule_specs :: "iptables_rule \<Rightarrow> string list list" where
  "rule_specs r = map (\<lambda>c. tl (co_args c)) (iptables_rule_operations r)"

definition active_specs :: "iptables_rule list \<Rightarrow> string list list" where
  "active_specs rows = concat (map rule_specs (filter (\<lambda>r. ir_state r = 1) rows))"

section \<open>Triples\<close>

text \<open>
  A predicate of the rows, the last key and the kernel's rules, unless a call whose error the code
  ignores has failed; and triples with a postcondition for each of the two outcomes.
\<close>

definition seen :: "('h \<Rightarrow> 'r) \<Rightarrow> (iptables_rule list \<Rightarrow> int \<Rightarrow> 'r \<Rightarrow> bool) \<Rightarrow> 'h firewall \<Rightarrow> bool" where
  "seen R P db \<longleftrightarrow> fw_missed db \<or> P (fw_rules db) (fw_last db) (R (fw_host db))"

definition triple :: "('db \<Rightarrow> bool) \<Rightarrow> ('db, 'e, 'a) act \<Rightarrow> ('a \<Rightarrow> 'db \<Rightarrow> bool) \<Rightarrow> ('db \<Rightarrow> bool) \<Rightarrow> bool" where
  "triple P m Q E \<longleftrightarrow>
     (\<forall>s. P (tables s) \<longrightarrow> (\<forall>a s'. m s = (Inr a, s') \<longrightarrow> Q a (tables s')) \<and> (\<forall>e s'. m s = (Inl e, s') \<longrightarrow> E (tables s')))"

lemma tripleI:
  "(\<And>s a s'. P (tables s) \<Longrightarrow> m s = (Inr a, s') \<Longrightarrow> Q a (tables s')) \<Longrightarrow>
   (\<And>s e s'. P (tables s) \<Longrightarrow> m s = (Inl e, s') \<Longrightarrow> E (tables s')) \<Longrightarrow> triple P m Q E"
  unfolding triple_def by blast

lemma tripleD:
  "triple P m Q E \<Longrightarrow> P (tables s) \<Longrightarrow> m s = (Inr a, s') \<Longrightarrow> Q a (tables s')"
  "triple P m Q E \<Longrightarrow> P (tables s) \<Longrightarrow> m s = (Inl e, s') \<Longrightarrow> E (tables s')"
  unfolding triple_def by blast+

lemma triple_keeps: "triple I m (\<lambda>_. I) I \<longleftrightarrow> keeps I m"
proof
  assume t: "triple I m (\<lambda>_. I) I"
  have "I (tables s')" if "I (tables s)" "m s = (r, s')" for s r s'
    using tripleD [OF t that(1)] that(2) by (cases r) auto
  then show "keeps I m" unfolding keeps_def by (metis prod.collapse)
qed (auto intro!: tripleI dest: keepsD)

lemma triple_bnd: "triple P m Q E \<Longrightarrow> (\<And>a. triple (Q a) (f a) Q' E) \<Longrightarrow> triple P (bnd m f) Q' E"
  unfolding triple_def bnd_Inr bnd_Inl by blast

lemma triple_ret: "(\<And>db. P db \<Longrightarrow> Q a db) \<Longrightarrow> triple P (ret a) Q E"
  by (simp add: triple_def)

lemma triple_throw: "(\<And>db. P db \<Longrightarrow> E db) \<Longrightarrow> triple P (throw e) Q E"
  by (simp add: triple_def)

lemma triple_weaken: "triple P m Q E \<Longrightarrow> (\<And>a db. Q a db \<Longrightarrow> Q' a db) \<Longrightarrow> (\<And>db. E db \<Longrightarrow> E' db) \<Longrightarrow> triple P m Q' E'"
  unfolding triple_def by blast

lemma triple_pre: "triple P m Q E \<Longrightarrow> (\<And>db. P' db \<Longrightarrow> P db) \<Longrightarrow> triple P' m Q E"
  unfolding triple_def by blast

lemma on_error_Inr: "on_error m c s = (Inr a, s') \<longleftrightarrow> m s = (Inr a, s')"
  unfolding on_error_def bnd_def by (auto split: prod.splits sum.splits)

lemma on_error_Inl:
  "on_error m c s = (Inl e, s') \<longleftrightarrow>
     (\<exists>e' s1. m s = (Inl e', s1) \<and> (c s1 = (Inl e, s') \<or> e = e' \<and> (\<exists>u. c s1 = (Inr u, s'))))"
  unfolding on_error_def bnd_def by (auto split: prod.splits sum.splits)

lemma triple_on_error: "triple P m Q E' \<Longrightarrow> triple E' c (\<lambda>_. E) E \<Longrightarrow> triple P (on_error m c) Q E"
  unfolding triple_def on_error_Inr on_error_Inl by blast

lemma triple_ignored:
  assumes "triple (seen R P) m (\<lambda>_. seen R Q) E"
  shows "triple (seen R P) (ignored m) (\<lambda>_. seen R Q) E'"
proof -
  have "ignored m s = (Inr (), s') \<longleftrightarrow> (\<exists>a. m s = (Inr a, s')) \<or> (\<exists>e s1. m s = (Inl e, s1) \<and> s' = s1\<lparr>tables := (tables s1)\<lparr>fw_missed := True\<rparr>\<rparr>)"
    "ignored m s \<noteq> (Inl e, s')" for s s' e
    by (auto simp: ignored_def split: prod.splits sum.splits)
  then show ?thesis
    using assms unfolding triple_def by (auto simp: seen_def [of R Q "_\<lparr>fw_missed := True\<rparr>"])
qed

lemma triple_exec:
  assumes "\<And>db. P db \<Longrightarrow> E db" "\<And>db. P db \<Longrightarrow> Q (fst (f db)) (snd (f db))"
  shows "triple P (exec e f) Q E"
  using assms exec_Inr [of e f] exec_Inl [of e f] unfolding triple_def by (metis fst_conv snd_conv)

lemma keeps_ignored_seen: "keeps (seen R P) m \<Longrightarrow> keeps (seen R P) (ignored m)"
  unfolding triple_keeps [symmetric] by (rule triple_ignored)

text \<open>The rows and the last key as they are, the kernel's rules with \<open>p\<close>.\<close>

abbreviation on_host :: "('h \<Rightarrow> 'r) \<Rightarrow> iptables_rule list \<Rightarrow> int \<Rightarrow> ('r \<Rightarrow> bool) \<Rightarrow> 'h firewall \<Rightarrow> bool" where
  "on_host R rows n p \<equiv> seen R (\<lambda>rows' n' M. rows' = rows \<and> n' = n \<and> p M)"

lemma seen_missed: "fw_missed db \<Longrightarrow> seen R P db"
  by (simp add: seen_def)

text \<open>What was read before, and the state an operation starts in.\<close>

lemma triple_pure:
  assumes "A \<Longrightarrow> triple (seen R P) m (\<lambda>a. seen R (Q a)) (seen R E)" "keeps fw_missed m"
  shows "triple (seen R (\<lambda>rows n M. A \<and> P rows n M)) m (\<lambda>a. seen R (Q a)) (seen R E)"
proof (cases A)
  case False
  then have "fw_missed db" if "seen R (\<lambda>rows n M. A \<and> P rows n M) db" for db using that by (simp add: seen_def)
  then show ?thesis using keepsD [OF assms(2)] seen_missed by (intro tripleI) blast+
qed (use assms in \<open>simp add: seen_def\<close>)

lemma triple_snapshot:
  assumes "\<And>rows n M. P rows n M \<Longrightarrow> triple (on_host R rows n (\<lambda>M'. M' = M)) m (\<lambda>a. seen R (Q a)) (seen R E)" "keeps fw_missed m"
  shows "triple (seen R P) m (\<lambda>a. seen R (Q a)) (seen R E)"
proof (rule tripleI)
  fix s a s' assume *: "seen R P (tables s)" "m s = (Inr a, s')"
  show "seen R (Q a) (tables s')"
  proof (cases "fw_missed (tables s)")
    case True
    then show ?thesis using keepsD [OF assms(2) _ *(2)] seen_missed by blast
  next
    case False
    then show ?thesis using * tripleD(1) [OF assms(1), OF _ _ *(2)] by (simp add: seen_def)
  qed
next
  fix s e s' assume *: "seen R P (tables s)" "m s = (Inl e, s')"
  show "seen R E (tables s')"
  proof (cases "fw_missed (tables s)")
    case True
    then show ?thesis using keepsD [OF assms(2) _ *(2)] seen_missed by blast
  next
    case False
    then show ?thesis using * tripleD(2) [OF assms(1), OF _ _ *(2)] by (simp add: seen_def)
  qed
qed

section \<open>Commands\<close>

text \<open>What a command that appends or deletes a rule does to the kernel's rules.\<close>

definition paired :: "command_operation \<Rightarrow> bool" where
  "paired c \<longleftrightarrow> co_name c = ''iptables'' \<and> co_undo_name c = ''iptables''
     \<and> (\<exists>spec. co_args c = ''-A'' # spec \<and> co_undo_args c = ''-D'' # spec \<or> co_args c = ''-D'' # spec \<and> co_undo_args c = ''-A'' # spec)"

definition shift :: "(string list \<Rightarrow> 'r) \<Rightarrow> command_operation \<Rightarrow> 'r multiset \<Rightarrow> 'r multiset \<Rightarrow> bool" where
  "shift sem c M M' \<longleftrightarrow>
     (if hd (co_args c) = ''-A'' then M' = add_mset (sem (tl (co_args c))) M else M = add_mset (sem (tl (co_args c))) M')"

fun shifts :: "(string list \<Rightarrow> 'r) \<Rightarrow> command_operation list \<Rightarrow> 'r multiset \<Rightarrow> 'r multiset \<Rightarrow> bool" where
  "shifts sem [] M M' \<longleftrightarrow> M' = M"
| "shifts sem (c # cs) M M' \<longleftrightarrow> (\<exists>M1. shift sem c M M1 \<and> shifts sem cs M1 M')"

lemma shifts_snoc: "shifts sem (cs @ [c]) M M' \<longleftrightarrow> (\<exists>M1. shifts sem cs M M1 \<and> shift sem c M1 M')"
  by (induction cs arbitrary: M) auto

lemma paired_reverse: "paired c \<Longrightarrow> paired (reverse_operation c)"
  by (auto simp: paired_def reverse_operation_def)

lemma shift_reverse: "paired c \<Longrightarrow> shift sem (reverse_operation c) M M' \<longleftrightarrow> shift sem c M' M"
  by (auto simp: paired_def shift_def reverse_operation_def)

lemma shift_unique: "shift sem c M M1 \<Longrightarrow> shift sem c M M2 \<Longrightarrow> M1 = M2"
  by (auto simp: shift_def split: if_split_asm)

lemma triple_host_call:
  assumes "\<And>h. p (R h) \<Longrightarrow> q (fst (f h)) (R (snd (f h)))"
  shows "triple (on_host R rows n p) (host_call f) (\<lambda>a. on_host R rows n (q a)) (seen R E)"
proof (rule tripleI)
  fix s a s' assume "on_host R rows n p (tables s)" "host_call f s = (Inr a, s')"
  then show "on_host R rows n (q a) (tables s')"
    using assms [of "fw_host (tables s)"] by (auto simp: host_call_def seen_def split: prod.splits)
qed (auto simp: host_call_def split: prod.splits)

lemma triple_command:
  assumes H: "iptables_host env R sem" and c: "paired c"
  shows "triple (on_host R rows n p) (command env (co_name c) (co_args c)) (\<lambda>_. on_host R rows n (\<lambda>M. \<exists>M1. p M1 \<and> shift sem c M1 M)) (on_host R rows n p)"
proof -
  let ?q = "\<lambda>(ok, out). if ok then (\<lambda>M. \<exists>M1. p M1 \<and> shift sem c M1 M) else p"
  have "?q (fst (fe_run env h (co_name c) (co_args c))) (R (snd (fe_run env h (co_name c) (co_args c))))" if "p (R h)" for h
  proof -
    obtain ok out h' where run: "fe_run env h (co_name c) (co_args c) = ((ok, out), h')" by (metis prod.exhaust)
    have "if ok then shift sem c (R h) (R h') else R h' = R h"
    proof -
      consider spec where "co_args c = ''-A'' # spec" | spec where "co_args c = ''-D'' # spec" using c by (auto simp: paired_def)
      then show ?thesis
        using run c host_rules(2,3) [OF H] by cases (auto simp: paired_def shift_def)
    qed
    then show ?thesis using that run by auto
  qed
  then have "triple (on_host R rows n p) (run_program env (co_name c) (co_args c)) (\<lambda>a. on_host R rows n (?q a)) (on_host R rows n p)"
    unfolding run_program_def by (intro triple_host_call)
  then show ?thesis
    unfolding command_def by (rule triple_bnd) (auto intro: triple_ret triple_throw)
qed

lemma triple_quiet:
  assumes "\<And>h. R (snd (f h)) = R h"
  shows "triple (on_host R rows n p) (host_call f) (\<lambda>_. on_host R rows n p) (on_host R rows n p)"
  using triple_host_call [of p R "\<lambda>_. p" f] assms by simp

lemma triple_persist:
  assumes "iptables_host env R sem"
  shows "triple (on_host R rows n p) (persist env ''iptables'') (\<lambda>_. on_host R rows n p) (on_host R rows n p)"
  unfolding persist_def command_def run_program_def if_P [OF refl] if_not_P [of "''iptables'' = ''firewalld''"]
  by (simp, rule triple_bnd [OF triple_quiet]) (auto intro: triple_ret triple_throw simp: host_quiet [OF assms])

lemma rollback_snoc:
  "rollback_operations env (cs @ [c]) = bnd (ignored (command env (co_undo_name c) (co_undo_args c))) (\<lambda>_. rollback_operations env cs)"
  by (simp add: rollback_operations_def)

lemma triple_rollback:
  assumes H: "iptables_host env R sem" and "list_all paired cs"
  shows "triple (on_host R rows n (shifts sem cs M)) (rollback_operations env cs) (\<lambda>_. on_host R rows n (\<lambda>M'. M' = M)) E"
  using assms(2)
proof (induction cs rule: rev_induct)
  case Nil
  show ?case unfolding rollback_operations_def rev.simps each.simps by (rule triple_ret) simp
next
  case (snoc c cs)
  let ?c = "reverse_operation c"
  have c: "paired c" using snoc.prems by simp
  have undo: "M1 = M2" if "shift sem c M1 M'" "shift sem ?c M' M2" for M1 M2 M'
    using that shift_reverse [OF c] shift_unique [of sem ?c] by blast
  have "triple (on_host R rows n (shifts sem (cs @ [c]) M)) (command env (co_name ?c) (co_args ?c))
      (\<lambda>_. on_host R rows n (shifts sem cs M)) (on_host R rows n (shifts sem (cs @ [c]) M))"
    by (rule triple_weaken [OF triple_command [OF H paired_reverse [OF c]]])
      (auto simp: seen_def shifts_snoc dest: undo)
  then have "triple (on_host R rows n (shifts sem (cs @ [c]) M)) (ignored (command env (co_undo_name c) (co_undo_args c)))
      (\<lambda>_. on_host R rows n (shifts sem cs M)) E"
    unfolding reverse_operation_def command_operation.simps by (rule triple_ignored)
  then show ?case
    unfolding rollback_snoc by (rule triple_bnd) (use snoc in simp)
qed

lemma triple_run_each:
  assumes H: "iptables_host env R sem" and "list_all paired (applied @ cs)"
  shows "triple (on_host R rows n (shifts sem applied M)) (run_each env applied cs)
    (\<lambda>_. on_host R rows n (shifts sem (applied @ cs) M)) (on_host R rows n (\<lambda>M'. M' = M))"
  using assms(2)
proof (induction cs arbitrary: applied)
  case Nil
  show ?case unfolding run_each.simps append_Nil2 by (rule triple_ret)
next
  case (Cons c cs)
  have "triple (on_host R rows n (shifts sem applied M)) (command env (co_name c) (co_args c))
      (\<lambda>_. on_host R rows n (shifts sem (applied @ [c]) M)) (on_host R rows n (shifts sem applied M))"
    unfolding shifts_snoc by (rule triple_command [OF H]) (use Cons.prems in simp)
  then have "triple (on_host R rows n (shifts sem applied M))
      (on_error (command env (co_name c) (co_args c)) (rollback_operations env applied))
      (\<lambda>_. on_host R rows n (shifts sem (applied @ [c]) M)) (on_host R rows n (\<lambda>M'. M' = M))"
    by (rule triple_on_error) (rule triple_rollback [OF H], use Cons.prems in simp)
  then show ?case
    unfolding run_each.simps by (rule triple_bnd) (use Cons.IH [of "applied @ [c]"] Cons.prems in simp)
qed

lemma triple_run_operations:
  assumes H: "iptables_host env R sem" and cs: "list_all paired cs"
  shows "triple (on_host R rows n (\<lambda>M'. M' = M)) (run_operations env ''iptables'' cs)
    (\<lambda>_. on_host R rows n (shifts sem cs M)) (on_host R rows n (\<lambda>M'. M' = M))"
proof -
  have "triple (on_host R rows n (shifts sem [] M)) (run_each env [] cs)
      (\<lambda>_. on_host R rows n (shifts sem cs M)) (on_host R rows n (\<lambda>M'. M' = M))"
    using triple_run_each [OF H, of "[]" cs] cs by simp
  then show ?thesis
    unfolding run_operations_def shifts.simps
    by (rule triple_bnd)
      (intro triple_on_error [OF triple_persist [OF H]] triple_bnd [OF triple_rollback [OF H cs]] triple_ignored [OF triple_persist [OF H]])
qed

section \<open>Rules and commands\<close>

definition rule_meaning :: "(string list \<Rightarrow> 'r) \<Rightarrow> iptables_rule \<Rightarrow> 'r multiset" where
  "rule_meaning sem r = image_mset sem (mset (rule_specs r))"

lemma iptables_operations_form:
  "c \<in> set (iptables_rule_operations r) \<Longrightarrow> paired c \<and> hd (co_args c) = ''-A''"
  by (auto simp: iptables_rule_operations_def for_each_pair_def paired_def split: prod.splits)

lemma shifts_adds:
  "(\<And>c. c \<in> set cs \<Longrightarrow> hd (co_args c) = ''-A'') \<Longrightarrow>
   shifts sem cs M M' \<longleftrightarrow> M' = M + image_mset sem (mset (map (\<lambda>c. tl (co_args c)) cs))"
  by (induction cs arbitrary: M) (auto simp: shift_def)

lemma shifts_install: "shifts sem (iptables_rule_operations r) M M' \<longleftrightarrow> M' = M + rule_meaning sem r"
  using shifts_adds [of "iptables_rule_operations r" sem] iptables_operations_form by (simp add: rule_meaning_def rule_specs_def)

lemma shifts_reverse: "list_all paired cs \<Longrightarrow> shifts sem (reverse_operations cs) M M' \<longleftrightarrow> shifts sem cs M' M"
proof (induction cs arbitrary: M M')
  case (Cons c cs)
  then show ?case by (auto simp: reverse_operations_def shifts_snoc shift_reverse)
qed (auto simp: reverse_operations_def)

lemma operations_paired: "list_all paired (iptables_rule_operations r)" "list_all paired (reverse_operations (iptables_rule_operations r))"
  using iptables_operations_form by (auto simp: list_all_iff reverse_operations_def paired_reverse)

lemma shifts_uninstall: "shifts sem (reverse_operations (iptables_rule_operations r)) M M' \<longleftrightarrow> M = M' + rule_meaning sem r"
  using shifts_reverse [OF operations_paired(1)] by (simp add: shifts_install)

end
