(* ===== verification/Firewall_Mirror.thy ===== *)
theory Firewall_Mirror
  imports Firewall_Sync
begin

text \<open>
  Each operation of the firewall service on an iptables host takes the kernel's rules with the
  table, or leaves both as they were.
\<close>

section \<open>The kernel mirrors the table\<close>

definition mirrored :: "(string list \<Rightarrow> 'r) \<Rightarrow> 'r multiset \<Rightarrow> iptables_rule list \<Rightarrow> int \<Rightarrow> 'r multiset \<Rightarrow> bool" where
  "mirrored sem foreign rows n M \<longleftrightarrow>
     keyed rows n
     \<and> list_all (\<lambda>r. ir_backend r = BackendIPTables \<and> ir_state r \<in> {0, 1} \<and> (ir_protected r \<longrightarrow> ir_state r = 1)) rows
     \<and> M = foreign + image_mset sem (mset (active_specs rows))"

definition part :: "(string list \<Rightarrow> 'r) \<Rightarrow> iptables_rule \<Rightarrow> 'r multiset" where
  "part sem r = (if ir_state r = 1 then rule_meaning sem r else {#})"

lemma active_parts: "image_mset sem (mset (active_specs rows)) = (\<Sum>r\<leftarrow>rows. part sem r)"
  by (induction rows) (simp_all add: active_specs_def part_def rule_meaning_def)

lemma parts_split:
  assumes "keyed rows n" "find (\<lambda>r. ir_id r = i) rows = Some old"
  shows "(\<Sum>r\<leftarrow>rows. part sem r) = part sem old + (\<Sum>r\<leftarrow>filter (\<lambda>r. ir_id r \<noteq> i) rows. part sem r)"
    "(\<Sum>r\<leftarrow>upd_where (\<lambda>r. ir_id r = i) f rows. part sem r) = part sem (f old) + (\<Sum>r\<leftarrow>filter (\<lambda>r. ir_id r \<noteq> i) rows. part sem r)"
proof -
  have "distinct (map ir_id rows)" using assms(1) by (simp add: keyed_def)
  then have "(\<Sum>r\<leftarrow>upd_where (\<lambda>r. ir_id r = i) g rows. part sem r) = part sem (g old) + (\<Sum>r\<leftarrow>filter (\<lambda>r. ir_id r \<noteq> i) rows. part sem r)" for g
    using assms(2)
  proof (induction rows)
    case (Cons r rows)
    show ?case
    proof (cases "ir_id r = i")
      case True
      then have "\<forall>r'\<in>set rows. ir_id r' \<noteq> i" using Cons.prems(1) by (auto simp: image_iff)
      then have "upd_where (\<lambda>r. ir_id r = i) g rows = rows" "filter (\<lambda>r. ir_id r \<noteq> i) rows = rows"
        by (induction rows) simp_all
      then show ?thesis using True Cons.prems(2) by simp
    next
      case False
      then show ?thesis using Cons by (simp add: ac_simps)
    qed
  qed simp
  from this [of "\<lambda>r. r"] this [of f]
  show "(\<Sum>r\<leftarrow>rows. part sem r) = part sem old + (\<Sum>r\<leftarrow>filter (\<lambda>r. ir_id r \<noteq> i) rows. part sem r)"
    "(\<Sum>r\<leftarrow>upd_where (\<lambda>r. ir_id r = i) f rows. part sem r) = part sem (f old) + (\<Sum>r\<leftarrow>filter (\<lambda>r. ir_id r \<noteq> i) rows. part sem r)"
    by (simp_all add: upd_where_def)
qed

section \<open>What the host answers\<close>

abbreviation iptables_state :: backend_state where
  "iptables_state \<equiv> \<lparr>bs_name = BackendIPTables, bs_installed = True, bs_enabled = True, bs_persistent = True,
     bs_can_toggle = False, bs_repair_required = False\<rparr>"

lemma bnd_ret [simp]: "bnd (ret a) f = f a"
  by (rule ext) (simp add: bnd_def)

lemma look_path_ret: "(\<And>h. fe_look env h name = b) \<Longrightarrow> look_path env name = ret b"
  by (rule ext) (simp add: look_path_def host_call_def)

lemma host_answers:
  assumes "iptables_host env R sem"
  shows "look_path env ''ufw'' = ret False" "look_path env ''firewall-cmd'' = ret False" "look_path env ''iptables'' = ret True"
    "look_path env ''netfilter-persistent'' = ret True"
  using host_programs [OF assms] by (auto intro!: look_path_ret)

lemma detect_iptables_only:
  assumes "iptables_host env R sem"
  shows "detect_backend env = ret iptables_state"
  unfolding detect_backend_def detect_ufw_def detect_firewalld_def detect_iptables_def host_answers [OF assms] bnd_ret choose_backend_def
  by (rule ext) simp

lemma rule_operations_iptables:
  assumes "iptables_host env R sem" "ir_backend r = BackendIPTables"
  shows "rule_operations env r = ret (iptables_rule_operations r)"
  unfolding rule_operations_def host_answers [OF assms(1)] bnd_ret using assms(2) by simp

lemma backend_of_known: "ir_backend r \<noteq> [] \<Longrightarrow> backend_of env r = ret (ir_backend r)"
  by (simp only: backend_of_def if_False)

section \<open>Steps\<close>

lemma triple_bnd_returns:
  assumes "\<And>s a s'. m s = (Inr a, s') \<Longrightarrow> A a" "triple P m (\<lambda>_. P') E" "\<And>a. A a \<Longrightarrow> triple P' (f a) Q E"
  shows "triple P (bnd m f) Q E"
  using assms unfolding triple_def bnd_Inr bnd_Inl by blast

lemma triple_fail: "triple P m Q E \<Longrightarrow> (\<And>db. E db \<Longrightarrow> E' db) \<Longrightarrow> triple P m Q E'"
  by (rule triple_weaken)

lemma triple_cond: "(b \<Longrightarrow> triple P m Q E) \<Longrightarrow> (\<not> b \<Longrightarrow> triple P n Q E) \<Longrightarrow> triple P (if b then m else n) Q E"
  by simp

lemma triple_clock:
  assumes "iptables_host env R sem"
  shows "triple (on_host R rows n p) (host_call (fe_now env)) (\<lambda>_. on_host R rows n p) (on_host R rows n p)"
  by (rule triple_quiet) (rule host_quiet(1) [OF assms])

lemma triple_uuid:
  assumes "iptables_host env R sem"
  shows "triple (on_host R rows n p) (host_call (fe_uuid env)) (\<lambda>_. on_host R rows n p) (on_host R rows n p)"
  by (rule triple_quiet) (rule host_quiet(2) [OF assms])

lemma triple_normalized:
  assumes "iptables_host env R sem"
  shows "triple (on_host R rows n p) (normalized env rule) (\<lambda>_. on_host R rows n p) (on_host R rows n p)"
proof -
  have "triple (on_host R rows n p) (if ir_expires_at rule = None then ret 0 else host_call (fe_now env)) (\<lambda>_. on_host R rows n p) (on_host R rows n p)"
    by (intro triple_cond triple_ret triple_clock [OF assms])
  then show ?thesis
    unfolding normalized_def
    by (rule triple_bnd) (auto intro: triple_throw triple_ret split: sum.split)
qed

text \<open>A row is installed or removed when it is active.\<close>

lemma triple_install:
  assumes H: "iptables_host env R sem" and b: "ir_backend r = BackendIPTables"
  shows "triple (on_host R rows n (\<lambda>M'. M' = M)) (if ir_state r = 1 then install_rule env r else ret [])
    (\<lambda>ops. seen R (\<lambda>rows' n' M'. (ir_state r = 1 \<longrightarrow> ops = iptables_rule_operations r) \<and> rows' = rows \<and> n' = n \<and> M' = M + part sem r))
    (on_host R rows n (\<lambda>M'. M' = M))"
proof (rule triple_cond)
  assume active: "ir_state r = 1"
  show "triple (on_host R rows n (\<lambda>M'. M' = M)) (install_rule env r)
    (\<lambda>ops. seen R (\<lambda>rows' n' M'. (ir_state r = 1 \<longrightarrow> ops = iptables_rule_operations r) \<and> rows' = rows \<and> n' = n \<and> M' = M + part sem r))
    (on_host R rows n (\<lambda>M'. M' = M))"
    unfolding install_rule_def rule_operations_iptables [OF H b] bnd_ret unfolding b
    by (rule triple_bnd [OF triple_run_operations [OF H operations_paired(1)]], rule triple_ret)
      (auto simp: seen_def part_def active shifts_install)
qed (rule triple_ret, simp add: part_def)

lemma triple_uninstall:
  assumes H: "iptables_host env R sem" and b: "ir_backend r = BackendIPTables"
  shows "triple (on_host R rows n (\<lambda>M'. M' = M)) (if ir_state r = 1 then uninstall_rule env r else ret [])
    (\<lambda>ops. seen R (\<lambda>rows' n' M'. (ir_state r = 1 \<longrightarrow> ops = iptables_rule_operations r) \<and> rows' = rows \<and> n' = n \<and> M = M' + part sem r))
    (on_host R rows n (\<lambda>M'. M' = M))"
proof (rule triple_cond)
  assume active: "ir_state r = 1"
  show "triple (on_host R rows n (\<lambda>M'. M' = M)) (uninstall_rule env r)
    (\<lambda>ops. seen R (\<lambda>rows' n' M'. (ir_state r = 1 \<longrightarrow> ops = iptables_rule_operations r) \<and> rows' = rows \<and> n' = n \<and> M = M' + part sem r))
    (on_host R rows n (\<lambda>M'. M' = M))"
    unfolding uninstall_rule_def rule_operations_iptables [OF H b] bnd_ret unfolding b
    by (rule triple_bnd [OF triple_run_operations [OF H operations_paired(2)]], rule triple_ret)
      (auto simp: seen_def part_def active shifts_uninstall)
qed (rule triple_ret, auto simp: seen_def part_def)

lemma missed_writes [keeps_rules]:
  "keeps fw_missed (create_row r)" "keeps fw_missed (delete_row i)" "keeps fw_missed (update_row i f)"
  unfolding create_row_def delete_row_def update_row_def
  by (rule keeps_exec, simp add: Let_def) (intro keeps_rules, simp)+

lemma keeps_store_missed [keeps_rules]:
  "keeps fw_missed (store_rule env rule)" "keeps fw_missed (exchange_rule env old rule)" "keeps fw_missed (remove_rule env rule)"
  unfolding store_rule_def exchange_rule_def remove_rule_def Let_def by (intro keeps_rules)+

lemma triple_if_so: "(b \<Longrightarrow> triple P m (\<lambda>_. Q) E) \<Longrightarrow> (\<And>db. \<not> b \<Longrightarrow> P db \<Longrightarrow> Q db) \<Longrightarrow> triple P (if_so b m) (\<lambda>_. Q) E"
  by (cases b) (auto simp: if_so_def triple_def)

definition belongs :: "iptables_rule \<Rightarrow> bool" where
  "belongs r \<longleftrightarrow> ir_backend r = BackendIPTables \<and> ir_state r \<in> {0, 1} \<and> (ir_protected r \<longrightarrow> ir_state r = 1)"

lemma mirrored_append:
  assumes "mirrored sem foreign rows n M" "belongs r"
  shows "mirrored sem foreign (rows @ [r\<lparr>ir_id := n + 1, ir_rule_type := t\<rparr>]) (n + 1) (M + part sem r)"
proof -
  have "part sem (r\<lparr>ir_id := n + 1, ir_rule_type := t\<rparr>) = part sem r"
    by (simp add: part_def rule_meaning_def rule_specs_def iptables_rule_operations_def for_each_pair_def expanded_values_def iptables_spec_def)
  then show ?thesis
    using assms keyed_append [of rows n "r\<lparr>ir_id := n + 1, ir_rule_type := t\<rparr>"]
    by (auto simp: mirrored_def active_parts belongs_def)
qed

lemma triple_store:
  assumes H: "iptables_host env R sem" and inv: "mirrored sem foreign rows n M" and r: "belongs r"
  shows "triple (on_host R rows n (\<lambda>M'. M' = M)) (store_rule env r) (\<lambda>_. seen R (mirrored sem foreign)) (seen R (mirrored sem foreign))"
proof -
  have b: "ir_backend r = BackendIPTables" using r by (simp add: belongs_def)
  let ?put = "on_host R rows n (\<lambda>M'. M' = M + part sem r)" and ?inv = "seen R (mirrored sem foreign)"
  have same: "on_host R rows n (\<lambda>M'. M' = M) db \<Longrightarrow> ?inv db" for db using inv by (auto simp: seen_def)
  have create: "triple ?put (create_row r) (\<lambda>_. ?inv) ?put"
    unfolding create_row_def
    by (rule triple_exec) (use mirrored_append [OF inv r] in \<open>auto simp: seen_def Let_def\<close>)
  have undo: "triple ?put (if_so (ir_state r = 1)
      (bnd (rollback_operations env ops) (\<lambda>_. ignored (persist env BackendIPTables)))) (\<lambda>_. on_host R rows n (\<lambda>M'. M' = M)) (on_host R rows n (\<lambda>M'. M' = M))"
    if "ir_state r = 1 \<longrightarrow> ops = iptables_rule_operations r" for ops
  proof (rule triple_if_so)
    assume active: "ir_state r = 1"
    have "triple (on_host R rows n (shifts sem ops M)) (bnd (rollback_operations env ops) (\<lambda>_. ignored (persist env BackendIPTables)))
        (\<lambda>_. on_host R rows n (\<lambda>M'. M' = M)) (on_host R rows n (\<lambda>M'. M' = M))"
      using active that operations_paired(1) by (intro triple_bnd [OF triple_rollback [OF H]] triple_ignored [OF triple_persist [OF H]]) simp
    then show "triple ?put (bnd (rollback_operations env ops) (\<lambda>_. ignored (persist env BackendIPTables)))
        (\<lambda>_. on_host R rows n (\<lambda>M'. M' = M)) (on_host R rows n (\<lambda>M'. M' = M))"
      using active that by (simp add: shifts_install part_def)
  qed (auto simp: part_def seen_def)
  show ?thesis
    unfolding store_rule_def b
  proof (rule triple_bnd [OF triple_fail [OF triple_install [OF H b] same]])
    fix ops
    show "triple (seen R (\<lambda>rows' n' M'. (ir_state r = 1 \<longrightarrow> ops = iptables_rule_operations r) \<and> rows' = rows \<and> n' = n \<and> M' = M + part sem r))
      (on_error (create_row r) (if_so (ir_state r = 1) (bnd (rollback_operations env ops) (\<lambda>_. ignored (persist env BackendIPTables)))))
      (\<lambda>_. ?inv) ?inv"
    proof (rule triple_pure)
      assume ops: "ir_state r = 1 \<longrightarrow> ops = iptables_rule_operations r"
      show "triple ?put (on_error (create_row r) (if_so (ir_state r = 1) (bnd (rollback_operations env ops) (\<lambda>_. ignored (persist env BackendIPTables)))))
          (\<lambda>_. ?inv) ?inv"
        by (rule triple_weaken [OF triple_on_error [OF create undo [OF ops]]]) (use same in auto)
    qed (intro keeps_rules)
  qed
qed

text \<open>Removing a row and exchanging it, with the row read before.\<close>

lemma mirrored_remove:
  assumes "mirrored sem foreign rows n M" "find (\<lambda>r. ir_id r = i) rows = Some old" "M = M' + part sem old"
  shows "mirrored sem foreign (filter (\<lambda>r. ir_id r \<noteq> i) rows) n M'"
proof -
  have key: "keyed rows n" using assms(1) by (simp add: mirrored_def)
  have "keyed (filter (\<lambda>r. ir_id r \<noteq> i) rows) n"
    using key by (auto simp: keyed_def list_all_iff distinct_map inj_on_def)
  then show ?thesis
    using assms(1,3) parts_split(1) [OF key assms(2), of sem] by (auto simp: mirrored_def active_parts list_all_iff ac_simps)
qed

lemma mirrored_update:
  assumes inv: "mirrored sem foreign rows n M" and found: "find (\<lambda>r. ir_id r = i) rows = Some old"
    and M: "M = M1 + part sem old" and f: "\<And>r. ir_id (f r) = ir_id r" "belongs (f old)"
  shows "mirrored sem foreign (upd_where (\<lambda>r. ir_id r = i) f rows) n (M1 + part sem (f old))"
proof -
  have key: "keyed rows n" using inv by (simp add: mirrored_def)
  have rows: "r \<in> set rows \<Longrightarrow> belongs r" for r using inv by (auto simp: mirrored_def belongs_def list_all_iff)
  have "r \<in> set rows \<Longrightarrow> ir_id r = i \<Longrightarrow> r = old" for r
    using key found by (auto simp: keyed_def distinct_map inj_on_def find_Some_iff)
  then have "r \<in> set (upd_where (\<lambda>r. ir_id r = i) f rows) \<Longrightarrow> belongs r" for r
    using rows f(2) by (auto simp: set_upd_where)
  moreover have "keyed (upd_where (\<lambda>r. ir_id r = i) f rows) n"
    using key f(1) by (auto simp: keyed_def list_all_iff map_upd_where set_upd_where)
  moreover have "foreign + (part sem old + (\<Sum>r\<leftarrow>filter (\<lambda>r. ir_id r \<noteq> i) rows. part sem r)) = M1 + part sem old"
    using inv M parts_split(1) [OF key found, of sem] by (simp add: mirrored_def active_parts)
  then have "foreign + (\<Sum>r\<leftarrow>filter (\<lambda>r. ir_id r \<noteq> i) rows. part sem r) = M1" by (simp add: ac_simps)
  ultimately show ?thesis
    using parts_split(2) [OF key found, of sem f] by (auto simp: mirrored_def active_parts list_all_iff belongs_def ac_simps)
qed

lemma triple_restore:
  assumes H: "iptables_host env R sem" and "ir_state r = 1 \<longrightarrow> ops = iptables_rule_operations r"
  shows "triple (on_host R rows n (\<lambda>M'. M = M' + part sem r)) (if_so (ir_state r = 1) (ignored (run_operations env BackendIPTables ops)))
    (\<lambda>_. on_host R rows n (\<lambda>M'. M' = M)) (on_host R rows n (\<lambda>M'. M' = M))"
proof (rule triple_if_so)
  assume active: "ir_state r = 1"
  show "triple (on_host R rows n (\<lambda>M'. M = M' + part sem r)) (ignored (run_operations env BackendIPTables ops))
    (\<lambda>_. on_host R rows n (\<lambda>M'. M' = M)) (on_host R rows n (\<lambda>M'. M' = M))"
  proof (rule triple_snapshot)
    fix rows' n' M1 assume at: "rows' = rows \<and> n' = n \<and> M = M1 + part sem r"
    have "triple (on_host R rows n (\<lambda>M'. M' = M1)) (run_operations env BackendIPTables ops)
        (\<lambda>_. on_host R rows n (\<lambda>M'. M' = M)) (on_host R rows n (\<lambda>M'. M' = M1))"
      using active assms(2) operations_paired(1)
      by (intro triple_weaken [OF triple_run_operations [OF H]]) (auto simp: seen_def shifts_install part_def at)
    then show "triple (on_host R rows' n' (\<lambda>M'. M' = M1)) (ignored (run_operations env BackendIPTables ops))
        (\<lambda>_. on_host R rows n (\<lambda>M'. M' = M)) (on_host R rows n (\<lambda>M'. M' = M))"
      using at by (auto intro: triple_ignored)
  qed (intro keeps_rules)
qed (auto simp: part_def seen_def)

lemma triple_remove:
  assumes H: "iptables_host env R sem" and inv: "mirrored sem foreign rows n M" and found: "find (\<lambda>r. ir_id r = ir_id old) rows = Some old"
  shows "triple (on_host R rows n (\<lambda>M'. M' = M)) (remove_rule env old) (\<lambda>_. seen R (mirrored sem foreign)) (seen R (mirrored sem foreign))"
proof -
  have "old \<in> set rows" using found by (auto simp: find_Some_iff)
  then have b: "ir_backend old = BackendIPTables" using inv by (auto simp: mirrored_def list_all_iff)
  let ?out = "on_host R rows n (\<lambda>M'. M = M' + part sem old)" and ?inv = "seen R (mirrored sem foreign)"
  have same: "on_host R rows n (\<lambda>M'. M' = M) db \<Longrightarrow> ?inv db" for db using inv by (auto simp: seen_def)
  have drop: "triple ?out (delete_row (ir_id old)) (\<lambda>_. ?inv) ?out"
    unfolding delete_row_def modify_def
    by (rule triple_exec) (use mirrored_remove [OF inv found] in \<open>auto simp: seen_def\<close>)
  show ?thesis
    unfolding remove_rule_def b
  proof (rule triple_bnd [OF triple_fail [OF triple_uninstall [OF H b] same]])
    fix ops
    show "triple (seen R (\<lambda>rows' n' M'. (ir_state old = 1 \<longrightarrow> ops = iptables_rule_operations old) \<and> rows' = rows \<and> n' = n \<and> M = M' + part sem old))
      (on_error (delete_row (ir_id old)) (if_so (ir_state old = 1) (ignored (run_operations env BackendIPTables ops)))) (\<lambda>_. ?inv) ?inv"
    proof (rule triple_pure)
      assume ops: "ir_state old = 1 \<longrightarrow> ops = iptables_rule_operations old"
      show "triple ?out (on_error (delete_row (ir_id old)) (if_so (ir_state old = 1) (ignored (run_operations env BackendIPTables ops)))) (\<lambda>_. ?inv) ?inv"
        by (rule triple_weaken [OF triple_on_error [OF drop triple_restore [OF H ops]]]) (use same in auto)
    qed (intro keeps_rules)
  qed
qed

lemma triple_take_out:
  assumes H: "iptables_host env R sem" and "ir_state r = 1 \<longrightarrow> ops = iptables_rule_operations r"
  shows "triple (on_host R rows n (\<lambda>M'. M' = M + part sem r))
    (if_so (ir_state r = 1) (ignored (run_operations env BackendIPTables (reverse_operations ops))))
    (\<lambda>_. on_host R rows n (\<lambda>M'. M' = M)) E"
proof (rule triple_if_so)
  assume active: "ir_state r = 1"
  have "triple (on_host R rows n (\<lambda>M'. M' = M + part sem r)) (run_operations env BackendIPTables (reverse_operations ops))
      (\<lambda>_. on_host R rows n (\<lambda>M'. M' = M)) (on_host R rows n (\<lambda>M'. M' = M + part sem r))"
    using active assms(2) operations_paired(2)
    by (intro triple_weaken [OF triple_run_operations [OF H]]) (auto simp: seen_def shifts_uninstall part_def)
  then show "triple (on_host R rows n (\<lambda>M'. M' = M + part sem r)) (ignored (run_operations env BackendIPTables (reverse_operations ops)))
      (\<lambda>_. on_host R rows n (\<lambda>M'. M' = M)) E"
    by (rule triple_ignored)
qed (auto simp: part_def seen_def)

lemma stored_id: "ir_id (stored_update rule old) = ir_id old"
  by (simp add: stored_update_def)

lemma stored_part: "part sem (stored_update rule old) = part sem rule"
  by (simp add: part_def rule_meaning_def rule_specs_def iptables_rule_operations_def for_each_pair_def expanded_values_def
    iptables_spec_def stored_update_def)

lemma triple_exchange:
  assumes H: "iptables_host env R sem" and inv: "mirrored sem foreign rows n M" and found: "find (\<lambda>r. ir_id r = ir_id old) rows = Some old"
    and new: "belongs rule" "\<not> ir_protected old"
  shows "triple (on_host R rows n (\<lambda>M'. M' = M)) (exchange_rule env old rule) (\<lambda>_. seen R (mirrored sem foreign)) (seen R (mirrored sem foreign))"
proof -
  have "old \<in> set rows" using found by (auto simp: find_Some_iff)
  then have b: "ir_backend old = BackendIPTables" using inv by (auto simp: mirrored_def list_all_iff)
  have b': "ir_backend rule = BackendIPTables" using new by (simp add: belongs_def)
  let ?inv = "seen R (mirrored sem foreign)" and ?at = "\<lambda>M. on_host R rows n (\<lambda>M'. M' = M)"
  have same: "?at M db \<Longrightarrow> ?inv db" for db using inv by (auto simp: seen_def)
  have row: "belongs (stored_update rule old)" using new by (auto simp: belongs_def stored_update_def)
  show ?thesis
    unfolding exchange_rule_def Let_def b b'
  proof (rule triple_bnd [OF triple_fail [OF triple_uninstall [OF H b] same]])
    fix old_ops
    let ?restore = "if_so (ir_state old = 1) (ignored (run_operations env BackendIPTables old_ops))"
    let ?rest = "bnd (on_error (if ir_state rule = 1 then install_rule env rule else ret []) ?restore) (\<lambda>new_ops.
        on_error (update_row (ir_id old) (stored_update rule))
          (bnd (if_so (ir_state rule = 1) (ignored (run_operations env BackendIPTables (reverse_operations new_ops)))) (\<lambda>_. ?restore)))"
    show "triple (seen R (\<lambda>rows' n' M'. (ir_state old = 1 \<longrightarrow> old_ops = iptables_rule_operations old) \<and> rows' = rows \<and> n' = n \<and> M = M' + part sem old))
        ?rest (\<lambda>_. ?inv) ?inv"
    proof (rule triple_pure, rule triple_snapshot)
      fix rows' n' M1
      assume ops: "ir_state old = 1 \<longrightarrow> old_ops = iptables_rule_operations old" and at: "rows' = rows \<and> n' = n \<and> M = M1 + part sem old"
    have restore: "triple (?at M1) ?restore (\<lambda>_. ?inv) ?inv"
      by (rule triple_pre [OF triple_weaken [OF triple_restore [OF H ops]]]) (use same at in \<open>auto simp: seen_def\<close>)
    have after: "mirrored sem foreign (upd_where (\<lambda>r. ir_id r = ir_id old) (stored_update rule) rows) n (M1 + part sem rule)"
      using mirrored_update [where f = "stored_update rule", OF inv found, of M1] at row by (simp add: stored_part stored_id)
    have stored: "triple (?at (M1 + part sem rule)) (update_row (ir_id old) (stored_update rule)) (\<lambda>_. ?inv) (?at (M1 + part sem rule))"
      unfolding update_row_def modify_def
      by (rule triple_exec) (use after in \<open>auto simp: seen_def\<close>)
      have "triple (?at M1) ?rest (\<lambda>_. ?inv) ?inv"
      proof (rule triple_bnd [OF triple_on_error [OF triple_install [OF H b'] restore]], rule triple_pure)
        fix new_ops assume new_ops: "ir_state rule = 1 \<longrightarrow> new_ops = iptables_rule_operations rule"
        show "triple (?at (M1 + part sem rule)) (on_error (update_row (ir_id old) (stored_update rule))
            (bnd (if_so (ir_state rule = 1) (ignored (run_operations env BackendIPTables (reverse_operations new_ops)))) (\<lambda>_. ?restore)))
          (\<lambda>_. ?inv) ?inv"
          by (rule triple_on_error [OF stored triple_bnd [OF triple_take_out [OF H new_ops] restore]])
      qed (intro keeps_rules)
      then show "triple (on_host R rows' n' (\<lambda>M'. M' = M1)) ?rest (\<lambda>_. ?inv) ?inv" using at by simp
    qed (intro keeps_rules)+
  qed
qed

section \<open>Operations\<close>

lemma triple_find:
  "triple (on_host R rows n p) (find_rule i)
    (\<lambda>old. seen R (\<lambda>rows' n' M'. find (\<lambda>r. ir_id r = i) rows = Some old \<and> rows' = rows \<and> n' = n \<and> p M')) (on_host R rows n p)"
proof -
  have "triple (on_host R rows n p) (query DatabaseFailed (\<lambda>db. find (\<lambda>r. ir_id r = i) (fw_rules db)))
      (\<lambda>row. seen R (\<lambda>rows' n' M'. row = find (\<lambda>r. ir_id r = i) rows \<and> rows' = rows \<and> n' = n \<and> p M')) (on_host R rows n p)"
    unfolding query_def by (rule triple_exec) (auto simp: seen_def)
  then show ?thesis
    unfolding find_rule_def
    by (rule triple_bnd) (auto simp: seen_def intro!: triple_throw triple_ret split: option.split)
qed

lemma keeps_found:
  assumes "\<And>rows n M old. mirrored sem foreign rows n M \<Longrightarrow> find (\<lambda>r. ir_id r = i) rows = Some old \<Longrightarrow>
      triple (on_host R rows n (\<lambda>M'. M' = M)) (f old) (\<lambda>_. seen R (mirrored sem foreign)) (seen R (mirrored sem foreign))"
    and "\<And>old. keeps fw_missed (f old)"
  shows "keeps (seen R (mirrored sem foreign)) (bnd (find_rule i) f)"
  unfolding triple_keeps [symmetric]
proof (rule triple_snapshot)
  fix rows n M assume inv: "mirrored sem foreign rows n M"
  then have "on_host R rows n (\<lambda>M'. M' = M) db \<Longrightarrow> seen R (mirrored sem foreign) db" for db by (auto simp: seen_def)
  then show "triple (on_host R rows n (\<lambda>M'. M' = M)) (bnd (find_rule i) f) (\<lambda>_. seen R (mirrored sem foreign)) (seen R (mirrored sem foreign))"
    using assms inv by (intro triple_bnd [OF triple_fail [OF triple_find]] triple_pure)
qed (intro keeps_rules assms)

lemma found_row:
  assumes "mirrored sem foreign rows n M" "find (\<lambda>r. ir_id r = i) rows = Some old"
  shows "belongs old" "ir_id old = i"
proof -
  show "ir_id old = i" using assms(2) by (auto simp: find_Some_iff)
  have "old \<in> set rows" using assms(2) by (auto simp: find_Some_iff)
  then show "belongs old" using assms(1) by (auto simp: mirrored_def list_all_iff belongs_def)
qed

lemma mirror_delete:
  assumes H: "iptables_host env R sem"
  shows "keeps (seen R (mirrored sem foreign)) (delete_locked env rule_id)"
proof -
  have "keeps (seen R (mirrored sem foreign)) (bnd (find_rule rule_id) (\<lambda>found. if ir_protected found then throw ErrProtected
      else bnd (backend_of env found) (\<lambda>backend. remove_rule env (found\<lparr>ir_backend := backend\<rparr>))))"
  proof (rule keeps_found)
    fix rows n M old assume inv: "mirrored sem foreign rows n M" and found: "find (\<lambda>r. ir_id r = rule_id) rows = Some old"
    note old = found_row [OF inv found]
    have b: "backend_of env old = ret (ir_backend old)" using old by (intro backend_of_known) (simp add: belongs_def)
    have "old\<lparr>ir_backend := ir_backend old\<rparr> = old" by simp
    with triple_remove [OF H inv, of old] found old(2)
    show "triple (on_host R rows n (\<lambda>M'. M' = M)) (if ir_protected old then throw ErrProtected
        else bnd (backend_of env old) (\<lambda>backend. remove_rule env (old\<lparr>ir_backend := backend\<rparr>))) (\<lambda>_. seen R (mirrored sem foreign)) (seen R (mirrored sem foreign))"
      unfolding b bnd_ret by (intro triple_cond triple_throw) (use inv in \<open>auto simp: seen_def\<close>)
  qed (intro keeps_rules)
  then show ?thesis unfolding delete_locked_def by (intro keeps_if keeps_throw)
qed

lemma normalized_state: "\<exists>now. normalize_rule env now port rule = Inr nr \<Longrightarrow> nr_state nr \<in> {0, 1}"
  using normalize_rule_facts(5) by blast

lemma mirror_update:
  assumes H: "iptables_host env R sem"
  shows "keeps (seen R (mirrored sem foreign)) (update_rule env requested)"
proof -
  let ?inv = "seen R (mirrored sem foreign)"
  let ?rest = "\<lambda>found. if ir_protected found then throw ErrProtected
      else bnd (normalized env requested) (\<lambda>nr. bnd (backend_of env found) (\<lambda>backend.
        bnd (if ir_token found = [] then host_call (fe_uuid env) else ret (ir_token found)) (\<lambda>token.
        bnd (exchange_rule env (found\<lparr>ir_backend := backend\<rparr>)
               (locate ((apply_normalized requested nr)\<lparr>ir_backend := backend, ir_token := token, ir_protected := False\<rparr>))) (\<lambda>_.
        find_rule (ir_id found)))))"
  have "keeps ?inv (bnd (find_rule (ir_id requested)) ?rest)"
  proof (rule keeps_found)
    fix rows n M old assume inv: "mirrored sem foreign rows n M" and found: "find (\<lambda>r. ir_id r = ir_id requested) rows = Some old"
    note old = found_row [OF inv found]
    let ?at = "on_host R rows n (\<lambda>M'. M' = M)"
    have same: "?at db \<Longrightarrow> ?inv db" for db using inv by (auto simp: seen_def)
    have b: "backend_of env old = ret BackendIPTables" using old backend_of_known [of old env] by (simp add: belongs_def)
    have old_row: "old\<lparr>ir_backend := BackendIPTables\<rparr> = old" using old by (simp add: belongs_def)
    have token: "triple ?at (if ir_token old = [] then host_call (fe_uuid env) else ret (ir_token old)) (\<lambda>_. ?at) ?at"
      by (intro triple_cond triple_ret triple_uuid [OF H])
    have reread: "triple ?inv (find_rule i) (\<lambda>_. ?inv) ?inv" for i unfolding triple_keeps by (intro keeps_rules)
    have "triple ?at (bnd (exchange_rule env old (locate ((apply_normalized requested nr)\<lparr>ir_backend := BackendIPTables, ir_token := token, ir_protected := False\<rparr>)))
        (\<lambda>_. find_rule (ir_id old))) (\<lambda>_. ?inv) ?inv"
      if "\<exists>now. normalize_rule (fe_rules env) now (fe_panel_port env) requested = Inr nr" "\<not> ir_protected old" for nr token
    proof (rule triple_bnd [OF triple_exchange [OF H inv] reread])
      show "find (\<lambda>r. ir_id r = ir_id old) rows = Some old" "\<not> ir_protected old" using found old that by simp_all
      show "belongs (locate ((apply_normalized requested nr)\<lparr>ir_backend := BackendIPTables, ir_token := token, ir_protected := False\<rparr>))"
        using normalized_state [OF that(1)] by (simp add: belongs_def locate_def apply_normalized_def)
    qed
    then show "triple ?at (?rest old) (\<lambda>_. ?inv) ?inv"
      unfolding b bnd_ret old_row
      by (intro triple_cond triple_throw triple_bnd_returns [OF normalized_returns triple_fail [OF triple_normalized [OF H]]]
          triple_bnd [OF triple_fail [OF token]] same)
  qed (intro keeps_rules)
  then show ?thesis unfolding update_rule_def by (intro keeps_if keeps_throw)
qed

lemma mirror_add:
  assumes H: "iptables_host env R sem"
  shows "keeps (seen R (mirrored sem foreign)) (add_locked env requested)"
  unfolding triple_keeps [symmetric]
proof (rule triple_snapshot)
  fix rows n M assume inv: "mirrored sem foreign rows n M"
  let ?inv = "seen R (mirrored sem foreign)" and ?at = "on_host R rows n (\<lambda>M'. M' = M)"
  have same: "?at db \<Longrightarrow> ?inv db" for db using inv by (auto simp: seen_def)
  have "triple ?at (store_rule env (locate ((apply_normalized requested nr)\<lparr>ir_id := 0, ir_backend := BackendIPTables, ir_token := token,
      ir_protected := False\<rparr>))) (\<lambda>_. ?inv) ?inv"
    if "\<exists>now. normalize_rule (fe_rules env) now (fe_panel_port env) requested = Inr nr" for nr token
    by (rule triple_store [OF H inv])
      (use normalized_state [OF that] in \<open>simp add: belongs_def locate_def apply_normalized_def\<close>)
  then show "triple ?at (add_locked env requested) (\<lambda>_. ?inv) ?inv"
    unfolding add_locked_def detect_iptables_only [OF H] bnd_ret backend_state.simps not_True_eq_False if_False
    by (intro triple_bnd_returns [OF normalized_returns triple_fail [OF triple_normalized [OF H]]]
        triple_bnd [OF triple_fail [OF triple_uuid [OF H]]] same)
qed (unfold add_locked_def, intro keeps_rules)

lemma mirror_set_state:
  assumes H: "iptables_host env R sem"
  shows "keeps (seen R (mirrored sem foreign)) (set_rule_state_locked env rule_id enabled)"
proof -
  let ?inv = "seen R (mirrored sem foreign)" and ?goal = "if enabled then 1 else 0 :: int"
  let ?clock = "\<lambda>rule. if enabled then (case ir_expires_at rule of None \<Rightarrow> ret False
      | Some t \<Rightarrow> bnd (host_call (fe_now env)) (\<lambda>now. ret (\<not> now < t))) else ret False"
  let ?run = "\<lambda>ops. if enabled then ops else reverse_operations ops"
  let ?act = "\<lambda>ops backend. bnd (run_operations env backend (?run ops)) (\<lambda>_.
      on_error (update_row rule_id (\<lambda>r. r\<lparr>ir_state := ?goal\<rparr>))
        (bnd (rollback_operations env (?run ops)) (\<lambda>_. ignored (persist env backend))))"
  let ?rest = "\<lambda>rule. if ir_protected rule then throw ErrProtected else if ir_state rule = ?goal then ret ()
      else bnd (?clock rule) (\<lambda>expired. if expired then throw (InvalidInput ''expired'')
        else bnd (backend_of env rule) (\<lambda>backend. bnd (rule_operations env (rule\<lparr>ir_backend := backend\<rparr>)) (\<lambda>ops. ?act ops backend)))"
  have "keeps ?inv (bnd (find_rule rule_id) ?rest)"
  proof (rule keeps_found)
    fix rows n M old assume inv: "mirrored sem foreign rows n M" and found: "find (\<lambda>r. ir_id r = rule_id) rows = Some old"
    note old = found_row [OF inv found]
    let ?at = "on_host R rows n (\<lambda>M'. M' = M)"
    let ?ops = "?run (iptables_rule_operations old)"
    have same: "?at db \<Longrightarrow> ?inv db" for db using inv by (auto simp: seen_def)
    have b: "ir_backend old = BackendIPTables" using old by (simp add: belongs_def)
    have known: "backend_of env old = ret BackendIPTables" using b backend_of_known [of old env] by simp
    have old_row: "old\<lparr>ir_backend := BackendIPTables\<rparr> = old" using b by simp
    have clock: "triple ?at (?clock old) (\<lambda>_. ?at) ?at"
      by (auto intro!: triple_ret triple_bnd [OF triple_clock [OF H]] split: option.split)
    have paired: "list_all paired ?ops" using operations_paired by simp
    have act: "triple ?at (?act (iptables_rule_operations old) BackendIPTables) (\<lambda>_. ?inv) ?inv"
      if "\<not> ir_protected old" "ir_state old \<noteq> ?goal"
    proof (rule triple_bnd [OF triple_fail [OF triple_run_operations [OF H paired] same]])
      have meaning: "rule_meaning sem (old\<lparr>ir_state := x\<rparr>) = rule_meaning sem old" for x
        by (simp add: rule_meaning_def rule_specs_def iptables_rule_operations_def for_each_pair_def expanded_values_def iptables_spec_def)
      have after: "mirrored sem foreign (upd_where (\<lambda>r. ir_id r = rule_id) (\<lambda>r. r\<lparr>ir_state := ?goal\<rparr>) rows) n M'"
        if "shifts sem ?ops M M'" for M'
      proof (cases enabled)
        case True
        then have "M' = M + rule_meaning sem old" "part sem old = {#}"
          using that \<open>ir_state old \<noteq> ?goal\<close> by (simp_all add: shifts_install part_def)
        then show ?thesis
          using mirrored_update [where f = "\<lambda>r. r\<lparr>ir_state := ?goal\<rparr>", OF inv found, of M] old \<open>\<not> ir_protected old\<close> True
          by (simp add: belongs_def part_def meaning)
      next
        case False
        then have "M = M' + rule_meaning sem old" "part sem old = rule_meaning sem old"
          using that \<open>ir_state old \<noteq> ?goal\<close> old(1) by (auto simp: shifts_uninstall part_def belongs_def)
        then show ?thesis
          using mirrored_update [where f = "\<lambda>r. r\<lparr>ir_state := ?goal\<rparr>", OF inv found, of M'] old \<open>\<not> ir_protected old\<close> False
          by (simp add: belongs_def part_def meaning)
      qed
      have stored: "triple (on_host R rows n (shifts sem ?ops M)) (update_row rule_id (\<lambda>r. r\<lparr>ir_state := ?goal\<rparr>)) (\<lambda>_. ?inv)
          (on_host R rows n (shifts sem ?ops M))"
        unfolding update_row_def modify_def by (rule triple_exec) (use after in \<open>auto simp: seen_def\<close>)
      show "triple (on_host R rows n (shifts sem ?ops M)) (on_error (update_row rule_id (\<lambda>r. r\<lparr>ir_state := ?goal\<rparr>))
          (bnd (rollback_operations env ?ops) (\<lambda>_. ignored (persist env BackendIPTables)))) (\<lambda>_. ?inv) ?inv"
        by (rule triple_weaken [OF triple_on_error [OF stored triple_bnd [OF triple_rollback [OF H paired] triple_ignored [OF triple_persist [OF H]]]]])
          (use same in auto)
    qed
    show "triple ?at (?rest old) (\<lambda>_. ?inv) ?inv"
      unfolding known bnd_ret old_row rule_operations_iptables [OF H b]
      by (intro triple_cond triple_throw triple_ret triple_bnd [OF triple_fail [OF clock]] act same)
  qed (intro keeps_rules)
  then show ?thesis unfolding set_rule_state_locked_def Let_def by (intro keeps_if keeps_throw)
qed

end
