(* ===== verification/Firewall_Refine.thy ===== *)
theory Firewall_Refine
  imports Firewall_Mirror
begin

text \<open>
  The remaining operations of the service on an iptables host, and the statement for all
  histories: the kernel's rules are those of the active rows and the ones the panel does not
  manage.
\<close>

section \<open>Actions that leave the kernel's rules alone\<close>

lemma seen_elsewhere [simp]:
  "seen R P (db\<lparr>fw_forwards := x\<rparr>) = seen R P db" "seen R P (db\<lparr>fw_last_forward := k\<rparr>) = seen R P db"
  "seen R P (db\<lparr>fw_auto := y\<rparr>) = seen R P db" "seen R P (db\<lparr>fw_migration := z\<rparr>) = seen R P db"
  by (simp_all add: seen_def)

lemma keeps_quiet: "(\<And>h. R (snd (f h)) = R h) \<Longrightarrow> keeps (seen R P) (host_call f)"
proof -
  assume quiet: "\<And>h. R (snd (f h)) = R h"
  have "seen R P (tables (snd (host_call f s)))" if "seen R P (tables s)" for s
    using that quiet [of "fw_host (tables s)"] by (auto simp: host_call_def seen_def split: prod.splits)
  then show ?thesis by (simp add: keeps_def)
qed

lemma keeps_quiet_command:
  assumes "\<And>h. R (snd (fe_run env h name args)) = R h"
  shows "keeps (seen R P) (run_program env name args)" "keeps (seen R P) (command env name args)"
proof -
  show "keeps (seen R P) (run_program env name args)" unfolding run_program_def by (rule keeps_quiet) (rule assms)
  then show "keeps (seen R P) (command env name args)" unfolding command_def by (intro keeps_rules)
qed

lemma keeps_cond: "(b \<Longrightarrow> keeps I m) \<Longrightarrow> (\<not> b \<Longrightarrow> keeps I n) \<Longrightarrow> keeps I (if b then m else n)"
  by simp

lemma bnd_throw: "bnd (throw e) f = throw e"
  by (rule ext) (simp add: bnd_def)

lemma mirror_clock: "iptables_host env R sem \<Longrightarrow> keeps (seen R P) (host_call (fe_now env))"
  by (rule keeps_quiet) (rule host_quiet(1))

text \<open>Commands of firewalld fail here, and change nothing.\<close>

abbreviation firewalld_only :: "command_operation list \<Rightarrow> bool" where
  "firewalld_only \<equiv> list_all (\<lambda>c. co_name c = ''firewall-cmd'' \<and> co_undo_name c = ''firewall-cmd'')"

lemma firewalld_quiet:
  assumes H: "iptables_host env R sem" and ops: "firewalld_only ops"
  shows "keeps (seen R P) (rollback_operations env ops)" "keeps (seen R P) (run_operations env BackendFirewalld ops)"
proof -
  have quiet: "keeps (seen R P) (command env ''firewall-cmd'' args)" for args
    by (rule keeps_quiet_command(2)) (rule host_quiet(5) [OF H])
  have undo: "keeps (seen R P) (rollback_operations env ops)" if "firewalld_only ops" for ops
  proof -
    have "keeps (seen R P) (each (\<lambda>c. ignored (command env (co_undo_name c) (co_undo_args c))) cs)" if "firewalld_only cs" for cs
      using that by (induction cs) (auto simp: keeps_ret intro!: keeps_bnd keeps_ignored_seen quiet)
    then show ?thesis unfolding rollback_operations_def using that by (simp add: list_all_iff)
  qed
  have run: "keeps (seen R P) (run_each env applied ops)" if "firewalld_only applied" for applied
    using ops that
  proof (induction ops arbitrary: applied)
    case (Cons c ops)
    then show ?case
      using quiet [of "co_args c"] unfolding run_each.simps by (intro keeps_bnd keeps_on_error undo Cons.IH) simp_all
  qed (simp add: keeps_ret)
  have "keeps (seen R P) (persist env BackendFirewalld)" using quiet by (simp add: persist_def)
  then show "keeps (seen R P) (run_operations env BackendFirewalld ops)" "keeps (seen R P) (rollback_operations env ops)"
    unfolding run_operations_def by (intro keeps_bnd keeps_on_error keeps_ignored_seen run undo ops; simp)+
qed

lemma mirror_rule_exists:
  assumes H: "iptables_host env R sem" and "ir_backend r = [] \<or> ir_backend r = BackendIPTables"
  shows "keeps (seen R P) (rule_exists env r st)"
proof -
  have "keeps (seen R P) (run_program env ''iptables'' (''-C'' # spec))" for spec
    by (rule keeps_quiet_command(1)) (rule host_quiet(6) [OF H])
  then show ?thesis
    using assms(2) unfolding rule_exists_def
    by (elim disjE) (auto intro!: keeps_rules)
qed

section \<open>The other operations\<close>

lemma mirror_reusable:
  assumes H: "iptables_host env R sem"
  shows "keeps (seen R P) (reusable_rule env iptables_state port candidates)"
proof (induction candidates)
  case (Cons c cs)
  have "ir_backend (clear_ports (fe_rules env) c) = ir_backend c" by (simp add: clear_ports_def)
  then show ?case
    unfolding reusable_rule.simps Let_def backend_state.simps
    by (intro keeps_bnd keeps_if [OF keeps_ret mirror_clock [OF H]] keeps_cond keeps_ret Cons.IH mirror_rule_exists [OF H])
      (auto intro: keeps_cond keeps_ret Cons.IH)
qed (simp only: reusable_rule.simps keeps_ret)

lemma mirror_several:
  assumes H: "iptables_host env R sem"
  shows "keeps (seen R (mirrored sem foreign)) (batch env rule_ids action)" "keeps (seen R (mirrored sem foreign)) (cleanup_expired env)"
    "keeps (seen R (mirrored sem foreign)) (remove_created env created)"
    "keeps (seen R (mirrored sem foreign)) (import_rules env rules)" "keeps (seen R (mirrored sem foreign)) (replace_rules env rules)"
proof -
  let ?inv = "seen R (mirrored sem foreign)"
  note steps = keeps_rules mirror_delete [OF H] mirror_set_state [OF H] mirror_add [OF H] keeps_ignored_seen keeps_import_each mirror_clock [OF H]
  show "keeps ?inv (batch env rule_ids action)" "keeps ?inv (cleanup_expired env)"
    unfolding batch_def cleanup_expired_def Let_def by (intro steps)+
  show created: "keeps ?inv (remove_created env created)" for created unfolding remove_created_def by (intro steps)
  show "keeps ?inv (import_rules env rules)" "keeps ?inv (replace_rules env rules)"
    unfolding import_rules_def replace_rules_def by (intro steps created)+
qed

lemma mirror_website:
  assumes H: "iptables_host env R sem"
  shows "keeps (seen R (mirrored sem foreign)) (ensure_website_port env port name)"
  unfolding ensure_website_port_def detect_iptables_only [OF H] bnd_ret
  by (intro keeps_rules mirror_reusable [OF H] mirror_add [OF H])

lemma mirror_auto_block:
  assumes H: "iptables_host env R sem"
  shows "keeps (seen R (mirrored sem foreign)) (run_auto_block env)"
proof -
  have "keeps (seen R (mirrored sem foreign)) (run_program env ''journalctl'' args)" for args
    by (rule keeps_quiet_command(1)) (rule host_quiet(4) [OF H])
  moreover have "keeps (seen R (mirrored sem foreign)) (look_path env name)" for name
    unfolding look_path_def by (rule keeps_quiet) simp
  ultimately show ?thesis
    unfolding run_auto_block_def get_auto_block_config_def Let_def
    by (intro keeps_rules keeps_block_each mirror_add [OF H] mirror_clock [OF H]) simp_all
qed

lemma mirror_maintenance:
  assumes H: "iptables_host env R sem"
  shows "keeps (seen R (mirrored sem foreign)) (maintenance_run env)"
  unfolding maintenance_run_def by (intro keeps_rules mirror_auto_block [OF H] mirror_several [OF H])

lemma mirror_policy: "keeps (seen R P) (save_auto_block_config enabled threshold window_minutes ban_minutes)"
  unfolding save_auto_block_config_def Let_def by (intro keeps_rules keeps_ignored_seen) simp_all

lemma mirror_forwards:
  assumes H: "iptables_host env R sem"
  shows "keeps (seen R P) (add_port_forward env f)" "keeps (seen R P) (update_port_forward env f)"
    "keeps (seen R P) (delete_port_forward env i)" "keeps (seen R P) (set_port_forward_state env i enabled)"
proof -
  have running: "firewalld_running env = throw ErrUnsupported"
    unfolding firewalld_running_def detect_iptables_only [OF H] bnd_ret by simp
  show "keeps (seen R P) (add_port_forward env f)" unfolding add_port_forward_def running bnd_throw by (intro keeps_rules)
  show update: "keeps (seen R P) (update_port_forward env f)" for f unfolding update_port_forward_def running bnd_throw by (intro keeps_rules)
  show "keeps (seen R P) (set_port_forward_state env i enabled)" unfolding set_port_forward_state_def by (intro keeps_rules update)
  show "keeps (seen R P) (delete_port_forward env i)"
    unfolding delete_port_forward_def Let_def
    by (intro keeps_rules keeps_ignored_seen firewalld_quiet [OF H])
      (simp_all add: firewalld_forward_operation_def reverse_operations_def reverse_operation_def Let_def)
qed

section \<open>The protection of the panel port\<close>

text \<open>The record of a protection rule is never stale here: its rule is found.\<close>

lemma specs_nonempty: "iptables_rule_operations r \<noteq> []"
  by (auto simp: iptables_rule_operations_def for_each_pair_def expanded_values_def Let_def ex_in_conv split: prod.splits)

lemma triple_exists:
  assumes H: "iptables_host env R sem" and inv: "mirrored sem foreign rows n M" and r: "r \<in> set rows" "ir_protected r"
  shows "triple (on_host R rows n (\<lambda>M'. M' = M)) (rule_exists env r st)
    (\<lambda>found. seen R (\<lambda>rows' n' M'. found \<and> rows' = rows \<and> n' = n \<and> M' = M)) (seen R E)"
proof -
  have row: "ir_backend r = BackendIPTables" "ir_state r = 1" using inv r by (auto simp: mirrored_def list_all_iff)
  obtain c cs where ops: "iptables_rule_operations r = c # cs" using specs_nonempty [of r] by (cases "iptables_rule_operations r") auto
  let ?spec = "tl (co_args c)"
  have "?spec \<in> set (active_specs rows)"
    using r row by (auto simp: active_specs_def rule_specs_def ops intro!: bexI [of _ r])
  then have "sem ?spec \<in># M" using inv by (auto simp: mirrored_def)
  then have "triple (on_host R rows n (\<lambda>M'. M' = M)) (run_program env ''iptables'' (''-C'' # ?spec))
      (\<lambda>a. on_host R rows n (\<lambda>M'. fst a \<and> M' = M)) (seen R E)"
    unfolding run_program_def using host_rules(1) [OF H] host_quiet(6) [OF H] by (intro triple_host_call) auto
  then have "triple (on_host R rows n (\<lambda>M'. M' = M)) (bnd (run_program env ''iptables'' (''-C'' # ?spec)) (\<lambda>(ok, out). ret ok))
      (\<lambda>found. seen R (\<lambda>rows' n' M'. found \<and> rows' = rows \<and> n' = n \<and> M' = M)) (seen R E)"
    by (rule triple_bnd) (auto simp: seen_def intro!: triple_ret)
  then show ?thesis unfolding rule_exists_def ops using row by simp
qed

lemma bnd_assoc: "bnd (bnd m f) g = bnd m (\<lambda>a. bnd (f a) g)"
  by (rule ext) (auto simp: bnd_def split: prod.splits sum.splits)

lemma ensure_missed [keeps_rules]: "keeps fw_missed (ensure_protected_port env st port)"
  unfolding ensure_protected_port_def Let_def by (intro keeps_rules)

lemma mirror_ensure:
  assumes H: "iptables_host env R sem"
  shows "keeps (seen R (mirrored sem foreign)) (ensure_protected_port env iptables_state port)"
  unfolding triple_keeps [symmetric]
proof (rule triple_snapshot)
  fix rows n M assume inv: "mirrored sem foreign rows n M"
  let ?inv = "seen R (mirrored sem foreign)" and ?at = "on_host R rows n (\<lambda>M'. M' = M)"
  let ?mine = "\<lambda>rows. first_by ir_id (filter (\<lambda>r. protects port r \<and> ir_backend r = BackendIPTables) rows)"
  have same: "?at db \<Longrightarrow> ?inv db" for db using inv by (auto simp: seen_def)
  let ?rule = "\<lambda>token. protection_rule BackendIPTables token port"
  let ?put = "bnd (host_call (fe_uuid env)) (\<lambda>token. bnd (store_rule env (?rule token)) (\<lambda>row.
      ret (Some (row, iptables_rule_operations (?rule token)))))"
  let ?rest = "\<lambda>existing. bnd (case existing of None \<Rightarrow> ret False | Some r \<Rightarrow> rule_exists env r iptables_state) (\<lambda>present.
      if present then ret None else bnd (case existing of None \<Rightarrow> ret () | Some r \<Rightarrow> delete_row (ir_id r)) (\<lambda>_. ?put))"
  have shape: "ensure_protected_port env iptables_state port = bnd (query DatabaseFailed (\<lambda>db. ?mine (fw_rules db))) ?rest"
  proof -
    have b: "ir_backend (?rule token) = BackendIPTables" "ir_state (?rule token) = 1" for token by (simp_all add: protection_rule_def)
    have ops: "protection_operations env iptables_state (?rule token) = ret (iptables_rule_operations (?rule token))" for token
      using rule_operations_iptables [OF H b(1)] by (simp add: protection_operations_def)
    have persist: "offline_persist_backend iptables_state = BackendIPTables" by (simp add: offline_persist_backend_def)
    show ?thesis
      unfolding ensure_protected_port_def Let_def backend_state.simps ops persist bnd_ret store_rule_def install_rule_def
        rule_operations_iptables [OF H b(1)] b bnd_assoc if_so_def if_P [OF refl] ..
  qed
  have put: "triple ?at ?put (\<lambda>_. ?inv) ?inv"
  proof (rule triple_bnd [OF triple_fail [OF triple_uuid [OF H] same]])
    fix token
    have "belongs (?rule token)" by (simp add: belongs_def protection_rule_def)
    then show "triple ?at (bnd (store_rule env (?rule token)) (\<lambda>row. ret (Some (row, iptables_rule_operations (?rule token))))) (\<lambda>_. ?inv) ?inv"
      by (rule triple_bnd [OF triple_store [OF H inv]]) (rule triple_ret)
  qed
  have rest: "triple ?at (?rest existing) (\<lambda>_. ?inv) ?inv" if "existing = ?mine rows" for existing
  proof (cases existing)
    case None
    then show ?thesis using put by (simp add: option.case)
  next
    case (Some r)
    then have "r \<in> set (filter (\<lambda>r. protects port r \<and> ir_backend r = BackendIPTables) rows)"
      using that by (intro first_by_Some(1) [of ir_id]) simp
    then have r: "r \<in> set rows" "ir_protected r" by (simp_all add: protects_def)
    have "triple ?at (bnd (rule_exists env r iptables_state) (\<lambda>present. if present then ret None else bnd (delete_row (ir_id r)) (\<lambda>_. ?put))) (\<lambda>_. ?inv) ?inv"
    proof (rule triple_bnd [OF triple_exists [OF H inv r]], rule triple_pure)
      fix present :: bool assume present
      then show "triple ?at (if present then ret None else bnd (delete_row (ir_id r)) (\<lambda>_. ?put)) (\<lambda>_. ?inv) ?inv"
        by (simp only: if_True) (rule triple_ret, rule same)
    qed (intro keeps_rules)
    then show ?thesis unfolding Some option.case .
  qed
  have read: "triple ?at (query DatabaseFailed (\<lambda>db. ?mine (fw_rules db)))
      (\<lambda>existing. seen R (\<lambda>rows' n' M'. existing = ?mine rows \<and> rows' = rows \<and> n' = n \<and> M' = M)) ?at"
    unfolding query_def by (rule triple_exec) (auto simp: seen_def)
  show "triple ?at (ensure_protected_port env iptables_state port) (\<lambda>_. ?inv) ?inv"
    unfolding shape
  proof (rule triple_bnd [OF triple_fail [OF read same]])
    show "triple (seen R (\<lambda>rows' n' M'. existing = ?mine rows \<and> rows' = rows \<and> n' = n \<and> M' = M)) (?rest existing) (\<lambda>_. ?inv) ?inv" for existing
      by (rule triple_pure [OF rest]) (assumption, intro keeps_rules)
  qed
qed (intro keeps_rules)

lemma mirror_panel_port:
  assumes H: "iptables_host env R sem"
  shows "keeps (seen R (mirrored sem foreign)) (prepare_panel_port env port)"
    "keeps (seen R (mirrored sem foreign)) (rollback_prepared_panel_port env rule_id)"
    "keeps (seen R (mirrored sem foreign)) (set_enabled env enabled confirmation)"
proof -
  let ?inv = "seen R (mirrored sem foreign)"
  show "keeps ?inv (prepare_panel_port env port)"
    unfolding prepare_panel_port_def detect_iptables_only [OF H] bnd_ret by (intro keeps_rules mirror_ensure [OF H])
  have "toggle_backend env BackendIPTables b = throw ErrUnsupported" for b by (simp add: toggle_backend_def)
  then show "keeps ?inv (set_enabled env enabled confirmation)"
    unfolding set_enabled_def detect_iptables_only [OF H] bnd_ret by (auto intro!: keeps_rules)
  let ?rest = "\<lambda>rule. if \<not> ir_protected rule then throw ErrProtected
      else bnd (uninstall_rule env rule) (\<lambda>ops. on_error (delete_row (ir_id rule)) (ignored (run_operations env (ir_backend rule) ops)))"
  have "keeps ?inv (bnd (find_rule rule_id) ?rest)"
  proof (rule keeps_found)
    fix rows n M old assume inv: "mirrored sem foreign rows n M" and found: "find (\<lambda>r. ir_id r = rule_id) rows = Some old"
    note old = found_row [OF inv found]
    have "?rest old = remove_rule env old" if "ir_protected old"
      using old that unfolding belongs_def remove_rule_def if_so_def by simp
    with triple_remove [OF H inv, of old] found old(2)
    show "triple (on_host R rows n (\<lambda>M'. M' = M)) (?rest old) (\<lambda>_. ?inv) ?inv"
      using inv by (cases "ir_protected old") (auto simp: seen_def intro!: triple_throw)
  qed (intro keeps_rules)
  then show "keeps ?inv (rollback_prepared_panel_port env rule_id)"
    unfolding rollback_prepared_panel_port_def by (intro keeps_if keeps_ret)
qed

lemma mirror_status:
  assumes H: "iptables_host env R sem"
  shows "keeps (seen R (mirrored sem foreign)) (cleanup_uninstalled_backend env backend)"
    "keeps (seen R (mirrored sem foreign)) (firewall_status_of env)"
proof -
  let ?inv = "seen R (mirrored sem foreign)"
  let ?drop = "modify DatabaseFailed (\<lambda>db. db\<lparr>fw_rules := filter (\<lambda>r. \<not> (ir_protected r \<and> ir_backend r = BackendFirewalld)) (fw_rules db)\<rparr>)"
  have drop: "keeps ?inv ?drop"
  proof (rule keeps_modify)
    fix db assume seen: "?inv db"
    have "filter (\<lambda>r. \<not> (ir_protected r \<and> ir_backend r = BackendFirewalld)) (fw_rules db) = fw_rules db" if "\<not> fw_missed db"
      using seen that by (intro filter_True) (auto simp: seen_def mirrored_def list_all_iff)
    then show "?inv (db\<lparr>fw_rules := filter (\<lambda>r. \<not> (ir_protected r \<and> ir_backend r = BackendFirewalld)) (fw_rules db)\<rparr>)"
      using seen by (cases "fw_missed db") (simp_all add: seen_def)
  qed
  have cleanup: "keeps ?inv (cleanup_uninstalled_backend env backend)" for backend
  proof (cases "backend = BackendFirewalld")
    case True
    have "keeps ?inv (bnd (look_path env ''firewall-cmd'') (\<lambda>found. if found then ret () else ?drop))"
      unfolding host_answers [OF H] bnd_ret by (intro keeps_if keeps_ret drop)
    then show ?thesis using True by (auto simp: keeps_def cleanup_uninstalled_backend_def)
  qed (simp add: keeps_def cleanup_uninstalled_backend_def)
  have stored: "keeps ?inv (stored_status env iptables_state)"
  proof -
    let ?port = "fe_panel_port env"
    have row: "keeps ?inv (case row of None \<Rightarrow> ret False | Some r \<Rightarrow> if bs_enabled iptables_state then rule_exists env r iptables_state else ret False)"
      if "pred_option (\<lambda>r. ir_backend r = BackendIPTables) row" for row
      using that by (cases row) (auto intro!: keeps_rules mirror_rule_exists [OF H])
    have found: "pred_option (\<lambda>r. ir_backend r = BackendIPTables) row"
      if "query DatabaseFailed (\<lambda>db. first_by ir_id (filter (\<lambda>r. protects ?port r \<and> ir_backend r = bs_name iptables_state) (fw_rules db))) s = (Inr row, s')"
      for s row s'
    proof (cases row)
      case (Some r)
      then have "first_by ir_id (filter (\<lambda>r. protects ?port r \<and> ir_backend r = BackendIPTables) (fw_rules (tables s))) = Some r"
        using query_Inr [OF that] by simp
      from first_by_Some(1) [OF this] Some show ?thesis by simp
    qed simp
    have "keeps ?inv (bnd (ignored (cleanup_uninstalled_backend env BackendFirewalld)) (\<lambda>_.
           bnd (query DatabaseFailed (\<lambda>db. length (fw_rules db))) (\<lambda>managed_count.
           bnd (query DatabaseFailed (\<lambda>db. first_by (\<lambda>r. - ir_id r) (filter (protects ?port) (fw_rules db)))) (\<lambda>managed.
           bnd (query DatabaseFailed (\<lambda>db. first_by ir_id (filter (\<lambda>r. protects ?port r \<and> ir_backend r = bs_name iptables_state) (fw_rules db)))) (\<lambda>row.
           bnd (case row of None \<Rightarrow> ret False | Some r \<Rightarrow> if bs_enabled iptables_state then rule_exists env r iptables_state else ret False) (\<lambda>protected_now.
           ret (managed_count, map_option ir_backend managed, protected_now)))))))"
      by (intro keeps_bnd [OF keeps_ignored_seen [OF cleanup]] keeps_bnd [OF keeps_query]
          keeps_bnd_returns [OF keeps_query found] keeps_bnd [OF row] keeps_ret)
    then show ?thesis by (auto simp: keeps_def stored_status_def)
  qed
  have "keeps ?inv (run_program env ''iptables'' (''-C'' # spec))" for spec
    by (rule keeps_quiet_command(1)) (rule host_quiet(6) [OF H])
  then have "keeps ?inv (ping_blocked env iptables_state)" unfolding ping_blocked_def by (auto intro!: keeps_rules)
  then show "keeps ?inv (firewall_status_of env)"
    unfolding firewall_status_of_def detect_iptables_only [OF H] bnd_ret Let_def by (intro keeps_rules stored)
  show "keeps ?inv (cleanup_uninstalled_backend env backend)" by (rule cleanup)
qed

lemma firewall_step_mirrored:
  assumes H: "iptables_host env R sem" and "\<And>b. x \<noteq> SetPingBlocked b"
  shows "keeps (seen R (mirrored sem foreign)) (firewall_step env x)"
  using assms(2)
  by (cases x; simp only: firewall_step.simps firewall_op.distinct)
    (intro keeps_bnd keeps_ret mirror_add [OF H] mirror_update [OF H] mirror_delete [OF H] mirror_set_state [OF H]
      mirror_several [OF H] mirror_website [OF H] mirror_auto_block [OF H] mirror_maintenance [OF H] mirror_policy mirror_forwards [OF H]
      mirror_panel_port [OF H] mirror_status [OF H])+

section \<open>The rule against echo requests\<close>

text \<open>
  Blocking ping adds a rule of the kernel that has no row, and unblocking deletes one: the rules the
  panel does not manage are the same up to copies of that rule.
\<close>

definition apart_from_ping :: "(string list \<Rightarrow> 'r) \<Rightarrow> bool" where
  "apart_from_ping sem \<longleftrightarrow> (\<forall>r ip port. sem (iptables_spec r ip port) \<noteq> sem ping_rule)"

definition mirrored_but_ping :: "(string list \<Rightarrow> 'r) \<Rightarrow> 'r multiset \<Rightarrow> iptables_rule list \<Rightarrow> int \<Rightarrow> 'r multiset \<Rightarrow> bool" where
  "mirrored_but_ping sem foreign rows n M \<longleftrightarrow>
     (\<exists>others. mirrored sem others rows n M
        \<and> filter_mset (\<lambda>x. x \<noteq> sem ping_rule) others = filter_mset (\<lambda>x. x \<noteq> sem ping_rule) foreign)"

lemma active_apart: "apart_from_ping sem \<Longrightarrow> sem ping_rule \<notin># image_mset sem (mset (active_specs rows))"
  by (auto simp: apart_from_ping_def active_specs_def rule_specs_def iptables_rule_operations_def for_each_pair_def image_iff
      split: prod.splits) metis

lemma ping_added: "mirrored_but_ping sem foreign rows n M \<Longrightarrow> mirrored_but_ping sem foreign rows n (add_mset (sem ping_rule) M)"
  unfolding mirrored_but_ping_def mirrored_def by (elim exE conjE) (rule_tac x = "add_mset (sem ping_rule) others" in exI, simp)

lemma ping_removed:
  assumes "apart_from_ping sem" "mirrored_but_ping sem foreign rows n (add_mset (sem ping_rule) M)"
  shows "mirrored_but_ping sem foreign rows n M"
proof -
  obtain others where others: "mirrored sem others rows n (add_mset (sem ping_rule) M)"
    "filter_mset (\<lambda>x. x \<noteq> sem ping_rule) others = filter_mset (\<lambda>x. x \<noteq> sem ping_rule) foreign"
    using assms(2) by (auto simp: mirrored_but_ping_def)
  then have "sem ping_rule \<in># others + image_mset sem (mset (active_specs rows))" by (metis mirrored_def union_single_eq_member add_mset_add_single union_commute)
  then obtain rest where rest: "others = add_mset (sem ping_rule) rest"
    using active_apart [OF assms(1)] by (metis mset_add union_iff)
  then have "mirrored sem rest rows n M" using others(1) by (simp add: mirrored_def)
  moreover have "filter_mset (\<lambda>x. x \<noteq> sem ping_rule) rest = filter_mset (\<lambda>x. x \<noteq> sem ping_rule) foreign"
    using others(2) rest by simp
  ultimately show ?thesis by (auto simp: mirrored_but_ping_def)
qed

lemma mirror_ping:
  assumes H: "iptables_host env R sem" and apart: "apart_from_ping sem"
  shows "keeps (seen R (mirrored_but_ping sem foreign)) (set_ping_blocked env blocked)"
proof -
  let ?inv = "seen R (mirrored_but_ping sem foreign)"
  let ?c = "if blocked then ping_operation else reverse_operation ping_operation"
  have c: "list_all paired [?c]" by (auto simp: paired_def ping_operation_def reverse_operation_def)
  have "keeps ?inv (run_operations env ''iptables'' [?c])"
    unfolding triple_keeps [symmetric]
  proof (rule triple_snapshot)
    fix rows n M assume inv: "mirrored_but_ping sem foreign rows n M"
    have after: "mirrored_but_ping sem foreign rows n M'" if "shifts sem [?c] M M'" for M'
      using that ping_added [OF inv] ping_removed [OF apart] inv
      by (cases blocked) (auto simp: shift_def ping_operation_def reverse_operation_def)
    show "triple (on_host R rows n (\<lambda>M'. M' = M)) (run_operations env ''iptables'' [?c]) (\<lambda>_. ?inv) ?inv"
      by (rule triple_weaken [OF triple_run_operations [OF H c]]) (use inv after in \<open>auto simp: seen_def simp del: shifts.simps\<close>)
  qed (intro keeps_rules)
  moreover have "keeps ?inv (run_program env ''iptables'' (''-C'' # spec))" for spec
    by (rule keeps_quiet_command(1)) (rule host_quiet(6) [OF H])
  then have "keeps ?inv (ping_blocked env iptables_state)" unfolding ping_blocked_def by (auto intro!: keeps_rules)
  moreover have "set_ping_blocked env blocked = outcome (ping_blocked env iptables_state) (\<lambda>current.
      if current = Inr blocked then ret () else run_operations env ''iptables'' [?c])"
    unfolding set_ping_blocked_def detect_iptables_only [OF H] bnd_ret by (simp cong: if_cong)
  ultimately show ?thesis by (auto intro!: keeps_rules)
qed

lemma firewall_step_mirrored_ping:
  assumes H: "iptables_host env R sem" and apart: "apart_from_ping sem"
  shows "keeps (seen R (mirrored_but_ping sem foreign)) (firewall_step env x)"
proof (cases "\<exists>b. x = SetPingBlocked b")
  case True
  then show ?thesis using mirror_ping [OF assms] by auto
next
  case False
  then have each: "keeps (seen R (mirrored sem others)) (firewall_step env x)" for others by (intro firewall_step_mirrored [OF H]) blast
  show ?thesis
  unfolding keeps_def
  proof (intro allI impI)
    fix s :: "'a firewall engine" assume "seen R (mirrored_but_ping sem foreign) (tables s)"
    then obtain others where others: "seen R (mirrored sem others) (tables s)"
      "filter_mset (\<lambda>x. x \<noteq> sem ping_rule) others = filter_mset (\<lambda>x. x \<noteq> sem ping_rule) foreign"
      by (cases "fw_missed (tables s)") (auto simp: seen_def mirrored_but_ping_def)
    have "seen R (mirrored sem others) (tables (snd (firewall_step env x s)))" using each others(1) unfolding keeps_def by blast
    with others(2) show "seen R (mirrored_but_ping sem foreign) (tables (snd (firewall_step env x s)))"
      by (auto simp: seen_def mirrored_but_ping_def)
  qed
qed

end
