(* ===== verification/Firewall_Props.thy ===== *)
theory Firewall_Props
  imports Firewall_Protected Firewall_Refine
begin

text \<open>
  What the firewall service guarantees after any history of its operations.
\<close>

section \<open>A host\<close>

text \<open>The kernel's rules in order; appending succeeds, deleting a rule that is not there fails.\<close>

definition demo_run :: "string list list \<Rightarrow> string \<Rightarrow> string list \<Rightarrow> (bool \<times> string) \<times> string list list" where
  "demo_run h name args =
     (if name = ''iptables'' then
        (case args of
           action # spec \<Rightarrow>
             if action = ''-A'' then ((True, []), h @ [spec])
             else if action = ''-D'' then (if spec \<in> set h then ((True, []), remove1 spec h) else ((False, []), h))
             else ((spec \<in> set h, []), h)
         | [] \<Rightarrow> ((False, []), h))
      else ((name = ''netfilter-persistent'', []), h))"

definition demo_firewall_env :: "string list list firewall_env" where
  "demo_firewall_env =
     \<lparr>fe_rules = demo_rule_env, fe_panel_port = service_port 8089, fe_look = (\<lambda>h name. name \<in> {''iptables'', ''netfilter-persistent''}),
      fe_run = demo_run, fe_now = (\<lambda>h. (0, h)), fe_uuid = (\<lambda>h. (''token'', h)), fe_ufw_read = (\<lambda>h. None), fe_ufw_stat = (\<lambda>h. False),
      fe_ufw_write = (\<lambda>h t. (False, h)), fe_failed_logins = (\<lambda>out. []), fe_range = (\<lambda>xs. xs)\<rparr>"

definition demo_firewall :: "string list list firewall" where
  "demo_firewall = \<lparr>fw_rules = [], fw_last = 0, fw_forwards = [], fw_last_forward = 0, fw_auto = None, fw_migration = None,
     fw_host = [[''INPUT'', ''-i'', ''lo'', ''-j'', ''ACCEPT'']], fw_missed = False\<rparr>"

lemma demo_host: "iptables_host demo_firewall_env mset (\<lambda>spec. spec)"
  unfolding iptables_host_def demo_firewall_env_def firewall_env.simps demo_run_def
  by (auto split: if_splits)

text \<open>The panel prepares its own port on it: one row, one rule of the kernel, nothing missed.\<close>

lemma demo_protection: "\<exists>spec. iptables_rule_operations (protection_rule backend token 8089) =
    [\<lparr>co_name = ''iptables'', co_args = ''-A'' # spec, co_undo_name = ''iptables'', co_undo_args = ''-D'' # spec\<rparr>]"
proof -
  have "expanded_values (protection_rule backend token 8089) = ([all_ipv4], [format_int 8089])"
    using single_values [of 8089] by (simp add: expanded_values_def protection_rule_def Let_def)
  then show ?thesis by (simp add: iptables_rule_operations_def for_each_pair_def)
qed

abbreviation demo_final :: "string list list firewall" where
  "demo_final \<equiv> tables (run_ops (firewall_step demo_firewall_env) [PreparePanelPort 8089] (healthy demo_firewall))"

lemma host_call_healthy: "host_call f (healthy db) = (case f (fw_host db) of (a, h) \<Rightarrow> (Inr a, healthy (db\<lparr>fw_host := h\<rparr>)))"
  by (simp add: host_call_def split: prod.split)

lemma demo_append:
  "run_operations demo_firewall_env ''iptables''
     [\<lparr>co_name = ''iptables'', co_args = ''-A'' # spec, co_undo_name = ''iptables'', co_undo_args = ''-D'' # spec\<rparr>] (healthy db)
   = (Inr (), healthy (db\<lparr>fw_host := fw_host db @ [spec]\<rparr>))"
proof -
  have run: "command demo_firewall_env name args (healthy db) = (case demo_run (fw_host db) name args of
      ((ok, out), h) \<Rightarrow> (if ok then Inr () else Inl CommandFailed, healthy (db\<lparr>fw_host := h\<rparr>)))" for name args db
    by (simp add: command_def run_program_def bnd_run host_call_healthy demo_firewall_env_def split: prod.split)
  show ?thesis
    unfolding run_operations_def run_each.simps bnd_run on_error_def persist_def
    by (simp add: run demo_run_def)
qed

lemma demo_prepared: "\<not> fw_missed demo_final \<and> map ir_protected (fw_rules demo_final) = [True]"
proof -
  let ?rule = "protection_rule ''iptables'' ''token'' 8089"
  obtain spec where ops: "iptables_rule_operations ?rule =
      [\<lparr>co_name = ''iptables'', co_args = ''-A'' # spec, co_undo_name = ''iptables'', co_undo_args = ''-D'' # spec\<rparr>]"
    using demo_protection by blast
  have rops: "protection_operations demo_firewall_env iptables_state ?rule = ret (iptables_rule_operations ?rule)"
    using rule_operations_iptables [OF demo_host, of ?rule] by (simp add: protection_operations_def protection_rule_def)
  have none: "first_by ir_id (filter p (fw_rules demo_firewall)) = None" for p by (simp add: demo_firewall_def)
  have token: "host_call (fe_uuid demo_firewall_env) (healthy demo_firewall) = (Inr ''token'', healthy demo_firewall)"
    by (simp add: host_call_healthy demo_firewall_env_def)
  have store: "offline_persist_backend iptables_state = ''iptables''" by (simp add: offline_persist_backend_def)
  have create: "create_row ?rule (healthy db) = (Inr (?rule\<lparr>ir_id := fw_last db + 1, ir_rule_type := ''port''\<rparr>),
      healthy (db\<lparr>fw_rules := fw_rules db @ [?rule\<lparr>ir_id := fw_last db + 1, ir_rule_type := ''port''\<rparr>], fw_last := fw_last db + 1\<rparr>))"
    for db :: "string list list firewall"
    by (simp add: create_row_def Let_def default_string_def protection_rule_def)
  have "ensure_protected_port demo_firewall_env iptables_state 8089 (healthy demo_firewall)
      = (Inr (Some (?rule\<lparr>ir_id := 1, ir_rule_type := ''port''\<rparr>, iptables_rule_operations ?rule)),
         healthy (demo_firewall\<lparr>fw_rules := [?rule\<lparr>ir_id := 1, ir_rule_type := ''port''\<rparr>], fw_last := 1,
           fw_host := fw_host demo_firewall @ [spec]\<rparr>))"
    unfolding ensure_protected_port_def Let_def
    by (simp add: bnd_run none token rops store create on_error_def demo_append ops, simp add: demo_firewall_def)
  then show ?thesis
    unfolding run_ops.simps firewall_step.simps prepare_panel_port_def detect_iptables_only [OF demo_host] bnd_ret
    by (simp add: bnd_run protection_rule_def, simp add: demo_firewall_def)
qed

section \<open>Properties\<close>

lemma history_sound:
  assumes "\<And>xs. mset (re_sort_ports (fe_rules env) xs) = mset xs" "fe_panel_port env = service_port p"
    and "on_table (sound (fe_panel_port env)) (tables s)"
  shows "on_table (sound (fe_panel_port env)) (tables (run_ops (firewall_step env) ops s))"
  by (rule run_ops_keeps [OF firewall_step_sound [OF assms(1)] assms(3)])
    (use assms(2) service_port_range [of p] in simp_all)

lemma demo_sound: "on_table (sound (fe_panel_port demo_firewall_env)) (tables (healthy demo_firewall))"
  "mset (re_sort_ports (fe_rules demo_firewall_env) xs) = mset xs" "fe_panel_port demo_firewall_env = service_port 8089"
  using demo_sort by (simp_all add: on_table_def sound_def keyed_def demo_firewall_def demo_firewall_env_def)

text \<open>
  C17: after any history of operations, whatever the host answers and whichever calls of the
  database fail, the firewall's tables are well typed.  The keys of the rules are distinct; each
  rule has one of the rule types, directions, protocols and strategies, a state of 0 or 1, at least
  one address, ports and port ranges between 1 and 65535 in increasing order, and ports with TCP
  and UDP only; each port forward has a protocol with ports, ports in range and an IPv4 address in
  normal form; the policy of automatic blocking is within its bounds.
\<close>

theorem firewall_tables_typed:
  assumes "\<And>xs. mset (re_sort_ports (fe_rules env) xs) = mset xs" and "fe_panel_port env = service_port p"
    and "on_table (sound (fe_panel_port env)) (tables s)"
  shows "keyed (fw_rules (tables (run_ops (firewall_step env) ops s))) (fw_last (tables (run_ops (firewall_step env) ops s)))
    \<and> list_all typed_row (fw_rules (tables (run_ops (firewall_step env) ops s)))
    \<and> list_all typed_forward (fw_forwards (tables (run_ops (firewall_step env) ops s)))
    \<and> pred_option typed_policy (fw_auto (tables (run_ops (firewall_step env) ops s)))"
  using history_sound [OF assms, of ops] by (auto simp: on_table_def sound_def list_all_iff)

theorem firewall_tables_typed_witness:
  "fw_rules demo_final \<noteq> [] \<and> list_all typed_row (fw_rules demo_final)"
  using firewall_tables_typed [OF demo_sound(2,3,1), of "[PreparePanelPort 8089]"] demo_prepared by auto

text \<open>
  C15: no history of operations stores one rule that closes the port the running panel listens on:
  none that denies incoming TCP or UDP on all ports, on that port or on a range around it, from
  whatever addresses, none that denies every protocol from 0.0.0.0/0, and no forward of that port.
  This holds for rules that were added, edited, switched on, imported, restored or made for a
  website or by automatic blocking, from tables in which it holds.  It is about single rules (two
  rules, or one with two networks, can cover all addresses: see C39), and about the port the
  service was started with: a new port of the settings is guarded after the restart.
\<close>

theorem panel_port_never_closed:
  assumes "\<And>xs. mset (re_sort_ports (fe_rules env) xs) = mset xs" and "fe_panel_port env = service_port p"
    and "on_table (sound (fe_panel_port env)) (tables s)"
  shows "list_all (\<lambda>r. \<not> closes_port (fe_panel_port env) r) (fw_rules (tables (run_ops (firewall_step env) ops s)))
    \<and> list_all (\<lambda>f. pf_source_port f \<noteq> fe_panel_port env) (fw_forwards (tables (run_ops (firewall_step env) ops s)))"
  using history_sound [OF assms, of ops] by (auto simp: on_table_def sound_def list_all_iff)

theorem panel_port_never_closed_witness:
  "fw_rules demo_final \<noteq> [] \<and> list_all (\<lambda>r. \<not> closes_port 8089 r) (fw_rules demo_final)"
  using panel_port_never_closed [OF demo_sound(2,3,1), of "[PreparePanelPort 8089]"] demo_prepared
  by (auto simp: demo_sound(3) service_port_def)

text \<open>
  C16: the rules that protect the panel's port are beyond the reach of the operations on rules.
  Whatever rules, batches, imports, restores, websites, forwards and automatic blocks a history
  contains, and whatever fails in it, the protected rows are afterwards exactly what they were.
\<close>

theorem protection_untouched:
  assumes "keyed (fw_rules (tables s)) (fw_last (tables s))" and "list_all (\<lambda>x. \<not> protection_op x) ops"
  shows "filter ir_protected (fw_rules (tables (run_ops (firewall_step env) ops s))) = filter ir_protected (fw_rules (tables s))"
proof -
  let ?kept = "filter ir_protected (fw_rules (tables s))"
  have "on_table (guarded ?kept) (tables s)" using assms(1) by (simp add: on_table_def guarded_def)
  then have "on_table (guarded ?kept) (tables (run_ops (firewall_step env) ops s))"
    by (rule run_ops_keeps [rotated]) (use assms(2) in \<open>auto simp: list_all_iff intro: firewall_step_guarded\<close>)
  then show ?thesis by (simp add: on_table_def guarded_def)
qed

theorem protection_untouched_witness:
  "let s = run_ops (firewall_step demo_firewall_env) [PreparePanelPort 8089] (healthy demo_firewall)
   in map ir_protected (filter ir_protected (fw_rules (tables
        (run_ops (firewall_step demo_firewall_env) [DeleteRule 1, SetRuleState 1 False, ReplaceRules []] s)))) = [True]"
proof -
  let ?s = "run_ops (firewall_step demo_firewall_env) [PreparePanelPort 8089] (healthy demo_firewall)"
  have "keyed (fw_rules (tables ?s)) (fw_last (tables ?s))"
    using history_sound [OF demo_sound(2,3,1), of "[PreparePanelPort 8089]"] by (simp add: on_table_def sound_def)
  from protection_untouched [OF this, of "[DeleteRule 1, SetRuleState 1 False, ReplaceRules []]" demo_firewall_env]
  have "filter ir_protected (fw_rules (tables (run_ops (firewall_step demo_firewall_env) [DeleteRule 1, SetRuleState 1 False, ReplaceRules []] ?s)))
      = filter ir_protected (fw_rules (tables ?s))" by simp
  moreover have "map ir_protected (filter ir_protected (fw_rules (tables ?s))) = [True]"
    using demo_prepared by (auto simp: map_eq_Cons_conv)
  ultimately show ?thesis unfolding Let_def by (simp only:)
qed

text \<open>
  C14: on a host with iptables and netfilter-persistent the kernel implements the table.  Start
  where every row is recorded for iptables and the kernel's rules are those of the active rows and
  others that are not the panel's.  After any history of operations, with any failures of commands
  that change something and of the database, the kernel's rules are again those of the active rows
  and the others; blocking and unblocking ping changes only the number of copies of its own rule
  among the others, and without it the others are exactly the same.  So a rule that was added,
  edited, switched, imported, replaced or removed is in both places or in neither.  What is excepted:
  an undoing step whose failure the code ignores; and \<open>iptables -C\<close> must find a rule that is there,
  because \<open>ensureProtectedPort\<close> takes every failure of it for absence.  The order of the kernel's
  rules is not modelled.
\<close>

theorem kernel_mirrors_table:
  assumes "iptables_host env R sem" and "apart_from_ping sem"
    and "mirrored sem foreign (fw_rules (tables s)) (fw_last (tables s)) (R (fw_host (tables s)))"
    and "\<not> fw_missed (tables (run_ops (firewall_step env) ops s))"
  shows "\<exists>others. R (fw_host (tables (run_ops (firewall_step env) ops s)))
      = others + image_mset sem (mset (active_specs (fw_rules (tables (run_ops (firewall_step env) ops s)))))
    \<and> filter_mset (\<lambda>x. x \<noteq> sem ping_rule) others = filter_mset (\<lambda>x. x \<noteq> sem ping_rule) foreign
    \<and> (list_all (\<lambda>x. \<forall>b. x \<noteq> SetPingBlocked b) ops \<longrightarrow> others = foreign)"
proof (cases "list_all (\<lambda>x. \<forall>b. x \<noteq> SetPingBlocked b) ops")
  case True
  have "seen R (mirrored sem foreign) (tables s)" using assms(3) by (simp add: seen_def)
  then have "seen R (mirrored sem foreign) (tables (run_ops (firewall_step env) ops s))"
    by (rule run_ops_keeps [rotated]) (use True in \<open>auto simp: list_all_iff intro: firewall_step_mirrored [OF assms(1)]\<close>)
  then show ?thesis using assms(4) by (auto simp: seen_def mirrored_def)
next
  case False
  have "seen R (mirrored_but_ping sem foreign) (tables s)" using assms(3) by (auto simp: seen_def mirrored_but_ping_def)
  then have "seen R (mirrored_but_ping sem foreign) (tables (run_ops (firewall_step env) ops s))"
    by (rule run_ops_keeps [rotated]) (rule firewall_step_mirrored_ping [OF assms(1,2)])
  then show ?thesis using assms(4) False by (auto simp: seen_def mirrored_but_ping_def mirrored_def)
qed

lemma demo_apart: "apart_from_ping (\<lambda>spec. spec)"
  by (auto simp: apart_from_ping_def iptables_spec_def ping_rule_def)

theorem kernel_mirrors_table_witness:
  "fw_rules demo_final \<noteq> [] \<and> mset (fw_host demo_final)
     = {#[''INPUT'', ''-i'', ''lo'', ''-j'', ''ACCEPT'']#} + mset (active_specs (fw_rules demo_final))"
proof -
  have start: "mirrored (\<lambda>spec. spec) {#[''INPUT'', ''-i'', ''lo'', ''-j'', ''ACCEPT'']#} (fw_rules (tables (healthy demo_firewall)))
      (fw_last (tables (healthy demo_firewall))) (mset (fw_host (tables (healthy demo_firewall))))"
    by (simp add: mirrored_def keyed_def demo_firewall_def active_specs_def)
  from kernel_mirrors_table [OF demo_host demo_apart start, of "[PreparePanelPort 8089]"] show ?thesis
    using demo_prepared by auto
qed

section \<open>A check that fails\<close>

text \<open>The same host when another program holds the lock of iptables during every check.\<close>

definition busy_run :: "string list list \<Rightarrow> string \<Rightarrow> string list \<Rightarrow> (bool \<times> string) \<times> string list list" where
  "busy_run h name args = (if name = ''iptables'' \<and> take 1 args = [''-C''] then ((False, []), h) else demo_run h name args)"

definition busy_env :: "string list list firewall_env" where
  "busy_env = demo_firewall_env\<lparr>fe_run := busy_run\<rparr>"

lemma busy_answers:
  "look_path busy_env ''ufw'' = ret False" "look_path busy_env ''firewall-cmd'' = ret False" "look_path busy_env ''iptables'' = ret True"
  "look_path busy_env ''netfilter-persistent'' = ret True"
  by (auto intro!: look_path_ret simp: busy_env_def demo_firewall_env_def)

lemma busy_backend: "detect_backend busy_env = ret iptables_state"
  unfolding detect_backend_def detect_ufw_def detect_firewalld_def detect_iptables_def busy_answers bnd_ret choose_backend_def
  by (rule ext) simp

lemma busy_program: "run_program busy_env name args (healthy db) = (case busy_run (fw_host db) name args of (a, h) \<Rightarrow> (Inr a, healthy (db\<lparr>fw_host := h\<rparr>)))"
  by (simp add: run_program_def host_call_healthy busy_env_def)

lemma busy_append:
  "run_operations busy_env ''iptables''
     [\<lparr>co_name = ''iptables'', co_args = ''-A'' # spec, co_undo_name = ''iptables'', co_undo_args = ''-D'' # spec\<rparr>] (healthy db)
   = (Inr (), healthy (db\<lparr>fw_host := fw_host db @ [spec]\<rparr>))"
  unfolding run_operations_def run_each.simps bnd_run on_error_def persist_def command_def
  by (simp add: bnd_run busy_program busy_run_def demo_run_def)

lemma busy_ensure:
  assumes "iptables_rule_operations (protection_rule ''iptables'' ''token'' 8089) =
      [\<lparr>co_name = ''iptables'', co_args = ''-A'' # spec, co_undo_name = ''iptables'', co_undo_args = ''-D'' # spec\<rparr>]"
    and rows: "fw_rules db = [] \<or> (\<exists>i. fw_rules db = [(protection_rule ''iptables'' ''token'' 8089)\<lparr>ir_id := i, ir_rule_type := ''port''\<rparr>])"
  shows "\<exists>r. ensure_protected_port busy_env iptables_state 8089 (healthy db) = (Inr r, healthy (db\<lparr>
      fw_rules := [(protection_rule ''iptables'' ''token'' 8089)\<lparr>ir_id := fw_last db + 1, ir_rule_type := ''port''\<rparr>],
      fw_last := fw_last db + 1, fw_host := fw_host db @ [spec]\<rparr>))"
proof -
  let ?rule = "protection_rule ''iptables'' ''token'' 8089"
  have token: "host_call (fe_uuid busy_env) (healthy db) = (Inr ''token'', healthy db)" for db :: "string list list firewall"
    by (simp add: host_call_healthy busy_env_def demo_firewall_env_def)
  have rops: "protection_operations busy_env iptables_state ?rule = ret (iptables_rule_operations ?rule)"
    by (rule ext) (simp add: protection_operations_def rule_operations_def protection_rule_def busy_answers)
  have store: "offline_persist_backend iptables_state = ''iptables''" by (simp add: offline_persist_backend_def)
  have create: "create_row ?rule (healthy db) = (Inr (?rule\<lparr>ir_id := fw_last db + 1, ir_rule_type := ''port''\<rparr>),
      healthy (db\<lparr>fw_rules := fw_rules db @ [?rule\<lparr>ir_id := fw_last db + 1, ir_rule_type := ''port''\<rparr>], fw_last := fw_last db + 1\<rparr>))"
    for db :: "string list list firewall"
    by (simp add: create_row_def Let_def default_string_def protection_rule_def)
  have lost: "rule_exists busy_env (?rule\<lparr>ir_id := i, ir_rule_type := ''port''\<rparr>) iptables_state (healthy db) = (Inr False, healthy db)" for i db
    by (simp add: rule_exists_def protection_rule_def bnd_run busy_program busy_run_def split: list.split)
  have prot: "protects 8089 (?rule\<lparr>ir_id := i, ir_rule_type := ''port''\<rparr>)" for i by (simp add: protects_def protection_rule_def)
  show ?thesis
    using rows
  proof
    assume none: "fw_rules db = []"
    then have "first_by ir_id (filter p (fw_rules db)) = None" for p by simp
    then show ?thesis
      unfolding ensure_protected_port_def Let_def
      by (simp add: bnd_run token rops store create on_error_def assms(1) busy_append) (simp add: none)
  next
    assume "\<exists>i. fw_rules db = [?rule\<lparr>ir_id := i, ir_rule_type := ''port''\<rparr>]"
    then obtain i where one: "fw_rules db = [?rule\<lparr>ir_id := i, ir_rule_type := ''port''\<rparr>]" by blast
    have "first_by ir_id (filter (\<lambda>r. protects 8089 r \<and> ir_backend r = ''iptables'') (fw_rules db))
        = Some (?rule\<lparr>ir_id := i, ir_rule_type := ''port''\<rparr>)"
      using prot [of i] unfolding one by (simp add: protection_rule_def first_by_def)
    then show ?thesis
      unfolding ensure_protected_port_def Let_def
      by (simp add: bnd_run lost delete_row_def token rops store create on_error_def assms(1) busy_append) (simp add: one)
  qed
qed

text \<open>
  C25: a check that fails orphans a rule.  When \<open>iptables -C\<close> fails although the rule is there, as
  it does while another program holds the lock, \<open>ensureProtectedPort\<close> takes the rule for missing,
  deletes its row and installs it a second time: after the port was prepared twice the kernel has two
  rules for the one row of the table, although no undoing step has failed.
\<close>

theorem failing_check_orphans_rule:
  "\<exists>row spec. let db = tables (run_ops (firewall_step busy_env) [PreparePanelPort 8089, PreparePanelPort 8089] (healthy demo_firewall))
     in fw_rules db = [row] \<and> ir_protected row \<and> active_specs (fw_rules db) = [spec] \<and> \<not> fw_missed db
        \<and> mset (fw_host db) = mset (fw_host demo_firewall) + {#spec, spec#}"
proof -
  let ?rule = "protection_rule ''iptables'' ''token'' 8089"
  let ?row = "\<lambda>i. ?rule\<lparr>ir_id := i, ir_rule_type := ''port''\<rparr>"
  obtain spec where ops: "iptables_rule_operations ?rule =
      [\<lparr>co_name = ''iptables'', co_args = ''-A'' # spec, co_undo_name = ''iptables'', co_undo_args = ''-D'' # spec\<rparr>]"
    using demo_protection by blast
  have step: "snd (firewall_step busy_env (PreparePanelPort 8089) (healthy db)) = healthy (db\<lparr>fw_rules := [?row (fw_last db + 1)],
      fw_last := fw_last db + 1, fw_host := fw_host db @ [spec]\<rparr>)"
    if "fw_rules db = [] \<or> (\<exists>i. fw_rules db = [?row i])" for db
    using busy_ensure [OF ops that] unfolding firewall_step.simps prepare_panel_port_def busy_backend bnd_ret
    by (auto simp: bnd_run)
  let ?db1 = "demo_firewall\<lparr>fw_rules := [?row 1], fw_last := 1, fw_host := fw_host demo_firewall @ [spec]\<rparr>"
  have one: "snd (firewall_step busy_env (PreparePanelPort 8089) (healthy demo_firewall)) = healthy ?db1"
    by (subst step) (simp_all add: demo_firewall_def)
  have two: "snd (firewall_step busy_env (PreparePanelPort 8089) (healthy ?db1)) = healthy (?db1\<lparr>fw_rules := [?row 2], fw_last := 2,
      fw_host := fw_host demo_firewall @ [spec, spec]\<rparr>)"
    by (subst step) (auto intro: exI [of _ 1])
  have final: "run_ops (firewall_step busy_env) [PreparePanelPort 8089, PreparePanelPort 8089] (healthy demo_firewall)
      = healthy (?db1\<lparr>fw_rules := [?row 2], fw_last := 2, fw_host := fw_host demo_firewall @ [spec, spec]\<rparr>)"
    unfolding run_ops.simps one two ..
  have "iptables_rule_operations (?row 2) = iptables_rule_operations ?rule"
    by (simp add: iptables_rule_operations_def for_each_pair_def expanded_values_def iptables_spec_def)
  then have "active_specs [?row 2] = [spec]" by (simp add: active_specs_def rule_specs_def ops) (simp add: protection_rule_def)
  then show ?thesis
    unfolding final Let_def by (intro exI [of _ "?row 2"] exI [of _ spec]) (simp add: demo_firewall_def protection_rule_def)
qed

end
