(* ===== verification/Spec2Isabelle.thy ===== *)
theory Spec2Isabelle
  imports Access_Props Approval_Props Operation_Preview Mfa_Props Audit_Log Request_Props Password_Guard
    Update_Commit Firewall_Props
begin

text \<open>
  A verification development for the Oneinstack panel, a Go server that administers a host.

  \<^bold>\<open>The program.\<close>  A request passes authentication (\<open>router/middleware/auth.go\<close>), the permission gates
  and the audit middleware (\<open>router/middleware/permission.go\<close>) before a handler calls a service
  under \<open>internal/services\<close>.  The services keep their state in SQL tables: users, roles and
  permissions (\<open>access\<close>), approval requests (\<open>approval\<close>), operation previews
  (\<open>operationpreview\<close>), login sessions and second factors (\<open>security\<close>), and the audit trail
  (\<open>audit\<close>); terminals are opened with tickets held in memory (\<open>ssh\<close>, \<open>container\<close>).  The panel
  updates itself from signed releases (\<open>panelupdate\<close>) and manages the host's firewall (\<open>safe\<close>).  The
  development models this core.

  \<^bold>\<open>Conventions.\<close>  A Go string is a list of bytes, a \<open>time.Time\<close> a number of nanoseconds since Go's
  zero time (a \<open>stamp\<close> where the zone is written out), unsigned counters that may wrap are words.
  Errors are values: an operation returns \<open>Inl\<close> an error or \<open>Inr\<close> a result, with one constructor for
  each error the source returns.  Operations on tables are actions of theory \<open>Engine\<close>: they thread the
  tables and a list \<open>fate\<close> of coming failures of the database (or of the file system, in \<open>Panel_Update\<close>),
  so a theorem without a hypothesis on \<open>fate\<close> holds whichever call fails; \<open>healthy\<close> is an engine whose
  calls succeed.  Clocks, random bytes and request data are arguments.  The only loops whose number of
  rounds is not the length of their input are the retries of \<open>append_event\<close>, which count down from
  three, and the string functions of \<open>Prelude\<close>, \<open>Codec\<close> and \<open>Json\<close>, whose termination is proved by
  the length of the rest; no definition uses fuel.

  \<^bold>\<open>Parameters.\<close>  Code outside the repository is an argument of the definitions: HMAC-SHA256, SHA-256,
  AES-GCM, bcrypt, Ed25519, the JWT library, semantic versions, Unicode case tables, URL and address
  parsing, JSON decoding, SQL's LIKE.  What a theorem needs of it is a hypothesis of the theorem (that
  opening inverts sealing, that a MAC has 32 bytes, that two texts do not collide), and every such
  theorem has a witness with a concrete function in its place.

  \<^bold>\<open>The theories.\<close>
  \<^item> \<open>Prelude\<close>, \<open>Format\<close>, \<open>Timestamp\<close>, \<open>Json\<close>, \<open>Codec\<close>, \<open>Paths\<close>: the parts of the Go library the panel
    relies on (\<open>strings.TrimSpace\<close> and case mapping, UTF-8, numbers and times as text, the strings of
    \<open>encoding/json\<close>, base32 and base64, \<open>path/filepath\<close>), with the facts the components use: decoding
    inverts encoding, encoded texts are prefix free, cleaned paths are in normal form.
  \<^item> \<open>Engine\<close>: actions, transactions, invariants and histories; the locales \<open>invariant_ops\<close> and
    \<open>ratchet\<close> say what every operation of a component keeps and which order it respects.
    \<open>Once\<close> has the locale of single-use tokens redeemed by a conditional update.
  \<^item> \<open>Access_Data\<close>, \<open>Access\<close>, \<open>Access_Facts\<close>, \<open>Access_Users\<close>, \<open>Access_Props\<close>
    (\<open>internal/services/access\<close>): roles, permissions, seeding, role assignment, the access of a user,
    service scopes.  Seeding repairs the built-in roles, assignment is all or nothing, referential
    integrity is an invariant, and a user gets exactly the permissions of the assigned roles.
  \<^item> \<open>Authorization\<close> (\<open>router/middleware/permission.go\<close>): the gates, the authorization matrix shown to
    the front end and the choice of audited requests.  The chain fails closed, the matrix agrees with
    the gates, and only reads go unrecorded.
  \<^item> \<open>Approval\<close>, \<open>Approval_Props\<close> (\<open>internal/services/approval\<close>): creation, reuse, review and results of
    approval requests.  Interleavings of requests are an inductive step relation; nobody reviews an own
    request in any reachable state and a decision is final.
  \<^item> \<open>Operation_Preview\<close> (\<open>internal/services/operationpreview\<close>): a preview returns what was stored and is
    consumed once.  \<open>Credential\<close> (\<open>utils/credential.go\<close>): decryption inverts encryption.
  \<^item> \<open>Sessions\<close>, \<open>Mfa\<close>, \<open>Mfa_Props\<close>, \<open>Password_Guard\<close> (\<open>internal/services/security\<close>): revocation is
    permanent, a one-time password is accepted within one step of the clock and no step serves twice,
    five failures lock re-authentication out.
  \<^item> \<open>Tickets\<close> (\<open>internal/services/ssh/ticket.go\<close>, \<open>internal/services/container/terminal.go\<close>): a ticket
    admits at most once, through the locale \<open>single_use\<close> of stores in memory.
  \<^item> \<open>Request_Auth\<close>, \<open>Request_Props\<close> (\<open>router/middleware/auth.go\<close>, \<open>utils/jwt.go\<close>): whoever is let
    through has an enabled account and a live session.  This theory composes it with \<open>Sessions\<close>: a
    signed-out session admits nobody.
  \<^item> \<open>Audit_Trail\<close>, \<open>Audit_Props\<close>, \<open>Audit_Ops\<close>, \<open>Audit_Log\<close> (\<open>internal/services/audit\<close> and the audit
    middleware): the hash chain with its signed head and checkpoints.  Every history of appends and
    cleanups keeps the chain valid, a changed event that still verifies exhibits a collision of the keyed
    hash, appending retries a busy database, and a served request is recorded truthfully.
  \<^item> \<open>Panel_Update\<close>, \<open>Panel_Update_Props\<close> (\<open>internal/services/panelupdate\<close>): the trusted signing keys, the
    signed keyset and manifest, and the check for an update.  The trust only moves forward, a keyset is
    accepted only on the word of a key trusted before, and an offered update is signed by a key in force.
  \<^item> \<open>Release_Archive\<close> (\<open>archive.go\<close>): unpacking a release, with sizes as 64-bit words.  Nothing is written
    outside the destination and the total is bounded.  \<open>Update_Install\<close>, \<open>Update_Install_Props\<close>,
    \<open>Update_Apply\<close> (\<open>manager.go\<close>): download and staging, the journal, the rollback, and the transaction of
    \<open>Apply\<close> with \<open>RollbackLast\<close>.  What is staged is what was signed, and a rollback stays inside the
    installation whatever the journal says.
  \<^item> \<open>Update_Disk\<close>, \<open>Update_Recovery\<close>, \<open>Update_Safety\<close>, \<open>Update_Phases\<close>, \<open>Update_Forward\<close>, \<open>Update_Switch\<close>,
    \<open>Update_Commit\<close>: a file system under that transaction.  An operation that fails may leave anything at
    the places it was about to replace.  At every point the snapshot and the journal are enough to go back,
    so an update that fails, or is interrupted at any point and rolled back later, leaves the installation
    as it was.
  \<^item> \<open>Net_Addr\<close>, \<open>Firewall_Rules\<close>, \<open>Firewall\<close>, \<open>Firewall_Forward\<close> (\<open>internal/services/safe\<close>): the rules of the
    firewall, their validation and normal form, the commands of the three backends, and every operation of
    the service on the tables and on a host that answers as it likes.  \<open>Firewall_Valid\<close>: normalising settles
    a rule and bounds its commands.  \<open>Firewall_Table\<close>, \<open>Firewall_Protected\<close>: after every history the tables are
    well typed, no rule closes the panel's port and the rows that protect it are untouched; the locale
    \<open>lasting\<close> collects what actions on the host cannot change.  \<open>Firewall_Sync\<close>, \<open>Firewall_Mirror\<close>,
    \<open>Firewall_Refine\<close>, \<open>Firewall_Props\<close>: triples for actions with compensations, and the refinement: on an
    iptables host the rules of the kernel are those of the active rows.

  \<^bold>\<open>Where the code falls short.\<close>  Some theorems state behaviour a reader would not expect: two overlapping
  reviews both succeed (\<open>overlapping_reviews_both_succeed\<close>), a request is shown as expired at an instant
  at which it can still be reviewed (\<open>expiry_instant_disagreement\<close>), retention deletes events that are
  not yet expired (\<open>retention_removes_unexpired\<close>), a revoked signing key can return
  (\<open>revoked_key_returns\<close>), a rule may deny every address if it names them in halves
  (\<open>deny_all_by_halves\<close>).

  \<^bold>\<open>Not modelled.\<close>  Services whose effect is outside the process: containers, software installation, web
  servers and sites, certificates, databases, cron, monitoring, backup, fail2ban, SSH connections, and the
  terminals' streams; of the firewall, the listing queries and the texts of warnings, and for UFW and
  firewalld what their commands do to the kernel; the HTTP handlers that bind and format requests
  around the services; start-up, configuration files and schema migration.  Of the database, the
  isolation of concurrent transactions is modelled only where the source relies on it (conditional
  updates, overlapping reviews).
\<close>

section \<open>Sessions and requests\<close>

text \<open>
  C6: Signing out ends access.  Once a session has been revoked, alone, with all of the user's
  sessions or as one of the others, then after any further history of session operations no
  request is admitted under it: not with a token, not with a cookie, not with a terminal
  ticket that was issued before, whichever engine calls fail, provided the random source does
  not draw the session's identifier again.
\<close>

theorem signed_out_session_refused:
  assumes "distinct (map us_id (sec_sessions (tables s)))"
    and "r \<in> set (sec_sessions (tables s))" and "us_user_id r = uid" and "us_deleted_at r = None"
    and "revoke_session now uid (us_id r) reason s = (Inr b, s1)
       \<or> revoke_all now uid reason s = (Inr n, s1)
       \<or> us_id r \<noteq> current \<and> revoke_others now uid current reason s = (Inr n, s1)"
    and "\<forall>t random input. CreateSession t random input \<in> set ops \<longrightarrow> raw_url_encode random \<noteq> us_id r"
    and "ps_security st = run_ops session_step ops (s1\<lparr>fate := fs\<rparr>)"
    and "auth_middleware env rq st = (Proceed who, st')"
  shows "id_session_id who \<noteq> us_id r"
proof
  assume same: "id_session_id who = us_id r"
  have "dead_session (id_session_id who) (tables (ps_security st))"
    unfolding same assms(7) by (rule revoked_stays_dead [OF assms(1-6)])
  then show False by (rule live_not_dead [OF auth_middleware_Proceed [OF assms(8)]])
qed

definition two_sessions :: "security_db engine" where
  "two_sessions = healthy \<lparr>sec_users = [demo_user], sec_mfa = [], sec_sessions = [demo_session\<lparr>us_id := ''s0''\<rparr>, demo_session]\<rparr>"

theorem signed_out_session_refused_witness:
  "\<exists>who st'. auth_middleware demo_auth_env (demo_auth_request ''Bearer t1'')
       (demo_auth_state\<lparr>ps_security := snd (revoke_session 5 4 ''s0'' ''logout'' two_sessions)\<rparr>) = (Proceed who, st')
     \<and> id_session_id who \<noteq> ''s0''"
proof -
  let ?old = "demo_session\<lparr>us_id := ''s0''\<rparr>"
  let ?st = "demo_auth_state\<lparr>ps_security := snd (revoke_session 5 4 ''s0'' ''logout'' two_sessions)\<rparr>"
  have r: "distinct (map us_id (sec_sessions (tables two_sessions)))" "?old \<in> set (sec_sessions (tables two_sessions))"
    "us_user_id ?old = 4" "us_deleted_at ?old = None"
    by (simp_all add: two_sessions_def demo_session_def)
  obtain b s1 where rev: "revoke_session 5 4 (us_id ?old) ''logout'' two_sessions = (Inr b, s1)"
    by (simp add: two_sessions_def revoke_session_def revoke_where_def bnd_run)
  then have st: "ps_security ?st = run_ops session_step [] (s1\<lparr>fate := fate s1\<rparr>)" by simp
  have "\<exists>who st'. auth_middleware demo_auth_env (demo_auth_request ''Bearer t1'') ?st = (Proceed who, st')"
    by (simp add: auth_middleware_def is_container_terminal_open_path_def demo_auth_request_def token_auth_def request_token_def
        validate_jwt_def demo_auth_env_def demo_claims_def demo_auth_state_def two_sessions_def revoke_session_def revoke_where_def
        live_account_def demo_user_def effective_security_version_def validate_session_def demo_session_def bnd_run Let_def)
  then obtain who st' where run: "auth_middleware demo_auth_env (demo_auth_request ''Bearer t1'') ?st = (Proceed who, st')" by blast
  from signed_out_session_refused [OF r disjI1 [OF rev] _ st run] run show ?thesis by auto
qed

end
